(* ===== verification/Float64.thy ===== *)
theory Float64
  imports Complex_Main "HOL-Library.Log_Nat"
begin

text \<open>
  Go's \<open>float64\<close>: a finite value is the rational number it denotes, and every
  arithmetic operation computes the exact result and rounds it to the nearest IEEE
  double, ties to even, with 53 significant bits, gradual underflow at
  \<open>2 ^ (-1074)\<close> and overflow to an infinity. NaN and the infinities are values of
  their own; the two zeros are identified, since no code of the repository can tell
  them apart. Operations are not fused. The lemmas at the end are what the components
  use: rounding is monotone, exact on integers up to \<open>2 ^ 53\<close>, and keeps the unit
  interval.
\<close>

section \<open>Rounding a rational to a double\<close>

definition rne :: "rat \<Rightarrow> int" where
  "rne x = (let f = \<lfloor>x\<rfloor>; d = x - of_int f in
     if d < 1 / 2 then f
     else if 1 / 2 < d then f + 1
     else if even f then f else f + 1)"

definition flog2 :: "rat \<Rightarrow> int" where
  "flog2 r = (if 1 \<le> r then bitlen \<lfloor>r\<rfloor> - 1 else - bitlen (\<lceil>1 / r\<rceil> - 1))"

definition pow2 :: "int \<Rightarrow> rat" where
  "pow2 e = (if 0 \<le> e then 2 ^ nat e else 1 / 2 ^ nat (- e))"

definition ulp_exp :: "rat \<Rightarrow> int" where
  "ulp_exp r = max (- 1074) (flog2 r - 52)"

definition rnd_pos :: "rat \<Rightarrow> rat" where
  "rnd_pos r = (let u = pow2 (ulp_exp r) in of_int (rne (r / u)) * u)"

definition rnd :: "rat \<Rightarrow> rat" where
  "rnd r = (if r = 0 then 0 else if 0 < r then rnd_pos r else - rnd_pos (- r))"

section \<open>Values and operations\<close>

datatype f64 = Fin rat | PInf | NInf | NaN

definition f64_of_rat :: "rat \<Rightarrow> f64" where
  "f64_of_rat r =
     (if 2 ^ 1024 - 2 ^ 970 \<le> r then PInf
      else if r \<le> - (2 ^ 1024 - 2 ^ 970) then NInf
      else Fin (rnd r))"

definition f_of_int :: "int \<Rightarrow> f64" where
  "f_of_int n = f64_of_rat (of_int n)"

fun fadd :: "f64 \<Rightarrow> f64 \<Rightarrow> f64" where
  "fadd (Fin a) (Fin b) = f64_of_rat (a + b)"
| "fadd NaN _ = NaN"
| "fadd _ NaN = NaN"
| "fadd PInf NInf = NaN"
| "fadd NInf PInf = NaN"
| "fadd PInf _ = PInf"
| "fadd _ PInf = PInf"
| "fadd NInf _ = NInf"
| "fadd _ NInf = NInf"

fun fneg :: "f64 \<Rightarrow> f64" where
  "fneg (Fin a) = Fin (- a)"
| "fneg PInf = NInf"
| "fneg NInf = PInf"
| "fneg NaN = NaN"

definition fsub :: "f64 \<Rightarrow> f64 \<Rightarrow> f64" where
  "fsub a b = fadd a (fneg b)"

definition inf_of_sgn :: "rat \<Rightarrow> f64" where
  "inf_of_sgn s = (if 0 < s then PInf else if s < 0 then NInf else NaN)"

fun fsgn :: "f64 \<Rightarrow> rat" where
  "fsgn (Fin a) = sgn a"
| "fsgn PInf = 1"
| "fsgn NInf = - 1"
| "fsgn NaN = 0"

fun fmul :: "f64 \<Rightarrow> f64 \<Rightarrow> f64" where
  "fmul (Fin a) (Fin b) = f64_of_rat (a * b)"
| "fmul NaN _ = NaN"
| "fmul _ NaN = NaN"
| "fmul a b = inf_of_sgn (fsgn a * fsgn b)"

fun fdiv :: "f64 \<Rightarrow> f64 \<Rightarrow> f64" where
  "fdiv (Fin a) (Fin b) = (if b = 0 then inf_of_sgn a else f64_of_rat (a / b))"
| "fdiv NaN _ = NaN"
| "fdiv _ NaN = NaN"
| "fdiv (Fin a) _ = Fin 0"
| "fdiv PInf (Fin b) = (if b < 0 then NInf else PInf)"
| "fdiv NInf (Fin b) = (if b < 0 then PInf else NInf)"
| "fdiv _ _ = NaN"

fun fle :: "f64 \<Rightarrow> f64 \<Rightarrow> bool" where
  "fle NaN _ = False"
| "fle _ NaN = False"
| "fle (Fin a) (Fin b) = (a \<le> b)"
| "fle NInf _ = True"
| "fle _ PInf = True"
| "fle _ _ = False"

definition flt :: "f64 \<Rightarrow> f64 \<Rightarrow> bool" where
  "flt a b = (fle a b \<and> \<not> fle b a)"

text \<open>A decimal literal of the source, \<open>0.7\<close>, is the double nearest to \<open>7/10\<close>.\<close>

abbreviation flit :: "rat \<Rightarrow> f64" where
  "flit r \<equiv> f64_of_rat r"

section \<open>Rounding to an integer\<close>

lemma rne_bounds: "\<lfloor>x\<rfloor> \<le> rne x \<and> rne x \<le> \<lfloor>x\<rfloor> + 1"
  by (simp add: rne_def Let_def)

lemma rne_of_int [simp]: "rne (of_int n) = n"
  by (simp add: rne_def Let_def)

lemma rne_mono: "x \<le> y \<Longrightarrow> rne x \<le> rne y"
proof (cases "\<lfloor>x\<rfloor> = \<lfloor>y\<rfloor>")
  case True
  assume "x \<le> y"
  with True show ?thesis by (auto simp: rne_def Let_def)
next
  case False
  assume "x \<le> y"
  with False have "\<lfloor>x\<rfloor> + 1 \<le> \<lfloor>y\<rfloor>" using floor_mono [of x y] by linarith
  with rne_bounds [of x] rne_bounds [of y] show ?thesis by linarith
qed

lemma rne_geI: "of_int n \<le> x \<Longrightarrow> n \<le> rne x"
  using rne_mono [of "of_int n" x] by simp

lemma rne_leI: "x \<le> of_int n \<Longrightarrow> rne x \<le> n"
  using rne_mono [of x "of_int n"] by simp

lemma rne_error: "\<bar>of_int (rne x) - x\<bar> \<le> 1 / 2"
proof -
  have "of_int \<lfloor>x\<rfloor> \<le> x" "x < of_int \<lfloor>x\<rfloor> + 1" by linarith+
  then show ?thesis by (auto simp: rne_def Let_def abs_le_iff)
qed

section \<open>Powers of two and the exponent of a rational\<close>

lemma pow2_pos [simp]: "0 < pow2 e"
  by (simp add: pow2_def)

lemma pow2_nonzero [simp]: "pow2 e \<noteq> 0"
  using pow2_pos [of e] by linarith

lemma pow2_nat: "pow2 (int n) = 2 ^ n"
  by (simp add: pow2_def)

lemma pow2_Suc: "pow2 (e + 1) = 2 * pow2 e"
proof (cases "0 \<le> e")
  case True
  then show ?thesis by (simp add: pow2_def nat_add_distrib)
next
  case False
  then have "nat (- e) = Suc (nat (- (e + 1)))" by simp
  with False show ?thesis by (auto simp: pow2_def)
qed

lemma pow2_add_nat: "pow2 (e + int n) = pow2 e * 2 ^ n"
proof (induction n)
  case (Suc n)
  have "pow2 (e + int (Suc n)) = pow2 ((e + int n) + 1)" by (simp add: ac_simps)
  also have "\<dots> = 2 * pow2 (e + int n)" by (rule pow2_Suc)
  finally show ?case using Suc by simp
qed simp

lemma pow2_add: "pow2 (a + b) = pow2 a * pow2 b"
proof (cases "0 \<le> b")
  case True
  then show ?thesis using pow2_add_nat [of a "nat b"] pow2_nat [of "nat b"] by simp
next
  case False
  then have "pow2 a = pow2 (a + b) * 2 ^ nat (- b)"
    using pow2_add_nat [of "a + b" "nat (- b)"] by simp
  with False show ?thesis by (simp add: pow2_def [of b])
qed

lemma pow2_mono: "a \<le> b \<Longrightarrow> pow2 a \<le> pow2 b"
proof -
  assume "a \<le> b"
  then have "pow2 b = pow2 a * 2 ^ nat (b - a)"
    using pow2_add_nat [of a "nat (b - a)"] by simp
  moreover have "(1 :: rat) \<le> 2 ^ nat (b - a)" by simp
  ultimately show ?thesis using mult_left_mono [of 1 "2 ^ nat (b - a)" "pow2 a"] pow2_pos [of a]
    by simp
qed


lemma flog2_bounds:
  assumes "0 < r"
  shows "pow2 (flog2 r) \<le> r \<and> r < pow2 (flog2 r + 1)"
proof (cases "1 \<le> r")
  case True
  then have pos: "0 < \<lfloor>r\<rfloor>" by linarith
  have b: "2 ^ nat (bitlen \<lfloor>r\<rfloor> - 1) \<le> \<lfloor>r\<rfloor>" "\<lfloor>r\<rfloor> < 2 ^ nat (bitlen \<lfloor>r\<rfloor>)"
    using bitlen_bounds [OF pos] by auto
  have k: "1 \<le> bitlen \<lfloor>r\<rfloor>" using b pos by (cases "bitlen \<lfloor>r\<rfloor> \<le> 0") simp_all
  have "(of_int (2 ^ nat (bitlen \<lfloor>r\<rfloor> - 1)) :: rat) \<le> of_int \<lfloor>r\<rfloor>" using b(1) by (simp only: of_int_le_iff)
  then have "of_int (2 ^ nat (bitlen \<lfloor>r\<rfloor> - 1)) \<le> r" by linarith
  then have lo: "2 ^ nat (bitlen \<lfloor>r\<rfloor> - 1) \<le> r" by simp
  have "(of_int (\<lfloor>r\<rfloor> + 1) :: rat) \<le> of_int (2 ^ nat (bitlen \<lfloor>r\<rfloor>))"
    using b(2) by (simp only: of_int_le_iff)
  then have "r < of_int (2 ^ nat (bitlen \<lfloor>r\<rfloor>))" by linarith
  then have hi: "r < 2 ^ nat (bitlen \<lfloor>r\<rfloor>)" by simp
  from True k lo hi show ?thesis by (simp add: flog2_def pow2_def)
next
  case False
  define m where "m = \<lceil>1 / r\<rceil> - 1"
  have m1: "of_int m < 1 / r" "1 / r \<le> of_int (m + 1)" by (simp_all add: m_def) linarith
  have pos: "0 < m" using False assms by (simp add: m_def divide_simps)
  have b: "2 ^ nat (bitlen m - 1) \<le> m" "m < 2 ^ nat (bitlen m)"
    using bitlen_bounds [OF pos] by auto
  have k: "1 \<le> bitlen m" using b pos by (cases "bitlen m \<le> 0") simp_all
  have "(of_int (2 ^ nat (bitlen m - 1)) :: rat) \<le> of_int m" using b(1) by (simp only: of_int_le_iff)
  then have "of_int (2 ^ nat (bitlen m - 1)) < 1 / r" using m1 by linarith
  then have lo: "2 ^ nat (bitlen m - 1) < 1 / r" by simp
  have "(of_int (m + 1) :: rat) \<le> of_int (2 ^ nat (bitlen m))"
    using b(2) by (simp only: of_int_le_iff)
  then have hi: "1 / r \<le> 2 ^ nat (bitlen m)" using m1 by simp
  have "pow2 (- bitlen m) = 1 / 2 ^ nat (bitlen m)" using k by (simp add: pow2_def)
  moreover have "pow2 (- bitlen m + 1) = 1 / 2 ^ nat (bitlen m - 1)"
    using k by (auto simp: pow2_def)
  moreover have "1 / 2 ^ nat (bitlen m) \<le> r" using hi assms by (simp add: divide_simps mult.commute)
  moreover have "r < 1 / 2 ^ nat (bitlen m - 1)" using lo assms by (simp add: divide_simps mult.commute)
  moreover have "flog2 r = - bitlen m" using False by (simp add: flog2_def m_def)
  ultimately show ?thesis by simp
qed

lemma pow2_less_cancel: "pow2 a < pow2 b \<Longrightarrow> a < b"
  using pow2_mono [of b a] by linarith

lemma flog2_mono: "0 < x \<Longrightarrow> x \<le> y \<Longrightarrow> flog2 x \<le> flog2 y"
proof -
  assume "0 < x" "x \<le> y"
  then have "pow2 (flog2 x) < pow2 (flog2 y + 1)"
    using flog2_bounds [of x] flog2_bounds [of y] by linarith
  then show ?thesis using pow2_less_cancel by fastforce
qed

section \<open>The rounding function\<close>

lemma rnd_zero [simp]: "rnd 0 = 0"
  by (simp add: rnd_def)

lemma rnd_minus [simp]: "rnd (- r) = - rnd r"
  by (simp add: rnd_def)

lemma rnd_pos_nonneg: "0 < r \<Longrightarrow> 0 \<le> rnd_pos r"
proof -
  assume "0 < r"
  then have "0 \<le> r / pow2 (ulp_exp r)" by (simp add: less_imp_le)
  then have "0 \<le> rne (r / pow2 (ulp_exp r))" by (intro rne_geI) simp
  then show ?thesis by (simp add: rnd_pos_def Let_def less_imp_le)
qed

lemma rnd_pos_mono:
  assumes "0 < x" "x \<le> y"
  shows "rnd_pos x \<le> rnd_pos y"
proof (cases "ulp_exp x = ulp_exp y")
  case True
  have "rne (x / pow2 (ulp_exp y)) \<le> rne (y / pow2 (ulp_exp y))"
    using assms by (intro rne_mono divide_right_mono) (simp_all add: less_imp_le)
  with True show ?thesis by (simp add: rnd_pos_def Let_def)
next
  case False
  define ex where "ex = ulp_exp x"
  define ey where "ey = ulp_exp y"
  have less: "ex + 1 \<le> ey" using False flog2_mono [OF assms] by (auto simp: ulp_exp_def ex_def ey_def)
  then have ey: "ey = flog2 y - 52" by (auto simp: ulp_exp_def ex_def ey_def)
  have "pow2 (ey + 52) \<le> y" using flog2_bounds [of y] assms ey by simp
  then have "of_int (2 ^ 52) \<le> y / pow2 ey" using pow2_add_nat [of ey 52] by (simp add: divide_simps)
  then have "2 ^ 52 \<le> rne (y / pow2 ey)" by (rule rne_geI)
  then have hi: "2 ^ 52 * pow2 ey \<le> rnd_pos y"
    using of_int_le_iff [of "2 ^ 52" "rne (y / pow2 ey)", where ?'a = rat]
    by (simp add: rnd_pos_def Let_def ey_def [symmetric])
  have "pow2 (flog2 x + 1) \<le> pow2 (ex + 53)" by (rule pow2_mono) (simp add: ex_def ulp_exp_def)
  then have "x \<le> pow2 (ex + 53)" using flog2_bounds [of x] assms by linarith
  then have "x / pow2 ex \<le> of_int (2 ^ 53)" using pow2_add_nat [of ex 53] by (simp add: divide_simps)
  then have "rne (x / pow2 ex) \<le> 2 ^ 53" by (rule rne_leI)
  then have lo: "rnd_pos x \<le> 2 ^ 53 * pow2 ex"
    using of_int_le_iff [of "rne (x / pow2 ex)" "2 ^ 53", where ?'a = rat]
    by (simp add: rnd_pos_def Let_def ex_def [symmetric])
  have "2 ^ 53 * pow2 ex = 2 ^ 52 * pow2 (ex + 1)" by (simp add: pow2_Suc)
  also have "\<dots> \<le> 2 ^ 52 * pow2 ey" using pow2_mono [OF less] by simp
  finally show ?thesis using lo hi by linarith
qed

lemma rnd_mono: "x \<le> y \<Longrightarrow> rnd x \<le> rnd y"
proof -
  assume le: "x \<le> y"
  consider "0 < x" | "x \<le> 0" "0 \<le> y" | "y < 0" by linarith
  then show ?thesis
  proof cases
    case 1
    with le show ?thesis by (simp add: rnd_def rnd_pos_mono)
  next
    case 2
    have "rnd x \<le> 0" using 2 rnd_pos_nonneg [of "- x"] by (simp add: rnd_def)
    moreover have "0 \<le> rnd y" using 2 rnd_pos_nonneg [of y] by (simp add: rnd_def)
    ultimately show ?thesis by linarith
  next
    case 3
    with le show ?thesis by (simp add: rnd_def rnd_pos_mono)
  qed
qed

text \<open>Rounding moves a value by at most half a unit in the last place.\<close>

lemma rnd_error:
  assumes "0 < r"
  shows "\<bar>rnd r - r\<bar> \<le> pow2 (ulp_exp r) / 2"
proof -
  define u where "u = pow2 (ulp_exp r)"
  have u: "0 < u" by (simp add: u_def)
  have "rnd r - r = (of_int (rne (r / u)) - r / u) * u"
    using assms u by (simp add: rnd_def rnd_pos_def Let_def u_def [symmetric] left_diff_distrib)
  then have "\<bar>rnd r - r\<bar> = \<bar>of_int (rne (r / u)) - r / u\<bar> * u" using u by (simp add: abs_mult)
  also have "\<dots> \<le> 1 / 2 * u" using rne_error [of "r / u"] u by (intro mult_right_mono) simp_all
  finally show ?thesis by (simp add: u_def)
qed

text \<open>A value with at most 53 significant bits is not changed.\<close>

lemma rnd_exact:
  assumes "0 \<le> n" "n \<le> 2 ^ 53" "- 1074 \<le> e"
  shows "rnd (of_int n * pow2 e) = of_int n * pow2 e"
proof (cases "n = 0")
  case False
  define r where "r = of_int n * pow2 e"
  have pos: "0 < r" using False assms by (simp add: r_def)
  have ex: "\<exists>k. r = of_int k * pow2 (ulp_exp r)"
  proof (cases "n = 2 ^ 53")
    case True
    then have "r = pow2 (e + 53)" using pow2_add_nat [of e 53] by (simp add: r_def)
    moreover from this have "flog2 r = e + 53"
      using flog2_bounds [OF pos] pow2_less_cancel [of "flog2 r" "e + 53 + 1"]
        pow2_less_cancel [of "e + 53" "flog2 r + 1"] pow2_mono [of "flog2 r" "e + 53"]
        pow2_Suc [of "e + 53"] pow2_pos [of "e + 53"] by linarith
    ultimately have "r = of_int (2 ^ 52) * pow2 (ulp_exp r)"
      using assms pow2_add_nat [of "e + 1" 52] by (simp add: ulp_exp_def add.commute)
    then show ?thesis ..
  next
    case False
    then have "of_int n < (2 :: rat) ^ 53" using assms
      by (metis less_le of_int_less_iff of_int_numeral of_int_power)
    then have "r < pow2 (e + 53)" using pow2_add_nat [of e 53] by (simp add: r_def mult.commute)
    then have "flog2 r < e + 53"
      using flog2_bounds [OF pos] pow2_less_cancel by fastforce
    then have "ulp_exp r \<le> e" using assms by (simp add: ulp_exp_def)
    then have "r = of_int (n * 2 ^ nat (e - ulp_exp r)) * pow2 (ulp_exp r)"
      using pow2_add_nat [of "ulp_exp r" "nat (e - ulp_exp r)"] by (simp add: r_def mult.commute)
    then show ?thesis ..
  qed
  then obtain k where k: "r = of_int k * pow2 (ulp_exp r)" ..
  from arg_cong [OF this, of "\<lambda>z. z / pow2 (ulp_exp r)"]
  have "r / pow2 (ulp_exp r) = of_int k" by (simp only: nonzero_mult_div_cancel_right [OF pow2_nonzero])
  then have "rnd r = of_int k * pow2 (ulp_exp r)" using pos by (simp add: rnd_def rnd_pos_def Let_def)
  with k have "rnd r = r" by simp
  then show ?thesis by (simp add: r_def)
qed simp


text \<open>
  The nearest double, for literals and constants: \<open>n\<close> is the mantissa at the exponent \<open>e\<close> of the
  value.
\<close>

lemma rne_nearest: "\<bar>x - of_int n\<bar> < 1 / 2 \<Longrightarrow> rne x = n"
proof -
  assume x: "\<bar>x - of_int n\<bar> < 1 / 2"
  have "\<bar>of_int (rne x) - of_int n\<bar> < (1 :: rat)" using x rne_error [of x] by linarith
  then have "\<bar>of_int (rne x - n)\<bar> < (1 :: rat)" by simp
  then show ?thesis by linarith
qed

lemma rnd_nearest:
  assumes "2 ^ 52 * pow2 e \<le> r" "r < 2 ^ 53 * pow2 e" "- 1074 \<le> e" "\<bar>r - of_int n * pow2 e\<bar> < pow2 e / 2"
  shows "rnd r = of_int n * pow2 e"
proof -
  have "0 < 2 ^ 52 * pow2 e" by simp
  then have pos: "0 < r" using assms(1) by linarith
  have "pow2 (e + 52) \<le> r" "r < pow2 (e + 53)"
    using assms(1,2) pow2_add_nat [of e 52] pow2_add_nat [of e 53] by (simp_all add: mult.commute)
  with flog2_bounds [OF pos] have "pow2 (e + 52) < pow2 (flog2 r + 1)" "pow2 (flog2 r) < pow2 (e + 53)" by linarith+
  from this [THEN pow2_less_cancel] have u: "ulp_exp r = e" using assms(3) by (simp add: ulp_exp_def)
  have "r / pow2 e - of_int n = (r - of_int n * pow2 e) / pow2 e"
    by (simp only: diff_divide_distrib nonzero_mult_div_cancel_right [OF pow2_nonzero])
  then have "\<bar>r / pow2 e - of_int n\<bar> = \<bar>r - of_int n * pow2 e\<bar> / pow2 e"
    by (simp only: abs_divide abs_of_pos [OF pow2_pos])
  also have "\<dots> < 1 / 2" using assms(4) by (simp add: pos_divide_less_eq [OF pow2_pos])
  finally have "rne (r / pow2 e) = n" by (rule rne_nearest)
  with pos u show ?thesis by (simp add: rnd_def rnd_pos_def Let_def)
qed

section \<open>Laws of the operations\<close>

text \<open>The values the components compute with are far from overflow.\<close>

lemma f64_of_rat_Fin: "\<bar>r\<bar> \<le> 2 ^ 53 \<Longrightarrow> f64_of_rat r = Fin (rnd r)"
  by (auto simp: f64_of_rat_def)

lemma f64_of_rat_code [code]:
  "f64_of_rat r =
     (if \<bar>r\<bar> \<le> 9007199254740992 then Fin (rnd r)
      else if 2 ^ 1024 - 2 ^ 970 \<le> r then PInf
      else if r \<le> - (2 ^ 1024 - 2 ^ 970) then NInf
      else Fin (rnd r))"
  by (auto simp: f64_of_rat_def)

lemma rnd_of_int: "\<bar>n\<bar> \<le> 2 ^ 53 \<Longrightarrow> rnd (of_int n) = of_int n"
proof (cases "0 \<le> n")
  case True
  assume "\<bar>n\<bar> \<le> 2 ^ 53"
  with True show ?thesis using rnd_exact [of n 0] by (simp add: pow2_def)
next
  case False
  assume "\<bar>n\<bar> \<le> 2 ^ 53"
  with False have "rnd (- of_int n) = - of_int n" using rnd_exact [of "- n" 0] by (simp add: pow2_def)
  then show ?thesis by simp
qed

lemma rnd_one [simp]: "rnd 1 = 1"
  using rnd_of_int [of 1] by simp

lemma f_of_int_exact: "\<bar>n\<bar> \<le> 2 ^ 53 \<Longrightarrow> f_of_int n = Fin (of_int n)"
proof -
  assume n: "\<bar>n\<bar> \<le> 2 ^ 53"
  then have "of_int \<bar>n\<bar> \<le> (of_int (2 ^ 53) :: rat)" by (simp only: of_int_le_iff)
  with n show ?thesis by (simp add: f_of_int_def f64_of_rat_Fin rnd_of_int)
qed

lemma fle_Fin [simp]: "fle (Fin a) (Fin b) \<longleftrightarrow> a \<le> b"
  by simp

lemma flt_Fin [simp]: "flt (Fin a) (Fin b) \<longleftrightarrow> a < b"
  by (auto simp: flt_def)

lemma flt_NaN [simp]: "\<not> flt NaN x" "\<not> flt x NaN"
  by (cases x; simp add: flt_def)+

definition in_range :: "rat \<Rightarrow> rat \<Rightarrow> f64 \<Rightarrow> bool" where
  "in_range lo hi x = (fle (Fin lo) x \<and> fle x (Fin hi))"

abbreviation unit_f :: "f64 \<Rightarrow> bool" where
  "unit_f \<equiv> in_range 0 1"

lemma in_range_Fin [simp]: "in_range lo hi (Fin r) \<longleftrightarrow> lo \<le> r \<and> r \<le> hi"
  by (simp add: in_range_def)

lemma in_range_cases: "in_range lo hi x \<Longrightarrow> (\<And>r. x = Fin r \<Longrightarrow> lo \<le> r \<Longrightarrow> r \<le> hi \<Longrightarrow> P) \<Longrightarrow> P"
  by (cases x) (auto simp: in_range_def)

lemma rnd_between:
  "lo \<le> r \<Longrightarrow> r \<le> hi \<Longrightarrow> rnd lo = lo \<Longrightarrow> rnd hi = hi \<Longrightarrow> lo \<le> rnd r \<and> rnd r \<le> hi"
  using rnd_mono [of lo r] rnd_mono [of r hi] by simp

lemma rnd_unit: "0 \<le> r \<Longrightarrow> r \<le> 1 \<Longrightarrow> 0 \<le> rnd r \<and> rnd r \<le> 1"
  using rnd_between [of 0 r 1] by simp

lemma rnd_nonneg [simp]: "0 \<le> r \<Longrightarrow> 0 \<le> rnd r"
  using rnd_mono [of 0 r] by simp

lemma rnd_le_one [simp]: "r \<le> 1 \<Longrightarrow> rnd r \<le> 1"
  using rnd_mono [of r 1] by simp

lemma unit_f64_of_rat: "0 \<le> r \<Longrightarrow> r \<le> 1 \<Longrightarrow> f64_of_rat r = Fin (rnd r) \<and> unit_f (Fin (rnd r))"
  by (simp add: f64_of_rat_Fin rnd_unit)

lemma fmul_unit: "unit_f a \<Longrightarrow> unit_f b \<Longrightarrow> unit_f (fmul a b)"
  by (auto elim!: in_range_cases simp: unit_f64_of_rat mult_le_one)

text \<open>A ratio of two counters is a double between 0 and 1.\<close>

lemma frac_unit:
  assumes "0 \<le> a" "a \<le> b" "0 < b" "b \<le> 2 ^ 53"
  shows "fdiv (f_of_int a) (f_of_int b) = Fin (rnd (of_int a / of_int b))"
    and "unit_f (fdiv (f_of_int a) (f_of_int b))"
proof -
  have "0 \<le> (of_int a :: rat) / of_int b" "(of_int a :: rat) / of_int b \<le> 1" using assms by simp_all
  then have u: "f64_of_rat (of_int a / of_int b) = Fin (rnd (of_int a / of_int b))"
    "unit_f (Fin (rnd (of_int a / of_int b)))" using unit_f64_of_rat by blast+
  have eq: "f_of_int a = Fin (of_int a)" "f_of_int b = Fin (of_int b)"
    using assms by (intro f_of_int_exact; simp)+
  show "fdiv (f_of_int a) (f_of_int b) = Fin (rnd (of_int a / of_int b))"
    using assms u by (simp add: eq)
  with u show "unit_f (fdiv (f_of_int a) (f_of_int b))" by simp
qed

text \<open>
  Interval arithmetic: bounds that are doubles themselves (\<open>dbl\<close>) carry over to rounded results.
\<close>

definition dbl :: "rat \<Rightarrow> bool" where
  "dbl r \<longleftrightarrow> rnd r = r \<and> \<bar>r\<bar> \<le> 2 ^ 53"

lemma dblI:
  assumes "r = of_int n * pow2 e" "\<bar>n\<bar> \<le> 2 ^ 53" "- 1074 \<le> e" "e \<le> 0"
  shows "dbl r"
proof -
  have "rnd (of_int \<bar>n\<bar> * pow2 e) = of_int \<bar>n\<bar> * pow2 e" using assms(2,3) by (intro rnd_exact) simp_all
  then have "rnd r = r" using rnd_minus [of "of_int \<bar>n\<bar> * pow2 e"] assms(1) by (cases "0 \<le> n") simp_all
  moreover have "pow2 e \<le> 1" using pow2_mono [OF assms(4)] pow2_nat [of 0] by simp
  moreover have "\<bar>(of_int n :: rat)\<bar> \<le> 2 ^ 53"
  proof -
    have "(of_int \<bar>n\<bar> :: rat) \<le> of_int (2 ^ 53)" using assms(2) by (simp only: of_int_le_iff)
    then show ?thesis by simp
  qed
  ultimately show ?thesis unfolding dbl_def assms(1)
    using mult_mono [of "\<bar>(of_int n :: rat)\<bar>" "2 ^ 53" "pow2 e" 1] abs_of_pos [OF pow2_pos [of e]] by (simp add: abs_mult)
qed

lemma in_range_rat: "lo \<le> r \<Longrightarrow> r \<le> hi \<Longrightarrow> dbl lo \<Longrightarrow> dbl hi \<Longrightarrow> in_range lo hi (f64_of_rat r)"
proof -
  assume r: "lo \<le> r" "r \<le> hi" and d: "dbl lo" "dbl hi"
  then have "\<bar>r\<bar> \<le> 2 ^ 53" unfolding dbl_def by linarith
  then show ?thesis using rnd_between [OF r] d by (simp add: f64_of_rat_Fin dbl_def)
qed

lemma in_range_add:
  "in_range a b x \<Longrightarrow> in_range c d y \<Longrightarrow> lo \<le> a + c \<Longrightarrow> b + d \<le> hi \<Longrightarrow> dbl lo \<Longrightarrow> dbl hi \<Longrightarrow> in_range lo hi (fadd x y)"
  by (auto elim!: in_range_cases intro!: in_range_rat)

lemma in_range_neg: "in_range a b x \<Longrightarrow> in_range (- b) (- a) (fneg x)"
  by (auto elim!: in_range_cases)

lemma in_range_sub:
  "in_range a b x \<Longrightarrow> in_range c d y \<Longrightarrow> lo \<le> a - d \<Longrightarrow> b - c \<le> hi \<Longrightarrow> dbl lo \<Longrightarrow> dbl hi \<Longrightarrow> in_range lo hi (fsub x y)"
  unfolding fsub_def using in_range_add [of a b x "- d" "- c" "fneg y" lo hi] in_range_neg [of c d y] by simp

lemma in_range_mul:
  assumes "in_range a b x" "in_range c d y" "0 \<le> a" "- d \<le> c" "0 \<le> d" "lo \<le> b * c" "lo \<le> 0" "b * d \<le> hi" "dbl lo" "dbl hi"
  shows "in_range lo hi (fmul x y)"
proof -
  obtain r s where rs: "x = Fin r" "a \<le> r" "r \<le> b" "y = Fin s" "c \<le> s" "s \<le> d"
    using assms(1,2) by (auto elim!: in_range_cases)
  have "r * s \<le> b * d" using rs assms(3,5) by (cases "0 \<le> s") (auto intro: mult_mono order_trans [of _ 0] simp: mult_nonneg_nonpos)
  moreover have "lo \<le> r * s"
  proof (cases "0 \<le> s")
    case True
    then show ?thesis using rs assms(3,7) by (intro order_trans [OF assms(7)]) simp
  next
    case False
    then have "b * s \<le> r * s" using rs by (intro mult_right_mono_neg) simp_all
    moreover have "b * c \<le> b * s" using rs assms(3) by (intro mult_left_mono) simp_all
    ultimately show ?thesis using assms(6) by linarith
  qed
  ultimately show ?thesis using rs assms(8-10) by (auto intro!: in_range_rat)
qed

lemma in_range_mono: "in_range a b x \<Longrightarrow> lo \<le> a \<Longrightarrow> b \<le> hi \<Longrightarrow> in_range lo hi x"
  by (auto elim!: in_range_cases)

lemma in_range_fle: "in_range a b x \<Longrightarrow> in_range c d y \<Longrightarrow> b \<le> c \<Longrightarrow> fle x y"
  by (auto elim!: in_range_cases)

end
