(* ===== verification/Go_Prelude.thy ===== *)
theory Go_Prelude
  imports Float64 "HOL-Library.AList" "HOL-Library.Multiset" "HOL-Library.Sublist" "HOL-Library.Char_ord"
    "HOL-Library.List_Lexorder"
begin

text \<open>
  What every component shares: Go's time and duration arithmetic, 64-bit wrap-around,
  maps as association lists with distinct keys, and the functions of the \<open>strings\<close>
  package the repository calls. Strings are byte lists; case folding and white space are
  those of ASCII text.
\<close>

named_theorems breaker_laws "laws of the circuit breakers, for the interpretations"
named_theorems go_maps "lookups and key lists after a map operation"

section \<open>Outcomes of calls\<close>

text \<open>
  The outcome of a call that can panic, or of a loop that is given an amount of fuel:
  properties that a loop ends state an amount that is enough.
\<close>

datatype 'a outcome = Returned 'a | Panicked | OutOfFuel

section \<open>Time and machine integers\<close>

text \<open>
  An instant is the number of nanoseconds since the zero \<open>time.Time\<close>, a duration a
  number of nanoseconds; \<open>Sub\<close> and \<open>Since\<close> saturate at the ends of \<open>int64\<close>. Every
  operation that reads the clock takes the instant it reads as its argument \<open>now\<close>.
\<close>

type_synonym time = int
type_synonym duration = int

abbreviation millisecond :: duration where "millisecond \<equiv> 1000000"
abbreviation second :: duration where "second \<equiv> 1000000000"
abbreviation minute :: duration where "minute \<equiv> 60000000000"
abbreviation max_int64 :: int where "max_int64 \<equiv> 9223372036854775807"
abbreviation min_int64 :: int where "min_int64 \<equiv> - 9223372036854775808"

definition time_sub :: "time \<Rightarrow> time \<Rightarrow> duration" where
  "time_sub t u = max min_int64 (min max_int64 (t - u))"

definition is_zero_time :: "time \<Rightarrow> bool" where
  "is_zero_time t = (t = 0)"

definition wrap64 :: "int \<Rightarrow> int" where
  "wrap64 x = (x + 9223372036854775808) mod 18446744073709551616 - 9223372036854775808"

text \<open>Integer division truncates towards zero.\<close>

definition go_div :: "int \<Rightarrow> int \<Rightarrow> int" where
  "go_div a b = sgn a * sgn b * (\<bar>a\<bar> div \<bar>b\<bar>)"

lemma wrap64_id [simp]: "min_int64 \<le> x \<Longrightarrow> x \<le> max_int64 \<Longrightarrow> wrap64 x = x"
  by (simp add: wrap64_def)

lemma wrap64_range: "min_int64 \<le> wrap64 x \<and> wrap64 x \<le> max_int64"
  by (simp add: wrap64_def)

lemma time_sub_less: "d \<le> max_int64 \<Longrightarrow> min_int64 < d \<Longrightarrow> time_sub t u < d \<longleftrightarrow> t < u + d"
  by (auto simp: time_sub_def)

lemma time_sub_ge: "d \<le> max_int64 \<Longrightarrow> min_int64 < d \<Longrightarrow> d \<le> time_sub t u \<longleftrightarrow> u + d \<le> t"
  by (auto simp: time_sub_def)

lemma time_sub_gt: "d < max_int64 \<Longrightarrow> min_int64 \<le> d \<Longrightarrow> d < time_sub t u \<longleftrightarrow> u + d < t"
  by (auto simp: time_sub_def)

lemma time_sub_mono: "t \<le> t' \<Longrightarrow> time_sub t u \<le> time_sub t' u"
  by (auto simp: time_sub_def)

section \<open>Maps\<close>

text \<open>
  A Go map is an association list with distinct keys. Its order stands for the order a
  \<open>range\<close> loop happens to visit the keys in, which Go leaves open: properties of
  such loops are stated for every order.
\<close>

type_synonym ('k, 'v) gomap = "('k \<times> 'v) list"

definition wf_map :: "('k, 'v) gomap \<Rightarrow> bool" where
  "wf_map m = distinct (map fst m)"

definition mget :: "('k, 'v) gomap \<Rightarrow> 'k \<Rightarrow> 'v option" where
  "mget m k = map_of m k"

definition mset_at :: "('k, 'v) gomap \<Rightarrow> 'k \<Rightarrow> 'v \<Rightarrow> ('k, 'v) gomap" where
  "mset_at m k v = AList.update k v m"

definition mdelete :: "('k, 'v) gomap \<Rightarrow> 'k \<Rightarrow> ('k, 'v) gomap" where
  "mdelete m k = AList.delete k m"

definition mget_or :: "'v \<Rightarrow> ('k, 'v) gomap \<Rightarrow> 'k \<Rightarrow> 'v" where
  "mget_or d m k = (case mget m k of None \<Rightarrow> d | Some v \<Rightarrow> v)"

text \<open>\<open>m[k]++\<close> on a map of counters.\<close>

definition mincr :: "('k, int) gomap \<Rightarrow> 'k \<Rightarrow> ('k, int) gomap" where
  "mincr m k = mset_at m k (mget_or 0 m k + 1)"

lemma wf_map_Nil [simp, go_maps]: "wf_map []"
  by (simp add: wf_map_def)

lemma wf_mset_at [simp, go_maps]: "wf_map m \<Longrightarrow> wf_map (mset_at m k v)"
  by (simp add: wf_map_def mset_at_def distinct_update)

lemma wf_mdelete [simp, go_maps]: "wf_map m \<Longrightarrow> wf_map (mdelete m k)"
  by (simp add: wf_map_def mdelete_def distinct_delete)

lemma mget_Nil [simp, go_maps]: "mget [] k = None"
  by (simp add: mget_def)

lemma mget_mset_at [simp, go_maps]: "mget (mset_at m k v) j = (if j = k then Some v else mget m j)"
  by (simp add: mget_def mset_at_def update_conv')

lemma mget_mdelete [simp, go_maps]: "mget (mdelete m k) j = (if j = k then None else mget m j)"
  by (simp add: mget_def mdelete_def delete_conv')

lemma mget_or_Nil [simp, go_maps]: "mget_or d [] k = d"
  by (simp add: mget_or_def)

lemma mget_key: "k \<in> fst ` set m \<longleftrightarrow> mget m k \<noteq> None"
  by (simp add: mget_def map_of_eq_None_iff)

lemma keys_mset_at [simp, go_maps]: "fst ` set (mset_at m k v) = insert k (fst ` set m)"
  by (induction m) (auto simp: mset_at_def)

lemma mget_or_mset_at [simp, go_maps]:
  "mget_or d (mset_at m k v) j = (if j = k then v else mget_or d m j)"
  by (simp add: mget_or_def)

lemma mget_or_mincr [simp, go_maps]:
  "mget_or 0 (mincr m k) j = (if j = k then mget_or 0 m k + 1 else mget_or 0 m j)"
  by (simp add: mincr_def)

lemma wf_mincr [simp, go_maps]: "wf_map m \<Longrightarrow> wf_map (mincr m k)"
  by (simp add: mincr_def)

lemma mget_in_set: "wf_map m \<Longrightarrow> mget m k = Some v \<longleftrightarrow> (k, v) \<in> set m"
  by (simp add: mget_def wf_map_def)

lemma mget_perm: "wf_map m \<Longrightarrow> mset m = mset m' \<Longrightarrow> mget m k = mget m' k"
proof -
  assume wf: "wf_map m" and eq: "mset m = mset m'"
  then have "mset (map fst m) = mset (map fst m')" by simp
  from mset_eq_imp_distinct_iff [OF this] wf have wf': "wf_map m'" by (simp add: wf_map_def)
  have "mget m k = Some v \<longleftrightarrow> mget m' k = Some v" for v
    using wf wf' eq by (simp add: mget_in_set) (metis set_mset_mset)
  then show ?thesis by (metis not_Some_eq)
qed

section \<open>Strings\<close>

definition to_lower_char :: "char \<Rightarrow> char" where
  "to_lower_char c = (let n = (of_char c :: nat) in if 65 \<le> n \<and> n \<le> 90 then char_of (n + 32) else c)"

definition to_lower :: "string \<Rightarrow> string" where
  "to_lower s = map to_lower_char s"

fun contains :: "string \<Rightarrow> string \<Rightarrow> bool" where
  "contains [] sub = (sub = [])"
| "contains (c # s) sub = (prefix sub (c # s) \<or> contains s sub)"

lemma contains_sublist: "contains s sub = sublist sub s"
  by (induction s) (auto simp: sublist_Cons_right)

definition is_space :: "char \<Rightarrow> bool" where
  "is_space c = (let n = (of_char c :: nat) in n = 32 \<or> (9 \<le> n \<and> n \<le> 13))"

definition trim_space :: "string \<Rightarrow> string" where
  "trim_space s = rev (dropWhile is_space (rev (dropWhile is_space s)))"

fun split_on :: "char \<Rightarrow> string \<Rightarrow> string list" where
  "split_on d [] = [[]]"
| "split_on d (c # s) =
     (if c = d then [] # split_on d s
      else case split_on d s of [] \<Rightarrow> [[c]] | w # ws \<Rightarrow> (c # w) # ws)"

fun words_acc :: "string \<Rightarrow> string \<Rightarrow> string list" where
  "words_acc w [] = (if w = [] then [] else [rev w])"
| "words_acc w (c # s) =
     (if is_space c then (if w = [] then words_acc [] s else rev w # words_acc [] s)
      else words_acc (c # w) s)"

text \<open>\<open>strings.Fields\<close>.\<close>

definition words_of :: "string \<Rightarrow> string list" where
  "words_of s = words_acc [] s"

fun join :: "string \<Rightarrow> string list \<Rightarrow> string" where
  "join sep [] = []"
| "join sep [w] = w"
| "join sep (w # v # ws) = w @ sep @ join sep (v # ws)"

end
