(* ===== verification/Breaker_Spec.thy ===== *)
theory Breaker_Spec
  imports Go_Prelude
begin

text \<open>
  What the callers of a circuit breaker rely on. The repository has four breakers with
  their own state and code (\<open>pkg/uiauto/circuit_breaker.go\<close>,
  \<open>pkg/domheal/circuit_breaker.go\<close>, the one inside \<open>pkg/uiauto/store/fallback.go\<close> and the
  health state of a \<open>TieredProvider\<close> in \<open>pkg/llm/router.go\<close>); the locales state the
  contract they share, and each of the four is an interpretation in its own theory.
  \<open>allow\<close> is the admission test, \<open>good\<close> and \<open>bad\<close> record an outcome, \<open>tripped\<close> says
  that the breaker rejects calls until \<open>cool\<close> has elapsed since \<open>failed_at\<close>. \<open>polls\<close> is a
  sequence of admission tests, with its answers and the state it leaves, \<open>calls\<close> a sequence of
  recorded outcomes.
\<close>

primrec polls :: "(time \<Rightarrow> 's \<Rightarrow> bool \<times> 's) \<Rightarrow> time list \<Rightarrow> 's \<Rightarrow> bool list \<times> 's" where
  "polls allow [] s = ([], s)"
| "polls allow (t # ts) s =
     (let (a, s') = allow t s; (as, s'') = polls allow ts s' in (a # as, s''))"

primrec calls :: "(time \<Rightarrow> 's \<Rightarrow> 's) \<Rightarrow> time list \<Rightarrow> 's \<Rightarrow> 's" where
  "calls f [] s = s"
| "calls f (t # ts) s = calls f ts (f t s)"

locale breaker =
  fixes allow :: "time \<Rightarrow> 's \<Rightarrow> bool \<times> 's"
    and good :: "time \<Rightarrow> 's \<Rightarrow> 's"
    and bad :: "time \<Rightarrow> 's \<Rightarrow> 's"
    and tripped :: "'s \<Rightarrow> bool"
    and failed_at :: "'s \<Rightarrow> time"
    and cool :: "'s \<Rightarrow> duration"
    and inv :: "'s \<Rightarrow> bool"
  assumes allow_admits: "inv s \<Longrightarrow> \<not> tripped s \<Longrightarrow> allow now s = (True, s)"
    and allow_rejects: "inv s \<Longrightarrow> tripped s \<Longrightarrow> time_sub now (failed_at s) < cool s \<Longrightarrow>
      allow now s = (False, s)"
    and allow_reopens: "inv s \<Longrightarrow> tripped s \<Longrightarrow> cool s < time_sub now (failed_at s) \<Longrightarrow>
      fst (allow now s) \<and> \<not> tripped (snd (allow now s))"
    and bad_time: "inv s \<Longrightarrow> failed_at (bad now s) = now"
    and bad_tripped: "inv s \<Longrightarrow> tripped s \<Longrightarrow> tripped (bad now s)"
    and inv_allow: "inv s \<Longrightarrow> inv (snd (allow now s))"
    and inv_good: "inv s \<Longrightarrow> inv (good now s)"
    and inv_bad: "inv s \<Longrightarrow> inv (bad now s)"
begin

text \<open>While the cool-down runs, every test is refused and none changes the state.\<close>

lemma polls_rejected:
  assumes "inv s" "tripped s" "\<forall>t \<in> set ts. time_sub t (failed_at s) < cool s"
  shows "polls allow ts s = (replicate (length ts) False, s)"
  using assms by (induction ts) (simp_all add: allow_rejects)

text \<open>After it, the next test is admitted however often the breaker was asked before.\<close>

lemma polls_then_admitted:
  assumes "inv s" "tripped s" "\<forall>t \<in> set ts. time_sub t (failed_at s) < cool s"
    and "cool s < time_sub now (failed_at s)"
  shows "fst (allow now (snd (polls allow ts s)))"
  using assms allow_reopens by (simp add: polls_rejected)

lemma bad_then_rejects:
  assumes "inv s" "tripped (bad t s)" "time_sub now t < cool (bad t s)"
  shows "allow now (bad t s) = (False, bad t s)"
  using assms by (intro allow_rejects) (simp_all add: inv_bad bad_time)

end

text \<open>A breaker that trips on a number of consecutive failures.\<close>

locale counting_breaker = breaker +
  fixes idle :: "'a \<Rightarrow> bool"
    and failures :: "'a \<Rightarrow> int"
    and limit :: "'a \<Rightarrow> int"
  assumes bad_below: "inv s \<Longrightarrow> idle s \<Longrightarrow> failures s + 1 < limit s \<Longrightarrow>
      idle (bad now s) \<and> failures (bad now s) = failures s + 1"
    and bad_at: "inv s \<Longrightarrow> idle s \<Longrightarrow> limit s \<le> failures s + 1 \<Longrightarrow> tripped (bad now s)"
    and bad_limit: "inv s \<Longrightarrow> limit (bad now s) = limit s"
    and idle_not_tripped: "idle s \<Longrightarrow> \<not> tripped s"
begin

lemma run_bad_inv: "inv s \<Longrightarrow> inv (calls bad ts s)"
  by (induction ts arbitrary: s) (simp_all add: inv_bad)

lemma run_bad_tripped: "inv s \<Longrightarrow> tripped s \<Longrightarrow> tripped (calls bad ts s)"
  by (induction ts arbitrary: s) (simp_all add: inv_bad bad_tripped)

text \<open>
  Failures in a row trip the breaker exactly when the number of them reaches the limit.
\<close>

lemma run_bad_trips_iff:
  assumes "inv s" "idle s" "failures s < limit s"
  shows "tripped (calls bad ts s) \<longleftrightarrow> limit s \<le> failures s + int (length ts)"
  using assms
proof (induction ts arbitrary: s)
  case Nil
  then show ?case by (simp add: idle_not_tripped)
next
  case (Cons t ts)
  show ?case
  proof (cases "failures s + 1 < limit s")
    case True
    with Cons.prems have "idle (bad t s)" "failures (bad t s) = failures s + 1"
      "limit (bad t s) = limit s" "inv (bad t s)"
      by (simp_all add: bad_below bad_limit inv_bad)
    with Cons.IH [of "bad t s"] True show ?thesis by (simp add: add.assoc)
  next
    case False
    with Cons.prems have "tripped (calls bad ts (bad t s))"
      by (intro run_bad_tripped) (simp_all add: inv_bad bad_at)
    with False show ?thesis by simp
  qed
qed

end

end
