(* ===== verification/Circuit_Breaker.thy ===== *)
theory Circuit_Breaker
  imports Breaker_Spec
begin

text \<open>
  The adaptive circuit breaker of \<open>pkg/uiauto/circuit_breaker.go\<close>, which protects the
  Smart LLM, VLM and VLM-judge tiers of the self-healer. A ring buffer of the last
  \<open>WindowSize\<close> outcomes moves the failure threshold by one. The Prometheus collectors
  (\<open>ensureCircuitBreakerMetrics\<close>, the gauge and the transition counter) are a third-party
  library that only observes the state and are left out.
\<close>

section \<open>State\<close>

datatype circuit_state = CircuitClosed | CircuitOpen | CircuitHalfOpen

fun circuit_state_String :: "circuit_state \<Rightarrow> string" where
  "circuit_state_String CircuitClosed = ''closed''"
| "circuit_state_String CircuitOpen = ''open''"
| "circuit_state_String CircuitHalfOpen = ''half_open''"

record circuit_breaker_config =
  FailureThreshold :: int
  SuccessThreshold :: int
  OpenDuration :: duration
  HalfOpenMax :: int
  WindowSize :: int

definition DefaultCircuitBreakerConfig :: circuit_breaker_config where
  "DefaultCircuitBreakerConfig =
     \<lparr>FailureThreshold = 3, SuccessThreshold = 2, OpenDuration = 30 * second, HalfOpenMax = 1,
      WindowSize = 0\<rparr>"

record circuit_breaker =
  cb_name :: string
  cb_config :: circuit_breaker_config
  cb_state :: circuit_state
  consecutiveFailures :: int
  consecutiveSuccesses :: int
  lastFailure :: time
  totalTrips :: int
  totalSuccesses :: int
  totalFailures :: int
  recentOutcomes :: "bool list"
  outcomeIdx :: nat
  outcomesPushed :: nat
  lastStateChange :: time

definition NewCircuitBreaker :: "time \<Rightarrow> string \<Rightarrow> circuit_breaker_config \<Rightarrow> circuit_breaker" where
  "NewCircuitBreaker now name cfg =
     (let cfg = (if FailureThreshold cfg \<le> 0 then cfg\<lparr>FailureThreshold := 3\<rparr> else cfg);
          cfg = (if SuccessThreshold cfg \<le> 0 then cfg\<lparr>SuccessThreshold := 2\<rparr> else cfg);
          cfg = (if OpenDuration cfg \<le> 0 then cfg\<lparr>OpenDuration := 30 * second\<rparr> else cfg);
          cfg = (if HalfOpenMax cfg \<le> 0 then cfg\<lparr>HalfOpenMax := 1\<rparr> else cfg)
      in \<lparr>cb_name = name, cb_config = cfg, cb_state = CircuitClosed, consecutiveFailures = 0,
          consecutiveSuccesses = 0, lastFailure = 0, totalTrips = 0, totalSuccesses = 0,
          totalFailures = 0,
          recentOutcomes = (if 0 < WindowSize cfg then replicate (nat (WindowSize cfg)) False else []),
          outcomeIdx = 0, outcomesPushed = 0, lastStateChange = now\<rparr>)"

section \<open>The sliding window\<close>

definition windowFailureRate :: "circuit_breaker \<Rightarrow> f64" where
  "windowFailureRate cb =
     (if recentOutcomes cb = [] \<or> outcomesPushed cb = 0 then flit 0
      else let n = min (outcomesPushed cb) (length (recentOutcomes cb));
               failures = length (filter Not (take n (recentOutcomes cb)))
           in fdiv (f_of_int (int failures)) (f_of_int (int n)))"

definition effectiveFailureThreshold :: "circuit_breaker \<Rightarrow> int" where
  "effectiveFailureThreshold cb =
     (let base = FailureThreshold (cb_config cb) in
      if recentOutcomes cb = [] then base
      else let rate = windowFailureRate cb in
        if flt (flit (5 / 10)) rate then (if 1 < base then base - 1 else 1)
        else if flt rate (flit (1 / 10)) \<and> base < 5 then base + 1
        else base)"

definition pushOutcome :: "bool \<Rightarrow> circuit_breaker \<Rightarrow> circuit_breaker" where
  "pushOutcome success cb =
     (if recentOutcomes cb = [] then cb
      else cb\<lparr>recentOutcomes := (recentOutcomes cb)[outcomeIdx cb := success],
             outcomeIdx := (outcomeIdx cb + 1) mod length (recentOutcomes cb),
             outcomesPushed := (if outcomesPushed cb < length (recentOutcomes cb)
                                then outcomesPushed cb + 1 else outcomesPushed cb)\<rparr>)"

section \<open>Operations\<close>

definition recordTransition :: "time \<Rightarrow> circuit_breaker \<Rightarrow> circuit_breaker" where
  "recordTransition now cb = cb\<lparr>lastStateChange := now\<rparr>"

definition cb_Allow :: "time \<Rightarrow> circuit_breaker \<Rightarrow> bool \<times> circuit_breaker" where
  "cb_Allow now cb =
     (case cb_state cb of
        CircuitClosed \<Rightarrow> (True, cb)
      | CircuitOpen \<Rightarrow>
          (if OpenDuration (cb_config cb) \<le> time_sub now (lastFailure cb)
           then (True, recordTransition now (cb\<lparr>cb_state := CircuitHalfOpen, consecutiveSuccesses := 0\<rparr>))
           else (False, cb))
      | CircuitHalfOpen \<Rightarrow> (True, cb))"

definition cb_RecordSuccess :: "time \<Rightarrow> circuit_breaker \<Rightarrow> circuit_breaker" where
  "cb_RecordSuccess now cb =
     (let cb = pushOutcome True
            (cb\<lparr>totalSuccesses := totalSuccesses cb + 1, consecutiveFailures := 0,
               consecutiveSuccesses := consecutiveSuccesses cb + 1\<rparr>)
      in if cb_state cb = CircuitHalfOpen \<and> SuccessThreshold (cb_config cb) \<le> consecutiveSuccesses cb
         then recordTransition now (cb\<lparr>cb_state := CircuitClosed\<rparr>)
         else cb)"

definition trip_open :: "time \<Rightarrow> circuit_breaker \<Rightarrow> circuit_breaker" where
  "trip_open now cb =
     recordTransition now (cb\<lparr>cb_state := CircuitOpen, totalTrips := totalTrips cb + 1\<rparr>)"

definition cb_RecordFailure :: "time \<Rightarrow> circuit_breaker \<Rightarrow> circuit_breaker" where
  "cb_RecordFailure now cb =
     (let effThreshold = effectiveFailureThreshold cb;
          cb = pushOutcome False
            (cb\<lparr>totalFailures := totalFailures cb + 1, consecutiveFailures := consecutiveFailures cb + 1,
               consecutiveSuccesses := 0, lastFailure := now\<rparr>)
      in if cb_state cb = CircuitClosed \<and> effThreshold \<le> consecutiveFailures cb then trip_open now cb
         else if cb_state cb = CircuitHalfOpen then trip_open now cb
         else cb)"

definition cb_State :: "time \<Rightarrow> circuit_breaker \<Rightarrow> circuit_state" where
  "cb_State now cb =
     (if cb_state cb = CircuitOpen \<and> OpenDuration (cb_config cb) \<le> time_sub now (lastFailure cb)
      then CircuitHalfOpen else cb_state cb)"

definition cb_Reset :: "time \<Rightarrow> circuit_breaker \<Rightarrow> circuit_breaker" where
  "cb_Reset now cb =
     (let cb = (if cb_state cb \<noteq> CircuitClosed
                then recordTransition now (cb\<lparr>cb_state := CircuitClosed\<rparr>) else cb)
      in cb\<lparr>consecutiveFailures := 0, consecutiveSuccesses := 0\<rparr>)"

record circuit_breaker_stats =
  st_Name :: string
  st_State :: circuit_state
  st_StateStr :: string
  st_FailureCount :: int
  st_SuccessCount :: int
  st_TotalRequests :: int
  st_FailureRate :: f64
  st_LastStateChange :: time
  st_ConsecutiveFailures :: int
  st_ConsecutiveSuccesses :: int
  st_TotalTrips :: int
  st_TotalSuccesses :: int
  st_TotalFailures :: int
  st_LastFailure :: time

definition cb_Stats :: "circuit_breaker \<Rightarrow> circuit_breaker_stats" where
  "cb_Stats cb =
     (let total = totalSuccesses cb + totalFailures cb;
          failureRate = (if 0 < total then fdiv (f_of_int (totalFailures cb)) (f_of_int total) else flit 0)
      in \<lparr>st_Name = cb_name cb, st_State = cb_state cb,
          st_StateStr = circuit_state_String (cb_state cb),
          st_FailureCount = totalFailures cb, st_SuccessCount = totalSuccesses cb,
          st_TotalRequests = total, st_FailureRate = failureRate,
          st_LastStateChange = lastStateChange cb,
          st_ConsecutiveFailures = consecutiveFailures cb,
          st_ConsecutiveSuccesses = consecutiveSuccesses cb, st_TotalTrips = totalTrips cb,
          st_TotalSuccesses = totalSuccesses cb, st_TotalFailures = totalFailures cb,
          st_LastFailure = lastFailure cb\<rparr>)"

section \<open>Well-formed breakers\<close>

text \<open>
  What holds of every breaker the constructor and the operations produce: positive
  thresholds, non-negative counters, and a ring buffer whose write index is in range, so
  that the index expression of \<open>pushOutcome\<close> never panics.
\<close>

definition cb_wf :: "circuit_breaker \<Rightarrow> bool" where
  "cb_wf cb \<longleftrightarrow> 1 \<le> FailureThreshold (cb_config cb) \<and> 1 \<le> SuccessThreshold (cb_config cb) \<and>
     0 < OpenDuration (cb_config cb) \<and>
     length (recentOutcomes cb) = nat (WindowSize (cb_config cb)) \<and>
     (recentOutcomes cb \<noteq> [] \<longrightarrow> outcomeIdx cb < length (recentOutcomes cb)) \<and>
     outcomesPushed cb \<le> length (recentOutcomes cb) \<and>
     (outcomesPushed cb < length (recentOutcomes cb) \<longrightarrow> outcomeIdx cb = outcomesPushed cb) \<and>
     0 \<le> consecutiveFailures cb \<and> 0 \<le> consecutiveSuccesses cb \<and>
     0 \<le> totalTrips cb \<and> totalTrips cb \<le> totalFailures cb \<and> 0 \<le> totalSuccesses cb"

lemma pushOutcome_simps [simp]:
  "cb_config (pushOutcome b cb) = cb_config cb"
  "cb_name (pushOutcome b cb) = cb_name cb"
  "cb_state (pushOutcome b cb) = cb_state cb"
  "consecutiveFailures (pushOutcome b cb) = consecutiveFailures cb"
  "consecutiveSuccesses (pushOutcome b cb) = consecutiveSuccesses cb"
  "lastFailure (pushOutcome b cb) = lastFailure cb"
  "totalTrips (pushOutcome b cb) = totalTrips cb"
  "totalSuccesses (pushOutcome b cb) = totalSuccesses cb"
  "totalFailures (pushOutcome b cb) = totalFailures cb"
  "lastStateChange (pushOutcome b cb) = lastStateChange cb"
  "length (recentOutcomes (pushOutcome b cb)) = length (recentOutcomes cb)"
  "recentOutcomes (pushOutcome b cb) = [] \<longleftrightarrow> recentOutcomes cb = []"
  by (simp_all add: pushOutcome_def)

lemma cb_wf_push: "cb_wf cb \<Longrightarrow> cb_wf (pushOutcome b cb)"
  by (auto simp: cb_wf_def pushOutcome_def mod_Suc less_Suc_eq_le)

lemma cb_wf_new: "cb_wf (NewCircuitBreaker now name cfg)"
  by (auto simp: cb_wf_def NewCircuitBreaker_def Let_def)

lemmas cb_op_defs = cb_Allow_def cb_RecordSuccess_def cb_RecordFailure_def cb_Reset_def
  trip_open_def recordTransition_def Let_def

lemma cb_wf_allow: "cb_wf cb \<Longrightarrow> cb_wf (snd (cb_Allow now cb))"
  by (auto simp: cb_op_defs cb_wf_def split: circuit_state.splits)

lemma cb_wf_success: "cb_wf cb \<Longrightarrow> cb_wf (cb_RecordSuccess now cb)"
proof -
  assume "cb_wf cb"
  then have "cb_wf (pushOutcome True (cb\<lparr>totalSuccesses := totalSuccesses cb + 1,
      consecutiveFailures := 0, consecutiveSuccesses := consecutiveSuccesses cb + 1\<rparr>))"
    by (intro cb_wf_push) (auto simp: cb_wf_def)
  then show ?thesis by (auto simp: cb_op_defs cb_wf_def)
qed

lemma cb_wf_failure: "cb_wf cb \<Longrightarrow> cb_wf (cb_RecordFailure now cb)"
proof -
  assume "cb_wf cb"
  then have "cb_wf (pushOutcome False (cb\<lparr>totalFailures := totalFailures cb + 1,
      consecutiveFailures := consecutiveFailures cb + 1, consecutiveSuccesses := 0, lastFailure := now\<rparr>))"
    by (intro cb_wf_push) (auto simp: cb_wf_def)
  moreover from \<open>cb_wf cb\<close> have "totalTrips cb < totalFailures cb + 1" by (simp add: cb_wf_def)
  ultimately show ?thesis by (auto simp: cb_op_defs cb_wf_def)
qed

lemma cb_wf_reset: "cb_wf cb \<Longrightarrow> cb_wf (cb_Reset now cb)"
  by (auto simp: cb_op_defs cb_wf_def)

section \<open>The adaptive threshold\<close>

text \<open>The window moves the threshold by at most one, keeps it positive, and never above 5 by itself.\<close>

lemma effectiveFailureThreshold_bounds:
  assumes "cb_wf cb"
  shows "1 \<le> effectiveFailureThreshold cb"
    and "\<bar>effectiveFailureThreshold cb - FailureThreshold (cb_config cb)\<bar> \<le> 1"
    and "effectiveFailureThreshold cb \<le> max 5 (FailureThreshold (cb_config cb))"
  using assms by (auto simp: effectiveFailureThreshold_def cb_wf_def Let_def)

lemma effectiveFailureThreshold_plain:
  "recentOutcomes cb = [] \<Longrightarrow> effectiveFailureThreshold cb = FailureThreshold (cb_config cb)"
  by (simp add: effectiveFailureThreshold_def Let_def)

section \<open>The breaker contract\<close>

abbreviation cb_open :: "circuit_breaker \<Rightarrow> bool" where
  "cb_open cb \<equiv> cb_state cb = CircuitOpen"

abbreviation cb_cool :: "circuit_breaker \<Rightarrow> duration" where
  "cb_cool cb \<equiv> OpenDuration (cb_config cb)"

interpretation cb: breaker cb_Allow cb_RecordSuccess cb_RecordFailure cb_open lastFailure cb_cool cb_wf
  by unfold_locales
    (auto simp: cb_wf_allow cb_wf_success cb_wf_failure, auto simp: cb_op_defs split: circuit_state.splits)

text \<open>Without a window the breaker counts to its configured threshold.\<close>

definition cb_plain :: "circuit_breaker \<Rightarrow> bool" where
  "cb_plain cb \<longleftrightarrow> cb_wf cb \<and> recentOutcomes cb = []"

lemma plain_ops:
  "recentOutcomes cb = [] \<Longrightarrow> recentOutcomes (snd (cb_Allow now cb)) = []"
  "recentOutcomes cb = [] \<Longrightarrow> recentOutcomes (cb_RecordSuccess now cb) = []"
  "recentOutcomes cb = [] \<Longrightarrow> recentOutcomes (cb_RecordFailure now cb) = []"
  by (auto simp: cb_op_defs pushOutcome_def split: circuit_state.splits)

interpretation cb_count: counting_breaker cb_Allow cb_RecordSuccess cb_RecordFailure cb_open lastFailure
    cb_cool cb_plain "\<lambda>cb. cb_state cb = CircuitClosed" consecutiveFailures
    "\<lambda>cb. FailureThreshold (cb_config cb)"
  by unfold_locales
    (auto simp: cb_plain_def plain_ops cb_wf_allow cb_wf_success cb_wf_failure cb.allow_admits
       cb.allow_rejects cb.bad_time cb.bad_tripped effectiveFailureThreshold_plain,
     auto simp: cb_op_defs pushOutcome_def effectiveFailureThreshold_def split: circuit_state.splits)

section \<open>The ring buffer is a sliding window\<close>

text \<open>
  The abstract window is the list of the last \<open>WindowSize\<close> outcomes, oldest first;
  the ring buffer with its index and fill count implements it.
\<close>

definition win_push :: "nat \<Rightarrow> bool \<Rightarrow> bool list \<Rightarrow> bool list" where
  "win_push w b xs = (if length xs < w then xs @ [b] else tl xs @ [b])"

definition window_of :: "circuit_breaker \<Rightarrow> bool list" where
  "window_of cb =
     (if outcomesPushed cb < length (recentOutcomes cb)
      then take (outcomesPushed cb) (recentOutcomes cb)
      else drop (outcomeIdx cb) (recentOutcomes cb) @ take (outcomeIdx cb) (recentOutcomes cb))"

lemma window_push_filling:
  assumes "cb_wf cb" "outcomesPushed cb < length (recentOutcomes cb)"
  shows "window_of (pushOutcome b cb) = window_of cb @ [b]"
proof -
  have idx: "outcomeIdx cb = outcomesPushed cb" and ne: "recentOutcomes cb \<noteq> []"
    using assms by (auto simp: cb_wf_def)
  show ?thesis
  proof (cases "Suc (outcomesPushed cb) < length (recentOutcomes cb)")
    case True
    with idx ne assms(2) show ?thesis
      by (simp add: window_of_def pushOutcome_def take_Suc_conv_app_nth)
  next
    case False
    with assms(2) have "Suc (outcomesPushed cb) = length (recentOutcomes cb)" by simp
    moreover from this have "(recentOutcomes cb)[outcomesPushed cb := b] =
        take (outcomesPushed cb) (recentOutcomes cb) @ [b]"
      by (simp add: upd_conv_take_nth_drop)
    ultimately show ?thesis using idx ne by (simp add: window_of_def pushOutcome_def)
  qed
qed

lemma window_push_full:
  assumes "cb_wf cb" "recentOutcomes cb \<noteq> []" "outcomesPushed cb = length (recentOutcomes cb)"
  shows "window_of (pushOutcome b cb) = tl (window_of cb) @ [b]"
proof -
  define r where "r = recentOutcomes cb"
  define i where "i = outcomeIdx cb"
  have i: "i < length r" using assms by (simp add: cb_wf_def i_def r_def)
  have tl: "tl (window_of cb) = drop (Suc i) r @ take i r"
    using assms i by (simp add: window_of_def r_def i_def drop_Suc tl_drop)
  have upd: "r[i := b] = take i r @ b # drop (Suc i) r" using i by (rule upd_conv_take_nth_drop)
  show ?thesis
  proof (cases "Suc i < length r")
    case True
    then show ?thesis using assms i tl upd
      by (simp add: window_of_def pushOutcome_def r_def [symmetric] i_def [symmetric])
  next
    case False
    with i have "Suc i = length r" by simp
    then show ?thesis using assms i tl upd
      by (simp add: window_of_def pushOutcome_def r_def [symmetric] i_def [symmetric])
  qed
qed

lemma length_window_of: "cb_wf cb \<Longrightarrow> length (window_of cb) = outcomesPushed cb"
  by (auto simp: window_of_def cb_wf_def)

lemma window_push:
  assumes "cb_wf cb" "recentOutcomes cb \<noteq> []"
  shows "window_of (pushOutcome b cb) = win_push (length (recentOutcomes cb)) b (window_of cb)"
proof (cases "outcomesPushed cb < length (recentOutcomes cb)")
  case True
  with assms show ?thesis by (simp add: window_push_filling win_push_def length_window_of)
next
  case False
  with assms(1) have "outcomesPushed cb = length (recentOutcomes cb)" by (simp add: cb_wf_def)
  with assms show ?thesis by (simp add: window_push_full win_push_def length_window_of)
qed

lemma win_push_last:
  "0 < w \<Longrightarrow> win_push w b (drop (length h - w) h) = drop (length (h @ [b]) - w) (h @ [b])"
  by (cases "length h < w") (auto simp: win_push_def tl_drop [symmetric] drop_Suc Suc_diff_le)

text \<open>The failure rate is that of the abstract window.\<close>

lemma mset_window:
  assumes "cb_wf cb"
  shows "mset (take (min (outcomesPushed cb) (length (recentOutcomes cb))) (recentOutcomes cb)) =
    mset (window_of cb)"
proof (cases "outcomesPushed cb < length (recentOutcomes cb)")
  case True
  then show ?thesis by (simp add: window_of_def)
next
  case False
  have "mset (drop i r @ take i r) = mset (take i r @ drop i r)" for i and r :: "bool list"
    by (simp only: mset_append add.commute)
  with False assms show ?thesis by (simp add: window_of_def cb_wf_def)
qed

definition failure_rate :: "bool list \<Rightarrow> f64" where
  "failure_rate xs = (if xs = [] then flit 0
     else fdiv (f_of_int (int (length (filter Not xs)))) (f_of_int (int (length xs))))"

lemma windowFailureRate_window: "cb_wf cb \<Longrightarrow> windowFailureRate cb = failure_rate (window_of cb)"
proof -
  assume wf: "cb_wf cb"
  have "length (filter Not xs) = size (filter_mset Not (mset xs))" for xs
    by (metis mset_filter size_mset)
  then have "length (filter Not (take (min (outcomesPushed cb) (length (recentOutcomes cb)))
      (recentOutcomes cb))) = length (filter Not (window_of cb))"
    by (simp only: mset_window [OF wf])
  moreover have "window_of cb = [] \<longleftrightarrow> recentOutcomes cb = [] \<or> outcomesPushed cb = 0"
    using length_window_of [OF wf] wf by (auto simp: cb_wf_def)
  moreover have "min (outcomesPushed cb) (length (recentOutcomes cb)) = length (window_of cb)"
    using length_window_of [OF wf] wf by (simp add: cb_wf_def)
  ultimately show ?thesis by (simp add: windowFailureRate_def failure_rate_def Let_def)
qed

section \<open>Runs\<close>

text \<open>The calls a client makes, each with the instant at which it is made.\<close>

datatype cb_call = Allow | RecordSuccess | RecordFailure | Reset

fun cb_step :: "circuit_breaker \<Rightarrow> cb_call \<times> time \<Rightarrow> circuit_breaker" where
  "cb_step cb (Allow, t) = snd (cb_Allow t cb)"
| "cb_step cb (RecordSuccess, t) = cb_RecordSuccess t cb"
| "cb_step cb (RecordFailure, t) = cb_RecordFailure t cb"
| "cb_step cb (Reset, t) = cb_Reset t cb"

definition cb_run :: "circuit_breaker \<Rightarrow> (cb_call \<times> time) list \<Rightarrow> circuit_breaker" where
  "cb_run cb cs = foldl cb_step cb cs"

fun outcome_of :: "cb_call \<times> time \<Rightarrow> bool list" where
  "outcome_of (RecordSuccess, _) = [True]"
| "outcome_of (RecordFailure, _) = [False]"
| "outcome_of _ = []"

definition outcomes :: "(cb_call \<times> time) list \<Rightarrow> bool list" where
  "outcomes cs = concat (map outcome_of cs)"

lemma cb_wf_step: "cb_wf cb \<Longrightarrow> cb_wf (cb_step cb c)"
  by (cases "(cb, c)" rule: cb_step.cases)
    (simp_all add: cb_wf_allow cb_wf_success cb_wf_failure cb_wf_reset)

lemma cb_wf_run: "cb_wf cb \<Longrightarrow> cb_wf (cb_run cb cs)"
  by (induction cs arbitrary: cb) (simp_all add: cb_run_def cb_wf_step)

text \<open>Which fields of the window a call writes: only the two recording calls push.\<close>

lemma window_frame:
  "window_of (cb\<lparr>cb_state := s\<rparr>) = window_of cb"
  "window_of (cb\<lparr>totalTrips := n\<rparr>) = window_of cb"
  "window_of (cb\<lparr>lastStateChange := t\<rparr>) = window_of cb"
  "window_of (cb\<lparr>consecutiveSuccesses := n\<rparr>) = window_of cb"
  "window_of (cb\<lparr>consecutiveFailures := n\<rparr>) = window_of cb"
  "window_of (pushOutcome b (cb\<lparr>totalSuccesses := m, consecutiveFailures := n,
      consecutiveSuccesses := k\<rparr>)) = window_of (pushOutcome b cb)"
  "window_of (pushOutcome b (cb\<lparr>totalFailures := m, consecutiveFailures := n,
      consecutiveSuccesses := k, lastFailure := t\<rparr>)) = window_of (pushOutcome b cb)"
  by (simp_all add: window_of_def pushOutcome_def)

lemma window_step:
  "cb_wf cb \<Longrightarrow> recentOutcomes cb \<noteq> [] \<Longrightarrow>
   window_of (cb_step cb c) =
     foldl (\<lambda>w b. win_push (length (recentOutcomes cb)) b w) (window_of cb) (outcome_of c)"
  by (cases "(cb, c)" rule: cb_step.cases)
    (auto simp: cb_op_defs window_frame window_push split: circuit_state.splits)

lemma recent_length_step: "length (recentOutcomes (cb_step cb c)) = length (recentOutcomes cb)"
  by (cases "(cb, c)" rule: cb_step.cases) (auto simp: cb_op_defs split: circuit_state.splits)

lemma window_run:
  assumes "cb_wf cb" "recentOutcomes cb \<noteq> []"
    "window_of cb = drop (length h - length (recentOutcomes cb)) h"
  shows "window_of (cb_run cb cs) =
    drop (length (h @ outcomes cs) - length (recentOutcomes cb)) (h @ outcomes cs)"
  using assms
proof (induction cs arbitrary: cb h)
  case Nil
  then show ?case by (simp add: cb_run_def outcomes_def)
next
  case (Cons c cs)
  let ?w = "length (recentOutcomes cb)"
  have len: "length (recentOutcomes (cb_step cb c)) = ?w" by (rule recent_length_step)
  have "window_of (cb_step cb c) = drop (length (h @ outcome_of c) - ?w) (h @ outcome_of c)"
    using window_step [OF Cons.prems(1,2), of c] Cons.prems(2,3) win_push_last [of ?w _ h]
    by (cases c rule: outcome_of.cases) (simp_all del: length_append append_assoc)
  moreover have "recentOutcomes (cb_step cb c) \<noteq> []" using len Cons.prems(2) by fastforce
  ultimately have "window_of (cb_run (cb_step cb c) cs) =
      drop (length ((h @ outcome_of c) @ outcomes cs) - ?w) ((h @ outcome_of c) @ outcomes cs)"
    using Cons.IH [of "cb_step cb c" "h @ outcome_of c"] cb_wf_step [OF Cons.prems(1)] len by simp
  then show ?case by (simp add: cb_run_def outcomes_def)
qed

lemma new_window: "0 < WindowSize cfg \<Longrightarrow> window_of (NewCircuitBreaker now name cfg) = []"
  by (simp add: NewCircuitBreaker_def window_of_def Let_def)

lemma new_recent_length:
  "length (recentOutcomes (NewCircuitBreaker now name cfg)) = nat (WindowSize cfg)"
  by (simp add: NewCircuitBreaker_def Let_def)

text \<open>The state changes one call can make.\<close>

definition legal_change :: "cb_call \<Rightarrow> circuit_state \<Rightarrow> circuit_state \<Rightarrow> bool" where
  "legal_change c s s' = (s = s' \<or>
     (s, s') \<in> (case c of
        Allow \<Rightarrow> {(CircuitOpen, CircuitHalfOpen)}
      | RecordSuccess \<Rightarrow> {(CircuitHalfOpen, CircuitClosed)}
      | RecordFailure \<Rightarrow> {(CircuitClosed, CircuitOpen), (CircuitHalfOpen, CircuitOpen)}
      | Reset \<Rightarrow> {(CircuitOpen, CircuitClosed), (CircuitHalfOpen, CircuitClosed)}))"

lemma step_legal_change: "legal_change (fst c) (cb_state cb) (cb_state (cb_step cb c))"
  by (cases "cb_state cb"; cases "(cb, c)" rule: cb_step.cases)
    (auto simp: cb_op_defs legal_change_def split: circuit_state.splits)

text \<open>From half-open, successes in a row close the breaker exactly when they reach the threshold.\<close>

lemma half_open_success:
  assumes "cb_state cb = CircuitHalfOpen"
  shows "cb_state (cb_RecordSuccess t cb) =
      (if SuccessThreshold (cb_config cb) \<le> consecutiveSuccesses cb + 1 then CircuitClosed else CircuitHalfOpen)"
    and "consecutiveSuccesses (cb_RecordSuccess t cb) = consecutiveSuccesses cb + 1"
    and "cb_config (cb_RecordSuccess t cb) = cb_config cb"
  using assms by (simp_all add: cb_op_defs)

lemma closed_success: "cb_state cb = CircuitClosed \<Longrightarrow> cb_state (cb_RecordSuccess t cb) = CircuitClosed"
  by (simp add: cb_op_defs)

lemma closed_successes:
  "cb_state cb = CircuitClosed \<Longrightarrow> cb_state (calls cb_RecordSuccess ts cb) = CircuitClosed"
  by (induction ts arbitrary: cb) (simp_all add: closed_success)

lemma half_open_successes:
  assumes "cb_state cb = CircuitHalfOpen" "consecutiveSuccesses cb < SuccessThreshold (cb_config cb)"
  shows "cb_state (calls cb_RecordSuccess ts cb) =
    (if SuccessThreshold (cb_config cb) \<le> consecutiveSuccesses cb + int (length ts)
     then CircuitClosed else CircuitHalfOpen)"
  using assms
proof (induction ts arbitrary: cb)
  case Nil
  then show ?case by simp
next
  case (Cons t ts)
  show ?case
  proof (cases "SuccessThreshold (cb_config cb) \<le> consecutiveSuccesses cb + 1")
    case True
    with Cons.prems have "cb_state (cb_RecordSuccess t cb) = CircuitClosed"
      by (simp add: half_open_success)
    then have "cb_state (calls cb_RecordSuccess ts (cb_RecordSuccess t cb)) = CircuitClosed"
      by (rule closed_successes)
    with True show ?thesis by simp
  next
    case False
    with Cons.prems show ?thesis using Cons.IH [of "cb_RecordSuccess t cb"]
      by (simp add: half_open_success add.assoc)
  qed
qed

text \<open>An open breaker whose cool-down has not run out stays open under every call but a reset.\<close>

lemma open_step:
  assumes "cb_wf cb" "cb_open cb" "OpenDuration (cb_config cb) \<le> max_int64" "c \<noteq> Reset"
    "lastFailure cb \<le> t" "t < lastFailure cb + OpenDuration (cb_config cb)"
  shows "cb_open (cb_step cb (c, t)) \<and> lastFailure cb \<le> lastFailure (cb_step cb (c, t)) \<and>
    cb_config (cb_step cb (c, t)) = cb_config cb"
  using assms by (cases c) (auto simp: cb_op_defs cb_wf_def time_sub_def)

lemma open_run:
  assumes "cb_wf cb" "cb_open cb" "OpenDuration (cb_config cb) \<le> max_int64"
    "lastFailure cb \<le> start"
    "\<forall>(c, t) \<in> set cs. c \<noteq> Reset \<and> start \<le> t \<and> t < lastFailure cb + OpenDuration (cb_config cb)"
    "sorted (map snd cs)"
  shows "cb_open (cb_run cb cs)"
  using assms
proof (induction cs arbitrary: cb start)
  case Nil
  then show ?case by (simp add: cb_run_def)
next
  case (Cons a cs)
  obtain c t where a: "a = (c, t)" by (cases a)
  let ?cb = "cb_step cb (c, t)"
  have step: "cb_open ?cb" "lastFailure cb \<le> lastFailure ?cb" "cb_config ?cb = cb_config cb"
    using open_step [of cb c t] Cons.prems a by auto
  have lf: "lastFailure ?cb \<le> t" using Cons.prems a
    by (cases c) (auto simp: cb_op_defs split: circuit_state.splits)
  have "cb_open (cb_run ?cb cs)"
  proof (rule Cons.IH [of _ t])
    show "cb_wf ?cb" using Cons.prems(1) by (rule cb_wf_step)
    show "OpenDuration (cb_config ?cb) \<le> max_int64" using Cons.prems step by simp
    show "\<forall>(c, u) \<in> set cs. c \<noteq> Reset \<and> t \<le> u \<and> u < lastFailure ?cb + OpenDuration (cb_config ?cb)"
      using Cons.prems(5,6) a step by fastforce
    show "sorted (map snd cs)" using Cons.prems(6) by simp
  qed (use step lf in simp_all)
  with a show ?case by (simp add: cb_run_def)
qed

section \<open>Properties\<close>

text \<open>The default breaker of the VLM tier, closed and just after its third failure.\<close>

definition vlm_breaker :: circuit_breaker where
  "vlm_breaker = NewCircuitBreaker 0 ''vlm'' DefaultCircuitBreakerConfig"

definition vlm_breaker_open :: circuit_breaker where
  "vlm_breaker_open = calls cb_RecordFailure [1, 2, 3] vlm_breaker"

lemma vlm_breaker_facts:
  "cb_wf vlm_breaker" "recentOutcomes vlm_breaker = []" "cb_state vlm_breaker = CircuitClosed"
  "consecutiveFailures vlm_breaker = 0" "FailureThreshold (cb_config vlm_breaker) = 3"
  "cb_wf vlm_breaker_open" "cb_open vlm_breaker_open" "lastFailure vlm_breaker_open = 3"
  "SuccessThreshold (cb_config vlm_breaker_open) = 2" "cb_cool vlm_breaker_open = 30 * second"
  by (simp add: vlm_breaker_def cb_wf_new, code_simp, code_simp, code_simp, code_simp,
      simp add: vlm_breaker_def vlm_breaker_open_def cb_wf_new cb_wf_failure,
      code_simp, code_simp, code_simp, code_simp)

text \<open>C2: the sliding-window failure rate of a breaker with a window is, after any sequence of
  calls, the fraction of failures among the last \<open>WindowSize\<close> recorded outcomes: the ring buffer
  with its index and fill count implements the window, and resets and admission tests leave it.\<close>

theorem cb_window_rate:
  assumes "0 < WindowSize cfg"
  shows "windowFailureRate (cb_run (NewCircuitBreaker now name cfg) cs) =
    failure_rate (drop (length (outcomes cs) - nat (WindowSize cfg)) (outcomes cs))"
proof -
  let ?cb = "NewCircuitBreaker now name cfg"
  have len: "length (recentOutcomes ?cb) = nat (WindowSize cfg)" by (rule new_recent_length)
  with assms have "recentOutcomes ?cb \<noteq> []" by fastforce
  then have "window_of (cb_run ?cb cs) = drop (length (outcomes cs) - nat (WindowSize cfg)) (outcomes cs)"
    using window_run [of ?cb "[]" cs] cb_wf_new new_window [OF assms] len by simp
  then show ?thesis by (simp add: windowFailureRate_window cb_wf_run cb_wf_new)
qed

lemma cb_window_rate_witness:
  "windowFailureRate (cb_run (NewCircuitBreaker 0 ''vlm'' (DefaultCircuitBreakerConfig\<lparr>WindowSize := 2\<rparr>))
     [(RecordFailure, 1), (RecordSuccess, 2), (Allow, 3), (RecordSuccess, 4)]) = flit 0"
  using cb_window_rate [of "DefaultCircuitBreakerConfig\<lparr>WindowSize := 2\<rparr>" 0 "''vlm''"
      "[(RecordFailure, 1), (RecordSuccess, 2), (Allow, 3), (RecordSuccess, 4)]"]
  by (simp add: DefaultCircuitBreakerConfig_def outcomes_def failure_rate_def f_of_int_exact f64_of_rat_Fin)

text \<open>without an adaptive window, failures in a row open a closed breaker exactly when
  the consecutive failures reach \<open>FailureThreshold\<close>, never before and never later.\<close>

theorem cb_trips_iff:
  assumes "cb_wf cb" "recentOutcomes cb = []" "cb_state cb = CircuitClosed"
    "consecutiveFailures cb < FailureThreshold (cb_config cb)"
  shows "cb_state (calls cb_RecordFailure ts cb) = CircuitOpen \<longleftrightarrow>
    FailureThreshold (cb_config cb) \<le> consecutiveFailures cb + int (length ts)"
  using cb_count.run_bad_trips_iff [of cb ts] assms by (simp add: cb_plain_def)

lemma cb_trips_iff_witness:
  "cb_state (calls cb_RecordFailure [1, 2, 3] vlm_breaker) = CircuitOpen"
  using cb_trips_iff [of vlm_breaker "[1, 2, 3]"] by (simp add: vlm_breaker_facts del: calls.simps)

text \<open>until the cool-down has run out, an open breaker stays open whatever is recorded on
  it in the meantime, so every admission test is refused: successes of calls still in flight do not
  close it, and failures only extend the cool-down. Only \<open>Reset\<close> closes it early.\<close>

theorem cb_stays_open:
  assumes "cb_wf cb" "cb_open cb" "OpenDuration (cb_config cb) \<le> max_int64"
    "\<forall>(c, t) \<in> set cs. c \<noteq> Reset \<and> lastFailure cb \<le> t \<and> t < lastFailure cb + OpenDuration (cb_config cb)"
    "sorted (map snd cs)"
  shows "cb_state (cb_run cb cs) = CircuitOpen"
  using assms by (intro open_run [where start = "lastFailure cb"]) simp_all

lemma cb_stays_open_witness:
  "cb_state (cb_run vlm_breaker_open [(Allow, 4), (RecordSuccess, 5), (RecordFailure, 6), (Allow, 7)]) =
    CircuitOpen"
  by (rule cb_stays_open) (simp_all add: vlm_breaker_facts)

text \<open>a half-open breaker closes after exactly \<open>SuccessThreshold\<close> successes in a row.\<close>

theorem cb_recovers:
  fixes t :: time
  assumes "cb_wf cb" "cb_open cb" "cb_cool cb \<le> time_sub t (lastFailure cb)"
  shows "fst (cb_Allow t cb) \<and>
    (cb_state (calls cb_RecordSuccess ts (snd (cb_Allow t cb))) = CircuitClosed \<longleftrightarrow>
     SuccessThreshold (cb_config cb) \<le> int (length ts))"
proof -
  let ?h = "snd (cb_Allow t cb)"
  have h: "fst (cb_Allow t cb)" "cb_state ?h = CircuitHalfOpen" "consecutiveSuccesses ?h = 0"
    "cb_config ?h = cb_config cb"
    using assms by (simp_all add: cb_op_defs)
  moreover have "0 < SuccessThreshold (cb_config cb)" using assms(1) by (simp add: cb_wf_def)
  ultimately show ?thesis using half_open_successes [of ?h ts] by simp
qed

lemma cb_recovers_witness:
  "cb_state (calls cb_RecordSuccess [31 * second, 32 * second] (snd (cb_Allow (30 * second + 3) vlm_breaker_open))) =
    CircuitClosed"
  using cb_recovers [of vlm_breaker_open "30 * second + 3" "[31 * second, 32 * second]"]
  by (simp add: vlm_breaker_facts time_sub_def del: calls.simps)

text \<open>\<open>HalfOpenMax\<close> is never consulted: a half-open breaker admits any number of calls
  before an outcome is recorded, although its comment speaks of one probing request.\<close>

theorem cb_half_open_admits_all:
  assumes "cb_wf cb" "cb_state cb = CircuitHalfOpen"
  shows "polls cb_Allow ts cb = (replicate (length ts) True, cb)"
  using assms by (induction ts) (simp_all add: cb.allow_admits)

lemma cb_half_open_admits_all_witness:
  "fst (polls cb_Allow [31 * second, 32 * second] (snd (cb_Allow (30 * second + 3) vlm_breaker_open))) =
    [True, True]"
proof -
  let ?h = "snd (cb_Allow (30 * second + 3) vlm_breaker_open)"
  have "cb_wf ?h" by (simp add: cb_wf_allow vlm_breaker_facts)
  moreover have "cb_state ?h = CircuitHalfOpen" by code_simp
  ultimately show ?thesis using cb_half_open_admits_all [of ?h "[31 * second, 32 * second]"]
    by (simp del: polls.simps)
qed

end
