(* ===== verification/Dom_Breaker.thy ===== *)
theory Dom_Breaker
  imports Breaker_Spec
begin

text \<open>
  The circuit breaker of \<open>pkg/domheal/circuit_breaker.go\<close>, which guards the light tier of
  the model router and the DOM change detector. Its state is a string in the code and
  here, with the \<open>switch\<close> falling through to \<open>true\<close> on any other value. The clock
  (\<open>cb.clock\<close>) is the argument \<open>now\<close> of the operations that read it.
\<close>

record dom_breaker =
  db_failures :: int
  db_threshold :: int
  db_cooldown :: duration
  db_state :: string
  db_last_failure :: time

definition db_new :: "int \<Rightarrow> int \<Rightarrow> dom_breaker" where
  "db_new threshold cooldownSec =
     \<lparr>db_failures = 0, db_threshold = threshold, db_cooldown = wrap64 (cooldownSec * second),
      db_state = ''closed'', db_last_failure = 0\<rparr>"

definition db_allow :: "time \<Rightarrow> dom_breaker \<Rightarrow> bool \<times> dom_breaker" where
  "db_allow now cb =
     (if db_state cb = ''closed'' then (True, cb)
      else if db_state cb = ''half-open'' then (True, cb)
      else if db_state cb = ''open'' then
        (if db_cooldown cb \<le> time_sub now (db_last_failure cb)
         then (True, cb\<lparr>db_state := ''half-open''\<rparr>)
         else (False, cb))
      else (True, cb))"

definition db_record_success :: "dom_breaker \<Rightarrow> dom_breaker" where
  "db_record_success cb = cb\<lparr>db_failures := 0, db_state := ''closed''\<rparr>"

definition db_record_failure :: "time \<Rightarrow> dom_breaker \<Rightarrow> dom_breaker" where
  "db_record_failure now cb =
     (let cb = cb\<lparr>db_failures := db_failures cb + 1, db_last_failure := now\<rparr> in
      if db_threshold cb \<le> db_failures cb then cb\<lparr>db_state := ''open''\<rparr> else cb)"

definition db_tripped :: "dom_breaker \<Rightarrow> bool" where
  "db_tripped cb = (db_state cb = ''open'')"

definition db_closed :: "dom_breaker \<Rightarrow> bool" where
  "db_closed cb = (db_state cb = ''closed'')"

text \<open>
  The states the code can be in: one of the three strings, and an open or half-open
  breaker has reached its threshold, since nothing but a success resets the count.
\<close>

definition db_inv :: "dom_breaker \<Rightarrow> bool" where
  "db_inv cb \<longleftrightarrow> db_state cb \<in> {''closed'', ''half-open'', ''open''} \<and> 0 \<le> db_failures cb \<and>
     (db_state cb \<noteq> ''closed'' \<longrightarrow> db_threshold cb \<le> db_failures cb) \<and>
     (db_state cb = ''closed'' \<longrightarrow> 0 < db_threshold cb \<longrightarrow> db_failures cb < db_threshold cb)"

lemmas db_defs = db_allow_def db_record_success_def db_record_failure_def db_tripped_def
  db_closed_def db_inv_def Let_def

lemma db_inv_new: "db_inv (db_new threshold cooldownSec)"
  by (simp add: db_new_def db_inv_def)

interpretation dom: counting_breaker db_allow "\<lambda>_. db_record_success" db_record_failure db_tripped
    db_last_failure db_cooldown db_inv db_closed db_failures db_threshold
  by unfold_locales (auto simp: db_defs)

text \<open>A half-open breaker reopens on its first failure, and closes on its first success.\<close>

lemma db_half_open_failure:
  "db_inv cb \<Longrightarrow> db_state cb = ''half-open'' \<Longrightarrow> db_state (db_record_failure now cb) = ''open''"
  by (simp add: db_defs)

end
