(* ===== verification/Pattern_Store_Spec.thy ===== *)
theory Pattern_Store_Spec
  imports Go_Prelude
begin

text \<open>
  The \<open>PatternStore\<close> interface of \<open>pkg/uiauto/store\<close> (\<open>sqlite.go\<close>), which \<open>PatternStorage\<close> of
  \<open>pkg/uiauto/pattern_tracker.go\<close> repeats for its own pattern type: the stored record, the
  interface as a record of functions over the state of an implementation, and the laws its
  callers rely on. \<open>view\<close> is what a store holds under an identifier; a failed write may or may
  not have taken effect.
\<close>

record pattern =
  p_ID :: string
  p_Selector :: string
  p_Description :: string
  p_Fingerprint :: string
  p_LastSeen :: time
  p_Confidence :: f64
  p_Metadata :: "(string, string) gomap"

definition zero_pattern :: pattern where
  "zero_pattern = \<lparr>p_ID = [], p_Selector = [], p_Description = [], p_Fingerprint = [],
     p_LastSeen = 0, p_Confidence = flit 0, p_Metadata = []\<rparr>"

datatype store_error = NotFound string | IOError string

record ('p, 's) store_ops =
  op_Get :: "string \<Rightarrow> 's \<Rightarrow> ('p \<times> bool) \<times> 's"
  op_Set :: "'p \<Rightarrow> 's \<Rightarrow> store_error option \<times> 's"
  op_Load :: "'s \<Rightarrow> (store_error + (string, 'p) gomap) \<times> 's"
  op_Decay :: "time \<Rightarrow> duration \<Rightarrow> f64 \<Rightarrow> 's \<Rightarrow> store_error option \<times> 's"
  op_Boost :: "time \<Rightarrow> string \<Rightarrow> f64 \<Rightarrow> 's \<Rightarrow> store_error option \<times> 's"

locale pattern_store =
  fixes pid :: "'p \<Rightarrow> string"
    and ops :: "('p, 's) store_ops"
    and view :: "'s \<Rightarrow> string \<Rightarrow> 'p option"
    and inv :: "'s \<Rightarrow> bool"
  assumes get_found: "inv s \<Longrightarrow> view s k = Some p \<Longrightarrow> op_Get ops k s = ((p, True), s)"
    and get_absent: "inv s \<Longrightarrow> view s k = None \<Longrightarrow>
      snd (fst (op_Get ops k s)) = False \<and> snd (op_Get ops k s) = s"
    and set_ok: "inv s \<Longrightarrow> op_Set ops p s = (None, s') \<Longrightarrow> view s' = (view s)(pid p \<mapsto> p)"
    and set_failed: "inv s \<Longrightarrow> op_Set ops p s = (Some e, s') \<Longrightarrow>
      view s' = view s \<or> view s' = (view s)(pid p \<mapsto> p)"
    and inv_set: "inv s \<Longrightarrow> inv (snd (op_Set ops p s))"
begin

lemma get_after_set:
  "inv s \<Longrightarrow> op_Set ops p s = (None, s') \<Longrightarrow> op_Get ops (pid p) s' = ((p, True), s')"
  using set_ok [of s p s'] inv_set [of s p] by (intro get_found) simp_all

lemma get_other_after_set:
  assumes "inv s" "op_Set ops p s = (r, s')" "k \<noteq> pid p"
  shows "view s' k = view s k"
proof (cases r)
  case None
  with assms show ?thesis by (simp add: set_ok)
next
  case (Some e)
  with assms show ?thesis using set_failed [of s p e s'] by auto
qed

end

text \<open>A store whose \<open>Load\<close> answers what it holds.\<close>

locale loading_store = pattern_store +
  assumes load_ok: "inv s \<Longrightarrow> op_Load ops s = (Inr m, s') \<Longrightarrow> s' = s \<and> mget m = view s"
begin

lemma load_after_set:
  assumes "inv s" "op_Set ops p s = (None, s')" "op_Load ops s' = (Inr m, s'')"
  shows "mget m (pid p) = Some p" "k \<noteq> pid p \<Longrightarrow> mget m k = view s k"
proof -
  have "inv s'" using inv_set [OF assms(1), of p] assms(2) by simp
  then have "mget m = view s'" using load_ok assms(3) by blast
  then show "mget m (pid p) = Some p" "k \<noteq> pid p \<Longrightarrow> mget m k = view s k"
    using set_ok [OF assms(1,2)] by simp_all
qed

end

end
