(* ===== verification/Fallback_Store.thy ===== *)
theory Fallback_Store
  imports Pattern_Store_Spec Breaker_Spec
begin

text \<open>
  \<open>pkg/uiauto/store\<close>: the JSON file store of \<open>sqlite.go\<close> and the \<open>FallbackStore\<close> of
  \<open>fallback.go\<close>, which writes through a primary and a fallback store behind its own circuit
  breaker. What the disk answers to the coming writes is part of the file store's state
  (\<open>jf_writes\<close>, success when the list has run out). Logging is left out.
\<close>

section \<open>The JSON file store\<close>

record json_file_store =
  jf_path :: string
  jf_patterns :: "(string, pattern) gomap"
  jf_disk :: "(string, pattern) gomap option"
  jf_writes :: "string option list"

text \<open>
  \<open>NewJSONFileStore\<close>: what reading and decoding the file gives is the argument: the decoded
  patterns, no file (\<open>None\<close>), or an error.
\<close>

definition NewJSONFileStore :: "string \<Rightarrow> store_error + (string, pattern) gomap option \<Rightarrow>
    store_error + json_file_store" where
  "NewJSONFileStore path file =
     (let s = \<lparr>jf_path = path, jf_patterns = [], jf_disk = None, jf_writes = []\<rparr> in
      if path = '':memory:'' then Inr s
      else case file of
        Inl e \<Rightarrow> Inl e
      | Inr None \<Rightarrow> Inr s
      | Inr (Some m) \<Rightarrow> Inr (s\<lparr>jf_patterns := m, jf_disk := Some m\<rparr>))"

definition jf_save :: "json_file_store \<Rightarrow> store_error option \<times> json_file_store" where
  "jf_save s =
     (if jf_path s = '':memory:'' then (None, s)
      else case jf_writes s of
        [] \<Rightarrow> (None, s\<lparr>jf_disk := Some (jf_patterns s)\<rparr>)
      | None # ws \<Rightarrow> (None, s\<lparr>jf_disk := Some (jf_patterns s), jf_writes := ws\<rparr>)
      | Some e # ws \<Rightarrow> (Some (IOError e), s\<lparr>jf_writes := ws\<rparr>))"

definition jf_Get :: "string \<Rightarrow> json_file_store \<Rightarrow> (pattern \<times> bool) \<times> json_file_store" where
  "jf_Get k s = ((case mget (jf_patterns s) k of None \<Rightarrow> (zero_pattern, False) | Some p \<Rightarrow> (p, True)), s)"

definition jf_Set :: "pattern \<Rightarrow> json_file_store \<Rightarrow> store_error option \<times> json_file_store" where
  "jf_Set p s = jf_save (s\<lparr>jf_patterns := mset_at (jf_patterns s) (p_ID p) p\<rparr>)"

definition jf_Load :: "json_file_store \<Rightarrow> (store_error + (string, pattern) gomap) \<times> json_file_store" where
  "jf_Load s = (Inr (jf_patterns s), s)"

definition jf_Decay :: "time \<Rightarrow> duration \<Rightarrow> f64 \<Rightarrow> json_file_store \<Rightarrow> store_error option \<times> json_file_store" where
  "jf_Decay now olderThan factor s =
     (let cutoff = now - olderThan in
      jf_save (s\<lparr>jf_patterns := map (\<lambda>(k, p).
        if p_LastSeen p < cutoff then (k, p\<lparr>p_Confidence := fmul (p_Confidence p) factor\<rparr>) else (k, p))
        (jf_patterns s)\<rparr>))"

definition jf_Boost :: "string \<Rightarrow> f64 \<Rightarrow> json_file_store \<Rightarrow> store_error option \<times> json_file_store" where
  "jf_Boost k boost s =
     (case mget (jf_patterns s) k of
        None \<Rightarrow> (Some (NotFound k), s)
      | Some p \<Rightarrow>
          let c = fadd (p_Confidence p) boost;
              c = (if flt (flit 1) c then flit 1 else c)
          in jf_save (s\<lparr>jf_patterns := mset_at (jf_patterns s) k (p\<lparr>p_Confidence := c\<rparr>)\<rparr>))"

definition jf_Count :: "json_file_store \<Rightarrow> nat" where
  "jf_Count s = length (jf_patterns s)"

definition json_ops :: "(pattern, json_file_store) store_ops" where
  "json_ops = \<lparr>op_Get = jf_Get, op_Set = jf_Set, op_Load = jf_Load, op_Decay = jf_Decay, op_Boost = \<lambda>_. jf_Boost\<rparr>"

definition jf_view :: "json_file_store \<Rightarrow> string \<Rightarrow> pattern option" where
  "jf_view s = mget (jf_patterns s)"

definition jf_inv :: "json_file_store \<Rightarrow> bool" where
  "jf_inv s = wf_map (jf_patterns s)"

lemma jf_save_patterns [simp]: "jf_patterns (snd (jf_save s)) = jf_patterns s"
  by (auto simp: jf_save_def split: list.splits option.splits)

interpretation json: loading_store p_ID json_ops jf_view jf_inv
proof unfold_locales
  fix s s' :: json_file_store and p :: pattern and e :: store_error and r
  have set: "op_Set json_ops p s = (r, s') \<Longrightarrow> jf_patterns s' = mset_at (jf_patterns s) (p_ID p) p" for r
    using jf_save_patterns [of "s\<lparr>jf_patterns := mset_at (jf_patterns s) (p_ID p) p\<rparr>"]
    by (simp add: json_ops_def jf_Set_def)
  show "op_Set json_ops p s = (None, s') \<Longrightarrow> jf_view s' = (jf_view s)(p_ID p \<mapsto> p)"
    by (rule ext) (simp add: jf_view_def set)
  show "op_Set json_ops p s = (Some e, s') \<Longrightarrow>
      jf_view s' = jf_view s \<or> jf_view s' = (jf_view s)(p_ID p \<mapsto> p)"
    by (rule disjI2, rule ext) (simp add: jf_view_def set)
qed (auto simp: json_ops_def jf_Get_def jf_Set_def jf_Load_def jf_view_def jf_inv_def)

text \<open>When every write reaches the disk, the file holds what the store holds.\<close>

lemma jf_Set_durable:
  "jf_path s \<noteq> '':memory:'' \<Longrightarrow> jf_Set p s = (None, s') \<Longrightarrow> jf_disk s' = Some (jf_patterns s')"
  by (auto simp: jf_Set_def jf_save_def split: list.splits option.splits)

section \<open>The fallback store\<close>

datatype fs_circuit = FsClosed | FsOpen | FsHalfOpen

fun fs_circuit_String :: "fs_circuit \<Rightarrow> string" where
  "fs_circuit_String FsClosed = ''closed''"
| "fs_circuit_String FsOpen = ''open''"
| "fs_circuit_String FsHalfOpen = ''half-open''"

record ('a, 'b) fallback_store =
  fs_primary :: 'a
  fs_fallback :: 'b
  fs_threshold :: int
  fs_timeout :: duration
  fs_state :: fs_circuit
  fs_failures :: int
  fs_last_failure :: time

definition fs_new :: "'a \<Rightarrow> 'b \<Rightarrow> int \<Rightarrow> duration \<Rightarrow> ('a, 'b) fallback_store" where
  "fs_new p f threshold timeout = \<lparr>fs_primary = p, fs_fallback = f, fs_threshold = threshold,
     fs_timeout = timeout, fs_state = FsClosed, fs_failures = 0, fs_last_failure = 0\<rparr>"

definition shouldUsePrimary :: "time \<Rightarrow> ('a, 'b) fallback_store \<Rightarrow> bool \<times> ('a, 'b) fallback_store" where
  "shouldUsePrimary now f =
     (case fs_state f of
        FsClosed \<Rightarrow> (True, f)
      | FsOpen \<Rightarrow>
          (if fs_timeout f < time_sub now (fs_last_failure f)
           then (True, f\<lparr>fs_state := FsHalfOpen\<rparr>) else (False, f))
      | FsHalfOpen \<Rightarrow> (True, f))"

definition fs_recordFailure :: "time \<Rightarrow> ('a, 'b) fallback_store \<Rightarrow> ('a, 'b) fallback_store" where
  "fs_recordFailure now f =
     (let f = f\<lparr>fs_failures := fs_failures f + 1, fs_last_failure := now\<rparr> in
      if fs_threshold f \<le> fs_failures f then f\<lparr>fs_state := FsOpen\<rparr> else f)"

definition fs_recordSuccess :: "('a, 'b) fallback_store \<Rightarrow> ('a, 'b) fallback_store" where
  "fs_recordSuccess f = f\<lparr>fs_state := FsClosed, fs_failures := 0\<rparr>"

text \<open>
  Each operation reads the clock when it chooses the store (\<open>now\<close>) and once more when the
  primary has failed (\<open>later\<close>).
\<close>

definition on_fallback :: "('b \<Rightarrow> 'r \<times> 'b) \<Rightarrow> ('a, 'b) fallback_store \<Rightarrow> 'r \<times> ('a, 'b) fallback_store" where
  "on_fallback g f = (let (r, b) = g (fs_fallback f) in (r, f\<lparr>fs_fallback := b\<rparr>))"

definition on_primary :: "('a \<Rightarrow> 'r \<times> 'a) \<Rightarrow> ('a, 'b) fallback_store \<Rightarrow> 'r \<times> ('a, 'b) fallback_store" where
  "on_primary g f = (let (r, a) = g (fs_primary f) in (r, f\<lparr>fs_primary := a\<rparr>))"

definition fs_Get :: "(pattern, 'a) store_ops \<Rightarrow> (pattern, 'b) store_ops \<Rightarrow> time \<Rightarrow> string \<Rightarrow> ('a, 'b) fallback_store \<Rightarrow>
    (pattern \<times> bool) \<times> ('a, 'b) fallback_store" where
  "fs_Get P F now k f =
     (let (use, f) = shouldUsePrimary now f in
      if use then
        let ((p, ok), f) = on_primary (op_Get P k) f in
        if ok then ((p, True), fs_recordSuccess f) else ((p, False), f)
      else on_fallback (op_Get F k) f)"

definition fs_Set :: "(pattern, 'a) store_ops \<Rightarrow> (pattern, 'b) store_ops \<Rightarrow> time \<Rightarrow> time \<Rightarrow> pattern \<Rightarrow> ('a, 'b) fallback_store \<Rightarrow>
    store_error option \<times> ('a, 'b) fallback_store" where
  "fs_Set P F now later p f =
     (let (use, f) = shouldUsePrimary now f in
      if use then
        let (err, f) = on_primary (op_Set P p) f in
        case err of
          Some _ \<Rightarrow> on_fallback (op_Set F p) (fs_recordFailure later f)
        | None \<Rightarrow> (None, snd (on_fallback (op_Set F p) (fs_recordSuccess f)))
      else on_fallback (op_Set F p) f)"

definition fs_Load :: "(pattern, 'a) store_ops \<Rightarrow> (pattern, 'b) store_ops \<Rightarrow> time \<Rightarrow> time \<Rightarrow> ('a, 'b) fallback_store \<Rightarrow>
    (store_error + (string, pattern) gomap) \<times> ('a, 'b) fallback_store" where
  "fs_Load P F now later f =
     (let (use, f) = shouldUsePrimary now f in
      if use then
        let (res, f) = on_primary (op_Load P) f in
        case res of
          Inl _ \<Rightarrow> on_fallback (op_Load F) (fs_recordFailure later f)
        | Inr m \<Rightarrow> (Inr m, fs_recordSuccess f)
      else on_fallback (op_Load F) f)"

text \<open>\<open>DecayConfidence\<close> and \<open>BoostConfidence\<close> have one shape, over the update they forward.\<close>

definition fs_update :: "('a \<Rightarrow> store_error option \<times> 'a) \<Rightarrow> ('b \<Rightarrow> store_error option \<times> 'b) \<Rightarrow> time \<Rightarrow> time \<Rightarrow>
    ('a, 'b) fallback_store \<Rightarrow> store_error option \<times> ('a, 'b) fallback_store" where
  "fs_update g h now later f =
     (let (use, f) = shouldUsePrimary now f in
      if use then
        let (err, f) = on_primary g f in
        case err of
          Some _ \<Rightarrow> on_fallback h (fs_recordFailure later f)
        | None \<Rightarrow> (None, fs_recordSuccess f)
      else on_fallback h f)"

definition fs_DecayConfidence :: "(pattern, 'a) store_ops \<Rightarrow> (pattern, 'b) store_ops \<Rightarrow> time \<Rightarrow> time \<Rightarrow> duration \<Rightarrow> f64 \<Rightarrow>
    ('a, 'b) fallback_store \<Rightarrow> store_error option \<times> ('a, 'b) fallback_store" where
  "fs_DecayConfidence P F now later olderThan factor =
     fs_update (op_Decay P now olderThan factor) (op_Decay F later olderThan factor) now later"

definition fs_BoostConfidence :: "(pattern, 'a) store_ops \<Rightarrow> (pattern, 'b) store_ops \<Rightarrow> time \<Rightarrow> time \<Rightarrow> string \<Rightarrow> f64 \<Rightarrow>
    ('a, 'b) fallback_store \<Rightarrow> store_error option \<times> ('a, 'b) fallback_store" where
  "fs_BoostConfidence P F now later k boost = fs_update (op_Boost P now k boost) (op_Boost F later k boost) now later"

section \<open>The breaker of the fallback store\<close>

lemmas fs_breaker_defs = shouldUsePrimary_def fs_recordFailure_def fs_recordSuccess_def Let_def

interpretation fs: counting_breaker shouldUsePrimary "\<lambda>_. fs_recordSuccess" fs_recordFailure
    "\<lambda>f. fs_state f = FsOpen" fs_last_failure fs_timeout "\<lambda>_. True" "\<lambda>f. fs_state f = FsClosed"
    fs_failures fs_threshold
  by unfold_locales (auto simp: fs_breaker_defs split: fs_circuit.splits)

lemmas fs_frame = on_primary_def on_fallback_def fs_breaker_defs

section \<open>Two lawful stores behind one breaker\<close>

text \<open>
  What a client of the fallback store may rely on, whatever the two stores are, as long as each
  obeys the laws of \<open>pattern_store\<close>.
\<close>

locale two_stores = primary: pattern_store p_ID P vP iP + backup: pattern_store p_ID F vF iF
  for P :: "(pattern, 'a) store_ops" and vP iP and F :: "(pattern, 'b) store_ops" and vF iF
begin

lemma write_through:
  assumes "iP (fs_primary f)" "iF (fs_fallback f)" "fst (shouldUsePrimary now f)"
    "op_Set P p (fs_primary f) = (None, a)" "op_Set F p (fs_fallback f) = (None, b)"
  shows "fs_Set P F now later p f =
      (None, f\<lparr>fs_primary := a, fs_fallback := b, fs_state := FsClosed, fs_failures := 0\<rparr>)"
    and "vP a (p_ID p) = Some p" and "vF b (p_ID p) = Some p"
  using assms primary.set_ok [OF assms(1,4)] backup.set_ok [OF assms(2,5)]
  by (auto simp: fs_Set_def fs_frame split: fs_circuit.splits if_splits)

text \<open>A value both stores hold is read whichever of them the breaker chooses.\<close>

lemma read_both:
  assumes "iP (fs_primary f)" "iF (fs_fallback f)"
    "vP (fs_primary f) k = Some p" "vF (fs_fallback f) k = Some p"
  shows "fst (fs_Get P F now k f) = (p, True)"
  using assms primary.get_found [OF assms(1,3)] backup.get_found [OF assms(2,4)]
  by (auto simp: fs_Get_def fs_frame split: fs_circuit.splits)

lemma write_then_read:
  assumes "iP (fs_primary f)" "iF (fs_fallback f)" "fst (shouldUsePrimary now f)"
    "op_Set P p (fs_primary f) = (None, a)" "op_Set F p (fs_fallback f) = (None, b)"
  shows "fst (fs_Get P F t (p_ID p)
    ((snd (fs_Set P F now later p f))\<lparr>fs_state := c, fs_last_failure := u\<rparr>)) = (p, True)"
proof -
  have "iP a" "iF b" using primary.inv_set [OF assms(1), of p] backup.inv_set [OF assms(2), of p] assms
    by simp_all
  then show ?thesis using write_through(1) [OF assms, of later] write_through(2,3) [OF assms] by (intro read_both) simp_all
qed

text \<open>A write fails only if the fallback store refuses it.\<close>

lemma write_available:
  assumes "fst (op_Set F p (fs_fallback f)) = None"
  shows "fst (fs_Set P F now later p f) = None"
  using assms by (auto simp: fs_Set_def fs_frame split: fs_circuit.splits option.splits prod.splits)

text \<open>
  A write the primary refuses while the breaker stays closed goes to the fallback alone, and the
  next read asks the primary.
\<close>

lemma refused_write_not_read:
  assumes "iP (fs_primary f)" "fs_state f = FsClosed" "fs_failures f + 1 < fs_threshold f"
    "op_Set P p (fs_primary f) = (Some e, fs_primary f)" "op_Set F p (fs_fallback f) = (None, b)"
    "vP (fs_primary f) (p_ID p) = None"
  shows "fst (fs_Set P F now later p f) = None"
    and "snd (fst (fs_Get P F t (p_ID p) (snd (fs_Set P F now later p f)))) = False"
  using assms primary.get_absent [OF assms(1,6)]
  by (auto simp: fs_Set_def fs_Get_def fs_frame split: prod.splits)

end

interpretation json_pair: two_stores json_ops jf_view jf_inv json_ops jf_view jf_inv
  by unfold_locales

text \<open>A database that can be read but refuses every write, as a primary store.\<close>

definition read_only_ops :: "(pattern, json_file_store) store_ops" where
  "read_only_ops = json_ops\<lparr>op_Set := \<lambda>p s. (Some (IOError ''read-only''), s)\<rparr>"

interpretation read_only: loading_store p_ID read_only_ops jf_view jf_inv
  by unfold_locales (auto simp: read_only_ops_def json_ops_def jf_Get_def jf_Load_def jf_view_def jf_inv_def)

interpretation read_only_pair: two_stores read_only_ops jf_view jf_inv json_ops jf_view jf_inv
  by unfold_locales

section \<open>Properties\<close>

definition memory_store :: json_file_store where
  "memory_store = \<lparr>jf_path = '':memory:'', jf_patterns = [], jf_disk = None, jf_writes = []\<rparr>"

definition login_pattern :: pattern where
  "login_pattern = zero_pattern\<lparr>p_ID := ''login'', p_Selector := ''#login'', p_Confidence := flit 1\<rparr>"

text \<open>C9: a write that both stores accept is read back whatever the breaker does afterwards:
  the write-through to the fallback means that neither a later outage of the primary nor its
  recovery hides the pattern.\<close>

theorem fs_write_then_read:
  assumes "jf_inv (fs_primary f)" "jf_inv (fs_fallback f)" "fst (shouldUsePrimary now f)"
    "fst (jf_Set p (fs_primary f)) = None" "fst (jf_Set p (fs_fallback f)) = None"
  shows "fst (fs_Get json_ops json_ops t (p_ID p)
    ((snd (fs_Set json_ops json_ops now later p f))\<lparr>fs_state := c, fs_last_failure := u\<rparr>)) = (p, True)"
  using json_pair.write_then_read [of f now p "snd (jf_Set p (fs_primary f))" "snd (jf_Set p (fs_fallback f))"]
    assms by (simp add: json_ops_def prod_eq_iff)

lemma fs_write_then_read_witness:
  "fst (fs_Get json_ops json_ops 9 ''login''
     ((snd (fs_Set json_ops json_ops 1 2 login_pattern (fs_new memory_store memory_store 3 (30 * second))))
       \<lparr>fs_state := FsOpen, fs_last_failure := 8\<rparr>)) = (login_pattern, True)"
  using fs_write_then_read [of "fs_new memory_store memory_store 3 (30 * second)" 1 login_pattern 9 8 FsOpen 2]
  by (simp add: fs_new_def memory_store_def jf_inv_def shouldUsePrimary_def jf_Set_def jf_save_def
      login_pattern_def)

text \<open>a read after a write that reported success can miss it: when the primary refuses the
  write and the breaker has not yet tripped, the pattern is stored in the fallback only, \<open>Set\<close>
  returns no error, and the next \<open>Get\<close> asks the primary, which does not have it.\<close>

theorem fs_refused_write_not_read:
  assumes "jf_inv (fs_primary f)" "fs_state f = FsClosed" "fs_failures f + 1 < fs_threshold f"
    "fst (jf_Set p (fs_fallback f)) = None" "jf_view (fs_primary f) (p_ID p) = None"
  shows "fst (fs_Set read_only_ops json_ops now later p f) = None \<and>
    snd (fst (fs_Get read_only_ops json_ops t (p_ID p) (snd (fs_Set read_only_ops json_ops now later p f)))) = False"
  using read_only_pair.refused_write_not_read [of f p "IOError ''read-only''" "snd (jf_Set p (fs_fallback f))"]
    assms by (simp add: read_only_ops_def json_ops_def prod_eq_iff)

lemma fs_refused_write_not_read_witness:
  "fst (fs_Set read_only_ops json_ops 1 2 login_pattern (fs_new memory_store memory_store 3 (30 * second))) = None"
  using fs_refused_write_not_read [of "fs_new memory_store memory_store 3 (30 * second)" login_pattern 1 2]
  by (simp add: fs_new_def memory_store_def jf_inv_def jf_Set_def jf_save_def jf_view_def)

end
