(* ===== verification/Llm_Types.thy ===== *)
theory Llm_Types
  imports Go_Prelude
begin

text \<open>
  The request and response types of \<open>pkg/llm/client.go\<close> and the \<open>Provider\<close> interface. A
  provider is a function of a request and of the world it runs in: the world carries whatever
  the call depends on (network, context, clock), and the call may change it. \<open>clock\<close> reads the
  time of a world. The errors are those the routers of the package build; what a backend itself
  reports is \<open>ProviderError\<close>.
\<close>

record message =
  Role :: string
  Content :: string
  Reasoning :: string

record completion_request =
  Model :: string
  Messages :: "message list"
  Temperature :: "f64 option"
  MaxTokens :: "int option"
  DisableThinking :: bool

record choice =
  choice_Index :: int
  choice_Message :: message

record usage =
  PromptTokens :: int
  CompletionTokens :: int
  TotalTokens :: int

record completion_response =
  Choices :: "choice list"
  Usage :: usage

datatype ctx_error = Canceled | DeadlineExceeded

datatype llm_error =
    ProviderError string
  | CtxErr ctx_error
  | TierFailed string int llm_error
  | AllProvidersFailed "llm_error option"
  | SemanticFallback llm_error
  | RateLimited string llm_error
  | WaitingForSlot ctx_error
  | UserQueueFull string int
  | SchedulerClosed
  | NoHealthyUpstream
  | UpstreamFailed string llm_error
  | BackpressureDelayed ctx_error
  | MemoryBudgetExceeded
  | QueueShutdown
  | NoNodes

type_synonym 'w provider = "completion_request \<Rightarrow> 'w \<Rightarrow> (llm_error + completion_response) \<times> 'w"

definition containsAny :: "string \<Rightarrow> string list \<Rightarrow> bool" where
  "containsAny s subs = (\<exists>sub \<in> set subs. contains s sub)"

end
