(* ===== verification/Tiered_Router.thy ===== *)
theory Tiered_Router
  imports Llm_Types Breaker_Spec
begin

text \<open>
  \<open>pkg/llm/router.go\<close>: providers with a health state, tried in tier order. Providers are shared
  by pointer (the semantic router and its fallback hold the same objects), so they live in a
  heap, a list of health records, and routers hold indices into it. \<open>prov i\<close> is the
  \<open>Provider\<close> behind the \<open>i\<close>-th object.
\<close>

section \<open>Provider health\<close>

record tiered_provider =
  tp_Name :: string
  tp_Tier :: int
  tp_healthy :: bool
  tp_failCount :: int
  tp_lastFailure :: time
  tp_cooldown :: duration

definition TierFree :: int where "TierFree = 1"
definition TierCapped :: int where "TierCapped = 2"
definition TierPayAsYouGo :: int where "TierPayAsYouGo = 3"
definition TierLocal :: int where "TierLocal = 4"

definition NewTieredProvider :: "string \<Rightarrow> int \<Rightarrow> tiered_provider" where
  "NewTieredProvider name tier = \<lparr>tp_Name = name, tp_Tier = tier, tp_healthy = True,
     tp_failCount = 0, tp_lastFailure = 0, tp_cooldown = 30 * second\<rparr>"

definition isAvailable :: "time \<Rightarrow> tiered_provider \<Rightarrow> bool \<times> tiered_provider" where
  "isAvailable now tp =
     (if tp_healthy tp then (True, tp)
      else if tp_cooldown tp < time_sub now (tp_lastFailure tp)
      then (True, tp\<lparr>tp_healthy := True, tp_failCount := 0\<rparr>)
      else (False, tp))"

definition recordSuccess :: "tiered_provider \<Rightarrow> tiered_provider" where
  "recordSuccess tp = tp\<lparr>tp_healthy := True, tp_failCount := 0\<rparr>"

definition failure_cooldown :: "int \<Rightarrow> duration" where
  "failure_cooldown n =
     (let c = wrap64 (wrap64 (n * 10) * second) in if 5 * minute < c then 5 * minute else c)"

definition recordFailure :: "time \<Rightarrow> tiered_provider \<Rightarrow> tiered_provider" where
  "recordFailure now tp =
     (let tp = tp\<lparr>tp_failCount := tp_failCount tp + 1, tp_lastFailure := now\<rparr> in
      if 3 \<le> tp_failCount tp
      then tp\<lparr>tp_healthy := False, tp_cooldown := failure_cooldown (tp_failCount tp)\<rparr>
      else tp)"

definition HealthStatus :: "tiered_provider \<Rightarrow> bool \<times> int" where
  "HealthStatus tp = (tp_healthy tp, tp_failCount tp)"

lemmas tp_defs = isAvailable_def recordSuccess_def recordFailure_def Let_def

definition tp_inv :: "tiered_provider \<Rightarrow> bool" where
  "tp_inv tp \<longleftrightarrow> 0 \<le> tp_failCount tp"

interpretation tier: counting_breaker isAvailable "\<lambda>_. recordSuccess" recordFailure
    "\<lambda>tp. \<not> tp_healthy tp" tp_lastFailure tp_cooldown tp_inv tp_healthy tp_failCount "\<lambda>_. 3"
  by unfold_locales (auto simp: tp_defs tp_inv_def)

text \<open>
  The cool-down is between 30 seconds and 5 minutes as long as the failure count times ten
  seconds fits into a duration.
\<close>

lemma failure_cooldown_bounds:
  "3 \<le> n \<Longrightarrow> n \<le> 922337203 \<Longrightarrow> 30 * second \<le> failure_cooldown n \<and> failure_cooldown n \<le> 5 * minute"
  by (simp add: failure_cooldown_def Let_def)

section \<open>The router\<close>

text \<open>
  The sorting loop of \<open>NewTieredRouter\<close>: the \<open>i\<close>-th element is swapped to the left past every
  element of a strictly larger tier. The prefix is kept nearest element first.
\<close>

fun sift_left :: "('a \<Rightarrow> int) \<Rightarrow> 'a list \<Rightarrow> 'a \<Rightarrow> 'a list" where
  "sift_left tier [] x = [x]"
| "sift_left tier (y # ys) x = (if tier x < tier y then y # sift_left tier ys x else x # y # ys)"

definition NewTieredRouter :: "tiered_provider list \<Rightarrow> nat list \<Rightarrow> nat list" where
  "NewTieredRouter heap ps = rev (foldl (sift_left (\<lambda>i. tp_Tier (heap ! i))) [] ps)"

fun tr_complete :: "(nat \<Rightarrow> 'w provider) \<Rightarrow> ('w \<Rightarrow> time) \<Rightarrow> nat list \<Rightarrow> completion_request \<Rightarrow>
    llm_error option \<Rightarrow> tiered_provider list \<Rightarrow> 'w \<Rightarrow>
    (llm_error + completion_response) \<times> tiered_provider list \<times> 'w" where
  "tr_complete prov clock [] req lastErr heap w = (Inl (AllProvidersFailed lastErr), heap, w)"
| "tr_complete prov clock (i # is) req lastErr heap w =
     (let (avail, tp) = isAvailable (clock w) (heap ! i); heap = heap[i := tp] in
      if \<not> avail then tr_complete prov clock is req lastErr heap w
      else case prov i req w of
        (Inl err, w) \<Rightarrow>
          tr_complete prov clock is req (Some (TierFailed (tp_Name tp) (tp_Tier tp) err))
            (heap[i := recordFailure (clock w) (heap ! i)]) w
      | (Inr resp, w) \<Rightarrow> (Inr resp, heap[i := recordSuccess (heap ! i)], w))"

definition tr_Complete :: "(nat \<Rightarrow> 'w provider) \<Rightarrow> ('w \<Rightarrow> time) \<Rightarrow> nat list \<Rightarrow> completion_request \<Rightarrow>
    tiered_provider list \<Rightarrow> 'w \<Rightarrow> (llm_error + completion_response) \<times> tiered_provider list \<times> 'w" where
  "tr_Complete prov clock order req heap w = tr_complete prov clock order req None heap w"

section \<open>Sorting by tier\<close>

lemma set_sift: "set (sift_left f ys x) = insert x (set ys)"
  by (induction ys) auto

lemma mset_sift: "mset (sift_left f ys x) = add_mset x (mset ys)"
  by (induction ys) auto

lemma sorted_sift: "sorted (rev (map f ys)) \<Longrightarrow> sorted (rev (map f (sift_left f ys x)))"
proof (induction ys)
  case (Cons y ys)
  then show ?case by (auto simp: sorted_append set_sift)
qed simp

lemma filter_sift: "filter (\<lambda>z. f z = k) (sift_left f ys x) = filter (\<lambda>z. f z = k) (x # ys)"
  by (induction ys) auto

lemma sift_fold:
  "mset (foldl (sift_left f) acc xs) = mset acc + mset xs"
  "sorted (rev (map f acc)) \<Longrightarrow> sorted (rev (map f (foldl (sift_left f) acc xs)))"
  "filter (\<lambda>z. f z = k) (foldl (sift_left f) acc xs) = filter (\<lambda>z. f z = k) (rev xs @ acc)"
proof (induction xs arbitrary: acc)
  case (Cons x xs)
  { case 1 show ?case using Cons(1) by (simp add: mset_sift) }
  { case 2 then show ?case using Cons(2) by (simp add: sorted_sift) }
  { case 3 show ?case using Cons(3) [of "sift_left f acc x"] by (simp add: filter_sift) }
qed simp_all

lemma sift_sort_key: "rev (foldl (sift_left f) [] xs) = sort_key f xs"
proof (rule properties_for_sort_key [symmetric])
  show "mset (rev (foldl (sift_left f) [] xs)) = mset xs" using sift_fold(1) [of f "[]" xs] by simp
  show "filter (\<lambda>x. f k = f x) (rev (foldl (sift_left f) [] xs)) = filter (\<lambda>x. f k = f x) xs" for k
    using sift_fold(3) [of f "f k" "[]" xs] by (simp add: rev_filter [symmetric] eq_commute [of "f k"])
  show "sorted (map f (rev (foldl (sift_left f) [] xs)))" using sift_fold(2) [of f "[]" xs]
    by (simp add: rev_map)
qed

section \<open>One request\<close>

lemma tr_complete_length: "length (fst (snd (tr_complete prov clock is req le heap w))) = length heap"
  by (induction prov clock "is" req le heap w rule: tr_complete.induct)
    (auto simp: Let_def split: prod.splits sum.splits)

text \<open>A response comes from a provider of the list that answered it.\<close>

lemma tr_complete_response:
  "tr_complete prov clock is req le heap w = (Inr resp, heap', w') \<Longrightarrow>
   \<exists>i \<in> set is. \<exists>w1. prov i req w1 = (Inr resp, w')"
proof (induction prov clock "is" req le heap w rule: tr_complete.induct)
  case (2 prov clock i "is" req le heap w)
  then show ?case by (auto simp: Let_def split: prod.splits sum.splits if_splits)
qed simp

text \<open>
  If some provider is healthy and answers in whatever state the world is, the request succeeds:
  the failures of the others are absorbed.
\<close>

lemma tr_complete_succeeds:
  assumes "i \<in> set is" "i < length heap" "distinct is" "tp_healthy (heap ! i)"
    "\<And>w. \<exists>resp w'. prov i req w = (Inr resp, w')"
  shows "\<exists>resp. fst (tr_complete prov clock is req le heap w) = Inr resp"
  using assms
proof (induction prov clock "is" req le heap w rule: tr_complete.induct)
  case (2 prov clock j js req le heap w)
  obtain avail tp where at: "isAvailable (clock w) (heap ! j) = (avail, tp)" by fastforce
  show ?case
  proof (cases "i = j")
    case True
    obtain resp w' where "prov i req w = (Inr resp, w')" using "2.prems"(5) by blast
    with True at "2.prems" show ?thesis by (auto simp: isAvailable_def)
  next
    case False
    then have i: "i \<in> set js" using "2.prems" by simp
    show ?thesis
    proof (cases avail)
      case False': False
      from "2.IH"(1) [OF at [symmetric] refl refl _ i] False' at False "2.prems" show ?thesis by simp
    next
      case True
      obtain r w1 where r: "prov j req w = (r, w1)" by fastforce
      show ?thesis
      proof (cases r)
        case (Inl err)
        from "2.IH"(2) [OF at [symmetric] refl refl _ r [symmetric] Inl i] True r Inl at False "2.prems"
        show ?thesis by simp
      next
        case (Inr resp)
        with True r at show ?thesis by simp
      qed
    qed
  qed
qed simp

text \<open>
  \<open>passed_over\<close> is what a request has gone through when the providers of a list did not answer it: each of
  them was not available when its turn came, or was asked and failed. It gives the last failure and
  the world after them, and nothing when one of them answered.
\<close>

fun passed_over :: "(nat \<Rightarrow> 'w provider) \<Rightarrow> ('w \<Rightarrow> time) \<Rightarrow> tiered_provider list \<Rightarrow> completion_request \<Rightarrow> nat list \<Rightarrow>
    llm_error option \<Rightarrow> 'w \<Rightarrow> (llm_error option \<times> 'w) option" where
  "passed_over prov clock heap req [] le w = Some (le, w)"
| "passed_over prov clock heap req (i # is) le w =
     (if \<not> fst (isAvailable (clock w) (heap ! i)) then passed_over prov clock heap req is le w
      else case prov i req w of
        (Inl e, w) \<Rightarrow> passed_over prov clock heap req is (Some (TierFailed (tp_Name (heap ! i)) (tp_Tier (heap ! i)) e)) w
      | (Inr resp, w) \<Rightarrow> None)"

lemma passed_over_update [simp]:
  "j \<notin> set is \<Longrightarrow> passed_over prov clock (heap[j := x]) req is le w = passed_over prov clock heap req is le w"
  by (induction "is" arbitrary: le w) (auto split: prod.split sum.split)

text \<open>How a request ends: nobody answered it, or somebody did after all before him had been passed over.\<close>

definition answered_by :: "(nat \<Rightarrow> 'w provider) \<Rightarrow> ('w \<Rightarrow> time) \<Rightarrow> tiered_provider list \<Rightarrow> completion_request \<Rightarrow> nat list \<Rightarrow>
    llm_error option \<Rightarrow> 'w \<Rightarrow> completion_response \<Rightarrow> 'w \<Rightarrow> bool" where
  "answered_by prov clock heap req is le w resp w' \<longleftrightarrow>
     (\<exists>before i after le1 w1. is = before @ i # after \<and> passed_over prov clock heap req before le w = Some (le1, w1) \<and>
        fst (isAvailable (clock w1) (heap ! i)) \<and> prov i req w1 = (Inr resp, w'))"

lemma answered_by_skip:
  assumes "\<not> fst (isAvailable (clock w) (heap ! i))" "answered_by prov clock heap req is le w resp w'"
  shows "answered_by prov clock heap req (i # is) le w resp w'"
proof -
  from assms(2) obtain before k after le1 w1 where "is = before @ k # after" "passed_over prov clock heap req before le w = Some (le1, w1)"
    "fst (isAvailable (clock w1) (heap ! k))" "prov k req w1 = (Inr resp, w')" unfolding answered_by_def by blast
  with assms(1) show ?thesis unfolding answered_by_def by (intro exI [of _ "i # before"] exI [of _ k] exI [of _ after]) simp
qed

lemma answered_by_failed:
  assumes "fst (isAvailable (clock w) (heap ! i))" "prov i req w = (Inl e, w0)"
    "answered_by prov clock heap req is (Some (TierFailed (tp_Name (heap ! i)) (tp_Tier (heap ! i)) e)) w0 resp w'"
  shows "answered_by prov clock heap req (i # is) le w resp w'"
proof -
  from assms(3) obtain before k after le1 w1 where "is = before @ k # after"
    "passed_over prov clock heap req before (Some (TierFailed (tp_Name (heap ! i)) (tp_Tier (heap ! i)) e)) w0 = Some (le1, w1)"
    "fst (isAvailable (clock w1) (heap ! k))" "prov k req w1 = (Inr resp, w')" unfolding answered_by_def by blast
  with assms(1,2) show ?thesis unfolding answered_by_def by (intro exI [of _ "i # before"] exI [of _ k] exI [of _ after]) simp
qed

lemma answered_by_update [simp]:
  "j \<notin> set is \<Longrightarrow> answered_by prov clock (heap[j := x]) req is le w resp w' = answered_by prov clock heap req is le w resp w'"
  unfolding answered_by_def by (intro ex_cong1 iffI) (auto simp: nth_list_update)

lemma tr_complete_first:
  assumes "distinct is" "\<forall>i \<in> set is. i < length heap" "tr_complete prov clock is req le heap w = (r, heap', w')"
  shows "case r of Inr resp \<Rightarrow> answered_by prov clock heap req is le w resp w'
    | Inl e \<Rightarrow> (\<exists>le'. passed_over prov clock heap req is le w = Some (le', w') \<and> e = AllProvidersFailed le')"
  using assms
proof (induction prov clock "is" req le heap w rule: tr_complete.induct)
  case (2 prov clock j js req le heap w)
  obtain avail tp where at: "isAvailable (clock w) (heap ! j) = (avail, tp)" by fastforce
  have same: "tp_Name tp = tp_Name (heap ! j)" "tp_Tier tp = tp_Tier (heap ! j)"
    using at by (auto simp: isAvailable_def split: if_splits)
  show ?case
  proof (cases avail)
    case False
    with "2.IH"(1) [OF at [symmetric] refl refl] "2.prems" at show ?thesis
      by (auto split: sum.splits intro: answered_by_skip)
  next
    case True
    obtain a w1 where ask: "prov j req w = (a, w1)" by fastforce
    show ?thesis
    proof (cases a)
      case (Inl err)
      with True "2.IH"(2) [OF at [symmetric] refl refl _ ask [symmetric] Inl] "2.prems" at same ask show ?thesis
        by (auto split: sum.splits intro: answered_by_failed)
    next
      case (Inr resp)
      with True at "2.prems" ask show ?thesis
        by (auto simp: answered_by_def intro!: exI [of _ "[]"])
    qed
  qed
qed auto

section \<open>Failures in a row\<close>

lemma recordFailure_run:
  assumes "0 \<le> tp_failCount tp" "3 \<le> tp_failCount tp + int (length ts)" "ts \<noteq> []"
  shows "\<not> tp_healthy (calls recordFailure ts tp) \<and>
    tp_lastFailure (calls recordFailure ts tp) = last ts \<and>
    tp_cooldown (calls recordFailure ts tp) = failure_cooldown (tp_failCount tp + int (length ts))"
  using assms
proof (induction ts arbitrary: tp)
  case (Cons t ts)
  show ?case
  proof (cases "ts = []")
    case True
    with Cons.prems show ?thesis by (simp add: tp_defs)
  next
    case False
    have "tp_failCount (recordFailure t tp) = tp_failCount tp + 1" by (simp add: tp_defs)
    with Cons.IH [of "recordFailure t tp"] Cons.prems False show ?thesis by (simp add: add.assoc)
  qed
qed simp

section \<open>Properties\<close>

text \<open>the hand-written sorting loop of \<open>NewTieredRouter\<close> is a stable sort by tier: the
  order is a permutation of the providers, cheapest tier first, and providers of one tier keep the
  order in which they were given.\<close>

theorem tiered_router_sorts:
  "NewTieredRouter heap ps = sort_key (\<lambda>i. tp_Tier (heap ! i)) ps"
  unfolding NewTieredRouter_def by (rule sift_sort_key)

text \<open>C11: whatever the providers do and however long they take, a response comes from a provider that was available
  when its turn came and before which, cheapest tier first and within a tier in the order of the
  configuration, every provider was unavailable at its turn or was asked and failed; without a
  response every provider was passed over in this way, and the error wraps the last failure.\<close>

theorem tiered_router_first:
  assumes "distinct ps" "\<forall>i \<in> set ps. i < length heap"
    "tr_Complete prov clock (NewTieredRouter heap ps) req heap w = (r, heap', w')"
  shows "let order = sort_key (\<lambda>i. tp_Tier (heap ! i)) ps in
    case r of
      Inr resp \<Rightarrow> (\<exists>before i after le w1. order = before @ i # after \<and>
        passed_over prov clock heap req before None w = Some (le, w1) \<and>
        fst (isAvailable (clock w1) (heap ! i)) \<and> prov i req w1 = (Inr resp, w'))
    | Inl e \<Rightarrow> (\<exists>le. passed_over prov clock heap req order None w = Some (le, w') \<and> e = AllProvidersFailed le)"
proof -
  have order: "NewTieredRouter heap ps = sort_key (\<lambda>i. tp_Tier (heap ! i)) ps"
    unfolding NewTieredRouter_def by (rule sift_sort_key)
  show ?thesis
    using tr_complete_first [of "NewTieredRouter heap ps" heap prov clock req None w r heap' w'] assms
    unfolding order tr_Complete_def answered_by_def Let_def by simp
qed

definition empty_response :: completion_response where
  "empty_response = \<lparr>Choices = [], Usage = \<lparr>PromptTokens = 0, CompletionTokens = 0, TotalTokens = 0\<rparr>\<rparr>"

definition empty_request :: completion_request where
  "empty_request = \<lparr>Model = [], Messages = [], Temperature = None, MaxTokens = None, DisableThinking = False\<rparr>"

text \<open>Three providers given out of order: the free one is down, the capped one answers on its second call.\<close>

definition three_providers :: "tiered_provider list" where
  "three_providers = [NewTieredProvider ''qwen'' 4, NewTieredProvider ''claude'' 2, NewTieredProvider ''gemini'' 1]"

definition flaky :: "nat \<Rightarrow> time provider" where
  "flaky i req w = (if i = 1 then Inr empty_response else Inl (ProviderError ''down''), w + second)"

lemma tiered_router_first_witness:
  "\<exists>r heap' w'. tr_Complete flaky id (NewTieredRouter three_providers [0, 1, 2]) empty_request three_providers 7 = (r, heap', w') \<and>
     r = Inr empty_response \<and> w' = 7 + 2 * second \<and>
     (\<exists>before i after le w1. [2, 1, 0] = before @ i # after \<and> passed_over flaky id three_providers empty_request before None 7 = Some (le, w1) \<and>
        flaky i empty_request w1 = (Inr empty_response, 7 + 2 * second))"
proof -
  define run where "run = tr_Complete flaky id (NewTieredRouter three_providers [0, 1, 2]) empty_request three_providers 7"
  have r: "fst run = Inr empty_response" "snd (snd run) = 7 + 2 * second"
    by (simp_all add: run_def NewTieredRouter_def three_providers_def NewTieredProvider_def tr_Complete_def flaky_def isAvailable_def recordFailure_def)
  have order: "sort_key (\<lambda>i. tp_Tier (three_providers ! i)) [0, 1, 2] = [2, 1, 0]"
    by (simp add: three_providers_def NewTieredProvider_def)
  have "tr_Complete flaky id (NewTieredRouter three_providers [0, 1, 2]) empty_request three_providers 7 = (fst run, fst (snd run), snd (snd run))"
    unfolding run_def prod.collapse by (rule refl)
  from tiered_router_first [OF _ _ this] order r
  have "\<exists>before i after le w1. [2, 1, 0] = before @ i # after \<and> passed_over flaky id three_providers empty_request before None 7 = Some (le, w1) \<and>
        flaky i empty_request w1 = (Inr empty_response, 7 + 2 * second)" by (simp add: Let_def) (auto simp: three_providers_def)
  moreover have "run = (Inr empty_response, fst (snd run), 7 + 2 * second)" using r by (metis prod.collapse)
  ultimately show ?thesis unfolding run_def [symmetric] by blast
qed

text \<open>one healthy provider that answers is enough for the request to succeed, wherever it
  stands in the order and however the providers before it fail.\<close>

theorem tiered_router_succeeds:
  assumes "i \<in> set order" "i < length heap" "distinct order" "tp_healthy (heap ! i)"
    "\<And>w. \<exists>resp w'. prov i req w = (Inr resp, w')"
  shows "\<exists>resp. fst (tr_Complete prov clock order req heap w) = Inr resp"
  unfolding tr_Complete_def by (rule tr_complete_succeeds [where i = i]) (use assms in auto)

lemma tiered_router_succeeds_witness:
  "\<exists>resp. fst (tr_Complete (\<lambda>i req (w :: int). (if i = 1 then Inr empty_response else Inl (ProviderError ''down''), w + 1))
     id [0, 1] empty_request [NewTieredProvider ''gemini'' 1, NewTieredProvider ''claude'' 2] 7) = Inr resp"
  by (rule tiered_router_succeeds [where i = 1]) (simp_all add: NewTieredProvider_def)

text \<open>after \<open>n\<close> failures in a row (three or more) a new provider is passed over for
  exactly ten seconds per failure, five minutes at most, counted from the last failure.\<close>

theorem tiered_provider_backoff:
  assumes "3 \<le> length ts" "length ts \<le> 922337203"
  shows "fst (isAvailable now (calls recordFailure ts (NewTieredProvider name tier))) \<longleftrightarrow>
    min (int (length ts) * (10 * second)) (5 * minute) < time_sub now (last ts)"
proof -
  let ?tp = "calls recordFailure ts (NewTieredProvider name tier)"
  have ne: "ts \<noteq> []" using assms by auto
  have "tp_cooldown ?tp = failure_cooldown (int (length ts))" "\<not> tp_healthy ?tp" "tp_lastFailure ?tp = last ts"
    using recordFailure_run [of "NewTieredProvider name tier" ts] assms ne by (simp_all add: NewTieredProvider_def)
  moreover have "failure_cooldown (int (length ts)) = min (int (length ts) * (10 * second)) (5 * minute)"
    using assms by (simp add: failure_cooldown_def Let_def min_def)
  ultimately show ?thesis by (simp add: isAvailable_def)
qed

lemma tiered_provider_backoff_witness:
  "\<not> fst (isAvailable (35 * second) (calls recordFailure [1 * second, 3 * second, 6 * second] (NewTieredProvider ''claude'' 2)))"
  using tiered_provider_backoff [of "[1 * second, 3 * second, 6 * second]" "35 * second" "''claude''" 2]
  by (simp add: time_sub_def del: calls.simps)

end
