(* ===== verification/Semantic_Router.thy ===== *)
theory Semantic_Router
  imports Tiered_Router
begin

text \<open>
  \<open>pkg/llm/semantic_router.go\<close>: routing by task type and model tier in front of a tiered router
  over the same provider objects (the same heap). Task types and tier tags are strings in the
  code and here. The logger is left out; the lock makes each metrics update atomic.
\<close>

section \<open>Task types, tiers and configuration\<close>

definition TaskDiscovery :: string where "TaskDiscovery = ''discovery''"
definition TaskPatternReplay :: string where "TaskPatternReplay = ''pattern_replay''"
definition TaskVisual :: string where "TaskVisual = ''visual''"
definition TaskSynthesis :: string where "TaskSynthesis = ''synthesis''"
definition TaskEvaluation :: string where "TaskEvaluation = ''evaluation''"
definition TaskGeneral :: string where "TaskGeneral = ''general''"

definition ModelTierFast :: string where "ModelTierFast = ''fast''"
definition ModelTierBalanced :: string where "ModelTierBalanced = ''balanced''"
definition ModelTierPowerful :: string where "ModelTierPowerful = ''powerful''"
definition ModelTierVLM :: string where "ModelTierVLM = ''vlm''"

record semantic_provider =
  sp_ptr :: nat
  sp_ModelTier :: string
  sp_Capabilities :: "string list"

definition DefaultSemanticRouterConfig :: "(string, string list) gomap" where
  "DefaultSemanticRouterConfig =
     [(TaskDiscovery, [ModelTierPowerful, ModelTierBalanced]),
      (TaskPatternReplay, [ModelTierFast, ModelTierBalanced]),
      (TaskVisual, [ModelTierVLM, ModelTierPowerful]),
      (TaskSynthesis, [ModelTierPowerful, ModelTierBalanced]),
      (TaskEvaluation, [ModelTierBalanced, ModelTierFast]),
      (TaskGeneral, [ModelTierBalanced, ModelTierFast, ModelTierPowerful])]"

record semantic_router =
  sr_providers :: "semantic_provider list"
  sr_TaskTierMap :: "(string, string list) gomap"
  sr_fallback :: "nat list"
  RequestsByTask :: "(string, int) gomap"
  RequestsByTier :: "(string, int) gomap"
  Fallbacks :: int

definition NewSemanticRouter :: "tiered_provider list \<Rightarrow> semantic_provider list \<Rightarrow>
    (string, string list) gomap \<Rightarrow> semantic_router" where
  "NewSemanticRouter heap providers cfg =
     \<lparr>sr_providers = providers, sr_TaskTierMap = cfg,
      sr_fallback = NewTieredRouter heap (map sp_ptr providers),
      RequestsByTask = [], RequestsByTier = [], Fallbacks = 0\<rparr>"

definition capableOf :: "semantic_provider \<Rightarrow> string \<Rightarrow> bool" where
  "capableOf sp t = (sp_Capabilities sp = [] \<or> t \<in> set (sp_Capabilities sp))"

section \<open>Classification of requests\<close>

fun system_content :: "message list \<Rightarrow> string" where
  "system_content [] = []"
| "system_content (m # ms) = (if to_lower (Role m) = ''system'' then Content m else system_content ms)"

definition extractSystemContent :: "completion_request \<Rightarrow> string" where
  "extractSystemContent req = system_content (Messages req)"

definition ClassifyTask :: "completion_request \<Rightarrow> string" where
  "ClassifyTask req =
     (let lower = to_lower (extractSystemContent req) in
      if containsAny lower [''screenshot'', ''visual'', ''image''] then TaskVisual
      else if containsAny lower [''discover'', ''find element'', ''css selector''] then TaskDiscovery
      else if containsAny lower [''pattern'', ''cached'', ''replay''] then TaskPatternReplay
      else if containsAny lower [''mutate'', ''evolve'', ''synthesize''] then TaskSynthesis
      else if containsAny lower [''evaluate'', ''score'', ''rubric''] then TaskEvaluation
      else TaskGeneral)"

section \<open>Routing one request\<close>

text \<open>The inner loop over the providers of one tier, and the loop over the preferred tiers.\<close>

fun sr_scan :: "(nat \<Rightarrow> 'w provider) \<Rightarrow> ('w \<Rightarrow> time) \<Rightarrow> string \<Rightarrow> string \<Rightarrow> completion_request \<Rightarrow>
    semantic_provider list \<Rightarrow> tiered_provider list \<Rightarrow> 'w \<Rightarrow>
    completion_response option \<times> tiered_provider list \<times> 'w" where
  "sr_scan prov clock tier task req [] heap w = (None, heap, w)"
| "sr_scan prov clock tier task req (sp # sps) heap w =
     (if sp_ModelTier sp \<noteq> tier then sr_scan prov clock tier task req sps heap w
      else if \<not> capableOf sp task then sr_scan prov clock tier task req sps heap w
      else let i = sp_ptr sp; (avail, tp) = isAvailable (clock w) (heap ! i); heap = heap[i := tp] in
        if \<not> avail then sr_scan prov clock tier task req sps heap w
        else case prov i req w of
          (Inl err, w) \<Rightarrow>
            sr_scan prov clock tier task req sps (heap[i := recordFailure (clock w) (heap ! i)]) w
        | (Inr resp, w) \<Rightarrow> (Some resp, heap[i := recordSuccess (heap ! i)], w))"

fun sr_tiers :: "(nat \<Rightarrow> 'w provider) \<Rightarrow> ('w \<Rightarrow> time) \<Rightarrow> string list \<Rightarrow> string \<Rightarrow> completion_request \<Rightarrow>
    semantic_provider list \<Rightarrow> tiered_provider list \<Rightarrow> 'w \<Rightarrow>
    (completion_response \<times> string) option \<times> tiered_provider list \<times> 'w" where
  "sr_tiers prov clock [] task req sps heap w = (None, heap, w)"
| "sr_tiers prov clock (tier # tiers) task req sps heap w =
     (case sr_scan prov clock tier task req sps heap w of
        (Some resp, heap, w) \<Rightarrow> (Some (resp, tier), heap, w)
      | (None, heap, w) \<Rightarrow> sr_tiers prov clock tiers task req sps heap w)"

definition preferred_tiers :: "semantic_router \<Rightarrow> string \<Rightarrow> string list" where
  "preferred_tiers r task =
     (let ts = mget_or [] (sr_TaskTierMap r) task in
      if ts = [] then mget_or [] (sr_TaskTierMap r) TaskGeneral else ts)"

definition CompleteWithTask :: "(nat \<Rightarrow> 'w provider) \<Rightarrow> ('w \<Rightarrow> time) \<Rightarrow> string \<Rightarrow> completion_request \<Rightarrow>
    semantic_router \<Rightarrow> tiered_provider list \<Rightarrow> 'w \<Rightarrow>
    (llm_error + completion_response) \<times> semantic_router \<times> tiered_provider list \<times> 'w" where
  "CompleteWithTask prov clock task req r heap w =
     (let r = r\<lparr>RequestsByTask := mincr (RequestsByTask r) task\<rparr> in
      case sr_tiers prov clock (preferred_tiers r task) task req (sr_providers r) heap w of
        (Some (resp, tier), heap, w) \<Rightarrow>
          (Inr resp, r\<lparr>RequestsByTier := mincr (RequestsByTier r) tier\<rparr>, heap, w)
      | (None, heap, w) \<Rightarrow>
          let r = r\<lparr>Fallbacks := Fallbacks r + 1\<rparr> in
          case tr_Complete prov clock (sr_fallback r) req heap w of
            (Inl err, heap, w) \<Rightarrow> (Inl (SemanticFallback err), r, heap, w)
          | (Inr resp, heap, w) \<Rightarrow> (Inr resp, r, heap, w))"

definition sr_Complete :: "(nat \<Rightarrow> 'w provider) \<Rightarrow> ('w \<Rightarrow> time) \<Rightarrow> completion_request \<Rightarrow>
    semantic_router \<Rightarrow> tiered_provider list \<Rightarrow> 'w \<Rightarrow>
    (llm_error + completion_response) \<times> semantic_router \<times> tiered_provider list \<times> 'w" where
  "sr_Complete prov clock req r heap w = CompleteWithTask prov clock (ClassifyTask req) req r heap w"

section \<open>The semantic phase\<close>

text \<open>
  What the loops do to the health records: the length of the heap is kept, and a provider that
  answers whatever the world is in stays healthy once it is.
\<close>

lemma sr_scan_keeps:
  assumes "i < length heap" "tp_healthy (heap ! i)" "\<And>w. \<exists>resp w'. prov i req w = (Inr resp, w')"
    "sr_scan prov clock tier task req sps heap w = (r, heap', w')"
  shows "length heap' = length heap \<and> tp_healthy (heap' ! i)"
  using assms
proof (induction prov clock tier task req sps heap w rule: sr_scan.induct)
  case (2 prov clock tier task req sp sps heap w)
  obtain avail tp where at: "isAvailable (clock w) (heap ! sp_ptr sp) = (avail, tp)" by fastforce
  obtain res w1 where res: "prov (sp_ptr sp) req w = (res, w1)" by fastforce
  have tp: "sp_ptr sp = i \<Longrightarrow> avail \<and> tp = heap ! i" using at "2.prems"(2) by (auto simp: isAvailable_def)
  have inr: "sp_ptr sp = i \<Longrightarrow> \<exists>resp. res = Inr resp"
    using "2.prems"(3) [of w] res by auto
  have keep: "tp_healthy (heap[sp_ptr sp := tp] ! i)"
    using "2.prems"(1,2) tp by (cases "sp_ptr sp = i") auto
  consider (skip) "sp_ModelTier sp \<noteq> tier \<or> \<not> capableOf sp task"
    | (down) "sp_ModelTier sp = tier" "capableOf sp task" "\<not> avail"
    | (err) e where "sp_ModelTier sp = tier" "capableOf sp task" avail "res = Inl e"
    | (ok) resp where "sp_ModelTier sp = tier" "capableOf sp task" avail "res = Inr resp"
    by (cases res) auto
  then show ?case
  proof cases
    case skip
    with "2.prems" "2.IH"(1,2) show ?thesis by (auto split: if_splits)
  next
    case down
    from "2.IH"(3) [OF _ _ refl at [symmetric] refl] down at "2.prems" keep show ?thesis by simp
  next
    case err
    then have ne: "sp_ptr sp \<noteq> i" using inr by auto
    from "2.IH"(4) [OF _ _ refl at [symmetric] refl refl _ res [symmetric]] err at res "2.prems" keep ne
    show ?thesis by (simp add: Let_def)
  next
    case ok
    with at res "2.prems" keep show ?thesis
      by (cases "sp_ptr sp = i") (auto simp: recordSuccess_def Let_def)
  qed
qed simp

lemma sr_scan_succeeds:
  assumes "sp \<in> set sps" "sp_ModelTier sp = tier" "capableOf sp task" "sp_ptr sp < length heap"
    "tp_healthy (heap ! sp_ptr sp)" "\<And>w. \<exists>resp w'. prov (sp_ptr sp) req w = (Inr resp, w')"
  shows "fst (sr_scan prov clock tier task req sps heap w) \<noteq> None"
  using assms
proof (induction prov clock tier task req sps heap w rule: sr_scan.induct)
  case (2 prov clock tier task req q sps heap w)
  obtain avail tp where at: "isAvailable (clock w) (heap ! sp_ptr q) = (avail, tp)" by fastforce
  obtain res w1 where res: "prov (sp_ptr q) req w = (res, w1)" by fastforce
  have tp: "sp_ptr q = sp_ptr sp \<Longrightarrow> avail \<and> tp = heap ! sp_ptr sp"
    using at "2.prems"(5) by (auto simp: isAvailable_def)
  have inr: "sp_ptr q = sp_ptr sp \<Longrightarrow> \<exists>resp. res = Inr resp" using "2.prems"(6) [of w] res by auto
  have keep: "tp_healthy (heap[sp_ptr q := tp] ! sp_ptr sp)"
    using "2.prems"(4,5) tp by (cases "sp_ptr q = sp_ptr sp") auto
  consider (skip) "sp_ModelTier q \<noteq> tier \<or> \<not> capableOf q task"
    | (down) "sp_ModelTier q = tier" "capableOf q task" "\<not> avail"
    | (err) e where "sp_ModelTier q = tier" "capableOf q task" avail "res = Inl e"
    | (ok) resp where "sp_ModelTier q = tier" "capableOf q task" avail "res = Inr resp"
    by (cases res) auto
  then show ?case
  proof cases
    case skip
    with "2.prems" have "sp \<in> set sps" by auto
    with skip "2.prems" "2.IH"(1,2) show ?thesis by auto
  next
    case down
    then have "sp \<in> set sps" using "2.prems"(1) tp by auto
    with "2.IH"(3) [OF _ _ refl at [symmetric] refl] down at "2.prems" keep show ?thesis by simp
  next
    case err
    then have "sp_ptr q \<noteq> sp_ptr sp" "sp \<in> set sps" using inr "2.prems"(1) by auto
    with "2.IH"(4) [OF _ _ refl at [symmetric] refl refl _ res [symmetric]] err at res "2.prems" keep
    show ?thesis by (simp add: Let_def)
  next
    case ok
    with at res show ?thesis by (simp add: Let_def)
  qed
qed simp

lemma sr_tiers_succeeds:
  assumes "tier \<in> set tiers" "sp \<in> set sps" "sp_ModelTier sp = tier" "capableOf sp task"
    "sp_ptr sp < length heap" "tp_healthy (heap ! sp_ptr sp)"
    "\<And>w. \<exists>resp w'. prov (sp_ptr sp) req w = (Inr resp, w')"
  shows "fst (sr_tiers prov clock tiers task req sps heap w) \<noteq> None"
  using assms
proof (induction tiers arbitrary: heap w)
  case (Cons t ts)
  obtain r heap' w' where scan: "sr_scan prov clock t task req sps heap w = (r, heap', w')"
    by (cases "sr_scan prov clock t task req sps heap w") auto
  show ?case
  proof (cases r)
    case None
    have "t \<noteq> tier" using sr_scan_succeeds [OF Cons.prems(2) _ Cons.prems(4-6), of t prov req clock w]
      Cons.prems(3,7) scan None by auto
    moreover have "length heap' = length heap" "tp_healthy (heap' ! sp_ptr sp)"
      using sr_scan_keeps [OF Cons.prems(5,6) _ scan] Cons.prems(7) by auto
    ultimately show ?thesis using Cons.IH [of heap' w'] Cons.prems scan None by simp
  next
    case (Some resp)
    with scan show ?thesis by simp
  qed
qed simp

text \<open>A lone provider that always fails: what the two phases do to its failure count.\<close>

lemma sr_tiers_lone_skip:
  "sp_ModelTier sp \<notin> set tiers \<Longrightarrow> sr_tiers prov clock tiers task req [sp] heap w = (None, heap, w)"
  by (induction tiers) auto

lemma sr_tiers_lone_fails:
  fixes w :: int
  assumes "sp_ModelTier sp \<in> set tiers" "distinct tiers" "capableOf sp task" "sp_ptr sp = 0" "tp_healthy tp"
    "\<And>w. prov 0 req w = (Inl err, w + 1)"
  shows "sr_tiers prov clock tiers task req [sp] [tp] w = (None, [recordFailure (clock (w + 1)) tp], w + 1)"
  using assms
proof (induction tiers)
  case (Cons t ts)
  then show ?case
    by (cases "sp_ModelTier sp = t") (auto simp: isAvailable_def Let_def sr_tiers_lone_skip)
qed simp

section \<open>Properties\<close>

text \<open>one healthy, capable provider of a preferred tier that answers is enough: the request
  succeeds without the tiered fallback, and it is counted once, under its task type, whatever the
  other providers do.\<close>

theorem semantic_router_no_fallback:
  assumes "tier \<in> set (preferred_tiers r task)" "sp \<in> set (sr_providers r)" "sp_ModelTier sp = tier"
    "capableOf sp task" "sp_ptr sp < length heap" "tp_healthy (heap ! sp_ptr sp)"
    "\<And>w. \<exists>resp w'. prov (sp_ptr sp) req w = (Inr resp, w')"
  shows "\<exists>resp r' heap' w'. CompleteWithTask prov clock task req r heap w = (Inr resp, r', heap', w') \<and>
    Fallbacks r' = Fallbacks r \<and> RequestsByTask r' = mincr (RequestsByTask r) task"
proof -
  let ?r = "r\<lparr>RequestsByTask := mincr (RequestsByTask r) task\<rparr>"
  have pref: "preferred_tiers ?r task = preferred_tiers r task" by (simp add: preferred_tiers_def Let_def)
  obtain resp t heap' w' where
    "sr_tiers prov clock (preferred_tiers r task) task req (sr_providers r) heap w = (Some (resp, t), heap', w')"
    using sr_tiers_succeeds [OF assms(1-6), of prov req clock w] assms(7)
    by (cases "sr_tiers prov clock (preferred_tiers r task) task req (sr_providers r) heap w") auto
  then show ?thesis by (simp add: CompleteWithTask_def Let_def pref)
qed

definition visual_providers :: "semantic_provider list" where
  "visual_providers = [\<lparr>sp_ptr = 0, sp_ModelTier = ModelTierVLM, sp_Capabilities = []\<rparr>,
     \<lparr>sp_ptr = 1, sp_ModelTier = ModelTierPowerful, sp_Capabilities = [TaskVisual]\<rparr>]"

lemma semantic_router_no_fallback_witness:
  "\<exists>resp r' heap' w'. CompleteWithTask
     (\<lambda>i req (w :: int). (if i = 1 then Inr empty_response else Inl (ProviderError ''down''), w + 1)) id
     TaskVisual empty_request
     (NewSemanticRouter [NewTieredProvider ''omni'' 1, NewTieredProvider ''claude'' 2] visual_providers
        DefaultSemanticRouterConfig)
     [NewTieredProvider ''omni'' 1, NewTieredProvider ''claude'' 2] 7 = (Inr resp, r', heap', w') \<and>
     Fallbacks r' = 0 \<and> RequestsByTask r' = [(TaskVisual, 1)]"
  using semantic_router_no_fallback [of ModelTierPowerful "NewSemanticRouter
     [NewTieredProvider ''omni'' 1, NewTieredProvider ''claude'' 2] visual_providers DefaultSemanticRouterConfig"
     TaskVisual "visual_providers ! 1" "[NewTieredProvider ''omni'' 1, NewTieredProvider ''claude'' 2]"
     "\<lambda>i req (w :: int). (if i = 1 then Inr empty_response else Inl (ProviderError ''down''), w + 1)"
     empty_request id 7]
  by (simp add: NewSemanticRouter_def visual_providers_def NewTieredProvider_def preferred_tiers_def capableOf_def
      DefaultSemanticRouterConfig_def mget_or_def mget_def mincr_def mset_at_def TaskVisual_def TaskDiscovery_def
      TaskPatternReplay_def TaskSynthesis_def TaskEvaluation_def TaskGeneral_def ModelTierVLM_def
      ModelTierPowerful_def ModelTierBalanced_def ModelTierFast_def)

text \<open>the fallback asks the providers of the semantic phase again. A lone provider whose first
  call fails is called a second time within the same request, so that every failing request raises
  its failure count by two and the second one in a row takes it out of service.\<close>

theorem semantic_router_asks_twice:
  fixes w :: int
  assumes "sp_ModelTier sp \<in> set (preferred_tiers (NewSemanticRouter [tp] [sp] cfg) task)"
    "distinct (preferred_tiers (NewSemanticRouter [tp] [sp] cfg) task)"
    "capableOf sp task" "sp_ptr sp = 0" "tp_healthy tp" "tp_failCount tp \<le> 1"
    "\<And>w. prov 0 req w = (Inl err, w + 1)"
  shows "\<exists>r' tp'. CompleteWithTask prov clock task req (NewSemanticRouter [tp] [sp] cfg) [tp] w =
      (Inl (SemanticFallback (AllProvidersFailed (Some (TierFailed (tp_Name tp) (tp_Tier tp) err)))),
       r', [tp'], w + 2) \<and>
    tp_failCount tp' = tp_failCount tp + 2 \<and> (tp_healthy tp' \<longleftrightarrow> tp_failCount tp < 1)"
proof -
  let ?r = "NewSemanticRouter [tp] [sp] cfg"
  have r: "preferred_tiers (?r\<lparr>RequestsByTask := m\<rparr>) task = preferred_tiers ?r task"
    "sr_providers ?r = [sp]" "sr_fallback ?r = [0]" for m
    using assms(4) by (simp_all add: preferred_tiers_def NewSemanticRouter_def NewTieredRouter_def Let_def)
  have healthy: "tp_healthy (recordFailure t tp)" for t using assms(5,6) by (simp add: tp_defs)
  show ?thesis
    using sr_tiers_lone_fails [of sp _ task tp prov req err clock w] assms healthy
    by (simp add: CompleteWithTask_def Let_def r tr_Complete_def isAvailable_def)
      (simp add: recordFailure_def Let_def)
qed

lemma semantic_router_asks_twice_witness:
  "\<exists>r' tp'. CompleteWithTask (\<lambda>i req w. (Inl (ProviderError ''503''), w + 1)) id TaskVisual empty_request
     (NewSemanticRouter [NewTieredProvider ''omni'' 1] [visual_providers ! 0] DefaultSemanticRouterConfig)
     [NewTieredProvider ''omni'' 1] 7 =
     (Inl (SemanticFallback (AllProvidersFailed (Some (TierFailed ''omni'' 1 (ProviderError ''503''))))), r', [tp'], 9) \<and>
     tp_failCount tp' = 2"
  using semantic_router_asks_twice [of "visual_providers ! 0" "NewTieredProvider ''omni'' 1"
      DefaultSemanticRouterConfig TaskVisual "\<lambda>i req w. (Inl (ProviderError ''503''), w + 1)" empty_request
      "ProviderError ''503''" id 7]
  by (auto simp: NewSemanticRouter_def visual_providers_def NewTieredProvider_def preferred_tiers_def capableOf_def
      DefaultSemanticRouterConfig_def mget_or_def mget_def TaskVisual_def TaskDiscovery_def
      TaskPatternReplay_def TaskSynthesis_def TaskEvaluation_def TaskGeneral_def ModelTierVLM_def
      ModelTierPowerful_def ModelTierBalanced_def ModelTierFast_def)

end
