(* ===== verification/Rate_Limit.thy ===== *)
theory Rate_Limit
  imports Llm_Types
begin

text \<open>
  \<open>pkg/llm/rate_limited.go\<close>: the sliding-window rate limiter in front of a provider.
  \<open>acquire\<close> is one round of the loop of \<open>waitForSlot\<close> under the lock, so concurrent callers are
  a sequence of rounds in the order in which they take it. The sleep (\<open>select\<close> on the context
  and \<open>time.After\<close>) is a parameter that answers with the context's error, if it is done first.
\<close>

section \<open>State and operations\<close>

record rate_limit_config =
  RequestsPerMinute :: int
  rl_Window :: duration
  BurstSize :: int

definition DefaultRateLimitConfig :: rate_limit_config where
  "DefaultRateLimitConfig = \<lparr>RequestsPerMinute = 10, rl_Window = minute, BurstSize = 2\<rparr>"

record rate_limited =
  rl_name :: string
  rl_config :: rate_limit_config
  rl_tokens :: "time list"

definition max_allowed :: "rate_limited \<Rightarrow> int" where
  "max_allowed r = RequestsPerMinute (rl_config r) + BurstSize (rl_config r)"

text \<open>\<open>make\<close> panics when the capacity it is asked for is negative.\<close>

definition NewRateLimitedProvider :: "string \<Rightarrow> rate_limit_config \<Rightarrow> rate_limited outcome" where
  "NewRateLimitedProvider name cfg =
     (let cfg = (if rl_Window cfg = 0 then cfg\<lparr>rl_Window := minute\<rparr> else cfg) in
      if RequestsPerMinute cfg + BurstSize cfg < 0 then Panicked
      else Returned \<lparr>rl_name = name, rl_config = cfg, rl_tokens = []\<rparr>)"

definition rl_prune :: "time \<Rightarrow> rate_limited \<Rightarrow> rate_limited" where
  "rl_prune now r = r\<lparr>rl_tokens := filter (\<lambda>t. now - rl_Window (rl_config r) < t) (rl_tokens r)\<rparr>"

datatype slot = Granted | WaitFor duration | NoToken

definition acquire :: "time \<Rightarrow> rate_limited \<Rightarrow> slot \<times> rate_limited" where
  "acquire now r =
     (let r = rl_prune now r in
      if int (length (rl_tokens r)) < max_allowed r
      then (Granted, r\<lparr>rl_tokens := rl_tokens r @ [now]\<rparr>)
      else case rl_tokens r of
        [] \<Rightarrow> (NoToken, r)
      | earliest # _ \<Rightarrow> (WaitFor (time_sub (earliest + rl_Window (rl_config r)) now), r))"

fun waitForSlot :: "('w \<Rightarrow> time) \<Rightarrow> (duration \<Rightarrow> 'w \<Rightarrow> ctx_error option \<times> 'w) \<Rightarrow> nat \<Rightarrow> rate_limited \<Rightarrow> 'w \<Rightarrow>
    llm_error option outcome \<times> rate_limited \<times> 'w" where
  "waitForSlot clock sleep 0 r w = (OutOfFuel, r, w)"
| "waitForSlot clock sleep (Suc n) r w =
     (case acquire (clock w) r of
        (Granted, r) \<Rightarrow> (Returned None, r, w)
      | (NoToken, r) \<Rightarrow> (Panicked, r, w)
      | (WaitFor d, r) \<Rightarrow>
          if d \<le> 0 then waitForSlot clock sleep n r w
          else case sleep d w of
            (Some e, w) \<Rightarrow> (Returned (Some (WaitingForSlot e)), r, w)
          | (None, w) \<Rightarrow> waitForSlot clock sleep n r w)"

definition rl_Complete :: "'w provider \<Rightarrow> ('w \<Rightarrow> time) \<Rightarrow> (duration \<Rightarrow> 'w \<Rightarrow> ctx_error option \<times> 'w) \<Rightarrow> nat \<Rightarrow>
    completion_request \<Rightarrow> rate_limited \<Rightarrow> 'w \<Rightarrow>
    (llm_error + completion_response) outcome \<times> rate_limited \<times> 'w" where
  "rl_Complete inner clock sleep n req r w =
     (case waitForSlot clock sleep n r w of
        (Returned None, r, w) \<Rightarrow> (case inner req w of (res, w) \<Rightarrow> (Returned res, r, w))
      | (Returned (Some e), r, w) \<Rightarrow> (Returned (Inl (RateLimited (rl_name r) e)), r, w)
      | (Panicked, r, w) \<Rightarrow> (Panicked, r, w)
      | (OutOfFuel, r, w) \<Rightarrow> (OutOfFuel, r, w))"

definition rl_Stats :: "time \<Rightarrow> rate_limited \<Rightarrow> int \<times> int" where
  "rl_Stats now r =
     (int (length (filter (\<lambda>t. now - rl_Window (rl_config r) < t) (rl_tokens r))), max_allowed r)"

text \<open>The instants at which a sequence of rounds granted a slot.\<close>

fun rl_run :: "time list \<Rightarrow> rate_limited \<Rightarrow> time list \<times> rate_limited" where
  "rl_run [] r = ([], r)"
| "rl_run (t # ts) r =
     (let (s, r') = acquire t r; (gs, r'') = rl_run ts r' in ((if s = Granted then t # gs else gs), r''))"

section \<open>Grants and tokens\<close>

lemma acquire_config [simp]: "rl_config (snd (acquire now r)) = rl_config r"
  by (auto simp: acquire_def rl_prune_def Let_def split: list.split)

lemma max_allowed_acquire [simp]: "max_allowed (snd (acquire now r)) = max_allowed r"
  by (simp add: max_allowed_def)

text \<open>
  \<open>rl_ok gs now r\<close>: \<open>gs\<close> are the grants up to \<open>now\<close>, the tokens are those of them in the last
  window, and no window holds more of them than allowed.
\<close>

definition rl_ok :: "time list \<Rightarrow> time \<Rightarrow> rate_limited \<Rightarrow> bool" where
  "rl_ok gs now r \<longleftrightarrow> (\<forall>g \<in> set gs. g \<le> now) \<and>
     rl_tokens r = filter (\<lambda>g. now - rl_Window (rl_config r) < g) gs \<and>
     (\<forall>t. int (length (filter (\<lambda>g. t - rl_Window (rl_config r) < g \<and> g \<le> t) gs)) \<le> max_allowed r)"

lemma filter_mono_length: "(\<And>x. P x \<Longrightarrow> Q x) \<Longrightarrow> length (filter P xs) \<le> length (filter Q xs)"
  by (induction xs) auto

lemma prune_ok:
  assumes "rl_ok gs now r" "now \<le> now'"
  shows "rl_tokens (rl_prune now' r) = filter (\<lambda>g. now' - rl_Window (rl_config r) < g) gs"
  using assms by (auto simp: rl_ok_def rl_prune_def intro!: filter_cong)

lemma acquire_ok:
  assumes "rl_ok gs now r" "now \<le> now'" "0 < rl_Window (rl_config r)"
  shows "rl_ok (gs @ (if fst (acquire now' r) = Granted then [now'] else [])) now' (snd (acquire now' r))"
proof (cases "int (length (rl_tokens (rl_prune now' r))) < max_allowed r")
  case True
  let ?W = "rl_Window (rl_config r)"
  have acq: "acquire now' r = (Granted, (rl_prune now' r)\<lparr>rl_tokens := rl_tokens (rl_prune now' r) @ [now']\<rparr>)"
    using True by (simp add: acquire_def Let_def rl_prune_def max_allowed_def)
  have bound: "int (length (filter (\<lambda>g. t - ?W < g \<and> g \<le> t) (gs @ [now']))) \<le> max_allowed r" for t
  proof (cases "t < now'")
    case True': True
    then show ?thesis using assms(1) by (simp add: rl_ok_def)
  next
    case False
    then have "length (filter (\<lambda>g. t - ?W < g \<and> g \<le> t) gs) \<le> length (filter (\<lambda>g. now' - ?W < g) gs)"
      by (intro filter_mono_length) simp
    with False True show ?thesis by (simp add: prune_ok [OF assms(1,2)])
  qed
  show ?thesis
    using assms bound prune_ok [OF assms(1,2)] unfolding rl_ok_def acq
    by (auto simp: rl_prune_def max_allowed_def)
next
  case False
  have acq: "snd (acquire now' r) = rl_prune now' r" "fst (acquire now' r) \<noteq> Granted"
    using False by (auto simp: acquire_def Let_def rl_prune_def max_allowed_def split: list.split)
  show ?thesis
    using assms prune_ok [OF assms(1,2)] unfolding rl_ok_def acq(1)
    by (auto simp: acq(2) rl_prune_def max_allowed_def)
qed

lemma rl_run_ok:
  assumes "rl_ok gs now r" "sorted ts" "\<forall>t \<in> set ts. now \<le> t" "0 < rl_Window (rl_config r)"
  shows "\<exists>now'. rl_ok (gs @ fst (rl_run ts r)) now' (snd (rl_run ts r))"
  using assms
proof (induction ts arbitrary: gs now r)
  case Nil
  then show ?case by auto
next
  case (Cons t ts)
  obtain s r' where acq: "acquire t r = (s, r')" by fastforce
  have "rl_ok (gs @ (if s = Granted then [t] else [])) t r'"
    using acquire_ok [OF Cons.prems(1), of t] Cons.prems acq by simp
  from Cons.IH [OF this] Cons.prems acquire_config [of t r] acq show ?case
    by (auto simp: split: prod.splits if_splits)
qed

lemma rl_run_config: "rl_config (snd (rl_run ts r)) = rl_config r"
proof (induction ts arbitrary: r)
  case (Cons t ts)
  show ?case using Cons.IH [of "snd (acquire t r)"] by (simp split: prod.split) (metis acquire_config snd_conv)
qed simp

section \<open>Properties\<close>

text \<open>C10: no window of the configured length, wherever it ends, holds more grants than
  \<open>RequestsPerMinute + BurstSize\<close>, whatever callers ask and whenever they do.\<close>

theorem rate_limit_window:
  assumes "NewRateLimitedProvider name cfg = Returned r" "0 \<le> rl_Window cfg" "sorted ts"
  shows "int (length (filter (\<lambda>g. t - rl_Window (rl_config r) < g \<and> g \<le> t) (fst (rl_run ts r)))) \<le>
    RequestsPerMinute cfg + BurstSize cfg"
proof (cases ts)
  case Nil
  then show ?thesis using assms(1) by (auto simp: NewRateLimitedProvider_def Let_def split: if_splits)
next
  case (Cons t0 us)
  have r: "max_allowed r = RequestsPerMinute cfg + BurstSize cfg" "0 < rl_Window (rl_config r)"
    "rl_tokens r = []" "0 \<le> max_allowed r"
    using assms(1,2) by (auto simp: NewRateLimitedProvider_def Let_def max_allowed_def split: if_splits)
  then have "rl_ok [] t0 r" by (simp add: rl_ok_def)
  from rl_run_ok [OF this assms(3)] Cons assms(3) r(2) obtain now'
    where "rl_ok (fst (rl_run ts r)) now' (snd (rl_run ts r))" by auto
  then show ?thesis using r(1) by (simp add: rl_ok_def rl_run_config max_allowed_def)
qed

definition small_limit :: rate_limit_config where
  "small_limit = \<lparr>RequestsPerMinute = 1, rl_Window = 10, BurstSize = 1\<rparr>"

lemma rate_limit_window_witness:
  "fst (rl_run [0, 3, 5, 9, 10, 12, 14] \<lparr>rl_name = ''cli'', rl_config = small_limit, rl_tokens = []\<rparr>) = [0, 3, 10, 14] \<and>
   length (filter (\<lambda>g. 12 - 10 < g \<and> g \<le> 12) [0, 3, 10, 14 :: int]) \<le> 2"
proof -
  let ?r = "\<lparr>rl_name = ''cli'', rl_config = small_limit, rl_tokens = []\<rparr>"
  have run: "fst (rl_run [0, 3, 5, 9, 10, 12, 14] ?r) = [0, 3, 10, 14]" by code_simp
  have new: "NewRateLimitedProvider ''cli'' small_limit = Returned ?r"
    by (simp add: NewRateLimitedProvider_def small_limit_def)
  have small: "rl_Window small_limit = 10" "RequestsPerMinute small_limit = 1" "BurstSize small_limit = 1"
    by (simp_all add: small_limit_def)
  show ?thesis
    using rate_limit_window [OF new, of "[0, 3, 5, 9, 10, 12, 14]" 12] by (simp add: run small del: rl_run.simps)
qed

text \<open>a caller that has the limiter to itself waits at most once: two rounds are enough for
  \<open>waitForSlot\<close> to return, with a slot, when at least one is allowed and the sleep lasts as long as
  it is asked to.\<close>

theorem rate_limit_waits_once:
  assumes "1 \<le> max_allowed r" "0 < rl_Window (rl_config r)" "rl_Window (rl_config r) < max_int64"
    "\<forall>t \<in> set (rl_tokens r). t \<le> clock w" "int (length (rl_tokens r)) \<le> max_allowed r"
    "\<And>d w. fst (sleep d w) = None \<and> clock w + d \<le> clock (snd (sleep d w))"
  shows "fst (waitForSlot clock sleep 2 r w) = Returned None"
proof -
  let ?W = "rl_Window (rl_config r)"
  have two: "2 = Suc (Suc 0)" by simp
  let ?live = "filter (\<lambda>t. clock w - ?W < t) (rl_tokens r)"
  show ?thesis
  proof (cases "int (length ?live) < max_allowed r")
    case True
    then show ?thesis unfolding two
      by (simp add: acquire_def rl_prune_def max_allowed_def Let_def)
  next
    case False
    then obtain e es where live: "?live = e # es" using assms(1) by (cases ?live) auto
    have "e \<in> set ?live" by (simp add: live)
    then have e: "clock w - ?W < e" "e \<le> clock w" using assms(4) by auto
    have "length ?live \<le> length (rl_tokens r)" by simp
    then have es: "int (length es) < max_allowed r" using assms(5) live by simp
    have sub: "time_sub (e + ?W) (clock w) = e + ?W - clock w" "0 < e + ?W - clock w"
      using e assms(2,3) by (auto simp: time_sub_def)
    obtain w' where w': "sleep (e + ?W - clock w) w = (None, w')" "e + ?W \<le> clock w'"
      using assms(6) [of "e + ?W - clock w" w] by (cases "sleep (e + ?W - clock w) w") auto
    have "length (filter (\<lambda>t. clock w' - ?W < t) (e # es)) \<le> length es"
      using w'(2) by (simp del: filter.simps add: filter.simps(2))
    with False live es sub w'(1) show ?thesis unfolding two
      by (simp add: acquire_def rl_prune_def max_allowed_def Let_def)
  qed
qed

lemma rate_limit_waits_once_witness:
  "fst (waitForSlot id (\<lambda>d w. (None, w + d)) 2
     \<lparr>rl_name = ''cli'', rl_config = small_limit, rl_tokens = [0, 3]\<rparr> 5) = Returned None"
  by (rule rate_limit_waits_once) (simp_all add: max_allowed_def small_limit_def)

text \<open>a limiter configured with no requests and no burst is accepted by the constructor, and the
  first request panics on the empty token list instead of being refused.\<close>

theorem rate_limit_zero_panics:
  assumes "RequestsPerMinute cfg + BurstSize cfg = 0"
  shows "\<exists>r. NewRateLimitedProvider name cfg = Returned r \<and>
    fst (rl_Complete inner clock sleep (Suc n) req r w) = Panicked"
  using assms
  by (auto simp: NewRateLimitedProvider_def rl_Complete_def acquire_def rl_prune_def max_allowed_def Let_def)

lemma rate_limit_zero_panics_witness:
  "\<exists>r. NewRateLimitedProvider ''cli'' \<lparr>RequestsPerMinute = 0, rl_Window = minute, BurstSize = 0\<rparr> = Returned r \<and>
    fst (rl_Complete (\<lambda>req w. (Inl (ProviderError ''x''), w)) id (\<lambda>d w. (None, w + d)) (Suc 0)
      \<lparr>Model = [], Messages = [], Temperature = None, MaxTokens = None, DisableThinking = False\<rparr> r 5) = Panicked"
  by (rule rate_limit_zero_panics) simp

end
