(* ===== verification/Upstream_Pool.thy ===== *)
theory Upstream_Pool
  imports Llm_Types
begin

text \<open>
  \<open>pkg/llm/upstream_pool.go\<close>: the pool of backends, weighted random selection among the healthy
  ones, and the health records. Nodes are shared by pointer, so a selection answers the index of
  the node. The random draw \<open>rand.IntN\<close> is a parameter (it panics when its bound is not
  positive), the HTTP probe another one; the background loop calls \<open>checkAll\<close> at every tick.
\<close>

section \<open>Nodes and the pool\<close>

record upstream_node =
  un_Name :: string
  un_URL :: string
  un_Tier :: string
  un_Weight :: int
  un_Models :: "string list"
  un_APIKey :: string
  un_healthy :: bool
  un_failCount :: int
  un_lastCheck :: time
  un_lastFailure :: time

record health_check_config =
  hc_Interval :: duration
  hc_Timeout :: duration
  hc_Path :: string
  UnhealthyThreshold :: int
  HealthyThreshold :: int

definition DefaultHealthCheckConfig :: health_check_config where
  "DefaultHealthCheckConfig = \<lparr>hc_Interval = 15 * second, hc_Timeout = 5 * second, hc_Path = ''/health'',
     UnhealthyThreshold = 3, HealthyThreshold = 1\<rparr>"

record upstream_pool =
  up_nodes :: "upstream_node list"
  up_hcCfg :: health_check_config

definition NewUpstreamPool :: "upstream_node list \<Rightarrow> health_check_config \<Rightarrow> upstream_pool" where
  "NewUpstreamPool nodes cfg =
     \<lparr>up_nodes = map (\<lambda>n. let n = n\<lparr>un_healthy := True\<rparr> in
        if un_Weight n \<le> 0 then n\<lparr>un_Weight := 1\<rparr> else n) nodes,
      up_hcCfg = cfg\<rparr>"

section \<open>Selection\<close>

definition candidates :: "(upstream_node \<Rightarrow> bool) \<Rightarrow> upstream_pool \<Rightarrow> nat list" where
  "candidates P p = filter (\<lambda>i. P (up_nodes p ! i) \<and> un_healthy (up_nodes p ! i)) [0..<length (up_nodes p)]"

definition total_weight :: "upstream_pool \<Rightarrow> nat list \<Rightarrow> int" where
  "total_weight p is = sum_list (map (\<lambda>i. un_Weight (up_nodes p ! i)) is)"

fun weighted_pick :: "upstream_pool \<Rightarrow> int \<Rightarrow> nat list \<Rightarrow> nat option" where
  "weighted_pick p r [] = None"
| "weighted_pick p r (i # is) =
     (let r = r - un_Weight (up_nodes p ! i) in if r < 0 then Some i else weighted_pick p r is)"

definition select :: "(int \<Rightarrow> int) \<Rightarrow> upstream_pool \<Rightarrow> nat list \<Rightarrow> nat option outcome" where
  "select draw p is =
     (if is = [] then Returned None
      else if total_weight p is \<le> 0 then Panicked
      else case weighted_pick p (draw (total_weight p is)) is of
             Some i \<Rightarrow> Returned (Some i)
           | None \<Rightarrow> Returned (Some (last is)))"

definition SelectByTier :: "(int \<Rightarrow> int) \<Rightarrow> upstream_pool \<Rightarrow> string \<Rightarrow> nat option outcome" where
  "SelectByTier draw p tier = select draw p (candidates (\<lambda>n. un_Tier n = tier) p)"

definition SelectAny :: "(int \<Rightarrow> int) \<Rightarrow> upstream_pool \<Rightarrow> nat option outcome" where
  "SelectAny draw p = select draw p (candidates (\<lambda>_. True) p)"

section \<open>Health\<close>

definition node_failed :: "int \<Rightarrow> time \<Rightarrow> upstream_node \<Rightarrow> upstream_node" where
  "node_failed threshold now n =
     (let n = n\<lparr>un_failCount := un_failCount n + 1, un_lastFailure := now\<rparr> in
      if threshold \<le> un_failCount n then n\<lparr>un_healthy := False\<rparr> else n)"

definition node_recovered :: "upstream_node \<Rightarrow> upstream_node" where
  "node_recovered n = n\<lparr>un_healthy := True, un_failCount := 0\<rparr>"

definition MarkUnhealthy :: "time \<Rightarrow> nat \<Rightarrow> upstream_pool \<Rightarrow> upstream_pool" where
  "MarkUnhealthy now i p =
     p\<lparr>up_nodes := (up_nodes p)[i := node_failed (UnhealthyThreshold (up_hcCfg p)) now (up_nodes p ! i)]\<rparr>"

definition MarkHealthy :: "nat \<Rightarrow> upstream_pool \<Rightarrow> upstream_pool" where
  "MarkHealthy i p = p\<lparr>up_nodes := (up_nodes p)[i := node_recovered (up_nodes p ! i)]\<rparr>"

definition HealthyCount :: "upstream_pool \<Rightarrow> int" where
  "HealthyCount p = int (length (filter un_healthy (up_nodes p)))"

text \<open>
  \<open>probe\<close>: \<open>get\<close> performs the request and answers a status code or an error (\<open>None\<close>, also when
  no request can be built from the URL).
\<close>

definition probe :: "(string \<Rightarrow> 'w \<Rightarrow> int option \<times> 'w) \<Rightarrow> upstream_pool \<Rightarrow> upstream_node \<Rightarrow> 'w \<Rightarrow> bool \<times> 'w" where
  "probe get p n w =
     (case get (un_URL n @ hc_Path (up_hcCfg p)) w of
        (None, w) \<Rightarrow> (False, w)
      | (Some status, w) \<Rightarrow> (200 \<le> status \<and> status < 300, w))"

definition check_node :: "int \<Rightarrow> time \<Rightarrow> bool \<Rightarrow> upstream_node \<Rightarrow> upstream_node" where
  "check_node threshold now healthy n =
     (let n = n\<lparr>un_lastCheck := now\<rparr> in
      if healthy then node_recovered n else node_failed threshold now n)"

fun check_from :: "(string \<Rightarrow> 'w \<Rightarrow> int option \<times> 'w) \<Rightarrow> ('w \<Rightarrow> time) \<Rightarrow> ('w \<Rightarrow> bool) \<Rightarrow> nat list \<Rightarrow>
    upstream_pool \<Rightarrow> 'w \<Rightarrow> upstream_pool \<times> 'w" where
  "check_from get clock done [] p w = (p, w)"
| "check_from get clock done (i # is) p w =
     (if done w then (p, w)
      else case probe get p (up_nodes p ! i) w of
        (healthy, w) \<Rightarrow>
          check_from get clock done is
            (p\<lparr>up_nodes := (up_nodes p)[i :=
               check_node (UnhealthyThreshold (up_hcCfg p)) (clock w) healthy (up_nodes p ! i)]\<rparr>) w)"

definition checkAll :: "(string \<Rightarrow> 'w \<Rightarrow> int option \<times> 'w) \<Rightarrow> ('w \<Rightarrow> time) \<Rightarrow> ('w \<Rightarrow> bool) \<Rightarrow>
    upstream_pool \<Rightarrow> 'w \<Rightarrow> upstream_pool \<times> 'w" where
  "checkAll get clock done p w = check_from get clock done [0..<length (up_nodes p)] p w"

section \<open>Weights and draws\<close>

lemma weighted_pick_in: "weighted_pick p r is = Some i \<Longrightarrow> i \<in> set is"
  by (induction p r "is" rule: weighted_pick.induct) (auto simp: Let_def split: if_splits)

lemma weighted_pick_total: "0 \<le> r \<Longrightarrow> r < total_weight p is \<Longrightarrow> weighted_pick p r is \<noteq> None"
  by (induction p r "is" rule: weighted_pick.induct) (auto simp: Let_def total_weight_def split: if_splits)

lemma total_weight_pos:
  "is \<noteq> [] \<Longrightarrow> \<forall>i \<in> set is. 1 \<le> un_Weight (up_nodes p ! i) \<Longrightarrow> 1 \<le> total_weight p is"
proof (induction "is")
  case (Cons i js)
  then show ?case by (cases "js = []") (auto simp: total_weight_def)
qed simp

text \<open>The draws that pick one node form an interval as long as its weight.\<close>

lemma weighted_pick_count:
  assumes "distinct is" "\<forall>j \<in> set is. 1 \<le> un_Weight (up_nodes p ! j)" "i \<in> set is"
  shows "card {r. a \<le> r \<and> r < a + total_weight p is \<and> weighted_pick p (r - a) is = Some i} =
    nat (un_Weight (up_nodes p ! i))"
  using assms
proof (induction "is" arbitrary: a)
  case (Cons j js)
  let ?W = "un_Weight (up_nodes p ! j)"
  have W: "1 \<le> ?W" using Cons.prems by simp
  have pos: "0 \<le> total_weight p js"
    using total_weight_pos [of js p] Cons.prems(2) by (cases "js = []") (auto simp: total_weight_def)
  show ?case
  proof (cases "i = j")
    case True
    then have "{r. a \<le> r \<and> r < a + total_weight p (j # js) \<and> weighted_pick p (r - a) (j # js) = Some i} =
        {a..<a + ?W}"
      using Cons.prems(1) pos by (auto simp: Let_def total_weight_def dest: weighted_pick_in)
    then show ?thesis using True by simp
  next
    case False
    then have "{r. a \<le> r \<and> r < a + total_weight p (j # js) \<and> weighted_pick p (r - a) (j # js) = Some i} =
        {r. a + ?W \<le> r \<and> r < a + ?W + total_weight p js \<and> weighted_pick p (r - (a + ?W)) js = Some i}"
      using W by (auto simp: Let_def total_weight_def algebra_simps split: if_splits)
    with False Cons show ?thesis by simp
  qed
qed simp

definition weights_ok :: "upstream_pool \<Rightarrow> bool" where
  "weights_ok p \<longleftrightarrow> (\<forall>n \<in> set (up_nodes p). 1 \<le> un_Weight n)"

lemma weights_ok_new: "weights_ok (NewUpstreamPool nodes cfg)"
  by (auto simp: weights_ok_def NewUpstreamPool_def Let_def)

lemma node_weight [simp]:
  "un_Weight (node_failed k t n) = un_Weight n" "un_Weight (node_recovered n) = un_Weight n"
  "un_Weight (check_node k t h n) = un_Weight n"
  by (simp_all add: node_failed_def node_recovered_def check_node_def Let_def)

lemma weights_ok_update:
  "weights_ok p \<Longrightarrow> un_Weight n = un_Weight (up_nodes p ! i) \<Longrightarrow>
   weights_ok (p\<lparr>up_nodes := (up_nodes p)[i := n]\<rparr>)"
  by (cases "i < length (up_nodes p)")
    (auto simp: weights_ok_def list_update_beyond dest!: set_update_subset_insert [THEN subsetD])

lemma weights_ok_check: "weights_ok p \<Longrightarrow> weights_ok (fst (check_from get clock done is p w))"
  by (induction get clock "done" "is" p w rule: check_from.induct)
    (auto simp: weights_ok_update split: prod.splits)

lemma weights_ok_ops:
  "weights_ok p \<Longrightarrow> weights_ok (MarkUnhealthy now i p)" "weights_ok p \<Longrightarrow> weights_ok (MarkHealthy i p)"
  "weights_ok p \<Longrightarrow> weights_ok (fst (checkAll get clock done p w))"
  by (simp_all add: MarkUnhealthy_def MarkHealthy_def weights_ok_update checkAll_def weights_ok_check)

lemma candidates_weights: "weights_ok p \<Longrightarrow> \<forall>i \<in> set (candidates P p). 1 \<le> un_Weight (up_nodes p ! i)"
  by (auto simp: weights_ok_def candidates_def)

lemma select_result:
  assumes "weights_ok p" "\<And>n. 0 < n \<Longrightarrow> 0 \<le> draw n \<and> draw n < n"
  shows "select draw p (candidates P p) =
    Returned (if candidates P p = [] then None
      else weighted_pick p (draw (total_weight p (candidates P p))) (candidates P p))"
proof (cases "candidates P p = []")
  case False
  then have t: "1 \<le> total_weight p (candidates P p)"
    by (intro total_weight_pos candidates_weights assms)
  with assms(2) have "weighted_pick p (draw (total_weight p (candidates P p))) (candidates P p) \<noteq> None"
    by (intro weighted_pick_total) simp_all
  with False t show ?thesis by (auto simp: select_def)
qed (simp add: select_def)

section \<open>Rounds of health checks\<close>

lemma check_from_other:
  "j \<notin> set is \<Longrightarrow> up_nodes (fst (check_from get clock done is p w)) ! j = up_nodes p ! j"
  by (induction get clock "done" "is" p w rule: check_from.induct) (auto split: prod.splits)

lemma check_from_length [simp]:
  "length (up_nodes (fst (check_from get clock done is p w))) = length (up_nodes p)"
  by (induction get clock "done" "is" p w rule: check_from.induct) (auto split: prod.splits)

lemma check_from_cfg [simp]: "up_hcCfg (fst (check_from get clock done is p w)) = up_hcCfg p"
  by (induction get clock "done" "is" p w rule: check_from.induct) (auto split: prod.splits)

abbreviation running :: "'w \<Rightarrow> bool" where "running \<equiv> (\<lambda>_. False)"

lemma check_from_node:
  assumes "distinct is" "i \<in> set is" "\<forall>j \<in> set is. j < length (up_nodes p)"
    "\<And>w. fst (probe get p (up_nodes p ! i) w) = ok"
  shows "\<exists>now. up_nodes (fst (check_from get clock running is p w)) ! i =
    check_node (UnhealthyThreshold (up_hcCfg p)) now ok (up_nodes p ! i)"
  using assms
proof (induction "is" arbitrary: p w)
  case (Cons j js)
  obtain h w1 where pr: "probe get p (up_nodes p ! j) w = (h, w1)" by fastforce
  let ?p = "p\<lparr>up_nodes := (up_nodes p)[j := check_node (UnhealthyThreshold (up_hcCfg p)) (clock w1) h (up_nodes p ! j)]\<rparr>"
  show ?case
  proof (cases "i = j")
    case True
    with Cons.prems pr check_from_other [of j js get clock running ?p w1] show ?thesis
      using Cons.prems(4) [of w] by auto
  next
    case False
    have "\<And>w. fst (probe get ?p (up_nodes ?p ! i) w) = ok"
      using Cons.prems(4) False by (simp add: probe_def)
    with Cons.IH [of ?p w1] Cons.prems pr False show ?thesis by simp
  qed
qed simp

text \<open>\<open>k\<close> rounds in a row, as the ticker runs them.\<close>

fun rounds :: "(string \<Rightarrow> 'w \<Rightarrow> int option \<times> 'w) \<Rightarrow> ('w \<Rightarrow> time) \<Rightarrow> ('w \<Rightarrow> bool) \<Rightarrow> nat \<Rightarrow>
    upstream_pool \<Rightarrow> 'w \<Rightarrow> upstream_pool \<times> 'w" where
  "rounds get clock done 0 p w = (p, w)"
| "rounds get clock done (Suc k) p w =
     (case checkAll get clock done p w of (p, w) \<Rightarrow> rounds get clock done k p w)"

definition status_ok :: "int option \<Rightarrow> bool" where
  "status_ok ans = (case ans of None \<Rightarrow> False | Some s \<Rightarrow> 200 \<le> s \<and> s < 300)"

lemma checkAll_node:
  assumes "i < length (up_nodes p)"
    "\<And>w. fst (get (un_URL (up_nodes p ! i) @ hc_Path (up_hcCfg p)) w) = ans"
  shows "\<exists>now. up_nodes (fst (checkAll get clock running p w)) ! i =
    check_node (UnhealthyThreshold (up_hcCfg p)) now (status_ok ans) (up_nodes p ! i)"
  unfolding checkAll_def
proof (rule check_from_node)
  show "fst (probe get p (up_nodes p ! i) w) = status_ok ans" for w
    using assms(2) [of w] by (auto simp: probe_def status_ok_def split: prod.splits option.splits)
qed (use assms in auto)

lemma check_node_fields [simp]:
  "un_URL (check_node k t h n) = un_URL n"
  "un_failCount (check_node k t h n) = (if h then 0 else un_failCount n + 1)"
  "un_healthy (check_node k t h n) \<longleftrightarrow> (if h then True else un_failCount n + 1 < k \<and> un_healthy n)"
  by (auto simp: check_node_def node_failed_def node_recovered_def Let_def)

lemma checkAll_keeps [simp]:
  "up_hcCfg (fst (checkAll get clock done p w)) = up_hcCfg p"
  "length (up_nodes (fst (checkAll get clock done p w))) = length (up_nodes p)"
  by (simp_all add: checkAll_def)

lemma rounds_down:
  assumes "i < length (up_nodes p)"
    "\<And>w. fst (get (un_URL (up_nodes p ! i) @ hc_Path (up_hcCfg p)) w) = ans" "\<not> status_ok ans"
  shows "un_healthy (up_nodes (fst (rounds get clock running k p w)) ! i) \<longleftrightarrow>
    un_healthy (up_nodes p ! i) \<and>
    (k = 0 \<or> un_failCount (up_nodes p ! i) + int k < UnhealthyThreshold (up_hcCfg p))"
  using assms(1,2)
proof (induction k arbitrary: p w)
  case (Suc k)
  obtain p' w' where one: "checkAll get clock running p w = (p', w')" by fastforce
  obtain now where node: "up_nodes p' ! i = check_node (UnhealthyThreshold (up_hcCfg p)) now False (up_nodes p ! i)"
    using checkAll_node [where get = get and p = p and i = i and ans = ans and clock = clock and w = w] Suc.prems one
      assms(3) by auto
  have same: "up_hcCfg p' = up_hcCfg p" "length (up_nodes p') = length (up_nodes p)"
    using one checkAll_keeps [of get clock running p w] by simp_all
  with Suc.IH [of p' w'] Suc.prems one node show ?case by auto
qed simp

section \<open>Properties\<close>

text \<open>selection by tier answers a healthy node of that tier whenever the pool has one, and nil
  otherwise; with the weights the constructor leaves it neither panics nor falls back to the last
  candidate.\<close>

theorem upstream_select_tier:
  assumes "weights_ok p" "\<And>n. 0 < n \<Longrightarrow> 0 \<le> draw n \<and> draw n < n"
  shows "(\<exists>i < length (up_nodes p). SelectByTier draw p tier = Returned (Some i) \<and>
      un_healthy (up_nodes p ! i) \<and> un_Tier (up_nodes p ! i) = tier) \<or>
    (SelectByTier draw p tier = Returned None \<and>
      (\<forall>n \<in> set (up_nodes p). un_Tier n = tier \<longrightarrow> \<not> un_healthy n))"
proof (cases "candidates (\<lambda>n. un_Tier n = tier) p = []")
  case True
  then have "SelectByTier draw p tier = Returned None"
    by (simp add: SelectByTier_def select_def)
  moreover have "\<forall>n \<in> set (up_nodes p). un_Tier n = tier \<longrightarrow> \<not> un_healthy n"
    using True by (auto simp: candidates_def filter_empty_conv in_set_conv_nth)
  ultimately show ?thesis by simp
next
  case False
  let ?is = "candidates (\<lambda>n. un_Tier n = tier) p"
  have "1 \<le> total_weight p ?is" using False assms(1) by (intro total_weight_pos candidates_weights)
  then obtain i where pick: "weighted_pick p (draw (total_weight p ?is)) ?is = Some i"
    using weighted_pick_total [of "draw (total_weight p ?is)" p ?is] assms(2) [of "total_weight p ?is"] by auto
  with False have "SelectByTier draw p tier = Returned (Some i)"
    by (simp add: SelectByTier_def select_result [OF assms])
  with weighted_pick_in [OF pick] show ?thesis by (auto simp: candidates_def)
qed

definition two_upstreams :: "upstream_node list" where
  "two_upstreams = map (\<lambda>(name, tier, weight). \<lparr>un_Name = name, un_URL = ''http://'' @ name, un_Tier = tier,
     un_Weight = weight, un_Models = [], un_APIKey = [], un_healthy = False, un_failCount = 0,
     un_lastCheck = 0, un_lastFailure = 0\<rparr>) [(''a'', ''fast'', 3), (''b'', ''smart'', 0), (''c'', ''fast'', 1)]"

lemma upstream_select_tier_witness:
  "\<exists>i < 3. SelectByTier (\<lambda>n. n - 1) (NewUpstreamPool two_upstreams DefaultHealthCheckConfig) ''fast'' = Returned (Some i)"
  using upstream_select_tier [OF weights_ok_new [of two_upstreams DefaultHealthCheckConfig], of "\<lambda>n. n - 1" "''fast''"]
  by (auto simp: NewUpstreamPool_def two_upstreams_def Let_def)

text \<open>C15: the selection is weighted as configured: of the equally likely draws, the number that pick
  a given healthy node is its weight.\<close>

theorem upstream_select_weighted:
  assumes "weights_ok p" "i < length (up_nodes p)" "un_healthy (up_nodes p ! i)"
  shows "card {r. 0 \<le> r \<and> r < total_weight p (candidates (\<lambda>_. True) p) \<and>
    SelectAny (\<lambda>_. r) p = Returned (Some i)} = nat (un_Weight (up_nodes p ! i))"
proof -
  let ?is = "candidates (\<lambda>_. True) p"
  have i: "i \<in> set ?is" "distinct ?is" using assms(2,3) by (auto simp: candidates_def)
  then have ne: "?is \<noteq> []" by auto
  have pos: "1 \<le> total_weight p ?is" using assms(1) ne by (intro total_weight_pos candidates_weights)
  have "SelectAny (\<lambda>_. r) p = Returned (Some i) \<longleftrightarrow> weighted_pick p r ?is = Some i"
    if "0 \<le> r" "r < total_weight p ?is" for r
    using ne pos weighted_pick_total [OF that] by (auto simp: SelectAny_def select_def)
  then have "{r. 0 \<le> r \<and> r < total_weight p ?is \<and> SelectAny (\<lambda>_. r) p = Returned (Some i)} =
      {r. 0 \<le> r \<and> r < 0 + total_weight p ?is \<and> weighted_pick p (r - 0) ?is = Some i}" by auto
  with weighted_pick_count [OF i(2) candidates_weights [OF assms(1)] i(1), of 0] show ?thesis by simp
qed

lemma upstream_select_weighted_witness:
  "card {r. 0 \<le> r \<and> r < 5 \<and> SelectAny (\<lambda>_. r) (NewUpstreamPool two_upstreams DefaultHealthCheckConfig) =
     Returned (Some 0)} = 3"
  using upstream_select_weighted [OF weights_ok_new [of two_upstreams DefaultHealthCheckConfig], of 0]
  by (simp add: NewUpstreamPool_def two_upstreams_def Let_def candidates_def total_weight_def upt_rec)

text \<open>a fresh node whose health endpoint keeps answering outside 2xx is in service until exactly
  the configured number of rounds has failed, and out of it from then on.\<close>

theorem upstream_health_threshold:
  assumes "i < length nodes" "\<And>w. fst (get (un_URL (nodes ! i) @ hc_Path cfg) w) = ans" "\<not> status_ok ans"
    "un_failCount (nodes ! i) = 0" "1 \<le> UnhealthyThreshold cfg"
  shows "un_healthy (up_nodes (fst (rounds get clock running k (NewUpstreamPool nodes cfg) w)) ! i) \<longleftrightarrow>
    int k < UnhealthyThreshold cfg"
proof -
  let ?p = "NewUpstreamPool nodes cfg"
  have p: "i < length (up_nodes ?p)" "un_URL (up_nodes ?p ! i) = un_URL (nodes ! i)" "up_hcCfg ?p = cfg"
    "un_healthy (up_nodes ?p ! i)" "un_failCount (up_nodes ?p ! i) = 0"
    using assms(1,4) by (simp_all add: NewUpstreamPool_def Let_def)
  show ?thesis
    using rounds_down [where get = get and p = ?p and i = i and ans = ans] p assms(2,3,5) by auto
qed

lemma upstream_health_threshold_witness:
  "un_healthy (up_nodes (fst (rounds (\<lambda>url w. (Some 503, w)) id running 2
     (NewUpstreamPool two_upstreams DefaultHealthCheckConfig) (0 :: int))) ! 0)"
  using upstream_health_threshold [of 0 two_upstreams "\<lambda>url w. (Some 503, w)" DefaultHealthCheckConfig "Some 503" id 2 "0 :: int"]
  by (simp add: two_upstreams_def DefaultHealthCheckConfig_def status_ok_def)

text \<open>one answer in 2xx brings a node back whatever \<open>HealthyThreshold\<close> asks for: the setting
  is never read.\<close>

theorem upstream_healthy_threshold_unused:
  assumes "i < length (up_nodes p)" "\<And>w. fst (get (un_URL (up_nodes p ! i) @ hc_Path (up_hcCfg p)) w) = Some 200"
  shows "un_healthy (up_nodes (fst (checkAll get clock running (p\<lparr>up_hcCfg := (up_hcCfg p)\<lparr>HealthyThreshold := k\<rparr>\<rparr>) w)) ! i)"
  using checkAll_node [where get = get and p = "p\<lparr>up_hcCfg := (up_hcCfg p)\<lparr>HealthyThreshold := k\<rparr>\<rparr>" and i = i
      and ans = "Some 200" and clock = clock and w = w] assms
  by (auto simp: status_ok_def)

lemma upstream_healthy_threshold_unused_witness:
  "un_healthy (up_nodes (fst (checkAll (\<lambda>url w. (Some 200, w)) id running
     (\<lparr>up_nodes = two_upstreams, up_hcCfg = DefaultHealthCheckConfig\<rparr>
       \<lparr>up_hcCfg := DefaultHealthCheckConfig\<lparr>HealthyThreshold := 5\<rparr>\<rparr>) (0 :: int))) ! 1)"
  using upstream_healthy_threshold_unused [of 1 "\<lparr>up_nodes = two_upstreams, up_hcCfg = DefaultHealthCheckConfig\<rparr>"
      "\<lambda>url w. (Some 200, w)" id 5 "0 :: int"]
  by (simp add: two_upstreams_def)

end
