(* ===== verification/Workflow_Graph.thy ===== *)
theory Workflow_Graph
  imports Go_Prelude
begin

text \<open>
  \<open>pkg/evolver/workflow_graph.go\<close>: the graph of workflow nodes, its editing operations, Kahn's
  topological sort, validation by depth-first search and the run metrics. The order in which Go
  visits the keys of a map is the parameter \<open>visit\<close>, a function that permutes a list of keys.
  The lock makes each operation atomic.
\<close>

section \<open>State\<close>

record workflow_node =
  wn_ID :: string
  wn_Name :: string
  wn_AgentType :: string
  wn_PromptTemplate :: string
  wn_ToolIDs :: "string list"
  wn_ModelTier :: string
  wn_Timeout :: duration
  wn_Config :: "(string, string) gomap option"

record workflow_edge =
  we_From :: string
  we_To :: string
  we_Condition :: string
  we_DataMapping :: "(string, string) gomap option"

record workflow_metrics =
  TotalRuns :: int
  SuccessRuns :: int
  FailedRuns :: int
  AvgLatencyMs :: f64
  AvgCost :: f64
  LastRunAt :: "time option"

record workflow_graph =
  wg_ID :: string
  wg_Name :: string
  wg_Description :: string
  wg_Version :: int
  wg_Nodes :: "(string, workflow_node) gomap"
  wg_Edges :: "workflow_edge list"
  wg_EntryNodeID :: string
  wg_CreatedAt :: time
  wg_UpdatedAt :: time
  wg_Metrics :: workflow_metrics

definition NewWorkflowGraph :: "time \<Rightarrow> string \<Rightarrow> string \<Rightarrow> workflow_graph" where
  "NewWorkflowGraph now gid name =
     \<lparr>wg_ID = gid, wg_Name = name, wg_Description = [], wg_Version = 0, wg_Nodes = [], wg_Edges = [],
      wg_EntryNodeID = [], wg_CreatedAt = now, wg_UpdatedAt = now,
      wg_Metrics = \<lparr>TotalRuns = 0, SuccessRuns = 0, FailedRuns = 0, AvgLatencyMs = flit 0, AvgCost = flit 0,
        LastRunAt = None\<rparr>\<rparr>"

datatype workflow_error =
    NodeIdRequired
  | NodeNameRequired
  | NodeExists string
  | NodeMissing string
  | EdgeFromRequired
  | EdgeToRequired
  | EdgeFromMissing string
  | EdgeToMissing string
  | SelfEdge
  | GraphEmpty
  | EntryRequired
  | EntryMissing string
  | GraphCycle
  | Unreachable string

section \<open>Editing\<close>

definition wg_AddNode :: "time \<Rightarrow> workflow_node \<Rightarrow> workflow_graph \<Rightarrow> workflow_error option \<times> workflow_graph" where
  "wg_AddNode now node g =
     (if wn_ID node = [] then (Some NodeIdRequired, g)
      else if wn_Name node = [] then (Some NodeNameRequired, g)
      else if mget (wg_Nodes g) (wn_ID node) \<noteq> None then (Some (NodeExists (wn_ID node)), g)
      else let n = (if wn_Config node = None then node\<lparr>wn_Config := Some []\<rparr> else node) in
        (None, g\<lparr>wg_Nodes := mset_at (wg_Nodes g) (wn_ID node) n, wg_UpdatedAt := now\<rparr>))"

definition wg_AddEdge :: "time \<Rightarrow> workflow_edge \<Rightarrow> workflow_graph \<Rightarrow> workflow_error option \<times> workflow_graph" where
  "wg_AddEdge now edge g =
     (if we_From edge = [] then (Some EdgeFromRequired, g)
      else if we_To edge = [] then (Some EdgeToRequired, g)
      else if mget (wg_Nodes g) (we_From edge) = None then (Some (EdgeFromMissing (we_From edge)), g)
      else if mget (wg_Nodes g) (we_To edge) = None then (Some (EdgeToMissing (we_To edge)), g)
      else if we_From edge = we_To edge then (Some SelfEdge, g)
      else let e = (if we_DataMapping edge = None then edge\<lparr>we_DataMapping := Some []\<rparr> else edge) in
        (None, g\<lparr>wg_Edges := wg_Edges g @ [e], wg_UpdatedAt := now\<rparr>))"

definition wg_RemoveNode :: "time \<Rightarrow> string \<Rightarrow> workflow_graph \<Rightarrow> workflow_error option \<times> workflow_graph" where
  "wg_RemoveNode now k g =
     (if mget (wg_Nodes g) k = None then (Some (NodeMissing k), g)
      else (None, g\<lparr>wg_Nodes := mdelete (wg_Nodes g) k,
        wg_Edges := filter (\<lambda>e. we_From e \<noteq> k \<and> we_To e \<noteq> k) (wg_Edges g),
        wg_EntryNodeID := (if wg_EntryNodeID g = k then [] else wg_EntryNodeID g),
        wg_UpdatedAt := now\<rparr>))"

section \<open>Topological sort\<close>

definition in_degrees :: "workflow_graph \<Rightarrow> (string, int) gomap" where
  "in_degrees g =
     foldl (\<lambda>d e. mincr d (we_To e)) (foldl (\<lambda>d (k, _). mset_at d k 0) [] (wg_Nodes g)) (wg_Edges g)"

definition adjacency :: "workflow_graph \<Rightarrow> (string, string list) gomap" where
  "adjacency g = foldl (\<lambda>a e. mset_at a (we_From e) (mget_or [] a (we_From e) @ [we_To e])) [] (wg_Edges g)"

text \<open>The inner loop over the targets of a node, and the loop over the queue.\<close>

fun relax :: "string list \<Rightarrow> (string, int) gomap \<Rightarrow> string list \<Rightarrow> (string, int) gomap \<times> string list" where
  "relax [] d q = (d, q)"
| "relax (v # vs) d q =
     (let d = mset_at d v (mget_or 0 d v - 1) in
      relax vs d (if mget_or 0 d v = 0 then q @ [v] else q))"

definition positives :: "(string, int) gomap \<Rightarrow> string set" where
  "positives d = {v. 0 < mget_or 0 d v}"

lemma finite_positives: "finite (positives d)"
proof -
  have "positives d \<subseteq> fst ` set d"
    by (auto simp: positives_def mget_or_def mget_def split: option.splits dest!: map_of_SomeD intro!: image_eqI)
  then show ?thesis by (rule finite_subset) simp
qed

lemma relax_measure:
  "relax vs d q = (d', q') \<Longrightarrow> length q' + card (positives d') \<le> length q + card (positives d)"
proof (induction vs d q rule: relax.induct)
  case (2 v vs d q)
  let ?d = "mset_at d v (mget_or 0 d v - 1)"
  have sub: "positives ?d \<subseteq> positives d" by (auto simp: positives_def split: if_splits)
  have "length (if mget_or 0 ?d v = 0 then q @ [v] else q) + card (positives ?d) \<le> length q + card (positives d)"
  proof (cases "mget_or 0 d v = 1")
    case True
    then have "positives ?d = positives d - {v}" "v \<in> positives d" by (auto simp: positives_def split: if_splits)
    then have "Suc (card (positives ?d)) = card (positives d)"
      using card_Suc_Diff1 [OF finite_positives] by simp
    then show ?thesis using True by simp
  next
    case False
    then show ?thesis using card_mono [OF finite_positives sub] by simp
  qed
  moreover have "length q' + card (positives d') \<le>
      length (if mget_or 0 ?d v = 0 then q @ [v] else q) + card (positives ?d)"
    using "2.IH" [OF refl] "2.prems" by (simp add: Let_def)
  ultimately show ?case by linarith
qed simp

function kahn :: "(string, string list) gomap \<Rightarrow> (string, int) gomap \<Rightarrow> string list \<Rightarrow> string list \<Rightarrow> string list" where
  "kahn adj d [] order = order"
| "kahn adj d (u # q) order = (case relax (mget_or [] adj u) d q of (d', q') \<Rightarrow> kahn adj d' q' (order @ [u]))"
  by pat_completeness auto

termination
  by (relation "measure (\<lambda>(adj, d, q, order). length q + card (positives d))")
    (auto dest!: relax_measure [OF sym])

definition topologicalSortUnlocked :: "(string list \<Rightarrow> string list) \<Rightarrow> workflow_graph \<Rightarrow> workflow_error + string list" where
  "topologicalSortUnlocked visit g =
     (let d = in_degrees g;
          queue = filter (\<lambda>k. mget_or 0 d k = 0) (visit (map fst d));
          order = kahn (adjacency g) d queue []
      in if length order \<noteq> length (wg_Nodes g) then Inl GraphCycle else Inr order)"

definition TopologicalSort :: "(string list \<Rightarrow> string list) \<Rightarrow> workflow_graph \<Rightarrow> workflow_error + string list" where
  "TopologicalSort visit g = (if wg_Nodes g = [] then Inr [] else topologicalSortUnlocked visit g)"

section \<open>Validation\<close>

text \<open>
  The depth-first search, with fuel for the depth of the recursion (\<open>None\<close> when it runs out):
  one more than the number of edges is always enough.
\<close>

primrec dfsReachable :: "nat \<Rightarrow> workflow_edge list \<Rightarrow> string \<Rightarrow> string list \<Rightarrow> string list option" where
  "dfsReachable 0 edges from visited = None"
| "dfsReachable (Suc n) edges from visited =
     foldl (\<lambda>acc e. case acc of
         None \<Rightarrow> None
       | Some visited \<Rightarrow>
           if we_From e = from \<and> we_To e \<notin> set visited then dfsReachable n edges (we_To e) visited
           else Some visited)
       (Some (List.insert from visited)) edges"

definition reachable_nodes :: "workflow_graph \<Rightarrow> string list option" where
  "reachable_nodes g = dfsReachable (Suc (length (wg_Edges g))) (wg_Edges g) (wg_EntryNodeID g) []"

definition wg_Validate :: "(string list \<Rightarrow> string list) \<Rightarrow> workflow_graph \<Rightarrow> workflow_error option outcome" where
  "wg_Validate visit g =
     (if wg_Nodes g = [] then Returned (Some GraphEmpty)
      else if wg_EntryNodeID g = [] then Returned (Some EntryRequired)
      else if mget (wg_Nodes g) (wg_EntryNodeID g) = None then Returned (Some (EntryMissing (wg_EntryNodeID g)))
      else case topologicalSortUnlocked visit g of
        Inl e \<Rightarrow> Returned (Some e)
      | Inr _ \<Rightarrow>
          (case reachable_nodes g of
             None \<Rightarrow> OutOfFuel
           | Some visited \<Rightarrow>
               (case find (\<lambda>k. k \<notin> set visited) (visit (map fst (wg_Nodes g))) of
                  Some k \<Rightarrow> Returned (Some (Unreachable k))
                | None \<Rightarrow> Returned None)))"

section \<open>Copies and metrics\<close>

definition copy_map :: "('k, 'v) gomap option \<Rightarrow> ('k, 'v) gomap option" where
  "copy_map m = map_option (foldl (\<lambda>c (k, v). mset_at c k v) []) m"

definition wg_Clone :: "workflow_graph \<Rightarrow> workflow_graph" where
  "wg_Clone g = g\<lparr>wg_Nodes := foldl (\<lambda>c (k, n). mset_at c k (n\<lparr>wn_Config := copy_map (wn_Config n)\<rparr>)) [] (wg_Nodes g),
     wg_Edges := map (\<lambda>e. e\<lparr>we_DataMapping := copy_map (we_DataMapping e)\<rparr>) (wg_Edges g)\<rparr>"

definition wg_RecordRun :: "time \<Rightarrow> bool \<Rightarrow> f64 \<Rightarrow> f64 \<Rightarrow> workflow_graph \<Rightarrow> workflow_graph" where
  "wg_RecordRun now success latencyMs cost g =
     (let m = wg_Metrics g;
          m = m\<lparr>TotalRuns := TotalRuns m + 1\<rparr>;
          m = (if success then m\<lparr>SuccessRuns := SuccessRuns m + 1\<rparr> else m\<lparr>FailedRuns := FailedRuns m + 1\<rparr>);
          n = f_of_int (TotalRuns m);
          avg = (\<lambda>old new. fdiv (fadd (fmul old (fsub n (flit 1))) new) n);
          m = m\<lparr>AvgLatencyMs := avg (AvgLatencyMs m) latencyMs\<rparr>;
          m = m\<lparr>AvgCost := avg (AvgCost m) cost\<rparr>;
          m = m\<lparr>LastRunAt := Some now\<rparr>
      in g\<lparr>wg_Metrics := m, wg_UpdatedAt := now\<rparr>)"

definition wg_SuccessRate :: "workflow_graph \<Rightarrow> f64" where
  "wg_SuccessRate g =
     (if TotalRuns (wg_Metrics g) = 0 then flit 0
      else fdiv (f_of_int (SuccessRuns (wg_Metrics g))) (f_of_int (TotalRuns (wg_Metrics g))))"

section \<open>Graphs the operations build\<close>

definition node_ids :: "workflow_graph \<Rightarrow> string set" where
  "node_ids g = fst ` set (wg_Nodes g)"

definition edge_pairs :: "workflow_graph \<Rightarrow> (string \<times> string) list" where
  "edge_pairs g = map (\<lambda>e. (we_From e, we_To e)) (wg_Edges g)"

definition edge_rel :: "workflow_graph \<Rightarrow> (string \<times> string) set" where
  "edge_rel g = set (edge_pairs g)"

text \<open>
  The invariant of a graph edited through its operations: node keys are distinct, non-empty and
  the nodes' own IDs; edges join two different nodes of the graph.
\<close>

definition wg_inv :: "workflow_graph \<Rightarrow> bool" where
  "wg_inv g \<longleftrightarrow> wf_map (wg_Nodes g) \<and>
     (\<forall>k n. mget (wg_Nodes g) k = Some n \<longrightarrow> wn_ID n = k \<and> k \<noteq> []) \<and>
     (\<forall>e \<in> set (wg_Edges g). mget (wg_Nodes g) (we_From e) \<noteq> None \<and>
        mget (wg_Nodes g) (we_To e) \<noteq> None \<and> we_From e \<noteq> we_To e)"

datatype workflow_op = OpAddNode workflow_node | OpAddEdge workflow_edge | OpRemoveNode string
  | OpRecordRun bool f64 f64 | OpSetEntry string

fun wg_step :: "workflow_graph \<Rightarrow> time \<times> workflow_op \<Rightarrow> workflow_graph" where
  "wg_step g (now, OpAddNode n) = snd (wg_AddNode now n g)"
| "wg_step g (now, OpAddEdge e) = snd (wg_AddEdge now e g)"
| "wg_step g (now, OpRemoveNode k) = snd (wg_RemoveNode now k g)"
| "wg_step g (now, OpRecordRun b l c) = wg_RecordRun now b l c g"
| "wg_step g (now, OpSetEntry k) = g\<lparr>wg_EntryNodeID := k\<rparr>"

lemma node_ids_mget: "wf_map (wg_Nodes g) \<Longrightarrow> k \<in> node_ids g \<longleftrightarrow> mget (wg_Nodes g) k \<noteq> None"
  by (simp add: node_ids_def mget_def map_of_eq_None_iff)

lemma wg_inv_new: "wg_inv (NewWorkflowGraph now gid name)"
  by (simp add: wg_inv_def NewWorkflowGraph_def)

lemma wg_inv_AddNode: "wg_inv g \<Longrightarrow> wg_inv (snd (wg_AddNode now n g))"
  by (simp add: wg_inv_def wg_AddNode_def Let_def)

lemma wg_inv_AddEdge: "wg_inv g \<Longrightarrow> wg_inv (snd (wg_AddEdge now e g))"
  by (simp add: wg_inv_def wg_AddEdge_def Let_def)

lemma wg_inv_RemoveNode: "wg_inv g \<Longrightarrow> wg_inv (snd (wg_RemoveNode now k g))"
  by (simp add: wg_inv_def wg_RemoveNode_def)

lemma wg_inv_RecordRun: "wg_inv g \<Longrightarrow> wg_inv (wg_RecordRun now b l c g)"
  by (simp add: wg_inv_def wg_RecordRun_def Let_def)

lemma wg_inv_step: "wg_inv g \<Longrightarrow> wg_inv (wg_step g x)"
proof (induction g x rule: wg_step.induct)
  case (5 g now k)
  then show ?case by (simp add: wg_inv_def)
qed (simp_all add: wg_inv_AddNode wg_inv_AddEdge wg_inv_RemoveNode wg_inv_RecordRun)

lemma wg_inv_run: "wg_inv g \<Longrightarrow> wg_inv (foldl wg_step g ops)"
  by (induction ops arbitrary: g) (simp_all add: wg_inv_step)

section \<open>In-degrees and adjacency\<close>

definition in_count :: "(string \<times> string) list \<Rightarrow> string set \<Rightarrow> string \<Rightarrow> nat" where
  "in_count es done v = length (filter (\<lambda>(a, b). b = v \<and> a \<notin> done) es)"

lemma zero_fold:
  "wf_map d \<Longrightarrow> wf_map (foldl (\<lambda>d (k, _). mset_at d k 0) d ns)"
  "mget (foldl (\<lambda>d (k, _). mset_at d k (0 :: int)) d ns) k =
     (if k \<in> fst ` set ns then Some 0 else mget d k)"
  by (induction ns arbitrary: d) (auto split: prod.splits)

lemma degree_fold:
  "wf_map d \<Longrightarrow> wf_map (foldl (\<lambda>d e. mincr d (we_To e)) d es)"
  "mget_or 0 (foldl (\<lambda>d e. mincr d (we_To e)) d es) v =
     mget_or 0 d v + int (length (filter (\<lambda>e. we_To e = v) es))"
  by (induction es arbitrary: d) auto

lemma degree_keys:
  "mget (foldl (\<lambda>d e. mincr d (we_To e)) d es) v \<noteq> None \<longleftrightarrow> mget d v \<noteq> None \<or> v \<in> we_To ` set es"
  by (induction es arbitrary: d) (auto simp: mincr_def)

lemma in_degrees_wf: "wf_map (in_degrees g)"
  by (simp add: in_degrees_def degree_fold(1) zero_fold(1))

lemma in_degrees_get: "mget_or 0 (in_degrees g) v = int (in_count (edge_pairs g) {} v)"
proof -
  have zero: "mget_or 0 (foldl (\<lambda>d (k, _). mset_at d k 0) [] (wg_Nodes g)) v = (0 :: int)"
    by (simp add: mget_or_def zero_fold(2))
  show ?thesis
    by (simp add: in_degrees_def degree_fold(2) zero in_count_def edge_pairs_def filter_map comp_def)
qed

lemma in_degrees_keys: "wg_inv g \<Longrightarrow> set (map fst (in_degrees g)) = node_ids g"
proof -
  assume inv: "wg_inv g"
  have "k \<in> set (map fst (in_degrees g)) \<longleftrightarrow> k \<in> node_ids g" for k
    using inv unfolding set_map mget_key node_ids_def in_degrees_def degree_keys
    by (auto simp: zero_fold(2) mget_key wg_inv_def)
  then show ?thesis by blast
qed

lemma adjacency_fold:
  "mget_or [] (foldl (\<lambda>a e. mset_at a (we_From e) (mget_or [] a (we_From e) @ [we_To e])) a es) u =
   mget_or [] a u @ map we_To (filter (\<lambda>e. we_From e = u) es)"
  by (induction es arbitrary: a) auto

lemma adjacency_get: "mget_or [] (adjacency g) u = map snd (filter (\<lambda>(a, b). a = u) (edge_pairs g))"
  by (simp add: adjacency_def adjacency_fold edge_pairs_def filter_map comp_def)

section \<open>Kahn's algorithm\<close>

text \<open>One node taken from the queue: its targets lose one for each edge, and those that lose their
  last one join the queue.\<close>

lemma relax_result:
  assumes "\<And>v. int (count_list vs v) \<le> mget_or 0 d v" "relax vs d q = (d', q')"
  shows "(\<forall>v. mget_or 0 d' v = mget_or 0 d v - int (count_list vs v)) \<and>
    (\<exists>new. q' = q @ new \<and> distinct new \<and>
       set new = {v. v \<in> set vs \<and> mget_or 0 d v = int (count_list vs v)})"
  using assms
proof (induction vs d q rule: relax.induct)
  case (2 v vs d q)
  let ?d = "mset_at d v (mget_or 0 d v - 1)"
  let ?q = "if mget_or 0 ?d v = 0 then q @ [v] else q"
  have le: "int (count_list vs w) \<le> mget_or 0 ?d w" for w
    using "2.prems"(1) [of w] by (auto split: if_splits)
  have run: "relax vs ?d ?q = (d', q')" using "2.prems"(2) by (simp add: Let_def)
  obtain new where IH: "\<And>w. mget_or 0 d' w = mget_or 0 ?d w - int (count_list vs w)"
    "q' = ?q @ new" "distinct new" "set new = {w. w \<in> set vs \<and> mget_or 0 ?d w = int (count_list vs w)}"
    using "2.IH" [OF refl le run] by auto
  have deg: "mget_or 0 d' w = mget_or 0 d w - int (count_list (v # vs) w)" for w
    using IH(1) [of w] by auto
  have mem: "w \<in> set new \<longleftrightarrow> w \<in> set vs \<and> mget_or 0 ?d w = int (count_list vs w)" for w
    using IH(4) by blast
  show ?case
  proof (cases "mget_or 0 d v = 1")
    case True
    then have v: "v \<notin> set vs" using le [of v] count_list_0_iff [of vs v] by simp
    have "w \<in> set (v # new) \<longleftrightarrow> w \<in> set (v # vs) \<and> mget_or 0 d w = int (count_list (v # vs) w)" for w
      using True v mem [of w] by (cases "w = v") simp_all
    moreover have "q' = q @ v # new" "distinct (v # new)" using IH(2,3) True v mem [of v] by simp_all
    ultimately show ?thesis using deg by blast
  next
    case False
    have "w \<in> set new \<longleftrightarrow> w \<in> set (v # vs) \<and> mget_or 0 d w = int (count_list (v # vs) w)" for w
    proof (cases "w = v")
      case w: True
      show ?thesis using False mem [of v] count_list_0_iff [of vs v] by (cases "v \<in> set vs") (auto simp: w)
    qed (use mem [of w] in simp)
    moreover have "q' = q @ new" using IH(2) False by simp
    ultimately show ?thesis using deg IH(3) by blast
  qed
qed (auto intro: exI [of _ "[]"])

text \<open>
  The invariant of the queue loop, over the edges \<open>es\<close> and the nodes \<open>N\<close>: \<open>order\<close> is done, the
  degrees count the edges from the other nodes, the queue holds the remaining nodes of degree zero,
  and whatever precedes a node in the graph precedes it in the order.
\<close>

definition kahn_inv :: "(string \<times> string) list \<Rightarrow> string set \<Rightarrow> (string, int) gomap \<Rightarrow> string list \<Rightarrow>
    string list \<Rightarrow> bool" where
  "kahn_inv es N d q order \<longleftrightarrow>
     distinct (order @ q) \<and> set (order @ q) \<subseteq> N \<and>
     (\<forall>v. mget_or 0 d v = int (in_count es (set order) v)) \<and>
     (\<forall>v \<in> N. v \<in> set (order @ q) \<longleftrightarrow> in_count es (set order) v = 0) \<and>
     (\<forall>i < length order. \<forall>u. (u, order ! i) \<in> set es \<longrightarrow> u \<in> set (take i order))"

lemma in_count_step:
  "u \<notin> done \<Longrightarrow> in_count es done v = in_count es (insert u done) v +
     count_list (map snd (filter (\<lambda>(a, b). a = u) es)) v"
  by (induction es) (auto simp: in_count_def)

lemma in_count_zero: "in_count es done v = 0 \<longleftrightarrow> (\<forall>u. (u, v) \<in> set es \<longrightarrow> u \<in> done)"
  by (auto simp: in_count_def filter_empty_conv)

lemma kahn_step:
  assumes inv: "kahn_inv es N d (u # q) order" and edges: "\<forall>(a, b) \<in> set es. b \<in> N"
    and run: "relax (map snd (filter (\<lambda>(a, b). a = u) es)) d q = (d', q')"
  shows "kahn_inv es N d' q' (order @ [u])"
proof -
  let ?vs = "map snd (filter (\<lambda>(a, b). a = u) es)"
  have u: "u \<notin> set order" using inv by (simp add: kahn_inv_def)
  have d: "mget_or 0 d v = int (in_count es (set order) v)" for v using inv by (simp add: kahn_inv_def)
  note count = in_count_step [OF u]
  obtain new where d': "\<And>v. mget_or 0 d' v = int (in_count es (insert u (set order)) v)"
    and q': "q' = q @ new" "distinct new"
    and new: "\<And>v. v \<in> set new \<longleftrightarrow> v \<in> set ?vs \<and> in_count es (insert u (set order)) v = 0"
    using relax_result [OF _ run] by (auto simp: d count)
  have old: "v \<in> set (order @ u # q) \<longleftrightarrow> in_count es (set order) v = 0" if "v \<in> N" for v
    using inv that by (simp add: kahn_inv_def)
  have target: "v \<in> N \<and> in_count es (set order) v \<noteq> 0" if "v \<in> set ?vs" for v
    using that u edges by (auto simp: in_count_zero)
  have mem: "v \<in> set ((order @ [u]) @ q') \<longleftrightarrow> in_count es (insert u (set order)) v = 0" if "v \<in> N" for v
  proof (cases "v \<in> set ?vs")
    case True
    with target [OF True] old [OF that] new [of v] show ?thesis by (auto simp: q'(1))
  next
    case False
    then have "count_list ?vs v = 0" by (simp add: count_list_0_iff)
    with old [OF that] new [of v] False count [of es v] show ?thesis by (auto simp: q'(1))
  qed
  have disj: "v \<notin> set (order @ u # q)" if "v \<in> set new" for v
  proof -
    have "v \<in> N \<and> in_count es (set order) v \<noteq> 0" using target [of v] new [of v] that by metis
    with old [of v] show ?thesis by simp
  qed
  have base: "distinct (order @ u # q)" "set (order @ u # q) \<subseteq> N"
    "\<forall>i < length order. \<forall>w. (w, order ! i) \<in> set es \<longrightarrow> w \<in> set (take i order)"
    using inv by (simp_all add: kahn_inv_def)
  have dist: "distinct ((order @ [u]) @ q')" using base(1) q' disj by auto
  have sub: "set ((order @ [u]) @ q') \<subseteq> N" using base(2) new target by (auto simp: q'(1))
  have preds: "\<forall>w. (w, u) \<in> set es \<longrightarrow> w \<in> set order"
    using old [of u] base(2) by (simp add: in_count_zero)
  have before: "w \<in> set (take i (order @ [u]))" if "i < length (order @ [u])" "(w, (order @ [u]) ! i) \<in> set es" for i w
    using that base(3) preds by (cases "i < length order") (simp_all add: nth_append)
  have N: "v \<in> set ((order @ [u]) @ q') \<longleftrightarrow> in_count es (set (order @ [u])) v = 0" if "v \<in> N" for v
    using mem [OF that] by simp
  have "mget_or 0 d' v = int (in_count es (set (order @ [u])) v)" for v using d' by simp
  with dist sub before N show ?thesis unfolding kahn_inv_def by blast
qed

lemma kahn_correct:
  assumes "kahn_inv es N d q order" "\<forall>(a, b) \<in> set es. b \<in> N"
    "\<And>u. mget_or [] adj u = map snd (filter (\<lambda>(a, b). a = u) es)"
  shows "\<exists>d'. kahn_inv es N d' [] (kahn adj d q order)"
  using assms
proof (induction adj d q order rule: kahn.induct)
  case (2 adj d u q order)
  obtain d' q' where r: "relax (mget_or [] adj u) d q = (d', q')" by fastforce
  from "2.IH" [OF r [symmetric] kahn_step [OF "2.prems"(1,2)] "2.prems"(2)] r "2.prems"(3) show ?case by simp
qed auto

lemma kahn_order_trancl:
  assumes "\<forall>i < length order. \<forall>u. (u, order ! i) \<in> r \<longrightarrow> u \<in> set (take i order)"
    "(u, v) \<in> r\<^sup>+" "i < length order" "order ! i = v"
  shows "u \<in> set (take i order)"
  using assms(2-4)
proof (induction arbitrary: i rule: trancl_induct)
  case (step w v)
  from step.prems step.hyps(2) assms(1) have "w \<in> set (take i order)" by auto
  then obtain j where j: "j < i" "j < length order" "order ! j = w" by (auto simp: in_set_conv_nth)
  from step.IH [OF j(2,3)] show ?case using set_take_subset_set_take [of j i order] j(1) by auto
qed (use assms(1) in auto)

lemma kahn_full_iff_acyclic:
  assumes inv: "kahn_inv es N d [] order" and edges: "\<forall>(a, b) \<in> set es. a \<in> N \<and> b \<in> N" and fin: "finite N"
  shows "length order = card N \<longleftrightarrow> acyclic (set es)" and "length order = card N \<Longrightarrow> set order = N"
proof -
  have order: "distinct order" "set order \<subseteq> N" "\<forall>v \<in> N. v \<in> set order \<longleftrightarrow> in_count es (set order) v = 0"
    "\<forall>i < length order. \<forall>u. (u, order ! i) \<in> set es \<longrightarrow> u \<in> set (take i order)"
    using inv by (simp_all add: kahn_inv_def)
  show full: "set order = N" if "length order = card N"
    using that order(1,2) fin by (simp add: card_subset_eq distinct_card)
  show "length order = card N \<longleftrightarrow> acyclic (set es)"
  proof
    assume len: "length order = card N"
    show "acyclic (set es)"
    proof (rule acyclicI, intro allI notI)
      fix x assume x: "(x, x) \<in> (set es)\<^sup>+"
      then have "x \<in> N" using edges by (induction rule: trancl_induct) auto
      then obtain i where i: "i < length order" "order ! i = x" using full [OF len] by (auto simp: in_set_conv_nth)
      from kahn_order_trancl [OF order(4) x i] i order(1) show False
        by (auto simp: in_set_conv_nth nth_eq_iff_index_eq)
    qed
  next
    assume "acyclic (set es)"
    then have wf: "wf (set es)" by (simp add: finite_acyclic_wf)
    have "N - set order = {}"
    proof (rule ccontr)
      assume "N - set order \<noteq> {}"
      then obtain z where z: "z \<in> N - set order" "\<And>y. (y, z) \<in> set es \<Longrightarrow> y \<notin> N - set order"
        using wfE_min' [OF wf, of "N - set order"] by blast
      then obtain y where "(y, z) \<in> set es" "y \<notin> set order" using order(3) by (auto simp: in_count_zero)
      with z(2) edges show False by auto
    qed
    with order(1,2) show "length order = card N" by (metis Diff_eq_empty_iff distinct_card subset_antisym)
  qed
qed

lemma edge_pairs_inv: "wg_inv g \<Longrightarrow> \<forall>(a, b) \<in> set (edge_pairs g). a \<in> node_ids g \<and> b \<in> node_ids g"
  by (auto simp: wg_inv_def edge_pairs_def node_ids_def mget_key)

lemma card_node_ids: "wg_inv g \<Longrightarrow> card (node_ids g) = length (wg_Nodes g)"
  using distinct_card [of "map fst (wg_Nodes g)"] by (simp add: wg_inv_def wf_map_def node_ids_def)

lemma kahn_initial:
  assumes "wg_inv g" "mset (visit (map fst (in_degrees g))) = mset (map fst (in_degrees g))"
  shows "kahn_inv (edge_pairs g) (node_ids g) (in_degrees g)
    (filter (\<lambda>k. mget_or 0 (in_degrees g) k = 0) (visit (map fst (in_degrees g)))) []"
proof -
  have "distinct (map fst (in_degrees g))" using in_degrees_wf [of g] by (simp add: wf_map_def)
  then have "distinct (visit (map fst (in_degrees g)))"
    using mset_eq_imp_distinct_iff [OF assms(2)] by simp
  moreover have "set (visit (map fst (in_degrees g))) = node_ids g"
    using mset_eq_setD [OF assms(2)] in_degrees_keys [OF assms(1)] by simp
  ultimately show ?thesis by (auto simp: kahn_inv_def in_degrees_get)
qed

lemma topological_result:
  assumes "wg_inv g" "\<And>ks. mset (visit ks) = mset ks"
  shows "case topologicalSortUnlocked visit g of
      Inl e \<Rightarrow> e = GraphCycle \<and> \<not> acyclic (edge_rel g)
    | Inr order \<Rightarrow> acyclic (edge_rel g) \<and> distinct order \<and> set order = node_ids g \<and>
        (\<forall>i < length order. \<forall>u. (u, order ! i) \<in> edge_rel g \<longrightarrow> u \<in> set (take i order))"
proof -
  let ?d = "in_degrees g"
  let ?order = "kahn (adjacency g) ?d (filter (\<lambda>k. mget_or 0 ?d k = 0) (visit (map fst ?d))) []"
  have edges: "\<forall>(a, b) \<in> set (edge_pairs g). a \<in> node_ids g \<and> b \<in> node_ids g" by (rule edge_pairs_inv [OF assms(1)])
  then obtain d' where inv: "kahn_inv (edge_pairs g) (node_ids g) d' [] ?order"
    using kahn_correct [OF kahn_initial [OF assms(1), of visit], of "adjacency g"] assms(2) adjacency_get by fast
  have fin: "finite (node_ids g)" by (simp add: node_ids_def)
  note full = kahn_full_iff_acyclic [OF inv edges fin, unfolded card_node_ids [OF assms(1)]]
  show ?thesis
  proof (cases "length ?order = length (wg_Nodes g)")
    case True
    have "distinct ?order" "\<forall>i < length ?order. \<forall>u. (u, ?order ! i) \<in> edge_rel g \<longrightarrow> u \<in> set (take i ?order)"
      using inv by (simp_all add: kahn_inv_def edge_rel_def)
    with True full show ?thesis by (simp add: topologicalSortUnlocked_def Let_def edge_rel_def)
  next
    case False
    with full(1) show ?thesis by (simp add: topologicalSortUnlocked_def Let_def edge_rel_def)
  qed
qed

section \<open>Depth-first search\<close>

definition succ_rel :: "workflow_edge list \<Rightarrow> (string \<times> string) set" where
  "succ_rel es = set (map (\<lambda>e. (we_From e, we_To e)) es)"

text \<open>
  What a search from \<open>u\<close> with the nodes \<open>V\<close> visited before may have visited: nodes reachable
  from \<open>u\<close>, each new one but \<open>u\<close> itself with all its successors.
\<close>

definition dfs_good :: "workflow_edge list \<Rightarrow> string \<Rightarrow> string set \<Rightarrow> string set \<Rightarrow> bool" where
  "dfs_good es u V A \<longleftrightarrow> insert u V \<subseteq> A \<and> (\<forall>x \<in> A. x \<in> V \<or> (u, x) \<in> (succ_rel es)\<^sup>*) \<and>
     (\<forall>x \<in> A - insert u V. \<forall>y. (x, y) \<in> succ_rel es \<longrightarrow> y \<in> A)"

definition dfs_done :: "workflow_edge list \<Rightarrow> string \<Rightarrow> string set \<Rightarrow> string set \<Rightarrow> bool" where
  "dfs_done es u V A \<longleftrightarrow> dfs_good es u V A \<and> (\<forall>y. (u, y) \<in> succ_rel es \<longrightarrow> y \<in> A)"

lemma dfs_goodD:
  assumes "dfs_good es u V A"
  shows "u \<in> A" and "V \<subseteq> A" and "x \<in> A \<Longrightarrow> x \<in> V \<or> (u, x) \<in> (succ_rel es)\<^sup>*"
    and "x \<in> A \<Longrightarrow> x \<notin> V \<Longrightarrow> x \<noteq> u \<Longrightarrow> (x, y) \<in> succ_rel es \<Longrightarrow> y \<in> A"
  using assms unfolding dfs_good_def by blast+

lemma dfs_goodI:
  assumes "u \<in> A" "V \<subseteq> A" "\<And>x. x \<in> A \<Longrightarrow> x \<in> V \<or> (u, x) \<in> (succ_rel es)\<^sup>*"
    "\<And>x y. x \<in> A \<Longrightarrow> x \<notin> V \<Longrightarrow> x \<noteq> u \<Longrightarrow> (x, y) \<in> succ_rel es \<Longrightarrow> y \<in> A"
  shows "dfs_good es u V A"
  using assms unfolding dfs_good_def by blast

lemma dfs_doneD:
  assumes "dfs_done es u V A"
  shows "dfs_good es u V A" and "(u, y) \<in> succ_rel es \<Longrightarrow> y \<in> A"
  using assms unfolding dfs_done_def by blast+

lemma dfs_good_extend:
  assumes good: "dfs_good es u V A" and uw: "(u, w) \<in> succ_rel es" and rec: "dfs_done es w A B"
  shows "dfs_good es u V B" and "A \<subseteq> B" and "w \<in> B"
proof -
  note A = dfs_goodD [OF good]
  note B = dfs_goodD [OF dfs_doneD(1) [OF rec]]
  show sub: "A \<subseteq> B" "w \<in> B" by (fact B)+
  show "dfs_good es u V B"
  proof (rule dfs_goodI)
    show "u \<in> B" "V \<subseteq> B" using A(1,2) sub(1) by blast+
    show "x \<in> V \<or> (u, x) \<in> (succ_rel es)\<^sup>*" if "x \<in> B" for x
      using B(3) [OF that] A(3) [of x] converse_rtrancl_into_rtrancl [OF uw, of x] by blast
    show "y \<in> B" if "x \<in> B" "x \<notin> V" "x \<noteq> u" "(x, y) \<in> succ_rel es" for x y
    proof (cases "x \<in> A")
      case True
      from A(4) [OF True that(2-4)] sub(1) show ?thesis by blast
    next
      case False
      show ?thesis
      proof (cases "x = w")
        case True
        with dfs_doneD(2) [OF rec] that(4) show ?thesis by blast
      qed (use B(4) [OF that(1) False _ that(4)] in blast)
    qed
  qed
qed

definition unvisited :: "workflow_edge list \<Rightarrow> string set \<Rightarrow> string set" where
  "unvisited es A = we_To ` set es - A"

lemma dfs_total:
  "u \<notin> set V \<Longrightarrow> card (unvisited es (insert u (set V))) < n \<Longrightarrow>
   \<exists>A. dfsReachable n es u V = Some A \<and> dfs_done es u (set V) (set A)"
proof (induction n arbitrary: u V)
  case (Suc n)
  let ?step = "\<lambda>acc e. case acc of None \<Rightarrow> None
     | Some visited \<Rightarrow>
         if we_From e = u \<and> we_To e \<notin> set visited then dfsReachable n es (we_To e) visited else Some visited"
  have step: "\<exists>B. ?step (Some A) e = Some B \<and> dfs_good es u (set V) (set B) \<and> set A \<subseteq> set B \<and>
      (we_From e = u \<longrightarrow> we_To e \<in> set B)"
    if good: "dfs_good es u (set V) (set A)" and e: "e \<in> set es" for A e
  proof (cases "we_From e = u \<and> we_To e \<notin> set A")
    case True
    have V: "insert u (set V) \<subseteq> set A" using dfs_goodD(1,2) [OF good] by blast
    then have sub: "unvisited es (insert (we_To e) (set A)) \<subseteq> unvisited es (insert u (set V)) - {we_To e}"
      unfolding unvisited_def by blast
    have "we_To e \<in> unvisited es (insert u (set V))"
      using True V e unfolding unvisited_def by blast
    then have "card (unvisited es (insert u (set V)) - {we_To e}) < card (unvisited es (insert u (set V)))"
      by (intro card_Diff1_less) (simp_all add: unvisited_def)
    with card_mono [OF _ sub] Suc.prems(2) have "card (unvisited es (insert (we_To e) (set A))) < n"
      by (simp add: unvisited_def)
    with Suc.IH True obtain B where B: "dfsReachable n es (we_To e) A = Some B" "dfs_done es (we_To e) (set A) (set B)"
      by blast
    have "(u, we_To e) \<in> succ_rel es" using True e by (auto simp: succ_rel_def)
    from dfs_good_extend [OF good this B(2)] B(1) True show ?thesis by simp
  qed (use good in auto)
  have loop: "\<exists>B. foldl ?step (Some A) fs = Some B \<and> dfs_good es u (set V) (set B) \<and> set A \<subseteq> set B \<and>
      (\<forall>e \<in> set fs. we_From e = u \<longrightarrow> we_To e \<in> set B)"
    if "dfs_good es u (set V) (set A)" "set fs \<subseteq> set es" for A fs
    using that
  proof (induction fs arbitrary: A)
    case (Cons e fs)
    from step [OF Cons.prems(1), of e] Cons.prems(2) obtain B where B: "?step (Some A) e = Some B"
      "dfs_good es u (set V) (set B)" "set A \<subseteq> set B" "we_From e = u \<longrightarrow> we_To e \<in> set B" by auto
    from Cons.IH [OF B(2)] Cons.prems(2) obtain C where C: "foldl ?step (Some B) fs = Some C"
      "dfs_good es u (set V) (set C)" "set B \<subseteq> set C" "\<forall>e \<in> set fs. we_From e = u \<longrightarrow> we_To e \<in> set C" by auto
    have "foldl ?step (Some A) (e # fs) = Some C" using B(1) C(1) by (simp del: option.case)
    with B C show ?case by (intro exI [of _ C]) auto
  qed auto
  have "dfs_good es u (set V) (set (List.insert u V))" by (rule dfs_goodI) auto
  from loop [OF this subset_refl] obtain B where B: "foldl ?step (Some (List.insert u V)) es = Some B"
    "dfs_good es u (set V) (set B)" "\<forall>e \<in> set es. we_From e = u \<longrightarrow> we_To e \<in> set B" by blast
  from B(3) have "y \<in> set B" if "(u, y) \<in> succ_rel es" for y using that by (auto simp: succ_rel_def)
  with B(2) have "dfs_done es u (set V) (set B)" by (simp add: dfs_done_def)
  with B(1) show ?case by simp
qed simp

lemma reachable_nodes_correct:
  "\<exists>A. reachable_nodes g = Some A \<and> set A = (edge_rel g)\<^sup>* `` {wg_EntryNodeID g}"
proof -
  let ?u = "wg_EntryNodeID g" and ?es = "wg_Edges g"
  have "card (unvisited ?es (insert ?u (set []))) \<le> card (we_To ` set ?es)"
    by (rule card_mono) (auto simp: unvisited_def)
  also have "\<dots> \<le> length ?es" using card_image_le [of "set ?es" we_To] card_length [of ?es] by simp
  finally obtain A where A: "reachable_nodes g = Some A" "dfs_done ?es ?u {} (set A)"
    using dfs_total [of ?u "[]" ?es "Suc (length ?es)"] by (auto simp: reachable_nodes_def)
  have rel: "edge_rel g = succ_rel ?es" by (simp add: edge_rel_def edge_pairs_def succ_rel_def)
  note good = dfs_goodD [OF dfs_doneD(1) [OF A(2)]]
  have closed: "y \<in> set A" if "x \<in> set A" "(x, y) \<in> succ_rel ?es" for x y
    using good(4) [OF that(1) _ _ that(2)] dfs_doneD(2) [OF A(2), of y] that(2) by (cases "x = ?u") simp_all
  have "x \<in> set A" if "(?u, x) \<in> (succ_rel ?es)\<^sup>*" for x
    using that by (induction rule: rtrancl_induct) (simp add: good(1), rule closed)
  moreover have "(?u, x) \<in> (succ_rel ?es)\<^sup>*" if "x \<in> set A" for x
    using good(3) [OF that] by simp
  ultimately have "set A = (edge_rel g)\<^sup>* `` {?u}" unfolding rel by blast
  with A(1) show ?thesis by blast
qed

section \<open>Copies and metrics\<close>

lemma copy_fold:
  "wf_map (c @ m) \<Longrightarrow> foldl (\<lambda>c (k, v). mset_at c k (f v)) c m = c @ map (\<lambda>(k, v). (k, f v)) m"
proof (induction m arbitrary: c)
  case (Cons x m)
  obtain k v where x: "x = (k, v)" by fastforce
  have new: "mset_at c k (f v) = c @ [(k, f v)]"
    using Cons.prems unfolding x wf_map_def mset_at_def by (induction c) auto
  have "wf_map ((c @ [(k, f v)]) @ m)" using Cons.prems by (simp add: x wf_map_def)
  from Cons.IH [OF this] show ?case by (simp add: x new)
qed simp

text \<open>A clone holds what the graph holds.\<close>

lemma copy_map_id: "(\<forall>c. m = Some c \<longrightarrow> wf_map c) \<Longrightarrow> copy_map m = m"
  using copy_fold [of "[]" _ id] by (cases m) (auto simp: copy_map_def)

definition run_counts :: "workflow_graph \<Rightarrow> bool" where
  "run_counts g \<longleftrightarrow> 0 \<le> SuccessRuns (wg_Metrics g) \<and> 0 \<le> FailedRuns (wg_Metrics g) \<and>
     TotalRuns (wg_Metrics g) = SuccessRuns (wg_Metrics g) + FailedRuns (wg_Metrics g)"

lemma run_counts_new: "run_counts (NewWorkflowGraph now gid name)"
  by (simp add: run_counts_def NewWorkflowGraph_def)

lemma run_counts_step: "run_counts g \<Longrightarrow> run_counts (wg_step g x)"
  by (induction g x rule: wg_step.induct)
    (auto simp: run_counts_def wg_AddNode_def wg_AddEdge_def wg_RemoveNode_def wg_RecordRun_def Let_def)

lemma run_counts_run: "run_counts g \<Longrightarrow> run_counts (foldl wg_step g ops)"
  by (induction ops arbitrary: g) (simp_all add: run_counts_step)

section \<open>Properties\<close>

text \<open>C1: on every graph the editing operations can build, in whatever order the maps are visited,
  the topological sort ends; it reports a cycle exactly when the graph has one, and otherwise lists
  every node once, each after all the nodes with an edge to it.\<close>

theorem workflow_topological_sort:
  assumes "g = foldl wg_step (NewWorkflowGraph t gid name) ops" "\<And>ks. mset (visit ks) = mset ks"
  shows "case TopologicalSort visit g of
      Inl e \<Rightarrow> e = GraphCycle \<and> \<not> acyclic (edge_rel g)
    | Inr order \<Rightarrow> acyclic (edge_rel g) \<and> distinct order \<and> set order = node_ids g \<and>
        (\<forall>i < length order. \<forall>u. (u, order ! i) \<in> edge_rel g \<longrightarrow> u \<in> set (take i order))"
proof -
  have inv: "wg_inv g" unfolding assms(1) by (rule wg_inv_run [OF wg_inv_new])
  show ?thesis
  proof (cases "wg_Nodes g = []")
    case True
    with inv have "wg_Edges g = []" by (cases "wg_Edges g") (auto simp: wg_inv_def)
    with True show ?thesis by (simp add: TopologicalSort_def edge_rel_def edge_pairs_def node_ids_def acyclic_def)
  next
    case False
    with topological_result [of g visit, OF inv assms(2)] show ?thesis by (simp add: TopologicalSort_def)
  qed
qed

definition demo_node :: "string \<Rightarrow> workflow_node" where
  "demo_node k = \<lparr>wn_ID = k, wn_Name = k, wn_AgentType = ''vlm'', wn_PromptTemplate = [], wn_ToolIDs = [],
     wn_ModelTier = ''fast'', wn_Timeout = second, wn_Config = None\<rparr>"

definition demo_edge :: "string \<Rightarrow> string \<Rightarrow> workflow_edge" where
  "demo_edge a b = \<lparr>we_From = a, we_To = b, we_Condition = [], we_DataMapping = None\<rparr>"

definition demo_ops :: "(time \<times> workflow_op) list" where
  "demo_ops = [(1, OpAddNode (demo_node ''eval'')), (2, OpAddNode (demo_node ''scrape'')),
     (3, OpAddNode (demo_node ''plan'')), (4, OpAddEdge (demo_edge ''plan'' ''scrape'')),
     (5, OpAddEdge (demo_edge ''scrape'' ''eval'')), (6, OpAddEdge (demo_edge ''plan'' ''eval'')),
     (7, OpSetEntry ''plan'')]"

definition demo_graph :: workflow_graph where
  "demo_graph = foldl wg_step (NewWorkflowGraph 0 ''g'' ''demo'') demo_ops"

lemma workflow_topological_sort_witness:
  "TopologicalSort rev demo_graph = Inr [''plan'', ''scrape'', ''eval''] \<and> acyclic (edge_rel demo_graph)"
proof -
  have sort: "TopologicalSort rev demo_graph = Inr [''plan'', ''scrape'', ''eval'']" by code_simp
  show ?thesis using workflow_topological_sort [OF demo_graph_def, of rev] by (simp add: sort)
qed

text \<open>C7: on every graph the operations can build, validation returns (the fuel of the search is
  enough), and it accepts exactly the acyclic graphs whose entry node exists and reaches every
  node.\<close>

theorem workflow_validate:
  assumes "g = foldl wg_step (NewWorkflowGraph t gid name) ops" "\<And>ks. mset (visit ks) = mset ks"
  shows "\<exists>r. wg_Validate visit g = Returned r \<and>
    (r = None \<longleftrightarrow> wg_EntryNodeID g \<in> node_ids g \<and> acyclic (edge_rel g) \<and>
       node_ids g \<subseteq> (edge_rel g)\<^sup>* `` {wg_EntryNodeID g})"
proof -
  have inv: "wg_inv g" unfolding assms(1) by (rule wg_inv_run [OF wg_inv_new])
  obtain A where A: "reachable_nodes g = Some A" "set A = (edge_rel g)\<^sup>* `` {wg_EntryNodeID g}"
    using reachable_nodes_correct by blast
  have entry: "wg_EntryNodeID g \<in> node_ids g \<longleftrightarrow> mget (wg_Nodes g) (wg_EntryNodeID g) \<noteq> None"
    by (simp add: node_ids_def mget_key)
  have guard: "wg_Nodes g \<noteq> [] \<and> wg_EntryNodeID g \<noteq> []" if "mget (wg_Nodes g) (wg_EntryNodeID g) \<noteq> None"
    using that inv by (auto simp: wg_inv_def)
  have ids: "set (visit (map fst (wg_Nodes g))) = node_ids g"
    using mset_eq_setD [OF assms(2) [of "map fst (wg_Nodes g)"]] by (simp add: node_ids_def)
  show ?thesis
  proof (cases "mget (wg_Nodes g) (wg_EntryNodeID g) = None")
    case True
    then show ?thesis using entry by (simp add: wg_Validate_def)
  next
    case False
    note topo = topological_result [of g visit, OF inv assms(2)]
    show ?thesis
    proof (cases "topologicalSortUnlocked visit g")
      case (Inl e)
      with topo False guard show ?thesis by (auto simp: wg_Validate_def)
    next
      case (Inr order)
      have "find (\<lambda>k. k \<notin> set A) (visit (map fst (wg_Nodes g))) = None \<longleftrightarrow> node_ids g \<subseteq> set A"
        using ids by (auto simp: find_None_iff)
      with Inr topo False guard A entry show ?thesis
        by (auto simp: wg_Validate_def split: option.split)
    qed
  qed
qed

lemma workflow_validate_witness:
  "wg_Validate id demo_graph = Returned None \<and>
   (''plan'', ''eval'') \<in> (edge_rel demo_graph)\<^sup>* \<and> (''plan'', ''scrape'') \<in> (edge_rel demo_graph)\<^sup>*"
proof -
  have valid: "wg_Validate id demo_graph = Returned None" by code_simp
  have entry: "wg_EntryNodeID demo_graph = ''plan''" "node_ids demo_graph = {''eval'', ''scrape'', ''plan''}"
    by code_simp+
  show ?thesis using workflow_validate [OF demo_graph_def, of id] by (auto simp: valid entry)
qed

text \<open>however a graph is edited and run, runs are counted once, as a success or as a failure, and
  the success rate is the rounded quotient of the counts (0 without runs).\<close>

theorem workflow_success_rate:
  "let g = foldl wg_step (NewWorkflowGraph t gid name) ops;
       n = length (filter (\<lambda>(_, op). case op of OpRecordRun b _ _ \<Rightarrow> b | _ \<Rightarrow> False) ops);
       m = length (filter (\<lambda>(_, op). case op of OpRecordRun b _ _ \<Rightarrow> True | _ \<Rightarrow> False) ops)
   in wg_SuccessRate g = (if m = 0 then flit 0 else fdiv (f_of_int (int n)) (f_of_int (int m)))"
proof -
  have "SuccessRuns (wg_Metrics (foldl wg_step g ops)) = SuccessRuns (wg_Metrics g) +
      int (length (filter (\<lambda>(_, op). case op of OpRecordRun b _ _ \<Rightarrow> b | _ \<Rightarrow> False) ops)) \<and>
    TotalRuns (wg_Metrics (foldl wg_step g ops)) = TotalRuns (wg_Metrics g) +
      int (length (filter (\<lambda>(_, op). case op of OpRecordRun b _ _ \<Rightarrow> True | _ \<Rightarrow> False) ops))" for g
  proof (induction ops arbitrary: g)
    case (Cons x ops)
    obtain u op where x: "x = (u, op)" by fastforce
    show ?case unfolding x using Cons.IH [of "wg_step g (u, op)"]
      by (cases op) (simp_all add: wg_AddNode_def wg_AddEdge_def wg_RemoveNode_def wg_RecordRun_def Let_def)
  qed simp
  from this [of "NewWorkflowGraph t gid name"] show ?thesis
    by (simp add: wg_SuccessRate_def Let_def NewWorkflowGraph_def)
qed

end
