(* ===== verification/Model_Tier.thy ===== *)
theory Model_Tier
  imports Go_Prelude
begin

text \<open>
  The model tiers of \<open>pkg/uiauto/model_router.go\<close>, ordered as their integer constants are, and the
  policy that walks along them, \<open>pkg/uiauto/model_escalation_policy.go\<close>.
\<close>

section \<open>Tiers\<close>

datatype model_tier = TierLight | TierSmart | TierVLM
  | ModelTierWSLFast | ModelTierWSLSmart | ModelTierWSLPowerful

fun tier_num :: "model_tier \<Rightarrow> nat" where
  "tier_num TierLight = 0"
| "tier_num TierSmart = 1"
| "tier_num TierVLM = 2"
| "tier_num ModelTierWSLFast = 3"
| "tier_num ModelTierWSLSmart = 4"
| "tier_num ModelTierWSLPowerful = 5"

lemma tier_num_inj [simp]: "tier_num t = tier_num u \<longleftrightarrow> t = u"
  by (cases t; cases u) simp_all

instantiation model_tier :: linorder
begin

definition less_eq_model_tier :: "model_tier \<Rightarrow> model_tier \<Rightarrow> bool" where
  "less_eq_model_tier t u = (tier_num t \<le> tier_num u)"

definition less_model_tier :: "model_tier \<Rightarrow> model_tier \<Rightarrow> bool" where
  "less_model_tier t u = (tier_num t < tier_num u)"

instance
  by standard (auto simp: less_eq_model_tier_def less_model_tier_def)

end

fun tier_String :: "model_tier \<Rightarrow> string" where
  "tier_String TierLight = ''light''"
| "tier_String TierSmart = ''smart''"
| "tier_String TierVLM = ''vlm''"
| "tier_String ModelTierWSLFast = ''wsl-fast''"
| "tier_String ModelTierWSLSmart = ''wsl-smart''"
| "tier_String ModelTierWSLPowerful = ''wsl-powerful''"

definition IsWSLTier :: "model_tier \<Rightarrow> bool" where
  "IsWSLTier t = (t = ModelTierWSLFast \<or> t = ModelTierWSLSmart \<or> t = ModelTierWSLPowerful)"

fun ToWSLTier :: "model_tier \<Rightarrow> model_tier" where
  "ToWSLTier TierLight = ModelTierWSLFast"
| "ToWSLTier TierSmart = ModelTierWSLSmart"
| "ToWSLTier TierVLM = ModelTierWSLPowerful"
| "ToWSLTier t = t"

text \<open>\<open>currentTier--\<close> and \<open>currentTier++\<close>, on the tiers between light and VLM.\<close>

fun tier_dec :: "model_tier \<Rightarrow> model_tier" where
  "tier_dec TierSmart = TierLight"
| "tier_dec TierVLM = TierSmart"
| "tier_dec ModelTierWSLFast = TierVLM"
| "tier_dec ModelTierWSLSmart = ModelTierWSLFast"
| "tier_dec ModelTierWSLPowerful = ModelTierWSLSmart"
| "tier_dec TierLight = TierLight"

fun tier_inc :: "model_tier \<Rightarrow> model_tier" where
  "tier_inc TierLight = TierSmart"
| "tier_inc TierSmart = TierVLM"
| "tier_inc TierVLM = ModelTierWSLFast"
| "tier_inc ModelTierWSLFast = ModelTierWSLSmart"
| "tier_inc ModelTierWSLSmart = ModelTierWSLPowerful"
| "tier_inc ModelTierWSLPowerful = ModelTierWSLPowerful"

lemma tier_step_num:
  "TierLight < t \<Longrightarrow> Suc (tier_num (tier_dec t)) = tier_num t"
  "t < ModelTierWSLPowerful \<Longrightarrow> tier_num (tier_inc t) = Suc (tier_num t)"
  by (cases t; simp add: less_model_tier_def)+

lemma WSL_tier: "IsWSLTier (ToWSLTier t) \<and> ToWSLTier (ToWSLTier t) = ToWSLTier t"
  by (cases t) (simp_all add: IsWSLTier_def)

section \<open>The escalation policy\<close>

record escalation_condition =
  ec_ConsecutiveFailures :: int
  ec_SuccessRateBelow :: f64
  ec_MinAttempts :: int

record escalation_policy =
  TierOrder :: "model_tier list"
  EscalateConditions :: "(model_tier, escalation_condition) gomap"
  DemoteConditions :: "(model_tier, escalation_condition) gomap"
  CooldownAfterTrip :: duration
  MaxEscalations :: int

definition DefaultEscalationPolicy :: escalation_policy where
  "DefaultEscalationPolicy =
     \<lparr>TierOrder = [TierLight, TierSmart, TierVLM],
      EscalateConditions =
        [(TierLight, \<lparr>ec_ConsecutiveFailures = 3, ec_SuccessRateBelow = flit (1 / 2), ec_MinAttempts = 5\<rparr>),
         (TierSmart, \<lparr>ec_ConsecutiveFailures = 2, ec_SuccessRateBelow = flit 0, ec_MinAttempts = 0\<rparr>)],
      DemoteConditions =
        [(TierSmart, \<lparr>ec_ConsecutiveFailures = 0, ec_SuccessRateBelow = flit 0, ec_MinAttempts = 3\<rparr>),
         (TierVLM, \<lparr>ec_ConsecutiveFailures = 0, ec_SuccessRateBelow = flit 0, ec_MinAttempts = 3\<rparr>)],
      CooldownAfterTrip = 60 * second, MaxEscalations = 10\<rparr>"

fun next_tier :: "model_tier list \<Rightarrow> model_tier \<Rightarrow> model_tier \<times> bool" where
  "next_tier (t # u # ts) current = (if t = current then (u, True) else next_tier (u # ts) current)"
| "next_tier ts current = (current, False)"

fun prev_tier :: "model_tier list \<Rightarrow> model_tier \<Rightarrow> model_tier \<times> bool" where
  "prev_tier (t # u # ts) current = (if u = current then (t, True) else prev_tier (u # ts) current)"
| "prev_tier ts current = (current, False)"

definition NextTier :: "escalation_policy \<Rightarrow> model_tier \<Rightarrow> model_tier \<times> bool" where
  "NextTier p current = next_tier (TierOrder p) current"

definition PrevTier :: "escalation_policy \<Rightarrow> model_tier \<Rightarrow> model_tier \<times> bool" where
  "PrevTier p current = prev_tier (TierOrder p) current"

definition ShouldEscalate :: "escalation_policy \<Rightarrow> model_tier \<Rightarrow> int \<Rightarrow> f64 \<Rightarrow> int \<Rightarrow> bool" where
  "ShouldEscalate p tier consecutiveFailures successRate totalAttempts =
     (case mget (EscalateConditions p) tier of
        None \<Rightarrow> False
      | Some cond \<Rightarrow>
          (if 0 < ec_ConsecutiveFailures cond \<and> ec_ConsecutiveFailures cond \<le> consecutiveFailures then True
           else flt (flit 0) (ec_SuccessRateBelow cond) \<and> ec_MinAttempts cond \<le> totalAttempts \<and>
             flt successRate (ec_SuccessRateBelow cond)))"

definition ShouldDemote :: "escalation_policy \<Rightarrow> model_tier \<Rightarrow> int \<Rightarrow> f64 \<Rightarrow> bool" where
  "ShouldDemote p tier totalAttempts successRate =
     (case mget (DemoteConditions p) tier of
        None \<Rightarrow> False
      | Some cond \<Rightarrow> ec_MinAttempts cond \<le> totalAttempts \<and> fle (flit (9 / 10)) successRate)"

text \<open>Escalating and demoting are inverse to each other along an order without repetitions.\<close>

lemma next_tier_nth:
  "distinct ts \<Longrightarrow> i < length ts \<Longrightarrow>
   next_tier ts (ts ! i) = (if Suc i < length ts then (ts ! Suc i, True) else (ts ! i, False))"
proof (induction ts "ts ! i" arbitrary: i rule: next_tier.induct)
  case (1 t u ts)
  then show ?case by (cases i) (auto simp: nth_Cons split: nat.splits)
qed (auto simp: less_Suc_eq)

lemma prev_tier_nth:
  "distinct ts \<Longrightarrow> i < length ts \<Longrightarrow>
   prev_tier ts (ts ! i) = (if i = 0 then (ts ! i, False) else (ts ! (i - 1), True))"
proof (induction ts "ts ! i" arbitrary: i rule: prev_tier.induct)
  case (1 t u ts)
  show ?case
  proof (cases i)
    case 0
    with 1(2) have "t \<noteq> u" "t \<notin> set (u # ts)" by auto
    have "prev_tier (u # ts) t = (t, False)" if "t \<notin> set (u # ts)" for t u ts
      using that by (induction "u # ts" t arbitrary: u ts rule: prev_tier.induct) auto
    with \<open>t \<noteq> u\<close> \<open>t \<notin> set (u # ts)\<close> 0 show ?thesis by simp
  next
    case (Suc j)
    show ?thesis
    proof (cases j)
      case 0
      with Suc show ?thesis by simp
    next
      case (Suc k)
      have "(u # ts) ! j \<noteq> u" using 1(2,3) \<open>i = Suc j\<close> Suc by (auto simp: nth_eq_iff_index_eq)
      with 1(1) [of j] 1(2,3) \<open>i = Suc j\<close> Suc show ?thesis by simp
    qed
  qed
qed (auto simp: less_Suc_eq)

end
