(* ===== verification/Maturity.thy ===== *)
theory Maturity
  imports Model_Tier
begin

text \<open>
  \<open>pkg/uiauto/pattern_maturity_tracker.go\<close>: the maturity of each pattern. Listeners are numbered
  in the order of registration; what they are called with is logged in the state.
\<close>

section \<open>State and operations\<close>

datatype maturity_level = MaturityNew | MaturityTesting | MaturityStable | MaturityTrusted | MaturityDegraded

fun maturity_String :: "maturity_level \<Rightarrow> string" where
  "maturity_String MaturityNew = ''new''"
| "maturity_String MaturityTesting = ''testing''"
| "maturity_String MaturityStable = ''stable''"
| "maturity_String MaturityTrusted = ''trusted''"
| "maturity_String MaturityDegraded = ''degraded''"

record maturity_config =
  TestingSuccesses :: int
  StableSuccesses :: int
  TrustedSuccesses :: int
  DegradedFailures :: int
  RecoveryWindow :: duration

definition DefaultMaturityConfig :: maturity_config where
  "DefaultMaturityConfig = \<lparr>TestingSuccesses = 2, StableSuccesses = 5, TrustedSuccesses = 15,
     DegradedFailures = 3, RecoveryWindow = 10 * minute\<rparr>"

record pattern_maturity =
  pm_PatternID :: string
  pm_Level :: maturity_level
  pm_TotalSuccesses :: int
  pm_TotalFailures :: int
  pm_ConsecutiveFailures :: int
  pm_ConsecutiveSuccesses :: int
  pm_LastUsed :: time
  pm_CreatedAt :: time

definition pm_SuccessRate :: "pattern_maturity \<Rightarrow> f64" where
  "pm_SuccessRate pm =
     (let total = pm_TotalSuccesses pm + pm_TotalFailures pm in
      if total = 0 then flit 0 else fdiv (f_of_int (pm_TotalSuccesses pm)) (f_of_int total))"

record maturity_event =
  me_PatternID :: string
  me_From :: maturity_level
  me_To :: maturity_level
  me_Reason :: string
  me_Timestamp :: time

record maturity_tracker =
  mt_patterns :: "(string, pattern_maturity) gomap"
  mt_config :: maturity_config
  mt_listeners :: nat
  mt_calls :: "(nat \<times> maturity_event) list"

definition NewPatternMaturityTracker :: "maturity_config \<Rightarrow> maturity_tracker" where
  "NewPatternMaturityTracker cfg = \<lparr>mt_patterns = [], mt_config = cfg, mt_listeners = 0, mt_calls = []\<rparr>"

definition OnChange :: "maturity_tracker \<Rightarrow> maturity_tracker" where
  "OnChange t = t\<lparr>mt_listeners := mt_listeners t + 1\<rparr>"

definition emit :: "maturity_event \<Rightarrow> maturity_tracker \<Rightarrow> maturity_tracker" where
  "emit evt t = t\<lparr>mt_calls := mt_calls t @ map (\<lambda>l. (l, evt)) [0..<mt_listeners t]\<rparr>"

definition new_maturity :: "time \<Rightarrow> string \<Rightarrow> pattern_maturity" where
  "new_maturity now k = \<lparr>pm_PatternID = k, pm_Level = MaturityNew, pm_TotalSuccesses = 0, pm_TotalFailures = 0,
     pm_ConsecutiveFailures = 0, pm_ConsecutiveSuccesses = 0, pm_LastUsed = 0, pm_CreatedAt = now\<rparr>"

definition getOrCreate :: "time \<Rightarrow> string \<Rightarrow> maturity_tracker \<Rightarrow> pattern_maturity" where
  "getOrCreate now k t = (case mget (mt_patterns t) k of Some pm \<Rightarrow> pm | None \<Rightarrow> new_maturity now k)"

definition promoted :: "maturity_config \<Rightarrow> pattern_maturity \<Rightarrow> maturity_level" where
  "promoted cfg pm =
     (case pm_Level pm of
        MaturityNew \<Rightarrow> if TestingSuccesses cfg \<le> pm_TotalSuccesses pm then MaturityTesting else MaturityNew
      | MaturityTesting \<Rightarrow> if StableSuccesses cfg \<le> pm_TotalSuccesses pm then MaturityStable else MaturityTesting
      | MaturityStable \<Rightarrow> if TrustedSuccesses cfg \<le> pm_TotalSuccesses pm then MaturityTrusted else MaturityStable
      | MaturityDegraded \<Rightarrow>
          if TestingSuccesses cfg \<le> pm_ConsecutiveSuccesses pm then MaturityTesting else MaturityDegraded
      | MaturityTrusted \<Rightarrow> MaturityTrusted)"

definition maybePromote :: "maturity_config \<Rightarrow> pattern_maturity \<Rightarrow> pattern_maturity" where
  "maybePromote cfg pm = pm\<lparr>pm_Level := promoted cfg pm\<rparr>"

text \<open>Storing the changed record and telling the listeners, when the level has changed.\<close>

definition settle :: "time \<Rightarrow> string \<Rightarrow> string \<Rightarrow> maturity_level \<Rightarrow> pattern_maturity \<Rightarrow> maturity_tracker \<Rightarrow>
    maturity_tracker" where
  "settle now k reason old pm t =
     (let t = t\<lparr>mt_patterns := mset_at (mt_patterns t) k pm\<rparr> in
      if pm_Level pm \<noteq> old
      then emit \<lparr>me_PatternID = k, me_From = old, me_To = pm_Level pm, me_Reason = reason, me_Timestamp = now\<rparr> t
      else t)"

definition success_use :: "maturity_config \<Rightarrow> time \<Rightarrow> pattern_maturity \<Rightarrow> pattern_maturity" where
  "success_use cfg now pm =
     maybePromote cfg (pm\<lparr>pm_TotalSuccesses := pm_TotalSuccesses pm + 1,
       pm_ConsecutiveSuccesses := pm_ConsecutiveSuccesses pm + 1, pm_ConsecutiveFailures := 0, pm_LastUsed := now\<rparr>)"

definition failure_use :: "maturity_config \<Rightarrow> time \<Rightarrow> pattern_maturity \<Rightarrow> pattern_maturity" where
  "failure_use cfg now pm =
     (let pm = pm\<lparr>pm_TotalFailures := pm_TotalFailures pm + 1,
            pm_ConsecutiveFailures := pm_ConsecutiveFailures pm + 1, pm_ConsecutiveSuccesses := 0, pm_LastUsed := now\<rparr> in
      if DegradedFailures cfg \<le> pm_ConsecutiveFailures pm \<and> pm_Level pm \<noteq> MaturityDegraded
      then pm\<lparr>pm_Level := MaturityDegraded\<rparr> else pm)"

definition mt_RecordSuccess :: "time \<Rightarrow> string \<Rightarrow> maturity_tracker \<Rightarrow> maturity_tracker" where
  "mt_RecordSuccess now k t =
     (let pm = getOrCreate now k t in
      settle now k ''promotion_on_success'' (pm_Level pm) (success_use (mt_config t) now pm) t)"

definition mt_RecordFailure :: "time \<Rightarrow> string \<Rightarrow> maturity_tracker \<Rightarrow> maturity_tracker" where
  "mt_RecordFailure now k t =
     (let pm = getOrCreate now k t in
      settle now k ''degradation_on_failures'' (pm_Level pm) (failure_use (mt_config t) now pm) t)"

definition GetMaturity :: "maturity_tracker \<Rightarrow> string \<Rightarrow> pattern_maturity option" where
  "GetMaturity t k = mget (mt_patterns t) k"

definition SuggestTier :: "maturity_tracker \<Rightarrow> string \<Rightarrow> model_tier" where
  "SuggestTier t k =
     (case mget (mt_patterns t) k of
        None \<Rightarrow> TierSmart
      | Some pm \<Rightarrow>
          (case pm_Level pm of
             MaturityTrusted \<Rightarrow> TierLight
           | MaturityStable \<Rightarrow> TierLight
           | MaturityTesting \<Rightarrow> TierSmart
           | MaturityDegraded \<Rightarrow> TierVLM
           | MaturityNew \<Rightarrow> TierSmart))"

section \<open>One pattern among many\<close>

text \<open>A use of a pattern: the instant, the pattern and whether it succeeded.\<close>

type_synonym pattern_use = "time \<times> string \<times> bool"

fun mt_step :: "maturity_tracker \<Rightarrow> pattern_use \<Rightarrow> maturity_tracker" where
  "mt_step t (now, k, ok) = (if ok then mt_RecordSuccess now k t else mt_RecordFailure now k t)"

definition use_one :: "maturity_config \<Rightarrow> pattern_maturity option \<Rightarrow> pattern_use \<Rightarrow> pattern_maturity option" where
  "use_one cfg p u = (case u of (now, k, ok) \<Rightarrow>
     let pm = (case p of Some pm \<Rightarrow> pm | None \<Rightarrow> new_maturity now k) in
     Some (if ok then success_use cfg now pm else failure_use cfg now pm))"

lemma use_one_at:
  "use_one cfg p (now, k, ok) =
     (let pm = (case p of Some pm \<Rightarrow> pm | None \<Rightarrow> new_maturity now k) in
      Some (if ok then success_use cfg now pm else failure_use cfg now pm))"
  by (simp add: use_one_def)

lemma mt_step_config [simp]: "mt_config (mt_step t u) = mt_config t"
  by (cases u) (auto simp: mt_RecordSuccess_def mt_RecordFailure_def settle_def emit_def Let_def)

lemma mt_step_get:
  "mget (mt_patterns (mt_step t u)) j =
     (if fst (snd u) = j then use_one (mt_config t) (mget (mt_patterns t) j) u else mget (mt_patterns t) j)"
  by (cases u) (auto simp: mt_RecordSuccess_def mt_RecordFailure_def settle_def emit_def Let_def use_one_def
      getOrCreate_def split: option.split)

text \<open>The uses of other patterns do not touch a pattern.\<close>

lemma mt_run_get:
  "mget (mt_patterns (foldl mt_step t us)) k =
   foldl (use_one (mt_config t)) (mget (mt_patterns t) k) (filter (\<lambda>u. fst (snd u) = k) us)"
  by (induction us arbitrary: t) (simp_all add: mt_step_get)

definition level_for :: "maturity_config \<Rightarrow> int \<Rightarrow> maturity_level" where
  "level_for cfg n =
     (if n < TestingSuccesses cfg then MaturityNew else if n < StableSuccesses cfg then MaturityTesting
      else if n < TrustedSuccesses cfg then MaturityStable else MaturityTrusted)"

definition ordered_config :: "maturity_config \<Rightarrow> bool" where
  "ordered_config cfg \<longleftrightarrow> 0 < TestingSuccesses cfg \<and> TestingSuccesses cfg < StableSuccesses cfg \<and>
     StableSuccesses cfg < TrustedSuccesses cfg"

text \<open>Successes alone climb the levels one threshold after another.\<close>

lemma success_level:
  assumes "ordered_config cfg" "pm_Level pm = level_for cfg (pm_TotalSuccesses pm)"
  shows "pm_Level (success_use cfg now pm) = level_for cfg (pm_TotalSuccesses pm + 1)"
  using assms by (auto simp: success_use_def maybePromote_def promoted_def level_for_def ordered_config_def)

lemma success_total [simp]: "pm_TotalSuccesses (success_use cfg now pm) = pm_TotalSuccesses pm + 1"
  by (simp add: success_use_def maybePromote_def)

lemma success_run:
  assumes "ordered_config cfg" "\<forall>u \<in> set us. snd (snd u)" "us \<noteq> []"
  shows "\<exists>pm. foldl (use_one cfg) None us = Some pm \<and> pm_TotalSuccesses pm = int (length us) \<and>
    pm_Level pm = level_for cfg (int (length us))"
  using assms(2,3)
proof (induction us rule: rev_induct)
  case (snoc u us)
  obtain now k where u: "u = (now, k, True)" using snoc.prems(1) by (cases u) auto
  show ?case
  proof (cases "us = []")
    case True
    have "level_for cfg 0 = MaturityNew" using assms(1) by (simp add: level_for_def ordered_config_def)
    then show ?thesis using True success_level [OF assms(1), of "new_maturity now k" now]
      by (simp add: u use_one_at new_maturity_def)
  next
    case False
    with snoc obtain pm where pm: "foldl (use_one cfg) None us = Some pm" "pm_TotalSuccesses pm = int (length us)"
      "pm_Level pm = level_for cfg (int (length us))" by auto
    then show ?thesis using success_level [OF assms(1), of pm now]
      by (simp add: u use_one_at add.commute)
  qed
qed simp

text \<open>Failures in a row: the level is kept until the limit is reached, and then it is degraded.\<close>

lemma failure_run:
  assumes "\<forall>u \<in> set us. \<not> snd (snd u)" "pm_Level pm \<noteq> MaturityDegraded" "pm_ConsecutiveFailures pm < DegradedFailures cfg"
  shows "\<exists>pm'. foldl (use_one cfg) (Some pm) us = Some pm' \<and>
    pm_ConsecutiveFailures pm' = pm_ConsecutiveFailures pm + int (length us) \<and>
    pm_Level pm' = (if DegradedFailures cfg \<le> pm_ConsecutiveFailures pm + int (length us)
      then MaturityDegraded else pm_Level pm)"
  using assms(1)
proof (induction us rule: rev_induct)
  case Nil
  then show ?case using assms(3) by simp
next
  case (snoc u us)
  then obtain now k where u: "u = (now, k, False)" by (cases u) auto
  from snoc obtain pm' where pm': "foldl (use_one cfg) (Some pm) us = Some pm'"
    "pm_ConsecutiveFailures pm' = pm_ConsecutiveFailures pm + int (length us)"
    "pm_Level pm' = (if DegradedFailures cfg \<le> pm_ConsecutiveFailures pm + int (length us)
      then MaturityDegraded else pm_Level pm)" by auto
  then show ?case using assms(2) by (auto simp: u use_one_at failure_use_def Let_def)
qed

section \<open>Properties\<close>

text \<open>a pattern that has only succeeded stands at the level its number of successes buys, whatever
  happens to other patterns in between, as long as the thresholds are increasing.\<close>

theorem maturity_by_successes:
  assumes "ordered_config cfg" "\<forall>u \<in> set us. fst (snd u) = k \<longrightarrow> snd (snd u)"
    "n = length (filter (\<lambda>u. fst (snd u) = k) us)" "0 < n"
  shows "map_option pm_Level (GetMaturity (foldl mt_step (NewPatternMaturityTracker cfg) us) k) =
    Some (level_for cfg (int n))"
proof -
  let ?us = "filter (\<lambda>u. fst (snd u) = k) us"
  have "?us \<noteq> []" "\<forall>u \<in> set ?us. snd (snd u)" using assms(2-4) by auto
  from success_run [OF assms(1) this(2,1)] assms(3) show ?thesis
    by (auto simp: GetMaturity_def mt_run_get NewPatternMaturityTracker_def)
qed

lemma maturity_by_successes_witness:
  "map_option pm_Level (GetMaturity (foldl mt_step (NewPatternMaturityTracker DefaultMaturityConfig)
     [(1, ''login'', True), (2, ''cart'', False), (3, ''login'', True)]) ''login'') = Some MaturityTesting"
  by (subst maturity_by_successes [where n = 2])
    (simp_all add: ordered_config_def DefaultMaturityConfig_def level_for_def)

text \<open>a run of failures degrades a pattern that is not degraded exactly when it reaches
  \<open>DegradedFailures\<close>, and the suggested tier is then the VLM; a shorter run leaves the level alone.\<close>

theorem maturity_degrades:
  assumes "mget (mt_patterns t) k = Some pm" "pm_Level pm \<noteq> MaturityDegraded"
    "pm_ConsecutiveFailures pm = 0" "0 < DegradedFailures (mt_config t)"
    "\<forall>u \<in> set us. fst (snd u) = k \<longrightarrow> \<not> snd (snd u)"
    "n = length (filter (\<lambda>u. fst (snd u) = k) us)"
  shows "(DegradedFailures (mt_config t) \<le> int n \<longrightarrow> SuggestTier (foldl mt_step t us) k = TierVLM) \<and>
    (int n < DegradedFailures (mt_config t) \<longrightarrow> SuggestTier (foldl mt_step t us) k = SuggestTier t k)"
proof -
  let ?us = "filter (\<lambda>u. fst (snd u) = k) us"
  have "\<forall>u \<in> set ?us. \<not> snd (snd u)" using assms(5) by auto
  from failure_run [OF this assms(2), of "mt_config t"] assms(3,4,6) obtain pm' where
    "foldl (use_one (mt_config t)) (Some pm) ?us = Some pm'"
    "pm_Level pm' = (if DegradedFailures (mt_config t) \<le> int n then MaturityDegraded else pm_Level pm)" by auto
  then show ?thesis using assms(1) by (simp add: SuggestTier_def mt_run_get)
qed

definition trusted_login :: pattern_maturity where
  "trusted_login = (new_maturity 0 ''login'')\<lparr>pm_Level := MaturityTrusted, pm_TotalSuccesses := 15\<rparr>"

lemma maturity_degrades_witness:
  "SuggestTier (foldl mt_step ((NewPatternMaturityTracker DefaultMaturityConfig)
      \<lparr>mt_patterns := [(''login'', trusted_login)]\<rparr>)
     [(1, ''login'', False), (2, ''login'', False), (3, ''login'', False)]) ''login'' = TierVLM"
  using maturity_degrades [of "(NewPatternMaturityTracker DefaultMaturityConfig)\<lparr>mt_patterns := [(''login'', trusted_login)]\<rparr>"
      "''login''" trusted_login "[(1, ''login'', False), (2, ''login'', False), (3, ''login'', False)]" 3]
  by (simp add: mget_def trusted_login_def new_maturity_def NewPatternMaturityTracker_def DefaultMaturityConfig_def
      del: mt_step.simps)

end
