(* ===== verification/Phase_Tracker.thy ===== *)
theory Phase_Tracker
  imports Model_Tier
begin

text \<open>
  The phase state machine and the convergence counter of \<open>pkg/uiauto/model_router.go\<close>. The
  relation \<open>phase_step\<close> says which phases may follow each other; the tracker's history is shown to
  be a path of it.
\<close>

section \<open>Convergence\<close>

record convergence_state =
  consecutiveHits :: int
  converged :: bool
  conv_threshold :: int

definition newConvergenceState :: "int \<Rightarrow> convergence_state" where
  "newConvergenceState threshold =
     \<lparr>consecutiveHits = 0, converged = False, conv_threshold = (if threshold \<le> 0 then 5 else threshold)\<rparr>"

definition RecordHit :: "convergence_state \<Rightarrow> convergence_state" where
  "RecordHit c =
     (let c = c\<lparr>consecutiveHits := consecutiveHits c + 1\<rparr> in
      if conv_threshold c \<le> consecutiveHits c then c\<lparr>converged := True\<rparr> else c)"

definition RecordMiss :: "convergence_state \<Rightarrow> convergence_state" where
  "RecordMiss c = c\<lparr>consecutiveHits := 0, converged := False\<rparr>"

definition IsConverged :: "convergence_state \<Rightarrow> bool" where
  "IsConverged c = converged c"

definition conv_step :: "convergence_state \<Rightarrow> bool \<Rightarrow> convergence_state" where
  "conv_step c hit = (if hit then RecordHit c else RecordMiss c)"

lemma conv_run:
  assumes "0 < conv_threshold c" "consecutiveHits c = 0" "\<not> converged c"
  shows "consecutiveHits (foldl conv_step c hs) = int (length (takeWhile id (rev hs))) \<and>
    conv_threshold (foldl conv_step c hs) = conv_threshold c \<and>
    (converged (foldl conv_step c hs) \<longleftrightarrow> conv_threshold c \<le> int (length (takeWhile id (rev hs))))"
  using assms
  by (induction hs rule: rev_induct) (auto simp: conv_step_def RecordHit_def RecordMiss_def Let_def)

section \<open>Phases\<close>

datatype pattern_phase = PhaseDiscovery | PhaseCruise | PhaseEscalation

fun phase_String :: "pattern_phase \<Rightarrow> string" where
  "phase_String PhaseDiscovery = ''discovery''"
| "phase_String PhaseCruise = ''cruise''"
| "phase_String PhaseEscalation = ''escalation''"

record phase_transition =
  ph_From :: pattern_phase
  ph_To :: pattern_phase
  ph_Reason :: string
  ph_Timestamp :: time

record phase_stats =
  PhaseDurations :: "(pattern_phase, duration) gomap"
  TransitionCount :: int
  DiscoveryEntries :: int
  StableEntries :: int
  EscalationCount :: int

record phase_tracker =
  currentPhase :: pattern_phase
  phaseHistory :: "phase_transition list"
  phaseEnteredAt :: "(pattern_phase, time) gomap"
  discoveryThreshold :: int
  cruiseThreshold :: int
  escalationTrigger :: int
  consecutiveSmart :: int
  consecutiveLightFail :: int
  consecutiveLightOk :: int
  lastLightFailed :: bool
  discoveryEntries :: int
  stableEntries :: int
  escalationCount :: int

definition NewPhaseTracker :: "int \<Rightarrow> int \<Rightarrow> int \<Rightarrow> phase_tracker" where
  "NewPhaseTracker d c e =
     \<lparr>currentPhase = PhaseDiscovery, phaseHistory = [], phaseEnteredAt = [],
      discoveryThreshold = (if d \<le> 0 then 3 else d), cruiseThreshold = (if c \<le> 0 then 5 else c),
      escalationTrigger = (if e \<le> 0 then 3 else e), consecutiveSmart = 0, consecutiveLightFail = 0,
      consecutiveLightOk = 0, lastLightFailed = False, discoveryEntries = 0, stableEntries = 0,
      escalationCount = 0\<rparr>"

definition phase_change :: "time \<Rightarrow> pattern_phase \<Rightarrow> string \<Rightarrow> phase_tracker \<Rightarrow> phase_tracker" where
  "phase_change now to reason pt =
     (let pt = pt\<lparr>phaseHistory := phaseHistory pt @
                [\<lparr>ph_From = currentPhase pt, ph_To = to, ph_Reason = reason, ph_Timestamp = now\<rparr>],
            currentPhase := to, phaseEnteredAt := mset_at (phaseEnteredAt pt) to now\<rparr> in
      case to of
        PhaseDiscovery \<Rightarrow> pt\<lparr>discoveryEntries := discoveryEntries pt + 1\<rparr>
      | PhaseCruise \<Rightarrow> pt\<lparr>stableEntries := stableEntries pt + 1\<rparr>
      | PhaseEscalation \<Rightarrow> pt\<lparr>escalationCount := escalationCount pt + 1\<rparr>)"

definition pt_RecordSuccess :: "time \<Rightarrow> model_tier \<Rightarrow> phase_tracker \<Rightarrow> phase_tracker" where
  "pt_RecordSuccess now tier pt =
     (if tier = TierLight then
        pt\<lparr>consecutiveLightFail := 0, consecutiveLightOk := consecutiveLightOk pt + 1, lastLightFailed := False\<rparr>
      else if tier = TierSmart \<or> tier = TierVLM then
        (let pt = pt\<lparr>consecutiveLightFail := 0, consecutiveLightOk := 0\<rparr> in
         if currentPhase pt = PhaseEscalation then
           (phase_change now PhaseDiscovery ''smart_or_vlm_success_after_escalation'' pt)\<lparr>consecutiveSmart := 0\<rparr>
         else if currentPhase pt = PhaseCruise \<and> lastLightFailed pt then
           (phase_change now PhaseDiscovery ''smart_success_after_light_failure_relearning'' pt)\<lparr>consecutiveSmart := 0\<rparr>
         else if tier = TierSmart then
           (let pt = pt\<lparr>consecutiveSmart := consecutiveSmart pt + 1, lastLightFailed := False\<rparr> in
            if currentPhase pt = PhaseDiscovery \<and> discoveryThreshold pt \<le> consecutiveSmart pt
            then phase_change now PhaseCruise ''discovery_threshold_smart_successes'' pt else pt)
         else pt)
      else pt)"

definition pt_RecordFailure :: "time \<Rightarrow> model_tier \<Rightarrow> phase_tracker \<Rightarrow> phase_tracker" where
  "pt_RecordFailure now tier pt =
     (if tier = TierLight then
        (let pt = pt\<lparr>consecutiveLightFail := consecutiveLightFail pt + 1, consecutiveLightOk := 0,
               consecutiveSmart := 0, lastLightFailed := True\<rparr> in
         if currentPhase pt = PhaseCruise \<and> escalationTrigger pt \<le> consecutiveLightFail pt
         then phase_change now PhaseEscalation ''cruise_light_failures_escalation'' pt else pt)
      else if tier = TierSmart \<or> tier = TierVLM then
        pt\<lparr>consecutiveSmart := 0, consecutiveLightFail := consecutiveLightFail pt + 1, lastLightFailed := True\<rparr>
      else pt)"

definition pt_Stats :: "time \<Rightarrow> phase_tracker \<Rightarrow> phase_stats" where
  "pt_Stats now pt =
     (let durations = map (\<lambda>(p, entered). (p, time_sub now entered)) (phaseEnteredAt pt);
          durations = (if phaseHistory pt = [] then durations
            else mset_at durations (currentPhase pt) (time_sub now (ph_Timestamp (last (phaseHistory pt)))))
      in \<lparr>PhaseDurations = durations, TransitionCount = int (length (phaseHistory pt)),
          DiscoveryEntries = discoveryEntries pt, StableEntries = stableEntries pt,
          EscalationCount = escalationCount pt\<rparr>)"

section \<open>The state machine\<close>

inductive phase_step :: "pattern_phase \<Rightarrow> pattern_phase \<Rightarrow> bool" where
  learned: "phase_step PhaseDiscovery PhaseCruise"
| relearn: "phase_step PhaseCruise PhaseDiscovery"
| escalate: "phase_step PhaseCruise PhaseEscalation"
| recovered: "phase_step PhaseEscalation PhaseDiscovery"

code_pred phase_step .

inductive_simps phase_step_to [simp]: "phase_step p PhaseDiscovery" "phase_step p PhaseCruise" "phase_step p PhaseEscalation"
inductive_cases escalation_from: "phase_step p PhaseEscalation"

text \<open>\<open>phase_path p ts q\<close>: the transitions \<open>ts\<close>, each a step and each from where the one before ended.\<close>

inductive phase_path :: "pattern_phase \<Rightarrow> phase_transition list \<Rightarrow> pattern_phase \<Rightarrow> bool" where
  start: "phase_path p [] p"
| move: "phase_path p ts q \<Longrightarrow> ph_From t = q \<Longrightarrow> phase_step q (ph_To t) \<Longrightarrow> phase_path p (ts @ [t]) (ph_To t)"

lemma phase_path_last: "phase_path p ts q \<Longrightarrow> q = (if ts = [] then p else ph_To (last ts))"
  by (induction rule: phase_path.induct) simp_all

text \<open>The invariant of a tracker: its history is a path from discovery, and the counters count it.\<close>

definition entries :: "pattern_phase \<Rightarrow> phase_transition list \<Rightarrow> int" where
  "entries p ts = int (length (filter (\<lambda>t. ph_To t = p) ts))"

definition pt_ok :: "phase_tracker \<Rightarrow> bool" where
  "pt_ok pt \<longleftrightarrow> phase_path PhaseDiscovery (phaseHistory pt) (currentPhase pt) \<and>
     discoveryEntries pt = entries PhaseDiscovery (phaseHistory pt) \<and>
     stableEntries pt = entries PhaseCruise (phaseHistory pt) \<and>
     escalationCount pt = entries PhaseEscalation (phaseHistory pt)"

lemma pt_ok_change: "pt_ok pt \<Longrightarrow> phase_step (currentPhase pt) to \<Longrightarrow> pt_ok (phase_change now to reason pt)"
  by (cases to) (auto simp: pt_ok_def phase_change_def Let_def entries_def intro: phase_path.move
      [where t = "\<lparr>ph_From = f, ph_To = g, ph_Reason = r, ph_Timestamp = n\<rparr>" for f g r n, simplified])

lemma pt_ok_counters [simp]:
  "pt_ok (pt\<lparr>consecutiveLightFail := a\<rparr>) = pt_ok pt" "pt_ok (pt\<lparr>consecutiveLightOk := a\<rparr>) = pt_ok pt"
  "pt_ok (pt\<lparr>consecutiveSmart := a\<rparr>) = pt_ok pt" "pt_ok (pt\<lparr>lastLightFailed := b\<rparr>) = pt_ok pt"
  by (simp_all add: pt_ok_def)

lemma pt_ok_success: "pt_ok pt \<Longrightarrow> pt_ok (pt_RecordSuccess now tier pt)"
  by (auto simp: pt_RecordSuccess_def Let_def intro!: pt_ok_change)

lemma pt_ok_failure: "pt_ok pt \<Longrightarrow> pt_ok (pt_RecordFailure now tier pt)"
  by (auto simp: pt_RecordFailure_def Let_def intro!: pt_ok_change)

lemma pt_ok_new: "pt_ok (NewPhaseTracker d c e)"
  by (simp add: pt_ok_def NewPhaseTracker_def entries_def phase_path.start)

text \<open>A recorded outcome: the instant, the tier and whether it succeeded.\<close>

fun pt_call :: "phase_tracker \<Rightarrow> time \<times> model_tier \<times> bool \<Rightarrow> phase_tracker" where
  "pt_call pt (now, tier, ok) = (if ok then pt_RecordSuccess now tier pt else pt_RecordFailure now tier pt)"

lemma pt_ok_run: "pt_ok pt \<Longrightarrow> pt_ok (foldl pt_call pt cs)"
  by (induction cs arbitrary: pt) (auto simp: pt_ok_success pt_ok_failure)

lemma smart_run:
  assumes "currentPhase pt = PhaseDiscovery" "0 \<le> consecutiveSmart pt" "consecutiveSmart pt < discoveryThreshold pt"
    "\<not> lastLightFailed pt" "\<forall>c \<in> set cs. snd c = (TierSmart, True)"
  shows "currentPhase (foldl pt_call pt cs) =
    (if consecutiveSmart pt + int (length cs) < discoveryThreshold pt then PhaseDiscovery else PhaseCruise) \<and>
    consecutiveSmart (foldl pt_call pt cs) = consecutiveSmart pt + int (length cs) \<and>
    discoveryThreshold (foldl pt_call pt cs) = discoveryThreshold pt \<and> \<not> lastLightFailed (foldl pt_call pt cs)"
  using assms(5)
proof (induction cs rule: rev_induct)
  case (snoc c cs)
  obtain now where c: "c = (now, TierSmart, True)" using snoc.prems by (cases c) auto
  from snoc show ?case by (auto simp: c pt_RecordSuccess_def phase_change_def Let_def)
qed (use assms in simp)

section \<open>Properties\<close>

text \<open>whatever is recorded, the history of phases is a walk through the state machine that starts
  in discovery and ends in the current phase (so escalation is only entered from cruise and only left
  to discovery), and the three counters count the entries of their phases.\<close>

theorem phase_history:
  "let pt = foldl pt_call (NewPhaseTracker d c e) calls in
   phase_path PhaseDiscovery (phaseHistory pt) (currentPhase pt) \<and>
   discoveryEntries pt = entries PhaseDiscovery (phaseHistory pt) \<and>
   stableEntries pt = entries PhaseCruise (phaseHistory pt) \<and>
   escalationCount pt = entries PhaseEscalation (phaseHistory pt)"
  using pt_ok_run [OF pt_ok_new] by (simp add: Let_def pt_ok_def)

text \<open>a run of smart-tier successes from the start ends discovery exactly when it is as long as
  \<open>discoveryThreshold\<close>.\<close>

theorem phase_discovery_ends:
  assumes "0 < d" "\<forall>c \<in> set cs. snd c = (TierSmart, True)"
  shows "currentPhase (foldl pt_call (NewPhaseTracker d c e) cs) = PhaseCruise \<longleftrightarrow> d \<le> int (length cs)"
  using smart_run [of "NewPhaseTracker d c e" cs] assms by (simp add: NewPhaseTracker_def)

lemma phase_discovery_ends_witness:
  "currentPhase (foldl pt_call (NewPhaseTracker 2 0 0) [(1, TierSmart, True), (5, TierSmart, True)]) = PhaseCruise"
  by (subst phase_discovery_ends) simp_all

text \<open>the patterns count as converged exactly when the last light executions, as many as the
  threshold, all succeeded.\<close>

theorem converged_iff:
  assumes "0 < threshold"
  shows "IsConverged (foldl conv_step (newConvergenceState threshold) hits) \<longleftrightarrow>
    threshold \<le> int (length (takeWhile id (rev hits)))"
  using conv_run [of "newConvergenceState threshold" hits] assms
  by (simp add: newConvergenceState_def IsConverged_def)

lemma converged_iff_witness:
  "IsConverged (foldl conv_step (newConvergenceState 2) [True, False, True, True])"
  by (subst converged_iff) simp_all

end
