(* ===== verification/Bandit.thy ===== *)
theory Bandit
  imports Go_Prelude
begin

text \<open>
  \<open>pkg/uiauto/bandits\<close>: the contextual bandit that picks the tier to start with. Posteriors are a
  list of three, one per arm. The random generator belongs to the world; the Gamma variate, whose
  code is transcendental floating-point arithmetic, is the parameter \<open>gamma\<close>.
\<close>

section \<open>Arms, contexts and configuration\<close>

datatype arm = ArmLight | ArmSmart | ArmVLM

fun arm_num :: "arm \<Rightarrow> nat" where
  "arm_num ArmLight = 0"
| "arm_num ArmSmart = 1"
| "arm_num ArmVLM = 2"

fun arm_String :: "arm \<Rightarrow> string" where
  "arm_String ArmLight = ''light''"
| "arm_String ArmSmart = ''smart''"
| "arm_String ArmVLM = ''vlm''"

fun CostPerCall :: "arm \<Rightarrow> f64" where
  "CostPerCall ArmLight = flit 0"
| "CostPerCall ArmSmart = flit 1"
| "CostPerCall ArmVLM = flit 5"

definition all_arms :: "arm list" where
  "all_arms = [ArmLight, ArmSmart, ArmVLM]"

record bandit_config =
  InitialAlpha :: f64
  InitialBeta :: f64
  WarmupRounds :: int
  CostWeight :: f64
  DecayFactor :: f64

definition DefaultBanditConfig :: bandit_config where
  "DefaultBanditConfig = \<lparr>InitialAlpha = flit 1, InitialBeta = flit 1, WarmupRounds = 5,
     CostWeight = flit (15 / 100), DecayFactor = flit (995 / 1000)\<rparr>"

record features =
  PageComplexity :: f64
  SelectorCount :: int
  PreviousFailures :: int
  MutationIntensity :: f64
  HasDataTestID :: bool
  IframeDepth :: int

definition ContextKey :: "features \<Rightarrow> string" where
  "ContextKey f =
     (let complexity = (if flt (flit (6 / 10)) (PageComplexity f) then ''high''
            else if flt (flit (3 / 10)) (PageComplexity f) then ''mid'' else ''low'');
          stability = (if flt (flit (2 / 10)) (MutationIntensity f) \<or> 1 < PreviousFailures f then ''unstable''
            else ''stable'');
          stability = (if \<not> HasDataTestID f then ''unstable'' else stability)
      in complexity @ '':'' @ stability)"

section \<open>Posteriors\<close>

record beta_posterior =
  bp_Alpha :: f64
  bp_Beta :: f64
  bp_Trials :: int

definition bp_Mean :: "beta_posterior \<Rightarrow> f64" where
  "bp_Mean b = fdiv (bp_Alpha b) (fadd (bp_Alpha b) (bp_Beta b))"

definition betaSample :: "(f64 \<Rightarrow> 'w \<Rightarrow> f64 \<times> 'w) \<Rightarrow> f64 \<Rightarrow> f64 \<Rightarrow> 'w \<Rightarrow> f64 \<times> 'w" where
  "betaSample gamma alpha beta w =
     (let (x, w) = gamma alpha w; (y, w) = gamma beta w in
      if fadd x y = flit 0 then (flit (1 / 2), w) else (fdiv x (fadd x y), w))"

definition bp_Sample :: "(f64 \<Rightarrow> 'w \<Rightarrow> f64 \<times> 'w) \<Rightarrow> beta_posterior \<Rightarrow> 'w \<Rightarrow> f64 \<times> 'w" where
  "bp_Sample gamma b w = betaSample gamma (bp_Alpha b) (bp_Beta b) w"

record contextual_bandit =
  posteriors :: "(string, beta_posterior list) gomap"
  cb_cfg :: bandit_config
  totalPulls :: int

definition NewContextualBandit :: "bandit_config \<Rightarrow> contextual_bandit" where
  "NewContextualBandit cfg = \<lparr>posteriors = [], cb_cfg = cfg, totalPulls = 0\<rparr>"

definition initPosteriors :: "bandit_config \<Rightarrow> beta_posterior list" where
  "initPosteriors cfg =
     replicate 3 \<lparr>bp_Alpha = InitialAlpha cfg, bp_Beta = InitialBeta cfg, bp_Trials = 0\<rparr>"

section \<open>Selection and update\<close>

definition costPenalty :: "bandit_config \<Rightarrow> arm \<Rightarrow> f64" where
  "costPenalty cfg a = fdiv (fmul (CostWeight cfg) (CostPerCall a)) (flit 5)"

fun thompson :: "(f64 \<Rightarrow> 'w \<Rightarrow> f64 \<times> 'w) \<Rightarrow> bandit_config \<Rightarrow> beta_posterior list \<Rightarrow> arm list \<Rightarrow> arm \<Rightarrow> f64 \<Rightarrow>
    'w \<Rightarrow> arm \<times> 'w" where
  "thompson gamma cfg posts [] best bestScore w = (best, w)"
| "thompson gamma cfg posts (a # as) best bestScore w =
     (let (sample, w) = bp_Sample gamma (posts ! arm_num a) w;
          score = fsub sample (costPenalty cfg a)
      in if flt bestScore score then thompson gamma cfg posts as a score w
         else thompson gamma cfg posts as best bestScore w)"

definition posteriors_for :: "contextual_bandit \<Rightarrow> features \<Rightarrow> beta_posterior list" where
  "posteriors_for cb f = mget_or (initPosteriors (cb_cfg cb)) (posteriors cb) (ContextKey f)"

definition SelectArm :: "(f64 \<Rightarrow> 'w \<Rightarrow> f64 \<times> 'w) \<Rightarrow> features \<Rightarrow> contextual_bandit \<Rightarrow> 'w \<Rightarrow>
    arm \<times> contextual_bandit \<times> 'w" where
  "SelectArm gamma f cb w =
     (let posts = posteriors_for cb f;
          cb = (if mget (posteriors cb) (ContextKey f) = None
                then cb\<lparr>posteriors := mset_at (posteriors cb) (ContextKey f) posts\<rparr> else cb)
      in case find (\<lambda>a. bp_Trials (posts ! arm_num a) < WarmupRounds (cb_cfg cb)) all_arms of
           Some a \<Rightarrow> (a, cb, w)
         | None \<Rightarrow> (let (a, w) = thompson gamma (cb_cfg cb) posts all_arms ArmLight NInf w in (a, cb, w)))"

definition decay :: "bandit_config \<Rightarrow> beta_posterior \<Rightarrow> beta_posterior" where
  "decay cfg b =
     b\<lparr>bp_Alpha := fadd (InitialAlpha cfg) (fmul (fsub (bp_Alpha b) (InitialAlpha cfg)) (DecayFactor cfg)),
       bp_Beta := fadd (InitialBeta cfg) (fmul (fsub (bp_Beta b) (InitialBeta cfg)) (DecayFactor cfg))\<rparr>"

definition Update :: "features \<Rightarrow> arm \<Rightarrow> f64 \<Rightarrow> contextual_bandit \<Rightarrow> contextual_bandit" where
  "Update f a reward cb =
     (let posts = posteriors_for cb f;
          posts = (if flt (DecayFactor (cb_cfg cb)) (flit 1) then map (decay (cb_cfg cb)) posts else posts);
          p = posts ! arm_num a;
          p = p\<lparr>bp_Alpha := fadd (bp_Alpha p) reward, bp_Beta := fadd (bp_Beta p) (fsub (flit 1) reward),
                bp_Trials := bp_Trials p + 1\<rparr>
      in cb\<lparr>posteriors := mset_at (posteriors cb) (ContextKey f) (posts[arm_num a := p]),
            totalPulls := totalPulls cb + 1\<rparr>)"

definition bandit_Stats :: "features \<Rightarrow> contextual_bandit \<Rightarrow> beta_posterior list" where
  "bandit_Stats f cb = posteriors_for cb f"

fun best_arm :: "bandit_config \<Rightarrow> beta_posterior list \<Rightarrow> arm list \<Rightarrow> arm \<Rightarrow> f64 \<Rightarrow> arm" where
  "best_arm cfg posts [] best bestMean = best"
| "best_arm cfg posts (a # as) best bestMean =
     (let adjusted = fsub (bp_Mean (posts ! arm_num a)) (costPenalty cfg a) in
      if flt bestMean adjusted \<or> a = ArmLight then best_arm cfg posts as a adjusted
      else best_arm cfg posts as best bestMean)"

definition BestArm :: "features \<Rightarrow> contextual_bandit \<Rightarrow> arm" where
  "BestArm f cb =
     (case mget (posteriors cb) (ContextKey f) of
        None \<Rightarrow> ArmLight
      | Some posts \<Rightarrow> best_arm (cb_cfg cb) posts all_arms ArmLight (flit 0))"

definition bandit_Reset :: "contextual_bandit \<Rightarrow> contextual_bandit" where
  "bandit_Reset cb = cb\<lparr>posteriors := [], totalPulls := 0\<rparr>"

section \<open>Trials\<close>

definition trials :: "features \<Rightarrow> contextual_bandit \<Rightarrow> int list" where
  "trials f cb = map bp_Trials (posteriors_for cb f)"

lemma length_trials: "length (trials f cb) = length (posteriors_for cb f)"
  by (simp add: trials_def)

lemma trials_new [simp]: "trials f (NewContextualBandit cfg) = [0, 0, 0]"
  by (simp add: trials_def posteriors_for_def NewContextualBandit_def initPosteriors_def numeral_3_eq_3)

lemma bp_Trials_decay [simp]: "bp_Trials (decay cfg b) = bp_Trials b"
  by (simp add: decay_def)

lemma nth_trials: "i < length (trials f cb) \<Longrightarrow> bp_Trials (posteriors_for cb f ! i) = trials f cb ! i"
  by (simp add: trials_def)

lemma trials_Update:
  assumes "arm_num a < length (trials f cb)"
  shows "trials f (Update f a reward cb) = (trials f cb)[arm_num a := trials f cb ! arm_num a + 1]"
  using assms nth_trials [OF assms]
  by (simp add: trials_def Update_def Let_def posteriors_for_def map_update comp_def)

lemma cfg_Update [simp]: "cb_cfg (Update f a reward cb) = cb_cfg cb"
  by (simp add: Update_def Let_def)

definition remembered :: "features \<Rightarrow> contextual_bandit \<Rightarrow> contextual_bandit" where
  "remembered f cb = (if mget (posteriors cb) (ContextKey f) = None
     then cb\<lparr>posteriors := mset_at (posteriors cb) (ContextKey f) (posteriors_for cb f)\<rparr> else cb)"

lemma remembered_keeps [simp]:
  "cb_cfg (remembered f cb) = cb_cfg cb" "posteriors_for (remembered f cb) f = posteriors_for cb f"
  by (simp_all add: remembered_def posteriors_for_def)

lemma trials_remembered [simp]: "trials f (remembered f cb) = trials f cb"
  by (simp add: trials_def)

lemma SelectArm_alt: "SelectArm gamma f cb w =
    (case find (\<lambda>a. bp_Trials (posteriors_for cb f ! arm_num a) < WarmupRounds (cb_cfg cb)) all_arms of
       Some a \<Rightarrow> (a, remembered f cb, w)
     | None \<Rightarrow> (let (a, w) = thompson gamma (cb_cfg cb) (posteriors_for cb f) all_arms ArmLight NInf w
         in (a, remembered f cb, w)))"
  unfolding SelectArm_def Let_def remembered_def by (simp cong: if_cong option.case_cong)

text \<open>While some arm has too few trials, the first such arm is selected.\<close>

lemma SelectArm_warmup:
  assumes "find (\<lambda>a. trials f cb ! arm_num a < WarmupRounds (cb_cfg cb)) all_arms = Some a"
    "length (trials f cb) = 3"
  shows "SelectArm gamma f cb w = (a, remembered f cb, w)"
proof -
  have "find (\<lambda>a. bp_Trials (posteriors_for cb f ! arm_num a) < WarmupRounds (cb_cfg cb)) all_arms =
      find (\<lambda>a. trials f cb ! arm_num a < WarmupRounds (cb_cfg cb)) all_arms"
    by (rule find_cong) (use nth_trials [of _ f cb] assms(2) in \<open>auto simp: all_arms_def\<close>)
  with assms(1) show ?thesis by (simp add: SelectArm_alt)
qed

text \<open>A round: select an arm and report a reward for it.\<close>

fun bandit_round :: "(f64 \<Rightarrow> 'w \<Rightarrow> f64 \<times> 'w) \<Rightarrow> features \<Rightarrow> f64 list \<Rightarrow> contextual_bandit \<Rightarrow> 'w \<Rightarrow>
    arm list \<times> contextual_bandit \<times> 'w" where
  "bandit_round gamma f [] cb w = ([], cb, w)"
| "bandit_round gamma f (r # rs) cb w =
     (let (a, cb, w) = SelectArm gamma f cb w; (as, cb, w) = bandit_round gamma f rs (Update f a r cb) w
      in (a # as, cb, w))"

text \<open>
  The number of trials of the three arms after \<open>k\<close> rounds of a warm-up of \<open>W\<close> rounds per arm, and
  the arm of the next round.
\<close>

definition warmup_trials :: "nat \<Rightarrow> nat \<Rightarrow> int list" where
  "warmup_trials W k = [int (min k W), int (min (k - W) W), int (min (k - 2 * W) W)]"

definition warmup_arm :: "nat \<Rightarrow> nat \<Rightarrow> arm" where
  "warmup_arm W k = (if k < W then ArmLight else if k < 2 * W then ArmSmart else ArmVLM)"

lemma warmup_find:
  "k < 3 * W \<Longrightarrow> find (\<lambda>a. warmup_trials W k ! arm_num a < int W) all_arms = Some (warmup_arm W k)"
  by (auto simp: warmup_trials_def warmup_arm_def all_arms_def numeral_2_eq_2 [symmetric])

lemma warmup_bump:
  "k < 3 * W \<Longrightarrow>
   (warmup_trials W k)[arm_num (warmup_arm W k) := warmup_trials W k ! arm_num (warmup_arm W k) + 1] =
   warmup_trials W (Suc k)"
  by (auto simp: warmup_trials_def warmup_arm_def numeral_2_eq_2)

lemma warmup_run:
  assumes "trials f cb = warmup_trials W k" "WarmupRounds (cb_cfg cb) = int W" "k + length rs \<le> 3 * W"
  shows "fst (bandit_round gamma f rs cb w) = map (warmup_arm W) [k..<k + length rs] \<and>
    trials f (fst (snd (bandit_round gamma f rs cb w))) = warmup_trials W (k + length rs)"
  using assms
proof (induction rs arbitrary: k cb w)
  case (Cons r rs)
  have len: "length (trials f cb) = 3" using Cons.prems(1) by (simp add: warmup_trials_def)
  have sel: "SelectArm gamma f cb w = (warmup_arm W k, remembered f cb, w)"
    using Cons.prems warmup_find [of k W] by (intro SelectArm_warmup len) simp
  let ?cb = "Update f (warmup_arm W k) r (remembered f cb)"
  have "arm_num (warmup_arm W k) < 3" by (simp add: warmup_arm_def)
  then have "trials f ?cb = warmup_trials W (Suc k)"
    using Cons.prems(1,3) warmup_bump [of k W] len by (subst trials_Update) simp_all
  moreover obtain as cb' w' where run: "bandit_round gamma f rs ?cb w = (as, cb', w')"
    by (rule prod_cases3)
  ultimately show ?case using Cons.IH [of ?cb "Suc k" w] Cons.prems(2,3)
    by (simp add: sel run upt_conv_Cons del: upt_Suc)
qed simp

section \<open>Thompson sampling\<close>

text \<open>The loop of the sampling phase keeps an arm with the largest score so far.\<close>

lemma thompson_max:
  assumes "bp_Sample gamma (posts ! 0) w = (s ArmLight, w1)" "bp_Sample gamma (posts ! 1) w1 = (s ArmSmart, w2)"
    "bp_Sample gamma (posts ! 2) w2 = (s ArmVLM, w3)" "\<And>a. fsub (s a) (costPenalty cfg a) = Fin (x a)"
  shows "\<forall>b. x b \<le> x (fst (thompson gamma cfg posts all_arms ArmLight NInf w))"
proof
  fix b
  have "x ArmLight \<le> x (fst (thompson gamma cfg posts all_arms ArmLight NInf w)) \<and>
    x ArmSmart \<le> x (fst (thompson gamma cfg posts all_arms ArmLight NInf w)) \<and>
    x ArmVLM \<le> x (fst (thompson gamma cfg posts all_arms ArmLight NInf w))"
    using assms(2) by (simp add: all_arms_def assms(1,3,4) Let_def) (simp add: flt_def)
  then show "x b \<le> x (fst (thompson gamma cfg posts all_arms ArmLight NInf w))" by (cases b) auto
qed

section \<open>Properties\<close>

text \<open>whatever rewards are reported, the first \<open>3 W\<close> rounds in a fresh context give every arm
  exactly \<open>W = WarmupRounds\<close> trials; the arms come in three blocks and not in turn.\<close>

theorem bandit_warmup:
  assumes "WarmupRounds cfg = int W" "length rewards = 3 * W"
  shows "fst (bandit_round gamma f rewards (NewContextualBandit cfg) w) =
      replicate W ArmLight @ replicate W ArmSmart @ replicate W ArmVLM \<and>
    trials f (fst (snd (bandit_round gamma f rewards (NewContextualBandit cfg) w))) = [int W, int W, int W]"
proof -
  have "map (warmup_arm W) [0..<3 * W] = replicate W ArmLight @ replicate W ArmSmart @ replicate W ArmVLM"
    by (rule nth_equalityI) (auto simp: nth_append warmup_arm_def)
  moreover have "warmup_trials W (3 * W) = [int W, int W, int W]" by (simp add: warmup_trials_def)
  moreover have "trials f (NewContextualBandit cfg) = warmup_trials W 0" by (simp add: warmup_trials_def)
  ultimately show ?thesis
    using warmup_run [of f "NewContextualBandit cfg" W 0 rewards gamma w] assms
    by (simp add: NewContextualBandit_def)
qed

definition stable_page :: features where
  "stable_page = \<lparr>PageComplexity = flit 0, SelectorCount = 1, PreviousFailures = 0,
     MutationIntensity = flit 0, HasDataTestID = True, IframeDepth = 0\<rparr>"

lemma bandit_warmup_witness:
  "fst (bandit_round (\<lambda>x w. (x, w)) stable_page (replicate 15 (flit 1)) (NewContextualBandit DefaultBanditConfig) ()) =
     replicate 5 ArmLight @ replicate 5 ArmSmart @ replicate 5 ArmVLM"
  using bandit_warmup [of DefaultBanditConfig 5 "replicate 15 (flit 1)" "\<lambda>x w. (x, w)" stable_page "()"]
  by (simp add: DefaultBanditConfig_def)

text \<open>once every arm is warmed up, the selected arm has the largest of the three scores, the
  sampled reward less the cost penalty.\<close>

theorem bandit_selects_best:
  assumes "posteriors_for cb f = [p0, p1, p2]" "\<forall>p \<in> {p0, p1, p2}. WarmupRounds (cb_cfg cb) \<le> bp_Trials p"
    "bp_Sample gamma p0 w = (s ArmLight, w1)" "bp_Sample gamma p1 w1 = (s ArmSmart, w2)"
    "bp_Sample gamma p2 w2 = (s ArmVLM, w3)" "\<And>a. fsub (s a) (costPenalty (cb_cfg cb) a) = Fin (x a)"
  shows "\<forall>b. x b \<le> x (fst (SelectArm gamma f cb w))"
proof -
  have "fst (SelectArm gamma f cb w) = fst (thompson gamma (cb_cfg cb) [p0, p1, p2] all_arms ArmLight NInf w)"
    using assms(1,2) by (simp add: SelectArm_alt all_arms_def split: prod.split)
  with thompson_max [of gamma "[p0, p1, p2]" w s w1 w2 w3 "cb_cfg cb" x] assms(3-6) show ?thesis by simp
qed

definition warmed_bandit :: contextual_bandit where
  "warmed_bandit = \<lparr>posteriors = [(''low:stable'',
       [\<lparr>bp_Alpha = flit 1, bp_Beta = flit 3, bp_Trials = 5\<rparr>, \<lparr>bp_Alpha = flit 3, bp_Beta = flit 1, bp_Trials = 5\<rparr>,
        \<lparr>bp_Alpha = flit 1, bp_Beta = flit 1, bp_Trials = 5\<rparr>])],
     cb_cfg = \<lparr>InitialAlpha = flit 1, InitialBeta = flit 1, WarmupRounds = 5, CostWeight = flit 0,
       DecayFactor = flit 1\<rparr>, totalPulls = 15\<rparr>"

fun mean_reward :: "arm \<Rightarrow> rat" where
  "mean_reward ArmLight = 1 / 4"
| "mean_reward ArmSmart = 3 / 4"
| "mean_reward ArmVLM = 1 / 2"

lemma bandit_selects_best_witness:
  "fst (SelectArm (\<lambda>x w. (x, w)) stable_page warmed_bandit ()) = ArmSmart"
proof -
  let ?g = "\<lambda>x w. (x, w)"
  let ?s = "\<lambda>a. Fin (mean_reward a)"
  let ?p0 = "\<lparr>bp_Alpha = flit 1, bp_Beta = flit 3, bp_Trials = 5\<rparr>"
  let ?p1 = "\<lparr>bp_Alpha = flit 3, bp_Beta = flit 1, bp_Trials = 5\<rparr>"
  let ?p2 = "\<lparr>bp_Alpha = flit 1, bp_Beta = flit 1, bp_Trials = 5\<rparr>"
  have posts: "posteriors_for warmed_bandit stable_page = [?p0, ?p1, ?p2]" by code_simp
  have warm: "\<forall>p \<in> {?p0, ?p1, ?p2}. WarmupRounds (cb_cfg warmed_bandit) \<le> bp_Trials p"
    by (simp add: warmed_bandit_def)
  have s: "bp_Sample ?g ?p0 () = (?s ArmLight, ())" "bp_Sample ?g ?p1 () = (?s ArmSmart, ())"
    "bp_Sample ?g ?p2 () = (?s ArmVLM, ())" by code_simp+
  have "fsub (?s ArmLight) (costPenalty (cb_cfg warmed_bandit) ArmLight) = ?s ArmLight"
    "fsub (?s ArmSmart) (costPenalty (cb_cfg warmed_bandit) ArmSmart) = ?s ArmSmart"
    "fsub (?s ArmVLM) (costPenalty (cb_cfg warmed_bandit) ArmVLM) = ?s ArmVLM" by code_simp+
  then have score: "fsub (?s a) (costPenalty (cb_cfg warmed_bandit) a) = ?s a" for a by (cases a) simp_all
  have "\<forall>b. mean_reward b \<le> mean_reward (fst (SelectArm ?g stable_page warmed_bandit ()))"
    using bandit_selects_best [of warmed_bandit stable_page, OF posts warm, of ?g "()" ?s "()" "()" "()" mean_reward] s score
    by simp
  then have "3 / 4 \<le> mean_reward (fst (SelectArm ?g stable_page warmed_bandit ()))"
    using mean_reward.simps(2) by metis
  then show ?thesis by (cases "fst (SelectArm ?g stable_page warmed_bandit ())") simp_all
qed

end
