(* ===== verification/Model_Router.thy ===== *)
theory Model_Router
  imports Phase_Tracker Dom_Breaker Bandit
begin

text \<open>
  \<open>ModelRouter\<close> of \<open>pkg/uiauto/model_router.go\<close>: an action is tried by the light executor, then by
  smart discovery, then by the VLM. The router calls the executor, the browser, the discoverer, the
  pattern tracker and the VLM bridge through the record \<open>router_env\<close>, functions over a world that
  the calls may change; a call answers its error, if any. The deferred metrics update is part of
  \<open>ExecuteAction\<close>.
\<close>

section \<open>State\<close>

record ui_action =
  act_Type :: string
  act_TargetID :: string
  act_Description :: string
  act_Value :: string

datatype router_error =
    CaptureDOMFailed string
  | SmartDiscoveryFailed string
  | RegisterPatternFailed string
  | ActionFailedAfterDiscovery string
  | ScreenshotFailed string
  | VLMAnalysisFailed string

record router_metrics =
  LightAttempts :: int
  LightSuccesses :: int
  SmartAttempts :: int
  SmartSuccesses :: int
  VLMAttempts :: int
  VLMSuccesses :: int
  Promotions :: int
  Demotions :: int
  TotalLatencyMs :: int
  ActionCount :: int

definition zero_metrics :: router_metrics where
  "zero_metrics = \<lparr>LightAttempts = 0, LightSuccesses = 0, SmartAttempts = 0, SmartSuccesses = 0,
     VLMAttempts = 0, VLMSuccesses = 0, Promotions = 0, Demotions = 0, TotalLatencyMs = 0, ActionCount = 0\<rparr>"

definition LightSuccessRate :: "router_metrics \<Rightarrow> f64" where
  "LightSuccessRate m =
     (if LightAttempts m = 0 then flit 0 else fdiv (f_of_int (LightSuccesses m)) (f_of_int (LightAttempts m)))"

record 'w router_env =
  env_clock :: "'w \<Rightarrow> time"
  env_light :: "ui_action \<Rightarrow> 'w \<Rightarrow> string option \<times> 'w"
  env_dom :: "'w \<Rightarrow> (string + string) \<times> 'w"
  env_script :: "string \<Rightarrow> string \<Rightarrow> 'w \<Rightarrow> (string + string) \<times> 'w"
  env_selector :: "string \<Rightarrow> string \<Rightarrow> 'w \<Rightarrow> (string + string) \<times> 'w"
  env_register :: "string \<Rightarrow> string \<Rightarrow> string \<Rightarrow> string \<Rightarrow> 'w \<Rightarrow> string option \<times> 'w"
  env_screenshot :: "'w \<Rightarrow> (string + string) \<times> 'w"
  env_vlm :: "(string \<Rightarrow> string \<Rightarrow> 'w \<Rightarrow> (string + string) \<times> 'w) option"
  env_gamma :: "f64 \<Rightarrow> 'w \<Rightarrow> f64 \<times> 'w"

record model_router =
  mr_breaker :: dom_breaker
  mr_convergence :: convergence_state
  mr_phase :: "phase_tracker option"
  mr_bandit :: "contextual_bandit option"
  mr_metrics :: router_metrics
  mr_tier :: model_tier
  promotionThreshold :: f64
  demotionThreshold :: f64

definition NewModelRouter :: "int option \<Rightarrow> (int \<times> int \<times> int) option \<Rightarrow> contextual_bandit option \<Rightarrow> model_router" where
  "NewModelRouter convergence phases bandit =
     \<lparr>mr_breaker = db_new 3 60,
      mr_convergence = newConvergenceState (case convergence of None \<Rightarrow> 5 | Some n \<Rightarrow> n),
      mr_phase = map_option (\<lambda>(d, c, e). NewPhaseTracker d c e) phases, mr_bandit = bandit,
      mr_metrics = zero_metrics, mr_tier = TierLight,
      promotionThreshold = flit (9 / 10), demotionThreshold = flit (1 / 2)\<rparr>"

section \<open>The tiers\<close>

definition on_metrics :: "(router_metrics \<Rightarrow> router_metrics) \<Rightarrow> model_router \<Rightarrow> model_router" where
  "on_metrics f r = r\<lparr>mr_metrics := f (mr_metrics r)\<rparr>"

definition on_phase :: "(phase_tracker \<Rightarrow> phase_tracker) \<Rightarrow> model_router \<Rightarrow> model_router" where
  "on_phase f r = r\<lparr>mr_phase := map_option f (mr_phase r)\<rparr>"

definition checkPromotion :: "model_router \<Rightarrow> model_router" where
  "checkPromotion r =
     (if fle (promotionThreshold r) (LightSuccessRate (mr_metrics r)) \<and> TierLight < mr_tier r
      then on_metrics (\<lambda>m. m\<lparr>Demotions := Demotions m + 1\<rparr>) (r\<lparr>mr_tier := tier_dec (mr_tier r)\<rparr>)
      else r)"

definition checkDemotion :: "model_router \<Rightarrow> model_router" where
  "checkDemotion r =
     (if flt (LightSuccessRate (mr_metrics r)) (demotionThreshold r) \<and> 5 < LightAttempts (mr_metrics r) \<and>
         mr_tier r < TierVLM
      then on_metrics (\<lambda>m. m\<lparr>Promotions := Promotions m + 1\<rparr>) (r\<lparr>mr_tier := tier_inc (mr_tier r)\<rparr>)
      else r)"

type_synonym 'w step = "model_router \<Rightarrow> 'w \<Rightarrow> router_error option \<times> model_router \<times> 'w"

definition vlmPath :: "'w router_env \<Rightarrow> (string \<Rightarrow> string \<Rightarrow> 'w \<Rightarrow> (string + string) \<times> 'w) \<Rightarrow> ui_action \<Rightarrow> 'w step" where
  "vlmPath env vlm a r w =
     (let r = on_metrics (\<lambda>m. m\<lparr>VLMAttempts := VLMAttempts m + 1\<rparr>) r in
      case env_screenshot env w of
        (Inl e, w) \<Rightarrow> (Some (ScreenshotFailed e), r, w)
      | (Inr screenshot, w) \<Rightarrow>
          (case vlm (act_Description a) screenshot w of
             (Inl e, w) \<Rightarrow>
               (Some (VLMAnalysisFailed e), on_phase (pt_RecordFailure (env_clock env w) TierVLM) r, w)
           | (Inr result, w) \<Rightarrow>
               (None, on_phase (pt_RecordSuccess (env_clock env w) TierVLM)
                  (on_metrics (\<lambda>m. m\<lparr>VLMSuccesses := VLMSuccesses m + 1\<rparr>) r), w)))"

definition smartPath :: "'w router_env \<Rightarrow> ui_action \<Rightarrow> 'w step" where
  "smartPath env a r w =
     (let r = on_metrics (\<lambda>m. m\<lparr>SmartAttempts := SmartAttempts m + 1\<rparr>) r in
      case env_dom env w of
        (Inl e, w) \<Rightarrow> (Some (CaptureDOMFailed e), r, w)
      | (Inr html, w) \<Rightarrow>
          (case (if act_Type a = ''evaluate'' then env_script env else env_selector env) (act_Description a) html w of
             (Inl e, w) \<Rightarrow>
               (let r = on_phase (pt_RecordFailure (env_clock env w) TierSmart) r in
                case env_vlm env of
                  Some vlm \<Rightarrow> vlmPath env vlm a r w
                | None \<Rightarrow> (Some (SmartDiscoveryFailed e), r, w))
           | (Inr selector, w) \<Rightarrow>
               (case env_register env (act_TargetID a) selector (act_Description a) html w of
                  (Some e, w) \<Rightarrow> (Some (RegisterPatternFailed e), r, w)
                | (None, w) \<Rightarrow>
                    (case env_light env a w of
                       (Some e, w) \<Rightarrow>
                         (let r = on_phase (pt_RecordFailure (env_clock env w) TierLight) r in
                          case env_vlm env of
                            Some vlm \<Rightarrow> vlmPath env vlm a r w
                          | None \<Rightarrow> (Some (ActionFailedAfterDiscovery e), r, w))
                     | (None, w) \<Rightarrow>
                         (None, checkPromotion (on_phase (pt_RecordSuccess (env_clock env w) TierSmart)
                            (on_metrics (\<lambda>m. m\<lparr>SmartSuccesses := SmartSuccesses m + 1\<rparr>) r)), w)))))"

definition cascadeExecution :: "'w router_env \<Rightarrow> ui_action \<Rightarrow> 'w step" where
  "cascadeExecution env a r w =
     (let (allowed, b) = db_allow (env_clock env w) (mr_breaker r); r = r\<lparr>mr_breaker := b\<rparr> in
      if allowed then
        (let r = on_metrics (\<lambda>m. m\<lparr>LightAttempts := LightAttempts m + 1\<rparr>) r in
         case env_light env a w of
           (None, w) \<Rightarrow>
             (let r = on_metrics (\<lambda>m. m\<lparr>LightSuccesses := LightSuccesses m + 1\<rparr>) r;
                  r = r\<lparr>mr_breaker := db_record_success (mr_breaker r)\<rparr>;
                  r = r\<lparr>mr_convergence := RecordHit (mr_convergence r)\<rparr>;
                  r = on_phase (pt_RecordSuccess (env_clock env w) TierLight) r
              in (None, checkDemotion r, w))
         | (Some e, w) \<Rightarrow>
             (let r = r\<lparr>mr_breaker := db_record_failure (env_clock env w) (mr_breaker r)\<rparr>;
                  r = r\<lparr>mr_convergence := RecordMiss (mr_convergence r)\<rparr>;
                  r = on_phase (pt_RecordFailure (env_clock env w) TierLight) r
              in smartPath env a r w))
      else smartPath env a r w)"

section \<open>Bandit-guided execution\<close>

definition actionFeatures :: "time \<Rightarrow> ui_action \<Rightarrow> model_router \<Rightarrow> features \<times> model_router" where
  "actionFeatures now a r =
     (let (allowed, b) = db_allow now (mr_breaker r) in
      (\<lparr>PageComplexity = flit 0, SelectorCount = 1, PreviousFailures = (if allowed then 0 else 3),
        MutationIntensity = flit 0, HasDataTestID = (act_TargetID a \<noteq> []), IframeDepth = 0\<rparr>,
       r\<lparr>mr_breaker := b\<rparr>))"

fun armToTier :: "arm \<Rightarrow> model_tier" where
  "armToTier ArmSmart = TierSmart"
| "armToTier ArmVLM = TierVLM"
| "armToTier ArmLight = TierLight"

fun tierToArm :: "model_tier \<Rightarrow> arm" where
  "tierToArm TierSmart = ArmSmart"
| "tierToArm TierVLM = ArmVLM"
| "tierToArm t = ArmLight"

definition tier_execution :: "'w router_env \<Rightarrow> model_tier \<Rightarrow> ui_action \<Rightarrow> 'w step" where
  "tier_execution env tier a r w =
     (if tier = TierVLM then
        (case env_vlm env of Some vlm \<Rightarrow> vlmPath env vlm a r w | None \<Rightarrow> smartPath env a r w)
      else if tier = TierSmart then smartPath env a r w
      else cascadeExecution env a r w)"

definition banditGuidedExecution :: "'w router_env \<Rightarrow> contextual_bandit \<Rightarrow> ui_action \<Rightarrow> 'w step" where
  "banditGuidedExecution env bandit a r w =
     (let (features, r) = actionFeatures (env_clock env w) a r;
          (arm, bandit, w) = SelectArm (env_gamma env) features bandit w;
          tier = armToTier arm;
          (err, r, w) = tier_execution env tier a r w;
          r = r\<lparr>mr_bandit := Some (Update features arm (if err = None then flit 1 else flit 0) bandit)\<rparr>;
          r = on_phase (if err = None then pt_RecordSuccess (env_clock env w) tier
                        else pt_RecordFailure (env_clock env w) tier) r
      in (err, r, w))"

definition count_action :: "int \<Rightarrow> router_metrics \<Rightarrow> router_metrics" where
  "count_action ms m = m\<lparr>TotalLatencyMs := TotalLatencyMs m + ms, ActionCount := ActionCount m + 1\<rparr>"

definition ExecuteAction :: "'w router_env \<Rightarrow> ui_action \<Rightarrow> 'w step" where
  "ExecuteAction env a r w =
     (let start = env_clock env w;
          (err, r, w) = (case mr_bandit r of
              Some bandit \<Rightarrow> banditGuidedExecution env bandit a r w
            | None \<Rightarrow> cascadeExecution env a r w);
          ms = go_div (time_sub (env_clock env w) start) millisecond
      in (err, on_metrics (count_action ms) r, w))"

fun ExecuteBatch :: "'w router_env \<Rightarrow> ui_action list \<Rightarrow> model_router \<Rightarrow> 'w \<Rightarrow>
    router_error option list \<times> model_router \<times> 'w" where
  "ExecuteBatch env [] r w = ([], r, w)"
| "ExecuteBatch env (a # as) r w =
     (let (err, r, w) = ExecuteAction env a r w; (errs, r, w) = ExecuteBatch env as r w in (err # errs, r, w))"

section \<open>What the tiers leave alone\<close>

lemmas router_frame = on_metrics_def on_phase_def checkPromotion_def checkDemotion_def

lemma check_frame [simp]:
  "mr_breaker (checkPromotion r) = mr_breaker r" "mr_bandit (checkPromotion r) = mr_bandit r"
  "mr_breaker (checkDemotion r) = mr_breaker r" "mr_bandit (checkDemotion r) = mr_bandit r"
  "LightAttempts (mr_metrics (checkPromotion r)) = LightAttempts (mr_metrics r)"
  "LightAttempts (mr_metrics (checkDemotion r)) = LightAttempts (mr_metrics r)"
  "ActionCount (mr_metrics (checkPromotion r)) = ActionCount (mr_metrics r)"
  "ActionCount (mr_metrics (checkDemotion r)) = ActionCount (mr_metrics r)"
  by (simp_all add: router_frame)

lemma on_frame [simp]:
  "mr_breaker (on_metrics f r) = mr_breaker r" "mr_bandit (on_metrics f r) = mr_bandit r"
  "mr_metrics (on_metrics f r) = f (mr_metrics r)" "mr_tier (on_metrics f r) = mr_tier r"
  "mr_breaker (on_phase g r) = mr_breaker r" "mr_bandit (on_phase g r) = mr_bandit r"
  "mr_metrics (on_phase g r) = mr_metrics r" "mr_tier (on_phase g r) = mr_tier r"
  by (simp_all add: router_frame)

lemma vlmPath_frame:
  "vlmPath env vlm a r w = (err, r', w') \<Longrightarrow> mr_breaker r' = mr_breaker r \<and> mr_bandit r' = mr_bandit r \<and>
   LightAttempts (mr_metrics r') = LightAttempts (mr_metrics r) \<and>
   ActionCount (mr_metrics r') = ActionCount (mr_metrics r)"
  by (auto simp: vlmPath_def Let_def split: prod.splits sum.splits)

lemma smartPath_frame:
  "smartPath env a r w = (err, r', w') \<Longrightarrow> mr_breaker r' = mr_breaker r \<and> mr_bandit r' = mr_bandit r \<and>
   LightAttempts (mr_metrics r') = LightAttempts (mr_metrics r) \<and>
   ActionCount (mr_metrics r') = ActionCount (mr_metrics r)"
  by (auto simp: smartPath_def Let_def split: prod.splits sum.splits option.splits dest!: vlmPath_frame)

section \<open>Consistent metrics\<close>

definition metrics_ok :: "router_metrics \<Rightarrow> bool" where
  "metrics_ok m \<longleftrightarrow> 0 \<le> LightSuccesses m \<and> LightSuccesses m \<le> LightAttempts m \<and>
     0 \<le> SmartSuccesses m \<and> SmartSuccesses m \<le> SmartAttempts m \<and>
     0 \<le> VLMSuccesses m \<and> VLMSuccesses m \<le> VLMAttempts m"

definition mr_ok :: "model_router \<Rightarrow> bool" where
  "mr_ok r \<longleftrightarrow> metrics_ok (mr_metrics r) \<and> mr_tier r \<le> TierVLM"

lemma tier_dec_le: "t \<le> TierVLM \<Longrightarrow> tier_dec t \<le> TierVLM"
  by (cases t) (simp_all add: less_eq_model_tier_def)

lemma tier_inc_le: "t < TierVLM \<Longrightarrow> tier_inc t \<le> TierVLM"
  by (cases t) (simp_all add: less_eq_model_tier_def less_model_tier_def)

lemma mr_ok_check:
  "mr_ok r \<Longrightarrow> mr_ok (checkPromotion r)" "mr_ok r \<Longrightarrow> mr_ok (checkDemotion r)"
  by (simp_all add: mr_ok_def metrics_ok_def checkPromotion_def checkDemotion_def tier_dec_le tier_inc_le)

lemma mr_ok_parts [simp]:
  "mr_ok (on_phase g r) = mr_ok r" "mr_ok (r\<lparr>mr_breaker := b\<rparr>) = mr_ok r"
  "mr_ok (r\<lparr>mr_convergence := c\<rparr>) = mr_ok r" "mr_ok (r\<lparr>mr_bandit := x\<rparr>) = mr_ok r"
  by (simp_all add: mr_ok_def on_phase_def)

lemma mr_ok_vlm: "mr_ok r \<Longrightarrow> vlmPath env vlm a r w = (err, r', w') \<Longrightarrow> mr_ok r'"
  by (auto simp: vlmPath_def Let_def mr_ok_def metrics_ok_def split: prod.splits sum.splits)

lemma mr_ok_attempt:
  "mr_ok r \<Longrightarrow> mr_ok (on_metrics (\<lambda>m. m\<lparr>SmartAttempts := SmartAttempts m + 1\<rparr>) r)"
  "mr_ok r \<Longrightarrow> mr_ok (on_metrics (\<lambda>m. m\<lparr>LightAttempts := LightAttempts m + 1\<rparr>) r)"
  "mr_ok r \<Longrightarrow> mr_ok (on_metrics (count_action ms) r)"
  by (simp_all add: mr_ok_def metrics_ok_def count_action_def)

lemma mr_ok_outcome:
  "mr_ok r \<Longrightarrow> mr_ok (on_metrics (\<lambda>m. m\<lparr>SmartSuccesses := SmartSuccesses m + 1\<rparr>)
     (on_metrics (\<lambda>m. m\<lparr>SmartAttempts := SmartAttempts m + 1\<rparr>) r))"
  "mr_ok r \<Longrightarrow> mr_ok (on_metrics (\<lambda>m. m\<lparr>LightSuccesses := LightSuccesses m + 1\<rparr>)
     (on_metrics (\<lambda>m. m\<lparr>LightAttempts := LightAttempts m + 1\<rparr>) r))"
  by (simp_all add: mr_ok_def metrics_ok_def)

lemma mr_ok_smart: "mr_ok r \<Longrightarrow> smartPath env a r w = (err, r', w') \<Longrightarrow> mr_ok r'"
  by (auto simp: smartPath_def Let_def mr_ok_attempt mr_ok_outcome intro!: mr_ok_check
      split: prod.splits sum.splits option.splits
      elim!: mr_ok_vlm [rotated])

lemma mr_ok_cascade: "mr_ok r \<Longrightarrow> cascadeExecution env a r w = (err, r', w') \<Longrightarrow> mr_ok r'"
proof -
  assume ok: "mr_ok r" and run: "cascadeExecution env a r w = (err, r', w')"
  obtain allowed b where al: "db_allow (env_clock env w) (mr_breaker r) = (allowed, b)" by fastforce
  obtain e w1 where light: "env_light env a w = (e, w1)" by fastforce
  have ok': "mr_ok (r\<lparr>mr_breaker := b\<rparr>)" using ok by simp
  show ?thesis
  proof (cases allowed)
    case False
    with run al have "smartPath env a (r\<lparr>mr_breaker := b\<rparr>) w = (err, r', w')" by (simp add: cascadeExecution_def)
    with ok' show ?thesis by (rule mr_ok_smart)
  next
    case True
    show ?thesis
    proof (cases e)
      case None
      with run al light True show ?thesis
        using mr_ok_outcome(2) [OF ok'] by (auto simp: cascadeExecution_def Let_def intro!: mr_ok_check)
    next
      case (Some x)
      with run al light True show ?thesis
        using mr_ok_attempt(2) [OF ok'] by (auto simp: cascadeExecution_def Let_def elim!: mr_ok_smart [rotated])
    qed
  qed
qed

lemma mr_ok_tier: "mr_ok r \<Longrightarrow> tier_execution env tier a r w = (err, r', w') \<Longrightarrow> mr_ok r'"
  by (auto simp: tier_execution_def split: if_splits option.splits
      elim!: mr_ok_vlm [rotated] mr_ok_smart [rotated] mr_ok_cascade [rotated])

lemma cascade_count:
  "cascadeExecution env a r w = (err, r', w') \<Longrightarrow> ActionCount (mr_metrics r') = ActionCount (mr_metrics r)"
  by (auto simp: cascadeExecution_def Let_def split: prod.splits if_splits option.splits dest!: smartPath_frame)

lemma tier_count:
  "tier_execution env tier a r w = (err, r', w') \<Longrightarrow> ActionCount (mr_metrics r') = ActionCount (mr_metrics r)"
  by (auto simp: tier_execution_def split: if_splits option.splits dest!: vlmPath_frame smartPath_frame cascade_count)

text \<open>A bandit-guided execution is that of some tier, from the router with its breaker tested.\<close>

lemma bandit_run:
  assumes "banditGuidedExecution env b a r w = (err, r', w')"
  obtains tier br r1 w1 g b' where "tier_execution env tier a (r\<lparr>mr_breaker := br\<rparr>) w1 = (err, r1, w')"
    and "r' = on_phase g (r1\<lparr>mr_bandit := b'\<rparr>)"
proof -
  obtain f r0 where f: "actionFeatures (env_clock env w) a r = (f, r0)" by fastforce
  obtain arm b1 w1 where s: "SelectArm (env_gamma env) f b w = (arm, b1, w1)" by (rule prod_cases3)
  obtain e r1 w2 where t: "tier_execution env (armToTier arm) a r0 w1 = (e, r1, w2)" by (rule prod_cases3)
  have "\<exists>br. r0 = r\<lparr>mr_breaker := br\<rparr>" using f by (auto simp: actionFeatures_def Let_def split: prod.splits)
  moreover have "err = e" "w' = w2" using assms f s t by (simp_all add: banditGuidedExecution_def Let_def)
  moreover have "\<exists>g b'. r' = on_phase g (r1\<lparr>mr_bandit := b'\<rparr>)"
    using assms f s t by (auto simp: banditGuidedExecution_def Let_def)
  ultimately show ?thesis using t that by blast
qed

lemma ExecuteAction_run:
  assumes "ExecuteAction env a r w = (err, r', w')"
  obtains tier br r1 w1 g b' ms where "tier_execution env tier a (r\<lparr>mr_breaker := br\<rparr>) w1 = (err, r1, w')"
    and "r' = on_metrics (count_action ms) (on_phase g (r1\<lparr>mr_bandit := b'\<rparr>))"
proof (cases "mr_bandit r")
  case None
  have keep: "on_phase (\<lambda>p. p) r1 = r1" for r1
    by (cases r1) (simp add: on_phase_def option.map_ident)
  obtain r1 ms where run: "cascadeExecution env a r w = (err, r1, w')"
    and r': "r' = on_metrics (count_action ms) r1"
    using assms None by (auto simp: ExecuteAction_def Let_def split: prod.splits)
  have "tier_execution env TierLight a (r\<lparr>mr_breaker := mr_breaker r\<rparr>) w = (err, r1, w')"
    using run by (simp add: tier_execution_def)
  then show ?thesis by (rule that [of _ _ _ _ ms "\<lambda>p. p" "mr_bandit r1"]) (simp add: r' keep)
next
  case (Some b)
  obtain r2 ms where run: "banditGuidedExecution env b a r w = (err, r2, w')"
    and r': "r' = on_metrics (count_action ms) r2"
    using assms Some by (auto simp: ExecuteAction_def Let_def split: prod.splits)
  show ?thesis using run
  proof (rule bandit_run)
    fix tier br r1 w1 g b'
    assume t: "tier_execution env tier a (r\<lparr>mr_breaker := br\<rparr>) w1 = (err, r1, w')"
      and r2: "r2 = on_phase g (r1\<lparr>mr_bandit := b'\<rparr>)"
    show ?thesis by (rule that [OF t, of ms g b']) (simp add: r' r2)
  qed
qed

lemma ExecuteAction_ok:
  assumes ok: "mr_ok r" and run: "ExecuteAction env a r w = (err, r', w')"
  shows "mr_ok r' \<and> ActionCount (mr_metrics r') = ActionCount (mr_metrics r) + 1"
  using run
proof (rule ExecuteAction_run)
  fix tier br r1 w1 g b' ms
  assume t: "tier_execution env tier a (r\<lparr>mr_breaker := br\<rparr>) w1 = (err, r1, w')"
    and r': "r' = on_metrics (count_action ms) (on_phase g (r1\<lparr>mr_bandit := b'\<rparr>))"
  have "mr_ok r1" using mr_ok_tier [OF _ t] ok by simp
  with tier_count [OF t] mr_ok_attempt(3) show ?thesis by (simp add: r') (simp add: count_action_def)
qed

lemma ExecuteBatch_ok:
  "mr_ok r \<Longrightarrow> ExecuteBatch env as r w = (errs, r', w') \<Longrightarrow>
   mr_ok r' \<and> length errs = length as \<and> ActionCount (mr_metrics r') = ActionCount (mr_metrics r) + int (length as)"
proof (induction as arbitrary: errs r w r' w')
  case (Cons a as)
  obtain err r1 w1 where one: "ExecuteAction env a r w = (err, r1, w1)" by (rule prod_cases3)
  obtain errs' r2 w2 where rest: "ExecuteBatch env as r1 w1 = (errs', r2, w2)" by (rule prod_cases3)
  from ExecuteAction_ok [OF Cons.prems(1) one] Cons.IH [OF _ rest] Cons.prems(2) one rest show ?case by auto
qed simp

lemma mr_ok_new: "mr_ok (NewModelRouter c p b)"
  by (simp add: mr_ok_def metrics_ok_def NewModelRouter_def zero_metrics_def less_eq_model_tier_def)

section \<open>Watching the light executor\<close>

text \<open>The calls of the light executor and the successful registrations, as a log beside the world.\<close>

datatype router_event = AskedLight | Registered

definition aside :: "('w \<Rightarrow> 'a \<times> 'w) \<Rightarrow> 'w \<times> 'l \<Rightarrow> 'a \<times> ('w \<times> 'l)" where
  "aside f wl = (case f (fst wl) of (a, w) \<Rightarrow> (a, (w, snd wl)))"

definition watched :: "'w router_env \<Rightarrow> ('w \<times> router_event list) router_env" where
  "watched env = \<lparr>env_clock = \<lambda>wl. env_clock env (fst wl),
     env_light = \<lambda>a wl. (case env_light env a (fst wl) of (e, w) \<Rightarrow> (e, (w, snd wl @ [AskedLight]))),
     env_dom = aside (env_dom env), env_script = \<lambda>d h. aside (env_script env d h), env_selector = \<lambda>d h. aside (env_selector env d h),
     env_register = \<lambda>t s d h wl. (case env_register env t s d h (fst wl) of
       (e, w) \<Rightarrow> (e, (w, if e = None then snd wl @ [Registered] else snd wl))),
     env_screenshot = aside (env_screenshot env), env_vlm = map_option (\<lambda>vlm d s. aside (vlm d s)) (env_vlm env),
     env_gamma = \<lambda>x. aside (env_gamma env x)\<rparr>"

lemma watched_simps [simp]:
  "env_clock (watched env) (w, l) = env_clock env w"
  "env_light (watched env) a (w, l) = (case env_light env a w of (e, w) \<Rightarrow> (e, (w, l @ [AskedLight])))"
  "env_dom (watched env) (w, l) = (case env_dom env w of (x, w) \<Rightarrow> (x, (w, l)))"
  "env_script (watched env) d h (w, l) = (case env_script env d h w of (x, w) \<Rightarrow> (x, (w, l)))"
  "env_selector (watched env) d h (w, l) = (case env_selector env d h w of (x, w) \<Rightarrow> (x, (w, l)))"
  "env_register (watched env) t s d h (w, l) = (case env_register env t s d h w of
     (e, w) \<Rightarrow> (e, (w, if e = None then l @ [Registered] else l)))"
  "env_screenshot (watched env) (w, l) = (case env_screenshot env w of (x, w) \<Rightarrow> (x, (w, l)))"
  "env_vlm (watched env) = map_option (\<lambda>vlm d s. aside (vlm d s)) (env_vlm env)"
  "aside f (w, l) = (case f w of (x, w) \<Rightarrow> (x, (w, l)))"
  by (simp_all add: watched_def aside_def split: prod.split)







section \<open>The light tier behind its breaker\<close>







section \<open>Who performs the action\<close>

lemma smart_success_light:
  assumes "env_vlm env = None" "smartPath env a r w = (None, r', w')"
  shows "\<exists>w1 w2. env_light env a w1 = (None, w2)"
  using assms by (auto simp: smartPath_def Let_def split: prod.splits sum.splits option.splits if_splits)

lemma cascade_success_light:
  assumes "env_vlm env = None" "cascadeExecution env a r w = (None, r', w')"
  shows "\<exists>w1 w2. env_light env a w1 = (None, w2)"
  using assms smart_success_light [OF assms(1)]
  by (fastforce simp: cascadeExecution_def Let_def split: prod.splits if_splits option.splits)

section \<open>Properties\<close>

text \<open>whatever the tiers answer and however tiers are chosen, a batch reports one result per
  action and counts each action once, no tier has more successes than attempts, and the current tier
  never moves above the VLM.\<close>

theorem router_metrics_consistent:
  "let (errs, r, w') = ExecuteBatch env actions (NewModelRouter c p b) w; m = mr_metrics r in
   length errs = length actions \<and> ActionCount m = int (length actions) \<and>
   0 \<le> LightSuccesses m \<and> LightSuccesses m \<le> LightAttempts m \<and> 0 \<le> SmartSuccesses m \<and>
   SmartSuccesses m \<le> SmartAttempts m \<and> 0 \<le> VLMSuccesses m \<and> VLMSuccesses m \<le> VLMAttempts m \<and>
   mr_tier r \<le> TierVLM"
proof -
  obtain errs r w' where run: "ExecuteBatch env actions (NewModelRouter c p b) w = (errs, r, w')" by (rule prod_cases3)
  have "ActionCount (mr_metrics (NewModelRouter c p b)) = 0" by (simp add: NewModelRouter_def zero_metrics_def)
  with ExecuteBatch_ok [OF mr_ok_new run] show ?thesis
    by (simp add: run Let_def mr_ok_def metrics_ok_def)
qed


definition down_env :: "time router_env" where
  "down_env = \<lparr>env_clock = (\<lambda>w. w mod (60 * second)), env_light = (\<lambda>a w. (Some ''no such element'', w + second)),
     env_dom = (\<lambda>w. (Inr ''<html/>'', w)), env_script = (\<lambda>d h w. (Inr ''return 1'', w)),
     env_selector = (\<lambda>d h w. (Inr ''#login'', w)), env_register = (\<lambda>t s d h w. (None, w)),
     env_screenshot = (\<lambda>w. (Inr ''png'', w)), env_vlm = Some (\<lambda>d s w. (Inr ''a login page'', w)),
     env_gamma = (\<lambda>x w. (x, w))\<rparr>"

definition click_login :: ui_action where
  "click_login = \<lparr>act_Type = ''click'', act_TargetID = ''login'', act_Description = ''the login button'', act_Value = []\<rparr>"


text \<open>C8: without a VLM bridge, a reported success means that the light executor performed the
  action.\<close>

theorem router_success_executed:
  assumes "env_vlm env = None" "fst (ExecuteAction env a r w) = None"
  shows "\<exists>w1 w2. env_light env a w1 = (None, w2)"
proof -
  obtain r' w' where "ExecuteAction env a r w = (None, r', w')"
    using assms(2) by (cases "ExecuteAction env a r w") auto
  then show ?thesis
  proof (rule ExecuteAction_run)
    fix tier br r1 w1 assume "tier_execution env tier a (r\<lparr>mr_breaker := br\<rparr>) w1 = (None, r1, w')"
    then show ?thesis
      using assms(1) smart_success_light [OF assms(1)] cascade_success_light [OF assms(1)]
      by (auto simp: tier_execution_def split: if_splits)
  qed
qed

lemma router_success_executed_witness:
  "\<exists>w1 w2. env_light (down_env\<lparr>env_vlm := None, env_light := (\<lambda>a w. (None, w + second))\<rparr>) click_login w1 = (None, w2)"
  by (rule router_success_executed [where r = "NewModelRouter None None None" and w = 0])
    (simp_all add: ExecuteAction_def cascadeExecution_def NewModelRouter_def db_new_def db_allow_def Let_def down_env_def)

text \<open>with a VLM bridge it does not: if the light executor fails every time while the page can be
  captured, patterns can be stored and the VLM describes the screenshot, every action is reported as a
  success although none was performed.\<close>

theorem router_vlm_reports_success:
  assumes "env_vlm env = Some vlm" "mr_bandit r = None" "\<And>w. fst (env_light env a w) \<noteq> None"
    "\<And>w. \<exists>html w'. env_dom env w = (Inr html, w')" "\<And>t s d h w. fst (env_register env t s d h w) = None"
    "\<And>w. \<exists>png w'. env_screenshot env w = (Inr png, w')" "\<And>d s w. \<exists>result w'. vlm d s w = (Inr result, w')"
  shows "fst (ExecuteAction env a r w) = None"
proof -
  have vlm: "fst (vlmPath env vlm a r w) = None" for r w
    using assms(6) [of w] assms(7) by (auto simp: vlmPath_def Let_def split: prod.splits sum.splits) (metis old.sum.distinct(2) prod.inject sum.distinct(1))+
  have smart: "fst (smartPath env a r w) = None" for r w
  proof -
    obtain html w1 where dom: "env_dom env w = (Inr html, w1)" using assms(4) by blast
    obtain res w2 where found: "(if act_Type a = ''evaluate'' then env_script env else env_selector env)
        (act_Description a) html w1 = (res, w2)" by fastforce
    show ?thesis
    proof (cases res)
      case (Inl e)
      with dom found assms(1) vlm show ?thesis by (simp add: smartPath_def Let_def)
    next
      case (Inr sel)
      obtain w3 where reg: "env_register env (act_TargetID a) sel (act_Description a) html w2 = (None, w3)"
        using assms(5) by (metis prod.collapse)
      obtain e w4 where "env_light env a w3 = (Some e, w4)" using assms(3) [of w3] by (cases "env_light env a w3") auto
      with dom found Inr reg assms(1) vlm show ?thesis by (simp add: smartPath_def Let_def)
    qed
  qed
  have "fst (cascadeExecution env a r w) = None"
    using smart assms(3) [of w] by (auto simp: cascadeExecution_def Let_def split: prod.split)
  with assms(2) show ?thesis by (auto simp: ExecuteAction_def Let_def split: prod.split)
qed

lemma router_vlm_reports_success_witness:
  "fst (ExecuteAction down_env click_login (NewModelRouter None None None) 0) = None"
  by (rule router_vlm_reports_success [where vlm = "\<lambda>d s w. (Inr ''a login page'', w)"])
    (simp_all add: down_env_def NewModelRouter_def)

end
