(* ===== verification/Fair_Share.thy ===== *)
theory Fair_Share
  imports Upstream_Pool
begin

text \<open>
  \<open>pkg/llm/fairshare.go\<close>: the fair-share scheduler. Callers of \<open>Submit\<close>, the scheduler loop and
  the goroutines that process requests run concurrently; each channel operation and each section
  under a lock is one action, \<open>fair_do\<close> says what it does (\<open>None\<close> when it is not enabled) and
  \<open>fair_reach\<close> what any interleaving of them can reach. A request is a number; every place in the
  code where it can be is a list of the state. \<open>f_sent\<close> and \<open>f_taken\<close> record what went into and came
  out of the channel \<open>incoming\<close>.
\<close>

section \<open>Processing one request\<close>

definition tier_tags :: "string list" where
  "tier_tags = [''agent'', ''fast'', ''utility'', ''heavy'', ''powerful'']"

fun extractTier :: "message list \<Rightarrow> string" where
  "extractTier [] = []"
| "extractTier (m # ms) =
     (if Role m = ''system''
      then (case find (\<lambda>tier. containsAny (Content m) [''tier:'' @ tier, ''x-tier:'' @ tier]) tier_tags of
              Some tier \<Rightarrow> tier | None \<Rightarrow> extractTier ms)
      else extractTier ms)"

text \<open>
  \<open>processRequest\<close> as it runs undisturbed: \<open>draw\<close> is the random draw of the pool, \<open>prov\<close> the
  provider of a node; the call may change the world and is followed by a health mark.
\<close>

definition processRequest :: "(int \<Rightarrow> int) \<Rightarrow> (nat \<Rightarrow> 'w provider) \<Rightarrow> ('w \<Rightarrow> time) \<Rightarrow> completion_request \<Rightarrow>
    upstream_pool \<Rightarrow> 'w \<Rightarrow> (llm_error + completion_response) outcome \<times> upstream_pool \<times> 'w" where
  "processRequest draw prov clock req p w =
     (let tier = extractTier (Messages req);
          node = (if tier \<noteq> [] then SelectByTier draw p tier else Returned None);
          node = (if node = Returned None then SelectAny draw p else node)
      in case node of
           Returned (Some i) \<Rightarrow>
             (case prov i req w of
                (Inl err, w) \<Rightarrow>
                  (Returned (Inl (UpstreamFailed (un_Name (up_nodes p ! i)) err)), MarkUnhealthy (clock w) i p, w)
              | (Inr resp, w) \<Rightarrow> (Returned (Inr resp), MarkHealthy i p, w))
         | Returned None \<Rightarrow> (Returned (Inl NoHealthyUpstream), p, w)
         | Panicked \<Rightarrow> (Panicked, p, w)
         | OutOfFuel \<Rightarrow> (OutOfFuel, p, w))"

section \<open>The scheduler\<close>

record fair_config =
  MaxQueueDepth :: int
  MaxConcurrency :: int
  fc_RequestTimeout :: duration

definition DefaultFairShareConfig :: fair_config where
  "DefaultFairShareConfig = \<lparr>MaxQueueDepth = 10, MaxConcurrency = 2, fc_RequestTimeout = 5 * minute\<rparr>"

record fair_sched =
  f_cfg :: fair_config
  f_queues :: "(string, nat list) gomap"
  f_user :: "(nat, string) gomap"
  f_entering :: "nat list"
  f_sending :: "nat list"
  f_incoming :: "nat list"
  f_held :: "nat option"
  f_slot :: "nat option"
  f_exec :: "nat list"
  f_replied :: "nat list"
  f_finishing :: "nat list"
  f_removing :: "nat list"
  f_inflight :: int
  f_waiting :: "nat list"
  f_reply :: "(nat, llm_error + completion_response) gomap"
  f_result :: "(nat, llm_error + completion_response) gomap"
  f_cancelled :: "nat list"
  f_closed :: bool
  f_loop :: bool
  f_sent :: "nat list"
  f_taken :: "nat list"

definition NewFairShareScheduler :: "fair_config \<Rightarrow> fair_sched" where
  "NewFairShareScheduler cfg =
     (let cfg = (if MaxQueueDepth cfg \<le> 0 then cfg\<lparr>MaxQueueDepth := 10\<rparr> else cfg);
          cfg = (if MaxConcurrency cfg \<le> 0 then cfg\<lparr>MaxConcurrency := 2\<rparr> else cfg);
          cfg = (if fc_RequestTimeout cfg \<le> 0 then cfg\<lparr>fc_RequestTimeout := 5 * minute\<rparr> else cfg)
      in \<lparr>f_cfg = cfg, f_queues = [], f_user = [], f_entering = [], f_sending = [], f_incoming = [],
          f_held = None, f_slot = None, f_exec = [], f_replied = [], f_finishing = [], f_removing = [], f_inflight = 0,
          f_waiting = [], f_reply = [], f_result = [], f_cancelled = [], f_closed = False, f_loop = True,
          f_sent = [], f_taken = []\<rparr>)"

definition user_queue :: "fair_sched \<Rightarrow> string \<Rightarrow> nat list" where
  "user_queue s u = mget_or [] (f_queues s) u"

definition user_of :: "fair_sched \<Rightarrow> nat \<Rightarrow> string" where
  "user_of s k = mget_or [] (f_user s) k"

definition incoming_cap :: "fair_sched \<Rightarrow> int" where
  "incoming_cap s = MaxQueueDepth (f_cfg s) * 10"

text \<open>What \<open>Submit\<close> returns for request \<open>k\<close>.\<close>

definition submit_returns :: "nat \<Rightarrow> llm_error + completion_response \<Rightarrow> fair_sched \<Rightarrow> fair_sched" where
  "submit_returns k r s = s\<lparr>f_result := mset_at (f_result s) k r\<rparr>"

datatype fair_act =
    Enter nat string
  | Admit nat
  | Send nat
  | SendCancelled nat ctx_error
  | SendClosed nat
  | ReceiveReply nat
  | WaitCancelled nat ctx_error
  | WaitClosed nat
  | Take
  | LoopExit
  | Start
  | Count
  | HeldClosed
  | HeldCancelled ctx_error
  | Answer nat "llm_error + completion_response"
  | Release nat
  | Uncount nat
  | RemoveFromQueue nat
  | Cancel nat
  | CloseScheduler

fun fair_do :: "fair_act \<Rightarrow> fair_sched \<Rightarrow> fair_sched option" where
  "fair_do (Enter k u) s =
     (if mget (f_user s) k \<noteq> None then None
      else let s = s\<lparr>f_user := mset_at (f_user s) k (if u = [] then ''_anonymous'' else u)\<rparr> in
        if f_closed s then Some (submit_returns k (Inl SchedulerClosed) s)
        else Some (s\<lparr>f_entering := k # f_entering s\<rparr>))"
| "fair_do (Admit k) s =
     (if k \<notin> set (f_entering s) then None
      else let s = s\<lparr>f_entering := remove1 k (f_entering s)\<rparr>; u = user_of s k; q = user_queue s u in
        if MaxQueueDepth (f_cfg s) \<le> int (length q)
        then Some (submit_returns k (Inl (UserQueueFull u (MaxQueueDepth (f_cfg s))))
          (s\<lparr>f_queues := mset_at (f_queues s) u q\<rparr>))
        else Some (s\<lparr>f_queues := mset_at (f_queues s) u (q @ [k]), f_sending := k # f_sending s\<rparr>))"
| "fair_do (Send k) s =
     (if k \<in> set (f_sending s) \<and> int (length (f_incoming s)) < incoming_cap s
      then Some (s\<lparr>f_sending := remove1 k (f_sending s), f_incoming := f_incoming s @ [k],
        f_waiting := k # f_waiting s, f_sent := f_sent s @ [k]\<rparr>)
      else None)"
| "fair_do (SendCancelled k e) s =
     (if k \<in> set (f_sending s) \<and> k \<in> set (f_cancelled s)
      then Some (submit_returns k (Inl (CtxErr e)) (s\<lparr>f_sending := remove1 k (f_sending s)\<rparr>)) else None)"
| "fair_do (SendClosed k) s =
     (if k \<in> set (f_sending s) \<and> f_closed s
      then Some (submit_returns k (Inl SchedulerClosed) (s\<lparr>f_sending := remove1 k (f_sending s)\<rparr>)) else None)"
| "fair_do (ReceiveReply k) s =
     (if k \<notin> set (f_waiting s) then None
      else case mget (f_reply s) k of
        None \<Rightarrow> None
      | Some r \<Rightarrow> Some (submit_returns k r (s\<lparr>f_waiting := remove1 k (f_waiting s)\<rparr>)))"
| "fair_do (WaitCancelled k e) s =
     (if k \<in> set (f_waiting s) \<and> k \<in> set (f_cancelled s)
      then Some (submit_returns k (Inl (CtxErr e)) (s\<lparr>f_waiting := remove1 k (f_waiting s)\<rparr>)) else None)"
| "fair_do (WaitClosed k) s =
     (if k \<in> set (f_waiting s) \<and> f_closed s
      then Some (submit_returns k (Inl SchedulerClosed) (s\<lparr>f_waiting := remove1 k (f_waiting s)\<rparr>)) else None)"
| "fair_do Take s =
     (if f_loop s \<and> f_held s = None \<and> f_slot s = None then
        (case f_incoming s of
           [] \<Rightarrow> None
         | k # ks \<Rightarrow> Some (s\<lparr>f_incoming := ks, f_held := Some k, f_taken := f_taken s @ [k]\<rparr>))
      else None)"
| "fair_do LoopExit s = (if f_loop s \<and> f_held s = None \<and> f_slot s = None \<and> f_closed s then Some (s\<lparr>f_loop := False\<rparr>) else None)"
| "fair_do Start s =
     (case f_held s of
        None \<Rightarrow> None
      | Some k \<Rightarrow>
          if int (length (f_exec s) + length (f_replied s)) < MaxConcurrency (f_cfg s)
          then Some (s\<lparr>f_held := None, f_slot := Some k\<rparr>) else None)"
| "fair_do Count s =
     (case f_slot s of
        None \<Rightarrow> None
      | Some k \<Rightarrow> Some (s\<lparr>f_slot := None, f_exec := k # f_exec s, f_inflight := f_inflight s + 1\<rparr>))"
| "fair_do HeldClosed s =
     (case f_held s of
        None \<Rightarrow> None
      | Some k \<Rightarrow>
          if f_closed s
          then Some (s\<lparr>f_held := None, f_loop := False, f_reply := mset_at (f_reply s) k (Inl SchedulerClosed)\<rparr>)
          else None)"
| "fair_do (HeldCancelled e) s =
     (case f_held s of
        None \<Rightarrow> None
      | Some k \<Rightarrow>
          if k \<in> set (f_cancelled s)
          then Some (s\<lparr>f_held := None, f_reply := mset_at (f_reply s) k (Inl (CtxErr e))\<rparr>) else None)"
| "fair_do (Answer k r) s =
     (if k \<in> set (f_exec s)
      then Some (s\<lparr>f_exec := remove1 k (f_exec s), f_replied := k # f_replied s,
        f_reply := mset_at (f_reply s) k r\<rparr>) else None)"
| "fair_do (Release k) s =
     (if k \<in> set (f_replied s)
      then Some (s\<lparr>f_replied := remove1 k (f_replied s), f_finishing := k # f_finishing s\<rparr>) else None)"
| "fair_do (Uncount k) s =
     (if k \<in> set (f_finishing s)
      then Some (s\<lparr>f_finishing := remove1 k (f_finishing s), f_removing := k # f_removing s,
        f_inflight := f_inflight s - 1\<rparr>) else None)"
| "fair_do (RemoveFromQueue k) s =
     (if k \<notin> set (f_removing s) then None
      else let s = s\<lparr>f_removing := remove1 k (f_removing s)\<rparr>; u = user_of s k in
        case mget (f_queues s) u of
          None \<Rightarrow> Some s
        | Some q \<Rightarrow> Some (s\<lparr>f_queues := mset_at (f_queues s) u (remove1 k q)\<rparr>))"
| "fair_do (Cancel k) s = Some (s\<lparr>f_cancelled := k # f_cancelled s\<rparr>)"
| "fair_do CloseScheduler s = Some (s\<lparr>f_closed := True\<rparr>)"

inductive fair_reach :: "fair_sched \<Rightarrow> fair_sched \<Rightarrow> bool" where
  here: "fair_reach s s"
| act: "fair_reach s t \<Longrightarrow> fair_do a t = Some t' \<Longrightarrow> fair_reach s t'"

fun fair_run :: "fair_act list \<Rightarrow> fair_sched \<Rightarrow> fair_sched option" where
  "fair_run [] s = Some s"
| "fair_run (a # as) s = (case fair_do a s of None \<Rightarrow> None | Some s \<Rightarrow> fair_run as s)"

definition QueueDepth :: "fair_sched \<Rightarrow> int" where
  "QueueDepth s = sum_list (map (\<lambda>(_, q). int (length q)) (f_queues s))"

lemma fair_run_reach: "fair_reach s t \<Longrightarrow> fair_run as t = Some t' \<Longrightarrow> fair_reach s t'"
  by (induction as t rule: fair_run.induct) (auto split: option.splits intro: fair_reach.act)

section \<open>Invariants\<close>

definition fair_inv :: "fair_config \<Rightarrow> fair_sched \<Rightarrow> bool" where
  "fair_inv cfg s \<longleftrightarrow> f_cfg s = cfg \<and> wf_map (f_queues s) \<and>
     int (length (f_exec s) + length (f_replied s)) + (if f_slot s = None then 0 else 1) \<le> MaxConcurrency cfg \<and>
     (f_held s = None \<or> f_slot s = None) \<and>
     f_inflight s = int (length (f_exec s) + length (f_replied s) + length (f_finishing s)) \<and>
     (\<forall>u. int (length (user_queue s u)) \<le> MaxQueueDepth cfg) \<and>
     int (length (f_incoming s)) \<le> incoming_cap s \<and>
     f_sent s = f_taken s @ f_incoming s \<and>
     (\<forall>u. \<forall>k \<in> set (user_queue s u). mget (f_user s) k \<noteq> None) \<and>
     (\<forall>k \<in> set (f_entering s). mget (f_user s) k \<noteq> None)"

lemma submit_returns_frame [simp]:
  "f_cfg (submit_returns k r s) = f_cfg s" "f_queues (submit_returns k r s) = f_queues s"
  "f_user (submit_returns k r s) = f_user s" "f_entering (submit_returns k r s) = f_entering s"
  "f_exec (submit_returns k r s) = f_exec s" "f_replied (submit_returns k r s) = f_replied s"
  "f_finishing (submit_returns k r s) = f_finishing s" "f_removing (submit_returns k r s) = f_removing s"
  "f_incoming (submit_returns k r s) = f_incoming s" "f_inflight (submit_returns k r s) = f_inflight s"
  "f_sent (submit_returns k r s) = f_sent s" "f_taken (submit_returns k r s) = f_taken s"
  "f_sending (submit_returns k r s) = f_sending s" "f_slot (submit_returns k r s) = f_slot s" "f_held (submit_returns k r s) = f_held s"
  "f_waiting (submit_returns k r s) = f_waiting s"
  by (simp_all add: submit_returns_def)

lemma user_queue_simps [simp]:
  "user_queue (submit_returns k r s) u = user_queue s u"
  "user_queue (s\<lparr>f_queues := mset_at (f_queues s) v q\<rparr>) u = (if u = v then q else user_queue s u)"
  by (simp_all add: user_queue_def)

lemma remove_from_queue:
  assumes "fair_do (RemoveFromQueue k) s = Some s'"
  shows "user_queue s' u = (if u = user_of s k then remove1 k (user_queue s u) else user_queue s u)"
  using assms by (auto simp: user_queue_def user_of_def mget_or_def Let_def split: if_splits option.splits)

lemma fair_inv_queues:
  assumes "fair_inv cfg s" "f_cfg s' = f_cfg s" "f_exec s' = f_exec s" "f_replied s' = f_replied s"
    "f_held s' = f_held s" "f_slot s' = f_slot s"
    "f_finishing s' = f_finishing s" "f_inflight s' = f_inflight s" "f_incoming s' = f_incoming s"
    "f_sent s' = f_sent s" "f_taken s' = f_taken s" "wf_map (f_queues s')"
    "\<And>u. int (length (user_queue s' u)) \<le> MaxQueueDepth cfg"
    "\<And>u k. k \<in> set (user_queue s' u) \<Longrightarrow> mget (f_user s') k \<noteq> None"
    "\<And>k. k \<in> set (f_entering s') \<Longrightarrow> mget (f_user s') k \<noteq> None"
  shows "fair_inv cfg s'"
  using assms by (auto simp: fair_inv_def incoming_cap_def)

lemma fair_inv_channels:
  assumes "fair_inv cfg s" "f_cfg s' = f_cfg s" "f_queues s' = f_queues s" "f_user s' = f_user s"
    "f_entering s' = f_entering s"
    "int (length (f_exec s') + length (f_replied s')) + (if f_slot s' = None then 0 else 1) \<le> MaxConcurrency cfg"
    "f_held s' = None \<or> f_slot s' = None"
    "f_inflight s' = int (length (f_exec s') + length (f_replied s') + length (f_finishing s'))"
    "int (length (f_incoming s')) \<le> incoming_cap s" "f_sent s' = f_taken s' @ f_incoming s'"
  shows "fair_inv cfg s'"
  using assms by (simp add: fair_inv_def incoming_cap_def user_queue_def)

lemma length_remove1_in: "x \<in> set xs \<Longrightarrow> Suc (length (remove1 x xs)) = length xs"
  by (induction xs) auto

lemma fair_inv_same:
  assumes "fair_inv cfg s" "f_cfg s' = f_cfg s" "f_queues s' = f_queues s" "f_user s' = f_user s"
    "f_entering s' = f_entering s" "f_exec s' = f_exec s" "f_replied s' = f_replied s"
    "f_held s' = f_held s \<or> f_held s' = None" "f_slot s' = f_slot s" "f_finishing s' = f_finishing s"
    "f_inflight s' = f_inflight s" "f_incoming s' = f_incoming s" "f_sent s' = f_sent s" "f_taken s' = f_taken s"
  shows "fair_inv cfg s'"
  using assms by (auto simp: fair_inv_def incoming_cap_def user_queue_def)

lemma fair_inv_work:
  assumes "fair_inv cfg s"
  shows "int (length (f_exec s) + length (f_replied s)) + (if f_slot s = None then 0 else 1) \<le> MaxConcurrency cfg"
    "f_held s = None \<or> f_slot s = None"
    "f_inflight s = int (length (f_exec s) + length (f_replied s) + length (f_finishing s))"
    "int (length (f_incoming s)) \<le> incoming_cap s" "f_sent s = f_taken s @ f_incoming s" "f_cfg s = cfg"
  using assms by (simp_all add: fair_inv_def)

lemma fair_inv_users:
  assumes "fair_inv cfg s"
  shows "wf_map (f_queues s)" "int (length (user_queue s u)) \<le> MaxQueueDepth cfg"
    "k \<in> set (user_queue s u) \<Longrightarrow> mget (f_user s) k \<noteq> None" "k \<in> set (f_entering s) \<Longrightarrow> mget (f_user s) k \<noteq> None"
  using assms by (simp_all add: fair_inv_def)

lemma fair_inv_enter:
  assumes inv: "fair_inv cfg s" and act: "fair_do (Enter k u) s = Some s'"
  shows "fair_inv cfg s'"
proof (rule fair_inv_queues [OF inv])
  show "wf_map (f_queues s')" "\<And>u. int (length (user_queue s' u)) \<le> MaxQueueDepth cfg"
    using act fair_inv_users(1,2) [OF inv] by (auto simp: Let_def user_queue_def split: if_splits)
  show "\<And>v j. j \<in> set (user_queue s' v) \<Longrightarrow> mget (f_user s') j \<noteq> None"
    using act fair_inv_users(3) [OF inv] by (auto simp: Let_def user_queue_def split: if_splits)
  show "\<And>j. j \<in> set (f_entering s') \<Longrightarrow> mget (f_user s') j \<noteq> None"
    using act fair_inv_users(4) [OF inv] by (auto simp: Let_def split: if_splits)
qed (use act in \<open>auto simp: Let_def split: if_splits\<close>)

lemma fair_inv_admit:
  assumes inv: "fair_inv cfg s" and act: "fair_do (Admit k) s = Some s'"
  shows "fair_inv cfg s'"
proof (rule fair_inv_queues [OF inv])
  have k: "mget (f_user s) k \<noteq> None" using act fair_inv_users(4) [OF inv] by (auto split: if_splits)
  have cfg: "f_cfg s = cfg" by (rule fair_inv_work(6) [OF inv])
  show "wf_map (f_queues s')" "\<And>u. int (length (user_queue s' u)) \<le> MaxQueueDepth cfg"
    using act fair_inv_users(1,2) [OF inv] cfg by (auto simp: Let_def user_queue_def user_of_def split: if_splits)
  show "\<And>v j. j \<in> set (user_queue s' v) \<Longrightarrow> mget (f_user s') j \<noteq> None"
    using act fair_inv_users(3) [OF inv] k by (auto simp: Let_def user_queue_def user_of_def split: if_splits)
  show "\<And>j. j \<in> set (f_entering s') \<Longrightarrow> mget (f_user s') j \<noteq> None"
    using act fair_inv_users(4) [OF inv]
    by (auto simp: Let_def split: if_splits dest!: set_remove1_subset [THEN subsetD])
qed (use act in \<open>auto simp: Let_def split: if_splits\<close>)

lemma fair_inv_remove:
  assumes inv: "fair_inv cfg s" and act: "fair_do (RemoveFromQueue k) s = Some s'"
  shows "fair_inv cfg s'"
proof (rule fair_inv_queues [OF inv])
  show "wf_map (f_queues s')"
    using act fair_inv_users(1) [OF inv] by (auto simp: Let_def split: if_splits option.splits)
  show "int (length (user_queue s' u)) \<le> MaxQueueDepth cfg" for u
  proof -
    have "length (user_queue s' u) \<le> length (user_queue s u)"
      using remove_from_queue [OF act] by (simp add: length_remove1)
    with fair_inv_users(2) [OF inv] show ?thesis by (meson of_nat_mono order_trans)
  qed
  have same: "f_user s' = f_user s" "f_entering s' = f_entering s"
    using act by (auto simp: Let_def split: if_splits option.splits)
  show "mget (f_user s') j \<noteq> None" if "j \<in> set (user_queue s' v)" for v j
  proof -
    have "j \<in> set (user_queue s v)"
      using that remove_from_queue [OF act] by (auto split: if_splits dest: set_remove1_subset [THEN subsetD])
    with fair_inv_users(3) [OF inv] same show ?thesis by simp
  qed
  show "mget (f_user s') j \<noteq> None" if "j \<in> set (f_entering s')" for j
    using that fair_inv_users(4) [OF inv] same by simp
qed (use act in \<open>auto simp: Let_def split: if_splits option.splits\<close>)

lemma fair_inv_do:
  assumes inv: "fair_inv cfg s" and act: "fair_do a s = Some s'"
  shows "fair_inv cfg s'"
proof -
  note W = fair_inv_work [OF inv]
  show ?thesis
  proof (cases a)
    case (Uncount k)
    with act have k: "k \<in> set (f_finishing s)" by (simp split: if_splits)
    with act Uncount have s': "s' = the (fair_do (Uncount k) s)" by simp
    show ?thesis using W length_remove1_in [OF k]
      unfolding s' by (intro fair_inv_channels [OF inv]) (simp_all add: k)
  next
    case (Release k)
    with act have k: "k \<in> set (f_replied s)" by (simp split: if_splits)
    with act Release have s': "s' = the (fair_do (Release k) s)" by simp
    show ?thesis using W length_remove1_in [OF k]
      unfolding s' by (intro fair_inv_channels [OF inv]) (simp_all add: k)
  next
    case (Answer k r)
    with act have k: "k \<in> set (f_exec s)" by (simp split: if_splits)
    with act Answer have s': "s' = the (fair_do (Answer k r) s)" by simp
    show ?thesis using W length_remove1_in [OF k]
      unfolding s' by (intro fair_inv_channels [OF inv]) (simp_all add: k)
  next
    case Take
    then show ?thesis using act W by (intro fair_inv_channels [OF inv]) (auto split: if_splits list.splits)
  next
    case Start
    then show ?thesis using act W by (intro fair_inv_channels [OF inv]) (auto split: if_splits option.splits)
  next
    case Count
    then show ?thesis using act W by (intro fair_inv_channels [OF inv]) (auto split: if_splits option.splits)
  next
    case (Send k)
    then show ?thesis using act W by (intro fair_inv_channels [OF inv]) (auto split: if_splits option.splits)
  next
    case (Enter k u)
    then show ?thesis using act fair_inv_enter [OF inv] by simp
  next
    case (Admit k)
    then show ?thesis using act fair_inv_admit [OF inv] by simp
  next
    case (RemoveFromQueue k)
    then show ?thesis using act fair_inv_remove [OF inv] by simp
  qed (use act in \<open>auto intro!: fair_inv_same [OF inv] split: if_splits option.splits\<close>)
qed

lemma fair_inv_new: "fair_inv (f_cfg (NewFairShareScheduler cfg)) (NewFairShareScheduler cfg)"
  by (auto simp: fair_inv_def NewFairShareScheduler_def Let_def user_queue_def incoming_cap_def)

lemma fair_inv_reach: "fair_reach s t \<Longrightarrow> fair_inv cfg s \<Longrightarrow> fair_inv cfg t"
  by (induction rule: fair_reach.induct) (auto intro: fair_inv_do)

section \<open>Requests that nobody will remove\<close>

text \<open>Every place from which a request can still get to \<open>removeFromQueue\<close>.\<close>

definition alive :: "fair_sched \<Rightarrow> nat set" where
  "alive s = set (f_entering s) \<union> set (f_sending s) \<union> set (f_incoming s) \<union> set_option (f_held s) \<union> set_option (f_slot s) \<union>
     set (f_exec s) \<union> set (f_replied s) \<union> set (f_finishing s) \<union> set (f_removing s)"

lemma alive_do:
  assumes "fair_do a s = Some s'"
  shows "alive s' \<subseteq> alive s \<union> {k. mget (f_user s) k = None}"
  using assms
  by (cases a) (auto simp: alive_def Let_def split: if_splits option.splits list.splits
      dest!: set_remove1_subset [THEN subsetD])

text \<open>A full queue of abandoned requests is never touched again.\<close>

lemma dead_queue_do:
  assumes inv: "fair_inv cfg s" and dead: "set (user_queue s u) \<inter> alive s = {}"
    and full: "int (length (user_queue s u)) = MaxQueueDepth cfg" and act: "fair_do a s = Some s'"
  shows "user_queue s' u = user_queue s u \<and> set (user_queue s' u) \<inter> alive s' = {}"
proof -
  have cfg: "f_cfg s = cfg" using inv by (simp add: fair_inv_def)
  have "user_queue s' u = user_queue s u"
  proof (cases a)
    case (RemoveFromQueue k)
    with act dead have "k \<notin> set (user_queue s u)" by (auto simp: alive_def split: if_splits)
    then show ?thesis
      using remove_from_queue [OF act [unfolded RemoveFromQueue]] by (auto simp: remove1_idem)
  next
    case (Admit k)
    with act full cfg show ?thesis
      by (auto simp: Let_def user_queue_def user_of_def split: if_splits)
  qed (use act in \<open>auto simp: user_queue_def Let_def split: if_splits option.splits list.splits\<close>)
  moreover have "mget (f_user s) k \<noteq> None" if "k \<in> set (user_queue s u)" for k
    using inv that unfolding fair_inv_def by blast
  then have "set (user_queue s u) \<inter> alive s' = {}" using alive_do [OF act] dead by blast
  ultimately show ?thesis by simp
qed

lemma dead_queue_reach:
  assumes "fair_reach s t" "fair_inv cfg s" "set (user_queue s u) \<inter> alive s = {}"
    "int (length (user_queue s u)) = MaxQueueDepth cfg"
  shows "user_queue t u = user_queue s u \<and> set (user_queue t u) \<inter> alive t = {}"
  using assms
proof (induction rule: fair_reach.induct)
  case (act s t a t')
  then have inv: "fair_inv cfg t" by (blast intro: fair_inv_reach)
  from act have t: "user_queue t u = user_queue s u" "set (user_queue t u) \<inter> alive t = {}" by blast+
  have "int (length (user_queue t u)) = MaxQueueDepth cfg" using act.prems(3) t(1) by simp
  from dead_queue_do [OF inv t(2) this act.hyps(2)] t(1) show ?case by metis
qed simp

section \<open>Properties\<close>

text \<open>C16: in every interleaving of callers, loop and workers at most \<open>MaxConcurrency\<close> requests hold a
  slot, no user has more than \<open>MaxQueueDepth\<close> requests pending, and requests are taken up in exactly
  the order in which they were sent, whoever sent them (first come, first served, and not in turn).\<close>

theorem fair_share_bounds:
  assumes "fair_reach (NewFairShareScheduler cfg) s"
  shows "int (length (f_exec s) + length (f_replied s)) \<le> MaxConcurrency (f_cfg s) \<and>
    (\<forall>u. int (length (user_queue s u)) \<le> MaxQueueDepth (f_cfg s)) \<and> f_sent s = f_taken s @ f_incoming s"
  using fair_inv_reach [OF assms fair_inv_new] by (auto simp: fair_inv_def split: if_splits)

definition one_slot :: fair_config where
  "one_slot = \<lparr>MaxQueueDepth = 1, MaxConcurrency = 1, fc_RequestTimeout = minute\<rparr>"

definition served :: fair_sched where
  "served = the (fair_run [Enter 0 ''amy'', Admit 0, Send 0, Take, Start, Count, Answer 0 (Inl NoHealthyUpstream),
     ReceiveReply 0, Release 0, Uncount 0, RemoveFromQueue 0, Enter 1 ''amy'', Admit 1, Send 1]
     (NewFairShareScheduler one_slot))"

lemma fair_share_bounds_witness:
  "f_taken served = [0] \<and> f_incoming served = [1] \<and> f_sent served = [0, 1] \<and>
   int (length (user_queue served ''amy'')) \<le> 1"
proof -
  have run: "fair_run [Enter 0 ''amy'', Admit 0, Send 0, Take, Start, Count, Answer 0 (Inl NoHealthyUpstream),
     ReceiveReply 0, Release 0, Uncount 0, RemoveFromQueue 0, Enter 1 ''amy'', Admit 1, Send 1]
     (NewFairShareScheduler one_slot) = Some served"
    unfolding served_def by code_simp
  have served: "f_taken served = [0]" "f_incoming served = [1]" "MaxQueueDepth (f_cfg served) = 1"
    unfolding served_def by code_simp+
  from fair_share_bounds [OF fair_run_reach [OF fair_reach.here run]] show ?thesis by (simp add: served)
qed

text \<open>requests whose context ends before a worker takes them stay in their user's queue. Once
  such requests fill it, no later event, whatever happens, lets that user submit anything again.\<close>

theorem fair_share_lockout:
  assumes "fair_reach (NewFairShareScheduler cfg) s" "set (user_queue s u) \<inter> alive s = {}"
    "int (length (user_queue s u)) = MaxQueueDepth (f_cfg s)" "fair_reach s t" "user_of t k = u"
    "fair_do (Admit k) t = Some t'"
  shows "mget (f_result t') k = Some (Inl (UserQueueFull u (MaxQueueDepth (f_cfg s))))"
proof -
  have inv: "fair_inv (f_cfg s) s" using fair_inv_reach [OF assms(1) fair_inv_new] by (simp add: fair_inv_def)
  have "f_cfg t = f_cfg s" using fair_inv_reach [OF assms(4) inv] by (simp add: fair_inv_def)
  with dead_queue_reach [OF assms(4) inv assms(2,3)] assms(3,5,6) show ?thesis
    by (auto simp: Let_def user_of_def user_queue_def submit_returns_def split: if_splits)
qed

definition abandoned_run :: "fair_act list" where
  "abandoned_run = [Enter 0 ''amy'', Admit 0, Cancel 0, SendCancelled 0 Canceled]"

definition abandoned :: fair_sched where
  "abandoned = the (fair_run abandoned_run (NewFairShareScheduler one_slot))"

lemma fair_share_lockout_witness:
  "mget (f_result (the (fair_run [Enter 1 ''amy'', Admit 1] abandoned))) 1 = Some (Inl (UserQueueFull ''amy'' 1))"
proof -
  let ?t = "the (fair_run [Enter 1 ''amy''] abandoned)"
  let ?t' = "the (fair_run [Enter 1 ''amy'', Admit 1] abandoned)"
  have run: "fair_run abandoned_run (NewFairShareScheduler one_slot) = Some abandoned"
    "fair_run [Enter 1 ''amy''] abandoned = Some ?t" "fair_do (Admit 1) ?t = Some ?t'"
    unfolding abandoned_def by code_simp+
  have dead: "set (user_queue abandoned ''amy'') \<inter> alive abandoned = {}"
    "int (length (user_queue abandoned ''amy'')) = MaxQueueDepth (f_cfg abandoned)"
    "MaxQueueDepth (f_cfg abandoned) = 1" "user_of ?t 1 = ''amy''"
    unfolding abandoned_def by code_simp+
  from fair_share_lockout [OF fair_run_reach [OF fair_reach.here run(1)] dead(1,2)
      fair_run_reach [OF fair_reach.here run(2)] dead(4) run(3)]
  show ?thesis by (simp only: dead(3))
qed

end
