(* ===== verification/Request_Queue.thy ===== *)
theory Request_Queue
  imports Llm_Types
begin

text \<open>
  \<open>pkg/llm/queue.go\<close>: the bounded request queue in front of a provider. Callers, workers and
  \<open>Shutdown\<close> run concurrently: every channel operation, every atomic section and the deferred
  clean-up is one action of \<open>queue_do\<close>, and \<open>queue_reach\<close> is what interleavings can reach. A
  request is a number with its memory estimate; a worker is counted as idle, draining, exited or busy
  with a request (with a flag that says whether it drains).
\<close>

section \<open>Configuration\<close>

record queue_config =
  MaxPending :: int
  MaxConcurrent :: int
  MaxMemoryMB :: int
  q_RequestTimeout :: duration
  BackpressureDelay :: duration

definition DefaultQueueConfig :: queue_config where
  "DefaultQueueConfig = \<lparr>MaxPending = 100, MaxConcurrent = 4, MaxMemoryMB = 512,
     q_RequestTimeout = 5 * minute, BackpressureDelay = 2 * second\<rparr>"

definition queue_defaults :: "queue_config \<Rightarrow> queue_config" where
  "queue_defaults cfg =
     (let cfg = (if MaxPending cfg \<le> 0 then cfg\<lparr>MaxPending := 100\<rparr> else cfg);
          cfg = (if MaxConcurrent cfg \<le> 0 then cfg\<lparr>MaxConcurrent := 4\<rparr> else cfg);
          cfg = (if MaxMemoryMB cfg \<le> 0 then cfg\<lparr>MaxMemoryMB := 512\<rparr> else cfg);
          cfg = (if q_RequestTimeout cfg \<le> 0 then cfg\<lparr>q_RequestTimeout := 5 * minute\<rparr> else cfg)
      in if BackpressureDelay cfg \<le> 0 then cfg\<lparr>BackpressureDelay := 2 * second\<rparr> else cfg)"

definition defaultEstimateMemory :: "completion_request \<Rightarrow> int" where
  "defaultEstimateMemory req =
     (let total = foldl (\<lambda>t m. t + int (length (Content m)) * 4) 0 (Messages req) in
      if total < 1024 then 1024 else total)"

section \<open>State and actions\<close>

record queue_state =
  q_cfg :: queue_config
  q_estimate :: "(nat, int) gomap"
  q_checking :: "nat list"
  q_delaying :: "nat list"
  q_sending :: "nat list"
  q_waiting :: "nat list"
  q_pending :: "nat list"
  q_taken :: "(nat \<times> bool) list"
  q_charged :: "(nat \<times> bool) list"
  q_exec :: "(nat \<times> bool) list"
  q_replied :: "(nat \<times> bool) list"
  q_uncounted :: "(nat \<times> bool) list"
  q_idle :: int
  q_draining :: int
  q_exited :: int
  q_memory :: int
  q_inflight :: int
  q_reply :: "(nat, llm_error + completion_response) gomap"
  q_result :: "(nat, llm_error + completion_response) gomap"
  q_cancelled :: "nat list"
  q_closed :: bool

definition NewQueuedProvider :: "queue_config \<Rightarrow> queue_state" where
  "NewQueuedProvider cfg =
     \<lparr>q_cfg = queue_defaults cfg, q_estimate = [], q_checking = [], q_delaying = [], q_sending = [],
      q_waiting = [], q_pending = [], q_taken = [], q_charged = [], q_exec = [],
      q_replied = [], q_uncounted = [], q_idle = MaxConcurrent (queue_defaults cfg), q_draining = 0, q_exited = 0, q_memory = 0, q_inflight = 0,
      q_reply = [], q_result = [], q_cancelled = [], q_closed = False\<rparr>"

definition estimate_of :: "queue_state \<Rightarrow> nat \<Rightarrow> int" where
  "estimate_of s k = mget_or 0 (q_estimate s) k"

definition over_budget :: "queue_state \<Rightarrow> nat \<Rightarrow> bool" where
  "over_budget s k = (MaxMemoryMB (q_cfg s) * 1024 * 1024 < q_memory s + estimate_of s k)"

definition complete_returns :: "nat \<Rightarrow> llm_error + completion_response \<Rightarrow> queue_state \<Rightarrow> queue_state" where
  "complete_returns k r s = s\<lparr>q_result := mset_at (q_result s) k r\<rparr>"

datatype queue_act =
    QEnter nat completion_request
  | QCheck nat
  | QDelayOver nat
  | QDelayCancelled nat ctx_error
  | QSend nat
  | QSendCancelled nat ctx_error
  | QSendClosed nat
  | QReceive nat
  | QWaitClosed nat
  | QWaitCancelled nat ctx_error
  | WorkerTake
  | WorkerDone
  | DrainTake
  | DrainExit
  | Charge nat bool
  | QCount nat bool
  | QAnswer nat bool "llm_error + completion_response"
  | QUncount nat bool
  | QUncharge nat bool
  | QCancel nat
  | QShutdown

fun queue_do :: "queue_act \<Rightarrow> queue_state \<Rightarrow> queue_state option" where
  "queue_do (QEnter k req) s =
     (if mget (q_estimate s) k \<noteq> None then None
      else let s = s\<lparr>q_estimate := mset_at (q_estimate s) k (defaultEstimateMemory req)\<rparr> in
        if q_closed s then Some (complete_returns k (Inl QueueShutdown) s)
        else Some (s\<lparr>q_checking := k # q_checking s\<rparr>))"
| "queue_do (QCheck k) s =
     (if k \<notin> set (q_checking s) then None
      else let s = s\<lparr>q_checking := remove1 k (q_checking s)\<rparr> in
        if over_budget s k then Some (s\<lparr>q_delaying := k # q_delaying s\<rparr>)
        else Some (s\<lparr>q_sending := k # q_sending s\<rparr>))"
| "queue_do (QDelayOver k) s =
     (if k \<notin> set (q_delaying s) then None
      else let s = s\<lparr>q_delaying := remove1 k (q_delaying s)\<rparr> in
        if over_budget s k then Some (complete_returns k (Inl MemoryBudgetExceeded) s)
        else Some (s\<lparr>q_sending := k # q_sending s\<rparr>))"
| "queue_do (QDelayCancelled k e) s =
     (if k \<in> set (q_delaying s) \<and> k \<in> set (q_cancelled s)
      then Some (complete_returns k (Inl (BackpressureDelayed e)) (s\<lparr>q_delaying := remove1 k (q_delaying s)\<rparr>)) else None)"
| "queue_do (QSend k) s =
     (if k \<in> set (q_sending s) \<and> int (length (q_pending s)) < MaxPending (q_cfg s)
      then Some (s\<lparr>q_sending := remove1 k (q_sending s), q_pending := q_pending s @ [k], q_waiting := k # q_waiting s\<rparr>)
      else None)"
| "queue_do (QSendCancelled k e) s =
     (if k \<in> set (q_sending s) \<and> k \<in> set (q_cancelled s)
      then Some (complete_returns k (Inl (CtxErr e)) (s\<lparr>q_sending := remove1 k (q_sending s)\<rparr>)) else None)"
| "queue_do (QSendClosed k) s =
     (if k \<in> set (q_sending s) \<and> q_closed s
      then Some (complete_returns k (Inl QueueShutdown) (s\<lparr>q_sending := remove1 k (q_sending s)\<rparr>)) else None)"
| "queue_do (QReceive k) s =
     (if k \<notin> set (q_waiting s) then None
      else case mget (q_reply s) k of
        None \<Rightarrow> None
      | Some r \<Rightarrow> Some (complete_returns k r (s\<lparr>q_waiting := remove1 k (q_waiting s)\<rparr>)))"
| "queue_do (QWaitClosed k) s =
     (if k \<in> set (q_waiting s) \<and> q_closed s
      then Some (complete_returns k (case mget (q_reply s) k of Some r \<Rightarrow> r | None \<Rightarrow> Inl QueueShutdown)
        (s\<lparr>q_waiting := remove1 k (q_waiting s)\<rparr>)) else None)"
| "queue_do (QWaitCancelled k e) s =
     (if k \<in> set (q_waiting s) \<and> k \<in> set (q_cancelled s)
      then Some (complete_returns k (Inl (CtxErr e)) (s\<lparr>q_waiting := remove1 k (q_waiting s)\<rparr>)) else None)"
| "queue_do WorkerTake s =
     (case q_pending s of
        [] \<Rightarrow> None
      | k # ks \<Rightarrow> if 0 < q_idle s
          then Some (s\<lparr>q_idle := q_idle s - 1, q_pending := ks, q_taken := (k, False) # q_taken s\<rparr>) else None)"
| "queue_do WorkerDone s =
     (if q_closed s \<and> 0 < q_idle s then Some (s\<lparr>q_idle := q_idle s - 1, q_draining := q_draining s + 1\<rparr>) else None)"
| "queue_do DrainTake s =
     (case q_pending s of
        [] \<Rightarrow> None
      | k # ks \<Rightarrow> if 0 < q_draining s
          then Some (s\<lparr>q_draining := q_draining s - 1, q_pending := ks, q_taken := (k, True) # q_taken s\<rparr>) else None)"
| "queue_do DrainExit s =
     (if q_pending s = [] \<and> 0 < q_draining s
      then Some (s\<lparr>q_draining := q_draining s - 1, q_exited := q_exited s + 1\<rparr>) else None)"
| "queue_do (Charge k b) s =
     (if (k, b) \<in> set (q_taken s)
      then Some (s\<lparr>q_taken := remove1 (k, b) (q_taken s), q_charged := (k, b) # q_charged s,
        q_memory := q_memory s + estimate_of s k\<rparr>) else None)"
| "queue_do (QCount k b) s =
     (if (k, b) \<in> set (q_charged s)
      then Some (s\<lparr>q_charged := remove1 (k, b) (q_charged s), q_exec := (k, b) # q_exec s,
        q_inflight := q_inflight s + 1\<rparr>) else None)"
| "queue_do (QAnswer k b r) s =
     (if (k, b) \<in> set (q_exec s)
      then Some (s\<lparr>q_exec := remove1 (k, b) (q_exec s), q_replied := (k, b) # q_replied s,
        q_reply := mset_at (q_reply s) k r\<rparr>) else None)"
| "queue_do (QUncount k b) s =
     (if (k, b) \<in> set (q_replied s)
      then Some (s\<lparr>q_replied := remove1 (k, b) (q_replied s), q_uncounted := (k, b) # q_uncounted s,
        q_inflight := q_inflight s - 1\<rparr>) else None)"
| "queue_do (QUncharge k b) s =
     (if (k, b) \<in> set (q_uncounted s)
      then Some (s\<lparr>q_uncounted := remove1 (k, b) (q_uncounted s), q_memory := q_memory s - estimate_of s k,
        q_idle := q_idle s + (if b then 0 else 1), q_draining := q_draining s + (if b then 1 else 0)\<rparr>) else None)"
| "queue_do (QCancel k) s = Some (s\<lparr>q_cancelled := k # q_cancelled s\<rparr>)"
| "queue_do QShutdown s = Some (s\<lparr>q_closed := True\<rparr>)"

inductive queue_reach :: "queue_state \<Rightarrow> queue_state \<Rightarrow> bool" where
  none: "queue_reach s s"
| act: "queue_reach s t \<Longrightarrow> queue_do a t = Some t' \<Longrightarrow> queue_reach s t'"

fun queue_run :: "queue_act list \<Rightarrow> queue_state \<Rightarrow> queue_state option" where
  "queue_run [] s = Some s"
| "queue_run (a # as) s = (case queue_do a s of None \<Rightarrow> None | Some s \<Rightarrow> queue_run as s)"

text \<open>\<open>Shutdown\<close> returns without error once every worker has exited.\<close>

definition shutdown_complete :: "queue_state \<Rightarrow> bool" where
  "shutdown_complete s = (q_exited s = MaxConcurrent (q_cfg s))"

record queue_stats =
  PendingRequests :: int
  InflightRequests :: int
  MemoryUsedMB :: int
  MemoryLimitMB :: int

definition queue_Stats :: "queue_state \<Rightarrow> queue_stats" where
  "queue_Stats s = \<lparr>PendingRequests = int (length (q_pending s)), InflightRequests = q_inflight s,
     MemoryUsedMB = go_div (q_memory s) (1024 * 1024), MemoryLimitMB = MaxMemoryMB (q_cfg s)\<rparr>"

lemma queue_run_reach: "queue_reach s t \<Longrightarrow> queue_run as t = Some t' \<Longrightarrow> queue_reach s t'"
  by (induction as t rule: queue_run.induct) (auto split: option.splits intro: queue_reach.act)

section \<open>Invariant\<close>

definition charged :: "(nat, int) gomap \<Rightarrow> (nat \<times> bool) list \<Rightarrow> int" where
  "charged est xs = sum_list (map (\<lambda>(k, b). mget_or 0 est k) xs)"

text \<open>The requests whose memory is charged.\<close>

definition charged_reqs :: "queue_state \<Rightarrow> (nat \<times> bool) list" where
  "charged_reqs s = q_charged s @ q_exec s @ q_replied s @ q_uncounted s"

text \<open>The part about the workers and what they hold, and the part about the waiting requests.\<close>

definition workers_inv :: "queue_config \<Rightarrow> queue_state \<Rightarrow> bool" where
  "workers_inv cfg s \<longleftrightarrow>
     0 \<le> q_idle s \<and> 0 \<le> q_draining s \<and> 0 \<le> q_exited s \<and>
     q_idle s + q_draining s + q_exited s + int (length (q_taken s)) + int (length (charged_reqs s)) =
       MaxConcurrent cfg \<and>
     q_inflight s = int (length (q_exec s) + length (q_replied s)) \<and>
     q_memory s = charged (q_estimate s) (charged_reqs s)"

definition known :: "queue_state \<Rightarrow> nat set" where
  "known s = {k. mget (q_estimate s) k \<noteq> None}"

definition worker_ids :: "queue_state \<Rightarrow> nat set" where
  "worker_ids s = fst ` set (q_taken s) \<union> fst ` set (charged_reqs s)"

definition caller_ids :: "queue_state \<Rightarrow> nat set" where
  "caller_ids s = set (q_pending s) \<union> set (q_checking s) \<union> set (q_delaying s) \<union> set (q_sending s)"

definition queue_inv :: "queue_config \<Rightarrow> queue_state \<Rightarrow> bool" where
  "queue_inv cfg s \<longleftrightarrow> q_cfg s = cfg \<and> workers_inv cfg s \<and> int (length (q_pending s)) \<le> MaxPending cfg \<and>
     worker_ids s \<subseteq> known s \<and> caller_ids s \<subseteq> known s"

lemma complete_returns_frame [simp]:
  "q_cfg (complete_returns k r s) = q_cfg s" "q_estimate (complete_returns k r s) = q_estimate s"
  "q_checking (complete_returns k r s) = q_checking s" "q_delaying (complete_returns k r s) = q_delaying s"
  "q_sending (complete_returns k r s) = q_sending s" "q_pending (complete_returns k r s) = q_pending s"
  "q_taken (complete_returns k r s) = q_taken s" "q_exec (complete_returns k r s) = q_exec s"
  "q_replied (complete_returns k r s) = q_replied s" "q_charged (complete_returns k r s) = q_charged s"
  "q_uncounted (complete_returns k r s) = q_uncounted s" "charged_reqs (complete_returns k r s) = charged_reqs s" "q_idle (complete_returns k r s) = q_idle s"
  "q_draining (complete_returns k r s) = q_draining s" "q_exited (complete_returns k r s) = q_exited s"
  "q_memory (complete_returns k r s) = q_memory s" "q_inflight (complete_returns k r s) = q_inflight s"
  "known (complete_returns k r s) = known s"
  by (simp_all add: complete_returns_def known_def charged_reqs_def)

lemma charged_Cons [simp]: "charged est (x # xs) = mget_or 0 est (fst x) + charged est xs"
  by (simp add: charged_def case_prod_unfold)

lemma charged_append [simp]: "charged est (xs @ ys) = charged est xs + charged est ys"
  by (simp add: charged_def)

lemma charged_remove1: "x \<in> set xs \<Longrightarrow> charged est (remove1 x xs) = charged est xs - mget_or 0 est (fst x)"
  by (induction xs) auto

lemma charged_enter:
  "mget est k = None \<Longrightarrow> fst ` set xs \<subseteq> {j. mget est j \<noteq> None} \<Longrightarrow> charged (mset_at est k v) xs = charged est xs"
  by (induction xs) (auto simp: charged_def)

lemma length_remove1_mem: "x \<in> set xs \<Longrightarrow> int (length (remove1 x xs)) = int (length xs) - 1"
  by (induction xs) auto

lemmas workers_simps = workers_inv_def charged_reqs_def charged_remove1 length_remove1_mem estimate_of_def

lemma workers_inv_same:
  assumes "workers_inv cfg s" "q_idle s' = q_idle s" "q_draining s' = q_draining s" "q_exited s' = q_exited s"
    "q_taken s' = q_taken s" "q_charged s' = q_charged s" "q_exec s' = q_exec s" "q_replied s' = q_replied s"
    "q_uncounted s' = q_uncounted s" "q_inflight s' = q_inflight s"
    "q_memory s' = q_memory s" "q_estimate s' = q_estimate s"
  shows "workers_inv cfg s'"
  using assms by (simp add: workers_inv_def charged_reqs_def)

lemma workers_inv_do:
  assumes inv: "queue_inv cfg s" and act: "queue_do a s = Some s'"
  shows "workers_inv cfg s'"
proof -
  have W: "workers_inv cfg s" and known: "fst ` set (charged_reqs s) \<subseteq> known s"
    using inv by (auto simp: queue_inv_def worker_ids_def)
  note W' = W [unfolded workers_inv_def charged_reqs_def]
  show ?thesis
  proof (cases a)
    case (QEnter k req)
    then show ?thesis using act W' known
      by (auto simp: workers_inv_def charged_reqs_def Let_def known_def charged_enter image_Un split: if_splits)
  next
    case WorkerTake
    then show ?thesis using act W' by (auto simp: workers_simps split: list.splits if_splits)
  next
    case WorkerDone
    then show ?thesis using act W' by (auto simp: workers_simps split: if_splits)
  next
    case DrainTake
    then show ?thesis using act W' by (auto simp: workers_simps split: list.splits if_splits)
  next
    case DrainExit
    then show ?thesis using act W' by (auto simp: workers_simps split: if_splits)
  next
    case (Charge k b)
    then show ?thesis using act W' by (auto simp: workers_simps simp del: length_remove1 split: if_splits)
  next
    case (QCount k b)
    then show ?thesis using act W' by (auto simp: workers_simps simp del: length_remove1 split: if_splits)
  next
    case (QAnswer k b r)
    then show ?thesis using act W' by (auto simp: workers_simps simp del: length_remove1 split: if_splits)
  next
    case (QUncount k b)
    then show ?thesis using act W' by (auto simp: workers_simps simp del: length_remove1 split: if_splits)
  next
    case (QUncharge k b)
    then show ?thesis using act W' by (auto simp: workers_simps simp del: length_remove1 split: if_splits)
  qed (use act in \<open>auto intro!: workers_inv_same [OF W] simp: Let_def split: if_splits option.splits\<close>)
qed

lemma in_remove1D: "x \<in> set (remove1 y xs) \<Longrightarrow> x \<in> set xs"
  using set_remove1_subset by fast

lemma ids_update [simp]:
  "worker_ids (complete_returns k r s) = worker_ids s" "caller_ids (complete_returns k r s) = caller_ids s"
  by (simp_all add: worker_ids_def caller_ids_def)

lemma worker_ids_do: "queue_do a s = Some s' \<Longrightarrow> worker_ids s' \<subseteq> worker_ids s \<union> caller_ids s"
  by (cases a) (auto 4 4 simp: image_iff image_Un Let_def worker_ids_def charged_reqs_def caller_ids_def split: if_splits option.splits list.splits
      dest!: in_remove1D)

lemma caller_ids_do: "queue_do a s = Some s' \<Longrightarrow> caller_ids s' \<subseteq> caller_ids s \<union> known s'"
  by (cases a) (auto simp: Let_def known_def caller_ids_def split: if_splits option.splits list.splits
      dest!: in_remove1D)

lemma queue_inv_do:
  assumes inv: "queue_inv cfg s" and act: "queue_do a s = Some s'"
  shows "queue_inv cfg s'"
proof -
  have base: "q_cfg s = cfg" "int (length (q_pending s)) \<le> MaxPending cfg"
    using inv by (simp_all add: queue_inv_def)
  have cfg: "q_cfg s' = q_cfg s"
    using act by (cases a) (auto simp: Let_def split: if_splits option.splits list.splits)
  have len: "int (length (q_pending s')) \<le> MaxPending cfg"
    using act base by (cases a) (auto simp: Let_def split: if_splits option.splits list.splits)
  have grow: "known s \<subseteq> known s'"
    using act by (cases a) (auto simp: Let_def known_def split: if_splits option.splits list.splits)
  have "worker_ids s' \<subseteq> worker_ids s \<union> caller_ids s"
    using act worker_ids_do by blast
  moreover have "caller_ids s' \<subseteq> caller_ids s \<union> known s'"
    using act caller_ids_do by blast
  ultimately have "worker_ids s' \<subseteq> known s'" "caller_ids s' \<subseteq> known s'"
    using inv grow unfolding queue_inv_def by blast+
  with workers_inv_do [OF inv act] base(1) cfg len show ?thesis by (simp add: queue_inv_def)
qed

lemma queue_defaults_pos:
  "0 < MaxPending (queue_defaults cfg)" "0 < MaxConcurrent (queue_defaults cfg)" "0 < MaxMemoryMB (queue_defaults cfg)"
  by (simp_all add: queue_defaults_def Let_def)

lemma queue_inv_new: "queue_inv (queue_defaults cfg) (NewQueuedProvider cfg)"
  using queue_defaults_pos [of cfg]
  by (simp add: queue_inv_def workers_inv_def NewQueuedProvider_def charged_def charged_reqs_def worker_ids_def caller_ids_def)

lemma queue_inv_reach: "queue_reach s t \<Longrightarrow> queue_inv cfg s \<Longrightarrow> queue_inv cfg t"
  by (induction rule: queue_reach.induct) (auto intro: queue_inv_do)

section \<open>Properties\<close>

text \<open>C17: in every interleaving the number of requests in flight stays between 0 and
  \<open>MaxConcurrent\<close>, the channel within its capacity, and the memory in use is exactly the sum of the
  estimates of the requests that workers have charged and not yet discharged, never more than
  \<open>MaxConcurrent\<close> of them; a completed shutdown leaves none of either.\<close>

theorem queue_accounting:
  assumes "queue_reach (NewQueuedProvider cfg) s"
  shows "0 \<le> q_inflight s \<and> q_inflight s \<le> MaxConcurrent (queue_defaults cfg) \<and>
    int (length (q_pending s)) \<le> MaxPending (queue_defaults cfg) \<and>
    q_inflight s = int (length (q_exec s @ q_replied s)) \<and>
    q_memory s = sum_list (map (estimate_of s \<circ> fst) (charged_reqs s)) \<and>
    int (length (charged_reqs s)) \<le> MaxConcurrent (queue_defaults cfg) \<and>
    (shutdown_complete s \<longrightarrow> q_inflight s = 0 \<and> q_memory s = 0)"
proof -
  have inv: "queue_inv (queue_defaults cfg) s" by (rule queue_inv_reach [OF assms queue_inv_new])
  have sum: "charged (q_estimate s) xs = sum_list (map (estimate_of s \<circ> fst) xs)" for xs
    by (simp add: charged_def estimate_of_def comp_def case_prod_unfold)
  have empty: "charged_reqs s = []" if "shutdown_complete s"
  proof -
    have "0 \<le> q_idle s" "0 \<le> q_draining s"
      "q_idle s + q_draining s + int (length (q_taken s)) + int (length (charged_reqs s)) = 0"
      using inv that by (simp_all add: queue_inv_def workers_inv_def shutdown_complete_def)
    then have "length (charged_reqs s) = 0" by linarith
    then show ?thesis by simp
  qed
  have "length (q_exec s @ q_replied s) \<le> length (charged_reqs s)" by (simp add: charged_reqs_def)
  then show ?thesis
    using inv empty by (auto simp: queue_inv_def workers_inv_def sum charged_reqs_def)
qed

definition page_request :: "nat \<Rightarrow> completion_request" where
  "page_request n = \<lparr>Model = ''qwen'', Messages = [\<lparr>Role = ''user'', Content = replicate n CHR ''x'', Reasoning = []\<rparr>],
     Temperature = None, MaxTokens = None, DisableThinking = False\<rparr>"

lemma page_request_estimate: "256 \<le> n \<Longrightarrow> defaultEstimateMemory (page_request n) = int n * 4"
  by (simp add: defaultEstimateMemory_def page_request_def Let_def)

definition one_worker_run :: "queue_act list" where
  "one_worker_run = [QEnter 0 (page_request 3), QCheck 0, QSend 0, WorkerTake, Charge 0 False, QCount 0 False,
     QAnswer 0 False (Inl NoNodes), QReceive 0, QShutdown, QUncount 0 False, QUncharge 0 False, WorkerDone, DrainExit]"

definition one_worker :: queue_config where
  "one_worker = \<lparr>MaxPending = 1, MaxConcurrent = 1, MaxMemoryMB = 1, q_RequestTimeout = 1, BackpressureDelay = 1\<rparr>"

lemma queue_accounting_witness:
  "q_exited (the (queue_run one_worker_run (NewQueuedProvider one_worker))) = 1 \<and>
   q_memory (the (queue_run one_worker_run (NewQueuedProvider one_worker))) = 0"
proof -
  let ?s = "the (queue_run one_worker_run (NewQueuedProvider one_worker))"
  have run: "queue_run one_worker_run (NewQueuedProvider one_worker) = Some ?s" by code_simp
  have "shutdown_complete ?s" "q_exited ?s = 1" by code_simp+
  with queue_accounting [OF queue_run_reach [OF queue_reach.none run]] show ?thesis by simp
qed

text \<open>the memory budget is no bound: the check counts only requests that a worker has charged, so two
  requests that fit the budget one at a time are admitted together and are in flight together.\<close>

theorem queue_budget_soft:
  assumes "2 \<le> MaxConcurrent cfg" "2 \<le> MaxPending cfg" "0 < MaxMemoryMB cfg"
    "defaultEstimateMemory r1 \<le> MaxMemoryMB cfg * 1024 * 1024" "defaultEstimateMemory r2 \<le> MaxMemoryMB cfg * 1024 * 1024"
  shows "\<exists>s. queue_reach (NewQueuedProvider cfg) s \<and> q_memory s = defaultEstimateMemory r1 + defaultEstimateMemory r2"
proof -
  let ?run = "[QEnter 0 r1, QCheck 0, QEnter 1 r2, QCheck 1, QSend 0, QSend 1, WorkerTake, WorkerTake,
    Charge 0 False, Charge 1 False]"
  have dflt: "MaxConcurrent (queue_defaults cfg) = MaxConcurrent cfg" "MaxPending (queue_defaults cfg) = MaxPending cfg"
    "MaxMemoryMB (queue_defaults cfg) = MaxMemoryMB cfg"
    using assms(1-3) by (simp_all add: queue_defaults_def Let_def)
  have "\<exists>s. queue_run ?run (NewQueuedProvider cfg) = Some s \<and>
      q_memory s = defaultEstimateMemory r1 + defaultEstimateMemory r2"
    using assms by (simp add: NewQueuedProvider_def dflt over_budget_def estimate_of_def Let_def)
  then show ?thesis using queue_run_reach [OF queue_reach.none] by blast
qed

lemma queue_budget_soft_witness:
  "\<exists>s. queue_reach (NewQueuedProvider (one_worker\<lparr>MaxPending := 2, MaxConcurrent := 2\<rparr>)) s \<and> 1 * 1024 * 1024 < q_memory s"
proof -
  have "\<exists>s. queue_reach (NewQueuedProvider (one_worker\<lparr>MaxPending := 2, MaxConcurrent := 2\<rparr>)) s \<and>
      q_memory s = defaultEstimateMemory (page_request 200000) + defaultEstimateMemory (page_request 200000)"
    by (rule queue_budget_soft) (simp_all add: one_worker_def page_request_estimate)
  then show ?thesis by (auto simp: page_request_estimate)
qed

end
