(* ===== verification/Budget_Router.thy ===== *)
theory Budget_Router
  imports Go_Prelude
begin

text \<open>
  \<open>pkg/uiauto/budget/router.go\<close>: the budget-aware choice of a tier. Money is the doubles of the
  code, so that the tests compare rounded sums as the program does.
\<close>

section \<open>State and operations\<close>

record gpu_requirements =
  VRAMPerGPU_GB :: int
  GPUCount :: int
  Quantization :: string
  TensorParallel :: bool

record budget_tier =
  bt_Name :: string
  bt_CostPerCall :: f64
  bt_AvgLatencyMs :: int
  bt_SuccessRate :: f64
  bt_IsLocal :: bool
  bt_GPU :: "gpu_requirements option"

record budget_config =
  DailyCapUSD :: f64
  MonthlyCapUSD :: f64
  PreferLocal :: bool
  ResetInterval :: duration

definition DefaultBudgetConfig :: budget_config where
  "DefaultBudgetConfig = \<lparr>DailyCapUSD = flit 1, MonthlyCapUSD = flit 20, PreferLocal = True,
     ResetInterval = 24 * 60 * minute\<rparr>"

record budget_router =
  br_tiers :: "budget_tier list"
  br_config :: budget_config
  dailySpend :: f64
  monthlySpend :: f64
  lastReset :: time
  callCounts :: "(string, int) gomap"

definition NewBudgetRouter :: "time \<Rightarrow> budget_tier list \<Rightarrow> budget_config \<Rightarrow> budget_router" where
  "NewBudgetRouter now tiers cfg = \<lparr>br_tiers = tiers, br_config = cfg, dailySpend = flit 0,
     monthlySpend = flit 0, lastReset = now, callCounts = []\<rparr>"

definition maybeReset :: "time \<Rightarrow> budget_router \<Rightarrow> budget_router" where
  "maybeReset now r =
     (if ResetInterval (br_config r) \<le> time_sub now (lastReset r)
      then r\<lparr>dailySpend := flit 0, lastReset := now\<rparr> else r)"

definition canAfford :: "budget_router \<Rightarrow> budget_tier \<Rightarrow> bool" where
  "canAfford r t =
     (if bt_IsLocal t then True
      else fle (fadd (dailySpend r) (bt_CostPerCall t)) (DailyCapUSD (br_config r)) \<and>
        fle (fadd (monthlySpend r) (bt_CostPerCall t)) (MonthlyCapUSD (br_config r)))"

text \<open>The error names the spends and caps it was raised at.\<close>

datatype budget_error = BudgetExhausted f64 f64 f64 f64

definition select_tier :: "budget_router \<Rightarrow> budget_error + budget_tier" where
  "select_tier r =
     (case find (\<lambda>t. PreferLocal (br_config r) \<and> bt_IsLocal t \<or> canAfford r t) (br_tiers r) of
        Some t \<Rightarrow> Inr t
      | None \<Rightarrow>
          (case find bt_IsLocal (br_tiers r) of
             Some t \<Rightarrow> Inr t
           | None \<Rightarrow> Inl (BudgetExhausted (dailySpend r) (DailyCapUSD (br_config r)) (monthlySpend r)
               (MonthlyCapUSD (br_config r)))))"

definition SelectTier :: "time \<Rightarrow> budget_router \<Rightarrow> (budget_error + budget_tier) \<times> budget_router" where
  "SelectTier now r = (let r = maybeReset now r in (select_tier r, r))"

definition RecordCall :: "string \<Rightarrow> f64 \<Rightarrow> budget_router \<Rightarrow> budget_router" where
  "RecordCall tierName cost r =
     r\<lparr>dailySpend := fadd (dailySpend r) cost, monthlySpend := fadd (monthlySpend r) cost,
       callCounts := mincr (callCounts r) tierName\<rparr>"

definition Spend :: "budget_router \<Rightarrow> f64 \<times> f64" where
  "Spend r = (dailySpend r, monthlySpend r)"

definition CallCounts :: "budget_router \<Rightarrow> (string, int) gomap" where
  "CallCounts r = callCounts r"

definition BudgetRemaining :: "budget_router \<Rightarrow> f64" where
  "BudgetRemaining r = fsub (DailyCapUSD (br_config r)) (dailySpend r)"

definition budget_tier_of :: "string \<Rightarrow> rat \<Rightarrow> int \<Rightarrow> rat \<Rightarrow> gpu_requirements option \<Rightarrow> bool \<Rightarrow> budget_tier" where
  "budget_tier_of name cost latency rate gpu isLocal =
     \<lparr>bt_Name = name, bt_CostPerCall = flit cost, bt_AvgLatencyMs = latency, bt_SuccessRate = flit rate,
      bt_IsLocal = isLocal, bt_GPU = gpu\<rparr>"

definition DefaultTiers :: "budget_tier list" where
  "DefaultTiers =
     [budget_tier_of ''local-qwen'' 0 200 (85 / 100) None True,
      budget_tier_of ''gemini-flash'' (1 / 1000) 150 (92 / 100) None False,
      budget_tier_of ''claude-haiku'' (5 / 1000) 300 (95 / 100) None False,
      budget_tier_of ''claude-opus'' (25 / 1000) 500 (99 / 100) None False]"

definition DefaultLocalTiers :: "budget_tier list" where
  "DefaultLocalTiers =
     [budget_tier_of ''wsl-fast'' 0 120 (82 / 100)
        (Some \<lparr>VRAMPerGPU_GB = 7, GPUCount = 1, Quantization = ''Q6_K'', TensorParallel = False\<rparr>) True,
      budget_tier_of ''wsl-smart'' 0 350 (90 / 100)
        (Some \<lparr>VRAMPerGPU_GB = 18, GPUCount = 1, Quantization = ''Q4_K_M'', TensorParallel = False\<rparr>) True,
      budget_tier_of ''wsl-powerful'' 0 800 (95 / 100)
        (Some \<lparr>VRAMPerGPU_GB = 19, GPUCount = 2, Quantization = ''Q4_K_M'', TensorParallel = True\<rparr>) True]"

text \<open>A round of a client: ask for a tier, and record the call at the tier's price.\<close>

definition budget_round :: "budget_router \<Rightarrow> time \<Rightarrow> budget_router" where
  "budget_round r now = (case SelectTier now r of
     (Inr t, r) \<Rightarrow> RecordCall (bt_Name t) (bt_CostPerCall t) r
   | (Inl e, r) \<Rightarrow> r)"

section \<open>Within the caps\<close>

lemma f64_of_rat_nonneg: "0 \<le> r \<Longrightarrow> fle (f64_of_rat r) (Fin c) \<Longrightarrow> f64_of_rat r = Fin (rnd r) \<and> 0 \<le> rnd r \<and> rnd r \<le> c"
  by (auto simp: f64_of_rat_def split: if_splits)

lemma fadd_in_range:
  assumes "in_range 0 c x" "0 \<le> k" "fle (fadd x (Fin k)) (Fin c)"
  shows "in_range 0 c (fadd x (Fin k))"
proof -
  obtain a where x: "x = Fin a" "0 \<le> a" using assms(1) by (cases rule: in_range_cases) auto
  have sum: "fadd x (Fin k) = f64_of_rat (a + k)" by (simp add: x)
  with f64_of_rat_nonneg [of "a + k" c] x(2) assms(2,3) show ?thesis by simp
qed

lemma fadd_zero_in_range:
  assumes "in_range 0 c x" "rnd c = c" "c \<le> 2 ^ 53"
  shows "in_range 0 c (fadd x (Fin 0))"
proof -
  obtain a where x: "x = Fin a" "0 \<le> a" "a \<le> c" using assms(1) by (cases rule: in_range_cases) auto
  then have "f64_of_rat a = Fin (rnd a)" using assms(3) by (intro f64_of_rat_Fin) simp
  moreover have "rnd a \<le> c" using rnd_mono [OF x(3)] assms(2) by simp
  ultimately show ?thesis using x by simp
qed

lemma select_tier_sound:
  "select_tier r = Inr t \<Longrightarrow> t \<in> set (br_tiers r) \<and> (bt_IsLocal t \<or> canAfford r t)"
  by (auto simp: select_tier_def find_Some_iff split: option.splits)

definition priced :: "budget_tier list \<Rightarrow> bool" where
  "priced ts \<longleftrightarrow> (\<forall>t \<in> set ts. if bt_IsLocal t then bt_CostPerCall t = Fin 0
     else \<exists>k. bt_CostPerCall t = Fin k \<and> 0 \<le> k)"

definition within_caps :: "rat \<Rightarrow> rat \<Rightarrow> budget_router \<Rightarrow> bool" where
  "within_caps d m r \<longleftrightarrow> in_range 0 d (dailySpend r) \<and> in_range 0 m (monthlySpend r) \<and>
     DailyCapUSD (br_config r) = Fin d \<and> MonthlyCapUSD (br_config r) = Fin m \<and> priced (br_tiers r)"

lemma zero_lit [simp]: "flit 0 = Fin 0"
  by (simp add: f64_of_rat_def)

lemma within_round:
  assumes "within_caps d m r" "rnd d = d" "d \<le> 2 ^ 53" "rnd m = m" "m \<le> 2 ^ 53"
  shows "within_caps d m (budget_round r now)"
proof -
  let ?r = "maybeReset now r"
  have d: "0 \<le> d" using assms(1) by (auto simp: within_caps_def elim!: in_range_cases)
  have reset: "within_caps d m ?r" using assms(1) d by (simp add: within_caps_def maybeReset_def)
  show ?thesis
  proof (cases "select_tier ?r")
    case (Inl e)
    with reset show ?thesis by (simp add: budget_round_def SelectTier_def)
  next
    case (Inr t)
    from select_tier_sound [OF Inr] have t: "t \<in> set (br_tiers ?r)" "bt_IsLocal t \<or> canAfford ?r t" by simp_all
    have round: "budget_round r now = RecordCall (bt_Name t) (bt_CostPerCall t) ?r"
      using Inr by (simp add: budget_round_def SelectTier_def)
    show ?thesis
    proof (cases "bt_IsLocal t")
      case True
      then have "bt_CostPerCall t = Fin 0" using reset t(1) by (auto simp: within_caps_def priced_def)
      with reset assms show ?thesis
        by (simp add: round RecordCall_def within_caps_def fadd_zero_in_range)
    next
      case False
      with reset t(1) have "\<exists>k. bt_CostPerCall t = Fin k \<and> 0 \<le> k"
        by (fastforce simp: within_caps_def priced_def)
      then obtain k where "bt_CostPerCall t = Fin k" "0 \<le> k" by blast
      with reset t(2) False show ?thesis
        by (simp add: round RecordCall_def within_caps_def canAfford_def fadd_in_range)
    qed
  qed
qed

section \<open>Properties\<close>

text \<open>C19: a client that calls the tier it is given and records its price never takes the daily or the
  monthly spend above its cap, over any sequence of calls, as long as local tiers are free and
  prices are not negative.\<close>

theorem budget_never_exceeded:
  assumes "DailyCapUSD cfg = Fin d" "MonthlyCapUSD cfg = Fin m" "0 \<le> d" "0 \<le> m" "rnd d = d" "rnd m = m"
    "d \<le> 2 ^ 53" "m \<le> 2 ^ 53" "priced tiers"
  shows "let r = foldl budget_round (NewBudgetRouter t0 tiers cfg) nows in
    fle (dailySpend r) (DailyCapUSD cfg) \<and> fle (monthlySpend r) (MonthlyCapUSD cfg)"
proof -
  have "within_caps d m (NewBudgetRouter t0 tiers cfg)"
    using assms by (simp add: within_caps_def NewBudgetRouter_def)
  then have "within_caps d m (foldl budget_round (NewBudgetRouter t0 tiers cfg) nows)"
    using assms by (induction nows rule: rev_induct) (simp_all add: within_round)
  then show ?thesis using assms(1,2) by (simp add: Let_def within_caps_def in_range_def)
qed

definition half_dollar :: budget_config where
  "half_dollar = \<lparr>DailyCapUSD = Fin 1, MonthlyCapUSD = Fin 20, PreferLocal = True, ResetInterval = 24 * 60 * minute\<rparr>"

lemma half_dollar_price: "\<exists>k. k * 2 = (1 :: rat) \<and> 0 \<le> k"
  by (rule exI [of _ "1 / 2"]) simp

lemma budget_never_exceeded_witness:
  "fle (dailySpend (foldl budget_round (NewBudgetRouter 0
     [\<lparr>bt_Name = ''opus'', bt_CostPerCall = Fin (1 / 2), bt_AvgLatencyMs = 1, bt_SuccessRate = Fin 1,
       bt_IsLocal = False, bt_GPU = None\<rparr>] half_dollar) [1, 2, 3])) (Fin 1)"
proof -
  have m: "rnd 20 = 20" using rnd_of_int [of 20] by simp
  show ?thesis
    using budget_never_exceeded [of half_dollar 1 20
        "[\<lparr>bt_Name = ''opus'', bt_CostPerCall = Fin (1 / 2), bt_AvgLatencyMs = 1, bt_SuccessRate = Fin 1,
           bt_IsLocal = False, bt_GPU = None\<rparr>]" 0 "[1, 2, 3]"]
    by (simp add: half_dollar_def priced_def m Let_def half_dollar_price)
qed

end
