(* ===== verification/Frame_Tree.thy ===== *)
theory Frame_Tree
  imports Go_Prelude "HOL-Library.Monad_Syntax"
begin

text \<open>
  \<open>pkg/uiauto/frame/context.go\<close>: the tree of frames of a page. Frames point to their parent and
  children, so they live in a heap, a list of frames in which pointers are indices; the walks up the
  tree are partial functions (\<open>None\<close> when they do not end), shown to end on every tree the
  operations build.
\<close>

section \<open>Frames\<close>

datatype frame_type = FrameTop | FrameIFrame | FrameShadow

fun frame_type_String :: "frame_type \<Rightarrow> string" where
  "frame_type_String FrameTop = ''top''"
| "frame_type_String FrameIFrame = ''iframe''"
| "frame_type_String FrameShadow = ''shadow''"

record frame_context =
  fr_ID :: string
  fr_Type :: frame_type
  fr_Selector :: string
  fr_Name :: string
  fr_Src :: string
  fr_Depth :: int
  fr_Parent :: "nat option"
  fr_Children :: "nat list"

record frame_tree =
  ft_heap :: "frame_context list"
  ft_Frames :: "(string, nat) gomap"

partial_function (option) frame_path :: "frame_context list \<Rightarrow> nat \<Rightarrow> string list option" where
  "frame_path heap i =
     (case fr_Parent (heap ! i) of
        None \<Rightarrow> Some []
      | Some p \<Rightarrow> do { path \<leftarrow> frame_path heap p; Some (path @ [fr_Selector (heap ! i)]) })"

partial_function (option) frame_root :: "frame_context list \<Rightarrow> nat \<Rightarrow> nat option" where
  "frame_root heap i = (case fr_Parent (heap ! i) of None \<Rightarrow> Some i | Some p \<Rightarrow> frame_root heap p)"

definition IsNested :: "frame_context \<Rightarrow> bool" where
  "IsNested f = (1 < fr_Depth f)"

definition FindChild :: "frame_context list \<Rightarrow> nat \<Rightarrow> string \<Rightarrow> nat option" where
  "FindChild heap i selector = find (\<lambda>c. fr_Selector (heap ! c) = selector) (fr_Children (heap ! i))"

definition NewFrameTree :: frame_tree where
  "NewFrameTree =
     \<lparr>ft_heap = [\<lparr>fr_ID = ''top'', fr_Type = FrameTop, fr_Selector = [], fr_Name = [], fr_Src = [], fr_Depth = 0,
        fr_Parent = None, fr_Children = []\<rparr>],
      ft_Frames = [(''top'', 0)]\<rparr>"

datatype frame_error = ParentNotFound string | FrameExists string

definition AddFrame :: "string \<Rightarrow> string \<Rightarrow> string \<Rightarrow> string \<Rightarrow> string \<Rightarrow> frame_type \<Rightarrow> frame_tree \<Rightarrow>
    (frame_error + nat) \<times> frame_tree" where
  "AddFrame parentID fid selector name src frameType t =
     (case mget (ft_Frames t) parentID of
        None \<Rightarrow> (Inl (ParentNotFound parentID), t)
      | Some p \<Rightarrow>
          if mget (ft_Frames t) fid \<noteq> None then (Inl (FrameExists fid), t)
          else
            let heap = ft_heap t; c = length heap;
                child = \<lparr>fr_ID = fid, fr_Type = frameType, fr_Selector = selector, fr_Name = name, fr_Src = src,
                  fr_Depth = fr_Depth (heap ! p) + 1, fr_Parent = Some p, fr_Children = []\<rparr>;
                heap = heap[p := (heap ! p)\<lparr>fr_Children := fr_Children (heap ! p) @ [c]\<rparr>] @ [child]
            in (Inr c, t\<lparr>ft_heap := heap, ft_Frames := mset_at (ft_Frames t) fid c\<rparr>))"

definition ft_MaxDepth :: "frame_tree \<Rightarrow> int" where
  "ft_MaxDepth t = foldl (\<lambda>m (_, i). if m < fr_Depth (ft_heap t ! i) then fr_Depth (ft_heap t ! i) else m) 0 (ft_Frames t)"

definition ft_Count :: "frame_tree \<Rightarrow> nat" where
  "ft_Count t = length (ft_Frames t)"

section \<open>Well-formed trees\<close>

text \<open>Parents come before their children, and a child is one level below.\<close>

definition ft_ok :: "frame_tree \<Rightarrow> bool" where
  "ft_ok t \<longleftrightarrow> ft_heap t \<noteq> [] \<and>
     (\<forall>i < length (ft_heap t). case fr_Parent (ft_heap t ! i) of
        None \<Rightarrow> i = 0 \<and> fr_Depth (ft_heap t ! i) = 0
      | Some p \<Rightarrow> p < i \<and> fr_Depth (ft_heap t ! i) = fr_Depth (ft_heap t ! p) + 1) \<and>
     (\<forall>k i. mget (ft_Frames t) k = Some i \<longrightarrow> i < length (ft_heap t))"

lemma ft_ok_new: "ft_ok NewFrameTree"
  by (auto simp: ft_ok_def NewFrameTree_def mget_def split: if_splits)

lemma ft_ok_add:
  assumes "ft_ok t"
  shows "ft_ok (snd (AddFrame parentID fid selector name src frameType t))"
proof (cases "mget (ft_Frames t) parentID")
  case None
  then show ?thesis using assms by (simp add: AddFrame_def)
next
  case (Some p)
  let ?h = "ft_heap t"
  let ?h' = "?h[p := (?h ! p)\<lparr>fr_Children := fr_Children (?h ! p) @ [length ?h]\<rparr>]"
  have p: "p < length ?h" using assms Some by (auto simp: ft_ok_def)
  have same: "fr_Parent (?h' ! i) = fr_Parent (?h ! i)" "fr_Depth (?h' ! i) = fr_Depth (?h ! i)" for i
    using p by (cases "i = p"; simp)+
  show ?thesis
  proof (cases "mget (ft_Frames t) fid = None")
    case True
    with Some assms p same show ?thesis
      by (fastforce simp: AddFrame_def Let_def ft_ok_def nth_append less_Suc_eq split: option.split option.split_asm)
  next
    case False
    with Some assms show ?thesis by (auto simp: AddFrame_def)
  qed
qed

lemma frame_walks:
  assumes "ft_ok t"
  shows "i < length (ft_heap t) \<Longrightarrow> frame_root (ft_heap t) i = Some 0 \<and>
    (\<exists>path. frame_path (ft_heap t) i = Some path \<and> int (length path) = fr_Depth (ft_heap t ! i))"
proof (induction i rule: less_induct)
  case (less i)
  show ?case
  proof (cases "fr_Parent (ft_heap t ! i)")
    case None
    with less.prems assms show ?thesis
      by (subst frame_root.simps, subst frame_path.simps) (fastforce simp: ft_ok_def split: option.splits)
  next
    case (Some p)
    then have p: "p < i" "fr_Depth (ft_heap t ! i) = fr_Depth (ft_heap t ! p) + 1"
      using less.prems assms by (fastforce simp: ft_ok_def)+
    with less.IH [of p] less.prems Some show ?thesis
      by (subst frame_root.simps, subst frame_path.simps) auto
  qed
qed

text \<open>What a caller does: frames added one after another, whatever the answers.\<close>

type_synonym frame_args = "string \<times> string \<times> string \<times> string \<times> string \<times> frame_type"

definition add_frames :: "frame_args list \<Rightarrow> frame_tree" where
  "add_frames xs = foldl (\<lambda>t (pid, fid, sel, nm, src, ty). snd (AddFrame pid fid sel nm src ty t)) NewFrameTree xs"

lemma ft_ok_frames: "ft_ok (add_frames xs)"
  unfolding add_frames_def by (induction xs rule: rev_induct) (auto simp: ft_ok_new ft_ok_add split: prod.splits)

section \<open>Properties\<close>

text \<open>in every tree built by adding frames, the walks up from a registered frame end: the root is
  the top-level document, and the selector path is as long as the frame is deep.\<close>

theorem frame_paths:
  assumes "mget (ft_Frames (add_frames xs)) k = Some i"
  shows "frame_root (ft_heap (add_frames xs)) i = Some 0 \<and>
    (\<exists>path. frame_path (ft_heap (add_frames xs)) i = Some path \<and>
      int (length path) = fr_Depth (ft_heap (add_frames xs) ! i))"
  using assms frame_walks [OF ft_ok_frames, of i xs] ft_ok_frames [of xs] by (auto simp: ft_ok_def)

definition checkout_frames :: "frame_args list" where
  "checkout_frames = [(''top'', ''pay'', ''#pay'', ''pay'', ''https://pay'', FrameIFrame),
     (''pay'', ''card'', ''#card'', ''card'', ''https://pay/card'', FrameIFrame), (''gone'', ''x'', [], [], [], FrameShadow)]"

lemma frame_paths_witness:
  "frame_root (ft_heap (add_frames checkout_frames)) 2 = Some 0 \<and> fr_Depth (ft_heap (add_frames checkout_frames) ! 2) = 2"
proof -
  have "mget (ft_Frames (add_frames checkout_frames)) ''card'' = Some 2"
    "fr_Depth (ft_heap (add_frames checkout_frames) ! 2) = 2" by code_simp+
  with frame_paths [of checkout_frames "''card''" 2] show ?thesis by simp
qed

end
