(* ===== verification/Html_Scan.thy ===== *)
theory Html_Scan
  imports Go_Prelude
begin

text \<open>
  The regular expressions the DOM components read pages with, and the functions of Go's
  \<open>regexp\<close> package that apply them. The expressions of the repository are built from single
  characters, greedy repetitions of a character class, alternatives, one group and word
  boundaries; \<open>rx_match\<close> gives all matches at a position in the order of preference of the
  package (leftmost, greedy first), so the first of them is the one it finds. No expression
  matches the empty string.
\<close>

section \<open>Expressions and their matches at a position\<close>

datatype rx =
    One "char \<Rightarrow> bool"
  | Many nat "char \<Rightarrow> bool"
  | Cat rx rx
  | Alt rx rx
  | Cap rx
  | Boundary

text \<open>A position is the character before it, if any, and the text after it.\<close>

type_synonym rx_pos = "char option \<times> string"

fun runs :: "(char \<Rightarrow> bool) \<Rightarrow> char option \<Rightarrow> string \<Rightarrow> rx_pos list" where
  "runs p prev [] = [(prev, [])]"
| "runs p prev (c # s) = (prev, c # s) # (if p c then runs p (Some c) s else [])"

definition char_between :: "nat \<Rightarrow> nat \<Rightarrow> char \<Rightarrow> bool" where
  "char_between a b c = (a \<le> of_char c \<and> of_char c \<le> b)"

definition is_letter :: "char \<Rightarrow> bool" where
  "is_letter c = (char_between 65 90 c \<or> char_between 97 122 c)"

definition is_digit :: "char \<Rightarrow> bool" where
  "is_digit c = char_between 48 57 c"

definition is_word :: "char option \<Rightarrow> bool" where
  "is_word c = (case c of None \<Rightarrow> False | Some c \<Rightarrow> is_letter c \<or> is_digit c \<or> c = CHR ''_'')"

text \<open>The class \<open>\s\<close>, which unlike \<open>unicode.IsSpace\<close> has no vertical tab.\<close>

definition rx_space :: "char \<Rightarrow> bool" where
  "rx_space c = (let n = (of_char c :: nat) in n = 32 \<or> n = 9 \<or> n = 10 \<or> n = 12 \<or> n = 13)"

definition first_char :: "string \<Rightarrow> char option" where
  "first_char s = (case s of [] \<Rightarrow> None | c # _ \<Rightarrow> Some c)"

primrec rx_match :: "rx \<Rightarrow> rx_pos \<Rightarrow> (string option \<times> rx_pos) list" where
  "rx_match (One p) q = (case snd q of [] \<Rightarrow> [] | c # s \<Rightarrow> if p c then [(None, (Some c, s))] else [])"
| "rx_match (Many n p) q = map (\<lambda>r. (None, r)) (rev (drop n (runs p (fst q) (snd q))))"
| "rx_match (Cat a b) q =
     concat (map (\<lambda>(g, r). map (\<lambda>(g', r'). (case g' of None \<Rightarrow> g | Some _ \<Rightarrow> g', r')) (rx_match b r)) (rx_match a q))"
| "rx_match (Alt a b) q = rx_match a q @ rx_match b q"
| "rx_match (Cap a) q =
     map (\<lambda>(_, r). (Some (take (length (snd q) - length (snd r)) (snd q)), r)) (rx_match a q)"
| "rx_match Boundary q = (if is_word (fst q) \<noteq> is_word (first_char (snd q)) then [(None, q)] else [])"

fun rx_lit :: "string \<Rightarrow> rx" where
  "rx_lit [] = Many 0 (\<lambda>_. False)"
| "rx_lit [c] = One ((=) c)"
| "rx_lit (c # d # s) = Cat (One ((=) c)) (rx_lit (d # s))"

section \<open>Searching\<close>

text \<open>
  \<open>FindAllStringSubmatch\<close>: the matches from left to right, each with the text it matched and
  its group; the search goes on behind a match.
\<close>

function rx_find_all :: "rx \<Rightarrow> char option \<Rightarrow> string \<Rightarrow> (string \<times> string) list" where
  "rx_find_all r prev s =
     (case rx_match r (prev, s) of
        (g, (prev', s')) # _ \<Rightarrow>
          if length s' < length s
          then (take (length s - length s') s, case g of None \<Rightarrow> [] | Some w \<Rightarrow> w) # rx_find_all r prev' s'
          else (case s of [] \<Rightarrow> [] | c # t \<Rightarrow> rx_find_all r (Some c) t)
      | [] \<Rightarrow> (case s of [] \<Rightarrow> [] | c # t \<Rightarrow> rx_find_all r (Some c) t))"
  by pat_completeness auto

termination
  by (relation "measure (\<lambda>(r, prev, s). length s)") auto

declare rx_find_all.simps [simp del]

definition find_all_submatch :: "rx \<Rightarrow> string \<Rightarrow> (string \<times> string) list" where
  "find_all_submatch r s = rx_find_all r None s"

text \<open>\<open>FindStringSubmatch\<close>: the first match.\<close>

definition find_submatch :: "rx \<Rightarrow> string \<Rightarrow> (string \<times> string) option" where
  "find_submatch r s = (case find_all_submatch r s of [] \<Rightarrow> None | m # _ \<Rightarrow> Some m)"

text \<open>\<open>ReplaceAllString\<close> with a replacement that refers to no group.\<close>

function rx_replace :: "rx \<Rightarrow> string \<Rightarrow> char option \<Rightarrow> string \<Rightarrow> string" where
  "rx_replace r by_text prev s =
     (case rx_match r (prev, s) of
        (g, (prev', s')) # _ \<Rightarrow>
          if length s' < length s then by_text @ rx_replace r by_text prev' s'
          else (case s of [] \<Rightarrow> [] | c # t \<Rightarrow> c # rx_replace r by_text (Some c) t)
      | [] \<Rightarrow> (case s of [] \<Rightarrow> [] | c # t \<Rightarrow> c # rx_replace r by_text (Some c) t))"
  by pat_completeness auto

termination
  by (relation "measure (\<lambda>(r, b, prev, s). length s)") auto

declare rx_replace.simps [simp del]

section \<open>Lengths\<close>

lemma rx_find_all_length: "length (rx_find_all r prev s) \<le> length s"
proof (induction r prev s rule: rx_find_all.induct)
  case (1 r prev s)
  have skip: "length (case s of [] \<Rightarrow> [] | c # t \<Rightarrow> rx_find_all r (Some c) t) \<le> length s"
    if "\<And>c t. s = c # t \<Longrightarrow> length (rx_find_all r (Some c) t) \<le> length t"
    using that by (cases s) (auto simp: le_Suc_eq)
  show ?case
  proof (cases "rx_match r (prev, s)")
    case Nil
    then show ?thesis using "1.IH"(1) [OF Nil] skip by (subst rx_find_all.simps) simp
  next
    case (Cons m ms)
    obtain g prev' s' where m: "m = (g, (prev', s'))" by (metis prod.exhaust)
    show ?thesis
    proof (cases "length s' < length s")
      case True
      then have "length (rx_find_all r prev' s') \<le> length s'" using "1.IH"(2) [OF Cons] m by blast
      with True Cons m show ?thesis by (subst rx_find_all.simps) simp
    next
      case False
      have "length (case s of [] \<Rightarrow> [] | c # t \<Rightarrow> rx_find_all r (Some c) t) \<le> length s"
        by (rule skip) (use "1.IH"(3) [OF Cons m [symmetric] refl] False in simp)
      with False Cons m show ?thesis by (subst rx_find_all.simps) simp
    qed
  qed
qed

text \<open>Matches and groups are no longer than the text, and matches do not overlap.\<close>

lemma runs_length: "q \<in> set (runs p prev s) \<Longrightarrow> length (snd q) \<le> length s"
  by (induction p prev s rule: runs.induct) (auto split: if_splits)

lemma rx_match_length:
  "(g, q') \<in> set (rx_match r q) \<Longrightarrow>
   length (snd q') \<le> length (snd q) \<and> (\<forall>w. g = Some w \<longrightarrow> length w \<le> length (snd q))"
proof (induction r arbitrary: g q q')
  case (One p)
  then show ?case by (cases "snd q") (auto split: if_splits)
next
  case (Many n p)
  then show ?case by (auto dest!: in_set_dropD runs_length)
next
  case (Cat a b)
  then obtain h h' q1 where "(h, q1) \<in> set (rx_match a q)" "(h', q') \<in> set (rx_match b q1)"
    "g = (case h' of None \<Rightarrow> h | Some _ \<Rightarrow> h')" by auto
  with Cat.IH(1) [of h q1 q] Cat.IH(2) [of h' q' q1] show ?case by (auto split: option.splits)
next
  case (Alt a b)
  from Alt.prems have "(g, q') \<in> set (rx_match a q) \<or> (g, q') \<in> set (rx_match b q)" by simp
  with Alt.IH show ?case by blast
next
  case (Cap a)
  from Cap.prems obtain h where "(h, q') \<in> set (rx_match a q)"
    "g = Some (take (length (snd q) - length (snd q')) (snd q))" by auto
  with Cap.IH show ?case by simp
qed (auto split: if_splits)

definition fits :: "nat \<Rightarrow> (string \<times> string) list \<Rightarrow> bool" where
  "fits n ms \<longleftrightarrow> sum_list (map (length \<circ> fst) ms) \<le> n \<and> (\<forall>m \<in> set ms. length (snd m) \<le> n)"

lemma fits_grow: "fits n ms \<Longrightarrow> n \<le> k \<Longrightarrow> fits k ms"
  by (force simp: fits_def)

lemma fits_skip:
  assumes "\<And>c t. s = c # t \<Longrightarrow> fits (length t) (rx_find_all r (Some c) t)"
  shows "fits (length s) (case s of [] \<Rightarrow> [] | c # t \<Rightarrow> rx_find_all r (Some c) t)"
  using assms by (cases s) (auto simp: fits_def [of 0] intro: fits_grow)

lemma rx_find_all_total: "fits (length s) (rx_find_all r prev s)"
proof (induction r prev s rule: rx_find_all.induct)
  case (1 r prev s)
  show ?case
  proof (cases "rx_match r (prev, s)")
    case Nil
    have "fits (length s) (case s of [] \<Rightarrow> [] | c # t \<Rightarrow> rx_find_all r (Some c) t)"
      by (rule fits_skip) (use "1.IH"(1) [OF Nil] in blast)
    with Nil show ?thesis by (subst rx_find_all.simps) simp
  next
    case (Cons m ms)
    obtain g prev' s' where m: "m = (g, (prev', s'))" by (metis prod.exhaust)
    show ?thesis
    proof (cases "length s' < length s")
      case True
      have "fits (length s') (rx_find_all r prev' s')" using "1.IH"(2) [OF Cons] m True by blast
      moreover have "\<forall>w. g = Some w \<longrightarrow> length w \<le> length s"
        using rx_match_length [of g "(prev', s')" r "(prev, s)"] Cons m by simp
      ultimately show ?thesis using True Cons m
        by (subst rx_find_all.simps) (force simp: fits_def split: option.splits)
    next
      case False
      have "fits (length s) (case s of [] \<Rightarrow> [] | c # t \<Rightarrow> rx_find_all r (Some c) t)"
        by (rule fits_skip) (use "1.IH"(3) [OF Cons m [symmetric] refl] False in blast)
      with False Cons m show ?thesis by (subst rx_find_all.simps) simp
    qed
  qed
qed

lemma find_submatch_length: "find_submatch r s = Some (m, w) \<Longrightarrow> length w \<le> length s"
  using rx_find_all_total [of s r None]
  by (auto simp: fits_def find_submatch_def find_all_submatch_def split: list.splits)

lemma find_all_total: "sum_list (map (length \<circ> fst) (find_all_submatch r s)) \<le> length s"
  using rx_find_all_total [of s r None] by (simp add: fits_def find_all_submatch_def)

lemma find_all_length: "length (find_all_submatch r s) \<le> length s"
  by (simp add: find_all_submatch_def rx_find_all_length)

section \<open>Splitting, joining and trimming\<close>

lemma split_on_nonempty [simp]: "split_on d s \<noteq> []"
  by (induction s) (auto split: list.splits)

lemma split_on_plain: "d \<notin> set w \<Longrightarrow> split_on d w = [w]"
  by (induction w) auto

lemma split_on_append: "d \<notin> set w \<Longrightarrow> split_on d (w @ d # s) = w # split_on d s"
  by (induction w) auto

text \<open>Splitting undoes joining, whenever no part contains the separator.\<close>

lemma split_on_join: "ws \<noteq> [] \<Longrightarrow> \<forall>w \<in> set ws. d \<notin> set w \<Longrightarrow> split_on d (join [d] ws) = ws"
proof (induction "[d]" ws rule: join.induct)
  case (3 w v ws)
  then show ?case using split_on_append [of d w "join [d] (v # ws)"] by simp
qed (simp_all add: split_on_plain)

text \<open>With separators in the parts, the parts are split as well.\<close>

lemma split_on_append_gen: "split_on d (w @ d # s) = split_on d w @ split_on d s"
  by (induction w) (auto split: list.splits)

lemma split_on_join_gen: "ws \<noteq> [] \<Longrightarrow> split_on d (join [d] ws) = concat (map (split_on d) ws)"
proof (induction "[d]" ws rule: join.induct)
  case (3 w v ws)
  then show ?case using split_on_append_gen [of d w "join [d] (v # ws)"] by simp
qed simp_all

lemma join_eq_Nil: "join [d] ws = [] \<longleftrightarrow> ws = [] \<or> ws = [[]]"
  by (cases ws; cases "tl ws") auto

lemma words_acc_words:
  assumes "\<forall>c \<in> set w. \<not> is_space c"
  shows "\<forall>v \<in> set (words_acc w s). v \<noteq> [] \<and> (\<forall>c \<in> set v. \<not> is_space c)"
  using assms
proof (induction s arbitrary: w)
  case (Cons c s)
  show ?case
  proof (cases "is_space c")
    case True
    with Cons.IH [of "[]"] Cons.prems show ?thesis by (cases w) simp_all
  next
    case False
    with Cons.prems have "\<forall>d \<in> set (c # w). \<not> is_space d" by simp
    from Cons.IH [OF this] False show ?thesis by simp
  qed
qed simp

lemma words_of_words: "v \<in> set (words_of s) \<Longrightarrow> v \<noteq> [] \<and> (\<forall>c \<in> set v. \<not> is_space c)"
  using words_acc_words [of "[]" s] by (simp add: words_of_def)

lemma words_acc_total: "sum_list (map (\<lambda>v. length v + 1) (words_acc w s)) \<le> length w + length s + 1"
proof (induction w s rule: words_acc.induct)
  case (2 w c s)
  then show ?case by (cases "is_space c"; cases "w = []") auto
qed simp

lemma words_of_total: "sum_list (map (\<lambda>v. length v + 1) (words_of s)) \<le> length s + 1"
  using words_acc_total [of "[]" s] by (simp add: words_of_def)

lemma join_length: "length (join [d] ws) \<le> sum_list (map (\<lambda>v. length v + 1) ws)"
  by (induction "[d]" ws rule: join.induct) auto

lemma split_on_length: "length (split_on d s) \<le> length s + 1"
  by (induction s) (auto split: list.splits)

lemma sum_set_le_sum_list: "(\<Sum>x\<in>set xs. f x) \<le> sum_list (map (f :: 'a \<Rightarrow> nat) xs)"
proof (induction xs)
  case (Cons x xs)
  have "(\<Sum>y\<in>insert x (set xs). f y) \<le> f x + (\<Sum>y\<in>set xs. f y)"
    by (cases "x \<in> set xs") (simp_all add: insert_absorb)
  with Cons show ?case by simp
qed simp

end
