(* ===== verification/Page_Matcher.thy ===== *)
theory Page_Matcher
  imports Html_Scan
begin

text \<open>
  What the two page matchers of \<open>pkg/domheal\<close> share: the weighted Jaccard index of two maps of
  counters, and the bookkeeping of known pages, which \<open>structural_matcher.go\<close> and
  \<open>fingerprint_matcher.go\<close> have in two copies over their own signature. The locale
  \<open>page_matcher\<close> states what the bookkeeping relies on of a similarity; each matcher is an
  interpretation in its own theory.
\<close>

section \<open>Overlap of two maps of counters\<close>

text \<open>The loop over all keys of both maps that adds up minima and maxima.\<close>

definition overlap_step :: "(string, int) gomap \<Rightarrow> (string, int) gomap \<Rightarrow> int \<times> int \<Rightarrow> string \<Rightarrow> int \<times> int" where
  "overlap_step a b iu k =
     (let ca = mget_or 0 a k; cb = mget_or 0 b k in
      if ca < cb then (fst iu + ca, snd iu + cb) else (fst iu + cb, snd iu + ca))"

definition count_overlap :: "(string, int) gomap \<Rightarrow> (string, int) gomap \<Rightarrow> int \<times> int" where
  "count_overlap a b = foldl (overlap_step a b) (0, 0) (remdups (map fst a @ map fst b))"

text \<open>The multiset a map of counters stands for.\<close>

definition bag :: "(string, int) gomap \<Rightarrow> string multiset" where
  "bag m = mset (concat (map (\<lambda>(k, n). replicate (nat n) k) m))"

definition counters :: "(string, int) gomap \<Rightarrow> bool" where
  "counters m \<longleftrightarrow> wf_map m \<and> (\<forall>k. 0 \<le> mget_or 0 m k)"

lemma count_bag: "wf_map m \<Longrightarrow> count (bag m) k = nat (mget_or 0 m k)"
proof (induction m)
  case (Cons kn m)
  obtain j n where kn: "kn = (j, n)" by force
  have wf: "wf_map m" "j \<notin> fst ` set m" using Cons.prems by (auto simp: wf_map_def kn)
  have "mget_or 0 m j = 0" using wf(2) mget_key [of j m] by (simp add: mget_or_def)
  moreover have "mget_or 0 (kn # m) k = (if k = j then n else mget_or 0 m k)"
    by (simp add: mget_or_def mget_def kn)
  ultimately show ?case using Cons.IH [OF wf(1)] by (simp add: bag_def kn)
qed (simp add: bag_def)

lemma set_bag: "wf_map m \<Longrightarrow> set_mset (bag m) \<subseteq> fst ` set m"
  unfolding bag_def by (force split: if_splits)

lemma bag_mincr:
  assumes "counters m"
  shows "counters (mincr m k)" "bag (mincr m k) = add_mset k (bag m)"
proof -
  show c: "counters (mincr m k)" using assms by (auto simp: counters_def)
  show "bag (mincr m k) = add_mset k (bag m)"
  proof (rule multiset_eqI)
    fix j
    have "0 \<le> mget_or 0 m k" using assms by (simp add: counters_def)
    then show "count (bag (mincr m k)) j = count (add_mset k (bag m)) j"
      using assms c by (simp add: counters_def count_bag nat_add_distrib)
  qed
qed

lemma counters_Nil [simp]: "counters []" "bag [] = {#}"
  by (simp_all add: counters_def bag_def)

lemma bag_tally: "counters m \<Longrightarrow> counters (foldl mincr m ws) \<and> bag (foldl mincr m ws) = bag m + mset ws"
  by (induction ws arbitrary: m) (simp_all add: bag_mincr)

lemma bag_cong:
  assumes "counters a" "counters b" "bag a = bag b"
  shows "mget_or 0 a k = mget_or 0 b k"
proof -
  have "nat (mget_or 0 a k) = nat (mget_or 0 b k)" using assms by (simp add: counters_def flip: count_bag)
  moreover have "0 \<le> mget_or 0 a k" "0 \<le> mget_or 0 b k" using assms by (simp_all add: counters_def)
  ultimately show ?thesis by (simp add: eq_nat_nat_iff)
qed

lemma overlap_fold:
  assumes "\<And>k. 0 \<le> mget_or 0 a k" "\<And>k. 0 \<le> mget_or 0 b k" "distinct ks"
  shows "foldl (overlap_step a b) (i, u) ks =
    (i + (\<Sum>k\<in>set ks. min (mget_or 0 a k) (mget_or 0 b k)), u + (\<Sum>k\<in>set ks. max (mget_or 0 a k) (mget_or 0 b k)))"
  using assms(3) by (induction ks arbitrary: i u) (auto simp: overlap_step_def Let_def add.assoc)

lemma size_as_sum: "finite A \<Longrightarrow> set_mset M \<subseteq> A \<Longrightarrow> size M = (\<Sum>x\<in>A. count M x)"
  unfolding size_multiset_overloaded_eq
  by (rule sum.mono_neutral_left) (auto simp: count_eq_zero_iff)

text \<open>The loop computes the sizes of the intersection and the union of the two multisets.\<close>

lemma count_overlap_bag:
  assumes "counters a" "counters b"
  shows "count_overlap a b = (int (size (bag a \<inter># bag b)), int (size (bag a \<union># bag b)))"
proof -
  let ?K = "fst ` set a \<union> fst ` set b"
  have wf: "wf_map a" "wf_map b" and nn: "\<And>k. 0 \<le> mget_or 0 a k" "\<And>k. 0 \<le> mget_or 0 b k"
    using assms by (simp_all add: counters_def)
  have sub: "set_mset (bag a) \<subseteq> ?K" "set_mset (bag b) \<subseteq> ?K" using set_bag wf by blast+
  have "int (size (bag a \<inter># bag b)) = (\<Sum>k\<in>?K. int (count (bag a \<inter># bag b) k))"
  proof -
    have "set_mset (bag a \<inter># bag b) \<subseteq> ?K" using sub by auto
    from size_as_sum [OF _ this] show ?thesis by (simp del: count_inter_mset)
  qed
  also have "\<dots> = (\<Sum>k\<in>?K. min (mget_or 0 a k) (mget_or 0 b k))"
    by (rule sum.cong) (simp_all add: count_bag wf nn of_nat_min)
  finally have i: "int (size (bag a \<inter># bag b)) = (\<Sum>k\<in>?K. min (mget_or 0 a k) (mget_or 0 b k))" .
  have "int (size (bag a \<union># bag b)) = (\<Sum>k\<in>?K. int (count (bag a \<union># bag b) k))"
  proof -
    have "set_mset (bag a \<union># bag b) \<subseteq> ?K" using sub by auto
    from size_as_sum [OF _ this] show ?thesis by (simp del: count_union_mset)
  qed
  also have "\<dots> = (\<Sum>k\<in>?K. max (mget_or 0 a k) (mget_or 0 b k))"
    by (rule sum.cong) (simp_all add: count_bag wf nn of_nat_max)
  finally have u: "int (size (bag a \<union># bag b)) = (\<Sum>k\<in>?K. max (mget_or 0 a k) (mget_or 0 b k))" .
  show ?thesis using overlap_fold [OF nn, of "remdups (map fst a @ map fst b)" 0 0]
    by (simp add: count_overlap_def i u)
qed

text \<open>The index itself, of two multisets: 1 for two empty ones, and between 0 and 1.\<close>

definition jaccard :: "string multiset \<Rightarrow> string multiset \<Rightarrow> f64" where
  "jaccard A B = (if A = {#} \<and> B = {#} then flit 1
     else fdiv (f_of_int (int (size (A \<inter># B)))) (f_of_int (int (size (A \<union># B)))))"

lemma flit_one [simp]: "flit 1 = Fin 1"
  using f64_of_rat_Fin [of 1] by simp

lemma jaccard_self: "int (size A) \<le> 2 ^ 53 \<Longrightarrow> jaccard A A = Fin 1"
  using f_of_int_exact [of "int (size A)"] by (auto simp: jaccard_def nonempty_has_size)

lemma jaccard_unit:
  assumes "int (size A) + int (size B) \<le> 2 ^ 53"
  shows "unit_f (jaccard A B)"
proof (cases "A = {#} \<and> B = {#}")
  case False
  have le: "size (A \<inter># B) \<le> size (A \<union># B)"
    by (meson inf_le1 order_trans size_mset_mono subset_mset.inf_le1 subset_mset.sup_ge1)
  have "size (A \<union># B) \<le> size A + size B"
    by (metis size_Un_Int le_add1)
  then have "int (size (A \<union># B)) \<le> 2 ^ 53" using assms by linarith
  moreover have "A \<union># B \<noteq> {#}" using False by simp
  then have "0 < int (size (A \<union># B))" unfolding nonempty_has_size by simp
  ultimately have "0 < int (size (A \<union># B))" "int (size (A \<union># B)) \<le> 2 ^ 53" by blast+
  with frac_unit(2) [of "int (size (A \<inter># B))" "int (size (A \<union># B))"] le False
  show ?thesis by (simp add: jaccard_def)
qed (simp add: jaccard_def)

lemma jaccard_commute: "jaccard A B = jaccard B A"
  by (auto simp: jaccard_def ac_simps)

section \<open>Known pages\<close>

record 'sig matcher =
  mt_known :: "(string, 'sig) gomap"
  mt_threshold :: f64

record match_result =
  res_PageID :: string
  res_Similarity :: f64
  res_Drifted :: bool
  res_IsNew :: bool

record closest_result =
  cl_PageID :: string
  cl_Similarity :: f64
  cl_Found :: bool

definition new_matcher :: "f64 \<Rightarrow> 'sig matcher" where
  "new_matcher threshold =
     \<lparr>mt_known = [], mt_threshold = (if fle threshold (flit 0) then flit (7 / 10) else threshold)\<rparr>"

definition check_page :: "('sig \<Rightarrow> 'sig \<Rightarrow> f64) \<Rightarrow> string \<Rightarrow> 'sig \<Rightarrow> 'sig matcher \<Rightarrow> match_result \<times> 'sig matcher" where
  "check_page sim pageID current m =
     ((case mget (mt_known m) pageID of
         None \<Rightarrow> \<lparr>res_PageID = pageID, res_Similarity = flit 1, res_Drifted = False, res_IsNew = True\<rparr>
       | Some prev \<Rightarrow>
           let s = sim prev current in
           \<lparr>res_PageID = pageID, res_Similarity = s, res_Drifted = flt s (mt_threshold m), res_IsNew = False\<rparr>),
      m\<lparr>mt_known := mset_at (mt_known m) pageID current\<rparr>)"

definition closer :: "('sig \<Rightarrow> 'sig \<Rightarrow> f64) \<Rightarrow> 'sig \<Rightarrow> closest_result \<Rightarrow> string \<times> 'sig \<Rightarrow> closest_result" where
  "closer sim current best page =
     (let s = sim current (snd page) in
      if flt (cl_Similarity best) s then \<lparr>cl_PageID = fst page, cl_Similarity = s, cl_Found = True\<rparr> else best)"

definition closest_page :: "('sig \<Rightarrow> 'sig \<Rightarrow> f64) \<Rightarrow> 'sig \<Rightarrow> 'sig matcher \<Rightarrow> closest_result" where
  "closest_page sim current m =
     (let best = foldl (closer sim current) \<lparr>cl_PageID = [], cl_Similarity = flit 0, cl_Found = False\<rparr> (mt_known m) in
      if flt (cl_Similarity best) (mt_threshold m) then best\<lparr>cl_Found := False\<rparr> else best)"

section \<open>What the bookkeeping relies on\<close>

text \<open>
  \<open>ok\<close> holds of the signatures of pages, \<open>alike\<close> of two readings of one page: Go's map order may
  make them differ.
\<close>

definition known_ok :: "('sig \<Rightarrow> bool) \<Rightarrow> 'sig matcher \<Rightarrow> bool" where
  "known_ok ok m \<longleftrightarrow> wf_map (mt_known m) \<and> (\<forall>sig \<in> snd ` set (mt_known m). ok sig)"

lemma set_mset_at: "set (mset_at m k v) \<subseteq> insert (k, v) (set m)"
  by (induction m) (auto simp: mset_at_def)

locale page_matcher =
  fixes sim :: "'sig \<Rightarrow> 'sig \<Rightarrow> f64"
    and ok :: "'sig \<Rightarrow> bool"
    and alike :: "'sig \<Rightarrow> 'sig \<Rightarrow> bool"
  assumes sim_unit: "ok a \<Longrightarrow> ok b \<Longrightarrow> unit_f (sim a b)"
    and sim_alike: "ok a \<Longrightarrow> ok b \<Longrightarrow> alike a b \<Longrightarrow> sim a b = Fin 1"
begin

lemma known_ok_new: "known_ok ok (new_matcher t)"
  by (simp add: known_ok_def new_matcher_def)

lemma known_ok_check: "known_ok ok m \<Longrightarrow> ok c \<Longrightarrow> known_ok ok (snd (check_page sim p c m))"
  using set_mset_at [of "mt_known m" p c] by (auto simp: known_ok_def check_page_def)

text \<open>Reading a page again never counts as drift.\<close>

lemma no_false_alarm:
  assumes "ok c" "ok c'" "alike c c'" "fle (mt_threshold m) (Fin 1)"
  shows "\<not> res_Drifted (fst (check_page sim p c' (snd (check_page sim p c m))))"
  using assms sim_alike by (simp add: check_page_def Let_def flt_def)

lemma closer_fold:
  assumes "\<forall>page \<in> set ps. ok (snd page)" "ok c" "unit_f (cl_Similarity b)"
    "cl_Found b \<Longrightarrow> \<exists>sig. (cl_PageID b, sig) \<in> set qs \<and> cl_Similarity b = sim c sig"
    "\<not> cl_Found b \<Longrightarrow> cl_Similarity b = Fin 0" "\<forall>page \<in> set qs. fle (sim c (snd page)) (cl_Similarity b)"
  shows "let r = foldl (closer sim c) b ps in unit_f (cl_Similarity r) \<and>
    (cl_Found r \<longrightarrow> (\<exists>sig. (cl_PageID r, sig) \<in> set (qs @ ps) \<and> cl_Similarity r = sim c sig)) \<and>
    (\<not> cl_Found r \<longrightarrow> cl_Similarity r = Fin 0) \<and> (\<forall>page \<in> set (qs @ ps). fle (sim c (snd page)) (cl_Similarity r))"
  using assms
proof (induction ps arbitrary: b qs)
  case (Cons page ps)
  obtain s where s: "sim c (snd page) = Fin s" "0 \<le> s" "s \<le> 1"
    using sim_unit [of c "snd page"] Cons.prems(1,2) by (auto elim: in_range_cases)
  obtain t where t: "cl_Similarity b = Fin t" "0 \<le> t" "t \<le> 1" using Cons.prems(3) by (auto elim: in_range_cases)
  show ?case
  proof (cases "t < s")
    case True
    then have step: "closer sim c b page = \<lparr>cl_PageID = fst page, cl_Similarity = Fin s, cl_Found = True\<rparr>"
      by (simp add: closer_def s t)
    have "\<forall>q \<in> set (qs @ [page]). fle (sim c (snd q)) (Fin s)"
    proof
      fix q assume q: "q \<in> set (qs @ [page])"
      show "fle (sim c (snd q)) (Fin s)"
      proof (cases "q \<in> set qs")
        case True
        with Cons.prems(6) have "fle (sim c (snd q)) (Fin t)" by (auto simp: t)
        with \<open>t < s\<close> show ?thesis by (cases "sim c (snd q)") auto
      qed (use q s in auto)
    qed
    moreover have "\<exists>sig. ((fst page, sig) = page \<or> (fst page, sig) \<in> set qs) \<and> Fin s = sim c sig"
      by (rule exI [of _ "snd page"]) (simp add: s)
    ultimately show ?thesis
      using Cons.IH [of "closer sim c b page" "qs @ [page]"] Cons.prems(1,2) s unfolding step by (simp add: step)
  next
    case False
    then have step: "closer sim c b page = b" by (simp add: closer_def s t)
    have "\<forall>q \<in> set (qs @ [page]). fle (sim c (snd q)) (cl_Similarity b)"
      using Cons.prems(6) False by (auto simp: s t)
    then show ?thesis
      using Cons.IH [of b "qs @ [page]"] Cons.prems by (auto simp: step)
  qed
qed simp

text \<open>
  The closest page is a known page of maximal similarity that reaches the threshold, and one is
  found whenever there is any.
\<close>

lemma closest_correct:
  assumes "known_ok ok m" "ok c" "flt (Fin 0) (mt_threshold m)"
  shows "cl_Found (closest_page sim c m) \<longleftrightarrow> (\<exists>page \<in> set (mt_known m). fle (mt_threshold m) (sim c (snd page)))"
    and "cl_Found (closest_page sim c m) \<Longrightarrow>
      (\<exists>sig. mget (mt_known m) (cl_PageID (closest_page sim c m)) = Some sig \<and>
        cl_Similarity (closest_page sim c m) = sim c sig) \<and>
      (\<forall>page \<in> set (mt_known m). fle (sim c (snd page)) (cl_Similarity (closest_page sim c m)))"
proof -
  define r where "r = foldl (closer sim c) \<lparr>cl_PageID = [], cl_Similarity = flit 0, cl_Found = False\<rparr> (mt_known m)"
  have zero: "flit 0 = Fin 0" by (simp add: f64_of_rat_Fin)
  have oks: "\<forall>page \<in> set (mt_known m). ok (snd page)" using assms(1) by (simp add: known_ok_def)
  have R: "unit_f (cl_Similarity r)"
    "cl_Found r \<Longrightarrow> \<exists>sig. (cl_PageID r, sig) \<in> set (mt_known m) \<and> cl_Similarity r = sim c sig"
    "\<not> cl_Found r \<Longrightarrow> cl_Similarity r = Fin 0"
    "\<forall>page \<in> set (mt_known m). fle (sim c (snd page)) (cl_Similarity r)"
    using closer_fold [OF oks assms(2), of "\<lparr>cl_PageID = [], cl_Similarity = flit 0, cl_Found = False\<rparr>" "[]"]
    by (simp_all add: r_def Let_def zero)
  have cl: "closest_page sim c m =
      (if flt (cl_Similarity r) (mt_threshold m) then r\<lparr>cl_Found := False\<rparr> else r)"
    by (simp add: closest_page_def r_def Let_def)
  obtain t where t: "cl_Similarity r = Fin t" using R(1) by (auto elim: in_range_cases)
  have found: "cl_Found r" if "\<not> flt (cl_Similarity r) (mt_threshold m)"
  proof (rule ccontr)
    assume "\<not> cl_Found r"
    with R(3) that assms(3) show False by simp
  qed
  have thr: "\<not> flt (cl_Similarity r) (mt_threshold m) \<longleftrightarrow> fle (mt_threshold m) (cl_Similarity r)"
    using assms(3) by (cases "mt_threshold m") (auto simp: t flt_def)
  show iff: "cl_Found (closest_page sim c m) \<longleftrightarrow> (\<exists>page \<in> set (mt_known m). fle (mt_threshold m) (sim c (snd page)))"
  proof
    assume "cl_Found (closest_page sim c m)"
    then have nd: "\<not> flt (cl_Similarity r) (mt_threshold m)" by (auto simp: cl split: if_splits)
    from R(2) [OF found [OF nd]] obtain sig where "(cl_PageID r, sig) \<in> set (mt_known m)" "cl_Similarity r = sim c sig"
      by blast
    with nd thr show "\<exists>page \<in> set (mt_known m). fle (mt_threshold m) (sim c (snd page))"
      by (intro bexI [of _ "(cl_PageID r, sig)"]) simp_all
  next
    assume "\<exists>page \<in> set (mt_known m). fle (mt_threshold m) (sim c (snd page))"
    then obtain page where "page \<in> set (mt_known m)" "fle (mt_threshold m) (sim c (snd page))" by blast
    moreover from this R(4) have "fle (sim c (snd page)) (cl_Similarity r)" by blast
    ultimately have "fle (mt_threshold m) (cl_Similarity r)"
      using t by (cases "mt_threshold m"; cases "sim c (snd page)") auto
    with thr found show "cl_Found (closest_page sim c m)" by (simp add: cl)
  qed
  assume "cl_Found (closest_page sim c m)"
  then have nd: "\<not> flt (cl_Similarity r) (mt_threshold m)" by (auto simp: cl split: if_splits)
  with R(2) [OF found [OF nd]] R(4) assms(1)
  show "(\<exists>sig. mget (mt_known m) (cl_PageID (closest_page sim c m)) = Some sig \<and>
        cl_Similarity (closest_page sim c m) = sim c sig) \<and>
      (\<forall>page \<in> set (mt_known m). fle (sim c (snd page)) (cl_Similarity (closest_page sim c m)))"
    by (auto simp: cl known_ok_def mget_in_set)
qed

end

end
