(* ===== verification/Structural_Matcher.thy ===== *)
theory Structural_Matcher
  imports Page_Matcher
begin

text \<open>
  \<open>pkg/domheal/structural_matcher.go\<close>: the structural signature of a page, the similarity of two
  signatures, and the matcher that compares pages with their last known structure. \<open>visit\<close> is the
  order in which Go happens to range over the set of class names.
\<close>

section \<open>Signatures\<close>

datatype html_node = HTMLNode (hn_Tag: string) (hn_Classes: "string list") (hn_Attributes: "string list")
  (hn_Children: "html_node list")

record structural_sig =
  TagCounts :: "(string, int) gomap"
  MaxDepth :: int
  TotalNodes :: int
  ClassFingerprint :: string

definition empty_sig :: structural_sig where
  "empty_sig = \<lparr>TagCounts = [], MaxDepth = 0, TotalNodes = 0, ClassFingerprint = []\<rparr>"

definition StructuralSimilarity :: "'a structural_sig_scheme \<Rightarrow> 'b structural_sig_scheme \<Rightarrow> f64" where
  "StructuralSimilarity a b =
     (if TotalNodes a = 0 \<and> TotalNodes b = 0 then flit 1
      else let (intersection, union) = count_overlap (TagCounts a) (TagCounts b)
           in fdiv (f_of_int intersection) (f_of_int union))"

definition not_char :: "char \<Rightarrow> char \<Rightarrow> bool" where
  "not_char d c = (c \<noteq> d)"

definition is_quote :: "char \<Rightarrow> bool" where
  "is_quote c = (c = CHR 0x22 \<or> c = CHR 0x27)"

definition alnum :: "char \<Rightarrow> bool" where
  "alnum c = (is_letter c \<or> is_digit c)"

text \<open>\<open><\s*([a-zA-Z][a-zA-Z0-9]*)[^>]*>\<close> and the value of a quoted attribute.\<close>

definition tagRe :: rx where
  "tagRe = Cat (rx_lit ''<'') (Cat (Many 0 rx_space) (Cat (Cap (Cat (One is_letter) (Many 0 alnum)))
     (Cat (Many 0 (not_char CHR ''>'')) (rx_lit ''>''))))"

definition quoted :: rx where
  "quoted = Cat (One is_quote) (Cat (Cap (Many 1 (\<lambda>c. \<not> is_quote c))) (One is_quote))"

definition attr_value :: rx where
  "attr_value = Cat (Many 0 rx_space) (Cat (rx_lit ''='') (Cat (Many 0 rx_space) quoted))"

definition classRe :: rx where
  "classRe = Cat (rx_lit ''class'') attr_value"

definition tag_classes :: "string \<Rightarrow> string list" where
  "tag_classes tag = (case find_submatch classRe tag of None \<Rightarrow> [] | Some (_, value) \<Rightarrow> words_of value)"

text \<open>One opening tag: the counters, the running depth, and the set of classes.\<close>

definition scan_tag :: "structural_sig \<times> int \<times> (string, bool) gomap \<Rightarrow> string \<times> string \<Rightarrow>
    structural_sig \<times> int \<times> (string, bool) gomap" where
  "scan_tag st m =
     (case st of (sig, depth, classSet) \<Rightarrow>
        let tag = to_lower (fst m); tagName = to_lower (snd m);
            sig = sig\<lparr>TagCounts := mincr (TagCounts sig) tagName, TotalNodes := TotalNodes sig + 1\<rparr>;
            depth = depth + 1;
            sig = (if MaxDepth sig < depth then sig\<lparr>MaxDepth := depth\<rparr> else sig)
        in (sig, depth, foldl (\<lambda>cs cls. mset_at cs cls True) classSet (tag_classes tag)))"

text \<open>
  The closing tags are read after all opening tags and lower a depth nobody reads any more, so
  that loop is left out.
\<close>

definition ParseStructuralSignature :: "(string list \<Rightarrow> string list) \<Rightarrow> string \<Rightarrow> structural_sig" where
  "ParseStructuralSignature visit html =
     (if html = [] then empty_sig
      else let (sig, depth, classSet) = foldl scan_tag (empty_sig, 0, []) (find_all_submatch tagRe html)
           in sig\<lparr>ClassFingerprint := join '','' (visit (map fst classSet))\<rparr>)"

definition stripHTMLTags :: "string \<Rightarrow> string" where
  "stripHTMLTags s = rx_replace (Cat (rx_lit ''<'') (Cat (Many 0 (not_char CHR ''>'')) (rx_lit ''>''))) '' '' None s"

section \<open>The matcher\<close>

definition NewStructuralMatcher :: "f64 \<Rightarrow> structural_sig matcher" where
  "NewStructuralMatcher threshold = new_matcher threshold"

definition sm_CheckAndUpdate :: "(string list \<Rightarrow> string list) \<Rightarrow> string \<Rightarrow> string \<Rightarrow> structural_sig matcher \<Rightarrow>
    match_result \<times> structural_sig matcher" where
  "sm_CheckAndUpdate visit pageID html sm =
     check_page StructuralSimilarity pageID (ParseStructuralSignature visit html) sm"

definition KnownSignatures :: "structural_sig matcher \<Rightarrow> (string, structural_sig) gomap" where
  "KnownSignatures sm = mt_known sm"

definition sm_FindClosestMatch :: "(string list \<Rightarrow> string list) \<Rightarrow> string \<Rightarrow> structural_sig matcher \<Rightarrow> closest_result" where
  "sm_FindClosestMatch visit html sm = closest_page StructuralSimilarity (ParseStructuralSignature visit html) sm"

section \<open>What a signature holds\<close>

text \<open>The tag names of a page, in the order of the opening tags, and its class names.\<close>

definition page_tags :: "string \<Rightarrow> string list" where
  "page_tags html = map (to_lower \<circ> snd) (find_all_submatch tagRe html)"

definition page_classes :: "string \<Rightarrow> string set" where
  "page_classes html = (\<Union>m \<in> set (find_all_submatch tagRe html). set (tag_classes (to_lower (fst m))))"

lemma class_fold: "fst ` set (foldl (\<lambda>cs cls. mset_at cs cls True) cs ws) = fst ` set cs \<union> set ws"
  by (induction ws arbitrary: cs) simp_all

lemma class_fold_wf: "wf_map cs \<Longrightarrow> wf_map (foldl (\<lambda>cs cls. mset_at cs cls True) cs ws)"
  by (induction ws arbitrary: cs) simp_all

lemma scan_fold:
  assumes "counters (TagCounts sig)" "0 \<le> depth" "wf_map cs"
  shows "let (sig', depth', cs') = foldl scan_tag (sig, depth, cs) ms in
    TagCounts sig' = foldl mincr (TagCounts sig) (map (to_lower \<circ> snd) ms) \<and>
    TotalNodes sig' = TotalNodes sig + int (length ms) \<and> depth' = depth + int (length ms) \<and>
    MaxDepth sig' = (if ms = [] then MaxDepth sig else max (MaxDepth sig) depth') \<and> wf_map cs' \<and>
    fst ` set cs' = fst ` set cs \<union> (\<Union>m \<in> set ms. set (tag_classes (to_lower (fst m))))"
  using assms
proof (induction ms arbitrary: sig depth cs)
  case (Cons m ms)
  obtain sig' depth' cs' where st: "scan_tag (sig, depth, cs) m = (sig', depth', cs')" by (metis prod.exhaust)
  have f: "TagCounts sig' = mincr (TagCounts sig) (to_lower (snd m))" "TotalNodes sig' = TotalNodes sig + 1"
    "depth' = depth + 1" "MaxDepth sig' = max (MaxDepth sig) depth'" "wf_map cs'"
    "fst ` set cs' = fst ` set cs \<union> set (tag_classes (to_lower (fst m)))"
    using st Cons.prems(3) by (simp_all add: scan_tag_def Let_def split: if_splits) (auto simp: class_fold_wf class_fold [symmetric])
  then show ?case using Cons.IH [of sig' depth' cs'] Cons.prems bag_mincr(1) [OF Cons.prems(1)]
    by (simp add: st Let_def case_prod_beta Un_assoc split: if_splits)
qed simp

text \<open>The facts about a parsed page the components use.\<close>

lemma parse_facts:
  shows "TagCounts (ParseStructuralSignature visit html) = foldl mincr [] (page_tags html)"
    and "TotalNodes (ParseStructuralSignature visit html) = int (length (page_tags html))"
    and "MaxDepth (ParseStructuralSignature visit html) = int (length (page_tags html))"
proof -
  have nil: "find_all_submatch tagRe [] = []" using find_all_length [of tagRe "[]"] by simp
  show "TagCounts (ParseStructuralSignature visit html) = foldl mincr [] (page_tags html)"
    "TotalNodes (ParseStructuralSignature visit html) = int (length (page_tags html))"
    "MaxDepth (ParseStructuralSignature visit html) = int (length (page_tags html))"
    using scan_fold [of empty_sig 0 "[]" "find_all_submatch tagRe html"]
    by (auto simp: ParseStructuralSignature_def page_tags_def empty_sig_def nil Let_def case_prod_beta)
qed

lemma parse_classes:
  assumes "\<And>ks. mset (visit ks) = mset ks"
  shows "\<exists>cs. distinct cs \<and> set cs = page_classes html \<and>
    ClassFingerprint (ParseStructuralSignature visit html) = join '','' cs"
proof (cases "html = []")
  case True
  have "find_all_submatch tagRe [] = []" using find_all_length [of tagRe "[]"] by simp
  with True show ?thesis
    by (intro exI [of _ "[]"]) (simp add: page_classes_def ParseStructuralSignature_def empty_sig_def)
next
  case False
  obtain sig depth cs where st: "foldl scan_tag (empty_sig, 0, []) (find_all_submatch tagRe html) = (sig, depth, cs)"
    by (metis prod.exhaust)
  have "wf_map cs" "set (map fst cs) = page_classes html"
    using scan_fold [of empty_sig 0 "[]" "find_all_submatch tagRe html"]
    by (simp_all add: st page_classes_def) (simp_all add: empty_sig_def)
  then have "distinct (visit (map fst cs))" "set (visit (map fst cs)) = page_classes html"
    using assms [of "map fst cs"] by (metis mset_eq_imp_distinct_iff wf_map_def, metis mset_eq_setD)
  with False show ?thesis by (auto simp: ParseStructuralSignature_def st)
qed

lemma page_class_word: "w \<in> page_classes html \<Longrightarrow> w \<noteq> [] \<and> (\<forall>c \<in> set w. \<not> is_space c)"
  using words_of_words by (fastforce simp: page_classes_def tag_classes_def split: option.splits prod.splits)

text \<open>The class names of a page are parts of its text.\<close>

lemma tag_classes_total: "sum_list (map (\<lambda>v. length v + 1) (tag_classes tag)) \<le> length tag + 1"
  using words_of_total find_submatch_length [of classRe tag]
  by (fastforce simp: tag_classes_def split: option.splits prod.splits intro: order_trans)

lemma class_words_total:
  "sum_list (map (\<lambda>v. length v + 1) (concat (map (tag_classes \<circ> to_lower \<circ> fst) ms))) \<le>
   sum_list (map (length \<circ> fst) ms) + length ms"
proof (induction ms)
  case (Cons m ms)
  have "sum_list (map (\<lambda>v. length v + 1) (tag_classes (to_lower (fst m)))) \<le> length (fst m) + 1"
    using tag_classes_total [of "to_lower (fst m)"] by (simp add: to_lower_def)
  with Cons show ?case by simp
qed simp

lemma page_classes_total:
  assumes "distinct cs" "set cs = page_classes html"
  shows "length (join '','' cs) \<le> 2 * length html"
proof -
  let ?ms = "find_all_submatch tagRe html"
  let ?all = "concat (map (tag_classes \<circ> to_lower \<circ> fst) ?ms)"
  have "length (join '','' cs) \<le> sum_list (map (\<lambda>v. length v + 1) cs)" by (rule join_length)
  also have "\<dots> = (\<Sum>v\<in>set ?all. length v + 1)"
    using assms by (simp add: sum_list_distinct_conv_sum_set page_classes_def)
  also have "\<dots> \<le> sum_list (map (\<lambda>v. length v + 1) ?all)" by (rule sum_set_le_sum_list)
  also have "\<dots> \<le> sum_list (map (length \<circ> fst) ?ms) + length ?ms" by (rule class_words_total)
  also have "\<dots> \<le> 2 * length html" using find_all_total [of tagRe html] find_all_length [of tagRe html] by simp
  finally show ?thesis .
qed

lemma bag_tags: "counters (foldl mincr [] ws)" "bag (foldl mincr [] ws) = mset ws"
  using bag_tally [of "[]" ws] by simp_all

lemma page_tags_length: "length (page_tags html) \<le> length html"
  by (simp add: page_tags_def find_all_length)

section \<open>The similarity as an index of multisets\<close>

text \<open>The signatures the code builds: the counters add up to the number of nodes.\<close>

definition sig_ok :: "'a structural_sig_scheme \<Rightarrow> bool" where
  "sig_ok s \<longleftrightarrow> counters (TagCounts s) \<and> int (size (bag (TagCounts s))) = TotalNodes s \<and> TotalNodes s \<le> 2 ^ 52"

lemma similarity_jaccard:
  assumes "counters (TagCounts a)" "int (size (bag (TagCounts a))) = TotalNodes a"
    "counters (TagCounts b)" "int (size (bag (TagCounts b))) = TotalNodes b"
  shows "StructuralSimilarity a b = jaccard (bag (TagCounts a)) (bag (TagCounts b))"
proof -
  have "TotalNodes a = 0 \<longleftrightarrow> bag (TagCounts a) = {#}" "TotalNodes b = 0 \<longleftrightarrow> bag (TagCounts b) = {#}"
    using assms(2,4) by (metis of_nat_eq_0_iff size_eq_0_iff_empty)+
  then show ?thesis using assms(1,3) by (simp add: StructuralSimilarity_def jaccard_def count_overlap_bag)
qed

interpretation structural: page_matcher "StructuralSimilarity :: structural_sig \<Rightarrow> structural_sig \<Rightarrow> f64" sig_ok
    "\<lambda>a b. bag (TagCounts a) = bag (TagCounts b)"
proof unfold_locales
  have eq: "StructuralSimilarity a b = jaccard (bag (TagCounts a)) (bag (TagCounts b))"
    if "sig_ok a" "sig_ok b" for a b :: structural_sig
    using that by (intro similarity_jaccard) (simp_all add: sig_ok_def)
  show "sig_ok a \<Longrightarrow> sig_ok b \<Longrightarrow> unit_f (StructuralSimilarity a b)" for a b :: structural_sig
    using eq [of a b] by (simp add: sig_ok_def jaccard_unit)
  show "sig_ok a \<Longrightarrow> sig_ok b \<Longrightarrow> bag (TagCounts a) = bag (TagCounts b) \<Longrightarrow> StructuralSimilarity a b = Fin 1"
    for a b :: structural_sig
    using eq [of a b] by (simp add: sig_ok_def jaccard_self)
qed

lemma parsed_ok: "length html \<le> 2 ^ 52 \<Longrightarrow> sig_ok (ParseStructuralSignature visit html)"
  using page_tags_length [of html] by (simp add: sig_ok_def parse_facts bag_tags)

section \<open>Properties\<close>

text \<open>C12: the structural similarity of two pages is the Jaccard index of the multisets of their tag
  names (1 for two pages without tags), whatever order Go visits maps in.\<close>

theorem structural_similarity_jaccard:
  "StructuralSimilarity (ParseStructuralSignature visit html) (ParseStructuralSignature visit' html') =
   jaccard (mset (page_tags html)) (mset (page_tags html'))"
  by (subst similarity_jaccard) (simp_all add: parse_facts bag_tags)

text \<open>the depth a signature reports is no nesting depth: on every page it is the number of opening
  tags, the same figure as the number of nodes.\<close>

theorem structural_depth_is_count:
  "MaxDepth (ParseStructuralSignature visit html) = TotalNodes (ParseStructuralSignature visit html) \<and>
   MaxDepth (ParseStructuralSignature visit html) = int (length (page_tags html))"
  by (simp add: parse_facts)

end
