(* ===== verification/Fingerprint_Matcher.thy ===== *)
theory Fingerprint_Matcher
  imports Structural_Matcher
begin

text \<open>
  \<open>pkg/domheal/fingerprint_matcher.go\<close>: the fingerprint of a page, which adds text patterns,
  attribute counts and link density to the structural signature, its weighted similarity, and the
  matcher over it. The main result is that reading one page twice always gives similarity 1,
  although Go's map order makes the two fingerprints differ.
\<close>

section \<open>Fingerprints\<close>

record dom_fingerprint = structural_sig +
  TextPatterns :: "string list"
  DataAttrs :: "(string, int) gomap"
  IDFingerprint :: string
  RoleMap :: "(string, int) gomap"
  FormElements :: int
  LinkDensity :: f64

definition dataAttrRe :: rx where
  "dataAttrRe = Cat (rx_lit ''data-'')
     (Cat (Cap (Many 1 (\<lambda>c. char_between 97 122 c \<or> is_digit c \<or> c = CHR ''-''))) (Cat (Many 0 rx_space) (rx_lit ''='')))"

definition idAttrRe :: rx where
  "idAttrRe = Cat (Many 1 rx_space) (Cat (rx_lit ''id'') attr_value)"

definition roleAttrRe :: rx where
  "roleAttrRe = Cat (rx_lit ''role'') attr_value"

definition formTagRe :: rx where
  "formTagRe = Cat (rx_lit ''<'') (Cat (Many 0 rx_space)
     (Cat (Cap (Alt (rx_lit ''input'') (Alt (rx_lit ''select'') (Alt (rx_lit ''textarea'') (rx_lit ''button'')))))
       (Cat (Many 0 (not_char CHR ''>'')) (rx_lit ''>''))))"

definition anchorRe :: rx where
  "anchorRe = Cat (rx_lit ''<'') (Cat (Many 0 rx_space) (Cat (rx_lit ''a'')
     (Cat Boundary (Cat (Many 0 (not_char CHR ''>'')) (rx_lit ''>'')))))"

text \<open>The window of four words that moves by four, up to twenty phrases.\<close>

fun phrases :: "string list \<Rightarrow> (string, bool) gomap \<Rightarrow> (string, bool) gomap" where
  "phrases (a # b # c # d # ws) ps =
     (if length ps < 20 then
        let phrase = join '' '' [a, b, c, d] in
        phrases ws (if 15 \<le> length phrase \<and> length phrase \<le> 80 then mset_at ps (to_lower phrase) True else ps)
      else ps)"
| "phrases ws ps = ps"

definition ExtractTextPatterns :: "string \<Rightarrow> string list" where
  "ExtractTextPatterns html =
     (let stripped = join '' '' (words_of (stripHTMLTags html)) in
      if length stripped < 20 then [] else sort (map fst (phrases (words_of stripped) [])))"

definition ParseDOMFingerprint :: "(string list \<Rightarrow> string list) \<Rightarrow> string \<Rightarrow> dom_fingerprint" where
  "ParseDOMFingerprint visit html =
     (let sig = ParseStructuralSignature visit html;
          base = \<lparr>TagCounts = TagCounts sig, MaxDepth = MaxDepth sig, TotalNodes = TotalNodes sig,
            ClassFingerprint = ClassFingerprint sig, TextPatterns = [], DataAttrs = [], IDFingerprint = [],
            RoleMap = [], FormElements = 0, LinkDensity = flit 0\<rparr>;
          lower = to_lower html;
          anchors = int (length (find_all_submatch anchorRe lower))
      in if html = [] then base
         else base\<lparr>DataAttrs := foldl mincr [] (map snd (find_all_submatch dataAttrRe lower)),
           IDFingerprint := join '','' (sort (map snd (find_all_submatch idAttrRe lower))),
           RoleMap := foldl mincr [] (map snd (find_all_submatch roleAttrRe lower)),
           FormElements := int (length (find_all_submatch formTagRe lower)),
           LinkDensity := (if 0 < TotalNodes sig then fdiv (f_of_int anchors) (f_of_int (TotalNodes sig)) else flit 0),
           TextPatterns := ExtractTextPatterns html\<rparr>)"

section \<open>Similarities\<close>

definition piece_set :: "string \<Rightarrow> (string, bool) gomap" where
  "piece_set s = foldl (\<lambda>m c. mset_at m (trim_space c) True) [] (split_on CHR '','' s)"

definition StringSimilarity :: "string \<Rightarrow> string \<Rightarrow> f64" where
  "StringSimilarity a b =
     (if a = b then flit 1
      else if a = [] \<or> b = [] then flit 0
      else let aSet = piece_set a; bSet = piece_set b;
               inter = int (length (filter (\<lambda>(k, _). mget_or False bSet k) aSet));
               union = int (length aSet) + int (length bSet) - inter
           in fdiv (f_of_int inter) (f_of_int union))"

definition MapSimilarity :: "(string, int) gomap \<Rightarrow> (string, int) gomap \<Rightarrow> f64" where
  "MapSimilarity a b =
     (if a = [] \<and> b = [] then flit 1
      else let (inter, union) = count_overlap a b in fdiv (f_of_int inter) (f_of_int union))"

definition TextPatternOverlap :: "string list \<Rightarrow> string list \<Rightarrow> f64" where
  "TextPatternOverlap a b =
     (if a = [] \<and> b = [] then flit 1
      else if a = [] \<or> b = [] then flit 0
      else let matches = int (length (filter (\<lambda>p. p \<in> set a) b));
               union = int (length a) + int (length b) - matches
           in fdiv (f_of_int matches) (f_of_int union))"

definition weighted :: "f64 \<Rightarrow> f64 \<Rightarrow> f64 \<Rightarrow> f64 \<Rightarrow> f64 \<Rightarrow> f64" where
  "weighted structSim classSim dataSim roleSim textSim =
     fadd (fadd (fadd (fadd (fmul (flit (40 / 100)) structSim) (fmul (flit (15 / 100)) classSim))
       (fmul (flit (15 / 100)) dataSim)) (fmul (flit (10 / 100)) roleSim)) (fmul (flit (20 / 100)) textSim)"

definition DOMFingerprintSimilarity :: "dom_fingerprint \<Rightarrow> dom_fingerprint \<Rightarrow> f64" where
  "DOMFingerprintSimilarity a b =
     weighted (StructuralSimilarity a b) (StringSimilarity (ClassFingerprint a) (ClassFingerprint b))
       (MapSimilarity (DataAttrs a) (DataAttrs b)) (MapSimilarity (RoleMap a) (RoleMap b))
       (TextPatternOverlap (TextPatterns a) (TextPatterns b))"

section \<open>The matcher\<close>

definition NewFingerprintMatcher :: "f64 \<Rightarrow> dom_fingerprint matcher" where
  "NewFingerprintMatcher threshold = new_matcher threshold"

definition fm_CheckAndUpdate :: "(string list \<Rightarrow> string list) \<Rightarrow> string \<Rightarrow> string \<Rightarrow> dom_fingerprint matcher \<Rightarrow>
    match_result \<times> dom_fingerprint matcher" where
  "fm_CheckAndUpdate visit pageID html fm =
     check_page DOMFingerprintSimilarity pageID (ParseDOMFingerprint visit html) fm"

definition fm_FindClosestMatch :: "(string list \<Rightarrow> string list) \<Rightarrow> string \<Rightarrow> dom_fingerprint matcher \<Rightarrow> closest_result" where
  "fm_FindClosestMatch visit html fm = closest_page DOMFingerprintSimilarity (ParseDOMFingerprint visit html) fm"

definition KnownCount :: "dom_fingerprint matcher \<Rightarrow> nat" where
  "KnownCount fm = length (mt_known fm)"

section \<open>The parts of a similarity are indices between 0 and 1\<close>

lemma flit_zero [simp]: "flit 0 = Fin 0"
  by (simp add: f64_of_rat_Fin)

text \<open>Counters without zero entries, as the parser builds them.\<close>

definition pos_counters :: "(string, int) gomap \<Rightarrow> bool" where
  "pos_counters m \<longleftrightarrow> counters m \<and> (\<forall>k n. (k, n) \<in> set m \<longrightarrow> 0 < n)"

lemma pos_mincr: "pos_counters m \<Longrightarrow> pos_counters (mincr m k)"
proof -
  assume m: "pos_counters m"
  then have "0 \<le> mget_or 0 m k" by (simp add: pos_counters_def counters_def)
  then show ?thesis using m set_mset_at [of m k "mget_or 0 m k + 1"] bag_mincr(1) [of m k]
    by (fastforce simp: pos_counters_def mincr_def)
qed

lemma pos_tally: "pos_counters m \<Longrightarrow> pos_counters (foldl mincr m ws)"
  by (induction ws arbitrary: m) (simp_all add: pos_mincr)

lemma pos_Nil [simp]: "pos_counters []"
  by (simp add: pos_counters_def)

lemma map_similarity_jaccard:
  assumes "pos_counters a" "pos_counters b"
  shows "MapSimilarity a b = jaccard (bag a) (bag b)"
proof -
  have nil: "m = [] \<longleftrightarrow> bag m = {#}" if "pos_counters m" for m
  proof (cases m)
    case (Cons kn m')
    obtain k n where "kn = (k, n)" by force
    with that Cons have "0 < n" by (auto simp: pos_counters_def)
    with Cons \<open>kn = (k, n)\<close> show ?thesis by (simp add: bag_def)
  qed simp
  show ?thesis using assms nil [of a] nil [of b]
    by (simp add: MapSimilarity_def jaccard_def count_overlap_bag pos_counters_def)
qed

lemma filter_in_distinct:
  assumes "distinct xs" "distinct ys"
  shows "length (filter (\<lambda>x. x \<in> set ys) xs) = card (set xs \<inter> set ys)"
proof -
  have "length (filter (\<lambda>x. x \<in> set ys) xs) = card (set (filter (\<lambda>x. x \<in> set ys) xs))"
    using assms(1) by (simp only: distinct_card distinct_filter)
  also have "set (filter (\<lambda>x. x \<in> set ys) xs) = set xs \<inter> set ys" by auto
  finally show ?thesis .
qed

text \<open>The quotient both set similarities compute.\<close>

lemma set_quotient:
  assumes "finite A" "finite B" "A \<noteq> {}" "card A \<le> 2 ^ 52" "card B \<le> 2 ^ 52"
  shows "unit_f (fdiv (f_of_int (int (card (A \<inter> B)))) (f_of_int (int (card A) + int (card B) - int (card (A \<inter> B)))))"
    and "A = B \<Longrightarrow> fdiv (f_of_int (int (card (A \<inter> B)))) (f_of_int (int (card A) + int (card B) - int (card (A \<inter> B)))) = Fin 1"
proof -
  have un: "card A + card B = card (A \<union> B) + card (A \<inter> B)" using assms(1,2) by (rule card_Un_Int)
  then have u: "int (card A) + int (card B) - int (card (A \<inter> B)) = int (card (A \<union> B))" by linarith
  have pos: "0 < card (A \<union> B)" using assms(1-3) by (simp add: card_gt_0_iff)
  have le: "card (A \<inter> B) \<le> card (A \<union> B)" using assms(1,2) by (intro card_mono) auto
  have "card (A \<union> B) \<le> 2 ^ 52 + 2 ^ 52" using un assms(4,5) by linarith
  then have "int (card (A \<union> B)) \<le> int (2 ^ 53)" unfolding of_nat_le_iff by simp
  then have big: "int (card (A \<union> B)) \<le> 2 ^ 53" by simp
  show "unit_f (fdiv (f_of_int (int (card (A \<inter> B)))) (f_of_int (int (card A) + int (card B) - int (card (A \<inter> B)))))"
    unfolding u using frac_unit(2) [of "int (card (A \<inter> B))" "int (card (A \<union> B))"] pos le big by simp
  show "fdiv (f_of_int (int (card (A \<inter> B)))) (f_of_int (int (card A) + int (card B) - int (card (A \<inter> B)))) = Fin 1"
    if "A = B"
    using f_of_int_exact [of "int (card A)"] that pos big by simp
qed

definition pieces :: "string \<Rightarrow> string set" where
  "pieces s = trim_space ` set (split_on CHR '','' s)"

lemma piece_fold:
  "wf_map m \<Longrightarrow> (\<forall>k. mget m k \<noteq> Some False) \<Longrightarrow>
   wf_map (foldl (\<lambda>m c. mset_at m (trim_space c) True) m cs) \<and>
   fst ` set (foldl (\<lambda>m c. mset_at m (trim_space c) True) m cs) = fst ` set m \<union> trim_space ` set cs \<and>
   (\<forall>k. mget (foldl (\<lambda>m c. mset_at m (trim_space c) True) m cs) k \<noteq> Some False)"
  by (induction cs arbitrary: m) auto

lemma piece_set_facts:
  "distinct (map fst (piece_set s))" "set (map fst (piece_set s)) = pieces s"
  "mget_or False (piece_set s) k \<longleftrightarrow> k \<in> pieces s"
proof -
  have f: "wf_map (piece_set s)" "fst ` set (piece_set s) = pieces s" "mget (piece_set s) k \<noteq> Some False"
    using piece_fold [of "[]" "split_on CHR '','' s"] by (simp_all add: piece_set_def pieces_def)
  show "distinct (map fst (piece_set s))" using f(1) by (simp add: wf_map_def)
  show "set (map fst (piece_set s)) = pieces s" using f(2) by simp
  show "mget_or False (piece_set s) k \<longleftrightarrow> k \<in> pieces s"
    using f(3) mget_key [of k "piece_set s"] unfolding f(2) by (auto simp: mget_or_def split: option.splits)
qed

lemma string_similarity_sets:
  assumes "a \<noteq> b" "a \<noteq> []" "b \<noteq> []"
  shows "StringSimilarity a b = fdiv (f_of_int (int (card (pieces a \<inter> pieces b))))
    (f_of_int (int (card (pieces a)) + int (card (pieces b)) - int (card (pieces a \<inter> pieces b))))"
proof -
  have len: "length (piece_set s) = card (pieces s)" for s
    using distinct_card [OF piece_set_facts(1) [of s]] piece_set_facts(2) [of s] by simp
  have "length (filter (\<lambda>(k, _). mget_or False (piece_set b) k) (piece_set a)) =
      length (filter (\<lambda>k. k \<in> set (map fst (piece_set b))) (map fst (piece_set a)))"
    unfolding piece_set_facts(2) by (simp add: filter_map piece_set_facts(3) comp_def case_prod_unfold)
  also have "\<dots> = card (pieces a \<inter> pieces b)"
    using filter_in_distinct [OF piece_set_facts(1) piece_set_facts(1), of b a] by (simp add: piece_set_facts(2) del: set_map)
  finally show ?thesis using assms by (simp add: StringSimilarity_def Let_def len)
qed

lemma pieces_bounds: "finite (pieces s)" "pieces s \<noteq> {}" "card (pieces s) \<le> length s + 1"
proof -
  have "card (pieces s) \<le> card (set (split_on CHR '','' s))" unfolding pieces_def by (rule card_image_le) simp
  also have "\<dots> \<le> length (split_on CHR '','' s)" by (rule card_length)
  finally show "card (pieces s) \<le> length s + 1" using split_on_length [of "CHR '',''" s] by linarith
qed (simp_all add: pieces_def)

lemma string_similarity_unit:
  assumes "length a < 2 ^ 52" "length b < 2 ^ 52"
  shows "unit_f (StringSimilarity a b)"
proof (cases "a = b \<or> a = [] \<or> b = []")
  case False
  have "card (pieces a) \<le> 2 ^ 52" "card (pieces b) \<le> 2 ^ 52"
    using pieces_bounds(3) [of a] pieces_bounds(3) [of b] assms by linarith+
  with False set_quotient(1) [OF pieces_bounds(1,1,2)] show ?thesis by (simp add: string_similarity_sets)
qed (auto simp: StringSimilarity_def)

lemma text_overlap_unit:
  assumes "distinct a" "distinct b" "length a \<le> 2 ^ 52" "length b \<le> 2 ^ 52"
  shows "unit_f (TextPatternOverlap a b)" and "TextPatternOverlap a a = Fin 1"
proof -
  have eq: "TextPatternOverlap x y = fdiv (f_of_int (int (card (set x \<inter> set y))))
      (f_of_int (int (card (set x)) + int (card (set y)) - int (card (set x \<inter> set y))))"
    if "distinct x" "distinct y" "x \<noteq> []" "y \<noteq> []" for x y
    using that filter_in_distinct [of y x] by (simp add: TextPatternOverlap_def Let_def distinct_card Int_commute)
  have card: "card (set a) \<le> 2 ^ 52" "card (set b) \<le> 2 ^ 52"
    using assms by (simp_all add: distinct_card)
  show "unit_f (TextPatternOverlap a b)"
  proof (cases "a = [] \<or> b = []")
    case True
    then show ?thesis by (auto simp: TextPatternOverlap_def)
  next
    case False
    then show ?thesis using set_quotient(1) [of "set a" "set b"] card assms by (simp add: eq)
  qed
  show "TextPatternOverlap a a = Fin 1"
  proof (cases "a = []")
    case False
    then show ?thesis using set_quotient(2) [of "set a" "set a"] card assms(1) by (simp add: eq)
  qed (simp add: TextPatternOverlap_def)
qed

section \<open>The weighted sum\<close>

lemma weight_bound:
  assumes "unit_f s" "0 \<le> w" "w \<le> 1"
  shows "\<exists>x. fmul (flit w) s = Fin x \<and> 0 \<le> x \<and> x \<le> rnd (rnd w)"
proof -
  obtain r where r: "s = Fin r" "0 \<le> r" "r \<le> 1" using assms(1) by (rule in_range_cases)
  have w: "0 \<le> rnd w" "rnd w \<le> 1" using assms rnd_unit by blast+
  then have "0 \<le> rnd w * r" "rnd w * r \<le> rnd w" using r by (simp_all add: mult_left_le)
  moreover from this w have "f64_of_rat (rnd w * r) = Fin (rnd (rnd w * r))" by (intro f64_of_rat_Fin) simp
  ultimately show ?thesis using r assms by (simp add: f64_of_rat_Fin rnd_mono)
qed

lemma weight_one: "0 \<le> w \<Longrightarrow> w \<le> 1 \<Longrightarrow> fmul (flit w) (Fin 1) = Fin (rnd (rnd w))"
proof -
  assume w: "0 \<le> w" "w \<le> 1"
  then have "0 \<le> rnd w" "rnd w \<le> 1" using rnd_unit by blast+
  then have "\<bar>rnd w\<bar> \<le> 2 ^ 53" by (simp add: order_trans [of _ 1])
  with w show ?thesis using f64_of_rat_Fin [of "rnd w"] by (simp add: f64_of_rat_Fin)
qed

lemma fadd_exactly: "rnd (a + b) = c \<Longrightarrow> \<bar>a + b\<bar> \<le> 2 ^ 53 \<Longrightarrow> fadd (Fin a) (Fin b) = Fin c"
  by (simp add: f64_of_rat_Fin)

lemma fadd_bounded:
  assumes "0 \<le> x" "x \<le> a" "0 \<le> y" "y \<le> b" "rnd (a + b) = c" "a + b \<le> 2 ^ 53"
  shows "\<exists>z. fadd (Fin x) (Fin y) = Fin z \<and> 0 \<le> z \<and> z \<le> c"
  using assms rnd_mono [of "x + y" "a + b"] by (simp add: f64_of_rat_Fin)

text \<open>The five weights, rounded, and the partial sums of the weighted sum when every part is 1.\<close>

lemma weights_rounded:
  "rnd (rnd (40 / 100)) = 3602879701896397 / 9007199254740992"
  "rnd (rnd (15 / 100)) = 5404319552844595 / 36028797018963968"
  "rnd (rnd (10 / 100)) = 3602879701896397 / 36028797018963968"
  "rnd (rnd (20 / 100)) = 3602879701896397 / 18014398509481984"
proof -
  have w: "rnd (40 / 100) = 3602879701896397 / 9007199254740992"
    using rnd_nearest [of "- 54" "40 / 100" 7205759403792794] by (simp add: pow2_def)
  have "rnd (3602879701896397 / 9007199254740992) = 3602879701896397 / 9007199254740992"
    using rnd_exact [of 7205759403792794 "- 54"] by (simp add: pow2_def)
  then show "rnd (rnd (40 / 100)) = 3602879701896397 / 9007199254740992" by (simp only: w)
  have w: "rnd (15 / 100) = 5404319552844595 / 36028797018963968"
    using rnd_nearest [of "- 55" "15 / 100" 5404319552844595] by (simp add: pow2_def)
  have "rnd (5404319552844595 / 36028797018963968) = 5404319552844595 / 36028797018963968"
    using rnd_exact [of 5404319552844595 "- 55"] by (simp add: pow2_def)
  then show "rnd (rnd (15 / 100)) = 5404319552844595 / 36028797018963968" by (simp only: w)
  have w: "rnd (10 / 100) = 3602879701896397 / 36028797018963968"
    using rnd_nearest [of "- 56" "10 / 100" 7205759403792794] by (simp add: pow2_def)
  have "rnd (3602879701896397 / 36028797018963968) = 3602879701896397 / 36028797018963968"
    using rnd_exact [of 7205759403792794 "- 56"] by (simp add: pow2_def)
  then show "rnd (rnd (10 / 100)) = 3602879701896397 / 36028797018963968" by (simp only: w)
  have w: "rnd (20 / 100) = 3602879701896397 / 18014398509481984"
    using rnd_nearest [of "- 55" "20 / 100" 7205759403792794] by (simp add: pow2_def)
  have "rnd (3602879701896397 / 18014398509481984) = 3602879701896397 / 18014398509481984"
    using rnd_exact [of 7205759403792794 "- 55"] by (simp add: pow2_def)
  then show "rnd (rnd (20 / 100)) = 3602879701896397 / 18014398509481984" by (simp only: w)
qed

lemma partial_sums:
  "rnd (3602879701896397 / 9007199254740992 + 5404319552844595 / 36028797018963968) = 2476979795053773 / 4503599627370496"
  "rnd (2476979795053773 / 4503599627370496 + 5404319552844595 / 36028797018963968) = 6305039478318695 / 9007199254740992"
  "rnd (6305039478318695 / 9007199254740992 + 3602879701896397 / 36028797018963968) = 3602879701896397 / 4503599627370496"
  "rnd (3602879701896397 / 4503599627370496 + 3602879701896397 / 18014398509481984) = 1"
  using rnd_nearest [of "- 53" "3602879701896397 / 9007199254740992 + 5404319552844595 / 36028797018963968" 4953959590107546]
    rnd_nearest [of "- 53" "2476979795053773 / 4503599627370496 + 5404319552844595 / 36028797018963968" 6305039478318695]
    rnd_nearest [of "- 53" "6305039478318695 / 9007199254740992 + 3602879701896397 / 36028797018963968" 7205759403792794]
    rnd_nearest [of "- 52" "3602879701896397 / 4503599627370496 + 3602879701896397 / 18014398509481984" 4503599627370496]
  by (simp_all add: pow2_def)

lemma weighted_unit:
  assumes "unit_f a" "unit_f b" "unit_f c" "unit_f d" "unit_f e"
  shows "unit_f (weighted a b c d e)"
proof -
  obtain v where v: "fmul (flit (40 / 100)) a = Fin v" "0 \<le> v" "v \<le> 3602879701896397 / 9007199254740992"
    using weight_bound [OF assms(1), of "40 / 100", unfolded weights_rounded] by auto
  obtain w where w: "fmul (flit (15 / 100)) b = Fin w" "0 \<le> w" "w \<le> 5404319552844595 / 36028797018963968"
    using weight_bound [OF assms(2), of "15 / 100", unfolded weights_rounded] by auto
  obtain x where x: "fmul (flit (15 / 100)) c = Fin x" "0 \<le> x" "x \<le> 5404319552844595 / 36028797018963968"
    using weight_bound [OF assms(3), of "15 / 100", unfolded weights_rounded] by auto
  obtain y where y: "fmul (flit (10 / 100)) d = Fin y" "0 \<le> y" "y \<le> 3602879701896397 / 36028797018963968"
    using weight_bound [OF assms(4), of "10 / 100", unfolded weights_rounded] by auto
  obtain z where z: "fmul (flit (20 / 100)) e = Fin z" "0 \<le> z" "z \<le> 3602879701896397 / 18014398509481984"
    using weight_bound [OF assms(5), of "20 / 100", unfolded weights_rounded] by auto
  obtain s1 where s1: "fadd (Fin v) (Fin w) = Fin s1" "0 \<le> s1" "s1 \<le> 2476979795053773 / 4503599627370496"
    using fadd_bounded [OF v(2,3) w(2,3) partial_sums(1)] by auto
  obtain s2 where s2: "fadd (Fin s1) (Fin x) = Fin s2" "0 \<le> s2" "s2 \<le> 6305039478318695 / 9007199254740992"
    using fadd_bounded [OF s1(2,3) x(2,3) partial_sums(2)] by auto
  obtain s3 where s3: "fadd (Fin s2) (Fin y) = Fin s3" "0 \<le> s3" "s3 \<le> 3602879701896397 / 4503599627370496"
    using fadd_bounded [OF s2(2,3) y(2,3) partial_sums(3)] by auto
  obtain s4 where s4: "fadd (Fin s3) (Fin z) = Fin s4" "0 \<le> s4" "s4 \<le> 1"
    using fadd_bounded [OF s3(2,3) z(2,3) partial_sums(4)] by auto
  show ?thesis using s4(2,3) unfolding weighted_def v w x y z s1(1) s2(1) s3(1) s4(1) by simp
qed

lemma weighted_one: "weighted (Fin 1) (Fin 1) (Fin 1) (Fin 1) (Fin 1) = Fin 1"
proof -
  have w: "fmul (flit (40 / 100)) (Fin 1) = Fin (3602879701896397 / 9007199254740992)"
    "fmul (flit (15 / 100)) (Fin 1) = Fin (5404319552844595 / 36028797018963968)"
    "fmul (flit (10 / 100)) (Fin 1) = Fin (3602879701896397 / 36028797018963968)"
    "fmul (flit (20 / 100)) (Fin 1) = Fin (3602879701896397 / 18014398509481984)"
    by (subst weight_one; simp only: weights_rounded; simp)+
  note sums = partial_sums [THEN fadd_exactly]
  show ?thesis unfolding weighted_def w by (subst sums, simp)+ simp
qed

section \<open>Readings of a page\<close>

text \<open>The fingerprints of pages of at most \<open>2 ^ 50\<close> bytes, and two readings of one page.\<close>

definition visits :: "(string list \<Rightarrow> string list) \<Rightarrow> bool" where
  "visits visit \<longleftrightarrow> (\<forall>ks. mset (visit ks) = mset ks)"

definition reading_of :: "string \<Rightarrow> dom_fingerprint \<Rightarrow> bool" where
  "reading_of html fp \<longleftrightarrow> length html \<le> 2 ^ 50 \<and> (\<exists>visit. visits visit \<and> fp = ParseDOMFingerprint visit html)"

lemma fingerprint_parts:
  "TagCounts (ParseDOMFingerprint visit html) = TagCounts (ParseStructuralSignature visit html)"
  "TotalNodes (ParseDOMFingerprint visit html) = TotalNodes (ParseStructuralSignature visit html)"
  "ClassFingerprint (ParseDOMFingerprint visit html) = ClassFingerprint (ParseStructuralSignature visit html)"
  "pos_counters (DataAttrs (ParseDOMFingerprint visit html))"
  "pos_counters (RoleMap (ParseDOMFingerprint visit html))"
  "size (bag (DataAttrs (ParseDOMFingerprint visit html))) \<le> length html"
  "size (bag (RoleMap (ParseDOMFingerprint visit html))) \<le> length html"
  using find_all_length [of dataAttrRe "to_lower html"] find_all_length [of roleAttrRe "to_lower html"]
  by (simp_all add: ParseDOMFingerprint_def Let_def pos_tally bag_tags) (simp_all add: to_lower_def)

text \<open>Everything but the class names is read the same way in any map order.\<close>

lemma fingerprint_visit:
  "TagCounts (ParseDOMFingerprint visit html) = TagCounts (ParseDOMFingerprint visit' html)"
  "TotalNodes (ParseDOMFingerprint visit html) = TotalNodes (ParseDOMFingerprint visit' html)"
  "DataAttrs (ParseDOMFingerprint visit html) = DataAttrs (ParseDOMFingerprint visit' html)"
  "RoleMap (ParseDOMFingerprint visit html) = RoleMap (ParseDOMFingerprint visit' html)"
  "TextPatterns (ParseDOMFingerprint visit html) = TextPatterns (ParseDOMFingerprint visit' html)"
  by (simp_all add: ParseDOMFingerprint_def Let_def parse_facts)

lemma phrases_wf: "wf_map ps \<Longrightarrow> length ps \<le> 20 \<Longrightarrow> wf_map (phrases ws ps) \<and> length (phrases ws ps) \<le> 20"
proof (induction ws ps rule: phrases.induct)
  case (1 a b c d ws ps)
  have "length (mset_at ps k True) \<le> Suc (length ps)" for k by (induction ps) (auto simp: mset_at_def)
  then have "length ps < 20 \<Longrightarrow> length (mset_at ps k True) \<le> 20" for k by (meson Suc_leI le_trans)
  with 1 show ?case by (simp add: Let_def)
qed simp_all

lemma text_patterns_wf: "distinct (ExtractTextPatterns html)" "length (ExtractTextPatterns html) \<le> 20"
  using phrases_wf [of "[]" "words_of (join '' '' (words_of (stripHTMLTags html)))"]
  by (simp_all add: ExtractTextPatterns_def Let_def wf_map_def)

lemma text_parts: "distinct (TextPatterns (ParseDOMFingerprint visit html))"
  "length (TextPatterns (ParseDOMFingerprint visit html)) \<le> 2 ^ 52"
  using text_patterns_wf [of html] by (simp_all add: ParseDOMFingerprint_def Let_def)

text \<open>The class names are the same set in any order, and that is all their similarity looks at.\<close>

lemma pieces_join: "ws \<noteq> [] \<Longrightarrow> pieces (join '','' ws) = (\<Union>w \<in> set ws. pieces w)"
  by (auto simp: pieces_def split_on_join_gen)

lemma class_similarity_same:
  assumes "distinct cs" "set cs = page_classes html" "distinct cs'" "set cs' = page_classes html" "length html \<le> 2 ^ 50"
  shows "StringSimilarity (join '','' cs) (join '','' cs') = Fin 1"
proof (cases "join '','' cs = join '','' cs'")
  case False
  have ne: "cs \<noteq> []" "cs' \<noteq> []" using False assms(2,4) by auto
  have "[] \<notin> set cs" "[] \<notin> set cs'" using assms(2,4) page_class_word by blast+
  have nil: "join '','' cs \<noteq> []" "join '','' cs' \<noteq> []" using ne \<open>[] \<notin> set cs\<close> \<open>[] \<notin> set cs'\<close> by (auto simp: join_eq_Nil)
  have eq: "pieces (join '','' cs) = pieces (join '','' cs')" using ne assms(2,4) by (simp add: pieces_join)
  have "card (pieces (join '','' cs)) \<le> 2 ^ 52"
    using pieces_bounds(3) [of "join '','' cs"] page_classes_total [OF assms(1,2)] assms(5) by simp
  with False nil eq set_quotient(2) [OF pieces_bounds(1) pieces_bounds(1) pieces_bounds(2)]
  show ?thesis by (simp add: string_similarity_sets)
qed (simp add: StringSimilarity_def)

lemma class_length:
  assumes "visits visit" "length html \<le> 2 ^ 50"
  shows "length (ClassFingerprint (ParseDOMFingerprint visit html)) < 2 ^ 52"
proof -
  obtain cs where "distinct cs" "set cs = page_classes html"
    "ClassFingerprint (ParseStructuralSignature visit html) = join '','' cs"
    using parse_classes [of visit html] assms(1) by (auto simp: visits_def)
  with page_classes_total [of cs html] assms(2) show ?thesis by (simp add: fingerprint_parts)
qed

lemma structural_jaccard:
  "StructuralSimilarity (ParseDOMFingerprint v h) (ParseDOMFingerprint v' h') = jaccard (mset (page_tags h)) (mset (page_tags h'))"
  by (subst similarity_jaccard) (simp_all add: fingerprint_parts parse_facts bag_tags)

lemma structural_part:
  assumes "length html \<le> 2 ^ 50" "length html' \<le> 2 ^ 50"
  shows "unit_f (StructuralSimilarity (ParseDOMFingerprint visit html) (ParseDOMFingerprint visit' html'))"
    and "StructuralSimilarity (ParseDOMFingerprint visit html) (ParseDOMFingerprint visit' html) = Fin 1"
proof -
  note eq = structural_jaccard
  show "unit_f (StructuralSimilarity (ParseDOMFingerprint visit html) (ParseDOMFingerprint visit' html'))"
    using page_tags_length [of html] page_tags_length [of html'] assms by (simp add: eq jaccard_unit)
  show "StructuralSimilarity (ParseDOMFingerprint visit html) (ParseDOMFingerprint visit' html) = Fin 1"
    using page_tags_length [of html] assms by (simp add: eq jaccard_self)
qed

interpretation fingerprint: page_matcher DOMFingerprintSimilarity "\<lambda>fp. \<exists>html. reading_of html fp"
    "\<lambda>a b. \<exists>html. reading_of html a \<and> reading_of html b"
proof unfold_locales
  fix a b
  assume "\<exists>html. reading_of html a" "\<exists>html. reading_of html b"
  then obtain h v h' v' where len: "length h \<le> 2 ^ 50" "length h' \<le> 2 ^ 50" and v: "visits v" "visits v'"
    and ab: "a = ParseDOMFingerprint v h" "b = ParseDOMFingerprint v' h'" by (auto simp: reading_of_def)
  have maps: "unit_f (MapSimilarity x y)" if "pos_counters x" "pos_counters y" "size (bag x) \<le> 2 ^ 50" "size (bag y) \<le> 2 ^ 50"
    for x y using that by (simp add: map_similarity_jaccard jaccard_unit)
  show "unit_f (DOMFingerprintSimilarity a b)" unfolding DOMFingerprintSimilarity_def ab
    by (intro weighted_unit structural_part(1) string_similarity_unit class_length maps text_overlap_unit(1) text_parts
        fingerprint_parts(4,5) order_trans [OF fingerprint_parts(6)] order_trans [OF fingerprint_parts(7)] v len)
next
  fix a b
  assume "\<exists>html. reading_of html a \<and> reading_of html b"
  then obtain h v v' where len: "length h \<le> 2 ^ 50" and v: "visits v" "visits v'"
    and ab: "a = ParseDOMFingerprint v h" "b = ParseDOMFingerprint v' h" by (auto simp: reading_of_def)
  obtain cs cs' where cs: "distinct cs" "set cs = page_classes h" "distinct cs'" "set cs' = page_classes h"
    "ClassFingerprint a = join '','' cs" "ClassFingerprint b = join '','' cs'"
    using parse_classes [of v h] parse_classes [of v' h] v by (auto simp: visits_def ab fingerprint_parts)
  have maps: "MapSimilarity x x = Fin 1" if "pos_counters x" "size (bag x) \<le> 2 ^ 50" for x
    using that by (simp add: map_similarity_jaccard jaccard_self)
  have "MapSimilarity (DataAttrs a) (DataAttrs b) = Fin 1" "MapSimilarity (RoleMap a) (RoleMap b) = Fin 1"
    unfolding ab fingerprint_visit [of v h v'] using fingerprint_parts(4-7) [of v' h] len by (intro maps; simp)+
  moreover have "TextPatternOverlap (TextPatterns a) (TextPatterns b) = Fin 1"
    unfolding ab fingerprint_visit [of v h v'] by (rule text_overlap_unit(2) [OF text_parts(1,1,2,2)])
  moreover have "StructuralSimilarity a b = Fin 1" unfolding ab by (rule structural_part(2) [OF len len])
  moreover have "StringSimilarity (ClassFingerprint a) (ClassFingerprint b) = Fin 1"
    unfolding cs(5,6) by (rule class_similarity_same [OF cs(1-4) len])
  ultimately show "DOMFingerprintSimilarity a b = Fin 1"
    by (simp add: DOMFingerprintSimilarity_def weighted_one)
qed

lemma reading_twice:
  assumes "visits v" "visits v'" "length html \<le> 2 ^ 50"
  shows "DOMFingerprintSimilarity (ParseDOMFingerprint v html) (ParseDOMFingerprint v' html) = Fin 1"
proof -
  have "reading_of html (ParseDOMFingerprint v html)" "reading_of html (ParseDOMFingerprint v' html)"
    using assms by (auto simp: reading_of_def)
  then show ?thesis using fingerprint.sim_alike by blast
qed

section \<open>Properties\<close>

lemma string_similarity_commute: "StringSimilarity a b = StringSimilarity b a"
proof (cases "a = b \<or> a = [] \<or> b = []")
  case False
  then show ?thesis using string_similarity_sets [of a b] string_similarity_sets [of b a] by (auto simp: Int_commute add.commute)
qed (auto simp: StringSimilarity_def)

lemma text_overlap_commute:
  assumes "distinct a" "distinct b"
  shows "TextPatternOverlap a b = TextPatternOverlap b a"
  using filter_in_distinct [OF assms] filter_in_distinct [OF assms(2,1)]
  by (simp add: TextPatternOverlap_def Let_def Int_commute add.commute)

text \<open>Every part of the similarity is an index of two sets or bags, so the order of the pages does not matter.\<close>

lemma fingerprint_commute:
  "DOMFingerprintSimilarity (ParseDOMFingerprint v html) (ParseDOMFingerprint v' html') =
   DOMFingerprintSimilarity (ParseDOMFingerprint v' html') (ParseDOMFingerprint v html)"
proof -
  have "StructuralSimilarity (ParseDOMFingerprint v html) (ParseDOMFingerprint v' html') =
      StructuralSimilarity (ParseDOMFingerprint v' html') (ParseDOMFingerprint v html)"
    unfolding structural_jaccard by (rule jaccard_commute)
  then show ?thesis
    using text_overlap_commute [OF text_parts(1,1)]
    by (simp add: DOMFingerprintSimilarity_def string_similarity_commute [of "ClassFingerprint (ParseDOMFingerprint v html)"]
        map_similarity_jaccard fingerprint_parts(4,5) jaccard_commute [of "bag (DataAttrs (ParseDOMFingerprint v html))"]
        jaccard_commute [of "bag (RoleMap (ParseDOMFingerprint v html))"])
qed

text \<open>C13: reading one page twice gives two fingerprints of similarity exactly 1, whatever order Go visits
  the set of class names in, although that order decides what their class fields say; the
  similarity of any two pages lies between 0 and 1 and does not depend on which of them comes first.\<close>

theorem fingerprint_similarity:
  assumes "visits v" "visits v'" "length html \<le> 2 ^ 50" "length html' \<le> 2 ^ 50"
  shows "DOMFingerprintSimilarity (ParseDOMFingerprint v html) (ParseDOMFingerprint v' html) = Fin 1 \<and>
    unit_f (DOMFingerprintSimilarity (ParseDOMFingerprint v html) (ParseDOMFingerprint v' html')) \<and>
    DOMFingerprintSimilarity (ParseDOMFingerprint v html) (ParseDOMFingerprint v' html') =
    DOMFingerprintSimilarity (ParseDOMFingerprint v' html') (ParseDOMFingerprint v html)"
proof -
  have r: "reading_of html (ParseDOMFingerprint v html)" "reading_of html (ParseDOMFingerprint v' html)"
    "reading_of html' (ParseDOMFingerprint v' html')"
    using assms by (auto simp: reading_of_def)
  then show ?thesis using fingerprint.sim_alike fingerprint.sim_unit fingerprint_commute by blast
qed

lemma visits_id_rev: "visits id" "visits rev"
  by (simp_all add: visits_def)

definition two_class_page :: string where
  "two_class_page = ''<p class='' @ [CHR 0x22] @ ''hot new'' @ [CHR 0x22] @ ''>x</p>''"

lemma fingerprint_similarity_witness:
  "ClassFingerprint (ParseDOMFingerprint id two_class_page) \<noteq> ClassFingerprint (ParseDOMFingerprint rev two_class_page) \<and>
   DOMFingerprintSimilarity (ParseDOMFingerprint id two_class_page) (ParseDOMFingerprint rev two_class_page) = Fin 1"
proof -
  have "ClassFingerprint (ParseDOMFingerprint id two_class_page) \<noteq> ClassFingerprint (ParseDOMFingerprint rev two_class_page)"
    unfolding fingerprint_parts by code_simp
  moreover have "length two_class_page \<le> 2 ^ 50" by (simp add: two_class_page_def)
  ultimately show ?thesis using fingerprint_similarity [OF visits_id_rev, of two_class_page two_class_page] by blast
qed

text \<open>A matcher over a run of pages, each with the map order of its reading.\<close>

definition fm_check :: "dom_fingerprint matcher \<Rightarrow> (string list \<Rightarrow> string list) \<times> string \<times> string \<Rightarrow> dom_fingerprint matcher" where
  "fm_check fm page = (case page of (visit, pageID, html) \<Rightarrow> snd (fm_CheckAndUpdate visit pageID html fm))"

definition page_ok :: "(string list \<Rightarrow> string list) \<times> string \<times> string \<Rightarrow> bool" where
  "page_ok page = (case page of (visit, pageID, html) \<Rightarrow> visits visit \<and> length html \<le> 2 ^ 50)"

lemma fm_run_ok:
  "\<forall>page \<in> set pages. page_ok page \<Longrightarrow>
   known_ok (\<lambda>fp. \<exists>html. reading_of html fp) (foldl fm_check (NewFingerprintMatcher t) pages) \<and>
   mt_threshold (foldl fm_check (NewFingerprintMatcher t) pages) = mt_threshold (NewFingerprintMatcher t)"
proof (induction pages rule: rev_induct)
  case Nil
  show ?case by (simp add: NewFingerprintMatcher_def fingerprint.known_ok_new)
next
  case (snoc page pages)
  obtain v p h where page: "page = (v, p, h)" by (metis prod.exhaust)
  then have "reading_of h (ParseDOMFingerprint v h)" using snoc.prems by (auto simp: reading_of_def page_ok_def)
  with snoc page fingerprint.known_ok_check show ?case
    by (auto simp: fm_check_def fm_CheckAndUpdate_def) (auto simp: check_page_def)
qed

lemma flit_07: "flit (7 / 10) = Fin (6305039478318694 / 9007199254740992)"
proof -
  have "rnd (7 / 10) = 6305039478318694 / 9007199254740992"
    using rnd_nearest [of "- 53" "7 / 10" 6305039478318694] by (simp add: pow2_def)
  then show ?thesis by (simp add: f64_of_rat_Fin)
qed

lemma new_matcher_positive: "t \<noteq> NaN \<Longrightarrow> flt (Fin 0) (mt_threshold (NewFingerprintMatcher t))"
  by (cases t) (auto simp: NewFingerprintMatcher_def new_matcher_def flt_def flit_07)

text \<open>C6: whatever pages a matcher has seen, the closest match is a known page whose similarity to the
  given page is maximal and reaches the threshold, and one is found whenever there is any.\<close>

theorem fingerprint_closest_match:
  assumes "\<forall>page \<in> set pages. page_ok page" "visits visit" "length html \<le> 2 ^ 50" "t \<noteq> NaN"
  shows "let fm = foldl fm_check (NewFingerprintMatcher t) pages; r = fm_FindClosestMatch visit html fm;
      sim = DOMFingerprintSimilarity (ParseDOMFingerprint visit html)
    in (cl_Found r \<longleftrightarrow> (\<exists>known \<in> set (mt_known fm). fle (mt_threshold fm) (sim (snd known)))) \<and>
      (cl_Found r \<longrightarrow> (\<exists>sig. mget (mt_known fm) (cl_PageID r) = Some sig \<and> cl_Similarity r = sim sig) \<and>
        (\<forall>known \<in> set (mt_known fm). fle (sim (snd known)) (cl_Similarity r)))"
proof -
  define fm where "fm = foldl fm_check (NewFingerprintMatcher t) pages"
  have ok: "known_ok (\<lambda>fp. \<exists>html. reading_of html fp) fm" "flt (Fin 0) (mt_threshold fm)"
    using fm_run_ok [OF assms(1)] new_matcher_positive [OF assms(4)] by (simp_all add: fm_def)
  have r: "\<exists>h. reading_of h (ParseDOMFingerprint visit html)" using assms(2,3) by (auto simp: reading_of_def)
  show ?thesis using fingerprint.closest_correct [OF ok(1) r ok(2)]
    unfolding fm_def [symmetric] Let_def fm_FindClosestMatch_def by blast
qed

definition shop_pages :: "((string list \<Rightarrow> string list) \<times> string \<times> string) list" where
  "shop_pages = [(id, ''cart'', ''<ul><li>''), (rev, ''login'', ''<form><input>'')]"

lemma fingerprint_closest_match_witness:
  "cl_Found (fm_FindClosestMatch id ''<form><input>'' (foldl fm_check (NewFingerprintMatcher (flit (7 / 10))) shop_pages))"
proof -
  let ?fm = "foldl fm_check (NewFingerprintMatcher (flit (7 / 10))) shop_pages"
  have pages: "\<forall>page \<in> set shop_pages. page_ok page"
    using visits_id_rev by (simp add: shop_pages_def page_ok_def)
  have thr: "mt_threshold ?fm = Fin (6305039478318694 / 9007199254740992)" "flit (7 / 10) \<noteq> NaN"
    using fm_run_ok [OF pages, of "flit (7 / 10)"] by (simp_all add: NewFingerprintMatcher_def new_matcher_def flit_07)
  have known: "(''login'', ParseDOMFingerprint rev ''<form><input>'') \<in> set (mt_known ?fm)"
    by (simp add: shop_pages_def fm_check_def fm_CheckAndUpdate_def check_page_def NewFingerprintMatcher_def
        new_matcher_def mset_at_def)
  have "DOMFingerprintSimilarity (ParseDOMFingerprint id ''<form><input>'') (ParseDOMFingerprint rev ''<form><input>'') = Fin 1"
    by (rule reading_twice [OF visits_id_rev]) simp
  with known thr have "\<exists>known \<in> set (mt_known ?fm).
      fle (mt_threshold ?fm) (DOMFingerprintSimilarity (ParseDOMFingerprint id ''<form><input>'') (snd known))"
    by (intro bexI [of _ "(''login'', ParseDOMFingerprint rev ''<form><input>'')"]) simp_all
  then show ?thesis
    using fingerprint_closest_match [OF pages, of id "''<form><input>''" "flit (7 / 10)"] visits_id_rev thr(2)
    by (simp add: Let_def)
qed

end
