(* ===== verification/Disk.thy ===== *)
theory Disk
  imports Go_Prelude
begin

text \<open>
  The few functions of Go's \<open>os\<close> package the persistent components call, over a disk that is part
  of the state. What the operating system answers to the coming calls is a schedule (success when
  it has run out); a write that fails may leave anything in the file. \<open>'d\<close> is what a file holds:
  the components never look into it, they only pass it to and from the JSON library, whose
  decoder answers the error, if any, and what it has decoded.
\<close>

datatype fs_error = NotExist | FsError string

datatype 'd io_outcome = IoOk | IoFail string "'d option"

record 'd disk =
  d_files :: "(string, 'd) gomap"
  d_dirs :: "string list"
  d_next :: "'d io_outcome list"

definition outcome :: "'d disk \<Rightarrow> 'd io_outcome \<times> 'd disk" where
  "outcome d = (case d_next d of [] \<Rightarrow> (IoOk, d) | r # rs \<Rightarrow> (r, d\<lparr>d_next := rs\<rparr>))"

definition MkdirAll :: "string \<Rightarrow> 'd disk \<Rightarrow> fs_error option \<times> 'd disk" where
  "MkdirAll dir d =
     (case outcome d of
        (IoOk, d) \<Rightarrow> (None, d\<lparr>d_dirs := dir # d_dirs d\<rparr>)
      | (IoFail e _, d) \<Rightarrow> (Some (FsError e), d))"

definition WriteFile :: "string \<Rightarrow> 'd \<Rightarrow> 'd disk \<Rightarrow> fs_error option \<times> 'd disk" where
  "WriteFile path data d =
     (case outcome d of
        (IoOk, d) \<Rightarrow> (None, d\<lparr>d_files := mset_at (d_files d) path data\<rparr>)
      | (IoFail e None, d) \<Rightarrow> (Some (FsError e), d)
      | (IoFail e (Some left), d) \<Rightarrow> (Some (FsError e), d\<lparr>d_files := mset_at (d_files d) path left\<rparr>))"

definition ReadFile :: "string \<Rightarrow> 'd disk \<Rightarrow> (fs_error + 'd) \<times> 'd disk" where
  "ReadFile path d =
     (case outcome d of
        (IoOk, d) \<Rightarrow> (case mget (d_files d) path of None \<Rightarrow> (Inl NotExist, d) | Some x \<Rightarrow> (Inr x, d))
      | (IoFail e _, d) \<Rightarrow> (Inl (FsError e), d))"

definition join_path :: "string \<Rightarrow> string \<Rightarrow> string" where
  "join_path dir name = dir @ ''/'' @ name"

text \<open>Decoding into a Go map that already has entries keeps those the file does not name.\<close>

definition mmerge :: "('k, 'v) gomap \<Rightarrow> ('k, 'v) gomap \<Rightarrow> ('k, 'v) gomap" where
  "mmerge old new = foldl (\<lambda>m (k, v). mset_at m k v) old new"

lemma mget_foldl_set:
  "wf_map new \<Longrightarrow> mget (foldl (\<lambda>m (k, v). mset_at m k v) old new) k = (case mget new k of None \<Rightarrow> mget old k | Some v \<Rightarrow> Some v)"
proof (induction new arbitrary: old)
  case (Cons kv new)
  obtain j v where kv: "kv = (j, v)" by force
  have wf: "wf_map new" "mget new j = None" using Cons.prems by (auto simp: wf_map_def kv mget_def map_of_eq_None_iff)
  have "mget (kv # new) k = (if k = j then Some v else mget new k)" by (simp add: mget_def kv)
  with Cons.IH [OF wf(1)] wf(2) show ?case by (auto simp: kv split: option.splits)
qed (simp add: mget_def)

lemma mget_mmerge: "wf_map new \<Longrightarrow> mget (mmerge old new) k = (case mget new k of None \<Rightarrow> mget old k | Some v \<Rightarrow> Some v)"
  by (simp add: mmerge_def mget_foldl_set)

lemma wf_mmerge [simp]: "wf_map old \<Longrightarrow> wf_map (mmerge old new)"
  unfolding mmerge_def by (induction new arbitrary: old) auto

lemmas disk_defs = outcome_def MkdirAll_def WriteFile_def ReadFile_def

text \<open>What was written is read back, once the disk works.\<close>

lemma read_after_write:
  "WriteFile path x d = (None, d') \<Longrightarrow> d_next d' = [] \<Longrightarrow> ReadFile path d' = (Inr x, d')"
  by (auto simp: disk_defs split: list.splits io_outcome.splits option.splits prod.splits)

lemma write_stores: "WriteFile path x d = (None, d') \<Longrightarrow> mget (d_files d') path = Some x"
  by (auto simp: disk_defs split: list.splits io_outcome.splits option.splits prod.splits)

lemma read_stored: "d_next d = [] \<Longrightarrow> mget (d_files d) path = Some x \<Longrightarrow> ReadFile path d = (Inr x, d)"
  by (simp add: disk_defs)

lemma write_error_files:
  "WriteFile path x d = (r, d') \<Longrightarrow> k \<noteq> path \<Longrightarrow> mget (d_files d') k = mget (d_files d) k"
  by (auto simp: disk_defs split: list.splits io_outcome.splits option.splits prod.splits)

end
