(* ===== verification/Drift_Detector.thy ===== *)
theory Drift_Detector
  imports Disk
begin

text \<open>
  \<open>pkg/domheal/drift_detector.go\<close>: content hashes of pages, compared on every visit and kept in a
  JSON file. Page text is ASCII, so that its runes are its bytes.
\<close>

section \<open>The hash\<close>

definition hex_digit :: "nat \<Rightarrow> char" where
  "hex_digit n = char_of (if n < 10 then 48 + n else 87 + n)"

fun hex_nat :: "nat \<Rightarrow> string" where
  "hex_nat n = (if n < 16 then [hex_digit n] else hex_nat (n div 16) @ [hex_digit (n mod 16)])"

declare hex_nat.simps [simp del]

text \<open>\<open>fmt.Sprintf("%x")\<close> of an integer.\<close>

definition hex_int :: "int \<Rightarrow> string" where
  "hex_int i = (if i < 0 then CHR ''-'' # hex_nat (nat (- i)) else hex_nat (nat i))"

definition hashString :: "string \<Rightarrow> int" where
  "hashString s = foldl (\<lambda>h c. wrap64 (31 * h + of_char c)) 0 s"

definition normalized :: "string \<Rightarrow> string" where
  "normalized content = trim_space (to_lower content)"

definition simpleHash :: "string \<Rightarrow> string" where
  "simpleHash content = (let n = normalized content in hex_int (wrap64 (int (length n) * 31 + hashString n)))"

section \<open>The detector\<close>

record drift_detector =
  dd_baseDir :: string
  dd_hashes :: "(string, string) gomap"

definition NewDriftDetector :: "string \<Rightarrow> drift_detector" where
  "NewDriftDetector baseDir = \<lparr>dd_baseDir = baseDir, dd_hashes = []\<rparr>"

text \<open>The error result of \<open>CheckAndUpdate\<close> is always \<open>nil\<close>.\<close>

definition dd_CheckAndUpdate :: "string \<Rightarrow> string \<Rightarrow> drift_detector \<Rightarrow> bool \<times> drift_detector" where
  "dd_CheckAndUpdate pageID html dd =
     (let hash = simpleHash html in
      (case mget (dd_hashes dd) pageID of None \<Rightarrow> False | Some prev \<Rightarrow> prev \<noteq> hash,
       dd\<lparr>dd_hashes := mset_at (dd_hashes dd) pageID hash\<rparr>))"

definition drift_path :: "drift_detector \<Rightarrow> string" where
  "drift_path dd = join_path (dd_baseDir dd) ''drift-hashes.json''"

definition dd_Save :: "((string, string) gomap \<Rightarrow> 'd) \<Rightarrow> drift_detector \<Rightarrow> 'd disk \<Rightarrow> fs_error option \<times> 'd disk" where
  "dd_Save enc dd d =
     (if dd_baseDir dd = [] then (None, d)
      else case MkdirAll (dd_baseDir dd) d of
        (Some e, d) \<Rightarrow> (Some e, d)
      | (None, d) \<Rightarrow> WriteFile (drift_path dd) (enc (dd_hashes dd)) d)"

datatype load_error = LoadFs fs_error | LoadJson string

definition dd_Load :: "('d \<Rightarrow> string option \<times> (string, string) gomap) \<Rightarrow> drift_detector \<Rightarrow> 'd disk \<Rightarrow>
    load_error option \<times> drift_detector \<times> 'd disk" where
  "dd_Load dec dd d =
     (if dd_baseDir dd = [] then (None, dd, d)
      else case ReadFile (drift_path dd) d of
        (Inl NotExist, d) \<Rightarrow> (None, dd, d)
      | (Inl e, d) \<Rightarrow> (Some (LoadFs e), dd, d)
      | (Inr data, d) \<Rightarrow>
          (let (err, m) = dec data in
           (map_option LoadJson err, dd\<lparr>dd_hashes := mmerge (dd_hashes dd) m\<rparr>, d)))"

definition HashCount :: "drift_detector \<Rightarrow> nat" where
  "HashCount dd = length (dd_hashes dd)"

section \<open>Hexadecimal notation determines the number\<close>

definition hex_value :: "char \<Rightarrow> nat" where
  "hex_value c = (let n = of_char c in if n < 58 then n - 48 else n - 87)"

lemma hex_value_digit: "n < 16 \<Longrightarrow> hex_value (hex_digit n) = n"
  by (simp add: hex_value_def hex_digit_def Let_def)

lemma hex_nat_value: "foldl (\<lambda>v c. v * 16 + hex_value c) 0 (hex_nat n) = n"
proof (induction n rule: hex_nat.induct)
  case (1 n)
  then show ?case by (subst hex_nat.simps) (simp add: hex_value_digit)
qed

lemma hex_nat_inj: "hex_nat m = hex_nat n \<longleftrightarrow> m = n"
  by (metis hex_nat_value)

lemma hex_nat_no_sign: "hex_nat n = CHR ''-'' # s \<Longrightarrow> False"
proof (induction n arbitrary: s rule: hex_nat.induct)
  case (1 n)
  have digit: "hex_digit k \<noteq> CHR ''-''" if "k < 16" for k
  proof
    assume "hex_digit k = CHR ''-''"
    then have "(of_char (hex_digit k) :: nat) = 45" by simp
    with that show False by (simp add: hex_digit_def split: if_splits)
  qed
  show ?case
  proof (cases "n < 16")
    case True
    with "1.prems" digit show ?thesis by (simp add: hex_nat.simps [of n])
  next
    case False
    have "hex_nat (n div 16) \<noteq> []" by (subst hex_nat.simps) simp
    with False "1.prems" obtain t where "hex_nat (n div 16) = CHR ''-'' # t"
      by (cases "hex_nat (n div 16)") (simp_all add: hex_nat.simps [of n])
    with "1.IH" False show ?thesis by blast
  qed
qed

lemma hex_int_inj: "hex_int i = hex_int j \<longleftrightarrow> i = j"
proof
  assume eq: "hex_int i = hex_int j"
  have sign: "hex_nat n \<noteq> CHR ''-'' # s" for n s using hex_nat_no_sign by blast
  have neg: "i < 0 \<longleftrightarrow> j < 0"
  proof
    assume "i < 0"
    then show "j < 0" using eq sign by (metis hex_int_def)
  next
    assume "j < 0"
    then show "i < 0" using eq sign by (metis hex_int_def)
  qed
  show "i = j"
  proof (cases "i < 0")
    case True
    with eq neg have "nat (- i) = nat (- j)" by (simp add: hex_int_def hex_nat_inj)
    with True neg show ?thesis by linarith
  next
    case False
    with eq neg have "nat i = nat j" by (simp add: hex_int_def hex_nat_inj)
    with False neg show ?thesis by linarith
  qed
qed simp

text \<open>Equal hashes mean equal numbers, and nothing more.\<close>

lemma simpleHash_eq:
  "simpleHash a = simpleHash b \<longleftrightarrow>
   wrap64 (int (length (normalized a)) * 31 + hashString (normalized a)) =
   wrap64 (int (length (normalized b)) * 31 + hashString (normalized b))"
  by (simp add: simpleHash_def Let_def hex_int_inj)

section \<open>What the hash misses\<close>

lemma shifted_mod: "(a * ((x + m) mod n - m) + c) mod n = (a * x + c) mod (n :: int)"
proof -
  have "(x + m) mod n - m = x - (x + m) div n * n" by (simp add: minus_div_mult_eq_mod [symmetric])
  then have "a * ((x + m) mod n - m) + c = a * x + c + (- (a * ((x + m) div n))) * n" by algebra
  then show ?thesis by (simp only: mod_mult_self1)
qed

lemma wrap64_inner: "wrap64 (a * wrap64 x + c) = wrap64 (a * x + c)"
  unfolding wrap64_def using shifted_mod [of a x 9223372036854775808 18446744073709551616 "c + 9223372036854775808"]
  by (simp only: add.assoc)

text \<open>
  Two neighbouring characters can be exchanged for others without changing the hash: \<open>a~\<close> for
  \<open>b_\<close>, in any text.
\<close>

lemma hash_collision: "hashString (s @ ''a~'' @ t) = hashString (s @ ''b_'' @ t)"
proof -
  have "wrap64 (31 * wrap64 (31 * h + 97) + 126) = wrap64 (31 * wrap64 (31 * h + 98) + 95)" for h
    unfolding wrap64_inner by (simp add: algebra_simps)
  then show ?thesis by (simp add: hashString_def)
qed

lemma not_drifted: "\<not> fst (dd_CheckAndUpdate pageID html dd) \<longleftrightarrow>
   mget (dd_hashes dd) pageID = None \<or> mget (dd_hashes dd) pageID = Some (simpleHash html)"
  by (auto simp: dd_CheckAndUpdate_def Let_def split: option.splits)

section \<open>Persistence\<close>

text \<open>
  The state after a restart: a new detector over the same directory that has loaded what the old
  one saved.
\<close>

lemma drift_restart:
  assumes "dec (enc (dd_hashes dd)) = (None, m)" "wf_map m" "mget m = mget (dd_hashes dd)" "dd_baseDir dd \<noteq> []"
    "dd_Save enc dd d = (None, d')" "d_next d' = []"
  shows "\<exists>dd'. dd_Load dec (NewDriftDetector (dd_baseDir dd)) d' = (None, dd', d') \<and>
    mget (dd_hashes dd') = mget (dd_hashes dd)"
proof -
  obtain d1 where "WriteFile (drift_path dd) (enc (dd_hashes dd)) d1 = (None, d')"
    using assms(4,5) by (auto simp: dd_Save_def split: prod.splits option.splits)
  from read_after_write [OF this assms(6)] have "ReadFile (drift_path dd) d' = (Inr (enc (dd_hashes dd)), d')" .
  moreover have "mget (mmerge [] m) = mget m" using mget_mmerge [OF assms(2)] by (auto simp: fun_eq_iff split: option.splits)
  ultimately show ?thesis using assms(1,3,4) by (simp add: dd_Load_def NewDriftDetector_def drift_path_def)
qed

section \<open>Properties\<close>

text \<open>a page is reported as drifted exactly when the number its text hashes to differs from that of
  the last visit; so a page whose text changed only in case or in surrounding white space is never
  reported.\<close>

theorem drift_reported_iff:
  "fst (dd_CheckAndUpdate pageID html' (snd (dd_CheckAndUpdate pageID html dd))) \<longleftrightarrow>
     wrap64 (int (length (normalized html)) * 31 + hashString (normalized html)) \<noteq>
     wrap64 (int (length (normalized html')) * 31 + hashString (normalized html'))"
  using simpleHash_eq by (auto simp: dd_CheckAndUpdate_def Let_def)

text \<open>the hash misses changes: in any lower-case text, exchanging \<open>a~\<close> for \<open>b_\<close> anywhere between two
  tags is not reported, although the two texts differ.\<close>

theorem drift_missed:
  assumes "normalized (s @ ''a~'' @ t) = s @ ''a~'' @ t" "normalized (s @ ''b_'' @ t) = s @ ''b_'' @ t"
  shows "s @ ''a~'' @ t \<noteq> s @ ''b_'' @ t \<and>
    \<not> fst (dd_CheckAndUpdate pageID (s @ ''b_'' @ t) (snd (dd_CheckAndUpdate pageID (s @ ''a~'' @ t) dd)))"
proof -
  have "simpleHash (s @ ''a~'' @ t) = simpleHash (s @ ''b_'' @ t)"
    unfolding simpleHash_eq assms using hash_collision [of s t] by simp
  then show ?thesis by (simp add: dd_CheckAndUpdate_def Let_def)
qed

lemma drift_missed_witness:
  "\<not> fst (dd_CheckAndUpdate ''p'' ''<p>b_</p>'' (snd (dd_CheckAndUpdate ''p'' ''<p>a~</p>'' (NewDriftDetector []))))"
proof -
  have "normalized (''<p>'' @ ''a~'' @ ''</p>'') = ''<p>'' @ ''a~'' @ ''</p>''"
    "normalized (''<p>'' @ ''b_'' @ ''</p>'') = ''<p>'' @ ''b_'' @ ''</p>''" by code_simp+
  from drift_missed [OF this, of "''p''" "NewDriftDetector []"] show ?thesis by simp
qed

text \<open>C21: drift state survives a restart: when the hashes were saved and the disk works, a new detector
  that loads them reports every later page as the old one would have.\<close>

theorem drift_survives_restart:
  assumes "\<And>m. wf_map m \<Longrightarrow> dec (enc m) = (None, m)" "wf_map (dd_hashes dd)" "dd_baseDir dd \<noteq> []"
    "dd_Save enc dd d = (None, d')" "d_next d' = []"
  shows "\<exists>dd'. dd_Load dec (NewDriftDetector (dd_baseDir dd)) d' = (None, dd', d') \<and>
    fst (dd_CheckAndUpdate pageID html dd') = fst (dd_CheckAndUpdate pageID html dd)"
  using drift_restart [of dec enc dd "dd_hashes dd" d d'] assms
  by (auto simp: dd_CheckAndUpdate_def Let_def)

lemma drift_survives_restart_witness:
  "\<exists>dd'. dd_Load (\<lambda>m. (None, m)) (NewDriftDetector ''state'')
      (snd (dd_Save id (snd (dd_CheckAndUpdate ''p'' ''a'' (NewDriftDetector ''state''))) \<lparr>d_files = [], d_dirs = [], d_next = []\<rparr>)) =
    (None, dd', snd (dd_Save id (snd (dd_CheckAndUpdate ''p'' ''a'' (NewDriftDetector ''state''))) \<lparr>d_files = [], d_dirs = [], d_next = []\<rparr>)) \<and>
    fst (dd_CheckAndUpdate ''p'' ''b'' dd')"
proof -
  let ?dd = "snd (dd_CheckAndUpdate ''p'' ''a'' (NewDriftDetector ''state''))"
  let ?d = "\<lparr>d_files = [], d_dirs = [], d_next = []\<rparr> :: (string, string) gomap disk"
  have "wf_map (dd_hashes ?dd)" "dd_baseDir ?dd = ''state''"
    "dd_Save id ?dd ?d = (None, snd (dd_Save id ?dd ?d))" "d_next (snd (dd_Save id ?dd ?d)) = []"
    "fst (dd_CheckAndUpdate ''p'' ''b'' ?dd)" by code_simp+
  then show ?thesis
    using drift_survives_restart [of "\<lambda>m. (None, m)" id ?dd ?d "snd (dd_Save id ?dd ?d)" "''p''" "''b''"] by simp
qed

end
