(* ===== verification/Dom_Store.thy ===== *)
theory Dom_Store
  imports Drift_Detector
begin

text \<open>
  What \<open>pkg/domheal\<close> keeps on disk besides the drift hashes: the log of selector repairs
  (\<open>repair_log.go\<close>) and the learned patterns of pages (\<open>pattern_store.go\<close>). Both read the whole
  file, change the decoded value and write it back; \<open>enc\<close> and \<open>dec\<close> are the JSON library.
\<close>

section \<open>The repair log\<close>

record repair_suggestion =
  rs_ElementType :: string
  rs_OldSelector :: string
  rs_NewSelector :: string
  rs_Confidence :: f64
  rs_Method :: string

type_synonym repair_log = string

definition NewRepairLog :: "string \<Rightarrow> repair_log" where
  "NewRepairLog path = path"

definition rl_Append :: "(repair_suggestion list \<Rightarrow> 'd) \<Rightarrow> ('d \<Rightarrow> string option \<times> repair_suggestion list) \<Rightarrow>
    repair_log \<Rightarrow> repair_suggestion \<Rightarrow> 'd disk \<Rightarrow> fs_error option \<times> 'd disk" where
  "rl_Append enc dec path suggestion d =
     (let (r, d) = ReadFile path d;
          entries = (case r of Inl _ \<Rightarrow> [] | Inr data \<Rightarrow> snd (dec data))
      in WriteFile path (enc (entries @ [suggestion])) d)"

definition rl_Read :: "('d \<Rightarrow> string option \<times> repair_suggestion list) \<Rightarrow> repair_log \<Rightarrow> 'd disk \<Rightarrow>
    (load_error + repair_suggestion list) \<times> 'd disk" where
  "rl_Read dec path d =
     (case ReadFile path d of
        (Inl e, d) \<Rightarrow> (Inl (LoadFs e), d)
      | (Inr data, d) \<Rightarrow> (case dec data of (Some e, _) \<Rightarrow> (Inl (LoadJson e), d) | (None, es) \<Rightarrow> (Inr es, d)))"

section \<open>The pattern store\<close>

record dom_pattern =
  dp_PageID :: string
  dp_SelectorHistory :: "string list"
  dp_LastKnownFingerprint :: string
  dp_LastSeen :: time
  dp_RepairCount :: int
  dp_StableCount :: int
  dp_Confidence :: f64

record dom_store_stats =
  ds_TotalPatterns :: int
  ds_StalePatterns :: int
  ds_AvgConfidence :: f64

abbreviation StaleThreshold :: duration where "StaleThreshold \<equiv> 30 * 24 * 60 * minute"

datatype dom_store_error = StoreFs fs_error | InvalidPatternsFile string | ErrPatternNotFound

type_synonym dom_patterns = "(string, dom_pattern) gomap"

definition ps_path :: "string \<Rightarrow> string" where
  "ps_path baseDir = join_path baseDir ''patterns.json''"

definition ps_loadMap :: "('d \<Rightarrow> string option \<times> dom_patterns) \<Rightarrow> string \<Rightarrow> 'd disk \<Rightarrow>
    (dom_store_error + dom_patterns) \<times> 'd disk" where
  "ps_loadMap dec baseDir d =
     (if baseDir = [] then (Inr [], d)
      else case ReadFile (ps_path baseDir) d of
        (Inl NotExist, d) \<Rightarrow> (Inr [], d)
      | (Inl e, d) \<Rightarrow> (Inl (StoreFs e), d)
      | (Inr data, d) \<Rightarrow> (case dec data of (Some e, _) \<Rightarrow> (Inl (InvalidPatternsFile e), d) | (None, m) \<Rightarrow> (Inr m, d)))"

definition ps_saveMap :: "(dom_patterns \<Rightarrow> 'd) \<Rightarrow> string \<Rightarrow> dom_patterns \<Rightarrow> 'd disk \<Rightarrow>
    dom_store_error option \<times> 'd disk" where
  "ps_saveMap enc baseDir m d =
     (if baseDir = [] then (None, d)
      else case MkdirAll baseDir d of
        (Some e, d) \<Rightarrow> (Some (StoreFs e), d)
      | (None, d) \<Rightarrow> (let (r, d) = WriteFile (ps_path baseDir) (enc m) d in (map_option StoreFs r, d)))"

definition ps_Save :: "(dom_patterns \<Rightarrow> 'd) \<Rightarrow> ('d \<Rightarrow> string option \<times> dom_patterns) \<Rightarrow> time \<Rightarrow> string \<Rightarrow> string \<Rightarrow>
    dom_pattern \<Rightarrow> 'd disk \<Rightarrow> dom_store_error option \<times> 'd disk" where
  "ps_Save enc dec now baseDir pageID p d =
     (case ps_loadMap dec baseDir d of
        (Inl e, d) \<Rightarrow> (Some e, d)
      | (Inr m, d) \<Rightarrow>
          let p = p\<lparr>dp_PageID := pageID\<rparr>;
              p = (if is_zero_time (dp_LastSeen p) then p\<lparr>dp_LastSeen := now\<rparr> else p)
          in ps_saveMap enc baseDir (mset_at m pageID p) d)"

definition ps_Load :: "('d \<Rightarrow> string option \<times> dom_patterns) \<Rightarrow> string \<Rightarrow> string \<Rightarrow> 'd disk \<Rightarrow>
    (dom_store_error + dom_pattern) \<times> 'd disk" where
  "ps_Load dec baseDir pageID d =
     (case ps_loadMap dec baseDir d of
        (Inl e, d) \<Rightarrow> (Inl e, d)
      | (Inr m, d) \<Rightarrow> (case mget m pageID of None \<Rightarrow> (Inl ErrPatternNotFound, d) | Some p \<Rightarrow> (Inr p, d)))"

definition ps_LoadAll :: "('d \<Rightarrow> string option \<times> dom_patterns) \<Rightarrow> string \<Rightarrow> 'd disk \<Rightarrow>
    (dom_store_error + dom_patterns) \<times> 'd disk" where
  "ps_LoadAll dec baseDir d = ps_loadMap dec baseDir d"

definition ps_Delete :: "(dom_patterns \<Rightarrow> 'd) \<Rightarrow> ('d \<Rightarrow> string option \<times> dom_patterns) \<Rightarrow> string \<Rightarrow> string \<Rightarrow> 'd disk \<Rightarrow>
    dom_store_error option \<times> 'd disk" where
  "ps_Delete enc dec baseDir pageID d =
     (case ps_loadMap dec baseDir d of
        (Inl e, d) \<Rightarrow> (Some e, d)
      | (Inr m, d) \<Rightarrow>
          if mget m pageID = None then (Some ErrPatternNotFound, d)
          else ps_saveMap enc baseDir (mdelete m pageID) d)"

definition ps_Stats :: "('d \<Rightarrow> string option \<times> dom_patterns) \<Rightarrow> time \<Rightarrow> string \<Rightarrow> 'd disk \<Rightarrow> dom_store_stats \<times> 'd disk" where
  "ps_Stats dec now baseDir d =
     (case ps_loadMap dec baseDir d of
        (Inl e, d) \<Rightarrow> (\<lparr>ds_TotalPatterns = 0, ds_StalePatterns = 0, ds_AvgConfidence = flit 0\<rparr>, d)
      | (Inr m, d) \<Rightarrow>
          let total = int (length m);
              stale = int (length (filter (\<lambda>(_, p). dp_LastSeen p < now - StaleThreshold) m));
              sumConf = foldl (\<lambda>s (_, p). fadd s (dp_Confidence p)) (flit 0) m
          in (\<lparr>ds_TotalPatterns = total, ds_StalePatterns = stale,
               ds_AvgConfidence = (if 0 < total then fdiv sumConf (f_of_int total) else flit 0)\<rparr>, d))"

section \<open>The log and the store as a sequence and a map\<close>

text \<open>What a working disk holds, seen through the decoder.\<close>

definition log_entries :: "('d \<Rightarrow> string option \<times> repair_suggestion list) \<Rightarrow> repair_log \<Rightarrow> 'd disk \<Rightarrow> repair_suggestion list" where
  "log_entries dec path d = (case mget (d_files d) path of None \<Rightarrow> [] | Some data \<Rightarrow> snd (dec data))"

definition stored :: "('d \<Rightarrow> string option \<times> dom_patterns) \<Rightarrow> string \<Rightarrow> 'd disk \<Rightarrow> dom_patterns" where
  "stored dec baseDir d = (case mget (d_files d) (ps_path baseDir) of None \<Rightarrow> [] | Some data \<Rightarrow> snd (dec data))"

definition readable :: "('d \<Rightarrow> string option \<times> 'a) \<Rightarrow> string \<Rightarrow> 'd disk \<Rightarrow> bool" where
  "readable dec path d \<longleftrightarrow> (\<forall>data. mget (d_files d) path = Some data \<longrightarrow> fst (dec data) = None)"

lemma working_disk:
  assumes "d_next d = []"
  shows "outcome d = (IoOk, d)" "MkdirAll dir d = (None, d\<lparr>d_dirs := dir # d_dirs d\<rparr>)"
    "WriteFile path x d = (None, d\<lparr>d_files := mset_at (d_files d) path x\<rparr>)"
    "ReadFile path d = (case mget (d_files d) path of None \<Rightarrow> (Inl NotExist, d) | Some x \<Rightarrow> (Inr x, d))"
  using assms by (simp_all add: disk_defs)

lemma loadMap_stored:
  "d_next d = [] \<Longrightarrow> baseDir \<noteq> [] \<Longrightarrow> readable dec (ps_path baseDir) d \<Longrightarrow>
   ps_loadMap dec baseDir d = (Inr (stored dec baseDir d), d)"
  by (auto simp: ps_loadMap_def working_disk stored_def readable_def split: option.splits prod.splits)

text \<open>Writing a map back: it is what the store then holds.\<close>

lemma saveMap_stored:
  assumes "d_next d = []" "baseDir \<noteq> []" "dec (enc m) = (None, m)"
  shows "\<exists>d'. ps_saveMap enc baseDir m d = (None, d') \<and> d_next d' = [] \<and> readable dec (ps_path baseDir) d' \<and>
    stored dec baseDir d' = m"
  using assms by (simp add: ps_saveMap_def working_disk readable_def stored_def)

section \<open>Properties\<close>

text \<open>the repair log is a sequence: on a working disk an appended suggestion is read back after all
  earlier ones.\<close>

theorem repair_log_appends:
  assumes "\<And>es. dec (enc es) = (None, es)" "d_next d = []" "readable dec path d"
  shows "\<exists>d'. rl_Append enc dec path s d = (None, d') \<and>
    rl_Read dec path d' = (Inr (log_entries dec path d @ [s]), d')"
  using assms
  by (auto simp: rl_Append_def rl_Read_def working_disk log_entries_def readable_def split: option.splits prod.splits)

definition repair_login :: repair_suggestion where
  "repair_login = \<lparr>rs_ElementType = ''login'', rs_OldSelector = ''#a'', rs_NewSelector = ''#b'', rs_Confidence = Fin 1,
     rs_Method = ''css''\<rparr>"

lemma repair_log_appends_witness:
  "\<exists>d'. rl_Append id (\<lambda>es. (None, es)) ''log'' repair_login \<lparr>d_files = [(''log'', [repair_login])], d_dirs = [], d_next = []\<rparr> = (None, d') \<and>
    rl_Read (\<lambda>es. (None, es)) ''log'' d' = (Inr [repair_login, repair_login], d')"
  using repair_log_appends [of "\<lambda>es. (None, es)" id "\<lparr>d_files = [(''log'', [repair_login])], d_dirs = [], d_next = []\<rparr>"
      "''log''" repair_login]
  by (simp add: readable_def log_entries_def mget_def)

text \<open>a log that cannot be read at the moment of an append is lost: \<open>Append\<close> takes any read error for
  an empty log, overwrites the file with the new suggestion alone, and reports success.\<close>

theorem repair_log_lost:
  assumes "\<And>es. dec (enc es) = (None, es)" "d_next d = [IoFail e left]"
  shows "\<exists>d'. rl_Append enc dec path s d = (None, d') \<and> rl_Read dec path d' = (Inr [s], d')"
  using assms by (simp add: rl_Append_def rl_Read_def disk_defs)

lemma repair_log_lost_witness:
  "\<exists>d'. rl_Append id (\<lambda>es. (None, es)) ''log'' repair_login
      \<lparr>d_files = [(''log'', [repair_login, repair_login])], d_dirs = [], d_next = [IoFail ''EMFILE'' None]\<rparr> = (None, d') \<and>
    rl_Read (\<lambda>es. (None, es)) ''log'' d' = (Inr [repair_login], d')"
  using repair_log_lost [of "\<lambda>es. (None, es)" id
      "\<lparr>d_files = [(''log'', [repair_login, repair_login])], d_dirs = [], d_next = [IoFail ''EMFILE'' None]\<rparr>"
      "''EMFILE''" None "''log''" repair_login] by simp

text \<open>C18: the pattern store is a map on disk: after a save the page loads with what was saved, under its
  own id and with a time, after a delete it is not found, and no other page is affected.\<close>

theorem dom_store_is_map:
  assumes "\<And>m. dec (enc m) = (None, m)" "d_next d = []" "baseDir \<noteq> []" "readable dec (ps_path baseDir) d"
  shows "(\<exists>d'. ps_Save enc dec now baseDir k p d = (None, d') \<and>
      ps_Load dec baseDir k d' =
        (Inr (p\<lparr>dp_PageID := k, dp_LastSeen := (if dp_LastSeen p = 0 then now else dp_LastSeen p)\<rparr>), d') \<and>
      (\<forall>j. j \<noteq> k \<longrightarrow> fst (ps_Load dec baseDir j d') = fst (ps_Load dec baseDir j d))) \<and>
    (mget (stored dec baseDir d) k \<noteq> None \<longrightarrow>
      (\<exists>d'. ps_Delete enc dec baseDir k d = (None, d') \<and> ps_Load dec baseDir k d' = (Inl ErrPatternNotFound, d') \<and>
      (\<forall>j. j \<noteq> k \<longrightarrow> fst (ps_Load dec baseDir j d') = fst (ps_Load dec baseDir j d))))"
proof -
  have load: "ps_Load dec baseDir j d = (case mget (stored dec baseDir d) j of None \<Rightarrow> (Inl ErrPatternNotFound, d) | Some p \<Rightarrow> (Inr p, d))"
    if "d_next d = []" "readable dec (ps_path baseDir) d" for j d
    using loadMap_stored [OF that(1) assms(3) that(2)] by (simp add: ps_Load_def)
  let ?p = "p\<lparr>dp_PageID := k, dp_LastSeen := (if dp_LastSeen p = 0 then now else dp_LastSeen p)\<rparr>"
  obtain d1 where d1: "ps_saveMap enc baseDir (mset_at (stored dec baseDir d) k ?p) d = (None, d1)" "d_next d1 = []"
    "readable dec (ps_path baseDir) d1" "stored dec baseDir d1 = mset_at (stored dec baseDir d) k ?p"
    using saveMap_stored [OF assms(2,3), of dec enc "mset_at (stored dec baseDir d) k ?p"] assms(1) by blast
  have "ps_Save enc dec now baseDir k p d = (None, d1)"
    using d1(1) by (auto simp: ps_Save_def loadMap_stored assms(2-4) Let_def is_zero_time_def)
  moreover obtain d2 where d2: "ps_saveMap enc baseDir (mdelete (stored dec baseDir d) k) d = (None, d2)" "d_next d2 = []"
    "readable dec (ps_path baseDir) d2" "stored dec baseDir d2 = mdelete (stored dec baseDir d) k"
    using saveMap_stored [OF assms(2,3), of dec enc "mdelete (stored dec baseDir d) k"] assms(1) by blast
  moreover have "ps_Delete enc dec baseDir k d = (None, d2)" if "mget (stored dec baseDir d) k \<noteq> None"
    using d2(1) that by (simp add: ps_Delete_def loadMap_stored assms(2-4))
  ultimately show ?thesis using d1 assms(2,4) by (auto simp: load split: option.splits)
qed

definition cart_page :: dom_pattern where
  "cart_page = \<lparr>dp_PageID = [], dp_SelectorHistory = [''#cart''], dp_LastKnownFingerprint = [], dp_LastSeen = 0,
     dp_RepairCount = 0, dp_StableCount = 1, dp_Confidence = Fin 1\<rparr>"

lemma dom_store_is_map_witness:
  "\<exists>d'. ps_Save id (\<lambda>m. (None, m)) 7 ''dir'' ''cart'' cart_page \<lparr>d_files = [], d_dirs = [], d_next = []\<rparr> = (None, d') \<and>
    ps_Load (\<lambda>m. (None, m)) ''dir'' ''cart'' d' = (Inr (cart_page\<lparr>dp_PageID := ''cart'', dp_LastSeen := 7\<rparr>), d')"
  using dom_store_is_map [of "\<lambda>m. (None, m)" id "\<lparr>d_files = [], d_dirs = [], d_next = []\<rparr>" "''dir''" 7 "''cart''" cart_page]
  by (auto simp: readable_def cart_page_def)

end
