(* ===== verification/Dom_Change_Detector.thy ===== *)
theory Dom_Change_Detector
  imports Fingerprint_Matcher Dom_Store Dom_Breaker
begin

text \<open>
  \<open>pkg/domheal/dom_change_detector.go\<close>: the content hash, the fingerprint and the structural
  signature of a page compared with those of its last visit, behind a circuit breaker, with a
  callback that repairs selectors. The callback works on a world of its own (\<open>'w\<close>). \<open>Check\<close> reads the
  clock up to three times, when it asks the breaker, when it dates an event and when it records a
  failure, and two parsers visit a map of class names each.
\<close>

section \<open>State\<close>

record change_event =
  ce_PageID :: string
  ce_DetectedAt :: time
  ce_OldHash :: string
  ce_NewHash :: string
  ce_Similarity :: f64
  ce_Severity :: string
  ce_AutoRepair :: bool

type_synonym 'w repair_callback = "string \<Rightarrow> change_event \<Rightarrow> 'w \<Rightarrow> string option \<times> 'w"

record change_detector =
  cd_drift :: drift_detector
  cd_fingerprint :: "dom_fingerprint matcher"
  cd_structural :: "structural_sig matcher"
  cd_breaker :: dom_breaker
  cd_events :: "change_event list"
  cd_stateDir :: string

record change_detector_config =
  cfg_StateDir :: string
  cfg_FingerprintThreshold :: f64
  cfg_StructuralThreshold :: f64
  cfg_BreakerFailures :: int
  cfg_BreakerCooldownSec :: int

record change_detector_stats =
  st_TotalEvents :: nat
  st_Minor :: nat
  st_Moderate :: nat
  st_Major :: nat
  st_RepairsTriggered :: nat
  st_HashesTracked :: nat
  st_FingerprintsKnown :: nat
  st_BreakerState :: string

definition NewDOMChangeDetector :: "change_detector_config \<Rightarrow> change_detector" where
  "NewDOMChangeDetector cfg =
     \<lparr>cd_drift = NewDriftDetector (cfg_StateDir cfg),
      cd_fingerprint = NewFingerprintMatcher
        (if fle (cfg_FingerprintThreshold cfg) (flit 0) then flit (75 / 100) else cfg_FingerprintThreshold cfg),
      cd_structural = NewStructuralMatcher
        (if fle (cfg_StructuralThreshold cfg) (flit 0) then flit (70 / 100) else cfg_StructuralThreshold cfg),
      cd_breaker = db_new (if cfg_BreakerFailures cfg \<le> 0 then 5 else cfg_BreakerFailures cfg)
        (if cfg_BreakerCooldownSec cfg \<le> 0 then 60 else cfg_BreakerCooldownSec cfg),
      cd_events = [], cd_stateDir = cfg_StateDir cfg\<rparr>"

section \<open>A check\<close>

definition classifySeverity :: "f64 \<Rightarrow> f64 \<Rightarrow> string" where
  "classifySeverity fpSim structSim =
     (let avgSim = fdiv (fadd fpSim structSim) (flit 2) in
      if fle (flit (90 / 100)) avgSim then ''minor''
      else if fle (flit (70 / 100)) avgSim then ''moderate''
      else ''major'')"

record check_env =
  en_allow :: time
  en_event :: time
  en_fail :: time
  en_visit_fp :: "string list \<Rightarrow> string list"
  en_visit_struct :: "string list \<Rightarrow> string list"

text \<open>
  What follows the comparison of a page that was seen before: the event is kept before the
  callback runs, and the flag is set on the copy that is handed out.
\<close>

definition report_change :: "'w repair_callback option \<Rightarrow> check_env \<Rightarrow> string \<Rightarrow> f64 \<Rightarrow> f64 \<Rightarrow> 'w \<Rightarrow> change_detector \<Rightarrow>
    change_event option \<times> 'w \<times> change_detector" where
  "report_change onRepair env pageID fpSim structSim w d =
     (let severity = classifySeverity fpSim structSim;
          event = \<lparr>ce_PageID = pageID, ce_DetectedAt = en_event env, ce_OldHash = [], ce_NewHash = [],
            ce_Similarity = fpSim, ce_Severity = severity, ce_AutoRepair = False\<rparr>;
          ok = (\<lambda>d. d\<lparr>cd_breaker := db_record_success (cd_breaker d)\<rparr>)
      in if severity = ''minor'' \<and> flt (flit (9 / 10)) fpSim then (None, w, ok d)
         else let d = d\<lparr>cd_events := cd_events d @ [event]\<rparr> in
           (case onRepair of
              Some repair \<Rightarrow>
                if severity \<noteq> ''minor'' then
                  let event = event\<lparr>ce_AutoRepair := True\<rparr>; (err, w) = repair pageID event w in
                  (Some event, w,
                   if err \<noteq> None then d\<lparr>cd_breaker := db_record_failure (en_fail env) (cd_breaker d)\<rparr> else ok d)
                else (Some event, w, ok d)
            | None \<Rightarrow> (Some event, w, ok d)))"

definition cd_Check :: "'w repair_callback option \<Rightarrow> check_env \<Rightarrow> string \<Rightarrow> string \<Rightarrow> 'w \<Rightarrow> change_detector \<Rightarrow>
    change_event option \<times> 'w \<times> change_detector" where
  "cd_Check onRepair env pageID html w d =
     (let (allowed, b) = db_allow (en_allow env) (cd_breaker d); d = d\<lparr>cd_breaker := b\<rparr> in
      if \<not> allowed then (None, w, d)
      else let (drifted, dd) = dd_CheckAndUpdate pageID html (cd_drift d);
               (fp, fm) = fm_CheckAndUpdate (en_visit_fp env) pageID html (cd_fingerprint d);
               (st, sm) = sm_CheckAndUpdate (en_visit_struct env) pageID html (cd_structural d);
               d = d\<lparr>cd_drift := dd, cd_fingerprint := fm, cd_structural := sm\<rparr>
           in if \<not> drifted \<or> res_IsNew fp \<or> res_IsNew st
              then (None, w, d\<lparr>cd_breaker := db_record_success (cd_breaker d)\<rparr>)
              else report_change onRepair env pageID (res_Similarity fp) (res_Similarity st) w d)"

definition Events :: "change_detector \<Rightarrow> change_event list" where
  "Events d = cd_events d"

definition cd_Stats :: "change_detector \<Rightarrow> change_detector_stats" where
  "cd_Stats d =
     (let sev = (\<lambda>s. length (filter (\<lambda>e. ce_Severity e = s) (cd_events d))) in
      \<lparr>st_TotalEvents = length (cd_events d),
       st_Minor = sev ''minor'', st_Moderate = sev ''moderate'', st_Major = sev ''major'',
       st_RepairsTriggered = length (filter ce_AutoRepair (cd_events d)),
       st_HashesTracked = HashCount (cd_drift d),
       st_FingerprintsKnown = KnownCount (cd_fingerprint d),
       st_BreakerState = db_state (cd_breaker d)\<rparr>)"

section \<open>Persistence\<close>

text \<open>\<open>enc_h\<close> and \<open>dec_h\<close> are the JSON library on the hashes, \<open>enc_e\<close> and \<open>dec_e\<close> on the events.\<close>

definition events_path :: "change_detector \<Rightarrow> string" where
  "events_path d = join_path (cd_stateDir d) ''change_events.json''"

lemma events_path_drift [simp]: "events_path (d\<lparr>cd_drift := dd\<rparr>) = events_path d"
  by (simp add: events_path_def)

definition cd_Save :: "((string, string) gomap \<Rightarrow> 'd) \<Rightarrow> (change_event list \<Rightarrow> 'd) \<Rightarrow> change_detector \<Rightarrow> 'd disk \<Rightarrow>
    fs_error option \<times> 'd disk" where
  "cd_Save enc_h enc_e d k =
     (if cd_stateDir d = [] then (None, k)
      else case MkdirAll (cd_stateDir d) k of
        (Some e, k) \<Rightarrow> (Some e, k)
      | (None, k) \<Rightarrow>
          (case dd_Save enc_h (cd_drift d) k of
             (Some e, k) \<Rightarrow> (Some e, k)
           | (None, k) \<Rightarrow> WriteFile (events_path d) (enc_e (cd_events d)) k))"

definition cd_Load :: "('d \<Rightarrow> string option \<times> (string, string) gomap) \<Rightarrow> ('d \<Rightarrow> string option \<times> change_event list) \<Rightarrow>
    change_detector \<Rightarrow> 'd disk \<Rightarrow> load_error option \<times> change_detector \<times> 'd disk" where
  "cd_Load dec_h dec_e d k =
     (if cd_stateDir d = [] then (None, d, k)
      else let (err, dd, k) = dd_Load dec_h (cd_drift d) k; d = d\<lparr>cd_drift := dd\<rparr> in
        if err \<noteq> None \<and> err \<noteq> Some (LoadFs NotExist) then (err, d, k)
        else case ReadFile (events_path d) k of
          (Inl NotExist, k) \<Rightarrow> (None, d, k)
        | (Inl e, k) \<Rightarrow> (Some (LoadFs e), d, k)
        | (Inr data, k) \<Rightarrow> (let (err, es) = dec_e data in (map_option LoadJson err, d\<lparr>cd_events := es\<rparr>, k)))"

section \<open>What every run keeps\<close>

text \<open>A run of checks, each with its environment.\<close>

primrec cd_run :: "'w repair_callback option \<Rightarrow> (check_env \<times> string \<times> string) list \<Rightarrow> 'w \<Rightarrow> change_detector \<Rightarrow>
    'w \<times> change_detector" where
  "cd_run onRepair [] w d = (w, d)"
| "cd_run onRepair (c # cs) w d =
     (case c of (env, pageID, html) \<Rightarrow> case cd_Check onRepair env pageID html w d of (_, w, d) \<Rightarrow> cd_run onRepair cs w d)"

definition event_ok :: "change_event \<Rightarrow> bool" where
  "event_ok e \<longleftrightarrow> ce_Severity e \<in> {''minor'', ''moderate'', ''major''} \<and> \<not> ce_AutoRepair e \<and>
     \<not> (ce_Severity e = ''minor'' \<and> flt (flit (9 / 10)) (ce_Similarity e))"

definition cd_inv :: "change_detector \<Rightarrow> bool" where
  "cd_inv d \<longleftrightarrow> db_inv (cd_breaker d) \<and> (\<forall>e \<in> set (cd_events d). event_ok e)"

lemma severity_cases: "classifySeverity a b \<in> {''minor'', ''moderate'', ''major''}"
  by (simp add: classifySeverity_def Let_def)

lemma cd_inv_new: "cd_inv (NewDOMChangeDetector cfg)"
  by (simp add: cd_inv_def NewDOMChangeDetector_def db_inv_new)

lemma report_change_inv:
  assumes "cd_inv d"
  shows "cd_inv (snd (snd (report_change onRepair env pageID fpSim structSim w d)))"
  using assms severity_cases [of fpSim structSim] dom.inv_good dom.inv_bad
  by (auto simp: report_change_def Let_def cd_inv_def event_ok_def split: option.splits prod.splits)

text \<open>The ways a check can go.\<close>

lemma cd_Check_refused:
  "\<not> fst (db_allow (en_allow env) (cd_breaker d)) \<Longrightarrow>
   cd_Check onRepair env pageID html w d = (None, w, d\<lparr>cd_breaker := snd (db_allow (en_allow env) (cd_breaker d))\<rparr>)"
  by (cases "db_allow (en_allow env) (cd_breaker d)") (simp add: cd_Check_def)

definition updated :: "check_env \<Rightarrow> string \<Rightarrow> string \<Rightarrow> change_detector \<Rightarrow> change_detector" where
  "updated env pageID html d = d\<lparr>cd_breaker := snd (db_allow (en_allow env) (cd_breaker d)),
     cd_drift := snd (dd_CheckAndUpdate pageID html (cd_drift d)),
     cd_fingerprint := snd (fm_CheckAndUpdate (en_visit_fp env) pageID html (cd_fingerprint d)),
     cd_structural := snd (sm_CheckAndUpdate (en_visit_struct env) pageID html (cd_structural d))\<rparr>"

lemma cd_Check_admitted:
  assumes "fst (db_allow (en_allow env) (cd_breaker d))"
  shows "cd_Check onRepair env pageID html w d =
    (let fp = fst (fm_CheckAndUpdate (en_visit_fp env) pageID html (cd_fingerprint d));
         st = fst (sm_CheckAndUpdate (en_visit_struct env) pageID html (cd_structural d));
         d' = updated env pageID html d
     in if \<not> fst (dd_CheckAndUpdate pageID html (cd_drift d)) \<or> res_IsNew fp \<or> res_IsNew st
        then (None, w, d'\<lparr>cd_breaker := db_record_success (cd_breaker d')\<rparr>)
        else report_change onRepair env pageID (res_Similarity fp) (res_Similarity st) w d')"
  using assms by (auto simp: cd_Check_def updated_def Let_def split: prod.splits)

lemma cd_inv_updated: "cd_inv d \<Longrightarrow> cd_inv (updated env pageID html d)"
  using dom.inv_allow by (simp add: cd_inv_def updated_def)

lemma cd_Check_inv:
  assumes "cd_inv d"
  shows "cd_inv (snd (snd (cd_Check onRepair env pageID html w d)))"
proof (cases "fst (db_allow (en_allow env) (cd_breaker d))")
  case False
  then show ?thesis using assms dom.inv_allow by (simp add: cd_Check_refused cd_inv_def)
next
  case True
  note inv = cd_inv_updated [OF assms, of env pageID html]
  from inv have "cd_inv (updated env pageID html d\<lparr>cd_breaker := db_record_success (cd_breaker (updated env pageID html d))\<rparr>)"
    using dom.inv_good by (simp add: cd_inv_def)
  with True show ?thesis by (simp add: cd_Check_admitted Let_def report_change_inv [OF inv])
qed

lemma cd_run_inv: "cd_inv d \<Longrightarrow> cd_inv (snd (cd_run onRepair cs w d))"
proof (induction cs arbitrary: w d)
  case (Cons c cs)
  obtain env p h where c: "c = (env, p, h)" by (metis prod.exhaust)
  obtain r w' d' where step: "cd_Check onRepair env p h w d = (r, w', d')" by (metis prod.exhaust)
  with cd_Check_inv [OF Cons.prems, of onRepair env p h w] have "cd_inv d'" by simp
  with Cons.IH c step show ?case by simp
qed simp

lemma severity_count:
  "\<forall>e \<in> set es. event_ok e \<Longrightarrow>
   length es = length (filter (\<lambda>e. ce_Severity e = ''minor'') es) + length (filter (\<lambda>e. ce_Severity e = ''moderate'') es) +
     length (filter (\<lambda>e. ce_Severity e = ''major'') es)"
  by (induction es) (auto simp: event_ok_def)

lemma report_change_keeps [simp]:
  "cd_drift (snd (snd (report_change onRepair env pageID fpSim structSim w d))) = cd_drift d"
  "cd_fingerprint (snd (snd (report_change onRepair env pageID fpSim structSim w d))) = cd_fingerprint d"
  "cd_structural (snd (snd (report_change onRepair env pageID fpSim structSim w d))) = cd_structural d"
  by (simp_all add: report_change_def Let_def split: option.splits prod.splits)

text \<open>What the matchers know of a page after a visit.\<close>

lemma visited:
  assumes "fst (db_allow (en_allow env) (cd_breaker d))" "cd_Check onRepair env pageID html w d = (r, w', d')"
  shows "mget (dd_hashes (cd_drift d')) pageID = Some (simpleHash html)"
    "mget (mt_known (cd_fingerprint d')) pageID = Some (ParseDOMFingerprint (en_visit_fp env) html)"
    "mget (mt_known (cd_structural d')) pageID = Some (ParseStructuralSignature (en_visit_struct env) html)"
proof -
  have d': "d' = snd (snd (cd_Check onRepair env pageID html w d))" using assms(2) by simp
  show "mget (dd_hashes (cd_drift d')) pageID = Some (simpleHash html)"
    "mget (mt_known (cd_fingerprint d')) pageID = Some (ParseDOMFingerprint (en_visit_fp env) html)"
    "mget (mt_known (cd_structural d')) pageID = Some (ParseStructuralSignature (en_visit_struct env) html)"
    using assms(1) unfolding d'
    by (simp_all add: cd_Check_admitted Let_def updated_def)
      (simp_all add: dd_CheckAndUpdate_def Let_def fm_CheckAndUpdate_def sm_CheckAndUpdate_def check_page_def)
qed

lemma check_seen:
  "mget (mt_known m) pageID = Some prev \<Longrightarrow> \<not> res_IsNew (fst (check_page sim pageID c m))"
  "mget (mt_known m) pageID = Some prev \<Longrightarrow> res_Similarity (fst (check_page sim pageID c m)) = sim prev c"
  "mget (mt_known m) pageID = None \<Longrightarrow> res_IsNew (fst (check_page sim pageID c m))"
  by (simp_all add: check_page_def Let_def)

lemma readings_unit:
  assumes "visits v" "visits v'" "length html \<le> 2 ^ 50" "length html' \<le> 2 ^ 50"
  shows "unit_f (DOMFingerprintSimilarity (ParseDOMFingerprint v html) (ParseDOMFingerprint v' html'))"
proof -
  have "reading_of html (ParseDOMFingerprint v html)" "reading_of html' (ParseDOMFingerprint v' html')"
    using assms by (auto simp: reading_of_def)
  then show ?thesis using fingerprint.sim_unit by blast
qed

lemma similarity_tags:
  "StructuralSimilarity (ParseStructuralSignature visit html) (ParseStructuralSignature visit' html') =
   jaccard (mset (page_tags html)) (mset (page_tags html'))"
  by (subst similarity_jaccard) (simp_all add: parse_facts bag_tags)

section \<open>Properties\<close>

text \<open>the statistics of a detector add up after every run of checks, the breaker is in one of its three
  states, and the number of triggered repairs is always 0: the events are stored before the flag
  is set, so repairs that ran are never counted.\<close>

theorem change_stats:
  "let st = cd_Stats (snd (cd_run onRepair cs w (NewDOMChangeDetector cfg)))
   in st_TotalEvents st = st_Minor st + st_Moderate st + st_Major st \<and>
     st_BreakerState st \<in> {''closed'', ''half-open'', ''open''} \<and> st_RepairsTriggered st = 0"
proof -
  define d where "d = snd (cd_run onRepair cs w (NewDOMChangeDetector cfg))"
  have inv: "cd_inv d" unfolding d_def by (rule cd_run_inv [OF cd_inv_new])
  then have "filter ce_AutoRepair (cd_events d) = []" by (simp add: cd_inv_def event_ok_def filter_empty_conv)
  with inv severity_count [of "cd_events d"] show ?thesis
    unfolding d_def [symmetric] by (simp add: cd_Stats_def Let_def cd_inv_def db_inv_def)
qed

text \<open>A repair that ran, and is not counted.\<close>

definition plain_env :: check_env where
  "plain_env = \<lparr>en_allow = 0, en_event = 0, en_fail = 0, en_visit_fp = id, en_visit_struct = id\<rparr>"

definition default_config :: change_detector_config where
  "default_config = \<lparr>cfg_StateDir = [], cfg_FingerprintThreshold = Fin 0, cfg_StructuralThreshold = Fin 0,
     cfg_BreakerFailures = 0, cfg_BreakerCooldownSec = 0\<rparr>"

text \<open>between two visits of a page with a breaker that lets both pass, a change is reported exactly
  when the hashes differ, unless it is minor with a fingerprint similarity above 0.9; the report
  carries the similarity of the two texts, and the repair callback runs, once, exactly when the
  change is moderate or major.\<close>

theorem change_reported:
  assumes "fst (db_allow (en_allow env) (cd_breaker d))" "cd_Check onRepair env pageID html w d = (r, w1, d1)"
    "fst (db_allow (en_allow env') (cd_breaker d1))"
    "cd_Check (Some repair) env' pageID html' w1 d1 = (r', w2, d2)"
  shows "let fp = DOMFingerprintSimilarity (ParseDOMFingerprint (en_visit_fp env) html) (ParseDOMFingerprint (en_visit_fp env') html');
      st = StructuralSimilarity (ParseStructuralSignature (en_visit_struct env) html) (ParseStructuralSignature (en_visit_struct env') html')
    in (r' \<noteq> None \<longleftrightarrow> simpleHash html \<noteq> simpleHash html' \<and>
        \<not> (classifySeverity fp st = ''minor'' \<and> flt (flit (9 / 10)) fp)) \<and>
      (\<forall>e. r' = Some e \<longrightarrow> ce_Similarity e = fp \<and> ce_Severity e = classifySeverity fp st \<and>
        w2 = (if ce_AutoRepair e then snd (repair pageID e w1) else w1) \<and> (ce_AutoRepair e \<longleftrightarrow> ce_Severity e \<noteq> ''minor'')) \<and>
      (r' = None \<longrightarrow> w2 = w1)"
proof -
  define fp where "fp = DOMFingerprintSimilarity (ParseDOMFingerprint (en_visit_fp env) html) (ParseDOMFingerprint (en_visit_fp env') html')"
  define st where "st = StructuralSimilarity (ParseStructuralSignature (en_visit_struct env) html) (ParseStructuralSignature (en_visit_struct env') html')"
  note seen = visited [OF assms(1,2)]
  have step: "cd_Check (Some repair) env' pageID html' w1 d1 =
    (if simpleHash html = simpleHash html'
     then (None, w1, (updated env' pageID html' d1)\<lparr>cd_breaker := db_record_success (cd_breaker (updated env' pageID html' d1))\<rparr>)
     else report_change (Some repair) env' pageID fp st w1 (updated env' pageID html' d1))"
    using seen(1) check_seen(1,2) [OF seen(2)] check_seen(1,2) [OF seen(3)]
    by (auto simp: cd_Check_admitted [OF assms(3)] not_drifted Let_def fm_CheckAndUpdate_def sm_CheckAndUpdate_def fp_def st_def)
  show ?thesis using assms(4) unfolding step fp_def [symmetric] st_def [symmetric] Let_def
    by (auto simp: report_change_def Let_def split: if_splits prod.splits)
qed

text \<open>Two pages without a tag in common: whatever the fingerprints say, the change is major.\<close>

lemma no_common_tag_major:
  assumes "unit_f fp"
  shows "classifySeverity fp (Fin 0) = ''major''"
proof -
  from assms obtain x where x: "fp = Fin x" "0 \<le> x" "x \<le> 1" by (cases fp) (auto elim: in_range_cases)
  then have y: "0 \<le> rnd x" "rnd x \<le> 1" using rnd_unit by blast+
  have "rnd (1 / 2) = 1 / 2" using rnd_exact [of 1 "- 1"] by (simp add: pow2_def)
  then have z: "rnd (rnd x / 2) \<le> 1 / 2" using rnd_mono [of "rnd x / 2" "1 / 2"] y by simp
  have two: "flit 2 = Fin 2" using f_of_int_exact [of 2] by (simp add: f_of_int_def)
  have "rnd x / 2 \<le> 1" "0 \<le> rnd x / 2" using y by linarith+
  then have "fdiv (fadd fp (Fin 0)) (flit 2) = Fin (rnd (rnd x / 2))"
    using x by (simp add: two f64_of_rat_Fin)
  moreover have "flit (90 / 100) = Fin (rnd (90 / 100))" by (rule f64_of_rat_Fin) simp
  moreover have "rnd (7 / 10) \<le> rnd (90 / 100)" by (rule rnd_mono) simp
  moreover have "rnd (7 / 10) = 6305039478318694 / 9007199254740992" using flit_07 by (simp add: f64_of_rat_Fin)
  ultimately show ?thesis using z flit_07 by (simp add: classifySeverity_def Let_def)
qed

definition counting_repair :: "int repair_callback" where
  "counting_repair = (\<lambda>_ _ n. (None, n + 1))"

definition first_visit :: "change_event option \<times> int \<times> change_detector" where
  "first_visit = cd_Check (Some counting_repair) plain_env ''p'' ''<a>'' 0 (NewDOMChangeDetector default_config)"

definition second_visit :: "change_event option \<times> int \<times> change_detector" where
  "second_visit = cd_Check (Some counting_repair) plain_env ''p'' ''<b>'' (fst (snd first_visit)) (snd (snd first_visit))"

lemma first_visit_facts:
  "fst (db_allow 0 (cd_breaker (NewDOMChangeDetector default_config)))"
  "fst (db_allow 0 (cd_breaker (snd (snd first_visit))))" "fst (snd first_visit) = 0"
proof -
  let ?new = "NewDOMChangeDetector default_config"
  have closed: "db_state (cd_breaker ?new) = ''closed''" by (simp add: NewDOMChangeDetector_def db_new_def)
  then show allow: "fst (db_allow 0 (cd_breaker ?new))" by (simp add: db_allow_def)
  have "mget (dd_hashes (cd_drift ?new)) ''p'' = None" by (simp add: NewDOMChangeDetector_def NewDriftDetector_def)
  then have eq: "first_visit = (None, 0, (updated plain_env ''p'' ''<a>'' ?new)
      \<lparr>cd_breaker := db_record_success (cd_breaker (updated plain_env ''p'' ''<a>'' ?new))\<rparr>)"
    using allow unfolding first_visit_def by (subst cd_Check_admitted) (simp_all add: plain_env_def Let_def dd_CheckAndUpdate_def)
  show "fst (db_allow 0 (cd_breaker (snd (snd first_visit))))" "fst (snd first_visit) = 0"
    unfolding eq by (simp_all add: db_record_success_def db_allow_def)
qed

lemma change_reported_witness:
  "map_option ce_Severity (fst second_visit) = Some ''major'' \<and> fst (snd second_visit) = 1"
proof -
  let ?fp = "DOMFingerprintSimilarity (ParseDOMFingerprint id ''<a>'') (ParseDOMFingerprint id ''<b>'')"
  let ?st = "StructuralSimilarity (ParseStructuralSignature id ''<a>'') (ParseStructuralSignature id ''<b>'')"
  have "page_tags ''<a>'' = [''a'']" "page_tags ''<b>'' = [''b'']" by code_simp+
  moreover have "simpleHash ''<a>'' \<noteq> simpleHash ''<b>''" unfolding simpleHash_eq by code_simp
  moreover from calculation have "?st = Fin 0"
    using f_of_int_exact [of 2] unfolding similarity_tags by (simp add: jaccard_def f_of_int_def)
  moreover have "unit_f ?fp"
    by (rule readings_unit [OF visits_id_rev(1,1)]) simp_all
  moreover obtain r1 d1 where v1: "first_visit = (r1, 0, d1)" using first_visit_facts(3) by (metis prod.collapse)
  moreover obtain r2 w2 d2 where v2: "second_visit = (r2, w2, d2)" by (metis prod.exhaust)
  ultimately show ?thesis
    using change_reported [of plain_env "NewDOMChangeDetector default_config" "Some counting_repair" "''p''" "''<a>''" 0 r1 0 d1
        plain_env counting_repair "''<b>''" r2 w2 d2] first_visit_facts(1,2) no_common_tag_major
    by (auto simp: Let_def first_visit_def second_visit_def plain_env_def counting_repair_def split: if_splits)
qed

text \<open>a restart loses changes: a new detector that loads what the old one saved has its events and
  hashes again, but neither fingerprints nor signatures, so the first check of every page is silent
  however the page has changed, and replaces the stored hash.\<close>

theorem change_lost_after_restart:
  assumes "\<And>m. wf_map m \<Longrightarrow> dec_h (enc_h m) = (None, m)" "\<And>es. dec_e (enc_e es) = (None, es)"
    "wf_map (dd_hashes (cd_drift d))" "dd_baseDir (cd_drift d) = cd_stateDir d" "cd_stateDir d \<noteq> []"
    "cd_Save enc_h enc_e d k = (None, k')" "d_next k' = []" "cfg_StateDir cfg = cd_stateDir d"
  shows "\<exists>d'. cd_Load dec_h dec_e (NewDOMChangeDetector cfg) k' = (None, d', k') \<and> Events d' = Events d \<and>
    mget (dd_hashes (cd_drift d')) = mget (dd_hashes (cd_drift d)) \<and>
    (\<forall>onRepair env pageID html w. \<exists>d''. cd_Check onRepair env pageID html w d' = (None, w, d'') \<and> Events d'' = Events d \<and>
      mget (dd_hashes (cd_drift d'')) pageID = Some (simpleHash html))"
proof -
  let ?new = "NewDOMChangeDetector cfg"
  have paths: "drift_path (cd_drift ?new) = drift_path (cd_drift d)" "events_path ?new = events_path d"
    "drift_path (cd_drift d) \<noteq> events_path d" "dd_baseDir (cd_drift ?new) \<noteq> []" "cd_stateDir ?new \<noteq> []"
    "dd_hashes (cd_drift ?new) = []" "db_state (cd_breaker ?new) = ''closed''"
    "mt_known (cd_fingerprint ?new) = []"
    using assms(4,5,8) by (simp_all add: NewDOMChangeDetector_def NewDriftDetector_def drift_path_def events_path_def
        join_path_def db_new_def NewFingerprintMatcher_def new_matcher_def)
  obtain k2 k3 where k3: "WriteFile (drift_path (cd_drift d)) (enc_h (dd_hashes (cd_drift d))) k3 = (None, k2)"
      "WriteFile (events_path d) (enc_e (cd_events d)) k2 = (None, k')"
    using assms(4-6) by (auto simp: cd_Save_def dd_Save_def split: prod.splits option.splits)
  from k3 paths(3) have files: "mget (d_files k') (drift_path (cd_drift d)) = Some (enc_h (dd_hashes (cd_drift d)))"
    "mget (d_files k') (events_path d) = Some (enc_e (cd_events d))"
    using write_stores write_error_files by metis+
  have merged: "mget (mmerge [] (dd_hashes (cd_drift d))) = mget (dd_hashes (cd_drift d))"
    using mget_mmerge [OF assms(3)] by (auto simp: fun_eq_iff split: option.splits)
  define d' where "d' = ?new\<lparr>cd_drift := cd_drift ?new\<lparr>dd_hashes := mmerge [] (dd_hashes (cd_drift d))\<rparr>, cd_events := cd_events d\<rparr>"
  have load: "cd_Load dec_h dec_e ?new k' = (None, d', k')"
    using assms(1-3,7) paths read_stored [OF assms(7)] files by (simp add: cd_Load_def dd_Load_def d'_def Let_def)
  have "\<exists>d''. cd_Check onRepair env pageID html w d' = (None, w, d'') \<and> Events d'' = Events d \<and>
      mget (dd_hashes (cd_drift d'')) pageID = Some (simpleHash html)" for onRepair env pageID html w
  proof -
    have "fst (db_allow (en_allow env) (cd_breaker d'))" using paths(7) by (simp add: d'_def db_allow_def)
    moreover have "res_IsNew (fst (fm_CheckAndUpdate (en_visit_fp env) pageID html (cd_fingerprint d')))"
      unfolding fm_CheckAndUpdate_def using paths(8) by (intro check_seen(3)) (simp add: d'_def)
    ultimately show ?thesis
      by (auto simp: cd_Check_admitted Let_def updated_def Events_def d'_def dd_CheckAndUpdate_def)
  qed
  with load merged show ?thesis by (auto simp: Events_def d'_def)
qed

definition saved_detector :: change_detector where
  "saved_detector = (NewDOMChangeDetector (default_config\<lparr>cfg_StateDir := ''s''\<rparr>))
     \<lparr>cd_drift := \<lparr>dd_baseDir = ''s'', dd_hashes = [(''p'', ''0'')]\<rparr>\<rparr>"

definition empty_disk :: "((string, string) gomap + change_event list) disk" where
  "empty_disk = \<lparr>d_files = [], d_dirs = [], d_next = []\<rparr>"

lemma change_lost_after_restart_witness:
  "\<exists>d'. mget (dd_hashes (cd_drift d')) ''p'' = Some ''0'' \<and>
    (\<forall>html. fst (cd_Check (Some counting_repair) plain_env ''p'' html 0 d') = None)"
proof -
  let ?k = "snd (cd_Save Inl Inr saved_detector empty_disk)"
  have "cd_Save Inl Inr saved_detector empty_disk = (None, ?k)" "d_next ?k = []"
    by (simp_all add: cd_Save_def dd_Save_def saved_detector_def empty_disk_def disk_defs NewDOMChangeDetector_def default_config_def)
  moreover have "wf_map (dd_hashes (cd_drift saved_detector))" "dd_baseDir (cd_drift saved_detector) = cd_stateDir saved_detector"
    "cd_stateDir saved_detector = ''s''"
    by (simp_all add: saved_detector_def wf_map_def NewDOMChangeDetector_def default_config_def)
  ultimately obtain d' where d': "mget (dd_hashes (cd_drift d')) = mget (dd_hashes (cd_drift saved_detector))"
    "\<forall>onRepair env pageID html (w :: int). \<exists>d''. cd_Check onRepair env pageID html w d' = (None, w, d'') \<and>
      Events d'' = Events saved_detector \<and> mget (dd_hashes (cd_drift d'')) pageID = Some (simpleHash html)"
    using change_lost_after_restart [of "\<lambda>x. (None, projl x)" Inl "\<lambda>x. (None, projr x)" Inr saved_detector empty_disk ?k
        "default_config\<lparr>cfg_StateDir := ''s''\<rparr>"]
    by (auto simp: default_config_def)
  have "fst (cd_Check (Some counting_repair) plain_env ''p'' html 0 d') = None" for html
    using d'(2) [rule_format, of "Some counting_repair" plain_env "''p''" html 0] by auto
  moreover have "mget (dd_hashes (cd_drift d')) ''p'' = Some ''0''" by (simp add: d'(1)) (simp add: saved_detector_def mget_def)
  ultimately show ?thesis by blast
qed

end
