(* ===== verification/Pattern_Tracker.thy ===== *)
theory Pattern_Tracker
  imports Pattern_Store_Spec Fingerprint_Matcher Dom_Store
begin

text \<open>
  \<open>pkg/uiauto/pattern_tracker.go\<close>: the patterns the agent has learned, the JSON file they are kept
  in, and the tracker that scores how well a stored pattern fits the page of the moment. The
  tracker works over any store (\<open>ops\<close>, the \<open>PatternStorage\<close> interface). \<open>visit\<close> is the order in
  which a reading of a page visits its class names, \<open>pow\<close> is \<open>math.Pow\<close>, \<open>now\<close> the clock. The pattern
  file, the drift hashes and the repair log are different files; each component holds its part of
  the disk.
\<close>

section \<open>Patterns and their file\<close>

record ui_pattern =
  up_ID :: string
  up_Selector :: string
  up_Description :: string
  up_Fingerprint :: dom_fingerprint
  up_LastSeen :: time
  up_Confidence :: f64
  up_Metadata :: "(string, string) gomap"

definition zero_fingerprint :: dom_fingerprint where
  "zero_fingerprint = \<lparr>TagCounts = [], MaxDepth = 0, TotalNodes = 0, ClassFingerprint = [], TextPatterns = [],
     DataAttrs = [], IDFingerprint = [], RoleMap = [], FormElements = 0, LinkDensity = flit 0\<rparr>"

definition zero_ui_pattern :: ui_pattern where
  "zero_ui_pattern = \<lparr>up_ID = [], up_Selector = [], up_Description = [], up_Fingerprint = zero_fingerprint,
     up_LastSeen = 0, up_Confidence = flit 0, up_Metadata = []\<rparr>"

type_synonym ui_patterns = "(string, ui_pattern) gomap"

record 'd ui_store =
  us_filePath :: string
  us_patterns :: ui_patterns
  us_disk :: "'d disk"

definition us_Load :: "('d \<Rightarrow> string option \<times> ui_patterns) \<Rightarrow> 'd ui_store \<Rightarrow> (load_error + ui_patterns) \<times> 'd ui_store" where
  "us_Load dec s =
     (let (r, d) = ReadFile (us_filePath s) (us_disk s); s = s\<lparr>us_disk := d\<rparr> in
      case r of
        Inl e \<Rightarrow> (Inl (LoadFs e), s)
      | Inr data \<Rightarrow>
          (let (err, m) = dec data; s = s\<lparr>us_patterns := mmerge (us_patterns s) m\<rparr> in
           case err of Some e \<Rightarrow> (Inl (LoadJson e), s) | None \<Rightarrow> (Inr (us_patterns s), s)))"

definition NewPatternStore :: "('d \<Rightarrow> string option \<times> ui_patterns) \<Rightarrow> string \<Rightarrow> 'd disk \<Rightarrow> load_error + 'd ui_store" where
  "NewPatternStore dec filePath d =
     (case us_Load dec \<lparr>us_filePath = filePath, us_patterns = [], us_disk = d\<rparr> of
        (Inl (LoadFs NotExist), s) \<Rightarrow> Inr s
      | (Inl e, s) \<Rightarrow> Inl e
      | (Inr _, s) \<Rightarrow> Inr s)"

text \<open>\<open>filepath.Dir\<close> of a clean path.\<close>

definition dir_of :: "string \<Rightarrow> string" where
  "dir_of path =
     (let dir = rev (dropWhile (\<lambda>c. c \<noteq> CHR ''/'') (rev path)) in
      if dir = [] then ''.'' else if length dir = 1 then dir else butlast dir)"

definition saveLocked :: "(ui_patterns \<Rightarrow> 'd) \<Rightarrow> 'd ui_store \<Rightarrow> fs_error option \<times> 'd ui_store" where
  "saveLocked enc s =
     (case MkdirAll (dir_of (us_filePath s)) (us_disk s) of
        (Some e, d) \<Rightarrow> (Some e, s\<lparr>us_disk := d\<rparr>)
      | (None, d) \<Rightarrow>
          (let (r, d) = WriteFile (us_filePath s) (enc (us_patterns s)) d in (r, s\<lparr>us_disk := d\<rparr>)))"

definition us_Get :: "string \<Rightarrow> 'd ui_store \<Rightarrow> (ui_pattern \<times> bool) \<times> 'd ui_store" where
  "us_Get k s = ((case mget (us_patterns s) k of None \<Rightarrow> (zero_ui_pattern, False) | Some p \<Rightarrow> (p, True)), s)"

definition us_Set :: "(ui_patterns \<Rightarrow> 'd) \<Rightarrow> ui_pattern \<Rightarrow> 'd ui_store \<Rightarrow> fs_error option \<times> 'd ui_store" where
  "us_Set enc p s = saveLocked enc (s\<lparr>us_patterns := mset_at (us_patterns s) (up_ID p) p\<rparr>)"

definition decays :: "time \<Rightarrow> ui_pattern \<Rightarrow> bool" where
  "decays cutoff p \<longleftrightarrow> up_LastSeen p < cutoff \<and> flt (flit (1 / 10)) (up_Confidence p)"

definition us_Decay :: "(ui_patterns \<Rightarrow> 'd) \<Rightarrow> time \<Rightarrow> duration \<Rightarrow> f64 \<Rightarrow> 'd ui_store \<Rightarrow> fs_error option \<times> 'd ui_store" where
  "us_Decay enc now olderThan decayFactor s =
     (let cutoff = now - olderThan;
          changed = (\<exists>kp \<in> set (us_patterns s). decays cutoff (snd kp));
          s' = s\<lparr>us_patterns := map (\<lambda>(k, p).
             if decays cutoff p then (k, p\<lparr>up_Confidence := fmul (up_Confidence p) decayFactor\<rparr>) else (k, p)) (us_patterns s)\<rparr>
      in if changed then saveLocked enc s' else (None, s'))"

definition io_error :: "fs_error \<Rightarrow> store_error" where
  "io_error e = IOError (case e of NotExist \<Rightarrow> ''not exist'' | FsError m \<Rightarrow> m)"

definition us_Boost :: "(ui_patterns \<Rightarrow> 'd) \<Rightarrow> time \<Rightarrow> string \<Rightarrow> f64 \<Rightarrow> 'd ui_store \<Rightarrow> store_error option \<times> 'd ui_store" where
  "us_Boost enc now k boost s =
     (case mget (us_patterns s) k of
        None \<Rightarrow> (Some (NotFound k), s)
      | Some p \<Rightarrow>
          let c = fadd (up_Confidence p) boost;
              c = (if flt (flit 1) c then flit 1 else c);
              (r, s) = saveLocked enc (s\<lparr>us_patterns := mset_at (us_patterns s) k
                (p\<lparr>up_Confidence := c, up_LastSeen := now\<rparr>)\<rparr>)
          in (map_option io_error r, s))"

section \<open>The store as an implementation of the interface\<close>

definition load_io_error :: "load_error \<Rightarrow> store_error" where
  "load_io_error e = (case e of LoadFs f \<Rightarrow> io_error f | LoadJson m \<Rightarrow> IOError m)"

definition ui_ops :: "(ui_patterns \<Rightarrow> 'd) \<Rightarrow> ('d \<Rightarrow> string option \<times> ui_patterns) \<Rightarrow> (ui_pattern, 'd ui_store) store_ops" where
  "ui_ops enc dec =
     \<lparr>op_Get = us_Get,
      op_Set = \<lambda>p s. (let (r, s) = us_Set enc p s in (map_option io_error r, s)),
      op_Load = \<lambda>s. (case us_Load dec s of (Inl e, s) \<Rightarrow> (Inl (load_io_error e), s) | (Inr m, s) \<Rightarrow> (Inr m, s)),
      op_Decay = \<lambda>now olderThan f s. (let (r, s) = us_Decay enc now olderThan f s in (map_option io_error r, s)),
      op_Boost = us_Boost enc\<rparr>"

definition us_view :: "'d ui_store \<Rightarrow> string \<Rightarrow> ui_pattern option" where
  "us_view s = mget (us_patterns s)"

lemma saveLocked_patterns [simp]: "us_patterns (snd (saveLocked enc s)) = us_patterns s"
  by (auto simp: saveLocked_def Let_def split: prod.splits option.splits)

lemma us_Set_patterns [simp]: "us_patterns (snd (us_Set enc p s)) = mset_at (us_patterns s) (up_ID p) p"
  by (simp add: us_Set_def)

lemma ui_set_patterns: "op_Set (ui_ops enc dec) p s = (r, s') \<Longrightarrow> us_patterns s' = mset_at (us_patterns s) (up_ID p) p"
  by (auto simp: ui_ops_def split: prod.splits) (metis us_Set_patterns snd_conv)

text \<open>\<open>Load\<close> merges the file into what the store holds, so only the laws without it are kept.\<close>

interpretation uis: pattern_store up_ID "ui_ops enc dec" us_view "\<lambda>s. wf_map (us_patterns s)"
  for enc :: "ui_patterns \<Rightarrow> 'd" and dec
proof unfold_locales
  fix s s' :: "'d ui_store" and p :: ui_pattern and e
  show "op_Set (ui_ops enc dec) p s = (None, s') \<Longrightarrow> us_view s' = (us_view s)(up_ID p \<mapsto> p)"
    using ui_set_patterns [of enc dec p s None s'] by (auto simp: us_view_def fun_eq_iff)
  show "op_Set (ui_ops enc dec) p s = (Some e, s') \<Longrightarrow> us_view s' = us_view s \<or> us_view s' = (us_view s)(up_ID p \<mapsto> p)"
    using ui_set_patterns [of enc dec p s "Some e" s'] by (auto simp: us_view_def fun_eq_iff)
  show "wf_map (us_patterns s) \<Longrightarrow> wf_map (us_patterns (snd (op_Set (ui_ops enc dec) p s)))"
    by (simp add: ui_set_patterns [of enc dec p s "fst (op_Set (ui_ops enc dec) p s)"])
qed (auto simp: ui_ops_def us_Get_def us_view_def)

section \<open>The tracker\<close>

record scoring_config =
  sc_SimilarityWeight :: f64
  sc_ConfidenceWeight :: f64
  sc_BaseThreshold :: f64
  sc_MinThreshold :: f64
  sc_TimeDecayHalfLife :: duration

definition DefaultScoringConfig :: scoring_config where
  "DefaultScoringConfig = \<lparr>sc_SimilarityWeight = flit (7 / 10), sc_ConfidenceWeight = flit (3 / 10),
     sc_BaseThreshold = flit (6 / 10), sc_MinThreshold = flit (45 / 100), sc_TimeDecayHalfLife = 0\<rparr>"

text \<open>The JSON library on the drift hashes and on the repair log.\<close>

record 'd codecs =
  co_enc_hashes :: "(string, string) gomap \<Rightarrow> 'd"
  co_dec_hashes :: "'d \<Rightarrow> string option \<times> (string, string) gomap"
  co_enc_log :: "repair_suggestion list \<Rightarrow> 'd"
  co_dec_log :: "'d \<Rightarrow> string option \<times> repair_suggestion list"

record ('s, 'd) pattern_tracker =
  pk_store :: 's
  pk_detector :: drift_detector
  pk_matcher :: "dom_fingerprint matcher"
  pk_repairLog :: repair_log
  pk_scoring :: scoring_config
  pk_disk :: "'d disk"

definition NewPatternTrackerWithStore :: "'d codecs \<Rightarrow> 's \<Rightarrow> string \<Rightarrow> 'd disk \<Rightarrow> ('s, 'd) pattern_tracker" where
  "NewPatternTrackerWithStore co store driftDir d =
     (let (_, detector, d) = dd_Load (co_dec_hashes co) (NewDriftDetector driftDir) d in
      \<lparr>pk_store = store, pk_detector = detector, pk_matcher = NewFingerprintMatcher (flit (6 / 10)),
       pk_repairLog = NewRepairLog (join_path driftDir ''repair_log.jsonl''), pk_scoring = DefaultScoringConfig, pk_disk = d\<rparr>)"

definition NewPatternTracker :: "('f \<Rightarrow> string option \<times> ui_patterns) \<Rightarrow> 'd codecs \<Rightarrow> string \<Rightarrow> string \<Rightarrow> 'f disk \<Rightarrow> 'd disk \<Rightarrow>
    load_error + ('f ui_store, 'd) pattern_tracker" where
  "NewPatternTracker dec co storePath driftDir f d =
     (case NewPatternStore dec storePath f of
        Inl e \<Rightarrow> Inl e
      | Inr store \<Rightarrow>
          (case MkdirAll driftDir d of
             (Some e, d) \<Rightarrow> Inl (LoadFs e)
           | (None, d) \<Rightarrow> Inr (NewPatternTrackerWithStore co store driftDir d\<lparr>pk_matcher := NewFingerprintMatcher (flit (7 / 10))\<rparr>)))"

definition WithScoringConfig :: "scoring_config \<Rightarrow> ('s, 'd) pattern_tracker \<Rightarrow> ('s, 'd) pattern_tracker" where
  "WithScoringConfig cfg t = t\<lparr>pk_scoring := cfg\<rparr>"

text \<open>An error of \<open>Save\<close> is logged only.\<close>

definition CheckDrift :: "'d codecs \<Rightarrow> string \<Rightarrow> string \<Rightarrow> ('s, 'd) pattern_tracker \<Rightarrow> bool \<times> ('s, 'd) pattern_tracker" where
  "CheckDrift co pageID html t =
     (let (drifted, detector) = dd_CheckAndUpdate pageID html (pk_detector t);
          (_, d) = dd_Save (co_enc_hashes co) detector (pk_disk t)
      in (drifted, t\<lparr>pk_detector := detector, pk_disk := d\<rparr>))"

definition effective_confidence :: "(f64 \<Rightarrow> f64 \<Rightarrow> f64) \<Rightarrow> time \<Rightarrow> scoring_config \<Rightarrow> ui_pattern \<Rightarrow> f64" where
  "effective_confidence pow now sc p =
     (let c = (if fle (up_Confidence p) (flit 0) then flit (1 / 2) else up_Confidence p);
          elapsed = time_sub now (up_LastSeen p)
      in if 0 < sc_TimeDecayHalfLife sc \<and> \<not> is_zero_time (up_LastSeen p) \<and> 0 < elapsed
         then let halfLives = fdiv (f_of_int elapsed) (f_of_int (sc_TimeDecayHalfLife sc));
                  c = fmul c (pow (flit (1 / 2)) halfLives)
              in if flt c (flit (5 / 100)) then flit (5 / 100) else c
         else c)"

definition match_threshold :: "scoring_config \<Rightarrow> f64 \<Rightarrow> f64" where
  "match_threshold sc confidence =
     (let t = fsub (sc_BaseThreshold sc) (fmul (flit (1 / 10)) (fsub confidence (flit (1 / 2)))) in
      if flt t (sc_MinThreshold sc) then sc_MinThreshold sc else t)"

definition FindBestMatchV2 :: "(ui_pattern, 's) store_ops \<Rightarrow> (string list \<Rightarrow> string list) \<Rightarrow> (f64 \<Rightarrow> f64 \<Rightarrow> f64) \<Rightarrow> time \<Rightarrow>
    string \<Rightarrow> string \<Rightarrow> ('s, 'd) pattern_tracker \<Rightarrow> (ui_pattern \<times> f64 \<times> bool) \<times> ('s, 'd) pattern_tracker" where
  "FindBestMatchV2 ops visit pow now targetID html t =
     (let ((p, ok), s) = op_Get ops targetID (pk_store t); t = t\<lparr>pk_store := s\<rparr> in
      if \<not> ok then ((zero_ui_pattern, flit 0, False), t)
      else let raw = DOMFingerprintSimilarity (up_Fingerprint p) (ParseDOMFingerprint visit html);
               sc = pk_scoring t;
               confidence = effective_confidence pow now sc p;
               score = fadd (fmul (sc_SimilarityWeight sc) raw) (fmul (sc_ConfidenceWeight sc) confidence)
           in if fle (match_threshold sc confidence) score then ((p, score, True), t)
              else ((zero_ui_pattern, score, False), t))"

definition FindBestMatch :: "(ui_pattern, 's) store_ops \<Rightarrow> (string list \<Rightarrow> string list) \<Rightarrow> (f64 \<Rightarrow> f64 \<Rightarrow> f64) \<Rightarrow> time \<Rightarrow>
    string \<Rightarrow> string \<Rightarrow> ('s, 'd) pattern_tracker \<Rightarrow> (ui_pattern \<times> f64 \<times> bool) \<times> ('s, 'd) pattern_tracker" where
  "FindBestMatch ops visit pow now targetID html t = FindBestMatchV2 ops visit pow now targetID html t"

definition PenalizeConfidence :: "(ui_pattern, 's) store_ops \<Rightarrow> string \<Rightarrow> f64 \<Rightarrow> ('s, 'd) pattern_tracker \<Rightarrow>
    store_error option \<times> ('s, 'd) pattern_tracker" where
  "PenalizeConfidence ops k penalty t =
     (let ((p, ok), s) = op_Get ops k (pk_store t); t = t\<lparr>pk_store := s\<rparr> in
      if \<not> ok then (Some (NotFound k), t)
      else let c = fsub (up_Confidence p) penalty;
               c = (if flt c (flit 0) then flit 0 else c);
               (r, s) = op_Set ops (p\<lparr>up_Confidence := c\<rparr>) (pk_store t)
           in (r, t\<lparr>pk_store := s\<rparr>))"

definition new_pattern :: "(string list \<Rightarrow> string list) \<Rightarrow> time \<Rightarrow> string \<Rightarrow> string \<Rightarrow> string \<Rightarrow> string \<Rightarrow> ui_pattern" where
  "new_pattern visit now k selector description html =
     \<lparr>up_ID = k, up_Selector = selector, up_Description = description,
      up_Fingerprint = ParseDOMFingerprint visit html, up_LastSeen = now, up_Confidence = flit 1, up_Metadata = []\<rparr>"

definition RegisterPattern :: "(ui_pattern, 's) store_ops \<Rightarrow> 'd codecs \<Rightarrow> (string list \<Rightarrow> string list) \<Rightarrow> time \<Rightarrow>
    string \<Rightarrow> string \<Rightarrow> string \<Rightarrow> string \<Rightarrow> ('s, 'd) pattern_tracker \<Rightarrow> store_error option \<times> ('s, 'd) pattern_tracker" where
  "RegisterPattern ops co visit now k selector description html t =
     (let suggestion = \<lparr>rs_ElementType = k, rs_OldSelector = [], rs_NewSelector = selector,
            rs_Confidence = flit 1, rs_Method = ''smart_discovery''\<rparr>;
          (_, d) = rl_Append (co_enc_log co) (co_dec_log co) (pk_repairLog t) suggestion (pk_disk t);
          (r, s) = op_Set ops (new_pattern visit now k selector description html) (pk_store t)
      in (r, t\<lparr>pk_store := s, pk_disk := d\<rparr>))"

section \<open>Scores of the default configuration\<close>

lemma dbl_weights: "dbl 0" "dbl (11 / 16)" "dbl (5 / 8)" "dbl (- (1 / 16))" "dbl (1 / 16)" "dbl (1 / 8)" "dbl (1 / 2)"
    "dbl (- (1 / 2))" "dbl 1" "dbl 2" "dbl (3 / 4)" "dbl (1 / 4)"
  using dblI [of 0 0 0] dblI [of "11 / 16" 11 "- 4"] dblI [of "5 / 8" 5 "- 3"] dblI [of "- (1 / 16)" "- 1" "- 4"]
    dblI [of "1 / 16" 1 "- 4"] dblI [of "1 / 8" 1 "- 3"] dblI [of "1 / 2" 1 "- 1"] dblI [of "- (1 / 2)" "- 1" "- 1"]
    dblI [of 1 1 0] dblI [of 2 2 0] dblI [of "3 / 4" 3 "- 2"] dblI [of "1 / 4" 1 "- 2"]
  by (simp_all add: pow2_def)

lemma flit_range: "lo \<le> r \<Longrightarrow> r \<le> hi \<Longrightarrow> dbl lo \<Longrightarrow> dbl hi \<Longrightarrow> in_range lo hi (flit r)"
  by (rule in_range_rat)

lemma default_confidence:
  assumes "unit_f (up_Confidence p)"
  shows "unit_f (effective_confidence pow now DefaultScoringConfig p)"
  using assms flit_range [of 0 "1 / 2" 1] dbl_weights by (simp add: effective_confidence_def DefaultScoringConfig_def)

text \<open>
  A page that reads the same as the one a pattern was learned on is a match, whatever is left of
  the pattern's confidence.
\<close>

lemma same_page_score:
  assumes "unit_f c"
  shows "fle (match_threshold DefaultScoringConfig c)
      (fadd (fmul (sc_SimilarityWeight DefaultScoringConfig) (Fin 1)) (fmul (sc_ConfidenceWeight DefaultScoringConfig) c)) \<and>
    fle (flit (6 / 10)) (fadd (fmul (sc_SimilarityWeight DefaultScoringConfig) (Fin 1)) (fmul (sc_ConfidenceWeight DefaultScoringConfig) c))"
proof -
  let ?sc = DefaultScoringConfig
  have half: "in_range (1 / 2) (1 / 2) (flit (1 / 2))" using dbl_weights by (intro flit_range) simp_all
  have "in_range (- (1 / 2)) (1 / 2) (fsub c (flit (1 / 2)))"
    using dbl_weights by (intro in_range_sub [OF assms half]) simp_all
  moreover have "in_range 0 (1 / 8) (flit (1 / 10))" using dbl_weights by (intro flit_range) simp_all
  ultimately have "in_range (- (1 / 16)) (1 / 16) (fmul (flit (1 / 10)) (fsub c (flit (1 / 2))))"
    using dbl_weights by (intro in_range_mul [of 0 "1 / 8" _ "- (1 / 2)" "1 / 2"]) simp_all
  moreover have six: "in_range (1 / 2) (5 / 8) (flit (6 / 10))" using dbl_weights by (intro flit_range) simp_all
  ultimately have "in_range 0 (11 / 16) (fsub (flit (6 / 10)) (fmul (flit (1 / 10)) (fsub c (flit (1 / 2)))))"
    using dbl_weights by (intro in_range_sub [of "1 / 2" "5 / 8" _ "- (1 / 16)" "1 / 16"]) simp_all
  moreover have "in_range 0 (11 / 16) (flit (45 / 100))" using dbl_weights by (intro flit_range) simp_all
  ultimately have "in_range 0 (11 / 16) (match_threshold ?sc c)"
    by (simp add: match_threshold_def DefaultScoringConfig_def Let_def)
  moreover have high: "in_range (11 / 16) 1 (fmul (sc_SimilarityWeight ?sc) (Fin 1))"
    by (simp add: DefaultScoringConfig_def flit_07) (use flit_range [of "11 / 16" "6305039478318694 / 9007199254740992" 1] dbl_weights in simp)
  moreover have "in_range 0 (1 / 2) (flit (3 / 10))" using dbl_weights by (intro flit_range) simp_all
  then have "in_range 0 (1 / 2) (fmul (sc_ConfidenceWeight ?sc) c)"
    using dbl_weights assms unfolding DefaultScoringConfig_def by (intro in_range_mul [of 0 "1 / 2" _ 0 1]) simp_all
  from in_range_add [OF high this, of "11 / 16" 2] dbl_weights
  have "in_range (11 / 16) 2 (fadd (fmul (sc_SimilarityWeight ?sc) (Fin 1)) (fmul (sc_ConfidenceWeight ?sc) c))" by simp
  ultimately show ?thesis using six in_range_fle by force
qed

section \<open>What the tracker promises over any store\<close>

locale tracked_store = pattern_store up_ID ops view inv
  for ops :: "(ui_pattern, 's) store_ops" and view :: "'s \<Rightarrow> string \<Rightarrow> ui_pattern option" and inv :: "'s \<Rightarrow> bool"
begin

text \<open>A match is the stored pattern of the target itself.\<close>

lemma match_is_target:
  assumes "inv (pk_store t)" "FindBestMatch ops visit pow now k html t = ((p, score, True), t')"
  shows "view (pk_store t) k = Some p \<and> t' = t"
proof (cases "view (pk_store t) k")
  case None
  with assms get_absent [OF assms(1) None] show ?thesis
    by (auto simp: FindBestMatch_def FindBestMatchV2_def Let_def split: prod.splits)
next
  case (Some q)
  with assms get_found [OF assms(1) Some] show ?thesis
    by (auto simp: FindBestMatch_def FindBestMatchV2_def Let_def split: if_splits)
qed

lemma alike_page_matches:
  assumes "inv (pk_store t)" "view (pk_store t) k = Some p" "unit_f (up_Confidence p)" "pk_scoring t = DefaultScoringConfig"
    "DOMFingerprintSimilarity (up_Fingerprint p) (ParseDOMFingerprint visit html) = Fin 1"
  shows "\<exists>score. FindBestMatch ops visit pow now k html t = ((p, score, True), t) \<and> fle (flit (6 / 10)) score"
  using same_page_score [OF default_confidence [OF assms(3)], of pow now] get_found [OF assms(1,2)] assms(4,5)
  by (simp add: FindBestMatch_def FindBestMatchV2_def Let_def)

lemma same_page_matches:
  assumes "inv (pk_store t)" "view (pk_store t) k = Some p" "up_Fingerprint p = ParseDOMFingerprint visit html"
    "unit_f (up_Confidence p)" "pk_scoring t = DefaultScoringConfig" "visits visit" "visits visit'" "length html \<le> 2 ^ 50"
  shows "\<exists>score. FindBestMatch ops visit' pow now k html t = ((p, score, True), t)"
proof -
  have "DOMFingerprintSimilarity (up_Fingerprint p) (ParseDOMFingerprint visit' html) = Fin 1"
    unfolding assms(3) by (rule reading_twice [OF assms(6-8)])
  with alike_page_matches [OF assms(1,2,4,5)] show ?thesis by blast
qed

lemma register_view:
  assumes "inv (pk_store t)" "RegisterPattern ops co visit now k sel desc html t = (None, t')"
  shows "view (pk_store t') = (view (pk_store t))(k \<mapsto> new_pattern visit now k sel desc html)" "inv (pk_store t')"
    "pk_scoring t' = pk_scoring t" "pk_detector t' = pk_detector t"
proof -
  have "op_Set ops (new_pattern visit now k sel desc html) (pk_store t) = (None, pk_store t')"
    "pk_scoring t' = pk_scoring t" "pk_detector t' = pk_detector t"
    using assms(2) by (auto simp: RegisterPattern_def Let_def split: prod.splits)
  with set_ok [OF assms(1)] inv_set [OF assms(1), of "new_pattern visit now k sel desc html"]
  show "view (pk_store t') = (view (pk_store t))(k \<mapsto> new_pattern visit now k sel desc html)" "inv (pk_store t')"
    "pk_scoring t' = pk_scoring t" "pk_detector t' = pk_detector t"
    by (simp_all add: new_pattern_def)
qed

lemma registered_matches:
  assumes "inv (pk_store t)" "RegisterPattern ops co visit now k sel desc html t = (None, t')"
    "pk_scoring t = DefaultScoringConfig" "visits visit" "visits visit'" "length html \<le> 2 ^ 50"
  shows "\<exists>score. FindBestMatch ops visit' pow now' k html t' = ((new_pattern visit now k sel desc html, score, True), t')"
  using register_view [OF assms(1,2)] assms(3-6)
  by (intro same_page_matches) (simp_all add: new_pattern_def)

end

interpretation tracked: tracked_store "ui_ops enc dec" us_view "\<lambda>s. wf_map (us_patterns s)"
  for enc :: "ui_patterns \<Rightarrow> 'd" and dec
  by unfold_locales

section \<open>Runs of a tracker over the file store\<close>

datatype tracker_op =
    Register "string list \<Rightarrow> string list" time string string string string
  | Penalize string f64
  | Boost time string f64
  | Decay time duration f64

definition tracker_do :: "(ui_patterns \<Rightarrow> 'f) \<Rightarrow> ('f \<Rightarrow> string option \<times> ui_patterns) \<Rightarrow> 'd codecs \<Rightarrow>
    ('f ui_store, 'd) pattern_tracker \<Rightarrow> tracker_op \<Rightarrow> ('f ui_store, 'd) pattern_tracker" where
  "tracker_do enc dec co t act =
     (case act of
        Register visit now k sel desc html \<Rightarrow> snd (RegisterPattern (ui_ops enc dec) co visit now k sel desc html t)
      | Penalize k penalty \<Rightarrow> snd (PenalizeConfidence (ui_ops enc dec) k penalty t)
      | Boost now k boost \<Rightarrow> t\<lparr>pk_store := snd (op_Boost (ui_ops enc dec) now k boost (pk_store t))\<rparr>
      | Decay now olderThan f \<Rightarrow> t\<lparr>pk_store := snd (op_Decay (ui_ops enc dec) now olderThan f (pk_store t))\<rparr>)"

definition op_ok :: "tracker_op \<Rightarrow> bool" where
  "op_ok act = (case act of Register _ _ _ _ _ _ \<Rightarrow> True | Penalize _ c \<Rightarrow> fle (Fin 0) c | Boost _ _ c \<Rightarrow> fle (Fin 0) c | Decay _ _ f \<Rightarrow> unit_f f)"

definition patterns_ok :: "ui_patterns \<Rightarrow> bool" where
  "patterns_ok m \<longleftrightarrow> wf_map m \<and> (\<forall>k p. mget m k = Some p \<longrightarrow> up_ID p = k \<and> unit_f (up_Confidence p))"

text \<open>The page and the selector a pattern was learned with stay until it is registered again.\<close>

definition learned :: "ui_patterns \<Rightarrow> string \<Rightarrow> (dom_fingerprint \<times> string) option" where
  "learned m k = map_option (\<lambda>p. (up_Fingerprint p, up_Selector p)) (mget m k)"

definition registers :: "string \<Rightarrow> tracker_op \<Rightarrow> bool" where
  "registers k act = (case act of Register _ _ j _ _ _ \<Rightarrow> j = k | _ \<Rightarrow> False)"

lemma boosted_unit:
  assumes "unit_f a" "fle (Fin 0) c"
  shows "unit_f (if flt (flit 1) (fadd a c) then flit 1 else fadd a c)"
proof -
  have one: "flit 1 = Fin 1" using f_of_int_exact [of 1] by (simp add: f_of_int_def)
  obtain r where r: "a = Fin r" "0 \<le> r" "r \<le> 1" using assms(1) by (rule in_range_cases)
  show ?thesis unfolding one
  proof (cases c)
    case (Fin q)
    with assms(2) r have "0 \<le> r + q" by simp
    then have "fadd a c = PInf \<or> (\<exists>x. fadd a c = Fin x \<and> 0 \<le> x)" using r Fin by (auto simp: f64_of_rat_def)
    then show "unit_f (if flt (Fin 1) (fadd a c) then Fin 1 else fadd a c)" by (auto simp: flt_def)
  qed (use assms(2) r in \<open>auto simp: flt_def\<close>)
qed

lemma not_capped: "unit_f a \<Longrightarrow> fle (Fin 0) c \<Longrightarrow> \<not> flt (Fin 1) (fadd a c) \<Longrightarrow> unit_f (fadd a c)"
  using boosted_unit [of a c] f_of_int_exact [of 1] by (simp add: f_of_int_def)

lemma penalized_unit:
  assumes "unit_f a" "fle (Fin 0) c"
  shows "unit_f (if flt (fsub a c) (flit 0) then flit 0 else fsub a c)"
proof -
  obtain r where r: "a = Fin r" "0 \<le> r" "r \<le> 1" using assms(1) by (rule in_range_cases)
  show ?thesis
  proof (cases c)
    case (Fin q)
    with assms(2) r have "r - q \<le> 1" by simp
    then have "rnd (r - q) \<le> 1" using rnd_mono [of "r - q" 1] by simp
    with \<open>r - q \<le> 1\<close> have "fsub a c = NInf \<or> (\<exists>x. fsub a c = Fin x \<and> x \<le> 1)" using r Fin by (auto simp: fsub_def f64_of_rat_def)
    then show ?thesis by (auto simp: flt_def)
  qed (use assms(2) r in \<open>auto simp: fsub_def flt_def\<close>)
qed

lemma patterns_set:
  "patterns_ok m \<Longrightarrow> unit_f (up_Confidence p) \<Longrightarrow> patterns_ok (mset_at m (up_ID p) p)"
  by (auto simp: patterns_ok_def)

lemma mget_map: "mget (map (\<lambda>(k, p). if c p then (k, f p) else (k, p)) m) k = map_option (\<lambda>p. if c p then f p else p) (mget m k)"
  by (induction m) (auto simp: mget_def)

lemma wf_map_map: "wf_map (map (\<lambda>(k, p). if c p then (k, f p) else (k, p)) m) = wf_map m"
proof -
  have "map fst (map (\<lambda>(k, p). if c p then (k, f p) else (k, p)) m) = map fst m" by (induction m) auto
  then show ?thesis by (simp add: wf_map_def del: map_map)
qed

lemma snd_pair [simp]: "snd (case x of (r, s) \<Rightarrow> (g r, h s)) = h (snd x)"
  by (cases x) simp

lemma us_Decay_patterns:
  "us_patterns (snd (us_Decay enc now olderThan f s)) = map (\<lambda>(k, p).
     if decays (now - olderThan) p then (k, p\<lparr>up_Confidence := fmul (up_Confidence p) f\<rparr>) else (k, p)) (us_patterns s)"
  by (simp add: us_Decay_def Let_def)

lemma ui_ops_patterns:
  "us_patterns (snd (op_Set (ui_ops enc dec) p s)) = mset_at (us_patterns s) (up_ID p) p"
  "us_patterns (snd (op_Decay (ui_ops enc dec) now olderThan f s)) = us_patterns (snd (us_Decay enc now olderThan f s))"
  "us_patterns (snd (op_Boost (ui_ops enc dec) now k b s)) =
     (case mget (us_patterns s) k of None \<Rightarrow> us_patterns s
      | Some p \<Rightarrow> mset_at (us_patterns s) k (p\<lparr>up_Confidence :=
          (if flt (flit 1) (fadd (up_Confidence p) b) then flit 1 else fadd (up_Confidence p) b), up_LastSeen := now\<rparr>))"
  by (simp_all add: ui_ops_def us_Boost_def Let_def split: option.splits)

lemma tracker_do_patterns:
  fixes t :: "('f ui_store, 'd) pattern_tracker" and enc dec co act k
  assumes "patterns_ok (us_patterns (pk_store t))" "op_ok act"
  defines "m \<equiv> us_patterns (pk_store t)" and "m' \<equiv> us_patterns (pk_store (tracker_do enc dec co t act))"
  shows "patterns_ok m' \<and> (\<not> registers k act \<longrightarrow> mget m k \<noteq> None \<longrightarrow> learned m' k = learned m k)"
proof (cases act)
  case (Register visit now j sel desc html)
  let ?p = "new_pattern visit now j sel desc html"
  have "m' = mset_at m (up_ID ?p) ?p"
    by (simp add: m'_def m_def tracker_do_def Register RegisterPattern_def Let_def ui_ops_patterns split: prod.splits)
  with assms(1) Register show ?thesis
    using patterns_set [of m ?p] by (auto simp: m_def learned_def registers_def new_pattern_def)
next
  case (Penalize j c)
  have get: "op_Get (ui_ops enc dec) j (pk_store t) = us_Get j (pk_store t)" by (simp add: ui_ops_def)
  show ?thesis
  proof (cases "mget m j")
    case None
    then have "m' = m" by (simp add: m'_def m_def tracker_do_def Penalize PenalizeConfidence_def get us_Get_def)
    with assms(1) show ?thesis by (simp add: m_def)
  next
    case (Some p)
    let ?q = "p\<lparr>up_Confidence := (if flt (fsub (up_Confidence p) c) (flit 0) then flit 0 else fsub (up_Confidence p) c)\<rparr>"
    have "m' = mset_at m (up_ID ?q) ?q" using Some
      by (simp add: m'_def m_def tracker_do_def Penalize PenalizeConfidence_def get us_Get_def Let_def ui_ops_patterns)
    moreover have "patterns_ok m" "fle (Fin 0) c" using assms(1,2) Penalize by (simp_all add: m_def op_ok_def)
    moreover from this(1) Some have "up_ID p = j" "unit_f (up_Confidence p)" by (simp_all add: patterns_ok_def)
    moreover from this(2) \<open>fle (Fin 0) c\<close> have "unit_f (up_Confidence ?q)" using penalized_unit by simp
    ultimately show ?thesis using patterns_set [of m ?q] Some by (simp add: learned_def)
  qed
next
  case (Boost now j c)
  then show ?thesis using assms(1,2)
    by (auto simp: m_def m'_def tracker_do_def ui_ops_patterns learned_def patterns_ok_def op_ok_def not_capped split: option.splits)
next
  case (Decay now olderThan f)
  then have m': "m' = map (\<lambda>(k, p). if decays (now - olderThan) p
      then (k, p\<lparr>up_Confidence := fmul (up_Confidence p) f\<rparr>) else (k, p)) m"
    by (simp add: m_def m'_def tracker_do_def ui_ops_patterns us_Decay_patterns)
  show ?thesis using assms(1,2) Decay fmul_unit
    by (auto simp: m' m_def [symmetric] patterns_ok_def op_ok_def learned_def mget_map wf_map_map split: option.splits)
qed

lemma tracker_do_scoring [simp]: "pk_scoring (tracker_do enc dec co t act) = pk_scoring t"
  by (auto simp: tracker_do_def RegisterPattern_def PenalizeConfidence_def Let_def split: tracker_op.split prod.splits)

lemma tracker_run:
  assumes "patterns_ok (us_patterns (pk_store t))" "\<forall>act \<in> set acts. op_ok act" "\<forall>act \<in> set acts. \<not> registers k act"
    "mget (us_patterns (pk_store t)) k \<noteq> None"
  shows "patterns_ok (us_patterns (pk_store (foldl (tracker_do enc dec co) t acts))) \<and>
    learned (us_patterns (pk_store (foldl (tracker_do enc dec co) t acts))) k = learned (us_patterns (pk_store t)) k \<and>
    pk_scoring (foldl (tracker_do enc dec co) t acts) = pk_scoring t"
  using assms
proof (induction acts arbitrary: t)
  case (Cons act acts)
  let ?t = "tracker_do enc dec co t act"
  from tracker_do_patterns [OF Cons.prems(1), of act enc dec co k] Cons.prems
  have "patterns_ok (us_patterns (pk_store ?t))"
    "learned (us_patterns (pk_store ?t)) k = learned (us_patterns (pk_store t)) k" by simp_all
  moreover from this(2) Cons.prems(4) have "mget (us_patterns (pk_store ?t)) k \<noteq> None" by (auto simp: learned_def)
  ultimately show ?case using Cons.IH [of ?t] Cons.prems by simp
qed simp

lemma tracker_run_ok:
  assumes "patterns_ok (us_patterns (pk_store t))" "\<forall>act \<in> set acts. op_ok act"
  shows "patterns_ok (us_patterns (pk_store (foldl (tracker_do enc dec co) t acts)))"
  using assms
proof (induction acts arbitrary: t)
  case (Cons act acts)
  then show ?case using tracker_do_patterns [OF Cons.prems(1), of act enc dec co undefined] by simp
qed simp

section \<open>Properties\<close>

text \<open>C3: registrations, penalties and boosts by any amount that is not negative, however large, and decays by
  factors between 0 and 1 keep every pattern under its own identifier with a confidence between 0 and
  1, in any order and whatever the disk answers. (A factor above 1, which the self-evaluator's feedback
  passes to a decay, does not: \<open>feedback_exceeds_certainty\<close> in \<open>Self_Evaluation\<close>.)\<close>

theorem tracker_confidences:
  assumes "\<forall>act \<in> set acts. op_ok act" "patterns_ok (us_patterns (pk_store t))"
    "mget (us_patterns (pk_store (foldl (tracker_do enc dec co) t acts))) k = Some p"
  shows "up_ID p = k \<and> unit_f (up_Confidence p)"
  using tracker_run_ok [OF assms(2,1), of enc dec co] assms(3) by (simp add: patterns_ok_def)

definition blank_tracker :: "(ui_patterns ui_store, nat) pattern_tracker" where
  "blank_tracker = \<lparr>pk_store = \<lparr>us_filePath = ''p.json'', us_patterns = [], us_disk = \<lparr>d_files = [], d_dirs = [],
       d_next = [IoFail ''ENOSPC'' None]\<rparr>\<rparr>,
     pk_detector = NewDriftDetector [], pk_matcher = NewFingerprintMatcher (flit (6 / 10)), pk_repairLog = ''log'',
     pk_scoring = DefaultScoringConfig, pk_disk = \<lparr>d_files = [], d_dirs = [], d_next = []\<rparr>\<rparr>"

definition blank_codecs :: "nat codecs" where
  "blank_codecs = \<lparr>co_enc_hashes = \<lambda>_. 0, co_dec_hashes = \<lambda>_. (None, []), co_enc_log = \<lambda>_. 0, co_dec_log = \<lambda>_. (None, [])\<rparr>"

definition some_ops :: "tracker_op list" where
  "some_ops = [Penalize ''go'' (Fin 1), Boost 5 ''go'' (Fin (1 / 2)), Decay 9 1 (Fin 0), Penalize ''go'' (Fin 7)]"

definition learn_go :: tracker_op where
  "learn_go = Register id 3 ''go'' ''#go'' ''the button'' ''<form><input>''"

lemma some_ops_ok: "\<forall>act \<in> set (learn_go # some_ops). op_ok act" "\<forall>act \<in> set some_ops. \<not> registers ''go'' act"
    "patterns_ok (us_patterns (pk_store blank_tracker))"
  by (simp_all add: some_ops_def learn_go_def op_ok_def registers_def blank_tracker_def patterns_ok_def)

lemma tracker_confidences_witness:
  "\<exists>p. mget (us_patterns (pk_store (foldl (tracker_do id (Pair None) blank_codecs) blank_tracker (learn_go # some_ops)))) ''go'' = Some p \<and>
    up_ID p = ''go'' \<and> unit_f (up_Confidence p)"
proof -
  let ?t = "tracker_do id (Pair None) blank_codecs blank_tracker learn_go"
  have go: "mget (us_patterns (pk_store ?t)) ''go'' \<noteq> None"
    by (simp add: learn_go_def tracker_do_def RegisterPattern_def Let_def ui_ops_patterns new_pattern_def split: prod.splits)
  have "patterns_ok (us_patterns (pk_store ?t))"
    using some_ops_ok tracker_do_patterns [of blank_tracker learn_go id "Pair None" blank_codecs "''go''"] by simp
  from tracker_run [OF this _ some_ops_ok(2) go, of id "Pair None" blank_codecs] some_ops_ok(1) go
  obtain p where p: "mget (us_patterns (pk_store (foldl (tracker_do id (Pair None) blank_codecs) blank_tracker (learn_go # some_ops)))) ''go'' = Some p"
    by (auto simp: learned_def)
  with tracker_confidences [OF some_ops_ok(1,3) p] show ?thesis by blast
qed

text \<open>C23: a page is recognised for good: once a pattern is registered from it, and until it is registered
  again, the same page matches with the registered selector, in any map order, at any time, on any
  disk, and whatever penalties, boosts and decays came between.\<close>

theorem learned_page_recognised:
  assumes "RegisterPattern (ui_ops enc dec) co visit now k sel desc html t = (r, t1)"
    "patterns_ok (us_patterns (pk_store t))" "pk_scoring t = DefaultScoringConfig"
    "\<forall>act \<in> set acts. op_ok act" "\<forall>act \<in> set acts. \<not> registers k act"
    "visits visit" "visits visit'" "length html \<le> 2 ^ 50"
  shows "let t2 = foldl (tracker_do enc dec co) t1 acts in
    \<exists>p score. FindBestMatch (ui_ops enc dec) visit' pow later k html t2 = ((p, score, True), t2) \<and> up_Selector p = sel"
proof -
  let ?act = "Register visit now k sel desc html" and ?t2 = "foldl (tracker_do enc dec co) t1 acts"
  have t1: "t1 = tracker_do enc dec co t ?act" using assms(1) by (simp add: tracker_do_def)
  have scoring: "pk_scoring t1 = DefaultScoringConfig" by (simp add: t1 assms(3))
  have ok: "patterns_ok (us_patterns (pk_store t1))"
    using tracker_do_patterns [OF assms(2), of ?act enc dec co k] by (simp add: t1 op_ok_def)
  have "us_patterns (pk_store t1) = mset_at (us_patterns (pk_store t)) k (new_pattern visit now k sel desc html)"
    by (simp add: t1 tracker_do_def RegisterPattern_def Let_def ui_ops_patterns new_pattern_def split: prod.splits)
  then have k: "mget (us_patterns (pk_store t1)) k = Some (new_pattern visit now k sel desc html)" by simp
  with tracker_run [OF ok assms(4,5), of enc dec co] scoring have run: "patterns_ok (us_patterns (pk_store ?t2))"
    "learned (us_patterns (pk_store ?t2)) k = Some (ParseDOMFingerprint visit html, sel)" "pk_scoring ?t2 = DefaultScoringConfig"
    by (simp_all add: learned_def new_pattern_def)
  then obtain p where p: "us_view (pk_store ?t2) k = Some p" "up_Fingerprint p = ParseDOMFingerprint visit html" "up_Selector p = sel"
    by (auto simp: learned_def us_view_def)
  with run(1) have "wf_map (us_patterns (pk_store ?t2))" "unit_f (up_Confidence p)" by (simp_all add: patterns_ok_def us_view_def)
  from tracked.same_page_matches [OF this(1) p(1,2) this(2) run(3) assms(6-8), of enc dec pow later] p(3) show ?thesis
    unfolding Let_def by blast
qed

lemma learned_page_recognised_witness:
  "\<exists>p score. FindBestMatch (ui_ops id (Pair None)) rev (\<lambda>x _. x) 99 ''go'' ''<form><input>''
      (foldl (tracker_do id (Pair None) blank_codecs) (tracker_do id (Pair None) blank_codecs blank_tracker learn_go) some_ops) =
    ((p, score, True), foldl (tracker_do id (Pair None) blank_codecs) (tracker_do id (Pair None) blank_codecs blank_tracker learn_go) some_ops) \<and>
    up_Selector p = ''#go''"
proof -
  obtain r t1 where t1: "RegisterPattern (ui_ops id (Pair None)) blank_codecs id 3 ''go'' ''#go'' ''the button'' ''<form><input>'' blank_tracker = (r, t1)"
    by (metis prod.exhaust)
  then have eq: "tracker_do id (Pair None) blank_codecs blank_tracker learn_go = t1" by (simp add: tracker_do_def learn_go_def)
  show ?thesis
    using learned_page_recognised [OF t1 some_ops_ok(3) _ _ some_ops_ok(2) visits_id_rev, of "\<lambda>x _. x" 99] some_ops_ok(1)
    unfolding eq by (simp add: Let_def blank_tracker_def)
qed

end
