(* ===== verification/Light_Executor.thy ===== *)
theory Light_Executor
  imports Pattern_Tracker
begin

text \<open>
  \<open>pkg/uiauto/light_executor.go\<close>: actions run with the selectors the tracker knows, with retries, a
  second try over the structure of the page, nested actions inside frames, and counters. The
  browser and the clock are parameters over a world \<open>'w\<close>. A context is its deadline, if it has one,
  and the caller's cancellation (\<open>xe_cancelled\<close>).
\<close>

section \<open>The browser and the clock\<close>

record 'w browser =
  br_Click :: "string \<Rightarrow> 'w \<Rightarrow> string option \<times> 'w"
  br_Type :: "string \<Rightarrow> string \<Rightarrow> 'w \<Rightarrow> string option \<times> 'w"
  br_Evaluate :: "string \<Rightarrow> 'w \<Rightarrow> (string option \<times> string) \<times> 'w"
  br_IsVisible :: "string \<Rightarrow> 'w \<Rightarrow> (string option \<times> bool) \<times> 'w"
  br_CaptureDOM :: "'w \<Rightarrow> (string + string) \<times> 'w"
  br_CaptureScreenshot :: "'w \<Rightarrow> (string + string) \<times> 'w"
  br_SwitchToFrame :: "string \<Rightarrow> 'w \<Rightarrow> string option \<times> 'w"
  br_Release :: "string \<Rightarrow> 'w \<Rightarrow> 'w"

text \<open>
  \<open>xe_wait dl d\<close> is the wait for a timer of \<open>d\<close> or the end of the context, \<open>xe_tick dl t\<close> the wait for the
  tick of a ticker due at \<open>t\<close>; both answer whether the context ended.
\<close>

record 'w exec_env =
  xe_now :: "'w \<Rightarrow> time"
  xe_cancelled :: "'w \<Rightarrow> bool"
  xe_wait :: "time \<Rightarrow> duration \<Rightarrow> 'w \<Rightarrow> bool \<times> 'w"
  xe_tick :: "time \<Rightarrow> time \<Rightarrow> 'w \<Rightarrow> bool \<times> 'w"
  xe_visit :: "'w \<Rightarrow> string list \<Rightarrow> string list"
  xe_pow :: "f64 \<Rightarrow> f64 \<Rightarrow> f64"

definition ctx_err :: "'w exec_env \<Rightarrow> time option \<Rightarrow> 'w \<Rightarrow> bool" where
  "ctx_err env dl w \<longleftrightarrow> xe_cancelled env w \<or> (case dl of None \<Rightarrow> False | Some t \<Rightarrow> t \<le> xe_now env w)"

section \<open>Actions, results and counters\<close>

datatype action = Action (a_Type: string) (a_TargetID: string) (a_Description: string) (a_Value: string)
  (a_Children: "action list") (a_Timeout: duration)

datatype exec_error =
    PatternMissing string | BrowserError string | ElementEmpty string | WaitFailed string | NotVisible string
  | UnknownType string | FrameChild nat string exec_error | ContextEnded | CaptureFailed string
  | NoStructuralMatch f64 | SelectorStillFails f64 | Diverged

record action_result =
  ar_Action :: action
  ar_Error :: "exec_error option"
  ar_Duration :: duration
  ar_Retries :: nat
  ar_Method :: string

record batch_result =
  ba_Results :: "action_result list"
  ba_TotalTime :: duration
  ba_Succeeded :: int
  ba_Failed :: int
  ba_NeedSmart :: int

record executor_metrics =
  xm_TotalActions :: int
  xm_SuccessActions :: int
  xm_FailedActions :: int
  xm_CacheHits :: int
  xm_CacheMisses :: int
  xm_StructuralMatches :: int
  xm_AvgLatencyMs :: int
  xm_latencies :: "duration list"

definition zero_executor_metrics :: executor_metrics where
  "zero_executor_metrics = \<lparr>xm_TotalActions = 0, xm_SuccessActions = 0, xm_FailedActions = 0, xm_CacheHits = 0,
     xm_CacheMisses = 0, xm_StructuralMatches = 0, xm_AvgLatencyMs = 0, xm_latencies = []\<rparr>"

definition xm_record :: "bool \<Rightarrow> bool \<Rightarrow> bool \<Rightarrow> duration \<Rightarrow> executor_metrics \<Rightarrow> executor_metrics" where
  "xm_record success cacheHit structMatch latency m =
     (let m = (if success then m\<lparr>xm_SuccessActions := xm_SuccessActions m + 1\<rparr> else m\<lparr>xm_FailedActions := xm_FailedActions m + 1\<rparr>);
          m = m\<lparr>xm_TotalActions := xm_TotalActions m + 1\<rparr>;
          m = (if cacheHit then m\<lparr>xm_CacheHits := xm_CacheHits m + 1\<rparr> else m\<lparr>xm_CacheMisses := xm_CacheMisses m + 1\<rparr>);
          m = (if structMatch then m\<lparr>xm_StructuralMatches := xm_StructuralMatches m + 1\<rparr> else m);
          ls = xm_latencies m @ [latency]
      in m\<lparr>xm_latencies := ls, xm_AvgLatencyMs := go_div (go_div (sum_list ls) (int (length ls))) millisecond\<rparr>)"

definition xm_Snapshot :: "executor_metrics \<Rightarrow> executor_metrics" where
  "xm_Snapshot m = m\<lparr>xm_latencies := []\<rparr>"

record executor_config =
  xc_defaultTimeout :: duration
  xc_maxRetries :: int

definition default_executor_config :: executor_config where
  "default_executor_config = \<lparr>xc_defaultTimeout = 30 * second, xc_maxRetries = 2\<rparr>"

record ('w, 's, 'd) exec_state =
  ex_world :: 'w
  ex_tracker :: "('s, 'd) pattern_tracker"
  ex_metrics :: executor_metrics

section \<open>A single action\<close>

text \<open>
  The polling loop; \<open>k\<close> counts the ticks of a ticker started at \<open>start\<close>. Nothing bounds the number of polls:
  when the context has ended and a tick is waiting too, \<open>select\<close> may take either, so the loop may in
  principle not return, which is the value \<open>None\<close>.
\<close>

abbreviation poll_interval :: duration where "poll_interval \<equiv> 100 * millisecond"

definition wait_error :: "string option \<Rightarrow> string \<Rightarrow> exec_error" where
  "wait_error err sel = (case err of Some e \<Rightarrow> BrowserError e | None \<Rightarrow> WaitFailed sel)"

partial_function (option) wait_visible :: "'w browser \<Rightarrow> 'w exec_env \<Rightarrow> time \<Rightarrow> string \<Rightarrow> time \<Rightarrow> nat \<Rightarrow> 'w \<Rightarrow> (exec_error option \<times> 'w) option" where
  "wait_visible br env dl sel start k w =
     (let ((err, visible), w) = br_IsVisible br sel w in
      if err = None \<and> visible then Some (None, w)
      else let (ended, w) = xe_tick env dl (start + poll_interval * (int k + 1)) w in
        if ended then Some (Some (wait_error err sel), w)
        else wait_visible br env dl sel start (k + 1) w)"

text \<open>The children of a frame, in order, until one fails or the context ends.\<close>

primrec run_children :: "('w exec_env) \<Rightarrow> time \<Rightarrow> (action \<Rightarrow> ('w, 's, 'd) exec_state \<Rightarrow> action_result \<times> ('w, 's, 'd) exec_state) \<Rightarrow>
    nat \<Rightarrow> action list \<Rightarrow> ('w, 's, 'd) exec_state \<Rightarrow> exec_error option \<times> ('w, 's, 'd) exec_state" where
  "run_children env dl exec i [] st = (None, st)"
| "run_children env dl exec i (c # cs) st =
     (if ctx_err env (Some dl) (ex_world st) then (Some ContextEnded, st)
      else let (r, st) = exec c st in
        case ar_Error r of
          Some e \<Rightarrow> (Some (FrameChild i (a_Description c) e), st)
        | None \<Rightarrow> run_children env dl exec (i + 1) cs st)"

definition query_script :: "string \<Rightarrow> string \<Rightarrow> string" where
  "query_script field selector =
     ''document.querySelector('' @ [CHR 0x22] @ selector @ [CHR 0x22] @ '')?.'' @ field @ '' || '' @ [CHR 0x22, CHR 0x22]"

text \<open>The actions without children only touch the world.\<close>

definition leaf_action :: "'w browser \<Rightarrow> 'w exec_env \<Rightarrow> time \<Rightarrow> action \<Rightarrow> string \<Rightarrow> 'w \<Rightarrow> exec_error option \<times> 'w" where
  "leaf_action br env dl action selector w =
     (if a_Type action = ''click'' then let (e, w) = br_Click br selector w in (map_option BrowserError e, w)
      else if a_Type action = ''type'' then let (e, w) = br_Type br selector (a_Value action) w in (map_option BrowserError e, w)
      else if a_Type action = ''evaluate'' then let ((e, _), w) = br_Evaluate br selector w in (map_option BrowserError e, w)
      else if a_Type action = ''read'' then
        let ((e, text), w) = br_Evaluate br (query_script ''innerText'' selector) w in
        (case e of Some e \<Rightarrow> (Some (BrowserError e), w)
         | None \<Rightarrow> (if text = [] then Some (ElementEmpty selector) else None, w))
      else if a_Type action = ''wait'' then
        let sel = (if a_Value action \<noteq> [] then a_Value action else selector); start = xe_now env w
        in (case wait_visible br env dl sel start 0 w of Some r \<Rightarrow> r | None \<Rightarrow> (Some Diverged, w))
      else if a_Type action = ''verify'' then
        let ((e, visible), w) = br_IsVisible br selector w in
        (case e of Some e \<Rightarrow> (Some (BrowserError e), w)
         | None \<Rightarrow> (if visible then None else Some (NotVisible selector), w))
      else (Some (UnknownType (a_Type action)), w))"

definition performAction :: "'w browser \<Rightarrow> 'w exec_env \<Rightarrow> time \<Rightarrow>
    (action \<Rightarrow> ('w, 's, 'd) exec_state \<Rightarrow> action_result \<times> ('w, 's, 'd) exec_state) \<Rightarrow>
    action \<Rightarrow> string \<Rightarrow> ('w, 's, 'd) exec_state \<Rightarrow> exec_error option \<times> ('w, 's, 'd) exec_state" where
  "performAction br env dl exec action selector st =
     (if a_Type action = ''frame'' then
        (case br_SwitchToFrame br selector (ex_world st) of
           (Some e, w) \<Rightarrow> (Some (BrowserError e), st\<lparr>ex_world := w\<rparr>)
         | (None, w) \<Rightarrow>
             (case run_children env dl exec 0 (a_Children action) (st\<lparr>ex_world := w\<rparr>) of
                (e, st) \<Rightarrow> (e, st\<lparr>ex_world := br_Release br selector (ex_world st)\<rparr>)))
      else case leaf_action br env dl action selector (ex_world st) of (e, w) \<Rightarrow> (e, st\<lparr>ex_world := w\<rparr>))"

lemma run_children_cong [fundef_cong]:
  assumes "cs = cs'" "\<And>c st. c \<in> set cs' \<Longrightarrow> exec c st = exec' c st"
  shows "run_children env dl exec i cs st = run_children env dl exec' i cs' st"
proof -
  have "\<forall>c \<in> set cs. \<forall>st. exec c st = exec' c st \<Longrightarrow> run_children env dl exec i cs st = run_children env dl exec' i cs st"
    by (induction cs arbitrary: i st) (auto split: prod.splits option.splits)
  then show ?thesis using assms by blast
qed

lemma performAction_cong [fundef_cong]:
  assumes "action = action'" "\<And>c st. c \<in> set (a_Children action') \<Longrightarrow> exec c st = exec' c st"
  shows "performAction br env dl exec action selector st = performAction br env dl exec' action' selector st"
proof -
  have "run_children env dl exec i (a_Children action) st = run_children env dl exec' i (a_Children action) st" for i st
    using assms by (intro run_children_cong) simp_all
  then show ?thesis by (auto simp: performAction_def assms(1) split: prod.splits option.splits)
qed

datatype attempts_end = Worked | Exhausted | Interrupted

primrec attempts :: "nat \<Rightarrow> nat \<Rightarrow> 'w exec_env \<Rightarrow> time \<Rightarrow> (('w, 's, 'd) exec_state \<Rightarrow> exec_error option \<times> ('w, 's, 'd) exec_state) \<Rightarrow>
    ('w, 's, 'd) exec_state \<Rightarrow> attempts_end \<times> nat \<times> ('w, 's, 'd) exec_state" where
  "attempts 0 k env dl act st = (Exhausted, k, st)"
| "attempts (Suc n) k env dl act st =
     (let (err, st) = act st in
      if err = None then (Worked, k, st)
      else if n = 0 then (Exhausted, k, st)
      else let (ended, w) = xe_wait env dl (poll_interval * (int k + 1)) (ex_world st); st = st\<lparr>ex_world := w\<rparr> in
        if ended then (Interrupted, k, st) else attempts n (k + 1) env dl act st)"

lemma attempts_cong [fundef_cong]:
  assumes "n = n'" "st = st'" "\<And>s. act s = act' s"
  shows "attempts n k env dl act st = attempts n' k env dl act' st'"
proof -
  have "act = act'" using assms(3) by blast
  then show ?thesis using assms(1,2) by simp
qed

text \<open>\<open>executeWithMetrics\<close>: \<open>dl\<close> is the deadline of the caller's context.\<close>

definition finish :: "'w exec_env \<Rightarrow> time \<Rightarrow> action \<Rightarrow> nat \<Rightarrow> exec_error option \<Rightarrow> string \<Rightarrow> bool \<Rightarrow> bool \<Rightarrow> ('w, 's, 'd) exec_state \<Rightarrow>
    action_result \<times> ('w, 's, 'd) exec_state" where
  "finish env start action retries err method cacheHit structMatch st =
     (let d = time_sub (xe_now env (ex_world st)) start in
      (\<lparr>ar_Action = action, ar_Error = err, ar_Duration = d, ar_Retries = retries, ar_Method = method\<rparr>,
       st\<lparr>ex_metrics := xm_record (err = None) cacheHit structMatch d (ex_metrics st)\<rparr>))"

lemma child_smaller: "c \<in> set (a_Children a) \<Longrightarrow> size c < size a"
  by (cases a) (auto simp: less_Suc_eq_le intro: size_list_estimation')

function execute :: "(ui_pattern, 's) store_ops \<Rightarrow> 'w browser \<Rightarrow> 'w exec_env \<Rightarrow> executor_config \<Rightarrow> time option \<Rightarrow>
    action \<Rightarrow> ('w, 's, 'd) exec_state \<Rightarrow> action_result \<times> ('w, 's, 'd) exec_state" where
  "execute ops br env cfg dl action st =
     (let start = xe_now env (ex_world st);
          timeout = (if 0 < a_Timeout action then a_Timeout action else xc_defaultTimeout cfg);
          dl = (case dl of None \<Rightarrow> start + timeout | Some t \<Rightarrow> min t (start + timeout));
          get = op_Get ops (a_TargetID action) (pk_store (ex_tracker st));
          st = st\<lparr>ex_tracker := (ex_tracker st)\<lparr>pk_store := snd get\<rparr>\<rparr>;
          pattern = fst (fst get)
      in if \<not> snd (fst get) then finish env start action 0 (Some (PatternMissing (a_TargetID action))) [] False False st
         else case attempts (nat (xc_maxRetries cfg + 1)) 0 env dl
                (performAction br env dl (\<lambda>c. execute ops br env cfg (Some dl) c) action (up_Selector pattern)) st of
           (Worked, k, st) \<Rightarrow>
             finish env start action k None ''cached'' True False
               (st\<lparr>ex_tracker := (ex_tracker st)\<lparr>pk_store := snd (op_Set ops (pattern\<lparr>up_LastSeen := xe_now env (ex_world st)\<rparr>)
                 (pk_store (ex_tracker st)))\<rparr>\<rparr>)
         | (Interrupted, k, st) \<Rightarrow> finish env start action k (Some ContextEnded) [] True False st
         | (Exhausted, k, st) \<Rightarrow>
             (case br_CaptureDOM br (ex_world st) of
                (Inl e, w) \<Rightarrow> finish env start action k (Some (CaptureFailed e)) [] False False (st\<lparr>ex_world := w\<rparr>)
              | (Inr html, w) \<Rightarrow>
                  (case FindBestMatch ops (xe_visit env w) (xe_pow env) (xe_now env w) (a_TargetID action) html (ex_tracker st) of
                     ((match, similarity, found), t) \<Rightarrow>
                       if \<not> found then finish env start action k (Some (NoStructuralMatch similarity)) ''cache_miss'' False False
                         (st\<lparr>ex_world := w, ex_tracker := t\<rparr>)
                       else (case performAction br env dl (\<lambda>c. execute ops br env cfg (Some dl) c) action (up_Selector match)
                           (st\<lparr>ex_world := w, ex_tracker := t\<rparr>) of
                         (Some _, st) \<Rightarrow> finish env start action k (Some (SelectorStillFails similarity)) ''structural_match_failed'' False True st
                       | (None, st) \<Rightarrow> finish env start action k None ''structural_match'' False True st))))"
  by pat_completeness auto
termination
proof (relation "measure (\<lambda>(_, _, _, _, _, action, _). size action)")
qed (simp_all add: child_smaller)

declare execute.simps [simp del]

definition Execute :: "(ui_pattern, 's) store_ops \<Rightarrow> 'w browser \<Rightarrow> 'w exec_env \<Rightarrow> executor_config \<Rightarrow> action \<Rightarrow>
    ('w, 's, 'd) exec_state \<Rightarrow> exec_error option \<times> ('w, 's, 'd) exec_state" where
  "Execute ops br env cfg action st = (let (r, st) = execute ops br env cfg None action st in (ar_Error r, st))"

section \<open>Batches\<close>

definition needs_smart :: "action_result \<Rightarrow> bool" where
  "needs_smart r \<longleftrightarrow> ar_Method r = ''structural_match_failed'' \<or> ar_Method r = ''cache_miss''"

definition batch_add :: "action_result \<Rightarrow> batch_result \<Rightarrow> batch_result" where
  "batch_add r b =
     (let b = b\<lparr>ba_Results := ba_Results b @ [r]\<rparr> in
      if ar_Error r = None then b\<lparr>ba_Succeeded := ba_Succeeded b + 1\<rparr>
      else let b = b\<lparr>ba_Failed := ba_Failed b + 1\<rparr> in
        if needs_smart r then b\<lparr>ba_NeedSmart := ba_NeedSmart b + 1\<rparr> else b)"

primrec batch_loop :: "(ui_pattern, 's) store_ops \<Rightarrow> 'w browser \<Rightarrow> 'w exec_env \<Rightarrow> executor_config \<Rightarrow> bool \<Rightarrow> action list \<Rightarrow>
    batch_result \<Rightarrow> ('w, 's, 'd) exec_state \<Rightarrow> batch_result \<times> ('w, 's, 'd) exec_state" where
  "batch_loop ops br env cfg stopOnError [] b st = (b, st)"
| "batch_loop ops br env cfg stopOnError (a # as) b st =
     (if ctx_err env None (ex_world st)
      then (b\<lparr>ba_Results := ba_Results b @ [\<lparr>ar_Action = a, ar_Error = Some ContextEnded, ar_Duration = 0, ar_Retries = 0, ar_Method = []\<rparr>],
              ba_Failed := ba_Failed b + 1\<rparr>, st)
      else let (r, st) = execute ops br env cfg None a st; b = batch_add r b in
        if ar_Error r \<noteq> None \<and> stopOnError then (b, st)
        else batch_loop ops br env cfg stopOnError as b st)"

definition le_ExecuteBatch :: "(ui_pattern, 's) store_ops \<Rightarrow> 'w browser \<Rightarrow> 'w exec_env \<Rightarrow> executor_config \<Rightarrow> bool \<Rightarrow> action list \<Rightarrow>
    ('w, 's, 'd) exec_state \<Rightarrow> batch_result \<times> ('w, 's, 'd) exec_state" where
  "le_ExecuteBatch ops br env cfg stopOnError actions st =
     (let start = xe_now env (ex_world st);
          (b, st) = batch_loop ops br env cfg stopOnError actions
            \<lparr>ba_Results = [], ba_TotalTime = 0, ba_Succeeded = 0, ba_Failed = 0, ba_NeedSmart = 0\<rparr> st
      in (b\<lparr>ba_TotalTime := time_sub (xe_now env (ex_world st)) start\<rparr>, st))"

section \<open>What every action keeps\<close>

text \<open>
  A property of the state that the browser, a lookup, a store and the counting keep is kept by every action,
  however deep its frames.
\<close>

definition kept :: "(ui_pattern, 's) store_ops \<Rightarrow> (('w, 's, 'd) exec_state \<Rightarrow> bool) \<Rightarrow> bool" where
  "kept ops Q \<longleftrightarrow>
     (\<forall>st w. Q st \<longrightarrow> Q (st\<lparr>ex_world := w\<rparr>)) \<and>
     (\<forall>st k. Q st \<longrightarrow> Q (st\<lparr>ex_tracker := (ex_tracker st)\<lparr>pk_store := snd (op_Get ops k (pk_store (ex_tracker st)))\<rparr>\<rparr>)) \<and>
     (\<forall>st p. Q st \<longrightarrow> Q (st\<lparr>ex_tracker := (ex_tracker st)\<lparr>pk_store := snd (op_Set ops p (pk_store (ex_tracker st)))\<rparr>\<rparr>)) \<and>
     (\<forall>st s c h d. Q st \<longrightarrow> Q (st\<lparr>ex_metrics := xm_record s c h d (ex_metrics st)\<rparr>))"

lemma kept_world: "kept ops Q \<Longrightarrow> Q st \<Longrightarrow> Q (st\<lparr>ex_world := w\<rparr>)"
  and kept_get: "kept ops Q \<Longrightarrow> Q st \<Longrightarrow> Q (st\<lparr>ex_tracker := (ex_tracker st)\<lparr>pk_store := snd (op_Get ops k (pk_store (ex_tracker st)))\<rparr>\<rparr>)"
  and kept_set: "kept ops Q \<Longrightarrow> Q st \<Longrightarrow> Q (st\<lparr>ex_tracker := (ex_tracker st)\<lparr>pk_store := snd (op_Set ops p (pk_store (ex_tracker st)))\<rparr>\<rparr>)"
  and kept_finish: "kept ops Q \<Longrightarrow> Q st \<Longrightarrow> Q (snd (finish env start action j err method c h st))"
  by (simp_all add: kept_def finish_def Let_def)

lemma FindBestMatch_state:
  "snd (FindBestMatch ops visit pow now k html t) = t\<lparr>pk_store := snd (op_Get ops k (pk_store t))\<rparr>"
  by (auto simp: FindBestMatch_def FindBestMatchV2_def Let_def split: prod.splits)

lemma kept_find:
  assumes "kept ops Q" "Q st" "FindBestMatch ops visit pow now k html (ex_tracker st) = (r, t)"
  shows "Q (st\<lparr>ex_world := w, ex_tracker := t\<rparr>)"
proof -
  have "t = (ex_tracker st)\<lparr>pk_store := snd (op_Get ops k (pk_store (ex_tracker st)))\<rparr>"
    using FindBestMatch_state [of ops visit pow now k html "ex_tracker st"] assms(3) by simp
  then show ?thesis using kept_get [OF assms(1) kept_world [OF assms(1,2), of w], of k] by simp
qed

lemma attempts_kept:
  assumes "\<And>s. Q s \<Longrightarrow> Q (snd (act s))" "kept ops Q" "Q st"
  shows "Q (snd (snd (attempts n k env dl act st)))"
  using assms(3)
proof (induction n arbitrary: k st)
  case (Suc n)
  obtain err s where act: "act st = (err, s)" by fastforce
  have "Q s" using assms(1) [OF Suc.prems] act by simp
  with Suc.IH kept_world [OF assms(2) this] show ?case by (auto simp: act Let_def split: prod.splits)
qed simp

lemma run_children_kept:
  assumes "\<And>c s. c \<in> set cs \<Longrightarrow> Q s \<Longrightarrow> Q (snd (exec c s))" "Q st"
  shows "Q (snd (run_children env dl exec i cs st))"
  using assms
proof (induction cs arbitrary: i st)
  case (Cons c cs)
  obtain r s where exec: "exec c st = (r, s)" by fastforce
  have "Q s" using Cons.prems(1) [of c st] Cons.prems(2) exec by simp
  with Cons.IH [of s] Cons.prems show ?case by (auto simp: exec split: option.splits)
qed simp

lemma performAction_kept:
  assumes "\<And>c s. c \<in> set (a_Children action) \<Longrightarrow> Q s \<Longrightarrow> Q (snd (exec c s))" "kept ops Q" "Q st"
  shows "Q (snd (performAction br env dl exec action sel st))"
proof -
  have children: "Q s" if "run_children env dl exec 0 (a_Children action) (st\<lparr>ex_world := w\<rparr>) = (e, s)" for w e s
    using run_children_kept [of "a_Children action" Q exec "st\<lparr>ex_world := w\<rparr>" env dl 0] assms(1) kept_world [OF assms(2,3)] that
    by simp
  obtain e w where switch: "br_SwitchToFrame br sel (ex_world st) = (e, w)" by fastforce
  obtain e' s where run: "run_children env dl exec 0 (a_Children action) (st\<lparr>ex_world := w\<rparr>) = (e', s)" by fastforce
  obtain e'' w' where leaf: "leaf_action br env dl action sel (ex_world st) = (e'', w')" by fastforce
  show ?thesis using kept_world [OF assms(2) children [OF run]] kept_world [OF assms(2,3)]
    by (cases e) (simp_all add: performAction_def switch run leaf)
qed

text \<open>An action, step by step: the lookup, the attempts, the page, the structural match.\<close>

definition after_attempts :: "(ui_pattern, 's) store_ops \<Rightarrow> 'w browser \<Rightarrow> 'w exec_env \<Rightarrow> time \<Rightarrow> action \<Rightarrow>
    (string \<Rightarrow> ('w, 's, 'd) exec_state \<Rightarrow> exec_error option \<times> ('w, 's, 'd) exec_state) \<Rightarrow>
    nat \<Rightarrow> ('w, 's, 'd) exec_state \<Rightarrow> action_result \<times> ('w, 's, 'd) exec_state" where
  "after_attempts ops br env start action run k st =
     (case br_CaptureDOM br (ex_world st) of
        (Inl e, w) \<Rightarrow> finish env start action k (Some (CaptureFailed e)) [] False False (st\<lparr>ex_world := w\<rparr>)
      | (Inr html, w) \<Rightarrow>
          (case FindBestMatch ops (xe_visit env w) (xe_pow env) (xe_now env w) (a_TargetID action) html (ex_tracker st) of
             ((match, similarity, found), t) \<Rightarrow>
               if \<not> found then finish env start action k (Some (NoStructuralMatch similarity)) ''cache_miss'' False False
                 (st\<lparr>ex_world := w, ex_tracker := t\<rparr>)
               else (case run (up_Selector match) (st\<lparr>ex_world := w, ex_tracker := t\<rparr>) of
                 (Some _, st) \<Rightarrow> finish env start action k (Some (SelectorStillFails similarity)) ''structural_match_failed'' False True st
               | (None, st) \<Rightarrow> finish env start action k None ''structural_match'' False True st)))"

definition conclude :: "(ui_pattern, 's) store_ops \<Rightarrow> 'w browser \<Rightarrow> 'w exec_env \<Rightarrow> time \<Rightarrow> action \<Rightarrow>
    (string \<Rightarrow> ('w, 's, 'd) exec_state \<Rightarrow> exec_error option \<times> ('w, 's, 'd) exec_state) \<Rightarrow> ui_pattern \<Rightarrow>
    attempts_end \<times> nat \<times> ('w, 's, 'd) exec_state \<Rightarrow> action_result \<times> ('w, 's, 'd) exec_state" where
  "conclude ops br env start action run p r =
     (case r of
        (Worked, k, st) \<Rightarrow> finish env start action k None ''cached'' True False
          (st\<lparr>ex_tracker := (ex_tracker st)\<lparr>pk_store := snd (op_Set ops (p\<lparr>up_LastSeen := xe_now env (ex_world st)\<rparr>)
             (pk_store (ex_tracker st)))\<rparr>\<rparr>)
      | (Interrupted, k, st) \<Rightarrow> finish env start action k (Some ContextEnded) [] True False st
      | (Exhausted, k, st) \<Rightarrow> after_attempts ops br env start action run k st)"

lemma execute_steps:
  fixes st :: "('w, 's, 'd) exec_state"
  assumes "op_Get ops (a_TargetID action) (pk_store (ex_tracker st)) = ((p, ok), s)"
  obtains start d where "execute ops br env cfg dl action st =
      (let st = st\<lparr>ex_tracker := (ex_tracker st)\<lparr>pk_store := s\<rparr>\<rparr>;
           run = performAction br env d (\<lambda>c. execute ops br env cfg (Some d) c) action in
       if \<not> ok then finish env start action 0 (Some (PatternMissing (a_TargetID action))) [] False False st
       else conclude ops br env start action run p (attempts (nat (xc_maxRetries cfg + 1)) 0 env d (run (up_Selector p)) st))"
  by (rule that [of "case dl of None \<Rightarrow> xe_now env (ex_world st) + (if 0 < a_Timeout action then a_Timeout action else xc_defaultTimeout cfg)
      | Some t \<Rightarrow> min t (xe_now env (ex_world st) + (if 0 < a_Timeout action then a_Timeout action else xc_defaultTimeout cfg))"
      "xe_now env (ex_world st)"])
    (simp only: execute.simps [of ops br env cfg dl action st] Let_def assms fst_conv snd_conv conclude_def after_attempts_def)

lemma after_attempts_kept:
  assumes "kept ops Q" "Q st" "\<And>sel s. Q s \<Longrightarrow> Q (snd (run sel s))"
  shows "Q (snd (after_attempts ops br env start action run k st))"
proof -
  obtain c w where cap: "br_CaptureDOM br (ex_world st) = (c, w)" by fastforce
  show ?thesis
  proof (cases c)
    case (Inl e)
    then show ?thesis using assms by (simp add: after_attempts_def cap kept_finish kept_world)
  next
    case (Inr html)
    obtain m sim found t where find: "FindBestMatch ops (xe_visit env w) (xe_pow env) (xe_now env w) (a_TargetID action) html (ex_tracker st) =
      ((m, sim, found), t)" by (metis prod.exhaust)
    let ?st = "st\<lparr>ex_world := w, ex_tracker := t\<rparr>"
    have st: "Q ?st" by (rule kept_find [OF assms(1,2) find])
    obtain e s where run: "run (up_Selector m) ?st = (e, s)" by fastforce
    with assms(3) [OF st, of "up_Selector m"] have "Q s" by simp
    with st show ?thesis
      by (cases e) (simp_all add: after_attempts_def cap Inr find run kept_finish [OF assms(1)])
  qed
qed

lemma execute_kept:
  fixes st :: "('w, 's, 'd) exec_state"
  assumes "kept ops Q"
  shows "Q st \<Longrightarrow> Q (snd (execute ops br env cfg dl action st))"
proof (induction "size action" arbitrary: dl action st rule: less_induct)
  case less
  obtain p ok s where get: "op_Get ops (a_TargetID action) (pk_store (ex_tracker st)) = ((p, ok), s)" by (metis prod.exhaust)
  let ?st1 = "st\<lparr>ex_tracker := (ex_tracker st)\<lparr>pk_store := s\<rparr>\<rparr>"
  have st1: "Q ?st1" using kept_get [OF assms less.prems, of "a_TargetID action"] by (simp add: get)
  have act: "Q s \<Longrightarrow> Q (snd (performAction br env d (\<lambda>c. execute ops br env cfg d' c) action sel s))" for d d' sel s
    using less.hyps child_smaller by (intro performAction_kept [OF _ assms]) auto
  show ?case
  proof (rule execute_steps [OF get, of br env cfg dl])
    fix start d
    define run where "run = performAction br env d (\<lambda>c. execute ops br env cfg (Some d) c :: ('w, 's, 'd) exec_state \<Rightarrow> _) action"
    assume eq: "execute ops br env cfg dl action st =
      (let st = ?st1; run = performAction br env d (\<lambda>c. execute ops br env cfg (Some d) c) action in
       if \<not> ok then finish env start action 0 (Some (PatternMissing (a_TargetID action))) [] False False st
       else conclude ops br env start action run p (attempts (nat (xc_maxRetries cfg + 1)) 0 env d (run (up_Selector p)) st))"
    have run: "Q (snd (run sel s))" if "Q s" for sel s using act [OF that] by (simp add: run_def)
    obtain e k st2 where att: "attempts (nat (xc_maxRetries cfg + 1)) 0 env d (run (up_Selector p)) ?st1 = (e, k, st2)"
      by (metis prod.exhaust)
    have st2: "Q st2" using attempts_kept [of Q "run (up_Selector p)" ops ?st1 "nat (xc_maxRetries cfg + 1)" 0 env d] run assms st1 att
      by simp
    show "Q (snd (execute ops br env cfg dl action st))"
      unfolding eq Let_def run_def [symmetric] att
      by (cases e) (simp_all add: conclude_def kept_finish [OF assms] kept_set [OF assms] st1 st2 after_attempts_kept [OF assms st2 run])
  qed
qed

section \<open>Counters\<close>

definition xm_inv :: "executor_metrics \<Rightarrow> bool" where
  "xm_inv m \<longleftrightarrow> xm_TotalActions m = xm_SuccessActions m + xm_FailedActions m \<and> xm_TotalActions m = xm_CacheHits m + xm_CacheMisses m \<and>
     0 \<le> xm_SuccessActions m \<and> 0 \<le> xm_FailedActions m \<and> 0 \<le> xm_CacheHits m \<and> 0 \<le> xm_CacheMisses m \<and>
     0 \<le> xm_StructuralMatches m \<and> xm_StructuralMatches m \<le> xm_TotalActions m \<and> xm_TotalActions m = int (length (xm_latencies m))"

lemma xm_inv_record: "xm_inv m \<Longrightarrow> xm_inv (xm_record s c h d m)"
  by (auto simp: xm_inv_def xm_record_def Let_def)

lemma xm_inv_kept: "kept ops (\<lambda>st. xm_inv (ex_metrics st))"
  by (simp add: kept_def xm_inv_record)

lemma batch_loop_kept:
  assumes "kept ops Q"
  shows "Q st \<Longrightarrow> Q (snd (batch_loop ops br env cfg stopOnError as b st))"
proof (induction as arbitrary: b st)
  case (Cons a as)
  obtain r s where exec: "execute ops br env cfg None a st = (r, s)" by fastforce
  have "Q s" using execute_kept [OF assms Cons.prems, of br env cfg None a] exec by simp
  with Cons show ?case by (simp add: exec Let_def)
qed simp

lemma batch_kept: "kept ops Q \<Longrightarrow> Q st \<Longrightarrow> Q (snd (le_ExecuteBatch ops br env cfg stopOnError as st))"
  using batch_loop_kept [of ops Q st br env cfg stopOnError as "\<lparr>ba_Results = [], ba_TotalTime = 0, ba_Succeeded = 0, ba_Failed = 0, ba_NeedSmart = 0\<rparr>"]
  by (auto simp: le_ExecuteBatch_def Let_def split: prod.splits)

definition batch_inv :: "batch_result \<Rightarrow> bool" where
  "batch_inv b \<longleftrightarrow> ba_Succeeded b = int (length (filter (\<lambda>r. ar_Error r = None) (ba_Results b))) \<and>
     ba_Failed b = int (length (filter (\<lambda>r. ar_Error r \<noteq> None) (ba_Results b))) \<and> 0 \<le> ba_NeedSmart b \<and> ba_NeedSmart b \<le> ba_Failed b"

lemma batch_add_facts:
  "batch_inv b \<Longrightarrow> batch_inv (batch_add r b)" "ba_Results (batch_add r b) = ba_Results b @ [r]"
  by (auto simp: batch_inv_def batch_add_def Let_def)

lemma finish_action [simp]: "ar_Action (fst (finish env start action k err method c h st)) = action"
  "ar_Error (fst (finish env start action k err method c h st)) = err"
  "ar_Method (fst (finish env start action k err method c h st)) = method"
  by (simp_all add: finish_def Let_def)

lemma after_attempts_action [simp]: "ar_Action (fst (after_attempts ops br env start action run k st)) = action"
  by (auto simp: after_attempts_def split: sum.split prod.split option.split)

lemma execute_action [simp]: "ar_Action (fst (execute ops br env cfg dl action st)) = action"
proof -
  obtain p ok s where get: "op_Get ops (a_TargetID action) (pk_store (ex_tracker st)) = ((p, ok), s)" by (metis prod.exhaust)
  show ?thesis
    by (rule execute_steps [OF get, of br env cfg dl])
      (auto simp: Let_def conclude_def split: prod.split attempts_end.split)
qed

text \<open>The results of a batch are those of a prefix of its actions, which a failure ends only if asked to.\<close>

lemma batch_loop_facts:
  assumes "batch_inv b"
  shows "\<exists>rs. ba_Results (fst (batch_loop ops br env cfg stopOnError as b st)) = ba_Results b @ rs \<and>
    prefix (map ar_Action rs) as \<and> batch_inv (fst (batch_loop ops br env cfg stopOnError as b st)) \<and>
    (stopOnError \<longrightarrow> (\<forall>r \<in> set (butlast rs). ar_Error r = None)) \<and>
    (\<not> prefix as (map ar_Action rs) \<longrightarrow> rs \<noteq> [] \<and> (stopOnError \<or> ar_Error (last rs) = Some ContextEnded) \<and> ar_Error (last rs) \<noteq> None)"
  using assms
proof (induction as arbitrary: b st)
  case (Cons a as)
  show ?case
  proof (cases "ctx_err env None (ex_world st)")
    case True
    let ?r = "\<lparr>ar_Action = a, ar_Error = Some ContextEnded, ar_Duration = 0, ar_Retries = 0, ar_Method = []\<rparr>"
    show ?thesis using True Cons.prems by (intro exI [of _ "[?r]"]) (auto simp: batch_inv_def)
  next
    case False
    obtain r s where exec: "execute ops br env cfg None a st = (r, s)" by fastforce
    have r: "ar_Action r = a" using execute_action [of ops br env cfg None a st] exec by simp
    note add = batch_add_facts(1) [OF Cons.prems, of r] batch_add_facts(2) [of r b]
    show ?thesis
    proof (cases "ar_Error r \<noteq> None \<and> stopOnError")
      case True
      with False add r show ?thesis by (intro exI [of _ "[r]"]) (simp add: exec Let_def)
    next
      case go: False
      from Cons.IH [OF add(1), of s] obtain rs where rs: "ba_Results (fst (batch_loop ops br env cfg stopOnError as (batch_add r b) s)) = ba_Results b @ r # rs"
        "prefix (map ar_Action rs) as" "batch_inv (fst (batch_loop ops br env cfg stopOnError as (batch_add r b) s))"
        "stopOnError \<longrightarrow> (\<forall>r \<in> set (butlast rs). ar_Error r = None)"
        "\<not> prefix as (map ar_Action rs) \<longrightarrow> rs \<noteq> [] \<and> (stopOnError \<or> ar_Error (last rs) = Some ContextEnded) \<and> ar_Error (last rs) \<noteq> None"
        by (auto simp: add(2))
      then show ?thesis using False go r by (intro exI [of _ "r # rs"]) (auto simp: exec Let_def)
    qed
  qed
qed simp

section \<open>How long the polling loop runs\<close>






section \<open>Selectors that no longer work\<close>

lemma attempts_leaf:
  assumes "a_Type action \<noteq> ''frame''"
  shows "attempts n k env dl (performAction br env d exec action sel) st = (e, j, st') \<Longrightarrow>
    ex_tracker st' = ex_tracker st \<and> ((\<forall>w. fst (leaf_action br env d action sel w) \<noteq> None) \<longrightarrow> e \<noteq> Worked) \<and> j \<le> k + (n - 1)"
proof (induction n arbitrary: k st)
  case (Suc n)
  obtain err w where leaf: "leaf_action br env d action sel (ex_world st) = (err, w)" by fastforce
  obtain ended w2 where wait: "xe_wait env dl (100000000 * int k + 100000000) w = (ended, w2)" by fastforce
  have act: "performAction br env d exec action sel st = (err, st\<lparr>ex_world := w\<rparr>)"
    using assms by (simp add: performAction_def leaf)
  have failed: "err = None \<Longrightarrow> \<exists>w. fst (leaf_action br env d action sel w) = None" using leaf by (metis fst_conv)
  have step: "attempts (Suc n) k env dl (performAction br env d exec action sel) st =
    (if err = None then (Worked, k, st\<lparr>ex_world := w\<rparr>) else if n = 0 then (Exhausted, k, st\<lparr>ex_world := w\<rparr>)
     else if ended then (Interrupted, k, st\<lparr>ex_world := w2\<rparr>)
     else attempts n (k + 1) env dl (performAction br env d exec action sel) (st\<lparr>ex_world := w2\<rparr>))"
    by (simp add: act wait Let_def)
  show ?case
  proof (cases "err = None \<or> n = 0 \<or> ended")
    case True
    with Suc.prems failed show ?thesis unfolding step by (cases err) (auto split: if_splits)
  next
    case False
    with Suc.prems have "attempts n (k + 1) env dl (performAction br env d exec action sel) (st\<lparr>ex_world := w2\<rparr>) = (e, j, st')"
      unfolding step by (auto split: if_splits)
    from Suc.IH [OF this] False show ?thesis by auto
  qed
qed simp

context tracked_store
begin

text \<open>
  The structural match is the pattern whose selector just failed, so the last try is one more try of
  the same selector.
\<close>

lemma same_selector_again:
  assumes "inv (pk_store (ex_tracker st))" "view (pk_store (ex_tracker st)) (a_TargetID action) = Some p"
    "a_Type action \<noteq> ''frame''" "\<forall>d w. fst (leaf_action br env d action (up_Selector p) w) \<noteq> None"
  shows "ar_Error (fst (execute ops br env cfg dl action st)) \<noteq> None"
proof -
  have get: "op_Get ops (a_TargetID action) (pk_store (ex_tracker st)) = ((p, True), pk_store (ex_tracker st))"
    by (rule get_found [OF assms(1,2)])
  show ?thesis
  proof (rule execute_steps [OF get, of br env cfg dl])
    fix start d
    let ?run = "performAction br env d (\<lambda>c. execute ops br env cfg (Some d) c) action"
    let ?st = "st\<lparr>ex_tracker := (ex_tracker st)\<lparr>pk_store := pk_store (ex_tracker st)\<rparr>\<rparr>"
    assume eq: "execute ops br env cfg dl action st =
      (let st = ?st; run = ?run in
       if \<not> True then finish env start action 0 (Some (PatternMissing (a_TargetID action))) [] False False st
       else conclude ops br env start action run p (attempts (nat (xc_maxRetries cfg + 1)) 0 env d (run (up_Selector p)) st))"
    obtain e k st2 where att: "attempts (nat (xc_maxRetries cfg + 1)) 0 env d (?run (up_Selector p)) ?st = (e, k, st2)"
      by (metis prod.exhaust)
    from attempts_leaf [OF assms(3) att] assms(4) have st2: "ex_tracker st2 = ex_tracker st" "e \<noteq> Worked" by simp_all
    obtain c w where cap: "br_CaptureDOM br (ex_world st2) = (c, w)" by fastforce
    have "ar_Error (fst (after_attempts ops br env start action ?run k st2)) \<noteq> None"
    proof (cases c)
      case (Inr html)
      obtain m sim found t where find: "FindBestMatch ops (xe_visit env w) (xe_pow env) (xe_now env w) (a_TargetID action) html (ex_tracker st2) =
        ((m, sim, found), t)" by (metis prod.exhaust)
      have "m = p" if found
        using match_is_target [of "ex_tracker st2"] find assms(1,2) that by (simp add: st2)
      moreover obtain err w' where "leaf_action br env d action (up_Selector p) w = (err, w')" "err \<noteq> None"
        using assms(4) by (metis prod.exhaust_sel)
      ultimately show ?thesis using assms(3) by (auto simp: after_attempts_def cap Inr find performAction_def)
    qed (simp add: after_attempts_def cap)
    with st2(2) show ?thesis unfolding eq Let_def att by (cases e) (simp_all add: conclude_def)
  qed
qed

end

section \<open>Properties\<close>

lemma batches_xm_inv:
  "xm_inv (ex_metrics (snd (foldl (\<lambda>(_, st) (stop, as). le_ExecuteBatch ops br env cfg stop as st)
     (b, \<lparr>ex_world = w, ex_tracker = t, ex_metrics = zero_executor_metrics\<rparr>) batches)))"
proof (induction batches rule: rev_induct)
  case Nil
  show ?case by (simp add: xm_inv_def zero_executor_metrics_def)
next
  case (snoc batch batches)
  then show ?case using batch_kept [OF xm_inv_kept] by (cases batch) (simp add: case_prod_beta)
qed

text \<open>the counters balance: whatever actions ran, in batches or inside frames, with whatever browser, store
  and clock, every action was a success or a failure, a hit or a miss, and has one latency.\<close>

theorem executor_counters:
  "xm_inv (ex_metrics (snd (foldl (\<lambda>(_, st) (stop, as). le_ExecuteBatch ops br env cfg stop as st)
     (b, \<lparr>ex_world = w, ex_tracker = t, ex_metrics = zero_executor_metrics\<rparr>) batches)))"
  by (rule batches_xm_inv)

text \<open>a batch reports what ran: its results are those of the first actions in order, its counts are the
  numbers of results without and with an error, the ones that need the smart model are among the
  failures, and it stops early only at a failure, if asked to, or when the context ends.\<close>

theorem batch_results:
  "let b = fst (le_ExecuteBatch ops br env cfg stopOnError as st); rs = ba_Results b in
     prefix (map ar_Action rs) as \<and>
     ba_Succeeded b = int (length (filter (\<lambda>r. ar_Error r = None) rs)) \<and>
     ba_Failed b = int (length (filter (\<lambda>r. ar_Error r \<noteq> None) rs)) \<and> ba_NeedSmart b \<le> ba_Failed b \<and>
     (map ar_Action rs = as \<or> rs \<noteq> [] \<and> ar_Error (last rs) \<noteq> None \<and> (stopOnError \<or> ar_Error (last rs) = Some ContextEnded))"
proof -
  let ?b0 = "\<lparr>ba_Results = [], ba_TotalTime = 0, ba_Succeeded = 0, ba_Failed = 0, ba_NeedSmart = 0\<rparr>"
  define b where "b = fst (batch_loop ops br env cfg stopOnError as ?b0 st)"
  have "batch_inv ?b0" by (simp add: batch_inv_def)
  from batch_loop_facts [OF this, of ops br env cfg stopOnError as st, folded b_def] have facts:
    "prefix (map ar_Action (ba_Results b)) as" "batch_inv b"
    "\<not> prefix as (map ar_Action (ba_Results b)) \<longrightarrow> ba_Results b \<noteq> [] \<and>
      (stopOnError \<or> ar_Error (last (ba_Results b)) = Some ContextEnded) \<and> ar_Error (last (ba_Results b)) \<noteq> None"
    by simp_all
  obtain st' where loop: "batch_loop ops br env cfg stopOnError as ?b0 st = (b, st')" by (metis b_def prod.collapse)
  define d where "d = time_sub (xe_now env (ex_world st')) (xe_now env (ex_world st))"
  have eq: "fst (le_ExecuteBatch ops br env cfg stopOnError as st) = b\<lparr>ba_TotalTime := d\<rparr>"
    by (simp add: le_ExecuteBatch_def loop d_def)
  have "map ar_Action (ba_Results b) = as \<or> ba_Results b \<noteq> [] \<and> ar_Error (last (ba_Results b)) \<noteq> None \<and>
      (stopOnError \<or> ar_Error (last (ba_Results b)) = Some ContextEnded)"
    using facts(1,3) prefix_order.antisym by blast
  with facts(1,2) show ?thesis unfolding eq Let_def batch_inv_def by simp
qed


text \<open>A browser on a page where nothing shows, whose world is the time.\<close>

definition blind_browser :: "time browser" where
  "blind_browser = \<lparr>br_Click = \<lambda>sel w. (if sel = ''#new'' then None else Some ''no node'', w), br_Type = \<lambda>_ _ w. (None, w),
     br_Evaluate = \<lambda>_ w. ((None, []), w), br_IsVisible = \<lambda>_ w. ((None, False), w + 1), br_CaptureDOM = \<lambda>w. (Inr ''<form><input>'', w),
     br_CaptureScreenshot = \<lambda>w. (Inr [], w), br_SwitchToFrame = \<lambda>_ w. (None, w), br_Release = \<lambda>_ w. w\<rparr>"

definition plain_clock :: "time exec_env" where
  "plain_clock = \<lparr>xe_now = id, xe_cancelled = \<lambda>_. False, xe_wait = \<lambda>dl d w. (dl \<le> w, w + d), xe_tick = \<lambda>dl t w. (dl \<le> w, max t w),
     xe_visit = \<lambda>_. id, xe_pow = \<lambda>x _. x\<rparr>"



text \<open>the structural fallback cannot repair a selector: when a target's stored selector works under no
  circumstances, the action fails, even if the page matches the pattern, since the match it finds is the
  pattern it started from and it tries the same selector again.\<close>

theorem fallback_tries_same_selector:
  assumes "wf_map (us_patterns (pk_store (ex_tracker st)))" "mget (us_patterns (pk_store (ex_tracker st))) (a_TargetID action) = Some p"
    "a_Type action \<noteq> ''frame''" "\<And>d w. fst (leaf_action br env d action (up_Selector p) w) \<noteq> None"
  shows "ar_Error (fst (execute (ui_ops enc dec) br env cfg dl action st)) \<noteq> None"
  using tracked.same_selector_again [of st action p br env enc dec cfg dl] assms by (simp add: us_view_def)

definition click_go :: action where
  "click_go = Action ''click'' ''go'' [] [] [] 0"

definition go_state :: "(time, ui_patterns ui_store, nat) exec_state" where
  "go_state = \<lparr>ex_world = 0, ex_tracker = tracker_do id (Pair None) blank_codecs blank_tracker learn_go, ex_metrics = zero_executor_metrics\<rparr>"

lemma fallback_tries_same_selector_witness:
  "ar_Error (fst (execute (ui_ops id (Pair None)) blind_browser plain_clock default_executor_config None click_go go_state)) \<noteq> None"
proof -
  have store: "us_patterns (pk_store (ex_tracker go_state)) = mset_at [] ''go'' (new_pattern id 3 ''go'' ''#go'' ''the button'' ''<form><input>'')"
    by (simp add: go_state_def learn_go_def tracker_do_def RegisterPattern_def Let_def ui_ops_patterns new_pattern_def blank_tracker_def
        split: prod.splits)
  show ?thesis
    by (rule fallback_tries_same_selector [of _ _ "new_pattern id 3 ''go'' ''#go'' ''the button'' ''<form><input>''"])
      (simp_all add: store click_go_def leaf_action_def blind_browser_def new_pattern_def)
qed

end
