(* ===== verification/Smart_Discovery.thy ===== *)
theory Smart_Discovery
  imports Llm_Types
begin

text \<open>
  \<open>pkg/uiauto/smart_discovery.go\<close>: asking a language model for a selector or a script, model by
  model, and cleaning its answer. The provider is a parameter over a world. Page text is ASCII, so
  that cutting it at 50000 bytes cuts no rune.
\<close>

record 'w smart_discoverer =
  sd_provider :: "'w provider"
  sd_models :: "string list"

definition NewSmartDiscoverer :: "'w provider \<Rightarrow> string list \<Rightarrow> 'w smart_discoverer" where
  "NewSmartDiscoverer provider models =
     \<lparr>sd_provider = provider, sd_models = (if models = [] then [''gpt-5.4-mini'', ''gpt-4o''] else models)\<rparr>"

datatype discover_error = ModelFailed string llm_error | NoChoices string | AllModelsFailed "discover_error option"

definition TrimPrefix :: "string \<Rightarrow> string \<Rightarrow> string" where
  "TrimPrefix s p = (if prefix p s then drop (length p) s else s)"

definition TrimSuffix :: "string \<Rightarrow> string \<Rightarrow> string" where
  "TrimSuffix s p = (if suffix p s then take (length s - length p) s else s)"

definition truncate_html :: "string \<Rightarrow> string" where
  "truncate_html html = (if 50000 < length html then take 50000 html @ ''...'' else html)"

abbreviation nl :: string where "nl \<equiv> [CHR 0x0A]"
abbreviation fence :: string where "fence \<equiv> [CHR 0x60, CHR 0x60, CHR 0x60]"

definition selector_prompt :: "string \<Rightarrow> string \<Rightarrow> string" where
  "selector_prompt description html =
     ''You are an expert UI automation engineer. '' @ nl @
     ''I need to find a robust CSS selector for an element on a web page.'' @ nl @ nl @
     ''Element Description: '' @ description @ nl @ nl @
     ''Here is the HTML of the page (or a truncated version of it):'' @ nl @ html @ nl @ nl @
     ''Analyze the HTML and return ONLY the best, most robust CSS selector to find this element.'' @ nl @
     ''Do not include any explanation, markdown formatting, or backticks. Just the raw CSS selector string.'' @ nl @
     ''Prefer data-testid, id, or unique semantic attributes over brittle class chains.''"

definition script_prompt :: "string \<Rightarrow> string \<Rightarrow> string" where
  "script_prompt description html =
     ''You are an expert UI automation engineer. '' @ nl @
     ''I need a JavaScript snippet to execute in the browser to perform the following action:'' @ nl @ nl @
     ''Action Description: '' @ description @ nl @ nl @
     ''Here is the HTML of the page (or a truncated version of it):'' @ nl @ html @ nl @ nl @
     ''Analyze the HTML and return ONLY a valid JavaScript IIFE (Immediately Invoked Function Expression) that performs the action.'' @ nl @
     ''If the action is to extract data, the script should return the data.'' @ nl @
     ''Do not include any explanation, markdown formatting, or backticks. Just the raw JavaScript code.''"

definition clean_selector :: "string \<Rightarrow> string" where
  "clean_selector content =
     trim_space (TrimSuffix (TrimPrefix (TrimPrefix (trim_space content) (fence @ ''css'')) fence) fence)"

definition clean_script :: "string \<Rightarrow> string" where
  "clean_script content =
     trim_space (TrimSuffix (TrimPrefix (TrimPrefix (TrimPrefix (trim_space content) (fence @ ''javascript'')) (fence @ ''js'')) fence) fence)"

definition discovery_request :: "string \<Rightarrow> string \<Rightarrow> completion_request" where
  "discovery_request model prompt =
     \<lparr>Model = model, Messages = [\<lparr>Role = ''user'', Content = prompt, Reasoning = []\<rparr>], Temperature = Some (flit (1 / 10)),
      MaxTokens = None, DisableThinking = False\<rparr>"

text \<open>The loop over the models; \<open>lastErr\<close> is the error of the model asked before.\<close>

primrec ask_models :: "'w provider \<Rightarrow> string \<Rightarrow> (string \<Rightarrow> string) \<Rightarrow> string list \<Rightarrow> discover_error option \<Rightarrow> 'w \<Rightarrow>
    (discover_error + string) \<times> 'w" where
  "ask_models provider prompt clean [] lastErr w = (Inl (AllModelsFailed lastErr), w)"
| "ask_models provider prompt clean (m # ms) lastErr w =
     (case provider (discovery_request m prompt) w of
        (Inl e, w) \<Rightarrow> ask_models provider prompt clean ms (Some (ModelFailed m e)) w
      | (Inr resp, w) \<Rightarrow>
          (case Choices resp of
             [] \<Rightarrow> ask_models provider prompt clean ms (Some (NoChoices m)) w
           | c # _ \<Rightarrow> (Inr (clean (Content (choice_Message c))), w)))"

definition DiscoverSelector :: "'w smart_discoverer \<Rightarrow> string \<Rightarrow> string \<Rightarrow> 'w \<Rightarrow> (discover_error + string) \<times> 'w" where
  "DiscoverSelector d description html w =
     ask_models (sd_provider d) (selector_prompt description (truncate_html html)) clean_selector (sd_models d) None w"

definition DiscoverScript :: "'w smart_discoverer \<Rightarrow> string \<Rightarrow> string \<Rightarrow> 'w \<Rightarrow> (discover_error + string) \<times> 'w" where
  "DiscoverScript d description html w =
     ask_models (sd_provider d) (script_prompt description (truncate_html html)) clean_script (sd_models d) None w"

section \<open>Trimming\<close>

lemma dropWhile_snoc: "\<not> P x \<Longrightarrow> dropWhile P (xs @ [x]) = dropWhile P xs @ [x]"
  by (induction xs) simp_all

lemma trim_spaces: "\<forall>c \<in> set p. is_space c \<Longrightarrow> \<forall>c \<in> set q. is_space c \<Longrightarrow> trim_space (p @ s @ q) = trim_space s"
proof -
  assume p: "\<forall>c \<in> set p. is_space c" and q: "\<forall>c \<in> set q. is_space c"
  have "dropWhile is_space (p @ t) = dropWhile is_space t" for t using p by (induction p) simp_all
  moreover have "dropWhile is_space (rev q @ t) = dropWhile is_space t" for t
    by (rule dropWhile_append2) (use q in simp)
  moreover have "dropWhile is_space (rev (dropWhile is_space (s @ q))) = dropWhile is_space (rev (dropWhile is_space s))"
  proof (cases "\<forall>c \<in> set s. is_space c")
    case True
    then have "dropWhile is_space (s @ q) = []" "dropWhile is_space s = []" using q by auto
    then show ?thesis by (simp only:)
  next
    case False
    then have "dropWhile is_space (s @ q) = dropWhile is_space s @ q" by (auto simp: dropWhile_append)
    then show ?thesis using \<open>\<And>t. dropWhile is_space (rev q @ t) = dropWhile is_space t\<close> by simp
  qed
  ultimately show ?thesis by (simp add: trim_space_def)
qed

lemma trim_fixed: "s = [] \<or> \<not> is_space (hd s) \<and> \<not> is_space (last s) \<Longrightarrow> trim_space s = s"
  by (cases s rule: rev_cases) (auto simp: trim_space_def hd_append dropWhile_append dropWhile_eq_self_iff split: if_splits)

lemma trim_trim [simp]: "trim_space (trim_space s) = trim_space s"
proof (rule trim_fixed)
  let ?t = "dropWhile is_space s"
  have "hd ?t = hd (trim_space s) \<and> \<not> is_space (hd ?t)" if "trim_space s \<noteq> []"
  proof -
    have "?t \<noteq> []" using that by (auto simp: trim_space_def simp del: dropWhile_eq_Nil_conv)
    moreover obtain u where "?t = trim_space s @ u"
      by (metis append_take_drop_id dropWhile_eq_drop rev_append rev_rev_ident trim_space_def takeWhile_dropWhile_id)
    ultimately show ?thesis using that hd_dropWhile [of is_space s] by (metis hd_append2)
  qed
  moreover have "\<not> is_space (last (trim_space s))" if "trim_space s \<noteq> []"
    using that hd_dropWhile [of is_space "rev ?t"] by (simp add: trim_space_def last_rev)
  ultimately show "trim_space s = [] \<or> \<not> is_space (hd (trim_space s)) \<and> \<not> is_space (last (trim_space s))" by metis
qed

section \<open>Properties\<close>

text \<open>an answer wrapped in a code fence is unwrapped: whatever trimmed text the model put between the
  fences, with or without the language name, with white space after the opening fence and any around
  the rest, is what comes out.\<close>

theorem fenced_selector:
  assumes "trim_space s = s" "\<forall>c \<in> set (p @ q). is_space c" "p \<noteq> []" "lang \<in> {[], ''css''}"
    "\<forall>c \<in> set (before @ after). is_space c"
  shows "clean_selector (before @ fence @ lang @ p @ s @ q @ fence @ after) = s"
proof -
  let ?body = "fence @ lang @ p @ s @ q @ fence"
  have "trim_space ?body = ?body" by (rule trim_fixed) (simp add: is_space_def)
  moreover have "trim_space (before @ ?body @ after) = trim_space ?body" using assms(5) by (intro trim_spaces) auto
  ultimately have trim: "trim_space (before @ fence @ lang @ p @ s @ q @ fence @ after) = ?body" by simp
  have inner: "trim_space (p @ s @ q) = s" using trim_spaces [of p q s] assms(1,2) by simp
  have suffix: "TrimSuffix (t @ fence) fence = t" for t by (simp add: TrimSuffix_def suffix_def)
  obtain c p' where p: "p = c # p'" "is_space c" using assms(2,3) by (cases p) auto
  then have "c \<noteq> CHR ''c''" "c \<noteq> CHR 0x60" by (auto simp: is_space_def)
  then have "TrimPrefix (TrimPrefix ?body (fence @ ''css'')) fence = (p @ s @ q) @ fence"
    using assms(4) p(1) by (auto simp: TrimPrefix_def)
  then show ?thesis unfolding clean_selector_def trim by (simp only: suffix inner)
qed

lemma fenced_selector_witness:
  "clean_selector (fence @ ''css'' @ nl @ ''#login > button'' @ nl @ fence @ nl) = ''#login > button''"
  using fenced_selector [of "''#login > button''" nl nl "''css''" "[]" nl] by (simp add: trim_fixed is_space_def)

text \<open>What discovery answers never has white space around it.\<close>

lemma discovered_trimmed:
  "(\<And>c. trim_space (clean c) = clean c) \<Longrightarrow> fst (ask_models provider prompt clean ms lastErr w) = Inr sel \<Longrightarrow> trim_space sel = sel"
  by (induction ms arbitrary: lastErr w) (auto split: prod.splits sum.splits list.splits)

end
