(* ===== verification/Self_Healer.thy ===== *)
theory Self_Healer
  imports Light_Executor Smart_Discovery Circuit_Breaker
begin

text \<open>
  \<open>pkg/uiauto/self_healer.go\<close>: recovering a broken selector level by level: the fingerprint of the
  page, its structure, a language model, a vision model and the vision model as a judge, the last
  three behind circuit breakers of their own. The vision bridge and the accessibility audit are
  parameters over the world; the audit is only logged. Breakers read the clock of the world.
\<close>

section \<open>State\<close>

text \<open>The strategies are bits of an integer.\<close>

abbreviation HealFingerprint :: int where "HealFingerprint \<equiv> 1"
abbreviation HealStructural :: int where "HealStructural \<equiv> 2"
abbreviation HealSmartLLM :: int where "HealSmartLLM \<equiv> 4"
abbreviation HealVLM :: int where "HealVLM \<equiv> 8"
abbreviation HealVLMJudge :: int where "HealVLMJudge \<equiv> 16"
abbreviation HealAll :: int where "HealAll \<equiv> 31"

definition enabled :: "int \<Rightarrow> int \<Rightarrow> bool" where
  "enabled strategy s \<longleftrightarrow> and strategy s \<noteq> 0"

datatype heal_error =
    HealPatternMissing string | HealCaptureFailed string | HealDiscovery discover_error | HealStore store_error
  | ScreenshotFailed string | HealVision string | JudgeSaysNo | JudgeSelectorUnmatched string | StrategiesExhausted string

record heal_result =
  hr_TargetID :: string
  hr_OldSelector :: string
  hr_NewSelector :: string
  hr_Method :: string
  hr_Confidence :: f64
  hr_Duration :: duration
  hr_Success :: bool
  hr_Error :: "heal_error option"

record healer_metrics =
  hm_TotalAttempts :: int
  hm_SuccessfulHeals :: int
  hm_FailedHeals :: int
  hm_FingerprintHeals :: int
  hm_StructuralHeals :: int
  hm_SmartLLMHeals :: int
  hm_VLMHeals :: int
  hm_VLMJudgeHeals :: int
  hm_AvgHealTimeMs :: int

definition zero_healer_metrics :: healer_metrics where
  "zero_healer_metrics = \<lparr>hm_TotalAttempts = 0, hm_SuccessfulHeals = 0, hm_FailedHeals = 0, hm_FingerprintHeals = 0,
     hm_StructuralHeals = 0, hm_SmartLLMHeals = 0, hm_VLMHeals = 0, hm_VLMJudgeHeals = 0, hm_AvgHealTimeMs = 0\<rparr>"

definition heal_SuccessRate :: "healer_metrics \<Rightarrow> f64" where
  "heal_SuccessRate m = (if hm_TotalAttempts m = 0 then flit 0
     else fdiv (f_of_int (hm_SuccessfulHeals m)) (f_of_int (hm_TotalAttempts m)))"

record judgment_result =
  jr_Present :: bool
  jr_Confidence :: f64
  jr_SuggestedSelector :: string

record 'w vision =
  vi_AnalyzeScreenshot :: "string \<Rightarrow> string \<Rightarrow> 'w \<Rightarrow> (string + string) \<times> 'w"
  vi_VLMAsJudge :: "string \<Rightarrow> string \<Rightarrow> 'w \<Rightarrow> (string + judgment_result) \<times> 'w"
  vi_GenerateSelector :: "string \<Rightarrow> string \<Rightarrow> 'w \<Rightarrow> (string + (string \<times> f64)) \<times> 'w"

text \<open>What a healer is built from: the parts it does not change.\<close>

record ('w, 's, 'd) healer =
  he_ops :: "(ui_pattern, 's) store_ops"
  he_codecs :: "'d codecs"
  he_browser :: "'w browser"
  he_env :: "'w exec_env"
  he_discoverer :: "'w smart_discoverer"
  he_vision :: "'w vision option"
  he_audit :: "('w \<Rightarrow> 'w) option"
  he_strategy :: int

record ('w, 's, 'd) heal_state =
  hs_world :: 'w
  hs_tracker :: "('s, 'd) pattern_tracker"
  hs_structMatcher :: "structural_sig matcher"
  hs_metrics :: healer_metrics
  hs_smartCB :: circuit_breaker
  hs_vlmCB :: circuit_breaker
  hs_judgeCB :: circuit_breaker

definition NewSelfHealer :: "time \<Rightarrow> 'w \<Rightarrow> ('s, 'd) pattern_tracker \<Rightarrow> ('w, 's, 'd) heal_state" where
  "NewSelfHealer now w tracker =
     \<lparr>hs_world = w, hs_tracker = tracker, hs_structMatcher = NewStructuralMatcher (flit (6 / 10)),
      hs_metrics = zero_healer_metrics, hs_smartCB = NewCircuitBreaker now ''smart_llm'' DefaultCircuitBreakerConfig,
      hs_vlmCB = NewCircuitBreaker now ''vlm'' DefaultCircuitBreakerConfig,
      hs_judgeCB = NewCircuitBreaker now ''vlm_judge'' DefaultCircuitBreakerConfig\<rparr>"

section \<open>The levels\<close>

definition blank_result :: "ui_pattern \<Rightarrow> string \<Rightarrow> heal_result" where
  "blank_result p method = \<lparr>hr_TargetID = up_ID p, hr_OldSelector = up_Selector p, hr_NewSelector = [], hr_Method = method,
     hr_Confidence = flit 0, hr_Duration = 0, hr_Success = False, hr_Error = None\<rparr>"

definition tryFingerprint :: "('w, 's, 'd) healer \<Rightarrow> ui_pattern \<Rightarrow> string \<Rightarrow> ('w, 's, 'd) heal_state \<Rightarrow>
    heal_result \<times> ('w, 's, 'd) heal_state" where
  "tryFingerprint h p html st =
     (let result = blank_result p ''fingerprint'';
          similarity = DOMFingerprintSimilarity (up_Fingerprint p) (ParseDOMFingerprint (xe_visit (he_env h) (hs_world st)) html)
      in if fle (flit (7 / 10)) similarity then
           let (e, w) = br_Click (he_browser h) (up_Selector p) (hs_world st); st = st\<lparr>hs_world := w\<rparr> in
           if e = None then (result\<lparr>hr_Success := True, hr_Confidence := similarity, hr_NewSelector := up_Selector p\<rparr>,
             st\<lparr>hs_metrics := (hs_metrics st)\<lparr>hm_FingerprintHeals := hm_FingerprintHeals (hs_metrics st) + 1\<rparr>\<rparr>)
           else (result, st)
         else (result, st))"

definition tryStructural :: "('w, 's, 'd) healer \<Rightarrow> ui_pattern \<Rightarrow> string \<Rightarrow> ('w, 's, 'd) heal_state \<Rightarrow>
    heal_result \<times> ('w, 's, 'd) heal_state" where
  "tryStructural h p html st =
     (let result = blank_result p ''structural''; env = he_env h; w = hs_world st;
          (_, sm) = sm_CheckAndUpdate (xe_visit env w) (up_ID p) html (hs_structMatcher st);
          ((match, similarity, found), t) = FindBestMatch (he_ops h) (xe_visit env w) (xe_pow env) (xe_now env w) (up_ID p) html (hs_tracker st);
          st = st\<lparr>hs_structMatcher := sm, hs_tracker := t\<rparr>
      in if found \<and> fle (flit (6 / 10)) similarity
         then (result\<lparr>hr_Confidence := similarity, hr_NewSelector := up_Selector match, hr_Success := True\<rparr>,
           st\<lparr>hs_metrics := (hs_metrics st)\<lparr>hm_StructuralHeals := hm_StructuralHeals (hs_metrics st) + 1\<rparr>\<rparr>)
         else (result, st))"

text \<open>A selector is accepted when it can be clicked or a query for it yields a tag name.\<close>

definition verify_selector :: "'w browser \<Rightarrow> string \<Rightarrow> 'w \<Rightarrow> bool \<times> 'w" where
  "verify_selector br sel w =
     (let (e, w) = br_Click br sel w in
      if e = None then (True, w)
      else let ((e, text), w) = br_Evaluate br (query_script ''tagName'' sel) w in (e = None \<and> text \<noteq> [], w))"

text \<open>The judge's check ignores the error of the query, and looks at the text only.\<close>

definition verify_text :: "'w browser \<Rightarrow> string \<Rightarrow> 'w \<Rightarrow> bool \<times> 'w" where
  "verify_text br sel w =
     (let (e, w) = br_Click br sel w in
      if e = None then (True, w)
      else let ((_, text), w) = br_Evaluate br (query_script ''tagName'' sel) w in (text \<noteq> [], w))"

definition trySmartLLM :: "('w, 's, 'd) healer \<Rightarrow> ui_pattern \<Rightarrow> string \<Rightarrow> ('w, 's, 'd) heal_state \<Rightarrow>
    heal_result \<times> ('w, 's, 'd) heal_state" where
  "trySmartLLM h p html st =
     (let result = blank_result p ''smart_llm'';
          (r, w) = DiscoverSelector (he_discoverer h) (up_Description p) html (hs_world st); st = st\<lparr>hs_world := w\<rparr>
      in case r of
           Inl e \<Rightarrow> (result\<lparr>hr_Error := Some (HealDiscovery e)\<rparr>, st)
         | Inr newSel \<Rightarrow>
             let (ok, w) = verify_selector (he_browser h) newSel w; st = st\<lparr>hs_world := w\<rparr> in
             if \<not> ok then (result, st)
             else let (e, t) = RegisterPattern (he_ops h) (he_codecs h) (xe_visit (he_env h) w) (xe_now (he_env h) w)
                        (up_ID p) newSel (up_Description p) html (hs_tracker st); st = st\<lparr>hs_tracker := t\<rparr>
               in case e of
                    Some e \<Rightarrow> (result\<lparr>hr_Error := Some (HealStore e)\<rparr>, st)
                  | None \<Rightarrow> (result\<lparr>hr_NewSelector := newSel, hr_Confidence := flit (8 / 10), hr_Success := True\<rparr>,
                      st\<lparr>hs_metrics := (hs_metrics st)\<lparr>hm_SmartLLMHeals := hm_SmartLLMHeals (hs_metrics st) + 1\<rparr>\<rparr>))"

definition tryVLM :: "('w, 's, 'd) healer \<Rightarrow> 'w vision \<Rightarrow> ui_pattern \<Rightarrow> ('w, 's, 'd) heal_state \<Rightarrow>
    heal_result \<times> ('w, 's, 'd) heal_state" where
  "tryVLM h v p st =
     (let result = blank_result p ''vlm'';
          (shot, w) = br_CaptureScreenshot (he_browser h) (hs_world st); st = st\<lparr>hs_world := w\<rparr>
      in case shot of
           Inl e \<Rightarrow> (result\<lparr>hr_Error := Some (ScreenshotFailed e)\<rparr>, st)
         | Inr screenshot \<Rightarrow>
             let (r, w) = vi_AnalyzeScreenshot v (up_Description p) screenshot w; st = st\<lparr>hs_world := w\<rparr> in
             (case r of
                Inl e \<Rightarrow> (result\<lparr>hr_Error := Some (HealVision e)\<rparr>, st)
              | Inr guidance \<Rightarrow> (result\<lparr>hr_NewSelector := guidance, hr_Confidence := flit (6 / 10), hr_Success := True\<rparr>,
                  st\<lparr>hs_metrics := (hs_metrics st)\<lparr>hm_VLMHeals := hm_VLMHeals (hs_metrics st) + 1\<rparr>\<rparr>)))"

text \<open>The selector the judge suggests, or else the one it generates.\<close>

definition judged_selector :: "'w vision \<Rightarrow> string \<Rightarrow> string \<Rightarrow> judgment_result \<Rightarrow> 'w \<Rightarrow> (heal_error + string \<times> f64) \<times> 'w" where
  "judged_selector v description screenshot j w =
     (if jr_Present j \<and> jr_SuggestedSelector j \<noteq> [] then (Inr (jr_SuggestedSelector j, jr_Confidence j), w)
      else case vi_GenerateSelector v description screenshot w of
        (Inl _, w) \<Rightarrow> (Inl JudgeSaysNo, w)
      | (Inr (sel, c), w) \<Rightarrow> (if sel = [] then Inl JudgeSaysNo else Inr (sel, c), w))"

definition tryVLMAsJudge :: "('w, 's, 'd) healer \<Rightarrow> 'w vision \<Rightarrow> ui_pattern \<Rightarrow> ('w, 's, 'd) heal_state \<Rightarrow>
    heal_result \<times> ('w, 's, 'd) heal_state" where
  "tryVLMAsJudge h v p st =
     (let result = blank_result p ''vlm_judge''; br = he_browser h;
          (shot, w) = br_CaptureScreenshot br (hs_world st)
      in case shot of
           Inl e \<Rightarrow> (result\<lparr>hr_Error := Some (ScreenshotFailed e)\<rparr>, st\<lparr>hs_world := w\<rparr>)
         | Inr screenshot \<Rightarrow>
             (case vi_VLMAsJudge v (up_Description p) screenshot w of
                (Inl e, w) \<Rightarrow> (result\<lparr>hr_Error := Some (HealVision e)\<rparr>, st\<lparr>hs_world := w\<rparr>)
              | (Inr j, w) \<Rightarrow>
                  (case judged_selector v (up_Description p) screenshot j w of
                     (Inl e, w) \<Rightarrow> (result\<lparr>hr_Error := Some e\<rparr>, st\<lparr>hs_world := w\<rparr>)
                   | (Inr (newSel, c), w) \<Rightarrow>
                       let result = result\<lparr>hr_Confidence := c\<rparr>; (ok, w) = verify_text br newSel w in
                       if \<not> ok then (result\<lparr>hr_Error := Some (JudgeSelectorUnmatched newSel)\<rparr>, st\<lparr>hs_world := w\<rparr>)
                       else let (dom, w) = br_CaptureDOM br w; html = (case dom of Inl _ \<Rightarrow> [] | Inr d \<Rightarrow> d);
                                (e, t) = RegisterPattern (he_ops h) (he_codecs h) (xe_visit (he_env h) w) (xe_now (he_env h) w)
                                  (up_ID p) newSel (up_Description p) html (hs_tracker st);
                                st = st\<lparr>hs_world := w, hs_tracker := t\<rparr>
                            in (case e of
                                  Some e \<Rightarrow> (result\<lparr>hr_Error := Some (HealStore e)\<rparr>, st)
                                | None \<Rightarrow> (result\<lparr>hr_NewSelector := newSel, hr_Success := True\<rparr>,
                                    st\<lparr>hs_metrics := (hs_metrics st)\<lparr>hm_VLMJudgeHeals := hm_VLMJudgeHeals (hs_metrics st) + 1\<rparr>\<rparr>)))))"

section \<open>The cascade\<close>

definition hs_now :: "('w, 's, 'd) healer \<Rightarrow> ('w, 's, 'd) heal_state \<Rightarrow> time" where
  "hs_now h st = xe_now (he_env h) (hs_world st)"

definition heal_recordSuccess :: "('w, 's, 'd) healer \<Rightarrow> heal_result \<Rightarrow> ('w, 's, 'd) heal_state \<Rightarrow> ('w, 's, 'd) heal_state" where
  "heal_recordSuccess h r st =
     (let st = st\<lparr>hs_metrics := (hs_metrics st)\<lparr>hm_SuccessfulHeals := hm_SuccessfulHeals (hs_metrics st) + 1\<rparr>\<rparr>;
          (_, s) = op_Boost (he_ops h) (hs_now h st) (hr_TargetID r) (flit (1 / 10)) (pk_store (hs_tracker st))
      in st\<lparr>hs_tracker := (hs_tracker st)\<lparr>pk_store := s\<rparr>\<rparr>)"

definition healed :: "('w, 's, 'd) healer \<Rightarrow> time \<Rightarrow> heal_result \<Rightarrow> ('w, 's, 'd) heal_state \<Rightarrow> heal_result \<times> ('w, 's, 'd) heal_state" where
  "healed h start r st = (let r = r\<lparr>hr_Duration := time_sub (hs_now h st) start\<rparr> in (r, heal_recordSuccess h r st))"

definition not_healed :: "('w, 's, 'd) healer \<Rightarrow> time \<Rightarrow> heal_result \<Rightarrow> heal_error \<Rightarrow> ('w, 's, 'd) heal_state \<Rightarrow>
    heal_result \<times> ('w, 's, 'd) heal_state" where
  "not_healed h start r e st =
     (r\<lparr>hr_Error := Some e, hr_Duration := time_sub (hs_now h st) start\<rparr>,
      st\<lparr>hs_metrics := (hs_metrics st)\<lparr>hm_FailedHeals := hm_FailedHeals (hs_metrics st) + 1\<rparr>\<rparr>)"

text \<open>One level of \<open>Heal\<close>: \<open>next\<close> is what follows when it does not heal.\<close>

definition level :: "('w, 's, 'd) healer \<Rightarrow> time \<Rightarrow> bool \<Rightarrow> (('w, 's, 'd) heal_state \<Rightarrow> heal_result \<times> ('w, 's, 'd) heal_state) \<Rightarrow>
    (('w, 's, 'd) heal_state \<Rightarrow> heal_result \<times> ('w, 's, 'd) heal_state) \<Rightarrow> ('w, 's, 'd) heal_state \<Rightarrow>
    heal_result \<times> ('w, 's, 'd) heal_state" where
  "level h start on attempt next st =
     (if \<not> on then next st
      else let (r, st) = attempt st in if hr_Success r then healed h start r st else next st)"

definition guarded_level :: "('w, 's, 'd) healer \<Rightarrow> time \<Rightarrow> (('w, 's, 'd) heal_state \<Rightarrow> circuit_breaker) \<Rightarrow>
    (circuit_breaker \<Rightarrow> ('w, 's, 'd) heal_state \<Rightarrow> ('w, 's, 'd) heal_state) \<Rightarrow> bool \<Rightarrow>
    (('w, 's, 'd) heal_state \<Rightarrow> heal_result \<times> ('w, 's, 'd) heal_state) \<Rightarrow>
    (('w, 's, 'd) heal_state \<Rightarrow> heal_result \<times> ('w, 's, 'd) heal_state) \<Rightarrow> ('w, 's, 'd) heal_state \<Rightarrow>
    heal_result \<times> ('w, 's, 'd) heal_state" where
  "guarded_level h start cb set_cb on attempt next st =
     (if \<not> on then next st
      else let (allowed, b) = cb_Allow (hs_now h st) (cb st); st = set_cb b st in
        if \<not> allowed then next st
        else let (r, st) = attempt st in
          if hr_Success r then healed h start r (set_cb (cb_RecordSuccess (hs_now h st) (cb st)) st)
          else next (if hr_Error r \<noteq> None then set_cb (cb_RecordFailure (hs_now h st) (cb st)) st else st))"

definition heal_levels :: "('w, 's, 'd) healer \<Rightarrow> time \<Rightarrow> ui_pattern \<Rightarrow> string \<Rightarrow>
    (('w, 's, 'd) heal_state \<Rightarrow> heal_result \<times> ('w, 's, 'd) heal_state) \<Rightarrow> ('w, 's, 'd) heal_state \<Rightarrow>
    heal_result \<times> ('w, 's, 'd) heal_state" where
  "heal_levels h start p html exhausted =
     (let on = enabled (he_strategy h) in
      level h start (on HealFingerprint) (tryFingerprint h p html)
       (level h start (on HealStructural) (tryStructural h p html)
         (guarded_level h start hs_smartCB (\<lambda>b. hs_smartCB_update (\<lambda>_. b)) (on HealSmartLLM) (trySmartLLM h p html)
           (case he_vision h of
              None \<Rightarrow> exhausted
            | Some v \<Rightarrow>
                guarded_level h start hs_vlmCB (\<lambda>b. hs_vlmCB_update (\<lambda>_. b)) (on HealVLM) (tryVLM h v p)
                 (guarded_level h start hs_judgeCB (\<lambda>b. hs_judgeCB_update (\<lambda>_. b)) (on HealVLMJudge) (tryVLMAsJudge h v p)
                   exhausted)))))"

definition Heal :: "('w, 's, 'd) healer \<Rightarrow> string \<Rightarrow> ('w, 's, 'd) heal_state \<Rightarrow> heal_result \<times> ('w, 's, 'd) heal_state" where
  "Heal h targetID st =
     (let start = hs_now h st;
          st = st\<lparr>hs_metrics := (hs_metrics st)\<lparr>hm_TotalAttempts := hm_TotalAttempts (hs_metrics st) + 1\<rparr>\<rparr>;
          result = \<lparr>hr_TargetID = targetID, hr_OldSelector = [], hr_NewSelector = [], hr_Method = [], hr_Confidence = flit 0,
            hr_Duration = 0, hr_Success = False, hr_Error = None\<rparr>;
          ((p, ok), s) = op_Get (he_ops h) targetID (pk_store (hs_tracker st));
          st = st\<lparr>hs_tracker := (hs_tracker st)\<lparr>pk_store := s\<rparr>\<rparr>
      in if \<not> ok then not_healed h start result (HealPatternMissing targetID) st
         else let result = result\<lparr>hr_OldSelector := up_Selector p\<rparr>;
                  (dom, w) = br_CaptureDOM (he_browser h) (hs_world st); st = st\<lparr>hs_world := w\<rparr> in
           (case dom of
              Inl e \<Rightarrow> not_healed h start result (HealCaptureFailed e) st
            | Inr html \<Rightarrow>
                let st = (case he_audit h of None \<Rightarrow> st | Some audit \<Rightarrow> st\<lparr>hs_world := audit (hs_world st)\<rparr>) in
                heal_levels h start p html (not_healed h start result (StrategiesExhausted targetID)) st))"

primrec HealBatch :: "('w, 's, 'd) healer \<Rightarrow> string list \<Rightarrow> ('w, 's, 'd) heal_state \<Rightarrow> heal_result list \<times> ('w, 's, 'd) heal_state" where
  "HealBatch h [] st = ([], st)"
| "HealBatch h (k # ks) st = (let (r, st) = Heal h k st; (rs, st) = HealBatch h ks st in (r # rs, st))"

section \<open>Scanning for drift\<close>

definition drift_of :: "('w, 's, 'd) healer \<Rightarrow> string \<Rightarrow> string \<Rightarrow> ('w, 's, 'd) heal_state \<Rightarrow> bool \<times> ('w, 's, 'd) heal_state" where
  "drift_of h k html st = (let (drifted, t) = CheckDrift (he_codecs h) k html (hs_tracker st) in (drifted, st\<lparr>hs_tracker := t\<rparr>))"

primrec scan_and_heal :: "('w, 's, 'd) healer \<Rightarrow> string \<Rightarrow> string list \<Rightarrow> ('w, 's, 'd) heal_state \<Rightarrow>
    heal_result list \<times> ('w, 's, 'd) heal_state" where
  "scan_and_heal h html [] st = ([], st)"
| "scan_and_heal h html (k # ks) st =
     (let (drifted, st) = drift_of h k html st in
      if drifted then let (r, st) = Heal h k st; (rs, st) = scan_and_heal h html ks st in (r # rs, st)
      else scan_and_heal h html ks st)"

text \<open>\<open>range\<close> visits the loaded patterns in some order: that of the list.\<close>

definition load_and_capture :: "('w, 's, 'd) healer \<Rightarrow> ('w, 's, 'd) heal_state \<Rightarrow> (string list \<times> string) option \<times> ('w, 's, 'd) heal_state" where
  "load_and_capture h st =
     (let (loaded, s) = op_Load (he_ops h) (pk_store (hs_tracker st)); st = st\<lparr>hs_tracker := (hs_tracker st)\<lparr>pk_store := s\<rparr>\<rparr> in
      case loaded of
        Inl _ \<Rightarrow> (None, st)
      | Inr patterns \<Rightarrow>
          let (dom, w) = br_CaptureDOM (he_browser h) (hs_world st); st = st\<lparr>hs_world := w\<rparr> in
          (case dom of Inl _ \<Rightarrow> None | Inr html \<Rightarrow> Some (map fst patterns, html), st))"

definition DetectAndHeal :: "('w, 's, 'd) healer \<Rightarrow> ('w, 's, 'd) heal_state \<Rightarrow> heal_result list \<times> ('w, 's, 'd) heal_state" where
  "DetectAndHeal h st =
     (case load_and_capture h st of
        (None, st) \<Rightarrow> ([], st)
      | (Some (ks, html), st) \<Rightarrow> scan_and_heal h html ks st)"

text \<open>
  The concurrent scan: \<open>sched\<close> says which of the goroutines check their pattern before the context ends,
  and in what order, \<open>deliver\<close> which of the drifted identifiers arrive, and in what order.
\<close>

primrec check_all :: "('w, 's, 'd) healer \<Rightarrow> string \<Rightarrow> string list \<Rightarrow> ('w, 's, 'd) heal_state \<Rightarrow> string list \<times> ('w, 's, 'd) heal_state" where
  "check_all h html [] st = ([], st)"
| "check_all h html (k # ks) st =
     (let (drifted, st) = drift_of h k html st; (ds, st) = check_all h html ks st in (if drifted then k # ds else ds, st))"

primrec heal_until :: "('w, 's, 'd) healer \<Rightarrow> string list \<Rightarrow> ('w, 's, 'd) heal_state \<Rightarrow> heal_result list \<times> ('w, 's, 'd) heal_state" where
  "heal_until h [] st = ([], st)"
| "heal_until h (k # ks) st =
     (if ctx_err (he_env h) None (hs_world st) then ([], st)
      else let (r, st) = Heal h k st; (rs, st) = heal_until h ks st in (r # rs, st))"

definition DetectAndHealConcurrent :: "(string list \<Rightarrow> string list) \<Rightarrow> (string list \<Rightarrow> string list) \<Rightarrow> ('w, 's, 'd) healer \<Rightarrow>
    ('w, 's, 'd) heal_state \<Rightarrow> heal_result list \<times> ('w, 's, 'd) heal_state" where
  "DetectAndHealConcurrent sched deliver h st =
     (case load_and_capture h st of
        (None, st) \<Rightarrow> ([], st)
      | (Some (ks, html), st) \<Rightarrow>
          let (ds, st) = check_all h html (sched ks) st in heal_until h (deliver ds) st)"

section \<open>Counting\<close>

definition level_heals :: "healer_metrics \<Rightarrow> int" where
  "level_heals m = hm_FingerprintHeals m + hm_StructuralHeals m + hm_SmartLLMHeals m + hm_VLMHeals m + hm_VLMJudgeHeals m"

text \<open>
  An attempt counts its level when it succeeds (\<open>counted\<close>); what settles a heal counts one success or one
  failure (\<open>settled\<close>).
\<close>

definition counted :: "bool \<Rightarrow> healer_metrics \<Rightarrow> healer_metrics \<Rightarrow> bool" where
  "counted ok m m' \<longleftrightarrow> hm_TotalAttempts m' = hm_TotalAttempts m \<and> hm_SuccessfulHeals m' = hm_SuccessfulHeals m \<and>
     hm_FailedHeals m' = hm_FailedHeals m \<and> level_heals m' = level_heals m + of_bool ok"

definition settled :: "bool \<Rightarrow> healer_metrics \<Rightarrow> healer_metrics \<Rightarrow> bool" where
  "settled ok m m' \<longleftrightarrow> hm_TotalAttempts m' = hm_TotalAttempts m \<and> hm_SuccessfulHeals m' = hm_SuccessfulHeals m + of_bool ok \<and>
     hm_FailedHeals m' = hm_FailedHeals m + of_bool (\<not> ok) \<and> level_heals m' = level_heals m + of_bool ok"

definition counts :: "(('w, 's, 'd) heal_state \<Rightarrow> heal_result \<times> ('w, 's, 'd) heal_state) \<Rightarrow> bool" where
  "counts f \<longleftrightarrow> (\<forall>st r st'. f st = (r, st') \<longrightarrow> counted (hr_Success r) (hs_metrics st) (hs_metrics st'))"

definition settles :: "(('w, 's, 'd) heal_state \<Rightarrow> heal_result \<times> ('w, 's, 'd) heal_state) \<Rightarrow> bool" where
  "settles f \<longleftrightarrow> (\<forall>st r st'. f st = (r, st') \<longrightarrow> settled (hr_Success r) (hs_metrics st) (hs_metrics st'))"

lemma counted_then_settled: "counted False m m1 \<Longrightarrow> settled ok m1 m' \<Longrightarrow> settled ok m m'"
  by (simp add: counted_def settled_def)

lemma blank_result_Success [simp]: "\<not> hr_Success (blank_result p method)"
  by (simp add: blank_result_def)

lemma counts_tries:
  "counts (tryFingerprint h p html)" "counts (tryStructural h p html)" "counts (trySmartLLM h p html)"
  "counts (tryVLM h v p)" "counts (tryVLMAsJudge h v p)"
  unfolding counts_def counted_def
  subgoal by (auto simp: tryFingerprint_def Let_def level_heals_def split: prod.splits if_splits)
  subgoal by (auto simp: tryStructural_def Let_def level_heals_def split: prod.splits if_splits)
  subgoal by (auto simp: trySmartLLM_def Let_def level_heals_def split: prod.splits sum.splits option.splits if_splits)
  subgoal by (auto simp: tryVLM_def Let_def level_heals_def split: prod.splits sum.splits)
  subgoal by (auto simp: tryVLMAsJudge_def Let_def level_heals_def split: prod.splits sum.splits option.splits if_splits)
  done

lemma healed_settles:
  assumes "counted True m (hs_metrics st)" "hr_Success r" "healed h start r st = (r', st')"
  shows "hr_Success r' \<and> settled (hr_Success r') m (hs_metrics st')"
  using assms by (auto simp: healed_def heal_recordSuccess_def Let_def settled_def counted_def level_heals_def split: prod.splits)

lemma settles_not_healed: "\<not> hr_Success r \<Longrightarrow> settles (not_healed h start r e)"
  by (auto simp: settles_def not_healed_def settled_def level_heals_def)

lemma settles_level:
  assumes "counts attempt" "settles next"
  shows "settles (level h start on attempt next)"
  unfolding settles_def
proof (intro allI impI)
  fix st r' st'
  assume run: "level h start on attempt next st = (r', st')"
  obtain r s where att: "attempt st = (r, s)" by fastforce
  with assms(1) have "counted (hr_Success r) (hs_metrics st) (hs_metrics s)" by (simp add: counts_def)
  with run att assms(2) show "settled (hr_Success r') (hs_metrics st) (hs_metrics st')"
    by (cases on; cases "hr_Success r") (auto simp: level_def settles_def dest: healed_settles counted_then_settled)
qed

lemma settles_guarded:
  assumes "counts attempt" "settles next" "\<And>b s. hs_metrics (set_cb b s) = hs_metrics s"
  shows "settles (guarded_level h start cb set_cb on attempt next)"
  unfolding settles_def
proof (intro allI impI)
  fix st r' st'
  assume run: "guarded_level h start cb set_cb on attempt next st = (r', st')"
  obtain allowed b where allow: "cb_Allow (hs_now h st) (cb st) = (allowed, b)" by fastforce
  obtain r s where att: "attempt (set_cb b st) = (r, s)" by fastforce
  with assms(1,3) have c: "counted (hr_Success r) (hs_metrics st) (hs_metrics s)" by (auto simp: counts_def) (metis assms(3))
  have follow: "settled (hr_Success r2) m (hs_metrics s2)" if "next s1 = (r2, s2)" "m = hs_metrics s1" for m s1 r2 s2
    using assms(2) that by (simp add: settles_def)
  show "settled (hr_Success r') (hs_metrics st) (hs_metrics st')"
  proof (cases "on \<and> allowed")
    case False
    with run allow have "next (if on then set_cb b st else st) = (r', st')" by (cases on) (simp_all add: guarded_level_def)
    from follow [OF this, of "hs_metrics st"] show ?thesis by (simp add: assms(3))
  next
    case go: True
    show ?thesis
    proof (cases "hr_Success r")
      case True
      with go run allow att have "healed h start r (set_cb (cb_RecordSuccess (hs_now h s) (cb s)) s) = (r', st')"
        by (simp add: guarded_level_def Let_def)
      from healed_settles [OF _ True this, of "hs_metrics st"] c True show ?thesis by (auto simp: assms(3))
    next
      case False
      with go run allow att have "next (if hr_Error r \<noteq> None then set_cb (cb_RecordFailure (hs_now h s) (cb s)) s else s) = (r', st')"
        by (simp add: guarded_level_def Let_def)
      from follow [OF this, of "hs_metrics s"] counted_then_settled c False show ?thesis by (simp add: assms(3))
    qed
  qed
qed

lemma settles_levels: "settles exhausted \<Longrightarrow> settles (heal_levels h start p html exhausted)"
  unfolding heal_levels_def Let_def
  by (auto intro!: settles_level settles_guarded counts_tries split: option.split)

lemma Heal_counts:
  assumes "Heal h k st = (r, st')"
  shows "hm_TotalAttempts (hs_metrics st') = hm_TotalAttempts (hs_metrics st) + 1 \<and>
    hm_SuccessfulHeals (hs_metrics st') = hm_SuccessfulHeals (hs_metrics st) + of_bool (hr_Success r) \<and>
    hm_FailedHeals (hs_metrics st') = hm_FailedHeals (hs_metrics st) + of_bool (\<not> hr_Success r) \<and>
    level_heals (hs_metrics st') = level_heals (hs_metrics st) + of_bool (hr_Success r)"
proof -
  define m where "m = (hs_metrics st)\<lparr>hm_TotalAttempts := hm_TotalAttempts (hs_metrics st) + 1\<rparr>"
  have "settled (hr_Success r) m (hs_metrics st')"
  proof -
    obtain p ok s where get: "op_Get (he_ops h) k (pk_store (hs_tracker st)) = ((p, ok), s)" by (metis prod.exhaust)
    obtain dom w where cap: "br_CaptureDOM (he_browser h) (hs_world st) = (dom, w)" by fastforce
    have fail: "not_healed h start r0 e s0 = (r, st') \<Longrightarrow> \<not> hr_Success r0 \<Longrightarrow> hs_metrics s0 = m \<Longrightarrow> settled (hr_Success r) m (hs_metrics st')"
      for start r0 e s0 using settles_not_healed [of r0 h start e] unfolding settles_def by blast
    have levels: "heal_levels h start p html (not_healed h start r0 e) s0 = (r, st') \<Longrightarrow> \<not> hr_Success r0 \<Longrightarrow> hs_metrics s0 = m \<Longrightarrow>
        settled (hr_Success r) m (hs_metrics st')" for start html r0 e s0
      using settles_levels [OF settles_not_healed, of r0 h start p html h start e] unfolding settles_def by blast
    show ?thesis
      using assms
      by (cases ok; cases dom) (auto simp: Heal_def Let_def get cap m_def split: option.splits intro: fail [unfolded m_def] levels [unfolded m_def])
  qed
  then show ?thesis by (simp add: m_def settled_def level_heals_def)
qed

lemma HealBatch_counts:
  "HealBatch h ks st = (rs, st') \<Longrightarrow>
   length rs = length ks \<and> hm_TotalAttempts (hs_metrics st') = hm_TotalAttempts (hs_metrics st) + int (length ks) \<and>
   hm_SuccessfulHeals (hs_metrics st') = hm_SuccessfulHeals (hs_metrics st) + int (length (filter hr_Success rs)) \<and>
   hm_FailedHeals (hs_metrics st') = hm_FailedHeals (hs_metrics st) + int (length (filter (\<lambda>r. \<not> hr_Success r) rs)) \<and>
   level_heals (hs_metrics st') = level_heals (hs_metrics st) + int (length (filter hr_Success rs))"
proof (induction ks arbitrary: st rs st')
  case (Cons k ks)
  obtain r s where heal: "Heal h k st = (r, s)" by fastforce
  obtain rs' s' where rest: "HealBatch h ks s = (rs', s')" by fastforce
  from Cons.prems have "rs = r # rs'" "st' = s'" by (simp_all add: heal rest)
  with Cons.IH [OF rest] Heal_counts [OF heal] show ?case by (cases "hr_Success r") simp_all
qed simp

text \<open>The calls that change a healer, and the balance of its counters under any run of them.\<close>

datatype heal_call = HealOne string | HealMany "string list" | Scan | ScanConcurrent "string list \<Rightarrow> string list" "string list \<Rightarrow> string list"

definition heal_do :: "('w, 's, 'd) healer \<Rightarrow> ('w, 's, 'd) heal_state \<Rightarrow> heal_call \<Rightarrow> ('w, 's, 'd) heal_state" where
  "heal_do h st call =
     (case call of
        HealOne k \<Rightarrow> snd (Heal h k st)
      | HealMany ks \<Rightarrow> snd (HealBatch h ks st)
      | Scan \<Rightarrow> snd (DetectAndHeal h st)
      | ScanConcurrent sched deliver \<Rightarrow> snd (DetectAndHealConcurrent sched deliver h st))"

definition balanced :: "healer_metrics \<Rightarrow> bool" where
  "balanced m \<longleftrightarrow> 0 \<le> hm_SuccessfulHeals m \<and> 0 \<le> hm_FailedHeals m \<and>
     hm_TotalAttempts m = hm_SuccessfulHeals m + hm_FailedHeals m \<and> level_heals m = hm_SuccessfulHeals m"

lemma balanced_Heal: "balanced (hs_metrics st) \<Longrightarrow> balanced (hs_metrics (snd (Heal h k st)))"
  using Heal_counts [of h k st] by (cases "Heal h k st") (auto simp: balanced_def)

lemma balanced_HealBatch: "balanced (hs_metrics st) \<Longrightarrow> balanced (hs_metrics (snd (HealBatch h ks st)))"
proof (induction ks arbitrary: st)
  case (Cons k ks)
  then show ?case using balanced_Heal [OF Cons.prems, of h k] by (simp add: case_prod_beta Let_def)
qed simp

lemma drift_of_metrics [simp]: "hs_metrics (snd (drift_of h k html st)) = hs_metrics st"
  by (simp add: drift_of_def case_prod_beta Let_def)

lemma balanced_scan: "balanced (hs_metrics st) \<Longrightarrow> balanced (hs_metrics (snd (scan_and_heal h html ks st)))"
proof (induction ks arbitrary: st)
  case (Cons k ks)
  have "balanced (hs_metrics (snd (drift_of h k html st)))" using Cons.prems by simp
  with balanced_Heal [OF this, of h k] Cons.IH show ?case by (simp add: case_prod_beta Let_def)
qed simp

lemma check_all_metrics [simp]: "hs_metrics (snd (check_all h html ks st)) = hs_metrics st"
  by (induction ks arbitrary: st) (simp_all add: case_prod_beta Let_def)

lemma balanced_until: "balanced (hs_metrics st) \<Longrightarrow> balanced (hs_metrics (snd (heal_until h ks st)))"
proof (induction ks arbitrary: st)
  case (Cons k ks)
  then show ?case using balanced_Heal [OF Cons.prems, of h k] by (simp add: case_prod_beta Let_def)
qed simp

lemma load_and_capture_metrics [simp]: "hs_metrics (snd (load_and_capture h st)) = hs_metrics st"
  by (simp add: load_and_capture_def Let_def split: prod.split sum.split)

lemma balanced_do:
  assumes "balanced (hs_metrics st)"
  shows "balanced (hs_metrics (heal_do h st call))"
proof -
  obtain found s where lc: "load_and_capture h st = (found, s)" by fastforce
  then have s: "hs_metrics s = hs_metrics st" using load_and_capture_metrics [of h st] by simp
  have "balanced (hs_metrics (snd (heal_until h ks (snd (check_all h html js s)))))" for ks html js
    using assms s by (intro balanced_until) simp
  with s show ?thesis using assms balanced_Heal balanced_HealBatch balanced_scan [of s]
    by (auto simp: heal_do_def DetectAndHeal_def DetectAndHealConcurrent_def lc case_prod_beta Let_def split: heal_call.split option.split)
qed

lemma balanced_run: "balanced (hs_metrics st) \<Longrightarrow> balanced (hs_metrics (foldl (heal_do h) st hcs))"
  by (induction hcs arbitrary: st) (simp_all add: balanced_do)

section \<open>The first levels find nothing new\<close>

lemma tryFingerprint_same:
  "tryFingerprint h p html st = (r, st') \<Longrightarrow> hr_Success r \<Longrightarrow> hr_NewSelector r = up_Selector p \<and> hr_OldSelector r = up_Selector p"
  by (auto simp: tryFingerprint_def Let_def blank_result_def split: prod.splits if_splits)

lemma tryFingerprint_failed:
  assumes "\<And>w. fst (br_Click (he_browser h) (up_Selector p) w) \<noteq> None" "tryFingerprint h p html st = (r, st')"
  shows "\<not> hr_Success r" "hs_tracker st' = hs_tracker st"
proof -
  obtain e w where click: "br_Click (he_browser h) (up_Selector p) (hs_world st) = (e, w)" by fastforce
  with assms(1) [of "hs_world st"] have "e \<noteq> None" by simp
  then show "\<not> hr_Success r" "hs_tracker st' = hs_tracker st"
    using assms(2) by (auto simp: tryFingerprint_def Let_def click split: if_splits)
qed

text \<open>A heal that reports success with the selector it was to replace.\<close>

definition stale_heal :: "ui_pattern \<Rightarrow> heal_result \<Rightarrow> bool" where
  "stale_heal p r \<longleftrightarrow> hr_Success r \<and> hr_Method r = ''structural'' \<and> hr_NewSelector r = up_Selector p \<and> hr_OldSelector r = up_Selector p"

lemma stale_healed: "stale_heal p r \<Longrightarrow> stale_heal p (fst (healed h start r st))"
  by (simp add: stale_heal_def healed_def Let_def)

context tracked_store
begin

text \<open>
  When the page matches, the second level reports success with the selector it was to replace, although
  the first level has just seen it fail.
\<close>

lemma structural_stale:
  assumes "he_ops h = ops" "up_ID p = k"
    "FindBestMatch ops (xe_visit (he_env h) (hs_world s)) (xe_pow (he_env h)) (xe_now (he_env h) (hs_world s)) k html (hs_tracker s) =
      ((p, score, True), t)" "fle (flit (6 / 10)) score"
  shows "stale_heal p (fst (tryStructural h p html s))"
  using assms by (simp add: tryStructural_def Let_def blank_result_def stale_heal_def split: prod.splits)

lemma heal_claims_success:
  assumes "he_ops h = ops" "inv (pk_store (hs_tracker st))" "view (pk_store (hs_tracker st)) k = Some p" "up_ID p = k"
    "\<And>w. fst (br_Click (he_browser h) (up_Selector p) w) \<noteq> None"
    "enabled (he_strategy h) HealStructural"
    "br_CaptureDOM (he_browser h) (hs_world st) = (Inr html, w)"
    "\<And>w' pow now. \<exists>score. FindBestMatch ops (xe_visit (he_env h) w') pow now k html (hs_tracker st) =
      ((p, score, True), hs_tracker st) \<and> fle (flit (6 / 10)) score"
  shows "stale_heal p (fst (Heal h k st))"
proof -
  have get: "op_Get (he_ops h) k (pk_store (hs_tracker st)) = ((p, True), pk_store (hs_tracker st))"
    using get_found [OF assms(2,3)] assms(1) by simp
  have second: "stale_heal p (fst (level h start (enabled (he_strategy h) HealStructural) (tryStructural h p html) cont s))"
    if s: "hs_tracker s = hs_tracker st" for start cont s
  proof -
    have r: "stale_heal p (fst (tryStructural h p html s))"
      using assms(8) [of "hs_world s" "xe_pow (he_env h)" "xe_now (he_env h) (hs_world s)"] s
        structural_stale [OF assms(1,4)] by metis
    obtain r s' where "tryStructural h p html s = (r, s')" by fastforce
    with r assms(6) show ?thesis by (simp add: level_def stale_heal_def healed_def Let_def)
  qed
  have first: "stale_heal p (fst (level h start on (tryFingerprint h p html)
        (level h start (enabled (he_strategy h) HealStructural) (tryStructural h p html) cont) s))"
    if s: "hs_tracker s = hs_tracker st" for start cont s on
  proof (cases on)
    case True
    obtain r s' where fp: "tryFingerprint h p html s = (r, s')" by fastforce
    have "level h start on (tryFingerprint h p html) f s = f s'" for f
      using True tryFingerprint_failed(1) [OF assms(5) fp] by (simp add: level_def fp)
    with second [of s'] tryFingerprint_failed(2) [OF assms(5) fp] s show ?thesis by simp
  next
    case False
    then have "level h start on (tryFingerprint h p html) f s = f s" for f by (simp add: level_def)
    with second [OF s] show ?thesis by simp
  qed
  show ?thesis unfolding Heal_def
    using first by (simp add: Let_def get assms(7) heal_levels_def split: option.split)
qed

end

section \<open>Healing leaves the drift hashes alone\<close>

definition same_hashes :: "(('w, 's, 'd) heal_state \<Rightarrow> heal_result \<times> ('w, 's, 'd) heal_state) \<Rightarrow> bool" where
  "same_hashes f \<longleftrightarrow> (\<forall>st. pk_detector (hs_tracker (snd (f st))) = pk_detector (hs_tracker st))"

lemma detector_kept [simp]:
  "pk_detector (snd (RegisterPattern ops co visit now k sel desc html t)) = pk_detector t"
  "pk_detector (snd (FindBestMatch ops visit pow now k html t)) = pk_detector t"
  "pk_detector (hs_tracker (snd (healed h start r st))) = pk_detector (hs_tracker st)"
  "pk_detector (hs_tracker (snd (not_healed h start r e st))) = pk_detector (hs_tracker st)"
  by (simp_all add: RegisterPattern_def FindBestMatch_state healed_def heal_recordSuccess_def not_healed_def Let_def split: prod.splits)

lemma detector_after [simp]:
  "RegisterPattern ops co visit now k sel desc html t = (e, t') \<Longrightarrow> pk_detector t' = pk_detector t"
  "FindBestMatch ops visit pow now k html t = (b, t') \<Longrightarrow> pk_detector t' = pk_detector t"
  using detector_kept(1) [of ops co visit now k sel desc html t] detector_kept(2) [of ops visit pow now k html t] by simp_all

lemma same_hashes_tries:
  "same_hashes (tryFingerprint h p html)" "same_hashes (tryStructural h p html)" "same_hashes (trySmartLLM h p html)"
  "same_hashes (tryVLM h v p)" "same_hashes (tryVLMAsJudge h v p)"
  unfolding same_hashes_def
  subgoal by (auto simp: tryFingerprint_def Let_def split: prod.splits if_splits)
  subgoal by (auto simp: tryStructural_def Let_def split: prod.splits if_splits)
  subgoal by (auto simp: trySmartLLM_def Let_def split: prod.splits sum.splits option.splits if_splits)
  subgoal by (auto simp: tryVLM_def Let_def split: prod.splits sum.splits)
  subgoal by (auto simp: tryVLMAsJudge_def Let_def split: prod.splits sum.splits option.splits if_splits)
  done

lemma same_hashes_level: "same_hashes attempt \<Longrightarrow> same_hashes f \<Longrightarrow> same_hashes (level h start on attempt f)"
  by (auto simp: same_hashes_def level_def split: prod.splits) (metis snd_conv detector_kept(3))+

lemma same_hashes_guarded:
  assumes "same_hashes attempt" "same_hashes f" "\<And>b s. hs_tracker (set_cb b s) = hs_tracker s"
  shows "same_hashes (guarded_level h start cb set_cb on attempt f)"
  unfolding same_hashes_def
proof
  fix st
  obtain allowed b where allow: "cb_Allow (hs_now h st) (cb st) = (allowed, b)" by fastforce
  obtain r s where att: "attempt (set_cb b st) = (r, s)" by fastforce
  with assms(1,3) have "pk_detector (hs_tracker s) = pk_detector (hs_tracker st)" unfolding same_hashes_def by (metis snd_conv)
  then show "pk_detector (hs_tracker (snd (guarded_level h start cb set_cb on attempt f st))) = pk_detector (hs_tracker st)"
    using assms(2,3) by (simp add: guarded_level_def allow att Let_def same_hashes_def)
qed

lemma same_hashes_Heal: "same_hashes (Heal h k)"
  unfolding same_hashes_def
proof
  fix st
  have levels: "pk_detector (hs_tracker (snd (heal_levels h start p html (not_healed h start' r e) s))) = pk_detector (hs_tracker s)" for start p html start' r e s
  proof -
    have "same_hashes (heal_levels h start p html (not_healed h start' r e))"
      unfolding heal_levels_def Let_def
      by (intro same_hashes_level same_hashes_tries)
        (auto intro!: same_hashes_guarded same_hashes_tries simp: same_hashes_def [of "not_healed h start' r e"] split: option.split)
    then show ?thesis by (simp add: same_hashes_def)
  qed
  show "pk_detector (hs_tracker (snd (Heal h k st))) = pk_detector (hs_tracker st)"
    by (simp add: Heal_def Let_def levels split: prod.split sum.split option.split)
qed

definition scanned :: "string \<Rightarrow> string \<Rightarrow> ('w, 's, 'd) heal_state \<Rightarrow> bool" where
  "scanned html k st \<longleftrightarrow> mget (dd_hashes (pk_detector (hs_tracker st))) k = Some (simpleHash html)"

lemma drift_of_facts:
  "fst (drift_of h k html st) = fst (dd_CheckAndUpdate k html (pk_detector (hs_tracker st)))"
  "scanned html k (snd (drift_of h k html st))" "scanned html j st \<Longrightarrow> scanned html j (snd (drift_of h k html st))"
  by (simp_all add: drift_of_def CheckDrift_def Let_def scanned_def dd_CheckAndUpdate_def split: prod.splits)

lemma scan_scanned:
  "(\<And>j. j \<in> done \<Longrightarrow> scanned html j st) \<Longrightarrow> scan_and_heal h html ks st = (rs, st') \<Longrightarrow> j \<in> done \<union> set ks \<Longrightarrow> scanned html j st'"
proof (induction ks arbitrary: st rs "done")
  case (Cons k ks)
  obtain dr s where dr: "drift_of h k html st = (dr, s)" by fastforce
  obtain r s1 where heal: "Heal h k s = (r, s1)" by fastforce
  define s2 where "s2 = (if dr then s1 else s)"
  have "scanned html i s" if "i \<in> insert k done" for i
    using drift_of_facts(2) [of html k h st] drift_of_facts(3) [of html i st h k] dr that Cons.prems(1) by auto
  moreover have "pk_detector (hs_tracker s1) = pk_detector (hs_tracker s)"
    using same_hashes_Heal [of h k] heal unfolding same_hashes_def by (metis snd_conv)
  ultimately have "scanned html i s2" if "i \<in> insert k done" for i using that by (simp add: s2_def scanned_def)
  moreover obtain rs' where "scan_and_heal h html ks s2 = (rs', st')"
    using Cons.prems(2) by (auto simp: dr heal s2_def split: if_splits prod.splits)
  ultimately show ?case using Cons.IH [of "insert k done" s2 rs'] Cons.prems(3) by auto
qed auto

lemma scan_nothing:
  "(\<And>k. k \<in> set ks \<Longrightarrow> scanned html k st) \<Longrightarrow> fst (scan_and_heal h html ks st) = []"
proof (induction ks arbitrary: st)
  case (Cons k ks)
  obtain dr s where dr: "drift_of h k html st = (dr, s)" by fastforce
  have "\<not> dr" using drift_of_facts(1) [of h k html st] Cons.prems [of k] not_drifted by (simp add: dr scanned_def)
  moreover have "scanned html j s" if "j \<in> set ks" for j
    using drift_of_facts(3) [of html j st] Cons.prems [of j] that dr by (metis list.set_intros(2) snd_conv)
  ultimately show ?case using Cons.IH [of s] by (simp add: dr)
qed simp

text \<open>A page with another hash counts as drift for every pattern once.\<close>

lemma drift_of_other: "j \<noteq> k \<Longrightarrow> scanned html j (snd (drift_of h k html' st)) = scanned html j st"
  by (simp add: drift_of_def CheckDrift_def Let_def scanned_def dd_CheckAndUpdate_def split: prod.splits)

lemma scan_other_page:
  "distinct ks \<Longrightarrow> (\<And>k. k \<in> set ks \<Longrightarrow> scanned html k st) \<Longrightarrow> simpleHash html' \<noteq> simpleHash html \<Longrightarrow>
   length (fst (scan_and_heal h html' ks st)) = length ks"
proof (induction ks arbitrary: st)
  case (Cons k ks)
  obtain dr s where dr: "drift_of h k html' st = (dr, s)" by fastforce
  obtain r s1 where heal: "Heal h k s = (r, s1)" by fastforce
  have "dr" using drift_of_facts(1) [of h k html' st] Cons.prems(2) [of k] Cons.prems(3) not_drifted [of k html' "pk_detector (hs_tracker st)"]
    by (simp add: dr scanned_def)
  moreover have "scanned html j s1" if "j \<in> set ks" for j
  proof -
    have "pk_detector (hs_tracker s1) = pk_detector (hs_tracker s)"
      using same_hashes_Heal [of h k] heal unfolding same_hashes_def by (metis snd_conv)
    moreover have "scanned html j s" using drift_of_other [of j k html h html' st] that Cons.prems(1,2) by (auto simp: dr)
    ultimately show ?thesis by (simp add: scanned_def)
  qed
  ultimately have "length (fst (scan_and_heal h html' ks s1)) = length ks" using Cons.IH [of s1] Cons.prems by simp
  with \<open>dr\<close> show ?case by (cases "scan_and_heal h html' ks s1") (simp add: dr heal)
qed simp

lemma load_and_capture_detector: "pk_detector (hs_tracker (snd (load_and_capture h st))) = pk_detector (hs_tracker st)"
  by (simp add: load_and_capture_def Let_def split: prod.split sum.split)

section \<open>Properties\<close>

text \<open>C5: the healer's counters are those of its results: in any batch, with whatever browser, models, vision
  service, breakers and store, every heal is counted once, as a success or a failure, and every success
  is credited to exactly one level.\<close>

theorem healer_counters:
  "let (rs, st') = HealBatch h ks st; m = hs_metrics st; m' = hs_metrics st';
       good = int (length (filter hr_Success rs)); bad = int (length (filter (\<lambda>r. \<not> hr_Success r) rs)) in
     length rs = length ks \<and> hm_TotalAttempts m' = hm_TotalAttempts m + good + bad \<and>
     hm_SuccessfulHeals m' = hm_SuccessfulHeals m + good \<and> hm_FailedHeals m' = hm_FailedHeals m + bad \<and>
     level_heals m' = level_heals m + good"
proof -
  obtain rs st' where run: "HealBatch h ks st = (rs, st')" by fastforce
  have "int (length rs) = int (length (filter hr_Success rs)) + int (length (filter (\<lambda>r. \<not> hr_Success r) rs))"
    using sum_length_filter_compl [of hr_Success rs] by linarith
  with HealBatch_counts [OF run] show ?thesis by (simp add: run)
qed

text \<open>a heal can succeed without healing: when a page reads like the one a pattern was learned on but its
  selector can no longer be clicked, the structural level answers success with the very selector that
  just failed, whatever the models would have answered.\<close>

theorem heal_claims_broken_selector:
  assumes "he_ops h = ui_ops enc dec" "patterns_ok (us_patterns (pk_store (hs_tracker st)))"
    "mget (us_patterns (pk_store (hs_tracker st))) k = Some p" "pk_scoring (hs_tracker st) = DefaultScoringConfig"
    "\<And>w. fst (br_Click (he_browser h) (up_Selector p) w) \<noteq> None" "enabled (he_strategy h) HealStructural"
    "br_CaptureDOM (he_browser h) (hs_world st) = (Inr html, w)"
    "\<And>w'. DOMFingerprintSimilarity (up_Fingerprint p) (ParseDOMFingerprint (xe_visit (he_env h) w') html) = Fin 1"
  shows "let r = fst (Heal h k st) in hr_Success r \<and> hr_Method r = ''structural'' \<and>
    hr_NewSelector r = hr_OldSelector r \<and> hr_OldSelector r = up_Selector p"
proof -
  have p: "wf_map (us_patterns (pk_store (hs_tracker st)))" "us_view (pk_store (hs_tracker st)) k = Some p" "up_ID p = k"
    "unit_f (up_Confidence p)" using assms(2,3) by (simp_all add: patterns_ok_def us_view_def)
  have "stale_heal p (fst (Heal h k st))"
    by (rule tracked.heal_claims_success [OF assms(1) p(1-3) assms(5-7)])
      (rule tracked.alike_page_matches [OF p(1,2,4) assms(4,8)])
  then show ?thesis by (simp add: stale_heal_def Let_def)
qed

definition go_healer :: "(time, ui_patterns ui_store, nat) healer" where
  "go_healer = \<lparr>he_ops = ui_ops id (Pair None), he_codecs = blank_codecs, he_browser = blind_browser, he_env = plain_clock,
     he_discoverer = NewSmartDiscoverer (\<lambda>_ w. (Inl (ProviderError ''down''), w)) [], he_vision = None, he_audit = None, he_strategy = HealAll\<rparr>"

definition go_heal_state :: "(time, ui_patterns ui_store, nat) heal_state" where
  "go_heal_state = NewSelfHealer 0 0 (tracker_do id (Pair None) blank_codecs blank_tracker learn_go)"

lemma heal_claims_broken_selector_witness:
  "hr_Success (fst (Heal go_healer ''go'' go_heal_state)) \<and> hr_NewSelector (fst (Heal go_healer ''go'' go_heal_state)) = ''#go'' \<and>
   fst (br_Click (he_browser go_healer) ''#go'' 0) \<noteq> None"
proof -
  let ?p = "new_pattern id 3 ''go'' ''#go'' ''the button'' ''<form><input>''"
  have tracker: "us_patterns (pk_store (hs_tracker go_heal_state)) = mset_at [] ''go'' ?p" "pk_scoring (hs_tracker go_heal_state) = DefaultScoringConfig"
    by (simp_all add: go_heal_state_def NewSelfHealer_def learn_go_def tracker_do_def RegisterPattern_def Let_def ui_ops_patterns
        new_pattern_def blank_tracker_def split: prod.splits)
  have "patterns_ok (us_patterns (pk_store (hs_tracker go_heal_state)))"
    by (simp add: tracker patterns_ok_def) (simp add: new_pattern_def)
  moreover have "DOMFingerprintSimilarity (up_Fingerprint ?p) (ParseDOMFingerprint (xe_visit (he_env go_healer) w) ''<form><input>'') = Fin 1" for w
    using reading_twice [OF visits_id_rev(1,1), of "''<form><input>''"] by (simp add: new_pattern_def go_healer_def plain_clock_def)
  moreover have "fst (br_Click (he_browser go_healer) (up_Selector ?p) w) \<noteq> None" for w
    by (simp add: go_healer_def blind_browser_def new_pattern_def)
  moreover have "enabled (he_strategy go_healer) HealStructural" "he_ops go_healer = ui_ops id (Pair None)"
    "br_CaptureDOM (he_browser go_healer) (hs_world go_heal_state) = (Inr ''<form><input>'', 0)"
    by (simp_all add: go_healer_def enabled_def blind_browser_def go_heal_state_def NewSelfHealer_def)
  moreover have "mget (us_patterns (pk_store (hs_tracker go_heal_state))) ''go'' = Some ?p" by (simp add: tracker)
  ultimately show ?thesis
    using heal_claims_broken_selector [of go_healer id "Pair None" go_heal_state "''go''" ?p "''<form><input>''" 0] tracker(2)
    by (simp add: Let_def new_pattern_def go_healer_def blind_browser_def)
qed

text \<open>C39: a scan stores the hash of the page before it heals, so what it could not heal waits for the page to
  change: the next scan, over patterns that the first one loaded, tries none of them when it captures a
  page with the same hash, and every one of them when the hash is another, whatever the browser, the
  models, the store and the results of the first scan were.\<close>

theorem scan_forgets_failures:
  assumes "load_and_capture h st = (Some (ks, html), st0)" "DetectAndHeal h st = (rs, st1)"
    "load_and_capture h st1 = (Some (ks', html'), st2)" "set ks' \<subseteq> set ks" "distinct ks'"
  shows "length (fst (DetectAndHeal h st1)) = (if simpleHash html' = simpleHash html then 0 else length ks')"
proof -
  have run: "scan_and_heal h html ks st0 = (rs, st1)" using assms(2) by (simp add: DetectAndHeal_def assms(1))
  have "scanned html k st1" if "k \<in> set ks'" for k using scan_scanned [of "{}" html st0 h ks rs st1 k] run assms(4) that by auto
  then have "scanned html k st2" if "k \<in> set ks'" for k
    using load_and_capture_detector [of h st1] assms(3) that by (simp add: scanned_def)
  then show ?thesis
    using scan_other_page [OF assms(5), of html st2 html' h] scan_nothing [of ks' html' st2 h]
    by (auto simp: DetectAndHeal_def assms(3) scanned_def)
qed

text \<open>A browser that shows its page on every second look, so that the scans see it and the heals do not.\<close>

definition blinking_healer :: "(time, ui_patterns ui_store, nat) healer" where
  "blinking_healer = go_healer\<lparr>he_browser := blind_browser\<lparr>br_CaptureDOM := \<lambda>w. (if even w then Inr ''a'' else Inl ''blank'', w + 1)\<rparr>\<rparr>"

definition drifted_state :: "(time, ui_patterns ui_store, nat) heal_state" where
  "drifted_state = NewSelfHealer 0 0 (blank_tracker
     \<lparr>pk_store := \<lparr>us_filePath = ''p.json'', us_patterns = [],
        us_disk = \<lparr>d_files = [(''p.json'', [(''go'', zero_ui_pattern)])], d_dirs = [], d_next = []\<rparr>\<rparr>,
      pk_detector := \<lparr>dd_baseDir = [], dd_hashes = [(''go'', ''old'')]\<rparr>\<rparr>)"

lemma scan_forgets_failures_witness:
  "map hr_Success (fst (DetectAndHeal blinking_healer drifted_state)) = [False] \<and>
   fst (DetectAndHeal blinking_healer (snd (DetectAndHeal blinking_healer drifted_state))) = []"
proof -
  have hash: "simpleHash ''a'' \<noteq> ''old''"
    by (simp add: simpleHash_def hashString_def normalized_def to_lower_def to_lower_char_def trim_space_def is_space_def
        hex_int_def hex_nat.simps hex_digit_def)
  obtain st0 where first: "load_and_capture blinking_healer drifted_state = (Some ([''go''], ''a''), st0)"
    "hs_world st0 = 1" "pk_detector (hs_tracker st0) = \<lparr>dd_baseDir = [], dd_hashes = [(''go'', ''old'')]\<rparr>"
    "op_Load (he_ops blinking_healer) (pk_store (hs_tracker st0)) = (Inr [(''go'', zero_ui_pattern)], pk_store (hs_tracker st0))"
    "fst (op_Get (he_ops blinking_healer) ''go'' (pk_store (hs_tracker st0))) = (zero_ui_pattern, True)"
    "snd (op_Get (he_ops blinking_healer) ''go'' (pk_store (hs_tracker st0))) = pk_store (hs_tracker st0)"
    by (simp add: load_and_capture_def blinking_healer_def go_healer_def drifted_state_def NewSelfHealer_def blank_tracker_def
        ui_ops_def us_Load_def us_Get_def ReadFile_def disk_defs mget_def blind_browser_def mmerge_def mset_at_def)
  define s where "s = snd (drift_of blinking_healer ''go'' ''a'' st0)"
  have dr: "drift_of blinking_healer ''go'' ''a'' st0 = (True, s)"
    using hash by (simp add: s_def drift_of_def CheckDrift_def dd_CheckAndUpdate_def Let_def first(3) mget_def split: prod.splits)
  have s: "hs_world s = 1" "pk_store (hs_tracker s) = pk_store (hs_tracker st0)"
    by (simp_all add: s_def drift_of_def CheckDrift_def Let_def first(2) split: prod.splits)
  obtain r s1 where heal: "Heal blinking_healer ''go'' s = (r, s1)" "\<not> hr_Success r" "hs_world s1 = 2"
      "pk_store (hs_tracker s1) = pk_store (hs_tracker st0)"
    using first(5,6) by (simp add: Heal_def Let_def s not_healed_def blinking_healer_def case_prod_beta)
  have scan: "DetectAndHeal blinking_healer drifted_state = ([r], s1)"
    by (simp add: DetectAndHeal_def first(1) dr heal(1))
  obtain st2 where second: "load_and_capture blinking_healer s1 = (Some ([''go''], ''a''), st2)"
    using first(4) heal(3,4) by (simp add: load_and_capture_def Let_def) (simp add: blinking_healer_def)
  from scan_forgets_failures [OF first(1) scan second] scan heal(2) show ?thesis by simp
qed

end
