(* ===== verification/Css_Selector.thy ===== *)
theory Css_Selector
  imports Go_Prelude
begin

text \<open>
  How \<open>selector_repair_v2.go\<close> of \<open>pkg/domheal\<close> reads a CSS selector and which selectors it derives
  from one: the class, data attribute and id variations, and the XPath expressions. The reader is
  the code's own scanner, not a CSS parser; the round trip below says for which selectors it is one.
\<close>

section \<open>Reading a selector\<close>

text \<open>The positions at which the tag name ends, and those at which a class name ends.\<close>

definition tag_end :: "char \<Rightarrow> bool" where
  "tag_end c \<longleftrightarrow> c \<in> set ''.#[ :''"

definition class_end :: "char \<Rightarrow> bool" where
  "class_end c \<longleftrightarrow> c \<in> set '' #[:>+~''"

definition part_class :: "string \<Rightarrow> string \<Rightarrow> string list" where
  "part_class tag part =
     (let cls = takeWhile (\<lambda>c. \<not> class_end c) (trim_space part) in
      if cls \<noteq> [] \<and> cls \<noteq> tag then [cls] else [])"

definition class_names :: "string \<Rightarrow> string \<Rightarrow> string list" where
  "class_names tag sel = concat (map (part_class tag) (split_on CHR ''.'' sel))"

definition first_part :: "char \<Rightarrow> string \<Rightarrow> string" where
  "first_part d s = takeWhile (\<lambda>c. c \<noteq> d) s"

definition after :: "char \<Rightarrow> string \<Rightarrow> string" where
  "after d s = drop 1 (dropWhile (\<lambda>c. c \<noteq> d) s)"

lemma css_split_nonempty [simp]: "split_on d s \<noteq> []"
  by (cases s) (auto split: list.splits)

lemma first_part_split: "first_part d s = hd (split_on d s)"
  by (induction s) (auto simp: first_part_def css_split_nonempty split: list.splits)

lemma after_shorter: "d \<in> set s \<Longrightarrow> length (after d s) < length s"
  using length_dropWhile_le [of "\<lambda>c. c \<noteq> d" s] by (cases s) (auto simp: after_def)

lemma after_le: "length (after d s) \<le> length s"
  using length_dropWhile_le [of "\<lambda>c. c \<noteq> d" s] by (simp add: after_def)

function attr_names :: "string \<Rightarrow> string list" where
  "attr_names sel =
     (if CHR ''['' \<notin> set sel then []
      else let s = after CHR ''['' sel in
        if CHR '']'' \<notin> set s then []
        else trim_space (first_part CHR ''='' (first_part CHR '']'' s)) # attr_names (after CHR '']'' s))"
  by pat_completeness auto
termination
  by (relation "measure length") (auto intro: le_less_trans [OF after_le after_shorter])

declare attr_names.simps [simp del]

definition parseCSSSelector :: "string \<Rightarrow> string \<times> string list \<times> string list" where
  "parseCSSSelector sel =
     (let sel = trim_space sel;
          tag = takeWhile (\<lambda>c. \<not> tag_end c) sel;
          rest = dropWhile (\<lambda>c. \<not> tag_end c) sel
      in if sel = [] then ([], [], [])
         else if rest = [] then (sel, [], [])
         else (tag, class_names tag rest, attr_names rest))"

section \<open>Derived selectors\<close>

abbreviation sq :: string where "sq \<equiv> [CHR 0x27]"
abbreviation dq :: string where "dq \<equiv> [CHR 0x22]"

definition class_partial :: "string \<Rightarrow> string list" where
  "class_partial original =
     concat (map (\<lambda>cls. (''.'' @ cls) #
         (let parts = split_on CHR ''-'' cls in
          if 1 < length parts
          then [''[class*='' @ sq @ hd parts @ sq @ '']'', ''[class*='' @ sq @ last parts @ sq @ '']'']
          else []))
       (fst (snd (parseCSSSelector original))))"

definition data_attribute :: "string \<Rightarrow> string list" where
  "data_attribute original =
     map (\<lambda>attr. ''['' @ attr @ '']'') (filter (prefix ''data-'') (snd (snd (parseCSSSelector original))))"

definition id_variation :: "string \<Rightarrow> string list" where
  "id_variation original =
     (if CHR ''#'' \<notin> set original then []
      else let id = first_part CHR ''.'' (first_part CHR '' '' (after CHR ''#'' original)) in
        [''#'' @ id, ''[id='' @ sq @ id @ sq @ '']'', ''[id*='' @ sq @ id @ sq @ '']''])"

record css_alternation =
  alt_Name :: string
  alt_Generate :: "string \<Rightarrow> string list"

definition defaultCSSAlternations :: "css_alternation list" where
  "defaultCSSAlternations =
     [\<lparr>alt_Name = ''class_partial'', alt_Generate = class_partial\<rparr>,
      \<lparr>alt_Name = ''data_attribute'', alt_Generate = data_attribute\<rparr>,
      \<lparr>alt_Name = ''id_variation'', alt_Generate = id_variation\<rparr>]"

definition generateCSSVariants :: "css_alternation list \<Rightarrow> string \<Rightarrow> string list" where
  "generateCSSVariants alternations original = concat (map (\<lambda>alt. alt_Generate alt original) alternations)"

definition with_class :: "string \<Rightarrow> string \<Rightarrow> string" where
  "with_class tag cls = ''//'' @ tag @ ''[contains(@class, '' @ sq @ cls @ sq @ '')]''"

definition generateXPathVariants :: "string \<Rightarrow> string list" where
  "generateXPathVariants cssSelector =
     (let (tag, classes, attrs) = parseCSSSelector cssSelector in
      (if tag \<noteq> [] \<and> classes \<noteq> [] then [with_class tag (hd classes)] else []) @
      (if tag \<noteq> [] then [''//'' @ tag] else []) @
      concat (map (\<lambda>attr. if tag \<noteq> [] then [''//'' @ tag @ ''[@'' @ attr @ '']''] else []) attrs) @
      (if classes \<noteq> [] then [with_class ''*'' (hd classes)] else []))"

section \<open>Reading back what was written\<close>

text \<open>
  A selector made of a tag, classes and attribute tests, as a page author writes one.
\<close>

definition show_attrs :: "(string \<times> string) list \<Rightarrow> string" where
  "show_attrs attrs = concat (map (\<lambda>(a, v). ''['' @ a @ ''='' @ v @ '']'') attrs)"

lemma show_attrs_simps [simp]:
  "show_attrs [] = []" "show_attrs ((a, v) # attrs) = CHR ''['' # a @ CHR ''='' # v @ CHR '']'' # show_attrs attrs"
  "show_attrs (attrs @ attrs') = show_attrs attrs @ show_attrs attrs'"
  by (simp_all add: show_attrs_def)

lemma show_attrs_empty [simp]: "show_attrs attrs = [] \<longleftrightarrow> attrs = []"
  by (cases attrs) auto

definition show_selector :: "string \<Rightarrow> string list \<Rightarrow> (string \<times> string) list \<Rightarrow> string" where
  "show_selector tag classes attrs =
     tag @ concat (map (\<lambda>c. CHR ''.'' # c) classes) @ show_attrs attrs"

definition name_char :: "char \<Rightarrow> bool" where
  "name_char c \<longleftrightarrow> \<not> is_space c \<and> c \<notin> set ''.#[]:>+~=''"

definition css_name :: "string \<Rightarrow> bool" where
  "css_name s \<longleftrightarrow> s \<noteq> [] \<and> (\<forall>c \<in> set s. name_char c)"

definition css_value :: "string \<Rightarrow> bool" where
  "css_value s \<longleftrightarrow> (\<forall>c \<in> set s. c \<notin> set ''.]'')"

lemma trim_id:
  assumes "s = [] \<or> \<not> is_space (hd s) \<and> \<not> is_space (last s)"
  shows "trim_space s = s"
proof (cases "s = []")
  case False
  then have "dropWhile is_space s = s" using assms by (cases s) auto
  moreover have "dropWhile is_space (rev s) = rev s" using False assms by (cases s rule: rev_cases) auto
  ultimately show ?thesis by (simp add: trim_space_def)
qed (simp add: trim_space_def)

lemma trim_name: "css_name s \<Longrightarrow> trim_space s = s"
  by (rule trim_id) (auto simp: css_name_def name_char_def)

lemma ends_no_name: "tag_end c \<or> class_end c \<or> c \<in> set ''.[]='' \<Longrightarrow> \<not> name_char c"
  unfolding tag_end_def class_end_def by (simp, elim disjE) (simp_all add: name_char_def is_space_def)

lemma css_name_chars:
  assumes "css_name s" "c \<in> set s"
  shows "\<not> tag_end c" "\<not> class_end c" "c \<noteq> CHR ''.''" "c \<noteq> CHR ''[''" "c \<noteq> CHR '']''" "c \<noteq> CHR ''=''"
proof -
  have n: "name_char c" using assms unfolding css_name_def by blast
  then show "\<not> tag_end c" "\<not> class_end c" using ends_no_name by blast+
  have "c \<notin> set ''.[]=''" using n ends_no_name by blast
  then show "c \<noteq> CHR ''.''" "c \<noteq> CHR ''[''" "c \<noteq> CHR '']''" "c \<noteq> CHR ''=''" by simp_all
qed

lemma css_split_append:
  "d \<notin> set a \<Longrightarrow> split_on d (a @ d # b) = a # split_on d b"
  by (induction a) (auto split: list.splits)

lemma split_on_none: "d \<notin> set a \<Longrightarrow> split_on d a = [a]"
  by (induction a) auto

lemma takeWhile_stop: "(\<And>c. c \<in> set a \<Longrightarrow> P c) \<Longrightarrow> \<not> P d \<Longrightarrow> takeWhile P (a @ d # b) = a"
  by (simp add: takeWhile_append)

lemma dropWhile_stop: "(\<And>c. c \<in> set a \<Longrightarrow> P c) \<Longrightarrow> \<not> P d \<Longrightarrow> dropWhile P (a @ d # b) = d # b"
  by (simp add: dropWhile_append)


definition attrs_ok :: "(string \<times> string) list \<Rightarrow> bool" where
  "attrs_ok attrs \<longleftrightarrow> (\<forall>av \<in> set attrs. css_name (fst av) \<and> css_value (snd av))"

lemma attrs_ok_simps [simp]:
  "attrs_ok []" "attrs_ok (av # attrs) \<longleftrightarrow> css_name (fst av) \<and> css_value (snd av) \<and> attrs_ok attrs"
  by (simp_all add: attrs_ok_def)

lemma show_attrs_no_dot: "attrs_ok attrs \<Longrightarrow> CHR ''.'' \<notin> set (show_attrs attrs)"
proof (induction attrs)
  case (Cons av attrs)
  then have "CHR ''.'' \<notin> set (fst av)" "CHR ''.'' \<notin> set (snd av)"
    using css_name_chars(3) [of "fst av"] by (auto simp: css_value_def)
  with Cons show ?case by (cases av) simp
qed simp

lemma last_show_attrs: "attrs \<noteq> [] \<Longrightarrow> last (show_attrs attrs) = CHR '']''"
  by (cases attrs rule: rev_cases) (auto split: prod.splits)

lemma show_attrs_cases: "attrs = [] \<or> (\<exists>s. show_attrs attrs = CHR ''['' # s)"
  by (cases attrs) auto

lemma attr_names_show:
  "attrs_ok attrs \<Longrightarrow> CHR ''['' \<notin> set pre \<Longrightarrow>
   attr_names (pre @ show_attrs attrs) = map fst attrs"
proof (induction attrs arbitrary: pre)
  case Nil
  then show ?case by (simp add: attr_names.simps [of pre])
next
  case (Cons av attrs)
  obtain a v where av: "av = (a, v)" by force
  have ok: "css_name a" "css_value v" using Cons.prems(1) by (auto simp: av)
  let ?sel = "pre @ show_attrs (av # attrs)" and ?s = "(a @ ''='' @ v) @ CHR '']'' # show_attrs attrs"
  have sel: "?sel = pre @ CHR ''['' # ?s" by (simp add: av)
  then have start: "CHR ''['' \<in> set ?sel" by (simp only: set_append Un_iff set_simps insert_iff) blast
  have s: "after CHR ''['' ?sel = ?s"
    unfolding sel after_def by (subst dropWhile_stop) (use Cons.prems(2) in auto)
  have no_end: "CHR '']'' \<notin> set (a @ ''='' @ v)" using ok css_name_chars(5) [OF ok(1)] by (auto simp: css_value_def)
  have parts: "first_part CHR '']'' ?s = a @ ''='' @ v" "after CHR '']'' ?s = show_attrs attrs"
    unfolding first_part_def after_def
     apply (rule takeWhile_stop, use no_end in auto) [1]
    by (subst dropWhile_stop, use no_end in auto)
  have "first_part CHR ''='' (a @ ''='' @ v) = a"
    unfolding first_part_def using takeWhile_stop [of a "\<lambda>c. c \<noteq> CHR ''=''" "CHR ''=''" v] css_name_chars(6) [OF ok(1)] by auto
  moreover have "attr_names (show_attrs attrs) = map fst attrs"
    using Cons.IH [of "[]"] Cons.prems(1) by (simp add: av)
  ultimately show ?case
    unfolding attr_names.simps [of ?sel] s Let_def parts using start no_end by (simp add: trim_name ok av)
qed

lemma show_attrs_ends: "attrs \<noteq> [] \<Longrightarrow> \<not> is_space (hd (show_attrs attrs)) \<and> \<not> is_space (last (show_attrs attrs))"
  using show_attrs_cases [of attrs] last_show_attrs [of attrs] by (cases "attrs = []") (auto simp: is_space_def)

lemma css_name_ends: "css_name s \<Longrightarrow> s \<noteq> [] \<and> \<not> is_space (hd s) \<and> \<not> is_space (last s)"
  by (auto simp: css_name_def name_char_def)

lemma trim_show:
  "css_name c \<Longrightarrow> trim_space (c @ show_attrs attrs) = c @ show_attrs attrs" "trim_space (show_attrs attrs) = show_attrs attrs"
  by (cases "attrs = []"; use css_name_ends [of c] show_attrs_ends [of attrs] in \<open>simp add: trim_id last_append\<close>)+

lemma takeWhile_show:
  assumes "\<And>c. c \<in> set s \<Longrightarrow> \<not> class_end c"
  shows "takeWhile (\<lambda>c. \<not> class_end c) (s @ show_attrs attrs) = s"
  using show_attrs_cases [of attrs]
proof
  assume "\<exists>r. show_attrs attrs = CHR ''['' # r"
  then obtain r where "show_attrs attrs = CHR ''['' # r" by blast
  then show ?thesis using takeWhile_stop [of s "\<lambda>c. \<not> class_end c" "CHR ''[''" r] assms by (simp add: class_end_def)
next
  assume "attrs = []"
  then show ?thesis using assms by (simp add: takeWhile_eq_all_conv)
qed

lemma part_class_show:
  "css_name c \<Longrightarrow> c \<noteq> tag \<Longrightarrow> part_class tag (c @ show_attrs attrs) = [c]" "part_class tag (show_attrs attrs) = []"
  using takeWhile_show [of c attrs] takeWhile_show [of "[]" attrs] css_name_chars(2) [of c] css_name_ends [of c]
  by (simp_all add: part_class_def trim_show Let_def)

lemma part_class_name: "css_name c \<Longrightarrow> c \<noteq> tag \<Longrightarrow> part_class tag c = [c]"
  using part_class_show(1) [of c tag "[]"] by simp

lemma class_names_dot: "CHR ''.'' \<notin> set p \<Longrightarrow> class_names tag (p @ CHR ''.'' # s) = part_class tag p @ class_names tag s"
  by (simp add: class_names_def css_split_append)

lemma class_names_last: "CHR ''.'' \<notin> set p \<Longrightarrow> class_names tag p = part_class tag p"
  by (simp add: class_names_def split_on_none)

lemma class_names_show:
  "(\<And>c. c \<in> set classes \<Longrightarrow> css_name c \<and> c \<noteq> tag) \<Longrightarrow> attrs_ok attrs \<Longrightarrow>
   class_names tag (concat (map (\<lambda>c. CHR ''.'' # c) classes) @ show_attrs attrs) = classes"
proof (induction classes)
  case Nil
  then show ?case using part_class_show(2) [of tag attrs] show_attrs_no_dot by (simp add: class_names_last)
next
  case (Cons c classes)
  have c: "css_name c" "c \<noteq> tag" "CHR ''.'' \<notin> set c" using Cons.prems(1) [of c] css_name_chars(3) by auto
  have "part_class tag [] = []" by (simp add: part_class_def trim_space_def)
  with class_names_dot [of "[]" tag]
  have first: "class_names tag (CHR ''.'' # s) = class_names tag s" for s by simp
  show ?case
  proof (cases classes)
    case Nil
    then show ?thesis using c part_class_show(1) [OF c(1,2)] show_attrs_no_dot [OF Cons.prems(2)]
      by (simp add: first class_names_last)
  next
    case (Cons d ds)
    have IH: "class_names tag (concat (map (\<lambda>c. CHR ''.'' # c) classes) @ show_attrs attrs) = classes"
      using Cons.IH Cons.prems by simp
    then have "class_names tag (d @ concat (map (\<lambda>c. CHR ''.'' # c) ds) @ show_attrs attrs) = classes"
      using Cons by (simp add: first)
    then show ?thesis using Cons c by (simp add: first class_names_dot part_class_name)
  qed
qed

text \<open>A selector of a tag, classes and attribute tests is read back exactly.\<close>

theorem selector_read_back:
  assumes "css_name tag" "\<forall>c \<in> set classes. css_name c \<and> c \<noteq> tag" "attrs_ok attrs"
  shows "parseCSSSelector (show_selector tag classes attrs) = (tag, classes, map fst attrs)"
proof -
  define r where "r = concat (map (\<lambda>c. CHR ''.'' # c) classes) @ show_attrs attrs"
  have tag: "tag \<noteq> []" "\<And>c. c \<in> set tag \<Longrightarrow> \<not> tag_end c"
    using assms(1) css_name_chars(1) by (auto simp: css_name_def)
  have sel: "show_selector tag classes attrs = tag @ r" by (simp add: show_selector_def r_def)
  have "r = [] \<or> tag_end (hd r)"
    using show_attrs_cases [of attrs] unfolding r_def by (cases classes) (auto simp: tag_end_def)
  then have split: "takeWhile (\<lambda>c. \<not> tag_end c) (tag @ r) = tag" "dropWhile (\<lambda>c. \<not> tag_end c) (tag @ r) = r"
    using tag(2) by (cases r; simp add: takeWhile_append dropWhile_append)+
  have last_r: "r = [] \<or> \<not> is_space (last r)"
  proof (cases "attrs = []")
    case False
    then show ?thesis using show_attrs_ends [of attrs] by (simp add: r_def last_append)
  next
    case True
    then show ?thesis using assms(2) css_name_ends
      unfolding r_def by (cases classes rule: rev_cases) (auto simp: last_append)
  qed
  have trim: "trim_space (tag @ r) = tag @ r"
    by (rule trim_id) (use css_name_ends [OF assms(1)] last_r in \<open>auto simp: last_append\<close>)
  have parse: "parseCSSSelector (tag @ r) = (if r = [] then (tag, [], []) else (tag, class_names tag r, attr_names r))"
    unfolding parseCSSSelector_def trim Let_def split using tag(1) by (simp only: append_is_Nil_conv append_Nil2 if_False cong: if_cong) auto
  have "\<forall>c \<in> set classes. CHR ''['' \<notin> set c" using assms(2) css_name_chars(4) by blast
  then have "CHR ''['' \<notin> set (concat (map (\<lambda>c. CHR ''.'' # c) classes))" by auto
  then have "attr_names r = map fst attrs" using attr_names_show [OF assms(3)] unfolding r_def by blast
  moreover have "class_names tag r = classes" unfolding r_def using assms(2,3) by (intro class_names_show) auto
  moreover have "r = [] \<Longrightarrow> classes = [] \<and> attrs = []" by (cases classes) (auto simp: r_def)
  ultimately show ?thesis unfolding sel parse by simp
qed

lemma selector_read_back_witness:
  "parseCSSSelector ''button.btn-primary.big[data-test=go][type=submit]'' = (''button'', [''btn-primary'', ''big''], [''data-test'', ''type''])"
proof -
  have "css_name ''button''" "\<forall>c \<in> set [''btn-primary'', ''big'']. css_name c \<and> c \<noteq> ''button''"
    "attrs_ok [(''data-test'', ''go''), (''type'', ''submit'')]"
    by (simp_all add: css_name_def css_value_def name_char_def is_space_def)
  from selector_read_back [OF this] show ?thesis by (simp add: show_selector_def)
qed

text \<open>
  Beyond such selectors the reader is not a parser: a descendant becomes a class, and a dot in an
  attribute value starts one.
\<close>

lemma descendant_read_as_class: "parseCSSSelector ''nav a'' = (''nav'', [''a''], [])"
  by code_simp

lemma dot_in_value_read_as_class: "parseCSSSelector ''img[src=a.png]'' = (''img'', [''png]''], [''src''])"
  by code_simp

end
