(* ===== verification/Float_Near.thy ===== *)
theory Float_Near
  imports Float64
begin

text \<open>
  Error bounds for short computations with doubles: \<open>near e x r\<close> says that the double \<open>x\<close> is
  finite and within \<open>e\<close> of the real value \<open>r\<close>. One rounding of a value up to 128 costs at most
  \<open>2 ^ (-40)\<close>, so a comparison of two computed values with a visible gap comes out as it would
  over the rationals.
\<close>

definition near :: "rat \<Rightarrow> f64 \<Rightarrow> rat \<Rightarrow> bool" where
  "near e x r \<longleftrightarrow> (\<exists>q. x = Fin q \<and> \<bar>q - r\<bar> \<le> e)"

abbreviation ulp :: rat where "ulp \<equiv> 1 / 1099511627776"

lemma rnd_close_pos:
  assumes "0 < r" "r \<le> 128"
  shows "\<bar>rnd r - r\<bar> \<le> ulp"
proof -
  have "flog2 r \<le> flog2 128" using assms by (intro flog2_mono)
  also have "flog2 128 = 7" by code_simp
  finally have "ulp_exp r \<le> - 45" by (simp add: ulp_exp_def)
  then have "pow2 (ulp_exp r) \<le> pow2 (- 45)" by (rule pow2_mono)
  also have "pow2 (- 45) \<le> 2 * ulp" by (simp add: pow2_def)
  finally show ?thesis using rnd_error [OF assms(1)] by linarith
qed

lemma rnd_close:
  assumes "\<bar>r\<bar> \<le> 128"
  shows "\<bar>rnd r - r\<bar> \<le> ulp"
proof -
  consider "r = 0" | "0 < r" | "r < 0" by linarith
  then show ?thesis
  proof cases
    case 3
    then have "\<bar>rnd (- r) - (- r)\<bar> \<le> ulp" using assms by (intro rnd_close_pos) simp_all
    then show ?thesis unfolding rnd_minus by linarith
  qed (use rnd_close_pos [of r] assms in simp_all)
qed

lemma near_rat:
  assumes "\<bar>r - s\<bar> \<le> e" "\<bar>r\<bar> \<le> 128"
  shows "near (e + ulp) (f64_of_rat r) s"
proof -
  have "f64_of_rat r = Fin (rnd r)" using assms(2) by (intro f64_of_rat_Fin) simp
  moreover have "\<bar>rnd r - s\<bar> \<le> e + ulp" using rnd_close [OF assms(2)] assms(1) by linarith
  ultimately show ?thesis by (simp add: near_def)
qed

lemma near_lit: "\<bar>r\<bar> \<le> 128 \<Longrightarrow> near ulp (f64_of_rat r) r"
  using near_rat [of r r 0] by simp

lemma near_Fin [simp]: "near e (Fin q) r \<longleftrightarrow> \<bar>q - r\<bar> \<le> e"
  by (simp add: near_def)

lemma near_mono: "near e x r \<Longrightarrow> e \<le> d \<Longrightarrow> near d x r"
  by (auto simp: near_def)

lemma near_add:
  assumes "near e x a" "near d y b" "\<bar>a + b\<bar> + e + d \<le> 128"
  shows "near (e + d + ulp) (fadd x y) (a + b)"
proof -
  from assms(1,2) obtain p q where "x = Fin p" "y = Fin q" "\<bar>p - a\<bar> \<le> e" "\<bar>q - b\<bar> \<le> d" by (auto simp: near_def)
  then show ?thesis using near_rat [of "p + q" "a + b" "e + d"] assms(3) by auto
qed

lemma near_add_within:
  "near e x a \<Longrightarrow> near d y b \<Longrightarrow> \<bar>a + b\<bar> + e + d \<le> 128 \<Longrightarrow> e + d + ulp \<le> c \<Longrightarrow> near c (fadd x y) (a + b)"
  by (rule near_mono [OF near_add])

lemma mul_error:
  assumes "\<bar>p - a\<bar> \<le> e" "\<bar>q - b\<bar> \<le> d" "\<bar>a\<bar> \<le> A" "\<bar>b\<bar> \<le> B"
  shows "\<bar>p * q - a * b\<bar> \<le> e * (B + d) + A * (d :: rat)"
proof -
  have "p * q - a * b = (p - a) * q + a * (q - b)" by (simp add: algebra_simps)
  also have "\<bar>\<dots>\<bar> \<le> \<bar>p - a\<bar> * \<bar>q\<bar> + \<bar>a\<bar> * \<bar>q - b\<bar>" by (metis abs_mult abs_triangle_ineq)
  also have "\<dots> \<le> e * (B + d) + A * d"
    using assms by (intro add_mono mult_mono) auto
  finally show ?thesis .
qed

lemma near_mul:
  assumes "near e x a" "near d y b" "\<bar>a\<bar> \<le> A" "\<bar>b\<bar> \<le> B" "A * B + e * (B + d) + A * d \<le> 128"
  shows "near (e * (B + d) + A * d + ulp) (fmul x y) (a * b)"
proof -
  from assms(1,2) obtain p q where pq: "x = Fin p" "y = Fin q" "\<bar>p - a\<bar> \<le> e" "\<bar>q - b\<bar> \<le> d" by (auto simp: near_def)
  have err: "\<bar>p * q - a * b\<bar> \<le> e * (B + d) + A * d" using mul_error [OF pq(3,4) assms(3,4)] .
  have "\<bar>a * b\<bar> \<le> A * B" unfolding abs_mult using assms(3,4) by (intro mult_mono) auto
  then have "\<bar>p * q\<bar> \<le> 128" using err assms(5) by linarith
  then show ?thesis using near_rat [OF err] pq by simp
qed

lemma near_div:
  assumes "near e x a" "near d y b" "\<bar>a\<bar> \<le> A" "1 \<le> b" "d \<le> 1 / 2" "A + 2 * (e + A * d) \<le> 128"
  shows "near (2 * (e + A * d) + ulp) (fdiv x y) (a / b)"
proof -
  from assms(1,2) obtain p q where pq: "x = Fin p" "y = Fin q" "\<bar>p - a\<bar> \<le> e" "\<bar>q - b\<bar> \<le> d" by (auto simp: near_def)
  have q: "1 / 2 \<le> q" using pq(4) assms(4,5) by linarith
  have e: "0 \<le> e" "0 \<le> A" "0 \<le> d" using pq(3,4) assms(3) by linarith+
  have "p / q - a / b = ((p - a) + a * (b - q) / b) / q"
    using q assms(4) by (simp add: field_simps)
  also have "\<bar>\<dots>\<bar> = \<bar>(p - a) + a * (b - q) / b\<bar> / q" using q by simp
  also have "\<dots> \<le> (e + A * d) / q"
  proof (rule divide_right_mono)
    have "\<bar>a * (b - q)\<bar> / b \<le> \<bar>a * (b - q)\<bar> / 1" using assms(4) by (intro divide_left_mono) simp_all
    then have "\<bar>a * (b - q) / b\<bar> \<le> \<bar>a\<bar> * \<bar>b - q\<bar>" using assms(4) by (simp add: abs_mult abs_divide)
    also have "\<dots> \<le> A * d" using assms(3) pq(4) e by (intro mult_mono) auto
    finally show "\<bar>(p - a) + a * (b - q) / b\<bar> \<le> e + A * d" using pq(3) by linarith
  qed (use q in simp)
  also have "\<dots> \<le> 2 * (e + A * d)"
  proof -
    have "(e + A * d) * 1 \<le> (e + A * d) * (2 * q)" using e q by (intro mult_left_mono) simp_all
    then show ?thesis using q by (simp add: field_simps)
  qed
  finally have err: "\<bar>p / q - a / b\<bar> \<le> 2 * (e + A * d)" .
  have "\<bar>a\<bar> / b \<le> \<bar>a\<bar> / 1" using assms(4) by (intro divide_left_mono) simp_all
  then have "\<bar>a / b\<bar> \<le> A" using assms(3,4) by (simp add: abs_divide)
  then have "\<bar>p / q\<bar> \<le> 128" using err assms(6) by linarith
  then show ?thesis using near_rat [OF err] pq q by simp
qed

lemma near_fle: "near e x a \<Longrightarrow> near d y b \<Longrightarrow> a + e + d \<le> b \<Longrightarrow> fle x y"
  by (auto simp: near_def)

lemma near_flt: "near e x a \<Longrightarrow> near d y b \<Longrightarrow> a + e + d < b \<Longrightarrow> flt x y"
  by (auto simp: near_def)

lemma flt_not_fle: "flt x y \<Longrightarrow> \<not> fle y x"
  by (simp add: flt_def)

lemma ten: "flit 10 = Fin 10"
  using f_of_int_exact [of 10] by (simp add: f_of_int_def)

lemma zero_f: "flit 0 = Fin 0"
  using f_of_int_exact [of 0] by (simp add: f_of_int_def)

lemma near_lit_unit: "0 \<le> r \<Longrightarrow> r \<le> 1 \<Longrightarrow> near ulp (flit r) r"
  by (rule near_lit) simp

lemma tenth: "0 \<le> r \<Longrightarrow> r \<le> 1 \<Longrightarrow> near (1 / 2 ^ 36) (fmul (Fin 10) (flit r)) (10 * r)"
  by (rule near_mono [OF near_mul [of 0 "Fin 10" 10 ulp "flit r" r 10 1]]) (simp_all add: near_lit_unit)

lemma sum_close:
  "near e x a \<Longrightarrow> near (1 / 2 ^ 32) y b \<Longrightarrow> 0 \<le> a \<Longrightarrow> a + b \<le> 20 \<Longrightarrow> 0 \<le> b \<Longrightarrow> e \<le> 1 \<Longrightarrow> near (e + 1 / 2 ^ 31) (fadd x y) (a + b)"
  by (rule near_add_within) auto

text \<open>A sum of terms, from left to right.\<close>

lemma near_sum:
  assumes "list_all2 (near (1 / 2 ^ 32)) xs as" "\<forall>a \<in> set as. 0 \<le> a" "sum_list as \<le> 20" "length xs \<le> 16"
  shows "near (of_nat (length xs) / 2 ^ 31) (foldl fadd (Fin 0) xs) (sum_list as)"
  using assms
proof (induction xs arbitrary: as rule: rev_induct)
  case (snoc x xs)
  from snoc.prems(1) obtain bs b where as: "as = bs @ [b]" "list_all2 (near (1 / 2 ^ 32)) xs bs" "near (1 / 2 ^ 32) x b"
    by (auto simp: list_all2_append1 list_all2_Cons1)
  have b: "0 \<le> b" "\<forall>a \<in> set bs. 0 \<le> a" using snoc.prems(2) as by auto
  have s: "0 \<le> sum_list bs" using b by (intro sum_list_nonneg) auto
  have IH: "near (of_nat (length xs) / 2 ^ 31) (foldl fadd (Fin 0) xs) (sum_list bs)"
    using snoc.IH [OF as(2)] b s snoc.prems as by simp
  have l: "of_nat (length xs) \<le> (16 :: rat)" using snoc.prems(4) by simp
  have "near (of_nat (length xs) / 2 ^ 31 + 1 / 2 ^ 31) (fadd (foldl fadd (Fin 0) xs) x) (sum_list bs + b)"
    by (rule sum_close [OF IH as(3) s _ b(1)]) (use snoc.prems(3) as l in auto)
  then show ?case by (simp add: as add_divide_distrib add.commute)
qed simp

end
