(* ===== verification/Selector_Repair.thy ===== *)
theory Selector_Repair
  imports Css_Selector Dom_Store Float_Near
begin

text \<open>
  The repair engine of \<open>selector_repair_v2.go\<close> of \<open>pkg/domheal\<close>: a broken selector goes through a
  chain of strategies, every candidate is tried on the page, and a vision model is asked when no
  candidate is good enough. The page (\<open>evaluator\<close>) and the vision model are parameters over a world
  \<open>'w\<close>, and so is the order in which Go visits the two tables of candidates. The Prometheus
  counters and the log lines are left out.
\<close>

section \<open>Data\<close>

datatype repair_strategy = StrategyCSS | StrategyXPath | StrategyARIA | StrategyTextContent | StrategyVLM

definition strategy_name :: "repair_strategy \<Rightarrow> string" where
  "strategy_name s = (case s of StrategyCSS \<Rightarrow> ''css'' | StrategyXPath \<Rightarrow> ''xpath'' | StrategyARIA \<Rightarrow> ''aria''
     | StrategyTextContent \<Rightarrow> ''text_content'' | StrategyVLM \<Rightarrow> ''vlm'')"

record repair_candidate =
  rc_Selector :: string
  rc_Strategy :: repair_strategy
  rc_Confidence :: f64
  rc_MatchCount :: int

record repair_result =
  rr_OriginalSelector :: string
  rr_BestCandidate :: "repair_candidate option"
  rr_Candidates :: "repair_candidate list"
  rr_StrategiesTried :: int
  rr_Duration :: duration
  rr_Repaired :: bool

type_synonym 'w selector_evaluator = "string \<Rightarrow> 'w \<Rightarrow> (string + int) \<times> 'w"
type_synonym 'w vlm_generator = "string \<Rightarrow> 'w \<Rightarrow> (string + string list) \<times> 'w"

record 'w selector_repair =
  sr_repairLog :: "repair_log option"
  sr_vlmGen :: "'w vlm_generator option"
  sr_cssAlternations :: "css_alternation list"
  sr_repairHist :: "(string, repair_result) gomap"

definition NewSelectorRepairV2 :: "repair_log option \<Rightarrow> 'w selector_repair" where
  "NewSelectorRepairV2 repairLog = \<lparr>sr_repairLog = repairLog, sr_vlmGen = None,
     sr_cssAlternations = defaultCSSAlternations, sr_repairHist = []\<rparr>"

definition WithVLM :: "'w vlm_generator \<Rightarrow> 'w selector_repair \<Rightarrow> 'w selector_repair" where
  "WithVLM gen sr = sr\<lparr>sr_vlmGen := Some gen\<rparr>"

section \<open>Confidence\<close>

definition strategy_base :: "repair_strategy \<Rightarrow> f64" where
  "strategy_base s = (case s of StrategyCSS \<Rightarrow> flit (95 / 100) | StrategyXPath \<Rightarrow> flit (85 / 100) | StrategyARIA \<Rightarrow> flit (80 / 100)
     | StrategyTextContent \<Rightarrow> flit (70 / 100) | StrategyVLM \<Rightarrow> flit (60 / 100))"

definition minFloat64 :: "f64 \<Rightarrow> f64 \<Rightarrow> f64" where
  "minFloat64 a b = (if flt a b then a else b)"

definition strategyConfidence :: "repair_strategy \<Rightarrow> int \<Rightarrow> f64" where
  "strategyConfidence strategy matchCount =
     (let conf = strategy_base strategy;
          conf = (if 10 < matchCount then fmul conf (flit (8 / 10))
                  else if 5 < matchCount then fmul conf (flit (9 / 10)) else conf)
      in if matchCount = 1 then minFloat64 (fmul conf (flit (105 / 100))) (flit 1) else conf)"

section \<open>Candidates by element type\<close>

definition role :: "string \<Rightarrow> string" where
  "role r = ''[role='' @ sq @ r @ sq @ '']''"

definition attr_test :: "string \<Rightarrow> string \<Rightarrow> string" where
  "attr_test a v = ''['' @ a @ ''='' @ sq @ v @ sq @ '']''"

definition href_with :: "string \<Rightarrow> string" where
  "href_with v = ''a[href*='' @ sq @ v @ sq @ '']''"

definition ariaMap :: "(string, string list) gomap" where
  "ariaMap =
     [(''navigation'', [role ''navigation'', ''nav'', attr_test ''aria-label'' ''navigation'']),
      (''main_content'', [role ''main'', ''main'', ''#main-content'', attr_test ''aria-label'' ''main content'']),
      (''sidebar'', [role ''complementary'', ''aside'', attr_test ''aria-label'' ''sidebar'']),
      (''search'', [role ''search'', attr_test ''type'' ''search'', attr_test ''aria-label'' ''search'']),
      (''heading'', [role ''heading'', ''h1, h2, h3'', ''[aria-level]'']),
      (''button'', [role ''button'', ''button'', attr_test ''type'' ''submit'']),
      (''link'', [role ''link'', ''a[href]'']),
      (''form'', [role ''form'', ''form'']),
      (''list'', [role ''list'', ''ul, ol'']),
      (''listitem'', [role ''listitem'', ''li'']),
      (''table'', [role ''table'', ''table'']),
      (''dialog'', [role ''dialog'', role ''alertdialog'']),
      (''menu'', [role ''menu'', role ''menubar'']),
      (''tab'', [role ''tab'', role ''tablist'']),
      (''content_links'', [href_with ''content'', href_with ''module'', ''a.d2l-link'']),
      (''module_list'', [''.d2l-content-list'', attr_test ''data-key'' ''content'', ''.d2l-le-content'']),
      (''grade_table'', [role ''grid'', role ''table'', ''table'', ''.d2l-grades-grid'', attr_test ''aria-label'' ''Grades'']),
      (''submit_button'', [role ''button'', ''button'' @ attr_test ''type'' ''submit'', attr_test ''data-action'' ''submit'', ''button'']),
      (''assignment'', [role ''article'', ''article'', ''.d2l-card'', attr_test ''data-type'' ''assignment'']),
      (''course_nav'', [role ''navigation'', ''nav'', ''.d2l-nav'', attr_test ''aria-label*'' ''course'']),
      (''file_upload'', [attr_test ''type'' ''file'', role ''button'', attr_test ''data-action'' ''upload'']),
      (''discussion_post'', [role ''article'', ''article'', ''.d2l-discussion'', attr_test ''data-type'' ''post'']),
      (''calendar_event'', [role ''listitem'', ''li'', ''.d2l-calendar-event'', attr_test ''data-type'' ''event'']),
      (''announcement'', [role ''article'', ''article'', ''.d2l-announcement'', attr_test ''data-type'' ''announcement''])]"

text \<open>
  \<open>visit\<close> is the order in which Go hands out the keys of a map. The sort by length is not stable, so
  the order among keys of one length is part of that choice.
\<close>

definition spaced :: "string \<Rightarrow> string" where
  "spaced s = map (\<lambda>c. if c = CHR ''_'' then CHR '' '' else c) s"

definition longest_first :: "string list \<Rightarrow> string list" where
  "longest_first ks = sort_key (\<lambda>k. - int (length k)) ks"

definition aria_fits :: "string \<Rightarrow> string \<Rightarrow> bool" where
  "aria_fits wanted key \<longleftrightarrow>
     contains wanted key \<or> contains key wanted \<or>
     contains (spaced wanted) (spaced key) \<or> contains (spaced key) (spaced wanted)"

definition generateARIACandidates :: "(string list \<Rightarrow> string list) \<Rightarrow> string \<Rightarrow> string list" where
  "generateARIACandidates visit elementType =
     (let wanted = to_lower elementType in
      case mget ariaMap wanted of
        Some selectors \<Rightarrow> selectors
      | None \<Rightarrow>
          (case find (aria_fits wanted) (longest_first (visit (map fst ariaMap))) of
             None \<Rightarrow> []
           | Some key \<Rightarrow> mget_or [] ariaMap key))"

definition has_text :: "string \<Rightarrow> string \<Rightarrow> string" where
  "has_text tag txt = tag @ '':has-text('' @ dq @ txt @ dq @ '')''"

definition type_submit :: string where
  "type_submit = ''[type='' @ dq @ ''submit'' @ dq @ '']''"

definition textMap :: "(string, string list) gomap" where
  "textMap =
     [(''login_button'', [has_text ''button'' ''Sign In'', has_text ''button'' ''Log In'', type_submit]),
      (''submit'', [has_text ''button'' ''Submit'', type_submit]),
      (''submit_button'', [has_text ''button'' ''Submit'', has_text ''button'' ''Save'', type_submit]),
      (''content_links'', [has_text ''a'' ''Content'', has_text ''a'' ''Module'']),
      (''assignment_link'', [has_text ''a'' ''Assignment'', has_text ''a'' ''Submission'']),
      (''quiz_link'', [has_text ''a'' ''Quiz'', has_text ''a'' ''Test'']),
      (''grades_link'', [has_text ''a'' ''Grades'', has_text ''a'' ''Grade'']),
      (''discussion_post'', [has_text ''a'' ''Discussion'', has_text ''a'' ''Forum'']),
      (''announcement'', [has_text ''a'' ''Announcement'', has_text ''div'' ''Important'']),
      (''file_upload'', [has_text ''button'' ''Upload'', has_text ''button'' ''Browse'']),
      (''calendar_event'', [has_text ''a'' ''Event'', has_text ''a'' ''Due'']),
      (''course_nav'', [has_text ''a'' ''Course'', has_text ''nav'' ''Modules''])]"

definition generateTextContentCandidates :: "(string list \<Rightarrow> string list) \<Rightarrow> string \<Rightarrow> string list" where
  "generateTextContentCandidates visit elementType =
     (let wanted = to_lower elementType in
      case find (\<lambda>key. contains wanted key \<or> contains key wanted) (visit (map fst textMap)) of
        None \<Rightarrow> []
      | Some key \<Rightarrow> mget_or [] textMap key)"

section \<open>The repair\<close>

record 'w repair_env =
  re_now :: "'w \<Rightarrow> time"
  re_aria_order :: "'w \<Rightarrow> string list \<Rightarrow> string list"
  re_text_order :: "'w \<Rightarrow> string list \<Rightarrow> string list"

definition add_match :: "repair_strategy \<Rightarrow> string \<Rightarrow> int \<Rightarrow> repair_result \<Rightarrow> repair_result" where
  "add_match strategy candidate n result =
     (let rc = \<lparr>rc_Selector = candidate, rc_Strategy = strategy, rc_Confidence = strategyConfidence strategy n,
            rc_MatchCount = n\<rparr>;
          result = result\<lparr>rr_Candidates := rr_Candidates result @ [rc]\<rparr>
      in case rr_BestCandidate result of
           None \<Rightarrow> result\<lparr>rr_BestCandidate := Some rc\<rparr>
         | Some best \<Rightarrow> if flt (rc_Confidence best) (rc_Confidence rc) then result\<lparr>rr_BestCandidate := Some rc\<rparr> else result)"

primrec try_candidates :: "'w selector_evaluator \<Rightarrow> repair_strategy \<Rightarrow> string list \<Rightarrow> repair_result \<Rightarrow> 'w \<Rightarrow> repair_result \<times> 'w" where
  "try_candidates ev s [] result w = (result, w)"
| "try_candidates ev s (c # cs) result w =
     (case ev c w of
        (Inl err, w) \<Rightarrow> try_candidates ev s cs result w
      | (Inr n, w) \<Rightarrow> try_candidates ev s cs (if 0 < n then add_match s c n result else result) w)"

definition confident :: "repair_result \<Rightarrow> bool" where
  "confident result =
     (case rr_BestCandidate result of None \<Rightarrow> False | Some best \<Rightarrow> fle (flit (8 / 10)) (rc_Confidence best))"

primrec run_strategies :: "'w selector_evaluator \<Rightarrow> (repair_strategy \<times> ('w \<Rightarrow> string list)) list \<Rightarrow> repair_result \<Rightarrow> 'w \<Rightarrow>
    repair_result \<times> 'w" where
  "run_strategies ev [] result w = (result, w)"
| "run_strategies ev (sg # strategies) result w =
     (let (result, w) = try_candidates ev (fst sg) (snd sg w) (result\<lparr>rr_StrategiesTried := rr_StrategiesTried result + 1\<rparr>) w in
      if confident result then (result, w) else run_strategies ev strategies result w)"

definition strategies_for :: "'w repair_env \<Rightarrow> 'w selector_repair \<Rightarrow> string \<Rightarrow> string \<Rightarrow> (repair_strategy \<times> ('w \<Rightarrow> string list)) list" where
  "strategies_for env sr elementType broken =
     [(StrategyCSS, \<lambda>w. generateCSSVariants (sr_cssAlternations sr) broken),
      (StrategyXPath, \<lambda>w. generateXPathVariants broken),
      (StrategyARIA, \<lambda>w. generateARIACandidates (re_aria_order env w) elementType),
      (StrategyTextContent, \<lambda>w. generateTextContentCandidates (re_text_order env w) elementType)]"

definition ask_vlm :: "'w selector_repair \<Rightarrow> 'w selector_evaluator \<Rightarrow> string \<Rightarrow> repair_result \<Rightarrow> 'w \<Rightarrow> repair_result \<times> 'w" where
  "ask_vlm sr ev elementType result w =
     (case sr_vlmGen sr of
        None \<Rightarrow> (result, w)
      | Some gen \<Rightarrow>
          if confident result then (result, w)
          else let result = result\<lparr>rr_StrategiesTried := rr_StrategiesTried result + 1\<rparr> in
            (case gen elementType w of
               (Inl err, w) \<Rightarrow> (result, w)
             | (Inr selectors, w) \<Rightarrow> try_candidates ev StrategyVLM selectors result w))"

definition logRepairSuggestion :: "(repair_suggestion list \<Rightarrow> 'd) \<Rightarrow> ('d \<Rightarrow> string option \<times> repair_suggestion list) \<Rightarrow> 'w selector_repair \<Rightarrow>
    string \<Rightarrow> string \<Rightarrow> repair_candidate \<Rightarrow> 'd disk \<Rightarrow> 'd disk" where
  "logRepairSuggestion enc dec sr elementType broken candidate disk =
     (case sr_repairLog sr of
        None \<Rightarrow> disk
      | Some path \<Rightarrow> snd (rl_Append enc dec path
          \<lparr>rs_ElementType = elementType, rs_OldSelector = broken, rs_NewSelector = rc_Selector candidate,
           rs_Confidence = rc_Confidence candidate, rs_Method = strategy_name (rc_Strategy candidate)\<rparr> disk))"

definition blank_repair :: "string \<Rightarrow> repair_result" where
  "blank_repair broken = \<lparr>rr_OriginalSelector = broken, rr_BestCandidate = None, rr_Candidates = [], rr_StrategiesTried = 0,
     rr_Duration = 0, rr_Repaired = False\<rparr>"

definition Repair :: "(repair_suggestion list \<Rightarrow> 'd) \<Rightarrow> ('d \<Rightarrow> string option \<times> repair_suggestion list) \<Rightarrow> 'w repair_env \<Rightarrow>
    string \<Rightarrow> string \<Rightarrow> 'w selector_evaluator \<Rightarrow> 'w selector_repair \<Rightarrow> 'd disk \<Rightarrow> 'w \<Rightarrow>
    repair_result \<times> 'w selector_repair \<times> 'd disk \<times> 'w" where
  "Repair enc dec env elementType broken ev sr disk w =
     (let start = re_now env w;
          (result, w) = run_strategies ev (strategies_for env sr elementType broken) (blank_repair broken) w;
          (result, w) = ask_vlm sr ev elementType result w;
          result = result\<lparr>rr_Duration := time_sub (re_now env w) start, rr_Repaired := rr_BestCandidate result \<noteq> None\<rparr>;
          disk = (case rr_BestCandidate result of None \<Rightarrow> disk
                  | Some best \<Rightarrow> logRepairSuggestion enc dec sr elementType broken best disk)
      in (result, sr\<lparr>sr_repairHist := mset_at (sr_repairHist sr) (elementType @ '':'' @ broken) result\<rparr>, disk, w))"

definition RepairHistory :: "'w selector_repair \<Rightarrow> (string, repair_result) gomap" where
  "RepairHistory sr = sr_repairHist sr"

section \<open>Confidence levels\<close>

text \<open>How many matches a candidate may have for its strategy to end the search.\<close>

definition sure_count :: "repair_strategy \<Rightarrow> int" where
  "sure_count s = (case s of StrategyCSS \<Rightarrow> 10 | StrategyXPath \<Rightarrow> 5 | StrategyARIA \<Rightarrow> 5 | _ \<Rightarrow> 0)"

definition base_of :: "repair_strategy \<Rightarrow> rat" where
  "base_of s = (case s of StrategyCSS \<Rightarrow> 95 / 100 | StrategyXPath \<Rightarrow> 85 / 100 | StrategyARIA \<Rightarrow> 80 / 100
     | StrategyTextContent \<Rightarrow> 70 / 100 | StrategyVLM \<Rightarrow> 60 / 100)"

lemma strategy_base: "strategy_base s = flit (base_of s)"
  by (cases s) (simp_all add: strategy_base_def base_of_def)

lemma base_times:
  assumes "0 \<le> r" "r \<le> 2"
  shows "near (1 / 2 ^ 30) (fmul (strategy_base s) (flit r)) (base_of s * r)"
proof -
  have b: "\<bar>base_of s\<bar> \<le> 1" by (cases s) (simp_all add: base_of_def)
  then have "near ulp (strategy_base s) (base_of s)" "near ulp (flit r) r"
    using assms by (auto simp: strategy_base intro!: near_lit)
  from near_mul [OF this b, of 2] assms show ?thesis by (auto intro: near_mono)
qed

lemma near_unit:
  assumes "near (1 / 2 ^ 30) x a" "1 / 2 ^ 30 \<le> a" "a + 1 / 2 ^ 30 \<le> 1"
  shows "unit_f x"
proof -
  from assms(1) obtain q where q: "x = Fin q" "\<bar>q - a\<bar> \<le> 1 / 2 ^ 30" unfolding near_def by blast
  then have "0 \<le> q" "q \<le> 1" using assms(2,3) by linarith+
  then show ?thesis unfolding q(1) in_range_Fin by blast
qed

lemma near_08: "near (1 / 2 ^ 30) (flit (8 / 10)) (8 / 10)"
  by (rule near_mono [OF near_lit]) simp_all

lemma near_sure:
  assumes "near (1 / 2 ^ 30) x a"
  shows "8 / 10 + 1 / 2 ^ 20 \<le> a \<Longrightarrow> fle (flit (8 / 10)) x" "a + 1 / 2 ^ 20 \<le> 8 / 10 \<Longrightarrow> \<not> fle (flit (8 / 10)) x"
   apply (rule near_fle [OF near_08 assms], simp)
  by (rule flt_not_fle, rule near_flt [OF assms near_08], simp)

text \<open>The confidences that a repair compares, level by level.\<close>

lemma confidence_many:
  assumes "10 < n"
  shows "\<not> fle (flit (8 / 10)) (strategyConfidence s n)" "unit_f (strategyConfidence s n)"
proof -
  have c: "strategyConfidence s n = fmul (strategy_base s) (flit (8 / 10))"
    using assms by (simp add: strategyConfidence_def Let_def)
  have n: "near (1 / 2 ^ 30) (fmul (strategy_base s) (flit (8 / 10))) (base_of s * (8 / 10))" by (rule base_times) simp_all
  show "unit_f (strategyConfidence s n)" unfolding c by (rule near_unit [OF n]) (cases s; simp add: base_of_def)+
  show "\<not> fle (flit (8 / 10)) (strategyConfidence s n)"
    unfolding c by (rule near_sure(2) [OF n]) (cases s; simp add: base_of_def)
qed

lemma confidence_some:
  assumes "5 < n" "n \<le> 10"
  shows "fle (flit (8 / 10)) (strategyConfidence s n) \<longleftrightarrow> s = StrategyCSS" "unit_f (strategyConfidence s n)"
proof -
  have c: "strategyConfidence s n = fmul (strategy_base s) (flit (9 / 10))"
    using assms by (simp add: strategyConfidence_def Let_def)
  have n: "near (1 / 2 ^ 30) (fmul (strategy_base s) (flit (9 / 10))) (base_of s * (9 / 10))" by (rule base_times) simp_all
  show "unit_f (strategyConfidence s n)" unfolding c by (rule near_unit [OF n]) (cases s; simp add: base_of_def)+
  show "fle (flit (8 / 10)) (strategyConfidence s n) \<longleftrightarrow> s = StrategyCSS"
    unfolding c using near_sure [OF n] by (cases s) (simp_all add: base_of_def)
qed

lemma confidence_few:
  assumes "1 < n" "n \<le> 5"
  shows "fle (flit (8 / 10)) (strategyConfidence s n) \<longleftrightarrow> s \<in> {StrategyCSS, StrategyXPath, StrategyARIA}"
    "unit_f (strategyConfidence s n)"
proof -
  have c: "strategyConfidence s n = flit (base_of s)"
    using assms by (simp add: strategyConfidence_def Let_def strategy_base)
  have n: "near (1 / 2 ^ 30) (flit (base_of s)) (base_of s)"
    by (rule near_mono [OF near_lit]) (cases s; simp add: base_of_def)+
  show "unit_f (strategyConfidence s n)" unfolding c by (rule near_unit [OF n]) (cases s; simp add: base_of_def)+
  show "fle (flit (8 / 10)) (strategyConfidence s n) \<longleftrightarrow> s \<in> {StrategyCSS, StrategyXPath, StrategyARIA}"
  proof (cases "s = StrategyARIA")
    case True
    obtain q where "flit (8 / 10) = Fin q" using near_08 by (auto simp: near_def)
    then show ?thesis unfolding c using True by (simp add: base_of_def)
  next
    case False
    then show ?thesis unfolding c using near_sure [OF n] by (cases s) (simp_all add: base_of_def)
  qed
qed

lemma confidence_one:
  shows "fle (flit (8 / 10)) (strategyConfidence s 1) \<longleftrightarrow> s \<in> {StrategyCSS, StrategyXPath, StrategyARIA}"
    "unit_f (strategyConfidence s 1)"
proof -
  have n: "near (1 / 2 ^ 30) (fmul (strategy_base s) (flit (105 / 100))) (base_of s * (105 / 100))" by (rule base_times) simp_all
  have "near (1 / 2 ^ 30) (flit 1) 1" by (rule near_mono [OF near_lit]) simp_all
  with n have "flt (fmul (strategy_base s) (flit (105 / 100))) (flit 1)"
    by (rule near_flt) (cases s; simp add: base_of_def)
  then have c: "strategyConfidence s 1 = fmul (strategy_base s) (flit (105 / 100))"
    by (simp add: strategyConfidence_def Let_def minFloat64_def)
  show "unit_f (strategyConfidence s 1)" unfolding c by (rule near_unit [OF n]) (cases s; simp add: base_of_def)+
  show "fle (flit (8 / 10)) (strategyConfidence s 1) \<longleftrightarrow> s \<in> {StrategyCSS, StrategyXPath, StrategyARIA}"
    unfolding c using near_sure [OF n] by (cases s) (simp_all add: base_of_def)
qed

lemma count_levels: "1 \<le> (n :: int) \<Longrightarrow> n = 1 \<or> 1 < n \<and> n \<le> 5 \<or> 5 < n \<and> n \<le> 10 \<or> 10 < n"
  by linarith

lemma confidence_sure: "1 \<le> n \<Longrightarrow> fle (flit (8 / 10)) (strategyConfidence s n) \<longleftrightarrow> n \<le> sure_count s"
  using count_levels [of n] confidence_one(1) confidence_few(1) confidence_some(1) confidence_many(1)
  by (cases s) (auto simp: sure_count_def)

lemma confidence_unit: "1 \<le> n \<Longrightarrow> unit_f (strategyConfidence s n)"
  using count_levels [of n] confidence_one(2) confidence_few(2) confidence_some(2) confidence_many(2) by auto

section \<open>What a repair answers\<close>

text \<open>Every candidate carries the confidence of its strategy, and the best one is the first of the largest confidence.\<close>

definition candidate_ok :: "repair_candidate \<Rightarrow> bool" where
  "candidate_ok c \<longleftrightarrow> 1 \<le> rc_MatchCount c \<and> rc_Confidence c = strategyConfidence (rc_Strategy c) (rc_MatchCount c)"

definition first_largest :: "repair_candidate \<Rightarrow> repair_candidate list \<Rightarrow> bool" where
  "first_largest b cs \<longleftrightarrow> (\<exists>before after. cs = before @ b # after \<and>
     (\<forall>c \<in> set before. flt (rc_Confidence c) (rc_Confidence b)) \<and> (\<forall>c \<in> set after. fle (rc_Confidence c) (rc_Confidence b)))"

definition best_ok :: "repair_result \<Rightarrow> bool" where
  "best_ok r \<longleftrightarrow> (\<forall>c \<in> set (rr_Candidates r). candidate_ok c) \<and>
     (case rr_BestCandidate r of None \<Rightarrow> rr_Candidates r = [] | Some b \<Rightarrow> first_largest b (rr_Candidates r))"

lemma candidate_unit: "candidate_ok c \<Longrightarrow> unit_f (rc_Confidence c)"
  by (simp add: candidate_ok_def confidence_unit)

lemma first_largest_one [simp]: "first_largest b [b]"
  unfolding first_largest_def by (intro exI [of _ "[]"]) simp

lemma first_largest_in: "first_largest b cs \<Longrightarrow> b \<in> set cs"
  by (auto simp: first_largest_def)

lemma first_largest_keep:
  assumes "first_largest b cs" "fle (rc_Confidence c) (rc_Confidence b)"
  shows "first_largest b (cs @ [c])"
proof -
  from assms(1) obtain before after where "cs = before @ b # after"
    "\<forall>c \<in> set before. flt (rc_Confidence c) (rc_Confidence b)" "\<forall>c \<in> set after. fle (rc_Confidence c) (rc_Confidence b)"
    unfolding first_largest_def by blast
  with assms(2) show ?thesis unfolding first_largest_def by (intro exI [of _ before] exI [of _ "after @ [c]"]) auto
qed

lemma unit_flt_trans: "unit_f x \<Longrightarrow> unit_f y \<Longrightarrow> unit_f z \<Longrightarrow> flt y z \<Longrightarrow> flt x y \<or> fle x y \<Longrightarrow> flt x z"
  by (auto elim!: in_range_cases)

lemma first_largest_new:
  assumes "first_largest b cs" "\<forall>c \<in> set cs. unit_f (rc_Confidence c)" "unit_f (rc_Confidence c)" "flt (rc_Confidence b) (rc_Confidence c)"
  shows "first_largest c (cs @ [c])"
proof -
  from assms(1) obtain before after where cs: "cs = before @ b # after"
    "\<forall>c \<in> set before. flt (rc_Confidence c) (rc_Confidence b)" "\<forall>c \<in> set after. fle (rc_Confidence c) (rc_Confidence b)"
    unfolding first_largest_def by blast
  have "flt (rc_Confidence x) (rc_Confidence c)" if "x \<in> set cs" for x
    using that cs assms(2-4) unit_flt_trans [of "rc_Confidence x" "rc_Confidence b" "rc_Confidence c"] by auto
  then show ?thesis unfolding first_largest_def by (intro exI [of _ cs] exI [of _ "[]"]) simp
qed

lemma unit_fle_cases: "unit_f x \<Longrightarrow> unit_f y \<Longrightarrow> \<not> flt x y \<Longrightarrow> fle y x"
  by (auto elim!: in_range_cases)

lemma add_match_best:
  assumes "best_ok r" "1 \<le> n"
  shows "best_ok (add_match s sel n r)"
proof -
  let ?rc = "\<lparr>rc_Selector = sel, rc_Strategy = s, rc_Confidence = strategyConfidence s n, rc_MatchCount = n\<rparr>"
  have rc: "candidate_ok ?rc" "unit_f (rc_Confidence ?rc)" using assms(2) by (simp_all add: candidate_ok_def confidence_unit)
  show ?thesis
  proof (cases "rr_BestCandidate r")
    case None
    with assms(1) rc(1) show ?thesis by (simp add: best_ok_def add_match_def Let_def)
  next
    case (Some b)
    with assms(1) have b: "first_largest b (rr_Candidates r)" and ok: "\<forall>c \<in> set (rr_Candidates r). candidate_ok c"
      by (simp_all add: best_ok_def)
    then have u: "\<forall>c \<in> set (rr_Candidates r). unit_f (rc_Confidence c)" using candidate_unit by blast
    show ?thesis
    proof (cases "flt (rc_Confidence b) (rc_Confidence ?rc)")
      case True
      with first_largest_new [OF b u rc(2)] Some ok rc(1) show ?thesis by (simp add: best_ok_def add_match_def Let_def)
    next
      case False
      then have "fle (rc_Confidence ?rc) (rc_Confidence b)" using unit_fle_cases u first_largest_in [OF b] rc(2) by blast
      from first_largest_keep [OF b this] Some False ok rc(1) show ?thesis by (simp add: best_ok_def add_match_def Let_def)
    qed
  qed
qed

lemma try_candidates_best: "best_ok r \<Longrightarrow> best_ok (fst (try_candidates ev s cs r w))"
proof (induction cs arbitrary: r w)
  case (Cons c cs)
  have "best_ok (if 0 < n then add_match s c n r else r)" for n
    using Cons.prems add_match_best by simp
  then show ?case using Cons.IH Cons.prems by (auto split: prod.split sum.split)
qed simp

lemma best_ok_tried [simp]: "best_ok (r\<lparr>rr_StrategiesTried := k\<rparr>) = best_ok r"
  by (simp add: best_ok_def cong: option.case_cong)

lemma run_strategies_best: "best_ok r \<Longrightarrow> best_ok (fst (run_strategies ev ss r w))"
proof (induction ss arbitrary: r w)
  case (Cons sg ss)
  have "best_ok (fst (try_candidates ev (fst sg) (snd sg w) (r\<lparr>rr_StrategiesTried := rr_StrategiesTried r + 1\<rparr>) w))"
    by (rule try_candidates_best) (simp add: Cons.prems)
  then show ?case using Cons.IH by (auto split: prod.split)
qed simp

lemma ask_vlm_best: "best_ok r \<Longrightarrow> best_ok (fst (ask_vlm sr ev e r w))"
  using try_candidates_best [of "r\<lparr>rr_StrategiesTried := rr_StrategiesTried r + 1\<rparr>"]
  by (auto simp: ask_vlm_def Let_def split: option.split prod.split sum.split)

lemma try_candidates_tried [simp]: "rr_StrategiesTried (fst (try_candidates ev s cs r w)) = rr_StrategiesTried r"
proof (induction cs arbitrary: r w)
  case (Cons c cs)
  have "rr_StrategiesTried (add_match s c n r) = rr_StrategiesTried r" for n
    by (simp add: add_match_def Let_def split: option.split)
  then show ?case using Cons.IH by (auto split: prod.split sum.split)
qed simp

lemma run_strategies_tried:
  "rr_StrategiesTried r \<le> rr_StrategiesTried (fst (run_strategies ev ss r w)) \<and>
   rr_StrategiesTried (fst (run_strategies ev ss r w)) \<le> rr_StrategiesTried r + int (length ss) \<and>
   (ss \<noteq> [] \<longrightarrow> rr_StrategiesTried r < rr_StrategiesTried (fst (run_strategies ev ss r w)))"
proof (induction ss arbitrary: r w)
  case (Cons sg ss)
  obtain r1 w1 where t: "try_candidates ev (fst sg) (snd sg w) (r\<lparr>rr_StrategiesTried := rr_StrategiesTried r + 1\<rparr>) w = (r1, w1)"
    by force
  have "rr_StrategiesTried r1 = rr_StrategiesTried r + 1"
    using try_candidates_tried [of ev "fst sg" "snd sg w" "r\<lparr>rr_StrategiesTried := rr_StrategiesTried r + 1\<rparr>" w] by (simp add: t)
  then show ?case using Cons.IH [of r1 w1] by (auto simp: t)
qed simp

lemma Repair_best:
  assumes "Repair enc dec env elementType broken ev sr disk w = (r, sr', disk', w')"
  shows "best_ok r \<and> (rr_Repaired r \<longleftrightarrow> rr_Candidates r \<noteq> []) \<and> rr_StrategiesTried r \<in> {1..5} \<and>
    mget (RepairHistory sr') (elementType @ '':'' @ broken) = Some r"
proof -
  obtain r1 w1 where r1: "run_strategies ev (strategies_for env sr elementType broken) (blank_repair broken) w = (r1, w1)" by force
  obtain r2 w2 where r2: "ask_vlm sr ev elementType r1 w1 = (r2, w2)" by force
  have "best_ok (blank_repair broken)" by (simp add: best_ok_def blank_repair_def)
  from run_strategies_best [OF this] have "best_ok r1" by (metis fst_conv r1)
  from ask_vlm_best [OF this] have best: "best_ok r2" by (metis fst_conv r2)
  have "rr_StrategiesTried r1 \<in> {1..4}"
    using run_strategies_tried [of "blank_repair broken" ev "strategies_for env sr elementType broken" w] r1
    by (simp del: run_strategies.simps add: blank_repair_def, simp add: strategies_for_def)
  moreover have "rr_StrategiesTried r2 \<in> {rr_StrategiesTried r1, rr_StrategiesTried r1 + 1}"
  proof -
    have "rr_StrategiesTried (fst (ask_vlm sr ev elementType r1 w1)) \<in> {rr_StrategiesTried r1, rr_StrategiesTried r1 + 1}"
      unfolding ask_vlm_def by (simp add: Let_def split: option.split prod.split sum.split)
    then show ?thesis by (simp add: r2)
  qed
  ultimately have "rr_StrategiesTried r2 \<in> {1..5}" by auto
  moreover have "rr_BestCandidate r2 = None \<longleftrightarrow> rr_Candidates r2 = []" using best by (auto simp: best_ok_def dest: first_largest_in split: option.splits)
  ultimately show ?thesis using best assms
    by (auto simp: Repair_def r1 r2 Let_def RepairHistory_def best_ok_def split: option.splits)
qed

text \<open>Where a candidate comes from: its strategy proposed its selector, and the page answered that often for it.\<close>

definition proposed :: "'w repair_env \<Rightarrow> 'w selector_repair \<Rightarrow> string \<Rightarrow> string \<Rightarrow> repair_strategy \<Rightarrow> string \<Rightarrow> bool" where
  "proposed env sr elementType broken s sel \<longleftrightarrow>
     (\<exists>cands w. (s, cands) \<in> set (strategies_for env sr elementType broken) \<and> sel \<in> set (cands w)) \<or>
     (s = StrategyVLM \<and> (\<exists>gen w cs w'. sr_vlmGen sr = Some gen \<and> gen elementType w = (Inr cs, w') \<and> sel \<in> set cs))"

definition counted_on_page :: "'w selector_evaluator \<Rightarrow> repair_candidate \<Rightarrow> bool" where
  "counted_on_page ev c \<longleftrightarrow> 0 < rc_MatchCount c \<and> (\<exists>w w'. ev (rc_Selector c) w = (Inr (rc_MatchCount c), w'))"

definition found_ok :: "'w selector_evaluator \<Rightarrow> (repair_strategy \<Rightarrow> string \<Rightarrow> bool) \<Rightarrow> repair_result \<Rightarrow> bool" where
  "found_ok ev from r \<longleftrightarrow> (\<forall>c \<in> set (rr_Candidates r). counted_on_page ev c \<and> from (rc_Strategy c) (rc_Selector c))"

lemma found_ok_tried [simp]: "found_ok ev from (r\<lparr>rr_StrategiesTried := k\<rparr>) = found_ok ev from r"
  by (simp add: found_ok_def)

lemma try_candidates_found:
  "found_ok ev from r \<Longrightarrow> (\<And>c. c \<in> set cs \<Longrightarrow> from s c) \<Longrightarrow> found_ok ev from (fst (try_candidates ev s cs r w))"
proof (induction cs arbitrary: r w)
  case (Cons c cs)
  obtain a w1 where e: "ev c w = (a, w1)" by force
  show ?case
  proof (cases a)
    case (Inl err)
    with Cons show ?thesis by (simp add: e)
  next
    case (Inr n)
    then have "found_ok ev from (if 0 < n then add_match s c n r else r)"
      using Cons.prems e by (auto simp: found_ok_def counted_on_page_def add_match_def Let_def split: option.splits)
    with Cons Inr show ?thesis by (simp add: e)
  qed
qed simp

lemma run_strategies_found:
  assumes "\<And>s cands w c. (s, cands) \<in> set ss \<Longrightarrow> c \<in> set (cands w) \<Longrightarrow> from s c"
  shows "found_ok ev from r \<Longrightarrow> found_ok ev from (fst (run_strategies ev ss r w))"
  using assms
proof (induction ss arbitrary: r w)
  case (Cons sg ss)
  obtain r1 w1 where t: "try_candidates ev (fst sg) (snd sg w) (r\<lparr>rr_StrategiesTried := rr_StrategiesTried r + 1\<rparr>) w = (r1, w1)"
    by force
  have "from (fst sg) c" if "c \<in> set (snd sg w)" for c using Cons.prems(2) [of "fst sg" "snd sg"] that by simp
  with try_candidates_found [of ev "from" "r\<lparr>rr_StrategiesTried := rr_StrategiesTried r + 1\<rparr>" "snd sg w" "fst sg" w] Cons.prems(1) t
  have "found_ok ev from r1" by simp
  moreover have "from s c" if "(s, cands) \<in> set ss" "c \<in> set (cands w)" for s cands w c
    using Cons.prems(2) [of s cands c w] that by simp
  ultimately have "found_ok ev from (fst (run_strategies ev ss r1 w1))" using Cons.IH by blast
  with \<open>found_ok ev from r1\<close> show ?case by (simp add: t)
qed simp

lemma ask_vlm_found:
  assumes "found_ok ev from r" "\<And>gen w cs w' c. sr_vlmGen sr = Some gen \<Longrightarrow> gen e w = (Inr cs, w') \<Longrightarrow> c \<in> set cs \<Longrightarrow> from StrategyVLM c"
  shows "found_ok ev from (fst (ask_vlm sr ev e r w))"
  using assms try_candidates_found [of ev "from" "r\<lparr>rr_StrategiesTried := rr_StrategiesTried r + 1\<rparr>" _ StrategyVLM]
  by (auto simp: ask_vlm_def Let_def split: option.split prod.split sum.split)

lemma Repair_found:
  assumes "Repair enc dec env elementType broken ev sr disk w = (r, sr', disk', w')"
  shows "found_ok ev (proposed env sr elementType broken) r"
proof -
  let ?from = "proposed env sr elementType broken"
  obtain r1 w1 where r1: "run_strategies ev (strategies_for env sr elementType broken) (blank_repair broken) w = (r1, w1)" by force
  obtain r2 w2 where r2: "ask_vlm sr ev elementType r1 w1 = (r2, w2)" by force
  have "found_ok ev ?from (fst (run_strategies ev (strategies_for env sr elementType broken) (blank_repair broken) w))"
    by (rule run_strategies_found) (auto simp: proposed_def found_ok_def blank_repair_def)
  then have "found_ok ev ?from r1" by (simp add: r1)
  then have "found_ok ev ?from (fst (ask_vlm sr ev elementType r1 w1))" by (rule ask_vlm_found) (simp add: proposed_def, blast)
  then have "found_ok ev ?from r2" by (simp add: r2)
  then show ?thesis using assms by (auto simp: Repair_def r1 r2 Let_def found_ok_def)
qed

text \<open>C28: whatever the page and the vision model answer, every candidate of a repair was proposed by the strategy it
  names, the page answered its positive match count for it, and it has its strategy's confidence for
  that count; a repair is reported exactly when there is a candidate, and the best candidate is then
  the first one of the largest confidence; one to five strategies are tried, and the outcome is what
  the history then holds for that element and selector.\<close>

theorem repair_result_sound:
  "case Repair enc dec env elementType broken ev sr disk w of (r, sr', disk', w') \<Rightarrow>
     (\<forall>c \<in> set (rr_Candidates r). proposed env sr elementType broken (rc_Strategy c) (rc_Selector c) \<and>
        0 < rc_MatchCount c \<and> (\<exists>w1 w2. ev (rc_Selector c) w1 = (Inr (rc_MatchCount c), w2)) \<and>
        rc_Confidence c = strategyConfidence (rc_Strategy c) (rc_MatchCount c)) \<and>
     (rr_Repaired r \<longleftrightarrow> rr_Candidates r \<noteq> []) \<and>
     (case rr_BestCandidate r of
        None \<Rightarrow> rr_Candidates r = []
      | Some b \<Rightarrow> (\<exists>before after. rr_Candidates r = before @ b # after \<and>
          (\<forall>c \<in> set before. flt (rc_Confidence c) (rc_Confidence b)) \<and> (\<forall>c \<in> set after. fle (rc_Confidence c) (rc_Confidence b)))) \<and>
     rr_StrategiesTried r \<in> {1..5} \<and> mget (RepairHistory sr') (elementType @ '':'' @ broken) = Some r"
proof -
  obtain r sr' disk' w' where run: "Repair enc dec env elementType broken ev sr disk w = (r, sr', disk', w')" by (metis prod_cases4)
  from Repair_best [OF run] have b: "best_ok r" "rr_Repaired r \<longleftrightarrow> rr_Candidates r \<noteq> []" "rr_StrategiesTried r \<in> {1..5}"
    "mget (RepairHistory sr') (elementType @ '':'' @ broken) = Some r" by simp_all
  from Repair_found [OF run] b(1)
  have "\<forall>c \<in> set (rr_Candidates r). proposed env sr elementType broken (rc_Strategy c) (rc_Selector c) \<and>
        0 < rc_MatchCount c \<and> (\<exists>w1 w2. ev (rc_Selector c) w1 = (Inr (rc_MatchCount c), w2)) \<and>
        rc_Confidence c = strategyConfidence (rc_Strategy c) (rc_MatchCount c)"
    by (simp add: found_ok_def counted_on_page_def best_ok_def candidate_ok_def)
  moreover have "case rr_BestCandidate r of None \<Rightarrow> rr_Candidates r = [] | Some b \<Rightarrow> first_largest b (rr_Candidates r)"
    using b(1) by (simp add: best_ok_def)
  ultimately show ?thesis using b(2-4) unfolding run prod.case first_largest_def by blast
qed

section \<open>When the vision model is asked\<close>

text \<open>A page that does not change while it is looked at: \<open>f\<close> answers for each selector.\<close>

definition still_page :: "(string \<Rightarrow> string + int) \<Rightarrow> 'w selector_evaluator" where
  "still_page f = (\<lambda>sel w. (f sel, w))"

definition matches_within :: "(string \<Rightarrow> string + int) \<Rightarrow> int \<Rightarrow> string \<Rightarrow> bool" where
  "matches_within f k sel \<longleftrightarrow> (case f sel of Inl _ \<Rightarrow> False | Inr n \<Rightarrow> 1 \<le> n \<and> n \<le> k)"

definition matches :: "(string \<Rightarrow> string + int) \<Rightarrow> string \<Rightarrow> bool" where
  "matches f sel \<longleftrightarrow> (case f sel of Inl _ \<Rightarrow> False | Inr n \<Rightarrow> 1 \<le> n)"

lemma confident_add_match:
  assumes "best_ok r" "1 \<le> n"
  shows "confident (add_match s sel n r) \<longleftrightarrow> confident r \<or> n \<le> sure_count s"
proof -
  have c: "fle (flit (8 / 10)) (strategyConfidence s n) \<longleftrightarrow> n \<le> sure_count s" "unit_f (strategyConfidence s n)"
    using assms(2) confidence_sure confidence_unit by blast+
  show ?thesis
  proof (cases "rr_BestCandidate r")
    case (Some b)
    then have "unit_f (rc_Confidence b)" using assms(1) candidate_unit first_largest_in by (auto simp: best_ok_def)
    then show ?thesis using c Some
      by (cases "flit (8 / 10)") (auto simp: confident_def add_match_def Let_def split: if_splits elim!: in_range_cases)
  qed (use c in \<open>simp add: confident_def add_match_def Let_def\<close>)
qed

lemma try_still:
  "best_ok r \<Longrightarrow> snd (try_candidates (still_page f) s cs r w) = w \<and>
   (confident (fst (try_candidates (still_page f) s cs r w)) \<longleftrightarrow> confident r \<or> (\<exists>c \<in> set cs. matches_within f (sure_count s) c)) \<and>
   (rr_Candidates (fst (try_candidates (still_page f) s cs r w)) = [] \<longleftrightarrow> rr_Candidates r = [] \<and> (\<forall>c \<in> set cs. \<not> matches f c))"
proof (induction cs arbitrary: r)
  case (Cons c cs)
  show ?case
  proof (cases "f c")
    case (Inl e)
    then show ?thesis using Cons.IH [OF Cons.prems] by (simp add: still_page_def matches_within_def matches_def)
  next
    case (Inr n)
    have ok: "best_ok (if 0 < n then add_match s c n r else r)" using Cons.prems add_match_best by simp
    have "confident (if 0 < n then add_match s c n r else r) \<longleftrightarrow> confident r \<or> matches_within f (sure_count s) c"
      using confident_add_match [OF Cons.prems] Inr by (auto simp: matches_within_def)
    moreover have "rr_Candidates (if 0 < n then add_match s c n r else r) = [] \<longleftrightarrow> rr_Candidates r = [] \<and> \<not> matches f c"
      using Inr by (simp add: matches_def add_match_def Let_def split: option.split)
    ultimately show ?thesis using Cons.IH [OF ok] Inr by (auto simp: still_page_def)
  qed
qed simp

lemma confident_tried [simp]: "confident (r\<lparr>rr_StrategiesTried := k\<rparr>) = confident r"
  by (simp add: confident_def)

lemma run_still:
  "best_ok r \<Longrightarrow> \<not> confident r \<Longrightarrow> snd (run_strategies (still_page f) ss r w) = w \<and>
   (confident (fst (run_strategies (still_page f) ss r w)) \<longleftrightarrow>
     (\<exists>sg \<in> set ss. \<exists>c \<in> set (snd sg w). matches_within f (sure_count (fst sg)) c)) \<and>
   (\<not> confident (fst (run_strategies (still_page f) ss r w)) \<longrightarrow>
     (rr_Candidates (fst (run_strategies (still_page f) ss r w)) = [] \<longleftrightarrow>
      rr_Candidates r = [] \<and> (\<forall>sg \<in> set ss. \<forall>c \<in> set (snd sg w). \<not> matches f c)))"
proof (induction ss arbitrary: r)
  case (Cons sg ss)
  let ?r = "r\<lparr>rr_StrategiesTried := rr_StrategiesTried r + 1\<rparr>"
  obtain r1 w1 where t: "try_candidates (still_page f) (fst sg) (snd sg w) ?r w = (r1, w1)" by force
  have ok: "best_ok ?r" using Cons.prems(1) by simp
  from try_still [OF ok, of f "fst sg" "snd sg w" w] t Cons.prems(2)
  have w1: "w1 = w" and conf: "confident r1 \<longleftrightarrow> (\<exists>c \<in> set (snd sg w). matches_within f (sure_count (fst sg)) c)"
    and none: "rr_Candidates r1 = [] \<longleftrightarrow> rr_Candidates r = [] \<and> (\<forall>c \<in> set (snd sg w). \<not> matches f c)" by simp_all
  have "best_ok r1" using try_candidates_best [OF ok, of "still_page f" "fst sg" "snd sg w" w] by (simp add: t)
  then show ?case using Cons.IH [of r1] t w1 conf none by (cases "confident r1") auto
qed simp

text \<open>The candidates of the four strategies for an element, each with the matches that are certain enough.\<close>

definition sure_candidate :: "'w repair_env \<Rightarrow> 'w selector_repair \<Rightarrow> string \<Rightarrow> string \<Rightarrow> (string \<Rightarrow> string + int) \<Rightarrow> 'w \<Rightarrow> bool" where
  "sure_candidate env sr elementType broken f w \<longleftrightarrow>
     (\<exists>c \<in> set (generateCSSVariants (sr_cssAlternations sr) broken). matches_within f 10 c) \<or>
     (\<exists>c \<in> set (generateXPathVariants broken @ generateARIACandidates (re_aria_order env w) elementType). matches_within f 5 c)"

definition page_candidates :: "'w repair_env \<Rightarrow> 'w selector_repair \<Rightarrow> string \<Rightarrow> string \<Rightarrow> 'w \<Rightarrow> string list" where
  "page_candidates env sr elementType broken w =
     generateCSSVariants (sr_cssAlternations sr) broken @ generateXPathVariants broken @
     generateARIACandidates (re_aria_order env w) elementType @ generateTextContentCandidates (re_text_order env w) elementType"

lemma sure_strategies:
  "(\<exists>sg \<in> set (strategies_for env sr e b). \<exists>c \<in> set (snd sg w). matches_within f (sure_count (fst sg)) c) \<longleftrightarrow>
   sure_candidate env sr e b f w"
proof -
  have "\<not> matches_within f 0 c" for c by (simp add: matches_within_def split: sum.split)
  then show ?thesis by (auto simp: strategies_for_def sure_count_def sure_candidate_def)
qed

lemma page_strategies:
  "(\<forall>sg \<in> set (strategies_for env sr e b). \<forall>c \<in> set (snd sg w). \<not> matches f c) \<longleftrightarrow>
   (\<forall>c \<in> set (page_candidates env sr e b w). \<not> matches f c)"
  by (auto simp: strategies_for_def page_candidates_def)

text \<open>on a page that stays as it is, the vision model is asked exactly when no CSS variant matches one
  to ten elements and no XPath or ARIA candidate one to five: candidates by text never spare the
  call. The selector is repaired as soon as any of the four strategies has a candidate that matches,
  and without a vision model only then.\<close>

theorem repair_asks_vlm:
  assumes "sr_vlmGen sr = Some gen"
  shows "case Repair enc dec env elementType broken (still_page f) sr disk w of (r, sr', disk', w') \<Rightarrow>
     w' = (if sure_candidate env sr elementType broken f w then w else snd (gen elementType w)) \<and>
     (rr_Repaired r \<longleftrightarrow> (\<exists>c \<in> set (page_candidates env sr elementType broken w). matches f c) \<or>
        (\<not> sure_candidate env sr elementType broken f w \<and>
         (case fst (gen elementType w) of Inl _ \<Rightarrow> False | Inr cs \<Rightarrow> \<exists>c \<in> set cs. matches f c)))"
proof -
  obtain r1 w1 where r1: "run_strategies (still_page f) (strategies_for env sr elementType broken) (blank_repair broken) w = (r1, w1)"
    by force
  have blank: "best_ok (blank_repair broken)" "\<not> confident (blank_repair broken)" "rr_Candidates (blank_repair broken) = []"
    by (simp_all add: best_ok_def blank_repair_def confident_def)
  note run = run_still [OF blank(1,2), of f "strategies_for env sr elementType broken" w]
  from run have w1: "w1 = w" and conf: "confident r1 \<longleftrightarrow> sure_candidate env sr elementType broken f w"
    and none: "\<not> confident r1 \<Longrightarrow> rr_Candidates r1 = [] \<longleftrightarrow> (\<forall>c \<in> set (page_candidates env sr elementType broken w). \<not> matches f c)"
    by (simp_all add: r1 sure_strategies page_strategies blank(3))
  have ok: "best_ok r1" using run_strategies_best [OF blank(1)] by (metis fst_conv r1)
  have sure_matches: "sure_candidate env sr elementType broken f w \<Longrightarrow> \<exists>c \<in> set (page_candidates env sr elementType broken w). matches f c"
    by (auto simp: sure_candidate_def page_candidates_def matches_within_def matches_def split: sum.splits)
  show ?thesis
  proof (cases "confident r1")
    case True
    then have "rr_BestCandidate r1 \<noteq> None" by (auto simp: confident_def split: option.splits)
    moreover have "ask_vlm sr (still_page f) elementType r1 w = (r1, w)" using True assms by (simp add: ask_vlm_def)
    ultimately show ?thesis using True conf sure_matches by (auto simp: Repair_def r1 w1 Let_def)
  next
    case False
    let ?r = "r1\<lparr>rr_StrategiesTried := rr_StrategiesTried r1 + 1\<rparr>"
    obtain a w2 where g: "gen elementType w = (a, w2)" by force
    obtain r2 where r2: "ask_vlm sr (still_page f) elementType r1 w = (r2, w2)" and
      c2: "rr_Candidates r2 = [] \<longleftrightarrow> rr_Candidates r1 = [] \<and> (\<forall>cs. a = Inr cs \<longrightarrow> (\<forall>c \<in> set cs. \<not> matches f c))"
    proof (cases a)
      case (Inl e)
      then show ?thesis using that [of ?r] False assms g by (simp add: ask_vlm_def)
    next
      case (Inr cs)
      have "best_ok ?r" using ok by simp
      from try_still [OF this, of f StrategyVLM cs w2] show ?thesis
        using that [of "fst (try_candidates (still_page f) StrategyVLM cs ?r w2)"] False assms g Inr
        by (simp add: ask_vlm_def prod_eq_iff)
    qed
    have "best_ok r2" using ask_vlm_best [OF ok] by (metis fst_conv r2)
    then have "rr_BestCandidate r2 \<noteq> None \<longleftrightarrow> rr_Candidates r2 \<noteq> []" by (auto simp: best_ok_def first_largest_def split: option.splits)
    then have rep: "rr_BestCandidate r2 \<noteq> None \<longleftrightarrow> (\<exists>c \<in> set (page_candidates env sr elementType broken w). matches f c) \<or>
        (case a of Inl _ \<Rightarrow> False | Inr cs \<Rightarrow> \<exists>c \<in> set cs. matches f c)"
      using c2 none [OF False] by (cases a) auto
    have eval: "Repair enc dec env elementType broken (still_page f) sr disk w = (q, sr', disk', w') \<Longrightarrow>
        w' = w2 \<and> (rr_Repaired q \<longleftrightarrow> rr_BestCandidate r2 \<noteq> None)" for q sr' disk' w'
      by (auto simp: Repair_def r1 w1 r2 Let_def)
    show ?thesis using eval rep False conf g by (auto split: prod.split)
  qed
qed

text \<open>Two matching elements by text, and the model is asked all the same.\<close>

definition plain_repair_env :: "int repair_env" where
  "plain_repair_env = \<lparr>re_now = (\<lambda>w. w), re_aria_order = (\<lambda>_. id), re_text_order = (\<lambda>_. id)\<rparr>"

definition asking_engine :: "int selector_repair" where
  "asking_engine = WithVLM (\<lambda>_ n. (Inl ''offline'', n + 1)) (NewSelectorRepairV2 None)"

definition text_only_page :: "string \<Rightarrow> string + int" where
  "text_only_page sel = (if contains sel ''has-text'' then Inr 2 else Inr 0)"

lemma repair_asks_vlm_witness:
  "case Repair id (\<lambda>es. (None, es)) plain_repair_env ''quiz_link'' ''a.quiz'' (still_page text_only_page) asking_engine
      \<lparr>d_files = [], d_dirs = [], d_next = []\<rparr> 0 of (r, _, _, n) \<Rightarrow> rr_Repaired r \<and> n = 1"
proof -
  have sure: "\<not> sure_candidate plain_repair_env asking_engine ''quiz_link'' ''a.quiz'' text_only_page 0" by code_simp
  have "\<exists>c \<in> set (page_candidates plain_repair_env asking_engine ''quiz_link'' ''a.quiz'' 0). matches text_only_page c" by code_simp
  with sure repair_asks_vlm [of asking_engine "\<lambda>_ n. (Inl ''offline'', n + 1)" plain_repair_env "''quiz_link''"
      "''a.quiz''" text_only_page 0 id "\<lambda>es. (None, es)" "\<lparr>d_files = [], d_dirs = [], d_next = []\<rparr>"]
  show ?thesis by (auto simp: asking_engine_def WithVLM_def split: prod.splits)
qed

lemma repair_result_sound_witness:
  "case Repair id (\<lambda>es. (None, es)) plain_repair_env ''quiz_link'' ''a.quiz'' (still_page text_only_page) asking_engine
      \<lparr>d_files = [], d_dirs = [], d_next = []\<rparr> 0 of (r, _, _, n) \<Rightarrow> rr_Repaired r \<and> rc_MatchCount ` set (rr_Candidates r) = {2}"
proof -
  let ?run = "Repair id (\<lambda>es. (None, es)) plain_repair_env ''quiz_link'' ''a.quiz'' (still_page text_only_page) asking_engine
      \<lparr>d_files = [], d_dirs = [], d_next = []\<rparr> 0"
  obtain r sr' disk' n where run: "?run = (r, sr', disk', n)" by (metis prod_cases4)
  note found = repair_result_sound [where enc = id and dec = "\<lambda>es. (None, es)" and env = plain_repair_env and elementType = "''quiz_link''" and
      broken = "''a.quiz''" and ev = "still_page text_only_page" and sr = asking_engine and disk = "\<lparr>d_files = [], d_dirs = [], d_next = []\<rparr>" and w = 0,
      unfolded run prod.case]
  have "rr_Repaired (fst ?run)" by code_simp
  then have "rr_Repaired r" unfolding run by simp
  moreover from this have "rr_Candidates r \<noteq> []" using found by blast
  moreover have "rc_MatchCount c = 2" if "c \<in> set (rr_Candidates r)" for c
  proof -
    have "0 < rc_MatchCount c \<and> (\<exists>w1 w2 :: int. still_page text_only_page (rc_Selector c) w1 = (Inr (rc_MatchCount c), w2))"
      using found that by blast
    then show ?thesis by (auto simp: still_page_def text_only_page_def split: if_splits)
  qed
  ultimately have "rr_Repaired r" "rr_Candidates r \<noteq> []" "\<And>c. c \<in> set (rr_Candidates r) \<Longrightarrow> rc_MatchCount c = 2"
    by blast+
  then show ?thesis unfolding run by (cases "rr_Candidates r") auto
qed

section \<open>The order of Go's maps\<close>

text \<open>
  The candidates by text depend on the order in which Go visits the table: two keys fit
  \<open>submit_button\<close>. The ARIA table tries an exact match first.
\<close>

theorem text_candidates_depend_on_order:
  "generateTextContentCandidates id ''submit_button'' \<noteq> generateTextContentCandidates rev ''submit_button''"
  by code_simp

theorem aria_exact_match:
  "mget ariaMap (to_lower elementType) = Some sels \<Longrightarrow> generateARIACandidates visit elementType = sels"
  by (simp add: generateARIACandidates_def)

end
