(* ===== verification/Evolver_Types.thy ===== *)
theory Evolver_Types
  imports Go_Prelude
begin

text \<open>
  The records of \<open>pkg/evolver\<close>: genes, capsules, events and mutations of \<open>schema.go\<close>, signals of
  \<open>signal_miner.go\<close> and execution traces of \<open>trace_collector.go\<close>. The string types of the code keep
  any value, so their constants are abbreviations. Raw JSON is a string. At the end: the numbered
  identifiers that the engine and the miner hand out.
\<close>

section \<open>Genes, capsules, events, mutations\<close>

abbreviation GeneCategoryPrompt :: string where "GeneCategoryPrompt \<equiv> ''prompt''"
abbreviation GeneCategoryTool :: string where "GeneCategoryTool \<equiv> ''tool''"
abbreviation GeneCategoryWorkflow :: string where "GeneCategoryWorkflow \<equiv> ''workflow''"
abbreviation GeneCategoryConfig :: string where "GeneCategoryConfig \<equiv> ''config''"
abbreviation GeneCategorySelector :: string where "GeneCategorySelector \<equiv> ''selector''"
abbreviation GeneCategoryPattern :: string where "GeneCategoryPattern \<equiv> ''pattern''"
abbreviation GeneCategoryResilience :: string where "GeneCategoryResilience \<equiv> ''resilience''"

abbreviation RiskLow :: string where "RiskLow \<equiv> ''low''"
abbreviation RiskMedium :: string where "RiskMedium \<equiv> ''medium''"
abbreviation RiskHigh :: string where "RiskHigh \<equiv> ''high''"
abbreviation RiskCritical :: string where "RiskCritical \<equiv> ''critical''"

record validation_step =
  vs_Name :: string
  vs_Command :: string
  vs_Timeout :: string

record blast_radius =
  bl_Level :: string
  bl_AffectedModules :: "string list"
  bl_Reversible :: bool

record gene =
  g_ID :: string
  g_Name :: string
  g_Description :: string
  g_Category :: string
  g_Tags :: "string list"
  g_Payload :: string
  g_Validation :: "validation_step list"
  g_BlastRadius :: blast_radius
  g_Origin :: string
  g_CreatedAt :: time
  g_UpdatedAt :: time
  g_Version :: int
  g_Metadata :: "(string, string) gomap"

record env_fingerprint =
  ef_OS :: string
  ef_Arch :: string
  ef_GoVer :: string
  ef_CommitID :: string
  ef_Branch :: string

record capsule_metrics =
  ca_SuccessRate :: f64
  ca_AvgLatencyMs :: f64
  ca_EstimatedCostUSD :: f64
  ca_SampleCount :: int
  ca_CustomMetrics :: "(string, string) gomap"

abbreviation CapsuleStatusActive :: string where "CapsuleStatusActive \<equiv> ''active''"

record capsule =
  cp_ID :: string
  cp_Name :: string
  cp_Description :: string
  cp_GeneIDs :: "string list"
  cp_Environment :: env_fingerprint
  cp_Metrics :: capsule_metrics
  cp_Status :: string
  cp_AppliedCount :: int
  cp_LastApplied :: "time option"
  cp_CreatedAt :: time
  cp_UpdatedAt :: time
  cp_ParentCapsuleID :: string
  cp_Metadata :: "(string, string) gomap"

abbreviation EventSignalDetected :: string where "EventSignalDetected \<equiv> ''signal_detected''"
abbreviation EventMutationProposed :: string where "EventMutationProposed \<equiv> ''mutation_proposed''"
abbreviation EventGeneApplied :: string where "EventGeneApplied \<equiv> ''gene_applied''"

record event_outcome =
  eo_Success :: bool
  eo_Reason :: string

record evolution_event =
  ev_ID :: string
  ev_Timestamp :: time
  ev_Type :: string
  ev_ActorID :: string
  ev_ParentID :: string
  ev_Payload :: string
  ev_Outcome :: event_outcome

abbreviation ModeRepairOnly :: string where "ModeRepairOnly \<equiv> ''repair-only''"
abbreviation ModeHarden :: string where "ModeHarden \<equiv> ''harden''"
abbreviation ModeBalanced :: string where "ModeBalanced \<equiv> ''balanced''"
abbreviation ModeInnovate :: string where "ModeInnovate \<equiv> ''innovate''"

abbreviation MutationStatusPending :: string where "MutationStatusPending \<equiv> ''pending''"
abbreviation MutationStatusApplied :: string where "MutationStatusApplied \<equiv> ''applied''"
abbreviation MutationStatusRejected :: string where "MutationStatusRejected \<equiv> ''rejected''"

record mutation =
  m_ID :: string
  m_SignalID :: string
  m_GeneID :: string
  m_Reasoning :: string
  m_RiskEstimate :: string
  m_Strategy :: string
  m_BeforeState :: "string option"
  m_AfterState :: "string option"
  m_Status :: string
  m_ValidationLog :: "string list"
  m_CreatedAt :: time
  m_ResolvedAt :: "time option"

text \<open>\<open>Validate\<close>: the first required field that is missing.\<close>

definition gene_Validate :: "gene \<Rightarrow> string option" where
  "gene_Validate g =
     (if g_ID g = [] then Some ''gene: id is required''
      else if g_Name g = [] then Some ''gene: name is required''
      else if g_Category g = [] then Some ''gene: category is required''
      else None)"

definition capsule_Validate :: "capsule \<Rightarrow> string option" where
  "capsule_Validate c =
     (if cp_ID c = [] then Some ''capsule: id is required''
      else if cp_Name c = [] then Some ''capsule: name is required''
      else if cp_GeneIDs c = [] then Some ''capsule: at least one gene_id is required''
      else None)"

definition mutation_Validate :: "mutation \<Rightarrow> string option" where
  "mutation_Validate m =
     (if m_ID m = [] then Some ''mutation: id is required''
      else if m_SignalID m = [] then Some ''mutation: signal_id is required''
      else if m_Reasoning m = [] then Some ''mutation: reasoning is required''
      else None)"

definition event_Validate :: "evolution_event \<Rightarrow> string option" where
  "event_Validate e =
     (if ev_ID e = [] then Some ''event: id is required''
      else if ev_Type e = [] then Some ''event: type is required''
      else if ev_ActorID e = [] then Some ''event: actor_id is required''
      else None)"

section \<open>Signals and traces\<close>

abbreviation SignalRepeatedFailure :: string where "SignalRepeatedFailure \<equiv> ''repeated_failure''"
abbreviation SignalHighLatency :: string where "SignalHighLatency \<equiv> ''high_latency''"
abbreviation SignalCostSpike :: string where "SignalCostSpike \<equiv> ''cost_spike''"
abbreviation SignalLowSuccessRate :: string where "SignalLowSuccessRate \<equiv> ''low_success_rate''"

abbreviation SeverityInfo :: string where "SeverityInfo \<equiv> ''info''"
abbreviation SeverityWarning :: string where "SeverityWarning \<equiv> ''warning''"
abbreviation SeverityCritical :: string where "SeverityCritical \<equiv> ''critical''"

text \<open>The descriptions of signals carry formatted numbers; they are kept as the values they show.\<close>

datatype signal_description =
    RepeatedTimes nat string
  | SlowTraces nat nat f64
  | SpikedTraces nat f64 f64
  | TaskRate string f64 nat nat
  | OtherDescription string

record signal =
  sg_ID :: string
  sg_Type :: string
  sg_Severity :: string
  sg_Description :: signal_description
  sg_TraceIDs :: "string list"
  sg_DetectedAt :: time
  sg_SuggestedMutation :: string

record tool_call =
  tc_Name :: string
  tc_LatencyMs :: f64
  tc_Success :: bool
  tc_ErrorMsg :: string

record execution_trace =
  et_ID :: string
  et_TaskName :: string
  et_AgentID :: string
  et_StartTime :: time
  et_EndTime :: time
  et_LatencyMs :: f64
  et_Success :: bool
  et_ErrorMsg :: string
  et_ToolsCalled :: "tool_call list"
  et_PromptTokens :: int
  et_CompTokens :: int
  et_CostUSD :: f64
  et_ModelTier :: string
  et_Tags :: "string list"
  et_Metadata :: "(string, string) gomap"

section \<open>Numbered identifiers\<close>

definition digit :: "nat \<Rightarrow> char" where
  "digit n = char_of (48 + n)"

fun dec_nat :: "nat \<Rightarrow> string" where
  "dec_nat n = (if n < 10 then [digit n] else dec_nat (n div 10) @ [digit (n mod 10)])"

declare dec_nat.simps [simp del]

text \<open>\<open>%d\<close>\<close>

definition show_int :: "int \<Rightarrow> string" where
  "show_int n = (if n < 0 then ''-'' @ dec_nat (nat (- n)) else dec_nat (nat n))"

definition unix_nano :: "time \<Rightarrow> int" where
  "unix_nano t = wrap64 (t - 62135596800 * second)"

text \<open>\<open>%06d\<close>\<close>

definition pad6 :: "nat \<Rightarrow> string" where
  "pad6 n = replicate (6 - length (dec_nat n)) CHR ''0'' @ dec_nat n"

definition dec_value :: "string \<Rightarrow> nat" where
  "dec_value s = foldl (\<lambda>v c. 10 * v + (of_char c - 48)) 0 s"

lemma of_char_digit: "n < 10 \<Longrightarrow> (of_char (digit n) :: nat) = 48 + n"
  by (simp add: digit_def)

lemma dec_value_nat [simp]: "dec_value (dec_nat n) = n"
proof (induction n rule: dec_nat.induct)
  case (1 n)
  show ?case
  proof (cases "n < 10")
    case True
    then show ?thesis by (simp add: dec_nat.simps [of n] dec_value_def of_char_digit)
  next
    case False
    then show ?thesis using 1 by (simp add: dec_nat.simps [of n] dec_value_def of_char_digit)
  qed
qed

lemma dec_value_pad [simp]: "dec_value (pad6 n) = n"
proof -
  have "foldl (\<lambda>v c. 10 * v + (of_char c - 48)) 0 (replicate k CHR ''0'') = (0 :: nat)" for k
    by (induction k) simp_all
  then show ?thesis using dec_value_nat [of n] by (simp add: pad6_def dec_value_def del: dec_value_nat)
qed

lemma pad6_inj [simp]: "pad6 m = pad6 n \<longleftrightarrow> m = n"
  using dec_value_pad by metis

end
