(* ===== verification/Signal_Miner.thy ===== *)
theory Signal_Miner
  imports Evolver_Types
begin

text \<open>
  \<open>pkg/evolver/signal_miner.go\<close>: four detectors over a batch of execution traces. \<open>ve\<close> and \<open>vt\<close> are
  the orders in which Go visits the maps of error messages and of tasks; \<open>now\<close> is the clock.
\<close>

record signal_miner_config =
  mc_RepeatedFailureThreshold :: int
  mc_HighLatencyThresholdMs :: f64
  mc_CostSpikeMultiplier :: f64
  mc_LowSuccessRateThreshold :: f64
  mc_WindowSize :: int

definition DefaultSignalMinerConfig :: signal_miner_config where
  "DefaultSignalMinerConfig = \<lparr>mc_RepeatedFailureThreshold = 3, mc_HighLatencyThresholdMs = flit 5000,
     mc_CostSpikeMultiplier = flit 3, mc_LowSuccessRateThreshold = flit (1 / 2), mc_WindowSize = 100\<rparr>"

record signal_miner =
  sm_cfg :: signal_miner_config
  sm_counter :: nat

definition NewSignalMiner :: "signal_miner_config \<Rightarrow> signal_miner" where
  "NewSignalMiner cfg = \<lparr>sm_cfg = cfg, sm_counter = 0\<rparr>"

definition nextID :: "signal_miner \<Rightarrow> string \<times> signal_miner" where
  "nextID sm = (let n = sm_counter sm + 1 in (''sig-'' @ pad6 n, sm\<lparr>sm_counter := n\<rparr>))"

definition truncate :: "string \<Rightarrow> nat \<Rightarrow> string" where
  "truncate s maxLen = (if length s \<le> maxLen then s else take (maxLen - 3) s @ ''...'')"

section \<open>Repeated failures\<close>

definition add_failure :: "(string, string list) gomap \<Rightarrow> execution_trace \<Rightarrow> (string, string list) gomap" where
  "add_failure errCounts t =
     (if \<not> et_Success t \<and> et_ErrorMsg t \<noteq> []
      then mset_at errCounts (et_ErrorMsg t) (mget_or [] errCounts (et_ErrorMsg t) @ [et_ID t]) else errCounts)"

definition failure_signal :: "time \<Rightarrow> signal list \<times> signal_miner \<Rightarrow> string \<times> string list \<Rightarrow> signal list \<times> signal_miner" where
  "failure_signal now st entry =
     (case st of (signals, sm) \<Rightarrow> case entry of (errMsg, ids) \<Rightarrow>
        if mc_RepeatedFailureThreshold (sm_cfg sm) \<le> int (length ids)
        then let severity = (if mc_RepeatedFailureThreshold (sm_cfg sm) * 2 \<le> int (length ids) then SeverityCritical else SeverityWarning);
                 (i, sm') = nextID sm
             in (signals @ [\<lparr>sg_ID = i, sg_Type = SignalRepeatedFailure, sg_Severity = severity,
                   sg_Description = RepeatedTimes (length ids) (truncate errMsg 100), sg_TraceIDs = ids, sg_DetectedAt = now,
                   sg_SuggestedMutation = ''add retry/fallback or fix root cause''\<rparr>], sm')
        else (signals, sm))"

definition detectRepeatedFailures :: "((string \<times> string list) list \<Rightarrow> (string \<times> string list) list) \<Rightarrow> time \<Rightarrow> execution_trace list \<Rightarrow>
    signal_miner \<Rightarrow> signal list \<times> signal_miner" where
  "detectRepeatedFailures ve now traces sm = foldl (failure_signal now) ([], sm) (ve (foldl add_failure [] traces))"

section \<open>Latency and cost\<close>

definition detectHighLatency :: "time \<Rightarrow> execution_trace list \<Rightarrow> signal_miner \<Rightarrow> signal list \<times> signal_miner" where
  "detectHighLatency now traces sm =
     (let slow = map et_ID (filter (\<lambda>t. flt (mc_HighLatencyThresholdMs (sm_cfg sm)) (et_LatencyMs t)) traces) in
      if slow = [] then ([], sm)
      else let ratio = fdiv (f_of_int (int (length slow))) (f_of_int (int (length traces)));
               severity = (if flt (flit (3 / 10)) ratio then SeverityWarning else SeverityInfo);
               severity = (if flt (flit (1 / 2)) ratio then SeverityCritical else severity);
               (i, sm') = nextID sm
           in ([\<lparr>sg_ID = i, sg_Type = SignalHighLatency, sg_Severity = severity,
                 sg_Description = SlowTraces (length slow) (length traces) (mc_HighLatencyThresholdMs (sm_cfg sm)),
                 sg_TraceIDs = slow, sg_DetectedAt = now,
                 sg_SuggestedMutation = ''optimise prompt, cache, or switch to lighter model tier''\<rparr>], sm'))"

definition detectCostSpikes :: "time \<Rightarrow> execution_trace list \<Rightarrow> signal_miner \<Rightarrow> signal list \<times> signal_miner" where
  "detectCostSpikes now traces sm =
     (if length traces < 2 then ([], sm)
      else let totalCost = foldl (\<lambda>c t. fadd c (et_CostUSD t)) (flit 0) traces;
               avgCost = fdiv totalCost (f_of_int (int (length traces)));
               spiked = map et_ID (filter (\<lambda>t. flt (flit 0) avgCost \<and>
                 flt (fmul avgCost (mc_CostSpikeMultiplier (sm_cfg sm))) (et_CostUSD t)) traces)
           in if spiked = [] then ([], sm)
              else let (i, sm') = nextID sm in
                ([\<lparr>sg_ID = i, sg_Type = SignalCostSpike, sg_Severity = SeverityWarning,
                   sg_Description = SpikedTraces (length spiked) (mc_CostSpikeMultiplier (sm_cfg sm)) avgCost,
                   sg_TraceIDs = spiked, sg_DetectedAt = now,
                   sg_SuggestedMutation = ''route to cheaper model tier or optimise token usage''\<rparr>], sm'))"

section \<open>Success rates\<close>

definition add_outcome :: "(string, nat \<times> nat) gomap \<Rightarrow> execution_trace \<Rightarrow> (string, nat \<times> nat) gomap" where
  "add_outcome m t =
     (let (ok, tot) = mget_or (0, 0) m (et_TaskName t) in
      mset_at m (et_TaskName t) (if et_Success t then ok + 1 else ok, tot + 1))"

definition rate_signal :: "time \<Rightarrow> signal list \<times> signal_miner \<Rightarrow> string \<times> nat \<times> nat \<Rightarrow> signal list \<times> signal_miner" where
  "rate_signal now st entry =
     (case st of (signals, sm) \<Rightarrow> case entry of (task, ok, tot) \<Rightarrow>
        if tot < 3 then (signals, sm)
        else let rate = fdiv (f_of_int (int ok)) (f_of_int (int tot)) in
          if flt rate (mc_LowSuccessRateThreshold (sm_cfg sm))
          then let (i, sm') = nextID sm in
            (signals @ [\<lparr>sg_ID = i, sg_Type = SignalLowSuccessRate, sg_Severity = SeverityCritical,
               sg_Description = TaskRate task (fmul rate (flit 100)) ok tot, sg_TraceIDs = [], sg_DetectedAt = now,
               sg_SuggestedMutation = ''review task implementation or add self-healing''\<rparr>], sm')
          else (signals, sm))"

definition detectLowSuccessRate :: "((string \<times> nat \<times> nat) list \<Rightarrow> (string \<times> nat \<times> nat) list) \<Rightarrow> time \<Rightarrow> execution_trace list \<Rightarrow>
    signal_miner \<Rightarrow> signal list \<times> signal_miner" where
  "detectLowSuccessRate vt now traces sm =
     (if traces = [] then ([], sm) else foldl (rate_signal now) ([], sm) (vt (foldl add_outcome [] traces)))"

definition Mine :: "((string \<times> string list) list \<Rightarrow> (string \<times> string list) list) \<Rightarrow>
    ((string \<times> nat \<times> nat) list \<Rightarrow> (string \<times> nat \<times> nat) list) \<Rightarrow> time \<Rightarrow> execution_trace list \<Rightarrow>
    signal_miner \<Rightarrow> signal list \<times> signal_miner" where
  "Mine ve vt now traces sm =
     (let (s1, sm) = detectRepeatedFailures ve now traces sm;
          (s2, sm) = detectHighLatency now traces sm;
          (s3, sm) = detectCostSpikes now traces sm;
          (s4, sm) = detectLowSuccessRate vt now traces sm
      in (s1 @ s2 @ s3 @ s4, sm))"

section \<open>Identifiers\<close>

text \<open>
  A detector hands out the numbers after the miner's counter, in order: \<open>numbered sm r\<close>.
\<close>

definition numbered :: "signal_miner \<Rightarrow> signal list \<times> signal_miner \<Rightarrow> bool" where
  "numbered sm r \<longleftrightarrow> sm_cfg (snd r) = sm_cfg sm \<and>
     map sg_ID (fst r) = map (\<lambda>n. ''sig-'' @ pad6 n) [Suc (sm_counter sm) ..< Suc (sm_counter (snd r))] \<and>
     sm_counter sm \<le> sm_counter (snd r)"

lemma numbered_none [simp]: "numbered sm ([], sm)"
  by (simp add: numbered_def)

lemma numbered_one: "sg_ID s = fst (nextID sm) \<Longrightarrow> numbered sm ([s], snd (nextID sm))"
  by (simp add: numbered_def nextID_def)

lemma numbered_append:
  assumes "numbered sm (s1, sm1)" "numbered sm1 (s2, sm2)"
  shows "numbered sm (s1 @ s2, sm2)"
proof -
  have "[Suc (sm_counter sm) ..< Suc (sm_counter sm2)] =
      [Suc (sm_counter sm) ..< Suc (sm_counter sm1)] @ [Suc (sm_counter sm1) ..< Suc (sm_counter sm2)]"
    using assms upt_add_eq_append [of "Suc (sm_counter sm)" "Suc (sm_counter sm1)" "sm_counter sm2 - sm_counter sm1"]
    by (simp add: numbered_def del: upt_Suc)
  then show ?thesis using assms by (simp add: numbered_def del: upt_Suc)
qed

lemma numbered_step:
  "numbered sm (s, sm') \<Longrightarrow> sg_ID x = fst (nextID sm') \<Longrightarrow> sm'' = snd (nextID sm') \<Longrightarrow> numbered sm (s @ [x], sm'')"
  using numbered_append numbered_one by blast

lemma numbered_foldl:
  assumes "\<And>st e. numbered sm st \<Longrightarrow> numbered sm (f st e)"
  shows "numbered sm (foldl f ([], sm) es)"
  by (induction es rule: rev_induct) (simp_all add: assms)

lemma numbered_failures: "numbered sm (foldl (failure_signal now) ([], sm) es)"
  by (rule numbered_foldl) (auto simp: failure_signal_def Let_def split: prod.split intro: numbered_step)

lemma numbered_rates: "numbered sm (foldl (rate_signal now) ([], sm) es)"
  by (rule numbered_foldl) (auto simp: rate_signal_def Let_def split: prod.split intro: numbered_step)

lemma numbered_detectors:
  "numbered sm (detectRepeatedFailures ve now traces sm)" "numbered sm (detectHighLatency now traces sm)"
  "numbered sm (detectCostSpikes now traces sm)" "numbered sm (detectLowSuccessRate vt now traces sm)"
  using numbered_failures numbered_rates numbered_one [of _ sm]
  by (auto simp: detectRepeatedFailures_def detectLowSuccessRate_def detectHighLatency_def detectCostSpikes_def Let_def
      split: prod.split)

lemma numbered_Mine: "numbered sm (Mine ve vt now traces sm)"
proof -
  obtain s1 sm1 where 1: "detectRepeatedFailures ve now traces sm = (s1, sm1)" by force
  obtain s2 sm2 where 2: "detectHighLatency now traces sm1 = (s2, sm2)" by force
  obtain s3 sm3 where 3: "detectCostSpikes now traces sm2 = (s3, sm3)" by force
  obtain s4 sm4 where 4: "detectLowSuccessRate vt now traces sm3 = (s4, sm4)" by force
  have "numbered sm (s1, sm1)" "numbered sm1 (s2, sm2)" "numbered sm2 (s3, sm3)" "numbered sm3 (s4, sm4)"
    using numbered_detectors 1 2 3 4 by metis+
  then have "numbered sm (s1 @ s2 @ s3 @ s4, sm4)" using numbered_append by blast
  then show ?thesis by (simp add: Mine_def 1 2 3 4)
qed

text \<open>Batches mined one after the other.\<close>

primrec mine_all :: "((string \<times> string list) list \<Rightarrow> (string \<times> string list) list) \<Rightarrow>
    ((string \<times> nat \<times> nat) list \<Rightarrow> (string \<times> nat \<times> nat) list) \<Rightarrow> (time \<times> execution_trace list) list \<Rightarrow>
    signal_miner \<Rightarrow> signal list \<times> signal_miner" where
  "mine_all ve vt [] sm = ([], sm)"
| "mine_all ve vt (b # bs) sm =
     (let (s1, sm) = Mine ve vt (fst b) (snd b) sm; (s2, sm) = mine_all ve vt bs sm in (s1 @ s2, sm))"

text \<open>over all batches that a miner ever sees, no two signals share an identifier.\<close>

theorem signal_ids_unique: "distinct (map sg_ID (fst (mine_all ve vt batches (NewSignalMiner cfg))))"
proof -
  have "numbered sm (mine_all ve vt batches sm)" for sm
  proof (induction batches arbitrary: sm)
    case (Cons b bs)
    show ?case using numbered_append numbered_Mine [of sm ve vt "fst b" "snd b"] Cons
      by (auto simp: Let_def split: prod.splits) (metis (no_types))
  qed simp
  then have "map sg_ID (fst (mine_all ve vt batches (NewSignalMiner cfg))) =
      map (\<lambda>n. ''sig-'' @ pad6 n) [Suc 0 ..< Suc (sm_counter (snd (mine_all ve vt batches (NewSignalMiner cfg))))]"
    by (simp add: numbered_def NewSignalMiner_def)
  then show ?thesis by (simp add: distinct_map inj_on_def)
qed

section \<open>What is a repeated failure\<close>

text \<open>The failed traces of a batch with a given error message.\<close>

definition failed_with :: "string \<Rightarrow> execution_trace list \<Rightarrow> string list" where
  "failed_with msg traces = map et_ID (filter (\<lambda>t. \<not> et_Success t \<and> et_ErrorMsg t = msg) traces)"

lemma failures_grouped:
  "wf_map (foldl add_failure [] traces) \<and>
   mget (foldl add_failure [] traces) msg =
     (if msg = [] \<or> failed_with msg traces = [] then None else Some (failed_with msg traces))"
  by (induction traces rule: rev_induct)
    (auto simp: add_failure_def failed_with_def mget_or_def split: if_splits option.splits)

definition signal_key :: "signal \<Rightarrow> string \<times> signal_description \<times> string list" where
  "signal_key s = (sg_Severity s, sg_Description s, sg_TraceIDs s)"

definition failure_severity :: "int \<Rightarrow> string list \<Rightarrow> string" where
  "failure_severity threshold ids = (if threshold * 2 \<le> int (length ids) then SeverityCritical else SeverityWarning)"

lemma failure_signals_keys:
  "map signal_key (fst (foldl (failure_signal now) ([], sm) es)) =
   map (\<lambda>(msg, ids). (failure_severity (mc_RepeatedFailureThreshold (sm_cfg sm)) ids,
       RepeatedTimes (length ids) (truncate msg 100), ids))
     (filter (\<lambda>(msg, ids). mc_RepeatedFailureThreshold (sm_cfg sm) \<le> int (length ids)) es)"
proof (induction es rule: rev_induct)
  case (snoc e es)
  obtain m js where e: "e = (m, js)" by force
  obtain s sm' where st: "foldl (failure_signal now) ([], sm) es = (s, sm')" by force
  have "sm_cfg sm' = sm_cfg sm" using numbered_failures [of sm now es] by (simp add: st numbered_def)
  then show ?case using snoc
    by (simp add: st e failure_signal_def [of now "(s, sm')"] Let_def nextID_def signal_key_def failure_severity_def)
qed simp

lemma failure_signals_type: "s \<in> set (fst (detectRepeatedFailures ve now traces sm)) \<Longrightarrow> sg_Type s = SignalRepeatedFailure"
proof -
  have "\<forall>s \<in> set (fst (foldl (failure_signal now) ([], sm) es)). sg_Type s = SignalRepeatedFailure" for es
    by (induction es rule: rev_induct) (auto simp: failure_signal_def Let_def split: prod.splits)
  then show "s \<in> set (fst (detectRepeatedFailures ve now traces sm)) \<Longrightarrow> sg_Type s = SignalRepeatedFailure"
    by (simp add: detectRepeatedFailures_def)
qed

lemma other_signals_type:
  "s \<in> set (fst (detectHighLatency now traces sm)) \<union> set (fst (detectCostSpikes now traces sm)) \<union>
     set (fst (detectLowSuccessRate vt now traces sm)) \<Longrightarrow> sg_Type s \<noteq> SignalRepeatedFailure"
proof -
  have "\<forall>s \<in> set (fst (foldl (rate_signal now) ([], sm) es)). sg_Type s = SignalLowSuccessRate" for es
    by (induction es rule: rev_induct) (auto simp: rate_signal_def Let_def split: prod.splits)
  then show "s \<in> set (fst (detectHighLatency now traces sm)) \<union> set (fst (detectCostSpikes now traces sm)) \<union>
     set (fst (detectLowSuccessRate vt now traces sm)) \<Longrightarrow> sg_Type s \<noteq> SignalRepeatedFailure"
    by (auto simp: detectHighLatency_def detectCostSpikes_def detectLowSuccessRate_def Let_def split: prod.splits if_splits)
qed

lemma mined_failure_list:
  "filter (\<lambda>s. sg_Type s = SignalRepeatedFailure) (fst (Mine ve vt now traces sm)) =
   fst (foldl (failure_signal now) ([], sm) (ve (foldl add_failure [] traces)))"
proof -
  obtain s1 sm1 where 1: "detectRepeatedFailures ve now traces sm = (s1, sm1)" by force
  obtain s2 sm2 where 2: "detectHighLatency now traces sm1 = (s2, sm2)" by force
  obtain s3 sm3 where 3: "detectCostSpikes now traces sm2 = (s3, sm3)" by force
  have "filter (\<lambda>s. sg_Type s = SignalRepeatedFailure) (fst (Mine ve vt now traces sm)) = s1"
    using failure_signals_type [of _ ve now traces sm] other_signals_type [of _ now traces sm1 vt]
      other_signals_type [of _ now traces sm2 vt] other_signals_type [of _ now traces sm3 vt]
    by (auto simp: Mine_def 1 2 3 filter_id_conv filter_empty_conv split: prod.splits)
  then show ?thesis using 1 by (metis detectRepeatedFailures_def fst_conv)
qed

lemma mined_failures:
  assumes "\<And>m. mset (ve m) = mset m"
  shows "signal_key ` {s \<in> set (fst (Mine ve vt now traces sm)). sg_Type s = SignalRepeatedFailure} =
    (\<lambda>(msg, ids). (failure_severity (mc_RepeatedFailureThreshold (sm_cfg sm)) ids, RepeatedTimes (length ids) (truncate msg 100), ids)) `
      {(msg, ids) \<in> set (foldl add_failure [] traces). mc_RepeatedFailureThreshold (sm_cfg sm) \<le> int (length ids)}"
proof -
  let ?m = "foldl add_failure [] traces"
  have ve: "set (ve ?m) = set ?m" using assms by (metis set_mset_mset)
  have "{s \<in> set (fst (Mine ve vt now traces sm)). sg_Type s = SignalRepeatedFailure} =
      set (filter (\<lambda>s. sg_Type s = SignalRepeatedFailure) (fst (Mine ve vt now traces sm)))" by simp
  then show ?thesis
    unfolding mined_failure_list using arg_cong [OF failure_signals_keys [of now sm "ve ?m"], of set] by (auto simp: ve)
qed

text \<open>The error texts of the failed traces of a batch, and the map of them.\<close>

definition error_texts :: "execution_trace list \<Rightarrow> string set" where
  "error_texts traces = {t. t \<noteq> [] \<and> failed_with t traces \<noteq> []}"

lemma finite_error_texts: "finite (error_texts traces)"
proof (rule finite_subset)
  show "error_texts traces \<subseteq> et_ErrorMsg ` set traces" by (auto simp: error_texts_def failed_with_def filter_empty_conv)
qed simp

lemma failures_mset:
  "mset (foldl add_failure [] traces) = image_mset (\<lambda>t. (t, failed_with t traces)) (mset_set (error_texts traces))"
proof -
  let ?m = "foldl add_failure [] traces"
  have wf: "wf_map ?m" using failures_grouped by blast
  have entries: "(t, ids) \<in> set ?m \<longleftrightarrow> t \<in> error_texts traces \<and> ids = failed_with t traces" for t ids
    using failures_grouped [of traces t] by (auto simp: mget_in_set [OF wf, symmetric] error_texts_def)
  then have "set ?m = (\<lambda>t. (t, failed_with t traces)) ` error_texts traces" by (auto simp: image_iff)
  moreover have "distinct ?m" using wf by (simp add: wf_map_def distinct_map)
  ultimately show ?thesis
    by (metis (no_types, lifting) image_mset_mset_set inj_on_def mset_set_set prod.inject)
qed

text \<open>C29: the repeated-failure signals of a batch are exactly one for each error text that at least
  \<open>RepeatedFailureThreshold\<close> failed traces carry: with those traces in order, the text cut to 100
  characters, and critical from twice the threshold on, whatever the order of Go's maps.\<close>

theorem repeated_failures_mined:
  fixes sm :: signal_miner
  assumes "\<And>m. mset (ve m) = mset m"
  defines "threshold \<equiv> mc_RepeatedFailureThreshold (sm_cfg sm)"
  shows "image_mset (\<lambda>s. (sg_Severity s, sg_Description s, sg_TraceIDs s))
      (filter_mset (\<lambda>s. sg_Type s = SignalRepeatedFailure) (mset (fst (Mine ve vt now traces sm)))) =
    image_mset (\<lambda>t. (if threshold * 2 \<le> int (length (failed_with t traces)) then SeverityCritical else SeverityWarning,
        RepeatedTimes (length (failed_with t traces)) (truncate t 100), failed_with t traces))
      (mset_set {t. t \<noteq> [] \<and> failed_with t traces \<noteq> [] \<and> threshold \<le> int (length (failed_with t traces))})"
proof -
  let ?m = "foldl add_failure [] traces"
  have texts: "{t. t \<noteq> [] \<and> failed_with t traces \<noteq> [] \<and> threshold \<le> int (length (failed_with t traces))} =
      Set.filter (\<lambda>t. threshold \<le> int (length (failed_with t traces))) (error_texts traces)"
    by (auto simp: error_texts_def)
  have "image_mset signal_key (filter_mset (\<lambda>s. sg_Type s = SignalRepeatedFailure) (mset (fst (Mine ve vt now traces sm)))) =
      mset (map signal_key (fst (foldl (failure_signal now) ([], sm) (ve ?m))))"
    unfolding mined_failure_list [symmetric, where vt = vt] by simp
  also have "\<dots> = image_mset (\<lambda>(t, ids). (failure_severity threshold ids, RepeatedTimes (length ids) (truncate t 100), ids))
      (filter_mset (\<lambda>(t, ids). threshold \<le> int (length ids)) (mset ?m))"
    unfolding failure_signals_keys threshold_def by (simp add: assms(1))
  also have "\<dots> = image_mset (\<lambda>t. (failure_severity threshold (failed_with t traces), RepeatedTimes (length (failed_with t traces)) (truncate t 100),
        failed_with t traces)) (filter_mset (\<lambda>t. threshold \<le> int (length (failed_with t traces))) (mset_set (error_texts traces)))"
    unfolding failures_mset by (simp add: filter_mset_image_mset multiset.map_comp comp_def)
  finally show ?thesis
    unfolding texts using finite_error_texts by (simp add: signal_key_def [abs_def] failure_severity_def filter_mset_mset_set)
qed

lemma repeated_failures_mined_witness:
  "let t = (\<lambda>i. \<lparr>et_ID = i, et_TaskName = ''pay'', et_AgentID = [], et_StartTime = 0, et_EndTime = 0, et_LatencyMs = Fin 0,
      et_Success = False, et_ErrorMsg = ''timeout'', et_ToolsCalled = [], et_PromptTokens = 0, et_CompTokens = 0,
      et_CostUSD = Fin 0, et_ModelTier = [], et_Tags = [], et_Metadata = []\<rparr>)
   in image_mset (\<lambda>s. (sg_Severity s, sg_Description s, sg_TraceIDs s)) (filter_mset (\<lambda>s. sg_Type s = SignalRepeatedFailure)
      (mset (fst (Mine id id 0 (map t [''a'', ''b'', ''c'']) (NewSignalMiner DefaultSignalMinerConfig))))) =
    {#(SeverityWarning, RepeatedTimes 3 ''timeout'', [''a'', ''b'', ''c''])#}"
proof -
  define t where "t = (\<lambda>i. \<lparr>et_ID = i, et_TaskName = ''pay'', et_AgentID = [], et_StartTime = 0, et_EndTime = 0, et_LatencyMs = Fin 0,
      et_Success = False, et_ErrorMsg = ''timeout'', et_ToolsCalled = [], et_PromptTokens = 0, et_CompTokens = 0,
      et_CostUSD = Fin 0, et_ModelTier = [], et_Tags = [], et_Metadata = []\<rparr>)"
  define ts sm where "ts = map t [''a'', ''b'', ''c'']" and "sm = NewSignalMiner DefaultSignalMinerConfig"
  have f: "failed_with x ts = (if x = ''timeout'' then [''a'', ''b'', ''c''] else [])" for x by (simp add: failed_with_def t_def ts_def)
  have three: "mc_RepeatedFailureThreshold (sm_cfg sm) = 3" by (simp add: sm_def NewSignalMiner_def DefaultSignalMinerConfig_def)
  have one: "{x. x \<noteq> [] \<and> failed_with x ts \<noteq> [] \<and> mc_RepeatedFailureThreshold (sm_cfg sm) \<le> int (length (failed_with x ts))} = {''timeout''}"
    by (auto simp: f three)
  have "image_mset (\<lambda>s. (sg_Severity s, sg_Description s, sg_TraceIDs s))
      (filter_mset (\<lambda>s. sg_Type s = SignalRepeatedFailure) (mset (fst (Mine id id 0 ts sm)))) =
    {#(SeverityWarning, RepeatedTimes 3 (truncate ''timeout'' 100), [''a'', ''b'', ''c''])#}"
    using repeated_failures_mined [of id id 0 ts sm] unfolding one by (simp add: f three)
  then show ?thesis unfolding t_def [symmetric] Let_def ts_def sm_def by (simp add: truncate_def)
qed

end
