(* ===== verification/Mutation_Evaluation.thy ===== *)
theory Mutation_Evaluation
  imports Evolver_Types Float_Near
begin

text \<open>
  \<open>pkg/evolver/evaluation.go\<close>: a mutation is scored by a rubric of rules, optionally averaged with a
  language model's judgement, and passes from a share of the maximum on. The model is a parameter
  over a world \<open>'w\<close>, decoding its answer too. Texts that contain formatted numbers are kept as the
  values they show.
\<close>

section \<open>Data\<close>

record rubric_criterion =
  cr_Name :: string
  cr_Description :: string
  cr_Weight :: f64
  cr_MaxScore :: f64

record rubric_score =
  rb_Criterion :: string
  rb_Weight :: f64
  rb_Score :: f64
  rb_MaxScore :: f64

datatype reasoning = RuleReasoning "(string \<times> f64) list" | Reasoning string

record evaluation_result =
  er_MutationID :: string
  er_Score :: f64
  er_MaxScore :: f64
  er_Pass :: bool
  er_Method :: string
  er_Reasoning :: reasoning
  er_Duration :: duration
  er_EvaluatedAt :: time
  er_EvaluatorID :: string
  er_RubricResults :: "rubric_score list"

record evaluation_config =
  ec_PassThreshold :: f64
  ec_MaxScore :: f64
  ec_Rubric :: "rubric_criterion list"
  ec_LLMAsJudge :: bool

definition DefaultEvaluationConfig :: evaluation_config where
  "DefaultEvaluationConfig =
     \<lparr>ec_PassThreshold = flit (6 / 10), ec_MaxScore = flit 10, ec_Rubric =
       [\<lparr>cr_Name = ''correctness'', cr_Description = ''Does the mutation address the root cause?'',
          cr_Weight = flit (4 / 10), cr_MaxScore = flit 10\<rparr>,
        \<lparr>cr_Name = ''safety'', cr_Description = ''Could the mutation cause regressions or side effects?'',
          cr_Weight = flit (3 / 10), cr_MaxScore = flit 10\<rparr>,
        \<lparr>cr_Name = ''efficiency'', cr_Description = ''Does the mutation improve latency/cost?'',
          cr_Weight = flit (2 / 10), cr_MaxScore = flit 10\<rparr>,
        \<lparr>cr_Name = ''clarity'', cr_Description = ''Is the mutation reasoning clear and actionable?'',
          cr_Weight = flit (1 / 10), cr_MaxScore = flit 10\<rparr>],
      ec_LLMAsJudge = False\<rparr>"

datatype judge_prompt = JudgePrompt signal mutation "rubric_score list" f64

text \<open>The language model, and what its answer decodes to.\<close>

record 'w judge =
  jg_Complete :: "judge_prompt \<Rightarrow> 'w \<Rightarrow> (string + string) \<times> 'w"
  jg_decode :: "string \<Rightarrow> (f64 \<times> string) option"

record 'w harness =
  ha_cfg :: evaluation_config
  ha_llm :: "'w judge option"
  ha_results :: "evaluation_result list"

definition NewEvaluationHarness :: "evaluation_config \<Rightarrow> 'w judge option \<Rightarrow> 'w harness" where
  "NewEvaluationHarness cfg llm =
     (let cfg = (if fle (ec_MaxScore cfg) (flit 0) then cfg\<lparr>ec_MaxScore := flit 10\<rparr> else cfg);
          cfg = (if fle (ec_PassThreshold cfg) (flit 0) then cfg\<lparr>ec_PassThreshold := flit (6 / 10)\<rparr> else cfg)
      in \<lparr>ha_cfg = cfg, ha_llm = llm, ha_results = []\<rparr>)"

section \<open>Scoring\<close>

definition correctness_score :: "f64 \<Rightarrow> mutation \<Rightarrow> f64" where
  "correctness_score m mut =
     (let score = fmul m (flit (5 / 10));
          score = (if m_GeneID mut \<noteq> [] then fadd score (fmul m (flit (3 / 10))) else score)
      in if m_Reasoning mut \<noteq> [] \<and> 20 < length (m_Reasoning mut) then fadd score (fmul m (flit (2 / 10))) else score)"

definition safety_score :: "f64 \<Rightarrow> mutation \<Rightarrow> f64" where
  "safety_score m mut =
     (if m_RiskEstimate mut = RiskLow then fmul m (flit (9 / 10))
      else if m_RiskEstimate mut = RiskMedium then fmul m (flit (6 / 10))
      else if m_RiskEstimate mut = RiskHigh then fmul m (flit (3 / 10))
      else fmul m (flit (5 / 10)))"

definition saves_money :: "mutation \<Rightarrow> bool" where
  "saves_money mut \<longleftrightarrow>
     (let r = to_lower (m_Reasoning mut) in contains r ''cache'' \<or> contains r ''lighter'' \<or> contains r ''cheaper'')"

definition efficiency_score :: "f64 \<Rightarrow> mutation \<Rightarrow> signal \<Rightarrow> f64" where
  "efficiency_score m mut sig =
     (let score = fmul m (flit (5 / 10)) in
      if sg_Type sig = SignalHighLatency \<or> sg_Type sig = SignalCostSpike
      then if saves_money mut then fadd score (fmul m (flit (3 / 10))) else score
      else score)"

definition clarity_score :: "f64 \<Rightarrow> mutation \<Rightarrow> f64" where
  "clarity_score m mut =
     (if 50 < length (m_Reasoning mut) then fmul m (flit (8 / 10))
      else if 20 < length (m_Reasoning mut) then fmul m (flit (5 / 10))
      else fmul m (flit (2 / 10)))"

definition scoreCriterion :: "rubric_criterion \<Rightarrow> mutation \<Rightarrow> signal \<Rightarrow> f64" where
  "scoreCriterion c mut sig =
     (if cr_Name c = ''correctness'' then correctness_score (cr_MaxScore c) mut
      else if cr_Name c = ''safety'' then safety_score (cr_MaxScore c) mut
      else if cr_Name c = ''efficiency'' then efficiency_score (cr_MaxScore c) mut sig
      else if cr_Name c = ''clarity'' then clarity_score (cr_MaxScore c) mut
      else fmul (cr_MaxScore c) (flit (5 / 10)))"

definition scoreByRules :: "evaluation_config \<Rightarrow> mutation \<Rightarrow> signal \<Rightarrow> rubric_score list" where
  "scoreByRules cfg mut sig =
     map (\<lambda>c. \<lparr>rb_Criterion = cr_Name c, rb_Weight = cr_Weight c, rb_Score = scoreCriterion c mut sig,
       rb_MaxScore = cr_MaxScore c\<rparr>) (ec_Rubric cfg)"

definition generateRuleReasoning :: "rubric_score list \<Rightarrow> reasoning" where
  "generateRuleReasoning rubrics =
     RuleReasoning (map (\<lambda>r. (rb_Criterion r,
       if flt (flit 0) (rb_MaxScore r) then fmul (fdiv (rb_Score r) (rb_MaxScore r)) (flit 100) else flit 0)) rubrics)"

definition llmJudge :: "evaluation_config \<Rightarrow> 'w judge \<Rightarrow> mutation \<Rightarrow> signal \<Rightarrow> rubric_score list \<Rightarrow> 'w \<Rightarrow>
    (string + f64 \<times> string) \<times> 'w" where
  "llmJudge cfg llm mut sig rules w =
     (case jg_Complete llm (JudgePrompt sig mut rules (ec_MaxScore cfg)) w of
        (Inl e, w) \<Rightarrow> (Inl e, w)
      | (Inr resp, w) \<Rightarrow>
          (case jg_decode llm resp of
             None \<Rightarrow> (Inr (fmul (ec_MaxScore cfg) (flit (5 / 10)), resp), w)
           | Some r \<Rightarrow> (Inr r, w)))"

definition add_weighted :: "f64 \<times> f64 \<Rightarrow> rubric_score \<Rightarrow> f64 \<times> f64" where
  "add_weighted st r = (fadd (fst st) (fmul (rb_Score r) (rb_Weight r)), fadd (snd st) (fmul (rb_MaxScore r) (rb_Weight r)))"

definition rule_score :: "evaluation_config \<Rightarrow> rubric_score list \<Rightarrow> f64" where
  "rule_score cfg rules =
     (let (weightedSum, totalWeight) = foldl add_weighted (flit 0, flit 0) rules in
      if flt (flit 0) totalWeight then fmul (fdiv weightedSum totalWeight) (ec_MaxScore cfg) else flit 0)"

definition Evaluate :: "('w \<Rightarrow> time) \<Rightarrow> mutation \<Rightarrow> signal \<Rightarrow> 'w harness \<Rightarrow> 'w \<Rightarrow> evaluation_result \<times> 'w harness \<times> 'w" where
  "Evaluate clock mut sig h w =
     (let start = clock w; cfg = ha_cfg h;
          rules = scoreByRules cfg mut sig;
          score = rule_score cfg rules;
          (judged, w) = (if ec_LLMAsJudge cfg
             then case ha_llm h of None \<Rightarrow> (Inl [], w) | Some llm \<Rightarrow> llmJudge cfg llm mut sig rules w
             else (Inl [], w));
          (method, score, reasoning) = (case judged of
             Inl _ \<Rightarrow> (''rule_based'', score, Reasoning [])
           | Inr (s, text) \<Rightarrow> (''llm_as_judge'', fdiv (fadd score s) (flit 2), Reasoning text));
          result = \<lparr>er_MutationID = m_ID mut, er_Score = score, er_MaxScore = ec_MaxScore cfg,
            er_Pass = fle (fmul (ec_PassThreshold cfg) (ec_MaxScore cfg)) score, er_Method = method,
            er_Reasoning = (if reasoning = Reasoning [] then generateRuleReasoning rules else reasoning),
            er_Duration = time_sub (clock w) start, er_EvaluatedAt = start, er_EvaluatorID = ''evaluation_harness'',
            er_RubricResults = rules\<rparr>
      in (result, h\<lparr>ha_results := ha_results h @ [result]\<rparr>, w))"

definition PassRate :: "'w harness \<Rightarrow> f64" where
  "PassRate h =
     (if ha_results h = [] then flit 0
      else fdiv (f_of_int (int (length (filter er_Pass (ha_results h))))) (f_of_int (int (length (ha_results h)))))"

section \<open>The default rubric\<close>

text \<open>What the rules say of a mutation, in tenths of a point: at most 100, and 60 are a pass.\<close>

definition correctness_points :: "mutation \<Rightarrow> int" where
  "correctness_points mut = 5 + (if m_GeneID mut \<noteq> [] then 3 else 0) + (if 20 < length (m_Reasoning mut) then 2 else 0)"

definition safety_points :: "mutation \<Rightarrow> int" where
  "safety_points mut = (if m_RiskEstimate mut = RiskLow then 9 else if m_RiskEstimate mut = RiskMedium then 6
     else if m_RiskEstimate mut = RiskHigh then 3 else 5)"

definition efficiency_points :: "mutation \<Rightarrow> signal \<Rightarrow> int" where
  "efficiency_points mut sig =
     (if (sg_Type sig = SignalHighLatency \<or> sg_Type sig = SignalCostSpike) \<and> saves_money mut then 8 else 5)"

definition clarity_points :: "mutation \<Rightarrow> int" where
  "clarity_points mut = (if 50 < length (m_Reasoning mut) then 8 else if 20 < length (m_Reasoning mut) then 5 else 2)"

definition points :: "mutation \<Rightarrow> signal \<Rightarrow> int" where
  "points mut sig = 4 * correctness_points mut + 3 * safety_points mut + 2 * efficiency_points mut sig + clarity_points mut"

text \<open>The doubles are within a millionth of the points.\<close>

abbreviation close :: "f64 \<Rightarrow> rat \<Rightarrow> bool" where "close \<equiv> near (1 / 2 ^ 34)"

lemma close_add:
  "near (1 / 2 ^ 36) x a \<Longrightarrow> near (1 / 2 ^ 36) y b \<Longrightarrow> \<bar>a + b\<bar> \<le> 20 \<Longrightarrow> near (1 / 2 ^ 35 + 1 / 2 ^ 40) (fadd x y) (a + b)"
  by (rule near_add_within) auto

lemma close_add3:
  "near (1 / 2 ^ 35 + 1 / 2 ^ 40) x a \<Longrightarrow> near (1 / 2 ^ 36) y b \<Longrightarrow> \<bar>a + b\<bar> \<le> 20 \<Longrightarrow> close (fadd x y) (a + b)"
  by (rule near_add_within) auto

lemma correctness_close: "close (correctness_score (Fin 10) mut) (of_int (correctness_points mut))"
proof -
  have a: "near (1 / 2 ^ 36) (fmul (Fin 10) (flit (5 / 10))) 5" "near (1 / 2 ^ 36) (fmul (Fin 10) (flit (3 / 10))) 3"
    "near (1 / 2 ^ 36) (fmul (Fin 10) (flit (2 / 10))) 2"
    using tenth [of "5 / 10"] tenth [of "3 / 10"] tenth [of "2 / 10"] by simp_all
  have b: "near (1 / 2 ^ 35 + 1 / 2 ^ 40) (fadd (fmul (Fin 10) (flit (5 / 10))) (fmul (Fin 10) (flit (3 / 10)))) 8"
    "near (1 / 2 ^ 35 + 1 / 2 ^ 40) (fadd (fmul (Fin 10) (flit (5 / 10))) (fmul (Fin 10) (flit (2 / 10)))) 7"
    using close_add [OF a(1,2)] close_add [OF a(1,3)] by simp_all
  have c: "close (fadd (fadd (fmul (Fin 10) (flit (5 / 10))) (fmul (Fin 10) (flit (3 / 10)))) (fmul (Fin 10) (flit (2 / 10)))) 10"
    using close_add3 [OF b(1) a(3)] by simp
  have d: "close (fmul (Fin 10) (flit (5 / 10))) 5" "close (fadd (fmul (Fin 10) (flit (5 / 10))) (fmul (Fin 10) (flit (3 / 10)))) 8"
    "close (fadd (fmul (Fin 10) (flit (5 / 10))) (fmul (Fin 10) (flit (2 / 10)))) 7"
    by (rule near_mono [OF a(1)], simp) (rule near_mono [OF b(1)], simp, rule near_mono [OF b(2)], simp)
  have "20 < length (m_Reasoning mut) \<Longrightarrow> m_Reasoning mut \<noteq> []" by auto
  with c d show ?thesis by (simp add: correctness_score_def correctness_points_def Let_def)
qed

lemma safety_close: "close (safety_score (Fin 10) mut) (of_int (safety_points mut))"
  using tenth [of "9 / 10"] tenth [of "6 / 10"] tenth [of "3 / 10"] tenth [of "5 / 10"]
  by (auto simp: safety_score_def safety_points_def elim: near_mono)

lemma efficiency_close: "close (efficiency_score (Fin 10) mut sig) (of_int (efficiency_points mut sig))"
proof -
  have a: "near (1 / 2 ^ 36) (fmul (Fin 10) (flit (5 / 10))) 5" "near (1 / 2 ^ 36) (fmul (Fin 10) (flit (3 / 10))) 3"
    using tenth [of "5 / 10"] tenth [of "3 / 10"] by simp_all
  have "close (fmul (Fin 10) (flit (5 / 10))) 5" by (rule near_mono [OF a(1)]) simp
  moreover have "close (fadd (fmul (Fin 10) (flit (5 / 10))) (fmul (Fin 10) (flit (3 / 10)))) 8"
    using near_mono [OF close_add [OF a], of "1 / 2 ^ 34"] by simp
  ultimately show ?thesis by (simp add: efficiency_score_def efficiency_points_def Let_def)
qed

lemma clarity_close: "close (clarity_score (Fin 10) mut) (of_int (clarity_points mut))"
  using tenth [of "8 / 10"] tenth [of "5 / 10"] tenth [of "2 / 10"]
  by (auto simp: clarity_score_def clarity_points_def elim: near_mono)

lemma weighted_close:
  "close s p \<Longrightarrow> 0 \<le> p \<Longrightarrow> p \<le> 10 \<Longrightarrow> 0 \<le> w \<Longrightarrow> w \<le> 1 \<Longrightarrow> near (1 / 2 ^ 32) (fmul s (flit w)) (p * w)"
  by (rule near_mono [OF near_mul [of "1 / 2 ^ 34" s p ulp "flit w" w 10 1]]) (simp_all add: near_lit_unit)

text \<open>The sum over the four criteria.\<close>

lemma four_terms:
  assumes "\<And>i. i < 4 \<Longrightarrow> near (1 / 2 ^ 32) (x i) (a i) \<and> 0 \<le> a i \<and> a i \<le> 5"
  shows "near (1 / 2 ^ 29) (fadd (fadd (fadd (fadd (Fin 0) (x 0)) (x 1)) (x 2)) (x (3::nat))) (a 0 + a 1 + a 2 + a 3)"
proof -
  have t: "near (1 / 2 ^ 32) (x 0) (a 0)" "0 \<le> a 0" "a 0 \<le> 5" "near (1 / 2 ^ 32) (x 1) (a 1)" "0 \<le> a 1" "a 1 \<le> 5"
    "near (1 / 2 ^ 32) (x 2) (a 2)" "0 \<le> a 2" "a 2 \<le> 5" "near (1 / 2 ^ 32) (x 3) (a 3)" "0 \<le> a 3" "a 3 \<le> 5"
    using assms [of 0] assms [of 1] assms [of 2] assms [of 3] by auto
  have "near (0 + 1 / 2 ^ 31) (fadd (Fin 0) (x 0)) (0 + a 0)" by (rule sum_close) (use t in simp_all)
  then have "near (1 / 2 ^ 31 + 1 / 2 ^ 31) (fadd (fadd (Fin 0) (x 0)) (x 1)) (a 0 + a 1)"
    by (intro sum_close) (use t in simp_all)
  then have "near (1 / 2 ^ 31 + 1 / 2 ^ 31 + 1 / 2 ^ 31) (fadd (fadd (fadd (Fin 0) (x 0)) (x 1)) (x 2)) (a 0 + a 1 + a 2)"
    by (rule sum_close) (use t in simp_all)
  then have "near (1 / 2 ^ 31 + 1 / 2 ^ 31 + 1 / 2 ^ 31 + 1 / 2 ^ 31)
      (fadd (fadd (fadd (fadd (Fin 0) (x 0)) (x 1)) (x 2)) (x 3)) (a 0 + a 1 + a 2 + a 3)"
    by (rule sum_close) (use t in simp_all)
  then show ?thesis by (rule near_mono) simp
qed

lemma points_bounds:
  "5 \<le> correctness_points mut" "correctness_points mut \<le> 10" "3 \<le> safety_points mut" "safety_points mut \<le> 9"
  "5 \<le> efficiency_points mut sig" "efficiency_points mut sig \<le> 8" "2 \<le> clarity_points mut" "clarity_points mut \<le> 8"
  by (simp_all add: correctness_points_def safety_points_def efficiency_points_def clarity_points_def)

lemma default_rule_score:
  "near (1 / 2 ^ 20) (rule_score DefaultEvaluationConfig (scoreByRules DefaultEvaluationConfig mut sig)) (of_int (points mut sig) / 10)"
proof -
  define w where "w = (\<lambda>i :: nat. (4 - of_nat i) / 10 :: rat)"
  define s where "s = (\<lambda>i :: nat. if i = 0 then correctness_score (Fin 10) mut else if i = 1 then safety_score (Fin 10) mut
    else if i = 2 then efficiency_score (Fin 10) mut sig else clarity_score (Fin 10) mut)"
  define p where "p = (\<lambda>i :: nat. of_int (if i = 0 then correctness_points mut else if i = 1 then safety_points mut
    else if i = 2 then efficiency_points mut sig else clarity_points mut) :: rat)"
  have w: "w 0 = 4 / 10" "w 1 = 3 / 10" "w 2 = 2 / 10" "w 3 = 1 / 10" by (simp_all add: w_def)
  have sp: "close (s i) (p i)" for i
    using correctness_close [of mut] safety_close [of mut] efficiency_close [of mut sig] clarity_close [of mut]
    by (simp add: s_def p_def)
  have p: "0 \<le> p i" "p i \<le> 10" for i using points_bounds(1-4,7,8) [of mut] points_bounds(5,6) [of mut sig] by (auto simp: p_def)
  have terms: "near (1 / 2 ^ 32) (fmul (s i) (flit (w i))) (p i * w i) \<and> 0 \<le> p i * w i \<and> p i * w i \<le> 5" if "i < 4" for i
  proof -
    have wi: "0 \<le> w i" "w i \<le> 1 / 2" using that by (simp_all add: w_def)
    have "p i * w i \<le> 10 * (1 / 2)" using p wi by (intro mult_mono) simp_all
    then show ?thesis using weighted_close [OF sp p] p wi by simp
  qed
  have sum: "near (1 / 2 ^ 29) (fadd (fadd (fadd (fadd (Fin 0) (fmul (s 0) (flit (w 0)))) (fmul (s 1) (flit (w 1)))) (fmul (s 2) (flit (w 2))))
      (fmul (s 3) (flit (w 3)))) (p 0 * w 0 + p 1 * w 1 + p 2 * w 2 + p 3 * w 3)"
    by (rule four_terms [of "\<lambda>i. fmul (s i) (flit (w i))" "\<lambda>i. p i * w i"]) (rule terms)
  have max_terms: "near (1 / 2 ^ 32) (fmul (Fin 10) (flit (w i))) (10 * w i) \<and> 0 \<le> 10 * w i \<and> 10 * w i \<le> 5" if "i < 4" for i
    using that tenth [of "w i"] by (auto simp: w_def elim: near_mono)
  have tot: "near (1 / 2 ^ 29) (fadd (fadd (fadd (fadd (Fin 0) (fmul (Fin 10) (flit (w 0)))) (fmul (Fin 10) (flit (w 1)))) (fmul (Fin 10) (flit (w 2))))
      (fmul (Fin 10) (flit (w 3)))) 10"
    using four_terms [of "\<lambda>i. fmul (Fin 10) (flit (w i))" "\<lambda>i. 10 * w i", OF max_terms] by (simp add: w w(2) [unfolded One_nat_def])
  let ?S = "fadd (fadd (fadd (fadd (Fin 0) (fmul (s 0) (flit (w 0)))) (fmul (s 1) (flit (w 1)))) (fmul (s 2) (flit (w 2)))) (fmul (s 3) (flit (w 3)))"
  let ?T = "fadd (fadd (fadd (fadd (Fin 0) (fmul (Fin 10) (flit (w 0)))) (fmul (Fin 10) (flit (w 1)))) (fmul (Fin 10) (flit (w 2)))) (fmul (Fin 10) (flit (w 3)))"
  have eq: "rule_score DefaultEvaluationConfig (scoreByRules DefaultEvaluationConfig mut sig) =
      (if flt (Fin 0) ?T then fmul (fdiv ?S ?T) (Fin 10) else Fin 0)"
    unfolding rule_score_def scoreByRules_def DefaultEvaluationConfig_def
    by (simp add: add_weighted_def scoreCriterion_def ten zero_f w w(2) [unfolded One_nat_def] s_def)
  have pos: "flt (Fin 0) ?T" by (rule near_flt [of 0 _ 0, OF _ tot]) simp_all
  define Q where "Q = p 0 * w 0 + p 1 * w 1 + p 2 * w 2 + p 3 * w 3"
  have q: "Q = of_int (points mut sig) / 10" by (simp add: Q_def w w(2) [unfolded One_nat_def] p_def points_def field_simps)
  have q_range: "0 \<le> Q" "Q \<le> 10" unfolding q using points_bounds(1-4,7,8) [of mut] points_bounds(5,6) [of mut sig]
    by (simp_all add: points_def)
  have "near (1 / 2 ^ 24) (fdiv ?S ?T) (Q / 10)"
    by (rule near_mono [OF near_div [OF sum [folded Q_def] tot, of 10]]) (use q_range in simp_all)
  then have "near (1 / 2 ^ 20) (fmul (fdiv ?S ?T) (Fin 10)) (Q / 10 * 10)"
    by (intro near_mono [OF near_mul [of "1 / 2 ^ 24" _ _ 0 "Fin 10" 10 1 10]]) (use q_range in simp_all)
  then show ?thesis unfolding eq if_P [OF pos] by (simp add: q)
qed

text \<open>Sixty points are never hit exactly, so the rounding decides nothing.\<close>

lemma points_not_sixty: "points mut sig \<noteq> 60"
  by (simp add: points_def correctness_points_def safety_points_def efficiency_points_def clarity_points_def)

lemma pass_mark: "near (1 / 2 ^ 20) (fmul (flit (6 / 10)) (flit 10)) 6"
  by (rule near_mono [OF near_mul [of ulp _ "6 / 10" 0 _ 10 1 10, simplified]]) (use near_lit_unit [of "6 / 10"] in \<open>simp_all add: ten\<close>)

lemma evaluation_verdict:
  assumes "Evaluate clock mut sig (NewEvaluationHarness DefaultEvaluationConfig llm) w = (r, h, w')"
  shows "(er_Pass r \<longleftrightarrow> 60 \<le> points mut sig) \<and> er_Method r = ''rule_based'' \<and> ha_results h = [r] \<and> w' = w"
proof -
  let ?s = "rule_score DefaultEvaluationConfig (scoreByRules DefaultEvaluationConfig mut sig)"
  have ok: "\<not> fle (flit 10) (flit 0)" "\<not> fle (flit (6 / 10)) (flit 0)"
    using near_lit_unit [of "6 / 10"] unfolding ten zero_f by (auto simp: near_def)
  have cfg: "ha_cfg (NewEvaluationHarness DefaultEvaluationConfig llm) = DefaultEvaluationConfig"
    using ok by (simp add: NewEvaluationHarness_def DefaultEvaluationConfig_def)
  have no_judge: "\<not> ec_LLMAsJudge DefaultEvaluationConfig"
    "ec_PassThreshold DefaultEvaluationConfig = flit (6 / 10)" "ec_MaxScore DefaultEvaluationConfig = flit 10"
    by (simp_all add: DefaultEvaluationConfig_def)
  have r: "er_Pass r = fle (fmul (flit (6 / 10)) (flit 10)) ?s" "er_Method r = ''rule_based''" "w' = w"
    using assms by (auto simp: Evaluate_def cfg no_judge Let_def)
  have h: "ha_results h = [r]" using assms by (auto simp: Evaluate_def Let_def NewEvaluationHarness_def split: prod.splits sum.splits)
  have "fle (fmul (flit (6 / 10)) (flit 10)) ?s \<longleftrightarrow> 60 \<le> points mut sig"
  proof (cases "60 \<le> points mut sig")
    case True
    with points_not_sixty [of mut sig] have "61 \<le> points mut sig" by linarith
    then have "fle (fmul (flit (6 / 10)) (flit 10)) ?s" by (intro near_fle [OF pass_mark default_rule_score]) simp
    with True show ?thesis by blast
  next
    case False
    then have "flt ?s (fmul (flit (6 / 10)) (flit 10))" by (intro near_flt [OF default_rule_score pass_mark]) simp
    with False flt_not_fle show ?thesis by blast
  qed
  with r h show ?thesis by simp
qed

text \<open>C30: with the default rubric and no model as judge, a mutation passes exactly when the rules give it
  at least 60 points: correctness counts four times, safety three times, efficiency twice and clarity
  once, and no rounding of the doubles changes the verdict.\<close>

theorem evaluation_points:
  assumes "Evaluate clock mut sig (NewEvaluationHarness DefaultEvaluationConfig llm) w = (r, h, w')"
  shows "(er_Pass r \<longleftrightarrow> 60 \<le> points mut sig) \<and> er_Method r = ''rule_based'' \<and> ha_results h = [r] \<and> w' = w"
  using assms by (rule evaluation_verdict)

text \<open>A mutation proposed for a failing task.\<close>

definition retry_idea :: mutation where
  "retry_idea = \<lparr>m_ID = ''mut-000001'', m_SignalID = ''sig-000001'', m_GeneID = [], m_Reasoning = ''retry the whole task up to three times with a growing delay'',
     m_RiskEstimate = RiskCritical, m_Strategy = ModeBalanced, m_BeforeState = None, m_AfterState = None,
     m_Status = MutationStatusPending, m_ValidationLog = [], m_CreatedAt = 0, m_ResolvedAt = None\<rparr>"

definition failing_signal :: signal where
  "failing_signal = \<lparr>sg_ID = ''sig-000001'', sg_Type = SignalRepeatedFailure, sg_Severity = SeverityCritical,
     sg_Description = OtherDescription [], sg_TraceIDs = [], sg_DetectedAt = 0, sg_SuggestedMutation = []\<rparr>"

lemma retry_idea_points: "points retry_idea failing_signal = 61" "points (retry_idea\<lparr>m_RiskEstimate := RiskHigh\<rparr>) failing_signal = 55"
  by (simp_all add: points_def correctness_points_def safety_points_def efficiency_points_def clarity_points_def
      retry_idea_def failing_signal_def)

lemma evaluation_points_witness:
  "er_Pass (fst (Evaluate (\<lambda>w. w) retry_idea failing_signal (NewEvaluationHarness DefaultEvaluationConfig None) (0 :: int)))"
proof -
  obtain r h w' where e: "Evaluate (\<lambda>w. w) retry_idea failing_signal (NewEvaluationHarness DefaultEvaluationConfig None) (0 :: int) = (r, h, w')"
    by (rule prod_cases3)
  from evaluation_points [OF e] show ?thesis by (simp add: e retry_idea_points)
qed

text \<open>the rubric knows no critical risk: it falls to the middle score, so a critical mutation always
  scores higher than the same mutation at high risk, and there is one that passes as critical and
  fails as high.\<close>

theorem critical_scores_above_high:
  "flt (rule_score DefaultEvaluationConfig (scoreByRules DefaultEvaluationConfig (mut\<lparr>m_RiskEstimate := RiskHigh\<rparr>) sig))
      (rule_score DefaultEvaluationConfig (scoreByRules DefaultEvaluationConfig (mut\<lparr>m_RiskEstimate := RiskCritical\<rparr>) sig)) \<and>
   points (retry_idea\<lparr>m_RiskEstimate := RiskHigh\<rparr>) failing_signal < 60 \<and> 60 \<le> points retry_idea failing_signal"
proof -
  let ?h = "mut\<lparr>m_RiskEstimate := RiskHigh\<rparr>" and ?c = "mut\<lparr>m_RiskEstimate := RiskCritical\<rparr>"
  have "points ?c sig = points ?h sig + 6"
    by (simp add: points_def correctness_points_def safety_points_def efficiency_points_def clarity_points_def saves_money_def)
  then have "flt (rule_score DefaultEvaluationConfig (scoreByRules DefaultEvaluationConfig ?h sig))
      (rule_score DefaultEvaluationConfig (scoreByRules DefaultEvaluationConfig ?c sig))"
    by (intro near_flt [OF default_rule_score default_rule_score]) simp
  then show ?thesis by (simp add: retry_idea_points)
qed

end
