(* ===== verification/Evolver_Store.thy ===== *)
theory Evolver_Store
  imports Evolver_Types Disk
begin

text \<open>
  Where \<open>pkg/evolver\<close> keeps its documents: one JSON file per document in a directory per kind. The
  \<open>CapsuleStore\<close> of \<open>store.go\<close> and the \<open>FileStore\<close> of \<open>persist.go\<close> write the same layout. A codec is
  the JSON library for one type of document; identifiers are file names, without a slash.
  \<open>perm\<close> is the order in which an unstable sort leaves documents of the same age.
\<close>

section \<open>Directories and documents\<close>

definition list_names :: "string \<Rightarrow> 'd disk \<Rightarrow> string list" where
  "list_names dir d =
     sort (map (drop (length dir + 1))
       (filter (\<lambda>p. prefix (dir @ ''/'') p \<and> CHR ''/'' \<notin> set (drop (length dir + 1) p)) (map fst (d_files d))))"

text \<open>\<open>os.ReadDir\<close> without the subdirectories, which every caller skips.\<close>

definition ReadDir :: "string \<Rightarrow> 'd disk \<Rightarrow> (fs_error + string list) \<times> 'd disk" where
  "ReadDir dir d =
     (case outcome d of
        (IoOk, d) \<Rightarrow> (if dir \<in> set (d_dirs d) \<or> list_names dir d \<noteq> [] then Inr (list_names dir d) else Inl NotExist, d)
      | (IoFail e _, d) \<Rightarrow> (Inl (FsError e), d))"

record ('a, 'd) codec =
  co_enc :: "'a \<Rightarrow> string + 'd"
  co_dec :: "'d \<Rightarrow> string + 'a"

definition codec_ok :: "('a, 'd) codec \<Rightarrow> bool" where
  "codec_ok co \<longleftrightarrow> (\<forall>x y. co_enc co x = Inr y \<longrightarrow> co_dec co y = Inr x)"

datatype doc_error =
    CreateDir string fs_error
  | MarshalDoc string string
  | WriteDoc fs_error
  | ReadDoc string string fs_error
  | UnmarshalDoc string string
  | ListDocs string fs_error

definition doc_dir :: "string \<Rightarrow> string \<Rightarrow> string" where
  "doc_dir base sub = join_path base sub"

definition doc_path :: "string \<Rightarrow> string \<Rightarrow> string \<Rightarrow> string" where
  "doc_path base sub i = join_path (doc_dir base sub) (i @ ''.json'')"

primrec make_dirs :: "string \<Rightarrow> string list \<Rightarrow> 'd disk \<Rightarrow> (doc_error + string) \<times> 'd disk" where
  "make_dirs base [] d = (Inr base, d)"
| "make_dirs base (sub # subs) d =
     (case MkdirAll (doc_dir base sub) d of
        (Some e, d) \<Rightarrow> (Inl (CreateDir sub e), d)
      | (None, d) \<Rightarrow> make_dirs base subs d)"

definition saveJSON :: "string \<Rightarrow> string \<Rightarrow> string \<Rightarrow> string \<Rightarrow> (string + 'd) \<Rightarrow> 'd disk \<Rightarrow> doc_error option \<times> 'd disk" where
  "saveJSON kind base sub i encoded d =
     (case encoded of
        Inl e \<Rightarrow> (Some (MarshalDoc kind e), d)
      | Inr data \<Rightarrow> (let (r, d) = WriteFile (doc_path base sub i) data d in (map_option WriteDoc r, d)))"

definition loadJSON :: "('a, 'd) codec \<Rightarrow> string \<Rightarrow> string \<Rightarrow> string \<Rightarrow> string \<Rightarrow> 'd disk \<Rightarrow> (doc_error + 'a) \<times> 'd disk" where
  "loadJSON co kind base sub i d =
     (case ReadFile (doc_path base sub i) d of
        (Inl e, d) \<Rightarrow> (Inl (ReadDoc sub i e), d)
      | (Inr data, d) \<Rightarrow> (case co_dec co data of Inl e \<Rightarrow> (Inl (UnmarshalDoc kind e), d) | Inr v \<Rightarrow> (Inr v, d)))"

primrec read_files :: "string \<Rightarrow> string list \<Rightarrow> 'd disk \<Rightarrow> 'd list \<times> 'd disk" where
  "read_files dir [] d = ([], d)"
| "read_files dir (n # ns) d =
     (case ReadFile (join_path dir n) d of
        (Inl e, d) \<Rightarrow> read_files dir ns d
      | (Inr data, d) \<Rightarrow> (let (items, d) = read_files dir ns d in (data # items, d)))"

definition listJSONDir :: "string \<Rightarrow> string \<Rightarrow> 'd disk \<Rightarrow> (fs_error + 'd list) \<times> 'd disk" where
  "listJSONDir base sub d =
     (case ReadDir (doc_dir base sub) d of
        (Inl e, d) \<Rightarrow> (Inl e, d)
      | (Inr names, d) \<Rightarrow>
          (let (items, d) = read_files (doc_dir base sub) (filter (suffix ''.json'') names) d in (Inr items, d)))"

definition decode_each :: "('a, 'd) codec \<Rightarrow> 'd list \<Rightarrow> 'a list" where
  "decode_each co items = concat (map (\<lambda>x. case co_dec co x of Inl _ \<Rightarrow> [] | Inr v \<Rightarrow> [v]) items)"

definition listed :: "('a, 'd) codec \<Rightarrow> string \<Rightarrow> string \<Rightarrow> 'd disk \<Rightarrow> (doc_error + 'a list) \<times> 'd disk" where
  "listed co base sub d =
     (case listJSONDir base sub d of (Inl e, d) \<Rightarrow> (Inl (ListDocs [] e), d) | (Inr items, d) \<Rightarrow> (Inr (decode_each co items), d))"

definition newest_first :: "('a list \<Rightarrow> 'a list) \<Rightarrow> ('a \<Rightarrow> time) \<Rightarrow> 'a list \<Rightarrow> 'a list" where
  "newest_first perm age xs = sort_key (\<lambda>x. - age x) (perm xs)"

definition listed_newest :: "('a list \<Rightarrow> 'a list) \<Rightarrow> ('a \<Rightarrow> time) \<Rightarrow> ('a, 'd) codec \<Rightarrow> string \<Rightarrow> string \<Rightarrow> 'd disk \<Rightarrow>
    (doc_error + 'a list) \<times> 'd disk" where
  "listed_newest perm age co base sub d =
     (case listed co base sub d of (Inl e, d) \<Rightarrow> (Inl e, d) | (Inr vs, d) \<Rightarrow> (Inr (newest_first perm age vs), d))"

section \<open>The capsule store\<close>

definition NewCapsuleStore :: "string \<Rightarrow> 'd disk \<Rightarrow> (doc_error + string) \<times> 'd disk" where
  "NewCapsuleStore base = make_dirs base [''capsules'', ''events'', ''genes'']"

definition cs_SaveCapsule :: "(capsule, 'd) codec \<Rightarrow> time \<Rightarrow> string \<Rightarrow> capsule \<Rightarrow> 'd disk \<Rightarrow> doc_error option \<times> capsule \<times> 'd disk" where
  "cs_SaveCapsule co now base c d =
     (let c = c\<lparr>cp_UpdatedAt := now\<rparr>; (r, d) = saveJSON ''capsule'' base ''capsules'' (cp_ID c) (co_enc co c) d in (r, c, d))"

definition cs_LoadCapsule :: "(capsule, 'd) codec \<Rightarrow> string \<Rightarrow> string \<Rightarrow> 'd disk \<Rightarrow> (doc_error + capsule) \<times> 'd disk" where
  "cs_LoadCapsule co base i d = loadJSON co ''capsule'' base ''capsules'' i d"

text \<open>The loop of the three lists of \<open>store.go\<close>, which decodes every file as it reads it.\<close>

primrec read_docs :: "('a, 'd) codec \<Rightarrow> string \<Rightarrow> string list \<Rightarrow> 'd disk \<Rightarrow> 'a list \<times> 'd disk" where
  "read_docs co dir [] d = ([], d)"
| "read_docs co dir (n # ns) d =
     (if \<not> suffix ''.json'' n then read_docs co dir ns d
      else case ReadFile (join_path dir n) d of
        (Inl e, d) \<Rightarrow> read_docs co dir ns d
      | (Inr data, d) \<Rightarrow>
          (case co_dec co data of
             Inl e \<Rightarrow> read_docs co dir ns d
           | Inr v \<Rightarrow> (let (vs, d) = read_docs co dir ns d in (v # vs, d))))"

definition cs_list :: "('a list \<Rightarrow> 'a list) \<Rightarrow> ('a \<Rightarrow> time) \<Rightarrow> ('a, 'd) codec \<Rightarrow> string \<Rightarrow> string \<Rightarrow> 'd disk \<Rightarrow>
    (doc_error + 'a list) \<times> 'd disk" where
  "cs_list perm age co base sub d =
     (case ReadDir (doc_dir base sub) d of
        (Inl e, d) \<Rightarrow> (Inl (ListDocs sub e), d)
      | (Inr names, d) \<Rightarrow>
          (let (vs, d) = read_docs co (doc_dir base sub) names d in (Inr (newest_first perm age vs), d)))"

definition cs_ListCapsules :: "(capsule list \<Rightarrow> capsule list) \<Rightarrow> (capsule, 'd) codec \<Rightarrow> string \<Rightarrow> 'd disk \<Rightarrow>
    (doc_error + capsule list) \<times> 'd disk" where
  "cs_ListCapsules perm co base d = cs_list perm cp_UpdatedAt co base ''capsules'' d"

definition cs_SaveEvent :: "(evolution_event, 'd) codec \<Rightarrow> string \<Rightarrow> evolution_event \<Rightarrow> 'd disk \<Rightarrow> doc_error option \<times> 'd disk" where
  "cs_SaveEvent co base ev d = saveJSON ''event'' base ''events'' (ev_ID ev) (co_enc co ev) d"

definition cs_ListEvents :: "(evolution_event list \<Rightarrow> evolution_event list) \<Rightarrow> (evolution_event, 'd) codec \<Rightarrow> string \<Rightarrow> 'd disk \<Rightarrow>
    (doc_error + evolution_event list) \<times> 'd disk" where
  "cs_ListEvents perm co base d = cs_list perm ev_Timestamp co base ''events'' d"

definition cs_SaveGene :: "(gene, 'd) codec \<Rightarrow> time \<Rightarrow> string \<Rightarrow> gene \<Rightarrow> 'd disk \<Rightarrow> doc_error option \<times> gene \<times> 'd disk" where
  "cs_SaveGene co now base g d =
     (let g = g\<lparr>g_UpdatedAt := now\<rparr>; (r, d) = saveJSON ''gene'' base ''genes'' (g_ID g) (co_enc co g) d in (r, g, d))"

definition cs_LoadGene :: "(gene, 'd) codec \<Rightarrow> string \<Rightarrow> string \<Rightarrow> 'd disk \<Rightarrow> (doc_error + gene) \<times> 'd disk" where
  "cs_LoadGene co base i d = loadJSON co ''gene'' base ''genes'' i d"

definition cs_ListGenes :: "(gene list \<Rightarrow> gene list) \<Rightarrow> (gene, 'd) codec \<Rightarrow> string \<Rightarrow> 'd disk \<Rightarrow>
    (doc_error + gene list) \<times> 'd disk" where
  "cs_ListGenes perm co base d = cs_list perm g_UpdatedAt co base ''genes'' d"

section \<open>The file store\<close>

text \<open>The documents of the fleet and of the feedback loop.\<close>

record fleet_node =
  fn_ID :: string
  fn_Hostname :: string
  fn_Platform :: string
  fn_LastSeen :: time
  fn_Status :: string

record pattern_share =
  sh_SourceNode :: string
  sh_TargetNode :: string
  sh_PatternID :: string
  sh_PatternData :: string
  sh_Timestamp :: time

record task_delegation =
  td_ID :: string
  td_SourceNode :: string
  td_TargetNode :: string
  td_TaskType :: string
  td_Status :: string
  td_CreatedAt :: time

record feedback_signal =
  fs_Source :: string
  fs_Metric :: string
  fs_Value :: f64
  fs_Threshold :: f64
  fs_Severity :: string
  fs_Timestamp :: time

datatype action_description = Exceeds string f64 f64

record feedback_action =
  fa_SignalSource :: string
  fa_ActionType :: string
  fa_Description :: action_description
  fa_Applied :: bool

text \<open>\<open>UnixMilli\<close>; the zero time lies 62135596800 seconds before 1970.\<close>

definition unix_milli :: "time \<Rightarrow> int" where
  "unix_milli t = (t - 62135596800 * second) div millisecond"

definition NewFileStore :: "string \<Rightarrow> 'd disk \<Rightarrow> (doc_error + string) \<times> 'd disk" where
  "NewFileStore base = make_dirs base [''capsules'', ''events'', ''genes'', ''fleet/nodes'', ''fleet/shares'',
     ''fleet/delegations'', ''feedback/signals'', ''feedback/actions'']"

definition fl_SaveCapsule :: "(capsule, 'd) codec \<Rightarrow> time \<Rightarrow> string \<Rightarrow> capsule \<Rightarrow> 'd disk \<Rightarrow> doc_error option \<times> capsule \<times> 'd disk" where
  "fl_SaveCapsule co now base c d =
     (let c = c\<lparr>cp_UpdatedAt := now\<rparr>; (r, d) = saveJSON [] base ''capsules'' (cp_ID c) (co_enc co c) d in (r, c, d))"

definition fl_LoadCapsule :: "(capsule, 'd) codec \<Rightarrow> string \<Rightarrow> string \<Rightarrow> 'd disk \<Rightarrow> (doc_error + capsule) \<times> 'd disk" where
  "fl_LoadCapsule co base i d = loadJSON co [] base ''capsules'' i d"

definition fl_ListCapsules :: "(capsule list \<Rightarrow> capsule list) \<Rightarrow> (capsule, 'd) codec \<Rightarrow> string \<Rightarrow> 'd disk \<Rightarrow>
    (doc_error + capsule list) \<times> 'd disk" where
  "fl_ListCapsules perm co base d = listed_newest perm cp_UpdatedAt co base ''capsules'' d"

definition fl_SaveEvent :: "(evolution_event, 'd) codec \<Rightarrow> string \<Rightarrow> evolution_event \<Rightarrow> 'd disk \<Rightarrow> doc_error option \<times> 'd disk" where
  "fl_SaveEvent co base ev d = saveJSON [] base ''events'' (ev_ID ev) (co_enc co ev) d"

definition fl_ListEvents :: "(evolution_event list \<Rightarrow> evolution_event list) \<Rightarrow> (evolution_event, 'd) codec \<Rightarrow> string \<Rightarrow> 'd disk \<Rightarrow>
    (doc_error + evolution_event list) \<times> 'd disk" where
  "fl_ListEvents perm co base d = listed_newest perm ev_Timestamp co base ''events'' d"

definition fl_SaveGene :: "(gene, 'd) codec \<Rightarrow> time \<Rightarrow> string \<Rightarrow> gene \<Rightarrow> 'd disk \<Rightarrow> doc_error option \<times> gene \<times> 'd disk" where
  "fl_SaveGene co now base g d =
     (let g = g\<lparr>g_UpdatedAt := now\<rparr>; (r, d) = saveJSON [] base ''genes'' (g_ID g) (co_enc co g) d in (r, g, d))"

definition fl_LoadGene :: "(gene, 'd) codec \<Rightarrow> string \<Rightarrow> string \<Rightarrow> 'd disk \<Rightarrow> (doc_error + gene) \<times> 'd disk" where
  "fl_LoadGene co base i d = loadJSON co [] base ''genes'' i d"

definition fl_ListGenes :: "(gene list \<Rightarrow> gene list) \<Rightarrow> (gene, 'd) codec \<Rightarrow> string \<Rightarrow> 'd disk \<Rightarrow>
    (doc_error + gene list) \<times> 'd disk" where
  "fl_ListGenes perm co base d = listed_newest perm g_UpdatedAt co base ''genes'' d"

definition SaveFleetNode :: "(fleet_node, 'd) codec \<Rightarrow> string \<Rightarrow> fleet_node \<Rightarrow> 'd disk \<Rightarrow> doc_error option \<times> 'd disk" where
  "SaveFleetNode co base node d = saveJSON [] base ''fleet/nodes'' (fn_ID node) (co_enc co node) d"

definition ListFleetNodes :: "(fleet_node, 'd) codec \<Rightarrow> string \<Rightarrow> 'd disk \<Rightarrow> (doc_error + fleet_node list) \<times> 'd disk" where
  "ListFleetNodes co base d = listed co base ''fleet/nodes'' d"

definition share_id :: "pattern_share \<Rightarrow> string" where
  "share_id s = sh_SourceNode s @ ''-'' @ sh_PatternID s @ ''-'' @ show_int (unix_milli (sh_Timestamp s))"

definition SavePatternShare :: "(pattern_share, 'd) codec \<Rightarrow> string \<Rightarrow> pattern_share \<Rightarrow> 'd disk \<Rightarrow> doc_error option \<times> 'd disk" where
  "SavePatternShare co base s d = saveJSON [] base ''fleet/shares'' (share_id s) (co_enc co s) d"

definition ListPatternShares :: "(pattern_share, 'd) codec \<Rightarrow> string \<Rightarrow> 'd disk \<Rightarrow> (doc_error + pattern_share list) \<times> 'd disk" where
  "ListPatternShares co base d = listed co base ''fleet/shares'' d"

definition SaveTaskDelegation :: "(task_delegation, 'd) codec \<Rightarrow> string \<Rightarrow> task_delegation \<Rightarrow> 'd disk \<Rightarrow> doc_error option \<times> 'd disk" where
  "SaveTaskDelegation co base t d = saveJSON [] base ''fleet/delegations'' (td_ID t) (co_enc co t) d"

definition ListTaskDelegations :: "(task_delegation, 'd) codec \<Rightarrow> string \<Rightarrow> 'd disk \<Rightarrow> (doc_error + task_delegation list) \<times> 'd disk" where
  "ListTaskDelegations co base d = listed co base ''fleet/delegations'' d"

definition SaveFeedbackSignal :: "(feedback_signal, 'd) codec \<Rightarrow> string \<Rightarrow> feedback_signal \<Rightarrow> 'd disk \<Rightarrow> doc_error option \<times> 'd disk" where
  "SaveFeedbackSignal co base s d =
     saveJSON [] base ''feedback/signals'' (fs_Source s @ ''-'' @ fs_Metric s @ ''-'' @ show_int (unix_milli (fs_Timestamp s))) (co_enc co s) d"

definition ListFeedbackSignals :: "(feedback_signal, 'd) codec \<Rightarrow> string \<Rightarrow> 'd disk \<Rightarrow> (doc_error + feedback_signal list) \<times> 'd disk" where
  "ListFeedbackSignals co base d = listed co base ''feedback/signals'' d"

definition SaveFeedbackAction :: "(feedback_action, 'd) codec \<Rightarrow> time \<Rightarrow> string \<Rightarrow> feedback_action \<Rightarrow> 'd disk \<Rightarrow> doc_error option \<times> 'd disk" where
  "SaveFeedbackAction co now base a d =
     saveJSON [] base ''feedback/actions'' (fa_SignalSource a @ ''-'' @ fa_ActionType a @ ''-'' @ show_int (unix_milli now)) (co_enc co a) d"

definition ListFeedbackActions :: "(feedback_action, 'd) codec \<Rightarrow> string \<Rightarrow> 'd disk \<Rightarrow> (doc_error + feedback_action list) \<times> 'd disk" where
  "ListFeedbackActions co base d = listed co base ''feedback/actions'' d"

section \<open>Reading a directory\<close>

lemma set_list_names: "n \<in> set (list_names dir d) \<longleftrightarrow> CHR ''/'' \<notin> set n \<and> join_path dir n \<in> fst ` set (d_files d)"
  by (force simp: list_names_def join_path_def prefix_def)

lemma distinct_list_names: "wf_map (d_files d) \<Longrightarrow> distinct (list_names dir d)"
  by (auto simp: list_names_def wf_map_def distinct_map intro!: inj_onI) (auto simp: prefix_def)

lemma read_files_quiet:
  "d_next d = [] \<Longrightarrow> read_files dir ns d = (concat (map (\<lambda>n. case mget (d_files d) (join_path dir n) of None \<Rightarrow> [] | Some x \<Rightarrow> [x]) ns), d)"
  by (induction ns) (auto simp: disk_defs split: option.split)

lemma ReadDir_quiet:
  "d_next d = [] \<Longrightarrow> dir \<in> set (d_dirs d) \<Longrightarrow> ReadDir dir d = (Inr (list_names dir d), d)"
  by (simp add: ReadDir_def outcome_def)

text \<open>Both stores read a directory alike.\<close>

lemma read_docs_files:
  "read_docs co dir ns d = (let (items, d) = read_files dir (filter (suffix ''.json'') ns) d in (decode_each co items, d))"
  by (induction ns arbitrary: d) (auto simp: decode_each_def split: prod.splits sum.splits)

lemma doc_path_inj [simp]: "doc_path base sub i = doc_path base sub j \<longleftrightarrow> i = j"
  by (simp add: doc_path_def join_path_def)

lemma saveJSON_ok:
  "saveJSON kind base sub i enc d = (None, d') \<Longrightarrow>
   \<exists>x. enc = Inr x \<and> d_files d' = mset_at (d_files d) (doc_path base sub i) x \<and> d_dirs d' = d_dirs d"
  by (auto simp: saveJSON_def disk_defs split: sum.splits list.splits io_outcome.splits option.splits prod.splits)

lemma make_dirs_ok:
  "make_dirs base subs d = (Inr b, d') \<Longrightarrow> d_files d' = d_files d \<and> doc_dir base ` set subs \<subseteq> set (d_dirs d') \<and> set (d_dirs d) \<subseteq> set (d_dirs d')"
proof (induction subs arbitrary: d)
  case (Cons sub subs)
  from Cons.prems obtain d1 where m: "MkdirAll (doc_dir base sub) d = (None, d1)" "make_dirs base subs d1 = (Inr b, d')"
    by (auto split: prod.splits option.splits)
  from m(1) have "d_files d1 = d_files d" "doc_dir base sub \<in> set (d_dirs d1)" "set (d_dirs d) \<subseteq> set (d_dirs d1)"
    by (auto simp: disk_defs split: list.splits io_outcome.splits)
  with Cons.IH [OF m(2)] show ?case by auto
qed simp

text \<open>A directory that holds the documents \<open>latest\<close> names, and nothing else.\<close>

definition holds :: "('a, 'd) codec \<Rightarrow> string \<Rightarrow> string \<Rightarrow> (string \<Rightarrow> 'a option) \<Rightarrow> 'd disk \<Rightarrow> bool" where
  "holds co base sub latest d \<longleftrightarrow> wf_map (d_files d) \<and> doc_dir base sub \<in> set (d_dirs d) \<and> finite (dom latest) \<and>
     (\<forall>i \<in> dom latest. CHR ''/'' \<notin> set i) \<and> (\<forall>v \<in> ran latest. \<exists>x. co_enc co v = Inr x) \<and>
     (\<forall>n x. CHR ''/'' \<notin> set n \<longrightarrow> (mget (d_files d) (join_path (doc_dir base sub) n) = Some x \<longleftrightarrow>
        (\<exists>i v. n = i @ ''.json'' \<and> latest i = Some v \<and> co_enc co v = Inr x)))"

lemma holds_save:
  assumes "holds co base sub latest d" "saveJSON kind base sub i (co_enc co v) d = (None, d')" "CHR ''/'' \<notin> set i"
  shows "holds co base sub (latest(i \<mapsto> v)) d'"
proof -
  from saveJSON_ok [OF assms(2)] obtain x where x: "co_enc co v = Inr x"
    and f: "d_files d' = mset_at (d_files d) (doc_path base sub i) x" "d_dirs d' = d_dirs d" by auto
  have "join_path (doc_dir base sub) n = doc_path base sub i \<longleftrightarrow> n = i @ ''.json''" for n
    by (auto simp: doc_path_def join_path_def)
  with assms(1,3) x f show ?thesis unfolding holds_def by (auto simp: ran_def split: if_splits)
qed

lemma holds_listed:
  assumes "holds co base sub latest d" "codec_ok co" "d_next d = []"
  shows "\<exists>vs. listed co base sub d = (Inr vs, d) \<and> cs_list perm age co base sub d = (Inr (newest_first perm age vs), d) \<and>
    mset vs = image_mset (\<lambda>i. the (latest i)) (mset_set (dom latest))"
proof -
  let ?dir = "doc_dir base sub"
  define names where "names = filter (suffix ''.json'') (list_names ?dir d)"
  define ids where "ids = map (\<lambda>n. take (length n - 5) n) names"
  have wf: "wf_map (d_files d)" and dir: "?dir \<in> set (d_dirs d)" and fin: "finite (dom latest)"
    and plain: "\<And>i v. latest i = Some v \<Longrightarrow> CHR ''/'' \<notin> set i"
    and enc: "\<And>i v. latest i = Some v \<Longrightarrow> \<exists>x. co_enc co v = Inr x" using assms(1) by (auto simp: holds_def ran_def)
  have files: "CHR ''/'' \<notin> set n \<Longrightarrow> mget (d_files d) (join_path ?dir n) = Some x \<longleftrightarrow>
      (\<exists>i v. n = i @ ''.json'' \<and> latest i = Some v \<and> co_enc co v = Inr x)" for n x
    using assms(1) by (simp add: holds_def)
  have file_of: "\<exists>x. mget (d_files d) (join_path ?dir (i @ ''.json'')) = Some x \<and> co_dec co x = Inr v" if "latest i = Some v" for i v
    using plain [OF that] enc [OF that] that files [of "i @ ''.json''"] assms(2) by (auto simp: codec_ok_def)
  have named: "n \<in> set names \<longleftrightarrow> (\<exists>i v. latest i = Some v \<and> n = i @ ''.json'')" for n
  proof
    assume "n \<in> set names"
    then have "CHR ''/'' \<notin> set n" "\<exists>x. mget (d_files d) (join_path ?dir n) = Some x"
      by (auto simp: names_def set_list_names mget_key)
    then show "\<exists>i v. latest i = Some v \<and> n = i @ ''.json''" using files by force
  next
    assume "\<exists>i v. latest i = Some v \<and> n = i @ ''.json''"
    then obtain i v x where "n = i @ ''.json''" "CHR ''/'' \<notin> set i" "mget (d_files d) (join_path ?dir n) = Some x"
      using file_of plain by metis
    then show "n \<in> set names" by (simp add: names_def set_list_names mget_key suffix_def)
  qed
  have "set ids = dom latest" by (force simp: ids_def named image_iff)
  moreover have "distinct ids" unfolding ids_def names_def
    using distinct_list_names [OF wf, of ?dir] by (auto simp: distinct_map suffix_def intro!: inj_onI)
  ultimately have ids: "mset ids = mset_set (dom latest)" using mset_set_set by metis
  have docs: "concat (map (\<lambda>n. case mget (d_files d) (join_path ?dir n) of None \<Rightarrow> [] | Some x \<Rightarrow> (case co_dec co x of Inl _ \<Rightarrow> [] | Inr v \<Rightarrow> [v])) ns)
      = map (\<lambda>n. the (latest (take (length n - 5) n))) ns" if "set ns \<subseteq> set names" for ns
    using that
  proof (induction ns)
    case (Cons n ns)
    then obtain i v where "latest i = Some v" "n = i @ ''.json''" using named by auto
    with file_of [of i v] Cons show ?case by auto
  qed simp
  let ?vs = "map (\<lambda>i. the (latest i)) ids"
  have "decode_each co (concat (map (\<lambda>n. case mget (d_files d) (join_path ?dir n) of None \<Rightarrow> [] | Some x \<Rightarrow> [x]) ns)) =
      concat (map (\<lambda>n. case mget (d_files d) (join_path ?dir n) of None \<Rightarrow> [] | Some x \<Rightarrow> (case co_dec co x of Inl _ \<Rightarrow> [] | Inr v \<Rightarrow> [v])) ns)" for ns
    by (induction ns) (auto simp: decode_each_def split: option.splits)
  then have read: "decode_each co (concat (map (\<lambda>n. case mget (d_files d) (join_path ?dir n) of None \<Rightarrow> [] | Some x \<Rightarrow> [x]) names)) = ?vs"
    using docs [of names] by (simp add: ids_def o_def)
  have "listed co base sub d = (Inr ?vs, d)"
    using read by (simp add: listed_def listJSONDir_def ReadDir_quiet [OF assms(3) dir] read_files_quiet [OF assms(3)] names_def)
  moreover have "cs_list perm age co base sub d = (Inr (newest_first perm age ?vs), d)"
    using read by (simp add: cs_list_def ReadDir_quiet [OF assms(3) dir] read_docs_files read_files_quiet [OF assms(3)] names_def)
  moreover have "mset ?vs = image_mset (\<lambda>i. the (latest i)) (mset_set (dom latest))" using ids by simp
  ultimately show ?thesis by blast
qed

lemma newest_first_sorted:
  assumes "\<And>xs. mset (perm xs) = mset xs"
  shows "mset (newest_first perm age vs) = mset vs \<and> sorted_wrt (\<lambda>x y. age y \<le> age x) (newest_first perm age vs)"
proof -
  have "sorted (map (\<lambda>x. - age x) (newest_first perm age vs))" unfolding newest_first_def by (rule sorted_sort_key)
  then show ?thesis using assms by (simp add: newest_first_def sorted_map)
qed

text \<open>What was saved last under each identifier.\<close>

definition latest_saved :: "(time \<times> capsule) list \<Rightarrow> string \<Rightarrow> capsule option" where
  "latest_saved saves = map_of (rev (map (\<lambda>(now, c). (cp_ID c, c\<lparr>cp_UpdatedAt := now\<rparr>)) saves))"

text \<open>A run of saves that all succeed.\<close>

primrec save_all :: "(capsule, 'd) codec \<Rightarrow> string \<Rightarrow> (time \<times> capsule) list \<Rightarrow> 'd disk \<Rightarrow> 'd disk option" where
  "save_all co base [] d = Some d"
| "save_all co base (tc # saves) d =
     (case cs_SaveCapsule co (fst tc) base (snd tc) d of (None, _, d) \<Rightarrow> save_all co base saves d | (Some e, _, d) \<Rightarrow> None)"

lemma save_all_holds:
  "save_all co base saves d = Some d' \<Longrightarrow> holds co base ''capsules'' latest d \<Longrightarrow> \<forall>(now, c) \<in> set saves. CHR ''/'' \<notin> set (cp_ID c) \<Longrightarrow>
   holds co base ''capsules'' (latest ++ latest_saved saves) d'"
proof (induction saves arbitrary: d latest)
  case (Cons tc saves)
  obtain now c where tc: "tc = (now, c)" by force
  from Cons.prems(1) obtain d1 where s: "saveJSON ''capsule'' base ''capsules'' (cp_ID c) (co_enc co (c\<lparr>cp_UpdatedAt := now\<rparr>)) d = (None, d1)"
    "save_all co base saves d1 = Some d'" by (auto simp: tc cs_SaveCapsule_def Let_def split: prod.splits option.splits)
  have "holds co base ''capsules'' (latest(cp_ID c \<mapsto> c\<lparr>cp_UpdatedAt := now\<rparr>)) d1"
    using Cons.prems(2,3) s(1) by (intro holds_save) (auto simp: tc)
  from Cons.IH [OF s(2) this] Cons.prems(3) show ?case
    by (simp add: tc latest_saved_def map_add_upd_left [symmetric] del: fun_upd_apply)
qed (simp add: latest_saved_def)

text \<open>C33: after any run of saves the store lists exactly the last saved version of every capsule,
  newest first, and loads each by its identifier; the file store over the same directory lists the
  same documents.\<close>

theorem capsule_store_lists_latest:
  assumes "codec_ok co" "NewCapsuleStore base d0 = (Inr b, d1)" "d_files d0 = []" "save_all co base saves d1 = Some d"
    "d_next d = []" "\<forall>(now, c) \<in> set saves. CHR ''/'' \<notin> set (cp_ID c)" "\<And>xs. mset (perm xs) = mset xs"
  shows "\<exists>cs. cs_ListCapsules perm co base d = (Inr cs, d) \<and> fl_ListCapsules perm co base d = (Inr cs, d) \<and>
     mset cs = image_mset (\<lambda>i. the (latest_saved saves i)) (mset_set (cp_ID ` snd ` set saves)) \<and>
     sorted_wrt (\<lambda>c c'. cp_UpdatedAt c' \<le> cp_UpdatedAt c) cs \<and>
     (\<forall>now c. (now, c) \<in> set saves \<longrightarrow> cs_LoadCapsule co base (cp_ID c) d = (Inr (the (latest_saved saves (cp_ID c))), d))"
proof -
  from make_dirs_ok [OF assms(2) [unfolded NewCapsuleStore_def]] assms(3)
  have "holds co base ''capsules'' Map.empty d1" by (auto simp: holds_def)
  from save_all_holds [OF assms(4) this assms(6)] have h: "holds co base ''capsules'' (latest_saved saves) d" by simp
  have dom: "dom (latest_saved saves) = cp_ID ` snd ` set saves" by (force simp: latest_saved_def dom_map_of_conv_image_fst)
  from holds_listed [OF h assms(1,5), of perm cp_UpdatedAt] obtain vs where
    vs: "listed co base ''capsules'' d = (Inr vs, d)" "cs_list perm cp_UpdatedAt co base ''capsules'' d = (Inr (newest_first perm cp_UpdatedAt vs), d)"
      "mset vs = image_mset (\<lambda>i. the (latest_saved saves i)) (mset_set (dom (latest_saved saves)))" by blast
  have load: "cs_LoadCapsule co base i d = (Inr c, d)" if "latest_saved saves i = Some c" for i c
  proof -
    from h that have i: "CHR ''/'' \<notin> set (i @ ''.json'')" and "\<exists>x. co_enc co c = Inr x" by (auto simp: holds_def ran_def)
    then obtain x where "co_enc co c = Inr x" by blast
    moreover have "mget (d_files d) (join_path (doc_dir base ''capsules'') (i @ ''.json'')) = Some x \<longleftrightarrow>
        (\<exists>j v. i @ ''.json'' = j @ ''.json'' \<and> latest_saved saves j = Some v \<and> co_enc co v = Inr x)"
      using h i by (simp add: holds_def)
    ultimately have "mget (d_files d) (doc_path base ''capsules'' i) = Some x" "co_dec co x = Inr c"
      using that assms(1) by (auto simp: doc_path_def codec_ok_def)
    then show ?thesis using assms(5) by (simp add: cs_LoadCapsule_def loadJSON_def read_stored)
  qed
  have "cs_LoadCapsule co base (cp_ID c) d = (Inr (the (latest_saved saves (cp_ID c))), d)" if "(now, c) \<in> set saves" for now c
    using load [of "cp_ID c"] dom that by (metis domD image_eqI option.sel snd_conv)
  with vs newest_first_sorted [OF assms(7), of cp_UpdatedAt vs] show ?thesis
    by (auto simp: cs_ListCapsules_def fl_ListCapsules_def listed_newest_def dom)
qed

text \<open>A codec for the example below, and one saved capsule.\<close>

definition plain_codec :: "('a, 'a) codec" where
  "plain_codec = \<lparr>co_enc = Inr, co_dec = Inr\<rparr>"

definition blank_disk :: "'d disk" where
  "blank_disk = \<lparr>d_files = [], d_dirs = [], d_next = []\<rparr>"

definition retry_capsule :: capsule where
  "retry_capsule = \<lparr>cp_ID = ''cap-1'', cp_Name = ''retry'', cp_Description = [], cp_GeneIDs = [''g1''],
     cp_Environment = \<lparr>ef_OS = ''linux'', ef_Arch = ''amd64'', ef_GoVer = [], ef_CommitID = [], ef_Branch = []\<rparr>,
     cp_Metrics = \<lparr>ca_SuccessRate = flit 0, ca_AvgLatencyMs = flit 0, ca_EstimatedCostUSD = flit 0, ca_SampleCount = 0, ca_CustomMetrics = []\<rparr>,
     cp_Status = CapsuleStatusActive, cp_AppliedCount = 0, cp_LastApplied = None, cp_CreatedAt = 1, cp_UpdatedAt = 1,
     cp_ParentCapsuleID = [], cp_Metadata = []\<rparr>"

lemma capsule_store_lists_latest_witness:
  "\<exists>d1 d. NewCapsuleStore ''kb'' blank_disk = (Inr ''kb'', d1) \<and> save_all plain_codec ''kb'' [(5, retry_capsule)] d1 = Some d \<and>
     cs_LoadCapsule plain_codec ''kb'' ''cap-1'' d = (Inr (retry_capsule\<lparr>cp_UpdatedAt := 5\<rparr>), d)"
proof -
  define d1 where "d1 = snd (NewCapsuleStore ''kb'' (blank_disk :: capsule disk))"
  have n: "NewCapsuleStore ''kb'' blank_disk = (Inr ''kb'', d1)" "d_files d1 = []" "d_next d1 = []"
    by (simp_all add: d1_def NewCapsuleStore_def blank_disk_def disk_defs)
  define d where "d = the (save_all plain_codec ''kb'' [(5, retry_capsule)] d1)"
  have s: "save_all plain_codec ''kb'' [(5, retry_capsule)] d1 = Some d" "d_next d = []"
    using n by (simp_all add: d_def cs_SaveCapsule_def saveJSON_def plain_codec_def disk_defs Let_def)
  have "codec_ok (plain_codec :: (capsule, capsule) codec)" by (simp add: codec_ok_def plain_codec_def)
  from capsule_store_lists_latest [OF this n(1) _ s, of id]
  have "cs_LoadCapsule plain_codec ''kb'' (cp_ID retry_capsule) d = (Inr (the (latest_saved [(5, retry_capsule)] (cp_ID retry_capsule))), d)"
    by (simp add: blank_disk_def) (simp add: retry_capsule_def)
  then have "cs_LoadCapsule plain_codec ''kb'' ''cap-1'' d = (Inr (retry_capsule\<lparr>cp_UpdatedAt := 5\<rparr>), d)"
    by (simp add: latest_saved_def retry_capsule_def)
  with n(1) s(1) show ?thesis by blast
qed

text \<open>the file of a pattern share is named by its source, its pattern and the millisecond, so of two
  shares of one pattern with different nodes within a millisecond only the second is kept.\<close>

theorem pattern_share_overwritten:
  assumes "codec_ok co" "NewFileStore base d0 = (Inr b, d1)" "d_files d0 = []"
    "SavePatternShare co base s1 d1 = (None, d2)" "SavePatternShare co base s2 d2 = (None, d)" "d_next d = []"
    "sh_SourceNode s1 = sh_SourceNode s2" "sh_PatternID s1 = sh_PatternID s2"
    "unix_milli (sh_Timestamp s1) = unix_milli (sh_Timestamp s2)" "CHR ''/'' \<notin> set (share_id s1)"
  shows "ListPatternShares co base d = (Inr [s2], d)"
proof -
  have same: "share_id s1 = share_id s2" using assms(7-9) by (simp add: share_id_def)
  from make_dirs_ok [OF assms(2) [unfolded NewFileStore_def]] assms(3)
  have "holds co base ''fleet/shares'' Map.empty d1" by (auto simp: holds_def)
  from holds_save [OF this assms(4) [unfolded SavePatternShare_def] assms(10)]
  have "holds co base ''fleet/shares'' [share_id s1 \<mapsto> s1] d2" .
  from holds_save [OF this assms(5) [unfolded SavePatternShare_def]] assms(10) same
  have "holds co base ''fleet/shares'' [share_id s2 \<mapsto> s2] d" by simp
  from holds_listed [OF this assms(1,6)] show ?thesis by (auto simp: ListPatternShares_def)
qed

definition share_to :: "string \<Rightarrow> pattern_share" where
  "share_to target = \<lparr>sh_SourceNode = ''a'', sh_TargetNode = target, sh_PatternID = ''p'', sh_PatternData = [],
     sh_Timestamp = 62135596800 * second\<rparr>"

lemma pattern_share_overwritten_witness:
  "\<exists>d1 d2 d. NewFileStore ''kb'' blank_disk = (Inr ''kb'', d1) \<and> SavePatternShare plain_codec ''kb'' (share_to ''b'') d1 = (None, d2) \<and>
     SavePatternShare plain_codec ''kb'' (share_to ''c'') d2 = (None, d) \<and> ListPatternShares plain_codec ''kb'' d = (Inr [share_to ''c''], d)"
proof -
  define d1 where "d1 = snd (NewFileStore ''kb'' (blank_disk :: pattern_share disk))"
  define d2 where "d2 = snd (SavePatternShare plain_codec ''kb'' (share_to ''b'') d1)"
  define d where "d = snd (SavePatternShare plain_codec ''kb'' (share_to ''c'') d2)"
  have n: "NewFileStore ''kb'' blank_disk = (Inr ''kb'', d1)" "d_next d1 = []"
    by (simp_all add: d1_def NewFileStore_def blank_disk_def disk_defs)
  have s: "SavePatternShare plain_codec ''kb'' (share_to ''b'') d1 = (None, d2)" "d_next d2 = []"
    using n by (simp_all add: d2_def SavePatternShare_def saveJSON_def plain_codec_def disk_defs)
  have t: "SavePatternShare plain_codec ''kb'' (share_to ''c'') d2 = (None, d)" "d_next d = []"
    using s by (simp_all add: d_def SavePatternShare_def saveJSON_def plain_codec_def disk_defs)
  have "codec_ok (plain_codec :: (pattern_share, pattern_share) codec)" by (simp add: codec_ok_def plain_codec_def)
  moreover have "char_of (48 :: nat) = CHR ''0''" by code_simp
  ultimately have "ListPatternShares plain_codec ''kb'' d = (Inr [share_to ''c''], d)"
    using pattern_share_overwritten [OF _ n(1) _ s(1) t]
    by (simp add: blank_disk_def share_to_def share_id_def show_int_def unix_milli_def dec_nat.simps digit_def)
  with n s t show ?thesis by blast
qed

end
