(* ===== verification/Promotion.thy ===== *)
theory Promotion
  imports Mutation_Evaluation Evolver_Store
begin

text \<open>
  \<open>PromotionPipeline\<close> of \<open>pkg/evolver/promotion.go\<close>. Records are shared by pointer: the map leads from a
  mutation to the index of its latest record in a heap. \<open>Submit\<close> and \<open>Promote\<close> give the lock up while the
  mutation is evaluated and the capsule saved, so each is two steps here, and any other call can come
  between them. The evaluation's world and the disk are the environment of the steps.
\<close>

section \<open>Records\<close>

datatype promotion_status =
    PromotionPending | PromotionEvaluated | PromotionApproved | PromotionRejected | PromotionPromoted | PromotionRolledBack

datatype promotion_reason = Reason string | BelowThreshold f64 f64 | CooldownUntil string time

record promotion_record =
  pr_MutationID :: string
  pr_CapsuleID :: string
  pr_Status :: promotion_status
  pr_Evaluation :: "evaluation_result option"
  pr_ReviewedBy :: string
  pr_ReviewedAt :: "time option"
  pr_PromotedAt :: "time option"
  pr_RolledBackAt :: "time option"
  pr_Reason :: promotion_reason

record promotion_config =
  pc_AutoPromoteLowRisk :: bool
  pc_RequireHITL :: bool
  pc_PassThreshold :: f64

definition DefaultPromotionConfig :: promotion_config where
  "DefaultPromotionConfig = \<lparr>pc_AutoPromoteLowRisk = False, pc_RequireHITL = True, pc_PassThreshold = flit (6 / 10)\<rparr>"

record promotion_metrics =
  TotalSubmitted :: nat
  TotalEvaluated :: nat
  TotalApproved :: nat
  TotalRejected :: nat
  TotalPromoted :: nat
  TotalRolledBack :: nat

record pipeline =
  pp_cfg :: promotion_config
  pp_heap :: "promotion_record list"
  pp_records :: "(string, nat) gomap"
  pp_metrics :: promotion_metrics

definition NewPromotionPipeline :: "promotion_config \<Rightarrow> pipeline" where
  "NewPromotionPipeline cfg =
     (let cfg = (if fle (pc_PassThreshold cfg) (flit 0) then cfg\<lparr>pc_PassThreshold := flit (6 / 10)\<rparr> else cfg) in
      \<lparr>pp_cfg = cfg, pp_heap = [], pp_records = [],
       pp_metrics = \<lparr>TotalSubmitted = 0, TotalEvaluated = 0, TotalApproved = 0, TotalRejected = 0, TotalPromoted = 0, TotalRolledBack = 0\<rparr>\<rparr>)"

datatype promotion_error = NotFound string | WrongState string promotion_status promotion_status | SaveFailed doc_error

abbreviation set_record :: "nat \<Rightarrow> promotion_record \<Rightarrow> pipeline \<Rightarrow> pipeline" where
  "set_record i rec p \<equiv> p\<lparr>pp_heap := (pp_heap p)[i := rec]\<rparr>"

section \<open>Submitting\<close>

definition blank_record :: "string \<Rightarrow> promotion_record" where
  "blank_record mid = \<lparr>pr_MutationID = mid, pr_CapsuleID = [], pr_Status = PromotionPending, pr_Evaluation = None, pr_ReviewedBy = [],
     pr_ReviewedAt = None, pr_PromotedAt = None, pr_RolledBackAt = None, pr_Reason = Reason []\<rparr>"

definition submit_begin :: "mutation \<Rightarrow> pipeline \<Rightarrow> nat \<times> pipeline" where
  "submit_begin mut p =
     (let i = length (pp_heap p); m = pp_metrics p in
      (i, p\<lparr>pp_heap := pp_heap p @ [blank_record (m_ID mut)], pp_records := mset_at (pp_records p) (m_ID mut) i,
            pp_metrics := m\<lparr>TotalSubmitted := TotalSubmitted m + 1\<rparr>\<rparr>))"

definition submit_end :: "time \<Rightarrow> nat \<Rightarrow> mutation \<Rightarrow> evaluation_result \<Rightarrow> pipeline \<Rightarrow> pipeline" where
  "submit_end now i mut eval p =
     (let rec = (pp_heap p ! i)\<lparr>pr_Evaluation := Some eval, pr_Status := PromotionEvaluated\<rparr>;
          m = pp_metrics p; m = m\<lparr>TotalEvaluated := TotalEvaluated m + 1\<rparr>;
          cfg = pp_cfg p
      in if \<not> er_Pass eval
         then set_record i (rec\<lparr>pr_Status := PromotionRejected,
                pr_Reason := BelowThreshold (er_Score eval) (fmul (pc_PassThreshold cfg) (er_MaxScore eval))\<rparr>)
                (p\<lparr>pp_metrics := m\<lparr>TotalRejected := TotalRejected m + 1\<rparr>\<rparr>)
         else if pc_AutoPromoteLowRisk cfg \<and> m_RiskEstimate mut = RiskLow \<and> \<not> pc_RequireHITL cfg
         then set_record i (rec\<lparr>pr_Status := PromotionApproved, pr_ReviewedBy := ''auto_promote'', pr_ReviewedAt := Some now\<rparr>)
                (p\<lparr>pp_metrics := m\<lparr>TotalApproved := TotalApproved m + 1\<rparr>\<rparr>)
         else set_record i rec (p\<lparr>pp_metrics := m\<rparr>))"

text \<open>\<open>Submit\<close> undisturbed: the harness never answers an error.\<close>

definition Submit :: "('w \<Rightarrow> time) \<Rightarrow> mutation \<Rightarrow> signal \<Rightarrow> pipeline \<Rightarrow> 'w harness \<Rightarrow> 'w \<Rightarrow> nat \<times> pipeline \<times> 'w harness \<times> 'w" where
  "Submit clock mut sig p h w =
     (let (i, p) = submit_begin mut p; (eval, h, w) = Evaluate clock mut sig h w in
      (i, submit_end (clock w) i mut eval p, h, w))"

section \<open>Review\<close>

definition Approve :: "time \<Rightarrow> string \<Rightarrow> string \<Rightarrow> string \<Rightarrow> pipeline \<Rightarrow> promotion_error option \<times> pipeline" where
  "Approve now mid reviewer reason p =
     (case mget (pp_records p) mid of
        None \<Rightarrow> (Some (NotFound mid), p)
      | Some i \<Rightarrow>
          let rec = pp_heap p ! i; m = pp_metrics p in
          if pr_Status rec \<noteq> PromotionEvaluated then (Some (WrongState mid (pr_Status rec) PromotionEvaluated), p)
          else (None, set_record i (rec\<lparr>pr_Status := PromotionApproved, pr_ReviewedBy := reviewer, pr_ReviewedAt := Some now,
                        pr_Reason := Reason reason\<rparr>) (p\<lparr>pp_metrics := m\<lparr>TotalApproved := TotalApproved m + 1\<rparr>\<rparr>)))"

definition Reject :: "time \<Rightarrow> string \<Rightarrow> string \<Rightarrow> string \<Rightarrow> pipeline \<Rightarrow> promotion_error option \<times> pipeline" where
  "Reject now mid reviewer reason p =
     (case mget (pp_records p) mid of
        None \<Rightarrow> (Some (NotFound mid), p)
      | Some i \<Rightarrow>
          let rec = pp_heap p ! i; m = pp_metrics p in
          (None, set_record i (rec\<lparr>pr_Status := PromotionRejected, pr_ReviewedBy := reviewer, pr_ReviewedAt := Some now,
                   pr_Reason := Reason reason\<rparr>) (p\<lparr>pp_metrics := m\<lparr>TotalRejected := TotalRejected m + 1\<rparr>\<rparr>)))"

section \<open>Promotion\<close>

definition promote_check :: "string \<Rightarrow> pipeline \<Rightarrow> promotion_error + nat" where
  "promote_check mid p =
     (case mget (pp_records p) mid of
        None \<Rightarrow> Inl (NotFound mid)
      | Some i \<Rightarrow>
          if pr_Status (pp_heap p ! i) \<noteq> PromotionApproved
          then Inl (WrongState mid (pr_Status (pp_heap p ! i)) PromotionApproved) else Inr i)"

definition promote_commit :: "time \<Rightarrow> nat \<Rightarrow> string \<Rightarrow> pipeline \<Rightarrow> pipeline" where
  "promote_commit now i cid p =
     (let rec = pp_heap p ! i; m = pp_metrics p in
      set_record i (rec\<lparr>pr_CapsuleID := cid, pr_Status := PromotionPromoted, pr_PromotedAt := Some now\<rparr>)
        (p\<lparr>pp_metrics := m\<lparr>TotalPromoted := TotalPromoted m + 1\<rparr>\<rparr>))"

text \<open>\<open>Promote\<close> undisturbed.\<close>

definition Promote :: "(capsule, 'd) codec \<Rightarrow> time \<Rightarrow> string \<Rightarrow> string \<Rightarrow> capsule \<Rightarrow> pipeline \<Rightarrow> 'd disk \<Rightarrow>
    promotion_error option \<times> capsule \<times> pipeline \<times> 'd disk" where
  "Promote co now base mid c p d =
     (case promote_check mid p of
        Inl e \<Rightarrow> (Some e, c, p, d)
      | Inr i \<Rightarrow>
          (case cs_SaveCapsule co now base c d of
             (Some e, c, d) \<Rightarrow> (Some (SaveFailed e), c, p, d)
           | (None, c, d) \<Rightarrow> (None, c, promote_commit now i (cp_ID c) p, d)))"

definition Rollback :: "time \<Rightarrow> string \<Rightarrow> string \<Rightarrow> pipeline \<Rightarrow> promotion_error option \<times> pipeline" where
  "Rollback now mid reason p =
     (case mget (pp_records p) mid of
        None \<Rightarrow> (Some (NotFound mid), p)
      | Some i \<Rightarrow>
          let rec = pp_heap p ! i; m = pp_metrics p in
          if pr_Status rec \<noteq> PromotionPromoted then (Some (WrongState mid (pr_Status rec) PromotionPromoted), p)
          else (None, set_record i (rec\<lparr>pr_Status := PromotionRolledBack, pr_RolledBackAt := Some now, pr_Reason := Reason reason\<rparr>)
                  (p\<lparr>pp_metrics := m\<lparr>TotalRolledBack := TotalRolledBack m + 1\<rparr>\<rparr>)))"

definition GetRecord :: "string \<Rightarrow> pipeline \<Rightarrow> promotion_record option" where
  "GetRecord mid p = map_option (\<lambda>i. pp_heap p ! i) (mget (pp_records p) mid)"

section \<open>Interleavings\<close>

text \<open>
  Every call of the pipeline by any number of goroutines: the submissions under evaluation and the
  promotions that save their capsule are in flight. \<open>ps_approved\<close> notes the records that a call of
  \<open>Approve\<close> approved. A step that is not possible changes nothing.
\<close>

record promotion_state =
  ps_pipe :: pipeline
  ps_submits :: "(nat \<times> mutation) list"
  ps_promotes :: "(nat \<times> string) list"
  ps_approved :: "nat list"

datatype promotion_act =
    SubmitBegin mutation
  | SubmitEnd time nat evaluation_result
  | ApproveCall time string string string
  | RejectCall time string string string
  | PromoteCheck string string
  | PromoteSaved time nat
  | PromoteFailed nat
  | RollbackCall time string string

definition remove_nth :: "nat \<Rightarrow> 'a list \<Rightarrow> 'a list" where
  "remove_nth k xs = take k xs @ drop (Suc k) xs"

fun promotion_do :: "promotion_act \<Rightarrow> promotion_state \<Rightarrow> promotion_state" where
  "promotion_do (SubmitBegin mut) s =
     (let (i, p) = submit_begin mut (ps_pipe s) in s\<lparr>ps_pipe := p, ps_submits := ps_submits s @ [(i, mut)]\<rparr>)"
| "promotion_do (SubmitEnd now k eval) s =
     (if k < length (ps_submits s)
      then let (i, mut) = ps_submits s ! k in
        s\<lparr>ps_pipe := submit_end now i mut eval (ps_pipe s), ps_submits := remove_nth k (ps_submits s)\<rparr>
      else s)"
| "promotion_do (ApproveCall now mid reviewer reason) s =
     (case Approve now mid reviewer reason (ps_pipe s) of
        (Some e, p) \<Rightarrow> s\<lparr>ps_pipe := p\<rparr>
      | (None, p) \<Rightarrow> s\<lparr>ps_pipe := p, ps_approved := the (mget (pp_records p) mid) # ps_approved s\<rparr>)"
| "promotion_do (RejectCall now mid reviewer reason) s = s\<lparr>ps_pipe := snd (Reject now mid reviewer reason (ps_pipe s))\<rparr>"
| "promotion_do (PromoteCheck mid cid) s =
     (case promote_check mid (ps_pipe s) of Inl e \<Rightarrow> s | Inr i \<Rightarrow> s\<lparr>ps_promotes := ps_promotes s @ [(i, cid)]\<rparr>)"
| "promotion_do (PromoteSaved now k) s =
     (if k < length (ps_promotes s)
      then let (i, cid) = ps_promotes s ! k in
        s\<lparr>ps_pipe := promote_commit now i cid (ps_pipe s), ps_promotes := remove_nth k (ps_promotes s)\<rparr>
      else s)"
| "promotion_do (PromoteFailed k) s = s\<lparr>ps_promotes := remove_nth k (ps_promotes s)\<rparr>"
| "promotion_do (RollbackCall now mid reason) s = s\<lparr>ps_pipe := snd (Rollback now mid reason (ps_pipe s))\<rparr>"

definition promotion_start :: "promotion_config \<Rightarrow> promotion_state" where
  "promotion_start cfg = \<lparr>ps_pipe = NewPromotionPipeline cfg, ps_submits = [], ps_promotes = [], ps_approved = []\<rparr>"

definition promotion_run :: "promotion_config \<Rightarrow> promotion_act list \<Rightarrow> promotion_state" where
  "promotion_run cfg acts = foldl (\<lambda>s a. promotion_do a s) (promotion_start cfg) acts"

text \<open>What a record has behind it once it is past its evaluation.\<close>

definition passed :: "promotion_record \<Rightarrow> bool" where
  "passed rec \<longleftrightarrow> (case pr_Evaluation rec of None \<Rightarrow> False | Some e \<Rightarrow> er_Pass e)"

definition auto_allowed :: "promotion_config \<Rightarrow> bool" where
  "auto_allowed cfg \<longleftrightarrow> pc_AutoPromoteLowRisk cfg \<and> \<not> pc_RequireHITL cfg"

definition record_ok :: "promotion_state \<Rightarrow> nat \<Rightarrow> bool" where
  "record_ok s i \<longleftrightarrow>
     (let rec = pp_heap (ps_pipe s) ! i; reviewed = (i \<in> set (ps_approved s) \<or> auto_allowed (pp_cfg (ps_pipe s))) in
      (pr_Status rec = PromotionEvaluated \<longrightarrow> passed rec) \<and>
      (pr_Status rec \<in> {PromotionApproved, PromotionPromoted, PromotionRolledBack} \<longrightarrow> passed rec \<and> reviewed))"

definition evaluated_count :: "pipeline \<Rightarrow> nat" where
  "evaluated_count p = length (filter (\<lambda>rec. pr_Evaluation rec \<noteq> None) (pp_heap p))"

definition promoted_count :: "pipeline \<Rightarrow> nat" where
  "promoted_count p = length (filter (\<lambda>rec. pr_Status rec = PromotionPromoted) (pp_heap p))"

definition promotion_ok :: "promotion_state \<Rightarrow> bool" where
  "promotion_ok s \<longleftrightarrow>
     (let p = ps_pipe s in
      (\<forall>i < length (pp_heap p). record_ok s i) \<and>
      (\<forall>mid i. mget (pp_records p) mid = Some i \<longrightarrow> i < length (pp_heap p)) \<and>
      distinct (map fst (ps_submits s)) \<and>
      (\<forall>(i, mut) \<in> set (ps_submits s). i < length (pp_heap p) \<and> pr_Evaluation (pp_heap p ! i) = None) \<and>
      (\<forall>(i, cid) \<in> set (ps_promotes s). i < length (pp_heap p) \<and> passed (pp_heap p ! i) \<and>
         (i \<in> set (ps_approved s) \<or> auto_allowed (pp_cfg p))) \<and>
      TotalSubmitted (pp_metrics p) = length (pp_heap p) \<and>
      TotalEvaluated (pp_metrics p) = evaluated_count p \<and>
      promoted_count p + TotalRolledBack (pp_metrics p) \<le> TotalPromoted (pp_metrics p))"

lemma remove_nth_simps [simp]:
  "set (remove_nth k xs) \<subseteq> set xs"
  "k < length xs \<Longrightarrow> distinct (map fst xs) \<Longrightarrow> fst (xs ! k) \<notin> fst ` set (remove_nth k xs)"
  "distinct (map fst xs) \<Longrightarrow> distinct (map fst (remove_nth k xs))"
proof -
  show "set (remove_nth k xs) \<subseteq> set xs" by (auto simp: remove_nth_def dest: in_set_takeD in_set_dropD)
  assume d: "distinct (map fst xs)"
  have "map fst (remove_nth k xs) = take k (map fst xs) @ drop (Suc k) (map fst xs)"
    by (simp add: remove_nth_def take_map drop_map)
  moreover have "distinct (take k (map fst xs) @ drop (Suc k) (map fst xs))"
    using d by (metis distinct_append distinct_take distinct_drop inf.absorb_iff2 set_take_disj_set_drop_if_distinct le_SucI order_refl)
  ultimately show "distinct (map fst (remove_nth k xs))" by simp
  assume k: "k < length xs"
  then have "map fst xs = take k (map fst xs) @ fst (xs ! k) # drop (Suc k) (map fst xs)"
    by (metis id_take_nth_drop length_map nth_map)
  with d have "fst (xs ! k) \<notin> set (take k (map fst xs)) \<union> set (drop (Suc k) (map fst xs))"
    by (metis Un_iff distinct_append disjoint_insert(1) distinct.simps(2) list.simps(15))
  then show "fst (xs ! k) \<notin> fst ` set (remove_nth k xs)" by (simp add: remove_nth_def take_map drop_map image_Un)
qed

lemma filter_update:
  "i < length xs \<Longrightarrow> length (filter P (xs[i := x])) + (if P (xs ! i) then 1 else 0) = length (filter P xs) + (if P x then 1 else 0)"
proof -
  assume i: "i < length xs"
  have "filter P xs = filter P (take i xs @ xs ! i # drop (Suc i) xs)" using id_take_nth_drop [OF i] by simp
  then show ?thesis by (simp add: upd_conv_take_nth_drop [OF i])
qed

lemma update_ok:
  assumes ok: "promotion_ok s" and i: "i < length (pp_heap (ps_pipe s))"
    and p: "pp_heap (ps_pipe s') = (pp_heap (ps_pipe s))[i := rec]" "pp_records (ps_pipe s') = pp_records (ps_pipe s)"
      "pp_cfg (ps_pipe s') = pp_cfg (ps_pipe s)" "TotalSubmitted (pp_metrics (ps_pipe s')) = TotalSubmitted (pp_metrics (ps_pipe s))"
    and sub: "set (ps_submits s') \<subseteq> set (ps_submits s)" "distinct (map fst (ps_submits s'))"
      "i \<in> fst ` set (ps_submits s') \<Longrightarrow> pr_Evaluation rec = None"
    and pro: "set (ps_promotes s') \<subseteq> set (ps_promotes s)" "set (ps_approved s) \<subseteq> set (ps_approved s')"
    and rec: "passed (pp_heap (ps_pipe s) ! i) \<Longrightarrow> passed rec" "record_ok s' i"
    and ev: "TotalEvaluated (pp_metrics (ps_pipe s')) + (if pr_Evaluation (pp_heap (ps_pipe s) ! i) = None then 0 else 1) =
      TotalEvaluated (pp_metrics (ps_pipe s)) + (if pr_Evaluation rec = None then 0 else 1)"
    and pr: "(if pr_Status rec = PromotionPromoted then 1 else 0) + TotalRolledBack (pp_metrics (ps_pipe s')) + TotalPromoted (pp_metrics (ps_pipe s)) \<le>
      (if pr_Status (pp_heap (ps_pipe s) ! i) = PromotionPromoted then 1 else 0) + TotalRolledBack (pp_metrics (ps_pipe s)) + TotalPromoted (pp_metrics (ps_pipe s'))"
  shows "promotion_ok s'"
proof -
  note o = ok [unfolded promotion_ok_def Let_def]
  have "record_ok s' j" if "j < length (pp_heap (ps_pipe s))" for j
  proof (cases "j = i")
    case False
    with o that p pro(2) show ?thesis by (auto simp: record_ok_def Let_def)
  qed (use rec in simp)
  moreover have "\<forall>(j, mut) \<in> set (ps_submits s'). j < length (pp_heap (ps_pipe s)) \<and> pr_Evaluation ((pp_heap (ps_pipe s))[i := rec] ! j) = None"
  proof clarify
    fix j mut assume m: "(j, mut) \<in> set (ps_submits s')"
    with sub(1) o have "j < length (pp_heap (ps_pipe s))" "pr_Evaluation (pp_heap (ps_pipe s) ! j) = None" by auto
    then show "j < length (pp_heap (ps_pipe s)) \<and> pr_Evaluation ((pp_heap (ps_pipe s))[i := rec] ! j) = None"
      using sub(3) m by (cases "j = i") force+
  qed
  moreover have "\<forall>(j, cid) \<in> set (ps_promotes s'). j < length (pp_heap (ps_pipe s)) \<and> passed ((pp_heap (ps_pipe s))[i := rec] ! j) \<and>
      (j \<in> set (ps_approved s') \<or> auto_allowed (pp_cfg (ps_pipe s)))"
  proof clarify
    fix j cid assume "(j, cid) \<in> set (ps_promotes s')"
    with pro(1) o have "j < length (pp_heap (ps_pipe s)) \<and> passed (pp_heap (ps_pipe s) ! j) \<and> (j \<in> set (ps_approved s) \<or> auto_allowed (pp_cfg (ps_pipe s)))"
      by auto
    then show "j < length (pp_heap (ps_pipe s)) \<and> passed ((pp_heap (ps_pipe s))[i := rec] ! j) \<and> (j \<in> set (ps_approved s') \<or> auto_allowed (pp_cfg (ps_pipe s)))"
      using rec(1) pro(2) by (cases "j = i") auto
  qed
  moreover have "TotalEvaluated (pp_metrics (ps_pipe s')) = evaluated_count (ps_pipe s')"
    using filter_update [OF i, of "\<lambda>rec. pr_Evaluation rec \<noteq> None" rec] o ev p(1) by (simp add: evaluated_count_def split: if_splits)
  moreover have "promoted_count (ps_pipe s') + TotalRolledBack (pp_metrics (ps_pipe s')) \<le> TotalPromoted (pp_metrics (ps_pipe s'))"
    using filter_update [OF i, of "\<lambda>rec. pr_Status rec = PromotionPromoted" rec] o pr p(1) by (simp add: promoted_count_def split: if_splits)
  ultimately show ?thesis using o p sub(2) unfolding promotion_ok_def Let_def by simp
qed

lemma submit_begin_ok: "promotion_ok s \<Longrightarrow> promotion_ok (promotion_do (SubmitBegin mut) s)"
  unfolding promotion_ok_def Let_def
  by (auto simp: submit_begin_def Let_def record_ok_def nth_append evaluated_count_def promoted_count_def blank_record_def intro: less_SucI)

lemma submit_end_ok:
  assumes "promotion_ok s" shows "promotion_ok (promotion_do (SubmitEnd now k eval) s)"
proof (cases "k < length (ps_submits s)")
  case True
  obtain i mut where k: "ps_submits s ! k = (i, mut)" by force
  with True nth_mem have "(i, mut) \<in> set (ps_submits s)" by metis
  with assms have i: "i < length (pp_heap (ps_pipe s))" "pr_Evaluation (pp_heap (ps_pipe s) ! i) = None" by (auto simp: promotion_ok_def Let_def)
  have d: "distinct (map fst (ps_submits s))" using assms by (simp add: promotion_ok_def Let_def)
  have "i \<notin> fst ` set (remove_nth k (ps_submits s))" using remove_nth_simps(2) [OF True d] k by simp
  moreover have "pr_Status (pp_heap (ps_pipe s) ! i) \<noteq> PromotionPromoted" "\<not> passed (pp_heap (ps_pipe s) ! i)"
    using assms i by (auto simp: promotion_ok_def record_ok_def Let_def passed_def)
  ultimately show ?thesis using True k i d
    by (intro update_ok [OF assms i(1), where rec = "pp_heap (submit_end now i mut eval (ps_pipe s)) ! i"])
      (auto simp: submit_end_def Let_def record_ok_def passed_def auto_allowed_def intro: remove_nth_simps(3) dest: subsetD [OF remove_nth_simps(1)])
qed (use assms in simp)

lemma index_ok: "promotion_ok s \<Longrightarrow> mget (pp_records (ps_pipe s)) mid = Some i \<Longrightarrow> i < length (pp_heap (ps_pipe s))"
  by (auto simp: promotion_ok_def Let_def)

lemma record_okD: "promotion_ok s \<Longrightarrow> i < length (pp_heap (ps_pipe s)) \<Longrightarrow> record_ok s i"
  by (simp add: promotion_ok_def Let_def)

lemma submits_okD: "promotion_ok s \<Longrightarrow> distinct (map fst (ps_submits s))"
  "promotion_ok s \<Longrightarrow> i \<in> fst ` set (ps_submits s) \<Longrightarrow> pr_Evaluation (pp_heap (ps_pipe s) ! i) = None"
  by (auto simp: promotion_ok_def Let_def)

lemma approve_ok:
  assumes "promotion_ok s" shows "promotion_ok (promotion_do (ApproveCall now mid reviewer reason) s)"
proof (cases "mget (pp_records (ps_pipe s)) mid")
  case (Some i)
  note i = index_ok [OF assms Some]
  show ?thesis
  proof (cases "pr_Status (pp_heap (ps_pipe s) ! i) = PromotionEvaluated")
    case True
    then show ?thesis using record_okD [OF assms i] submits_okD [OF assms] Some
      by (intro update_ok [OF assms i, where rec = "pp_heap (snd (Approve now mid reviewer reason (ps_pipe s))) ! i"])
        (auto simp: Approve_def Let_def record_ok_def passed_def i)
  qed (use Some assms in \<open>simp add: Approve_def Let_def\<close>)
qed (use assms in \<open>simp add: Approve_def\<close>)

lemma reject_ok:
  assumes "promotion_ok s" shows "promotion_ok (promotion_do (RejectCall now mid reviewer reason) s)"
proof (cases "mget (pp_records (ps_pipe s)) mid")
  case (Some i)
  note i = index_ok [OF assms Some]
  show ?thesis using submits_okD [OF assms] Some
    by (intro update_ok [OF assms i, where rec = "pp_heap (snd (Reject now mid reviewer reason (ps_pipe s))) ! i"])
      (auto simp: Reject_def Let_def record_ok_def passed_def i)
qed (use assms in \<open>simp add: Reject_def\<close>)

lemma rollback_ok:
  assumes "promotion_ok s" shows "promotion_ok (promotion_do (RollbackCall now mid reason) s)"
proof (cases "mget (pp_records (ps_pipe s)) mid")
  case (Some i)
  note i = index_ok [OF assms Some]
  show ?thesis
  proof (cases "pr_Status (pp_heap (ps_pipe s) ! i) = PromotionPromoted")
    case True
    then show ?thesis using record_okD [OF assms i] submits_okD [OF assms] Some
      by (intro update_ok [OF assms i, where rec = "pp_heap (snd (Rollback now mid reason (ps_pipe s))) ! i"])
        (auto simp: Rollback_def Let_def record_ok_def passed_def i)
  qed (use Some assms in \<open>simp add: Rollback_def Let_def\<close>)
qed (use assms in \<open>simp add: Rollback_def\<close>)

lemma promote_check_ok:
  assumes "promotion_ok s" shows "promotion_ok (promotion_do (PromoteCheck mid cid) s)"
proof (cases "promote_check mid (ps_pipe s)")
  case (Inr i)
  then have m: "mget (pp_records (ps_pipe s)) mid = Some i" "pr_Status (pp_heap (ps_pipe s) ! i) = PromotionApproved"
    by (auto simp: promote_check_def split: option.splits if_splits)
  with record_okD [OF assms index_ok [OF assms m(1)]] index_ok [OF assms m(1)] assms Inr show ?thesis
    by (auto simp: promotion_ok_def Let_def record_ok_def)
qed (use assms in simp)

lemma promote_saved_ok:
  assumes "promotion_ok s" shows "promotion_ok (promotion_do (PromoteSaved now k) s)"
proof (cases "k < length (ps_promotes s)")
  case True
  obtain i cid where k: "ps_promotes s ! k = (i, cid)" by force
  with True nth_mem have "(i, cid) \<in> set (ps_promotes s)" by metis
  with assms have i: "i < length (pp_heap (ps_pipe s))" "passed (pp_heap (ps_pipe s) ! i)"
    "i \<in> set (ps_approved s) \<or> auto_allowed (pp_cfg (ps_pipe s))" by (auto simp: promotion_ok_def Let_def)
  then show ?thesis using True k submits_okD [OF assms]
    by (intro update_ok [OF assms i(1), where rec = "pp_heap (promote_commit now i cid (ps_pipe s)) ! i"])
      (auto simp: promote_commit_def Let_def record_ok_def passed_def dest: subsetD [OF remove_nth_simps(1)])
qed (use assms in simp)

lemma promote_failed_ok: "promotion_ok s \<Longrightarrow> promotion_ok (promotion_do (PromoteFailed k) s)"
  by (auto simp: promotion_ok_def Let_def record_ok_def dest: subsetD [OF remove_nth_simps(1)])

lemmas promotion_steps_ok = submit_begin_ok submit_end_ok approve_ok reject_ok promote_check_ok promote_saved_ok promote_failed_ok rollback_ok

lemma promotion_do_ok: "promotion_ok s \<Longrightarrow> promotion_ok (promotion_do a s)"
  by (cases a) (simp_all only: promotion_steps_ok)


lemma promotion_run_ok: "promotion_ok (promotion_run cfg acts)"
  unfolding promotion_run_def
proof (induction acts rule: rev_induct)
  case Nil
  show ?case by (simp add: promotion_ok_def promotion_start_def NewPromotionPipeline_def evaluated_count_def promoted_count_def)
qed (simp add: promotion_do_ok)



text \<open>the counters of the pipeline: one submission per record, one evaluation per evaluated record, and
  never fewer promotions than records that are promoted or were rolled back.\<close>

theorem promotion_counters:
  "TotalSubmitted (pp_metrics (ps_pipe (promotion_run cfg acts))) = length (pp_heap (ps_pipe (promotion_run cfg acts))) \<and>
   TotalEvaluated (pp_metrics (ps_pipe (promotion_run cfg acts))) = evaluated_count (ps_pipe (promotion_run cfg acts)) \<and>
   promoted_count (ps_pipe (promotion_run cfg acts)) + TotalRolledBack (pp_metrics (ps_pipe (promotion_run cfg acts)))
     \<le> TotalPromoted (pp_metrics (ps_pipe (promotion_run cfg acts)))"
  using promotion_run_ok [of cfg acts] by (simp add: promotion_ok_def Let_def)

text \<open>The life of one mutation, and two ways to run it.\<close>

definition good_evaluation :: evaluation_result where
  "good_evaluation = \<lparr>er_MutationID = ''m'', er_Score = flit 9, er_MaxScore = flit 10, er_Pass = True, er_Method = ''rule_based'',
     er_Reasoning = Reasoning [], er_Duration = 0, er_EvaluatedAt = 0, er_EvaluatorID = [], er_RubricResults = []\<rparr>"

definition idea :: mutation where
  "idea = \<lparr>m_ID = ''m'', m_SignalID = ''s'', m_GeneID = [], m_Reasoning = ''retry'', m_RiskEstimate = RiskLow, m_Strategy = ModeBalanced,
     m_BeforeState = None, m_AfterState = None, m_Status = MutationStatusPending, m_ValidationLog = [], m_CreatedAt = 0, m_ResolvedAt = None\<rparr>"

definition approved_acts :: "promotion_act list" where
  "approved_acts = [SubmitBegin idea, SubmitEnd 1 0 good_evaluation, ApproveCall 2 ''m'' ''anna'' [], PromoteCheck ''m'' ''cap'']"

definition approved_record :: promotion_record where
  "approved_record = \<lparr>pr_MutationID = ''m'', pr_CapsuleID = [], pr_Status = PromotionApproved, pr_Evaluation = Some good_evaluation,
     pr_ReviewedBy = ''anna'', pr_ReviewedAt = Some 2, pr_PromotedAt = None, pr_RolledBackAt = None, pr_Reason = Reason []\<rparr>"

lemma default_pipeline:
  "NewPromotionPipeline DefaultPromotionConfig = \<lparr>pp_cfg = DefaultPromotionConfig, pp_heap = [], pp_records = [],
     pp_metrics = \<lparr>TotalSubmitted = 0, TotalEvaluated = 0, TotalApproved = 0, TotalRejected = 0, TotalPromoted = 0, TotalRolledBack = 0\<rparr>\<rparr>"
proof -
  have "\<not> fle (flit (6 / 10)) (flit 0)" using near_lit_unit [of "6 / 10"] unfolding zero_f by (auto simp: near_def)
  then show ?thesis by (simp add: NewPromotionPipeline_def DefaultPromotionConfig_def)
qed

lemma example_facts:
  "m_ID idea = ''m''" "er_Pass good_evaluation" "pc_RequireHITL DefaultPromotionConfig" "\<not> pc_AutoPromoteLowRisk DefaultPromotionConfig"
  by (simp_all add: idea_def good_evaluation_def DefaultPromotionConfig_def)

lemma approved_state:
  "promotion_run DefaultPromotionConfig approved_acts =
     \<lparr>ps_pipe = \<lparr>pp_cfg = DefaultPromotionConfig, pp_heap = [approved_record], pp_records = [(''m'', 0)],
        pp_metrics = \<lparr>TotalSubmitted = 1, TotalEvaluated = 1, TotalApproved = 1, TotalRejected = 0, TotalPromoted = 0, TotalRolledBack = 0\<rparr>\<rparr>,
      ps_submits = [], ps_promotes = [(0, ''cap'')], ps_approved = [0]\<rparr>"
  by (simp add: approved_acts_def promotion_run_def promotion_start_def default_pipeline example_facts submit_begin_def submit_end_def Approve_def
      promote_check_def Let_def blank_record_def approved_record_def remove_nth_def mset_at_def mget_def)

lemma promotion_run_append: "promotion_run cfg (acts @ rest) = foldl (\<lambda>s a. promotion_do a s) (promotion_run cfg acts) rest"
  by (simp add: promotion_run_def)

lemmas promotion_eval = promotion_run_append approved_state promote_check_def promote_commit_def Reject_def Let_def remove_nth_def mget_def approved_record_def


text \<open>a rejection that comes while the capsule is being saved is lost: the call reports success, and the
  mutation is promoted all the same, in the name of the reviewer who rejected it.\<close>

theorem rejection_overridden:
  "(let s = promotion_run DefaultPromotionConfig approved_acts;
        r = Reject 3 ''m'' ''ben'' ''unsafe'' (ps_pipe s);
        s' = promotion_do (PromoteSaved 4 0) (promotion_do (RejectCall 3 ''m'' ''ben'' ''unsafe'') s);
        rec = pp_heap (ps_pipe s') ! 0
    in fst r = None \<and> pr_Status rec = PromotionPromoted \<and> pr_ReviewedBy rec = ''ben'' \<and> pr_CapsuleID rec = ''cap'')"
  by (simp add: promotion_eval)

text \<open>two promotions of one mutation can both succeed, and both are counted.\<close>

theorem promoted_twice:
  "(let s = promotion_run DefaultPromotionConfig (approved_acts @ [PromoteCheck ''m'' ''cap2'', PromoteSaved 3 0, PromoteSaved 4 0])
    in TotalPromoted (pp_metrics (ps_pipe s)) = 2 \<and> length (pp_heap (ps_pipe s)) = 1 \<and>
       pr_CapsuleID (pp_heap (ps_pipe s) ! 0) = ''cap2'')"
  by (simp add: promotion_eval)

section \<open>From the rubric to the reviewer\<close>

text \<open>with the default rubric a submitted mutation of fewer than 60 points is rejected; one of 60 or more
  is approved at once when low risks may pass without a reviewer and it is one, and waits for a
  reviewer otherwise.\<close>

theorem submit_verdict:
  assumes "Submit clock mut sig p (NewEvaluationHarness DefaultEvaluationConfig llm) w = (i, p', h, w')"
  shows "GetRecord (m_ID mut) p' = Some (pp_heap p' ! i) \<and>
    pr_Status (pp_heap p' ! i) =
      (if points mut sig < 60 then PromotionRejected
       else if pc_AutoPromoteLowRisk (pp_cfg p) \<and> m_RiskEstimate mut = RiskLow \<and> \<not> pc_RequireHITL (pp_cfg p) then PromotionApproved
       else PromotionEvaluated)"
proof -
  obtain eval h' w'' where e: "Evaluate clock mut sig (NewEvaluationHarness DefaultEvaluationConfig llm) w = (eval, h', w'')"
    by (rule prod_cases3)
  from evaluation_verdict [OF e] assms show ?thesis
    by (auto simp: Submit_def submit_begin_def submit_end_def Let_def e GetRecord_def split: prod.splits)
qed

lemma submit_verdict_witness:
  "pr_Status (pp_heap (fst (snd (Submit (\<lambda>w. w) retry_idea failing_signal (NewPromotionPipeline DefaultPromotionConfig)
     (NewEvaluationHarness DefaultEvaluationConfig None) (0 :: int)))) ! 0) = PromotionEvaluated"
proof -
  obtain i p h w where e: "Submit (\<lambda>w. w) retry_idea failing_signal (NewPromotionPipeline DefaultPromotionConfig)
     (NewEvaluationHarness DefaultEvaluationConfig None) (0 :: int) = (i, p, h, w)" by (rule prod_cases4)
  then have "i = 0" by (auto simp: Submit_def submit_begin_def Let_def default_pipeline split: prod.splits)
  moreover have "pr_Status (pp_heap p ! i) = PromotionEvaluated"
    using submit_verdict [OF e] by (simp add: retry_idea_points default_pipeline example_facts)
  ultimately show ?thesis unfolding e by simp
qed

end
