(* ===== verification/Auto_Promoter.thy ===== *)
theory Auto_Promoter
  imports Promotion
begin

text \<open>
  \<open>pkg/evolver/auto_promoter.go\<close>: low-risk mutations pass the gates (risk, category of the gene, rollbacks
  of the prev day, cool-down of the signal), are submitted, built into a capsule and promoted. The
  environment answers the two clocks, formats times, and knows the store's directory.
\<close>

section \<open>State\<close>

record auto_config =
  ac_AllowedCategories :: "string list"
  ac_MaxRollbacksPerDay :: int
  ac_MinCooldownPerSignal :: duration
  ac_GeneResolver :: "(string \<Rightarrow> string + string) option"

definition DefaultAutoPromoterConfig :: auto_config where
  "DefaultAutoPromoterConfig =
     \<lparr>ac_AllowedCategories = [GeneCategorySelector, GeneCategoryPattern, GeneCategoryResilience], ac_MaxRollbacksPerDay = 3,
      ac_MinCooldownPerSignal = 5 * minute, ac_GeneResolver = Some (\<lambda>_. Inr GeneCategorySelector)\<rparr>"

record auto_metrics =
  AutoPromoted :: nat
  GuardrailRejected :: nat
  CircuitBreakerTripped :: nat
  CooldownGated :: nat
  BuilderFailed :: nat

record auto_promoter =
  ap_cfg :: auto_config
  ap_rollbacks :: "(string \<times> time) list"
  ap_cooldown :: "(string, time) gomap"
  ap_metrics :: auto_metrics
  ap_allowed :: "string list"

definition NewAutoPromoter :: "auto_config \<Rightarrow> auto_promoter" where
  "NewAutoPromoter cfg =
     (let cfg = (if ac_AllowedCategories cfg = [] then cfg\<lparr>ac_AllowedCategories := ac_AllowedCategories DefaultAutoPromoterConfig\<rparr> else cfg);
          cfg = (if ac_MaxRollbacksPerDay cfg = 0 then cfg\<lparr>ac_MaxRollbacksPerDay := 3\<rparr> else cfg)
      in \<lparr>ap_cfg = cfg, ap_rollbacks = [], ap_cooldown = [],
          ap_metrics = \<lparr>AutoPromoted = 0, GuardrailRejected = 0, CircuitBreakerTripped = 0, CooldownGated = 0, BuilderFailed = 0\<rparr>,
          ap_allowed = ac_AllowedCategories cfg\<rparr>)"

definition RecordRollback :: "string \<Rightarrow> time \<Rightarrow> auto_promoter \<Rightarrow> auto_promoter" where
  "RecordRollback cid t a = a\<lparr>ap_rollbacks := ap_rollbacks a @ [(cid, t)]\<rparr>"

abbreviation day :: duration where "day \<equiv> 24 * 60 * minute"

definition rollbackBudgetExceeded :: "time \<Rightarrow> auto_promoter \<Rightarrow> bool \<times> auto_promoter" where
  "rollbackBudgetExceeded now a =
     (let live = filter (\<lambda>r. now - day < snd r) (ap_rollbacks a) in
      (ac_MaxRollbacksPerDay (ap_cfg a) \<le> int (length live), a\<lparr>ap_rollbacks := live\<rparr>))"

text \<open>\<open>Inl None\<close> is \<open>ErrNoGeneResolver\<close>.\<close>

definition resolveCategory :: "string \<Rightarrow> auto_promoter \<Rightarrow> string option + string" where
  "resolveCategory geneID a =
     (case ac_GeneResolver (ap_cfg a) of
        None \<Rightarrow> Inl None
      | Some f \<Rightarrow> (case f geneID of Inl e \<Rightarrow> Inl (Some e) | Inr cat \<Rightarrow> Inr cat))"

definition synthetic :: "string \<Rightarrow> promotion_reason \<Rightarrow> promotion_record" where
  "synthetic mid reason = (blank_record mid)\<lparr>pr_Status := PromotionRejected, pr_Reason := reason\<rparr>"

definition rejectGuardrail :: "string \<Rightarrow> promotion_reason \<Rightarrow> auto_promoter \<Rightarrow> promotion_record \<times> auto_promoter" where
  "rejectGuardrail mid reason a =
     (let m = ap_metrics a in (synthetic mid reason, a\<lparr>ap_metrics := m\<lparr>GuardrailRejected := GuardrailRejected m + 1\<rparr>\<rparr>))"

definition cooling :: "time \<Rightarrow> string \<Rightarrow> auto_promoter \<Rightarrow> time option" where
  "cooling now sid a =
     (if ac_MinCooldownPerSignal (ap_cfg a) \<le> 0 then None
      else case mget (ap_cooldown a) sid of
        None \<Rightarrow> None
      | Some prev \<Rightarrow> if time_sub now prev < ac_MinCooldownPerSignal (ap_cfg a) then Some prev else None)"

section \<open>The loop\<close>

text \<open>\<open>%.1f\<close>\<close>

definition show_fixed1 :: "f64 \<Rightarrow> string" where
  "show_fixed1 x =
     (case x of
        Fin q \<Rightarrow> (let n = nat (rne (\<bar>q\<bar> * 10)) in
          (if q < 0 then ''-'' else []) @ dec_nat (n div 10) @ ''.'' @ dec_nat (n mod 10))
      | PInf \<Rightarrow> ''+Inf'' | NInf \<Rightarrow> ''-Inf'' | NaN \<Rightarrow> ''NaN'')"

datatype auto_error = BuildFailed string | PromoteFailedWith promotion_error

record ('w, 'd) auto_env =
  ae_now :: "'w \<Rightarrow> time"
  ae_clock :: "'w \<Rightarrow> time"
  ae_show_time :: "time \<Rightarrow> string"
  ae_codec :: "(capsule, 'd) codec"
  ae_base :: string

record ('w, 'd) auto_state =
  as_auto :: auto_promoter
  as_pipe :: pipeline
  as_harness :: "'w harness"
  as_disk :: "'d disk"
  as_world :: 'w

definition label :: "('w, 'd) auto_env \<Rightarrow> time \<Rightarrow> mutation \<Rightarrow> promotion_record \<Rightarrow> capsule \<Rightarrow> capsule" where
  "label env now mut rec c =
     c\<lparr>cp_Metadata := mset_at (mset_at (mset_at (cp_Metadata c) ''auto_promoted_by'' ''evoloop'')
        ''auto_promoted_reason'' (''score='' @ show_fixed1 (er_Score (the (pr_Evaluation rec))) @ '' signal='' @ m_SignalID mut @ '' gene='' @ m_GeneID mut))
        ''auto_promoted_at'' (ae_show_time env now)\<rparr>"

text \<open>From the submission on, once every gate is passed.\<close>

definition drive :: "('w, 'd) auto_env \<Rightarrow> time \<Rightarrow> mutation \<Rightarrow> signal \<Rightarrow> (mutation \<Rightarrow> evaluation_result \<Rightarrow> string + capsule) \<Rightarrow>
    ('w, 'd) auto_state \<Rightarrow> (promotion_record \<times> auto_error option) \<times> ('w, 'd) auto_state" where
  "drive env now mut sig build s =
     (let (i, p, h, w) = Submit (ae_clock env) mut sig (as_pipe s) (as_harness s) (as_world s);
          s = s\<lparr>as_pipe := p, as_harness := h, as_world := w\<rparr>;
          rec = pp_heap p ! i; a = as_auto s; m = ap_metrics a
      in if pr_Status rec \<noteq> PromotionApproved then ((rec, None), s)
         else case build mut (the (pr_Evaluation rec)) of
           Inl e \<Rightarrow>
             let p = snd (Reject (ae_clock env w) (m_ID mut) ''auto_promote'' (''build capsule: '' @ e) p) in
             ((the (GetRecord (m_ID mut) p), Some (BuildFailed e)),
              s\<lparr>as_pipe := p, as_auto := a\<lparr>ap_metrics := m\<lparr>BuilderFailed := BuilderFailed m + 1\<rparr>\<rparr>\<rparr>)
         | Inr c \<Rightarrow>
             (case Promote (ae_codec env) (ae_clock env w) (ae_base env) (m_ID mut) (label env now mut rec c) p (as_disk s) of
                (Some e, c, p, d) \<Rightarrow> ((pp_heap p ! i, Some (PromoteFailedWith e)), s\<lparr>as_pipe := p, as_disk := d\<rparr>)
              | (None, c, p, d) \<Rightarrow>
                  ((the (GetRecord (m_ID mut) p), None),
                   s\<lparr>as_pipe := p, as_disk := d,
                     as_auto := a\<lparr>ap_cooldown := mset_at (ap_cooldown a) (sg_ID sig) now,
                       ap_metrics := m\<lparr>AutoPromoted := AutoPromoted m + 1\<rparr>\<rparr>\<rparr>)))"

definition Process :: "('w, 'd) auto_env \<Rightarrow> mutation \<Rightarrow> signal \<Rightarrow> (mutation \<Rightarrow> evaluation_result \<Rightarrow> string + capsule) \<Rightarrow>
    ('w, 'd) auto_state \<Rightarrow> (promotion_record \<times> auto_error option) \<times> ('w, 'd) auto_state" where
  "Process env mut sig build s =
     (let a = as_auto s;
          guardrail = (\<lambda>reason. let (rec, a) = rejectGuardrail (m_ID mut) (Reason reason) a in ((rec, None), s\<lparr>as_auto := a\<rparr>))
      in if m_RiskEstimate mut \<noteq> RiskLow then guardrail (''auto-promote: risk '' @ m_RiskEstimate mut @ '' != low'')
         else case resolveCategory (m_GeneID mut) a of
           Inl e \<Rightarrow> guardrail (''auto-promote: gene resolver: '' @ (case e of None \<Rightarrow> ''auto-promoter: gene resolver not configured'' | Some m \<Rightarrow> m))
         | Inr cat \<Rightarrow>
             if cat \<notin> set (ap_allowed a) then guardrail (''auto-promote: category '' @ cat @ '' not on allow-list'')
             else let now = ae_now env (as_world s); (exceeded, a) = rollbackBudgetExceeded now a; m = ap_metrics a in
               if exceeded then
                 ((synthetic (m_ID mut) (Reason (''auto-promote: rollback budget exhausted ('' @ show_int (ac_MaxRollbacksPerDay (ap_cfg a)) @
                     '' in trailing 24h)'')), None),
                  s\<lparr>as_auto := a\<lparr>ap_metrics := m\<lparr>CircuitBreakerTripped := CircuitBreakerTripped m + 1\<rparr>\<rparr>\<rparr>)
               else case cooling now (sg_ID sig) a of
                 Some prev \<Rightarrow>
                   ((synthetic (m_ID mut) (CooldownUntil (sg_ID sig) (prev + ac_MinCooldownPerSignal (ap_cfg a))), None),
                    s\<lparr>as_auto := a\<lparr>ap_metrics := m\<lparr>CooldownGated := CooldownGated m + 1\<rparr>\<rparr>\<rparr>)
               | None \<Rightarrow> drive env now mut sig build (s\<lparr>as_auto := a\<rparr>))"

section \<open>What a promotion needs\<close>

lemma submit_approved:
  assumes "Submit clock mut sig p h w = (i, p', h', w')" "pr_Status (pp_heap p' ! i) = PromotionApproved"
  shows "i < length (pp_heap p') \<and> mget (pp_records p') (m_ID mut) = Some i \<and> passed (pp_heap p' ! i) \<and>
    m_RiskEstimate mut = RiskLow \<and> pc_AutoPromoteLowRisk (pp_cfg p) \<and> \<not> pc_RequireHITL (pp_cfg p)"
  using assms by (auto simp: Submit_def submit_begin_def submit_end_def Let_def passed_def split: prod.splits if_splits)

definition saved_at :: "('w, 'd) auto_env \<Rightarrow> capsule \<Rightarrow> 'd disk \<Rightarrow> bool" where
  "saved_at env c d \<longleftrightarrow> (\<exists>x. co_enc (ae_codec env) c = Inr x \<and> mget (d_files d) (doc_path (ae_base env) ''capsules'' (cp_ID c)) = Some x)"

lemma submit_not_promoted:
  "Submit clock mut sig p h w = (i, p', h', w') \<Longrightarrow> pr_Status (pp_heap p' ! i) \<noteq> PromotionPromoted"
  by (auto simp: Submit_def submit_begin_def submit_end_def Let_def split: prod.splits if_splits)

lemma promote_result:
  assumes "Promote co now base mid c p d = (None, c', p', d')" "mget (pp_records p) mid = Some i" "i < length (pp_heap p)"
  shows "pp_records p' = pp_records p \<and> pr_Status (pp_heap p' ! i) = PromotionPromoted \<and> pr_CapsuleID (pp_heap p' ! i) = cp_ID c \<and>
    pr_Evaluation (pp_heap p' ! i) = pr_Evaluation (pp_heap p ! i) \<and> c' = c\<lparr>cp_UpdatedAt := now\<rparr> \<and>
    (\<exists>x. co_enc co c' = Inr x \<and> mget (d_files d') (doc_path base ''capsules'' (cp_ID c)) = Some x)"
  using assms saveJSON_ok [of "''capsule''" base "''capsules''" "cp_ID c" "co_enc co (c\<lparr>cp_UpdatedAt := now\<rparr>)" d d']
  by (auto simp: Promote_def promote_check_def promote_commit_def cs_SaveCapsule_def Let_def split: sum.splits prod.splits option.splits if_splits)

lemma drive_promoted:
  assumes "drive env now mut sig build s = ((rec, None), s')" "pr_Status rec = PromotionPromoted"
  shows "pc_AutoPromoteLowRisk (pp_cfg (as_pipe s)) \<and> \<not> pc_RequireHITL (pp_cfg (as_pipe s)) \<and> passed rec \<and>
    (\<exists>c. build mut (the (pr_Evaluation rec)) = Inr c \<and> pr_CapsuleID rec = cp_ID c \<and>
      (\<exists>c'. saved_at env c' (as_disk s') \<and> cp_ID c' = cp_ID c)) \<and>
    ap_cooldown (as_auto s') = mset_at (ap_cooldown (as_auto s)) (sg_ID sig) now"
proof -
  obtain i p h w where sub: "Submit (ae_clock env) mut sig (as_pipe s) (as_harness s) (as_world s) = (i, p, h, w)" by (rule prod_cases4)
  let ?rec = "pp_heap p ! i"
  from assms have approved: "pr_Status ?rec = PromotionApproved"
    by (cases "pr_Status ?rec = PromotionApproved") (auto simp: drive_def sub submit_not_promoted [OF sub])
  note facts = submit_approved [OF sub approved]
  from assms approved obtain c where c: "build mut (the (pr_Evaluation ?rec)) = Inr c"
    by (auto simp: drive_def sub Let_def split: sum.splits)
  let ?P = "Promote (ae_codec env) (ae_clock env w) (ae_base env) (m_ID mut) (label env now mut ?rec c) p (as_disk s)"
  obtain r c' p' d' where pro: "?P = (r, c', p', d')" by (rule prod_cases4)
  with assms approved c have r: "r = None" by (cases r) (auto simp: drive_def sub Let_def)
  note result = promote_result [OF pro [unfolded r], of i]
  have "rec = the (GetRecord (m_ID mut) p')" "s' = s\<lparr>as_pipe := p', as_harness := h, as_world := w, as_disk := d',
      as_auto := (as_auto s)\<lparr>ap_cooldown := mset_at (ap_cooldown (as_auto s)) (sg_ID sig) now,
        ap_metrics := (ap_metrics (as_auto s))\<lparr>AutoPromoted := AutoPromoted (ap_metrics (as_auto s)) + 1\<rparr>\<rparr>\<rparr>"
    using assms approved c pro r by (auto simp: drive_def sub Let_def)
  moreover from this have "rec = pp_heap p' ! i" using result facts by (simp add: GetRecord_def)
  ultimately show ?thesis using facts result c
    by (auto simp: saved_at_def passed_def label_def intro!: exI [of _ c'])
qed

text \<open>What the gates let through.\<close>

definition gates_open :: "time \<Rightarrow> mutation \<Rightarrow> signal \<Rightarrow> auto_promoter \<Rightarrow> bool" where
  "gates_open now mut sig a \<longleftrightarrow>
     m_RiskEstimate mut = RiskLow \<and> (\<exists>cat \<in> set (ap_allowed a). resolveCategory (m_GeneID mut) a = Inr cat) \<and>
     int (length (filter (\<lambda>r. now - day < snd r) (ap_rollbacks a))) < ac_MaxRollbacksPerDay (ap_cfg a) \<and>
     cooling now (sg_ID sig) a = None"

lemma Process_gates:
  "Process env mut sig build s =
     (let now = ae_now env (as_world s); a = as_auto s in
      if gates_open now mut sig a then drive env now mut sig build (s\<lparr>as_auto := snd (rollbackBudgetExceeded now a)\<rparr>)
      else Process env mut sig build s)"
  by (auto simp: Process_def gates_open_def rollbackBudgetExceeded_def cooling_def resolveCategory_def Let_def split: sum.splits option.splits)

lemma Process_closed:
  assumes "\<not> gates_open (ae_now env (as_world s)) mut sig (as_auto s)" "Process env mut sig build s = ((rec, r), s')"
  shows "r = None \<and> pr_Status rec = PromotionRejected \<and> as_pipe s' = as_pipe s \<and> as_disk s' = as_disk s \<and>
    ap_cooldown (as_auto s') = ap_cooldown (as_auto s)"
  using assms
  by (auto simp: Process_def gates_open_def rollbackBudgetExceeded_def cooling_def resolveCategory_def rejectGuardrail_def synthetic_def Let_def
      split: sum.splits option.splits if_splits)

text \<open>C27: the auto-promoter promotes a mutation only if it is of low risk, its gene's category is on the
  allow-list, fewer rollbacks than the budget happened in the last day, the signal is not cooling down,
  the pipeline lets low risks through without a reviewer, the evaluation passed, and the capsule built
  from it lies on the disk.\<close>

theorem auto_promotion_gated:
  assumes "Process env mut sig build s = ((rec, None), s')" "pr_Status rec = PromotionPromoted"
  shows "gates_open (ae_now env (as_world s)) mut sig (as_auto s) \<and> passed rec \<and>
    pc_AutoPromoteLowRisk (pp_cfg (as_pipe s)) \<and> \<not> pc_RequireHITL (pp_cfg (as_pipe s)) \<and>
    (\<exists>c. build mut (the (pr_Evaluation rec)) = Inr c \<and> pr_CapsuleID rec = cp_ID c \<and>
      (\<exists>c'. saved_at env c' (as_disk s') \<and> cp_ID c' = cp_ID c))"
proof -
  have g: "gates_open (ae_now env (as_world s)) mut sig (as_auto s)"
    using Process_closed [OF _ assms(1)] assms(2) by fastforce
  with Process_gates [of env mut sig build s] assms(1)
  have "drive env (ae_now env (as_world s)) mut sig build (s\<lparr>as_auto := snd (rollbackBudgetExceeded (ae_now env (as_world s)) (as_auto s))\<rparr>) = ((rec, None), s')"
    by (simp add: Let_def)
  from drive_promoted [OF this assms(2)] g show ?thesis by simp
qed

section \<open>The cool-down\<close>

text \<open>Calls of \<open>Process\<close>, each at its own moment; the promotions are noted with their signal and time.\<close>

primrec process_all :: "('w, 'd) auto_env \<Rightarrow> ('w \<times> mutation \<times> signal \<times> (mutation \<Rightarrow> evaluation_result \<Rightarrow> string + capsule)) list \<Rightarrow>
    ('w, 'd) auto_state \<Rightarrow> (string \<times> time) list" where
  "process_all env [] s = []"
| "process_all env (call # calls) s =
     (case call of (w, mut, sig, build) \<Rightarrow>
      case Process env mut sig build (s\<lparr>as_world := w\<rparr>) of ((rec, r), s') \<Rightarrow>
        (if r = None \<and> pr_Status rec = PromotionPromoted then [(sg_ID sig, ae_now env w)] else []) @ process_all env calls s')"

lemma drive_cfg:
  "ap_cfg (as_auto (snd (drive env now mut sig build s))) = ap_cfg (as_auto s)"
  by (auto simp: drive_def Let_def split: prod.splits sum.splits option.splits)

lemma drive_cooldown:
  "drive env now mut sig build s = ((rec, r), s') \<Longrightarrow>
   ap_cooldown (as_auto s') = (if r = None \<and> pr_Status rec = PromotionPromoted then mset_at (ap_cooldown (as_auto s)) (sg_ID sig) now
     else ap_cooldown (as_auto s))"
proof -
  assume d: "drive env now mut sig build s = ((rec, r), s')"
  show ?thesis
  proof (cases "r = None \<and> pr_Status rec = PromotionPromoted")
    case True
    with drive_promoted [of env now mut sig build s rec s'] d show ?thesis by simp
  next
    case False
    obtain i p h w where sub: "Submit (ae_clock env) mut sig (as_pipe s) (as_harness s) (as_world s) = (i, p, h, w)" by (rule prod_cases4)
    show ?thesis
    proof (rule ccontr)
      assume n: "\<not> ?thesis"
      with False d obtain c c' p' d' where pro: "pr_Status (pp_heap p ! i) = PromotionApproved" "r = None"
        "Promote (ae_codec env) (ae_clock env w) (ae_base env) (m_ID mut) (label env now mut (pp_heap p ! i) c) p (as_disk s) = (None, c', p', d')"
        "rec = the (GetRecord (m_ID mut) p')"
        by (auto simp: drive_def sub Let_def split: sum.splits option.splits prod.splits if_splits)
      with submit_approved [OF sub pro(1)] promote_result [OF pro(3), of i] False show False by (simp add: GetRecord_def)
    qed
  qed
qed

lemma Process_step:
  assumes "Process env mut sig build s = ((rec, r), s')"
  shows "ap_cfg (as_auto s') = ap_cfg (as_auto s) \<and>
    ap_cooldown (as_auto s') = (if r = None \<and> pr_Status rec = PromotionPromoted then mset_at (ap_cooldown (as_auto s)) (sg_ID sig) (ae_now env (as_world s))
      else ap_cooldown (as_auto s)) \<and>
    (r = None \<and> pr_Status rec = PromotionPromoted \<longrightarrow> cooling (ae_now env (as_world s)) (sg_ID sig) (as_auto s) = None)"
proof (cases "gates_open (ae_now env (as_world s)) mut sig (as_auto s)")
  case True
  then have "drive env (ae_now env (as_world s)) mut sig build (s\<lparr>as_auto := snd (rollbackBudgetExceeded (ae_now env (as_world s)) (as_auto s))\<rparr>) = ((rec, r), s')"
    using Process_gates [of env mut sig build s] assms by (simp add: Let_def)
  with True drive_cooldown [OF this] drive_cfg show ?thesis
    by (metis (no_types, lifting) auto_state.select_convs(1) auto_state.surjective auto_state.update_convs(1) auto_promoter.select_convs(1,3)
        auto_promoter.surjective auto_promoter.update_convs(2) gates_open_def rollbackBudgetExceeded_def snd_conv)
next
  case False
  from Process_closed [OF this assms] assms show ?thesis
    by (auto simp: Process_def rollbackBudgetExceeded_def rejectGuardrail_def drive_cfg Let_def dest!: arg_cong [of _ _ "\<lambda>x. ap_cfg (as_auto (snd x))"]
        split: sum.splits option.splits if_splits)
qed

lemma process_all_spaced:
  assumes "0 < D" "D \<le> max_int64"
  shows "ac_MinCooldownPerSignal (ap_cfg (as_auto s)) = D \<Longrightarrow>
    sorted_wrt (\<lambda>x y. fst x = fst y \<longrightarrow> snd x + D \<le> snd y) (process_all env calls s) \<and>
    (\<forall>(sid, t) \<in> set (process_all env calls s). \<forall>prev. mget (ap_cooldown (as_auto s)) sid = Some prev \<longrightarrow> prev + D \<le> t)"
proof (induction calls arbitrary: s)
  case (Cons call calls)
  obtain w mut sig build where call: "call = (w, mut, sig, build)" by (rule prod_cases4)
  obtain rec r s' where pr: "Process env mut sig build (s\<lparr>as_world := w\<rparr>) = ((rec, r), s')" by (metis surj_pair)
  note step = Process_step [OF pr, simplified]
  from Cons.IH [of s'] step Cons.prems have IH: "sorted_wrt (\<lambda>x y. fst x = fst y \<longrightarrow> snd x + D \<le> snd y) (process_all env calls s')"
    "\<And>sid t prev. (sid, t) \<in> set (process_all env calls s') \<Longrightarrow> mget (ap_cooldown (as_auto s')) sid = Some prev \<Longrightarrow> prev + D \<le> t" by auto
  show ?case
  proof (cases "r = None \<and> pr_Status rec = PromotionPromoted")
    case False
    then show ?thesis using IH step by (auto simp: call pr)
  next
    case True
    then have cool: "cooling (ae_now env w) (sg_ID sig) (as_auto s) = None" using step by simp
    have first: "prev + D \<le> ae_now env w" if "mget (ap_cooldown (as_auto s)) (sg_ID sig) = Some prev" for prev
      using cool that assms time_sub_less [of D "ae_now env w" prev] Cons.prems by (auto simp: cooling_def split: if_splits)
    have later: "ae_now env w + D \<le> t" if "(sg_ID sig, t) \<in> set (process_all env calls s')" for t
      using IH(2) [OF that] step True by simp
    have others: "prev + D \<le> t" if "(sid, t) \<in> set (process_all env calls s')" "mget (ap_cooldown (as_auto s)) sid = Some prev" for sid t prev
    proof (cases "sid = sg_ID sig")
      case True
      with later [of t] first [of prev] that assms(1) show ?thesis by simp
    next
      case False
      with IH(2) [OF that(1)] that(2) step \<open>r = None \<and> _\<close> show ?thesis by simp
    qed
    show ?thesis using True IH(1) first later others by (auto simp: call pr)
  qed
qed simp

text \<open>two promotions for the same signal are at least the cool-down apart, whatever is submitted in
  between and whatever the clock shows.\<close>

theorem auto_promotions_spaced:
  assumes "0 < ac_MinCooldownPerSignal (ap_cfg (as_auto s))" "ac_MinCooldownPerSignal (ap_cfg (as_auto s)) \<le> max_int64"
  shows "sorted_wrt (\<lambda>x y. fst x = fst y \<longrightarrow> snd x + ac_MinCooldownPerSignal (ap_cfg (as_auto s)) \<le> snd y) (process_all env calls s)"
  using process_all_spaced [OF assms, of s] by simp

text \<open>a promoter built without a gene resolver refuses every mutation, although its documentation
  promises a permissive default.\<close>

theorem auto_promoter_without_resolver:
  "(let s' = s\<lparr>as_auto := NewAutoPromoter (DefaultAutoPromoterConfig\<lparr>ac_GeneResolver := None\<rparr>)\<rparr>;
        result = Process env mut sig build s'
    in pr_Status (fst (fst result)) = PromotionRejected \<and> GuardrailRejected (ap_metrics (as_auto (snd result))) = 1 \<and>
       as_pipe (snd result) = as_pipe s)"
  by (simp add: Process_def rejectGuardrail_def resolveCategory_def NewAutoPromoter_def DefaultAutoPromoterConfig_def synthetic_def Let_def)

text \<open>An example: one low-risk mutation, twice, four and six minutes apart.\<close>

definition low_idea :: mutation where
  "low_idea = retry_idea\<lparr>m_RiskEstimate := RiskLow\<rparr>"

definition example_env :: "(time, capsule) auto_env" where
  "example_env = \<lparr>ae_now = \<lambda>w. w, ae_clock = \<lambda>w. w, ae_show_time = \<lambda>t. [], ae_codec = plain_codec, ae_base = ''kb''\<rparr>"

definition example_state :: "(time, capsule) auto_state" where
  "example_state = \<lparr>as_auto = NewAutoPromoter DefaultAutoPromoterConfig,
     as_pipe = (NewPromotionPipeline DefaultPromotionConfig)\<lparr>pp_cfg := DefaultPromotionConfig\<lparr>pc_AutoPromoteLowRisk := True, pc_RequireHITL := False\<rparr>\<rparr>,
     as_harness = NewEvaluationHarness DefaultEvaluationConfig None, as_disk = blank_disk, as_world = 0\<rparr>"

lemma low_idea_points: "points low_idea failing_signal = 73"
  by (simp add: points_def correctness_points_def safety_points_def efficiency_points_def clarity_points_def
      low_idea_def retry_idea_def failing_signal_def)

lemma example_submit:
  "\<exists>p h w. Submit (ae_clock example_env) low_idea failing_signal (as_pipe example_state) (as_harness example_state) (as_world example_state) = (0, p, h, w) \<and>
     length (pp_heap p) = 1 \<and> pr_Status (pp_heap p ! 0) = PromotionApproved \<and> mget (pp_records p) (m_ID low_idea) = Some 0"
proof -
  obtain eval h w where e: "Evaluate (\<lambda>w. w) low_idea failing_signal (NewEvaluationHarness DefaultEvaluationConfig None) (0 :: int) = (eval, h, w)"
    by (rule prod_cases3)
  from evaluation_verdict [OF e] low_idea_points have "er_Pass eval" by simp
  with e show ?thesis
    by (simp add: Submit_def example_env_def example_state_def default_pipeline submit_begin_def submit_end_def Let_def blank_record_def low_idea_def)
qed

lemma example_promoted:
  "\<exists>rec s'. Process example_env low_idea failing_signal (\<lambda>_ _. Inr retry_capsule) example_state = ((rec, None), s') \<and>
     pr_Status rec = PromotionPromoted \<and> ap_cooldown (as_auto s') = [(''sig-000001'', 0)]"
proof -
  obtain p h w where sub: "Submit (ae_clock example_env) low_idea failing_signal (as_pipe example_state) (as_harness example_state) (as_world example_state) = (0, p, h, w)"
    and p: "length (pp_heap p) = 1" "pr_Status (pp_heap p ! 0) = PromotionApproved" "mget (pp_records p) (m_ID low_idea) = Some 0"
    using example_submit by blast
  have g: "gates_open (ae_now example_env (as_world example_state)) low_idea failing_signal (as_auto example_state)"
    by (simp add: gates_open_def example_state_def example_env_def NewAutoPromoter_def DefaultAutoPromoterConfig_def resolveCategory_def
        cooling_def low_idea_def)
  have a: "snd (rollbackBudgetExceeded 0 (as_auto example_state)) = as_auto example_state"
    by (simp add: rollbackBudgetExceeded_def example_state_def NewAutoPromoter_def DefaultAutoPromoterConfig_def)
  have st: "example_state\<lparr>as_auto := as_auto example_state\<rparr> = example_state" by simp
  have e: "ae_now example_env (as_world example_state) = 0" "ae_codec example_env = plain_codec" "as_disk example_state = blank_disk"
    "ap_cooldown (as_auto example_state) = []" "sg_ID failing_signal = ''sig-000001''"
    by (simp_all add: example_env_def example_state_def NewAutoPromoter_def failing_signal_def Let_def)
  have pro: "\<exists>d. Promote plain_codec t base (m_ID low_idea) c p blank_disk = (None, c\<lparr>cp_UpdatedAt := t\<rparr>, promote_commit t 0 (cp_ID c) p, d)" for t base c
    using p by (simp add: Promote_def promote_check_def cs_SaveCapsule_def saveJSON_def plain_codec_def blank_disk_def disk_defs Let_def)
  let ?c = "label example_env 0 low_idea (pp_heap p ! 0) retry_capsule"
  obtain d where d: "Promote plain_codec (ae_clock example_env w) (ae_base example_env) (m_ID low_idea) ?c p blank_disk =
      (None, ?c\<lparr>cp_UpdatedAt := ae_clock example_env w\<rparr>, promote_commit (ae_clock example_env w) 0 (cp_ID ?c) p, d)" using pro by blast
  have "Process example_env low_idea failing_signal (\<lambda>_ _. Inr retry_capsule) example_state =
      drive example_env 0 low_idea failing_signal (\<lambda>_ _. Inr retry_capsule) example_state"
    using Process_gates [of example_env low_idea failing_signal "\<lambda>_ _. Inr retry_capsule" example_state] g a st e by (simp add: Let_def)
  also have "\<dots> = ((the (GetRecord (m_ID low_idea) (promote_commit (ae_clock example_env w) 0 (cp_ID ?c) p)), None),
      snd (drive example_env 0 low_idea failing_signal (\<lambda>_ _. Inr retry_capsule) example_state))"
    using p d by (simp add: drive_def sub e Let_def)
  finally have "\<exists>rec s'. Process example_env low_idea failing_signal (\<lambda>_ _. Inr retry_capsule) example_state = ((rec, None), s') \<and>
      pr_Status rec = PromotionPromoted"
    using p by (simp add: GetRecord_def promote_commit_def Let_def)
  then obtain rec s' where r: "Process example_env low_idea failing_signal (\<lambda>_ _. Inr retry_capsule) example_state = ((rec, None), s')"
    "pr_Status rec = PromotionPromoted" by blast
  with Process_step [OF r(1)] e have "ap_cooldown (as_auto s') = [(''sig-000001'', 0)]" by (simp add: mset_at_def)
  with r show ?thesis by blast
qed

lemma auto_promotion_gated_witness:
  "pc_AutoPromoteLowRisk (pp_cfg (as_pipe example_state)) \<and> gates_open 0 low_idea failing_signal (as_auto example_state)"
proof -
  from example_promoted obtain rec s' where "Process example_env low_idea failing_signal (\<lambda>_ _. Inr retry_capsule) example_state = ((rec, None), s')"
    "pr_Status rec = PromotionPromoted" by blast
  from auto_promotion_gated [OF this] show ?thesis by (simp add: example_env_def example_state_def)
qed

lemma auto_promotions_spaced_witness:
  "length (process_all example_env [(0, low_idea, failing_signal, \<lambda>_ _. Inr retry_capsule)] example_state) = 1 \<and>
   sorted_wrt (\<lambda>x y. fst x = fst y \<longrightarrow> snd x + 5 * minute \<le> snd y)
     (process_all example_env (replicate 3 (0, low_idea, failing_signal, \<lambda>_ _. Inr retry_capsule)) example_state)"
proof -
  have c: "ac_MinCooldownPerSignal (ap_cfg (as_auto example_state)) = 5 * minute"
    by (simp add: example_state_def NewAutoPromoter_def DefaultAutoPromoterConfig_def)
  have w: "example_state\<lparr>as_world := 0\<rparr> = example_state" by (simp add: example_state_def)
  from example_promoted w have "length (process_all example_env [(0, low_idea, failing_signal, \<lambda>_ _. Inr retry_capsule)] example_state) = 1" by auto
  with auto_promotions_spaced [of example_state] c show ?thesis by simp
qed

end
