(* ===== verification/Trace_Collector.thy ===== *)
theory Trace_Collector
  imports Signal_Miner Disk
begin

text \<open>
  \<open>pkg/evolver/trace_collector.go\<close>, the buffer of execution traces and its JSONL file, and
  \<open>trace_bridge.go\<close>, which feeds it from several sources and mines the file for signals. A file holds
  a string; the codec is the JSON library for one trace on one line.
\<close>

section \<open>The buffer and its file\<close>

record trace_codec =
  tr_enc :: "execution_trace \<Rightarrow> string + string"
  tr_dec :: "string \<Rightarrow> string + execution_trace"

record trace_collector =
  co_traces :: "execution_trace list"
  co_maxBuf :: int
  co_filePath :: string

definition NewTraceCollector :: "string \<Rightarrow> int \<Rightarrow> trace_collector" where
  "NewTraceCollector path maxBuf = \<lparr>co_traces = [], co_maxBuf = (if maxBuf \<le> 0 then 1000 else maxBuf), co_filePath = path\<rparr>"

definition record_trace :: "execution_trace \<Rightarrow> trace_collector \<Rightarrow> string option \<times> trace_collector" where
  "record_trace t tc =
     (if et_ID t = [] then (Some ''trace: id is required'', tc)
      else let t = (if et_LatencyMs t = Fin 0 \<and> \<not> is_zero_time (et_EndTime t) \<and> \<not> is_zero_time (et_StartTime t)
                    then t\<lparr>et_LatencyMs := f_of_int (go_div (time_sub (et_EndTime t) (et_StartTime t)) millisecond)\<rparr> else t)
           in (None, tc\<lparr>co_traces := co_traces tc @ [t]\<rparr>))"

abbreviation newline :: char where "newline \<equiv> CHR 0x0A"
abbreviation carriage_return :: char where "carriage_return \<equiv> CHR 0x0D"

definition OpenAppend :: "string \<Rightarrow> string disk \<Rightarrow> fs_error option \<times> string disk" where
  "OpenAppend path d =
     (case outcome d of
        (IoOk, d) \<Rightarrow> (None, d\<lparr>d_files := mset_at (d_files d) path (mget_or [] (d_files d) path)\<rparr>)
      | (IoFail e _, d) \<Rightarrow> (Some (FsError e), d))"

definition AppendFile :: "string \<Rightarrow> string \<Rightarrow> string disk \<Rightarrow> fs_error option \<times> string disk" where
  "AppendFile path data d =
     (case outcome d of
        (IoOk, d) \<Rightarrow> (None, d\<lparr>d_files := mset_at (d_files d) path (mget_or [] (d_files d) path @ data)\<rparr>)
      | (IoFail e None, d) \<Rightarrow> (Some (FsError e), d)
      | (IoFail e (Some left), d) \<Rightarrow> (Some (FsError e), d\<lparr>d_files := mset_at (d_files d) path left\<rparr>))"

datatype trace_error = OpenTrace fs_error | EncodeTrace string string | WriteTrace string fs_error | ReadTraces fs_error

primrec encode_traces :: "trace_codec \<Rightarrow> string \<Rightarrow> execution_trace list \<Rightarrow> string disk \<Rightarrow> trace_error option \<times> string disk" where
  "encode_traces co path [] d = (None, d)"
| "encode_traces co path (t # ts) d =
     (case tr_enc co t of
        Inl e \<Rightarrow> (Some (EncodeTrace (et_ID t) e), d)
      | Inr s \<Rightarrow>
          (case AppendFile path (s @ [newline]) d of
             (Some e, d) \<Rightarrow> (Some (WriteTrace (et_ID t) e), d)
           | (None, d) \<Rightarrow> encode_traces co path ts d))"

definition Flush :: "trace_codec \<Rightarrow> trace_collector \<Rightarrow> string disk \<Rightarrow> trace_error option \<times> trace_collector \<times> string disk" where
  "Flush co tc d =
     (if co_traces tc = [] then (None, tc, d)
      else case OpenAppend (co_filePath tc) d of
        (Some e, d) \<Rightarrow> (Some (OpenTrace e), tc, d)
      | (None, d) \<Rightarrow>
          (case encode_traces co (co_filePath tc) (co_traces tc) d of
             (Some e, d) \<Rightarrow> (Some e, tc, d)
           | (None, d) \<Rightarrow> (None, tc\<lparr>co_traces := []\<rparr>, d)))"

definition strip_cr :: "string \<Rightarrow> string" where
  "strip_cr line = (if line \<noteq> [] \<and> last line = carriage_return then butlast line else line)"

text \<open>The loop of \<open>splitJSONL\<close>; \<open>cur\<close> is the line read so far, backwards.\<close>

fun split_lines :: "string \<Rightarrow> string \<Rightarrow> string list" where
  "split_lines cur [] = (if cur = [] then [] else [rev cur])"
| "split_lines cur (c # s) = (if c = newline then strip_cr (rev cur) # split_lines [] s else split_lines (c # cur) s)"

definition splitJSONL :: "string \<Rightarrow> string list" where
  "splitJSONL data = split_lines [] data"

definition read_line :: "trace_codec \<Rightarrow> string \<Rightarrow> execution_trace list" where
  "read_line co line =
     (if line = [] then []
      else case tr_dec co line of Inl e \<Rightarrow> [] | Inr t \<Rightarrow> if et_ID t = [] then [] else [t])"

definition LoadTraces :: "trace_codec \<Rightarrow> string \<Rightarrow> string disk \<Rightarrow> (trace_error + execution_trace list) \<times> string disk" where
  "LoadTraces co path d =
     (case ReadFile path d of
        (Inl e, d) \<Rightarrow> (Inl (ReadTraces e), d)
      | (Inr data, d) \<Rightarrow> (Inr (concat (map (read_line co) (splitJSONL data))), d))"

section \<open>What the file holds\<close>

definition trace_codec_ok :: "trace_codec \<Rightarrow> bool" where
  "trace_codec_ok co \<longleftrightarrow>
     (\<forall>t s. tr_enc co t = Inr s \<longrightarrow> s \<noteq> [] \<and> newline \<notin> set s \<and> last s \<noteq> carriage_return \<and> tr_dec co s = Inr t)"

lemma split_lines_line: "newline \<notin> set s \<Longrightarrow> split_lines cur (s @ newline # r) = strip_cr (rev cur @ s) # split_lines [] r"
  by (induction s arbitrary: cur) auto

text \<open>The traces a file's text holds, and a text that ends at the end of a line.\<close>

definition traces_in :: "trace_codec \<Rightarrow> string \<Rightarrow> execution_trace list" where
  "traces_in co data = concat (map (read_line co) (splitJSONL data))"

definition whole_lines :: "string \<Rightarrow> bool" where
  "whole_lines data \<longleftrightarrow> data = [] \<or> last data = newline"

lemma split_lines_whole: "whole_lines data \<Longrightarrow> data \<noteq> [] \<Longrightarrow> split_lines cur (data @ r) = split_lines cur data @ split_lines [] r"
proof (induction data arbitrary: cur)
  case (Cons c data)
  then show ?case by (cases "data = []") (auto simp: whole_lines_def)
qed simp

lemma traces_in_append: "whole_lines data \<Longrightarrow> traces_in co (data @ r) = traces_in co data @ traces_in co r"
  by (cases "data = []") (auto simp: traces_in_def splitJSONL_def split_lines_whole)

lemma traces_in_line:
  assumes "trace_codec_ok co" "tr_enc co t = Inr s" "et_ID t \<noteq> []"
  shows "traces_in co (s @ [newline]) = [t]"
proof -
  from assms have s: "s \<noteq> []" "newline \<notin> set s" "last s \<noteq> carriage_return" "tr_dec co s = Inr t" by (auto simp: trace_codec_ok_def)
  then have "splitJSONL (s @ [newline]) = [s]" by (simp add: splitJSONL_def split_lines_line strip_cr_def)
  with s assms(3) show ?thesis by (simp add: traces_in_def read_line_def)
qed

lemma encode_traces_ok:
  assumes "trace_codec_ok co" "\<forall>t \<in> set ts. et_ID t \<noteq> []" "whole_lines (mget_or [] (d_files d) path)" "d_next d = []"
    "encode_traces co path ts d = (r, d')"
  shows "\<exists>ts'. d_next d' = [] \<and> whole_lines (mget_or [] (d_files d') path) \<and>
    traces_in co (mget_or [] (d_files d') path) = traces_in co (mget_or [] (d_files d) path) @ ts' \<and>
    ts' = takeWhile (\<lambda>t. \<exists>s. tr_enc co t = Inr s) ts \<and> (r = None \<longleftrightarrow> ts' = ts)"
  using assms(2-5)
proof (induction ts arbitrary: d)
  case (Cons t ts)
  show ?case
  proof (cases "tr_enc co t")
    case (Inl e)
    with Cons.prems show ?thesis by auto
  next
    case (Inr s)
    define d1 where "d1 = d\<lparr>d_files := mset_at (d_files d) path (mget_or [] (d_files d) path @ s @ [newline])\<rparr>"
    have a: "AppendFile path (s @ [newline]) d = (None, d1)" using Cons.prems(3) by (simp add: AppendFile_def disk_defs d1_def)
    have l: "whole_lines (mget_or [] (d_files d1) path)" "d_next d1 = []"
      "traces_in co (mget_or [] (d_files d1) path) = traces_in co (mget_or [] (d_files d) path) @ [t]"
      using Cons.prems Inr assms(1)
      by (simp_all add: d1_def whole_lines_def traces_in_line) (simp add: whole_lines_def [symmetric] traces_in_append traces_in_line)
    have e: "encode_traces co path ts d1 = (r, d')" using Cons.prems(4) Inr a by simp
    from Cons.IH [OF _ l(1,2) e] Cons.prems(1) l(3) Inr show ?thesis by auto
  qed
qed auto

lemma flush_result:
  assumes "trace_codec_ok co" "\<forall>t \<in> set (co_traces tc). et_ID t \<noteq> []" "whole_lines (mget_or [] (d_files d) (co_filePath tc))" "d_next d = []"
    "Flush co tc d = (r, tc', d')"
  shows "\<exists>ts'. d_next d' = [] \<and> whole_lines (mget_or [] (d_files d') (co_filePath tc)) \<and>
    traces_in co (mget_or [] (d_files d') (co_filePath tc)) = traces_in co (mget_or [] (d_files d) (co_filePath tc)) @ ts' \<and>
    ts' = takeWhile (\<lambda>t. \<exists>s. tr_enc co t = Inr s) (co_traces tc) \<and> (r = None \<longleftrightarrow> ts' = co_traces tc) \<and>
    tc' = (if r = None then tc\<lparr>co_traces := []\<rparr> else tc) \<and>
    (co_traces tc \<noteq> [] \<longrightarrow> mget (d_files d') (co_filePath tc) \<noteq> None)"
proof (cases "co_traces tc = []")
  case True
  with assms(3-5) show ?thesis by (auto simp: Flush_def)
next
  case False
  define d1 where "d1 = d\<lparr>d_files := mset_at (d_files d) (co_filePath tc) (mget_or [] (d_files d) (co_filePath tc))\<rparr>"
  have o: "OpenAppend (co_filePath tc) d = (None, d1)" using assms(4) by (simp add: OpenAppend_def disk_defs d1_def)
  have same: "mget_or [] (d_files d1) (co_filePath tc) = mget_or [] (d_files d) (co_filePath tc)" "d_next d1 = []"
    using assms(4) by (simp_all add: d1_def)
  obtain r1 d2 where e: "encode_traces co (co_filePath tc) (co_traces tc) d1 = (r1, d2)" by force
  have kept: "mget (d_files d2) (co_filePath tc) \<noteq> None" if "encode_traces co (co_filePath tc) ts d0 = (r2, d2)" "mget (d_files d0) (co_filePath tc) \<noteq> None"
    for ts d0 r2
    using that
    by (induction ts arbitrary: d0) (auto simp: AppendFile_def disk_defs split: sum.splits prod.splits list.splits io_outcome.splits option.splits)
  from encode_traces_ok [OF assms(1,2) _ same(2) e] assms(3) same(1) kept [OF e] e o False assms(5) show ?thesis
    by (cases r1) (auto simp: Flush_def d1_def)
qed

text \<open>C25: what is flushed is read back after what the file held before, in order, and the buffer is empty.\<close>

theorem flushed_traces_load:
  assumes "trace_codec_ok co" "\<forall>t \<in> set (co_traces tc). et_ID t \<noteq> []" "whole_lines (mget_or [] (d_files d) (co_filePath tc))"
    "d_next d = []" "co_traces tc \<noteq> []" "Flush co tc d = (None, tc', d')"
  shows "LoadTraces co (co_filePath tc) d' = (Inr (traces_in co (mget_or [] (d_files d) (co_filePath tc)) @ co_traces tc), d') \<and>
    co_traces tc' = []"
proof -
  from flush_result [OF assms(1-4,6)] assms(5) obtain data where
    "mget (d_files d') (co_filePath tc) = Some data" "traces_in co data = traces_in co (mget_or [] (d_files d) (co_filePath tc)) @ co_traces tc"
    "d_next d' = []" "co_traces tc' = []" by (auto simp: mget_or_def)
  then show ?thesis by (simp add: LoadTraces_def read_stored traces_in_def)
qed

text \<open>A number of attempts to flush: whether one succeeded, and what is left.\<close>

primrec flushes :: "trace_codec \<Rightarrow> nat \<Rightarrow> trace_collector \<Rightarrow> string disk \<Rightarrow> bool \<times> trace_collector \<times> string disk" where
  "flushes co 0 tc d = (False, tc, d)"
| "flushes co (Suc n) tc d =
     (let (r, tc, d) = Flush co tc d; (later, tc, d) = flushes co n tc d in (r = None \<or> later, tc, d))"

lemma failing_flushes:
  assumes "trace_codec_ok co" "\<forall>t \<in> set good. et_ID t \<noteq> [] \<and> (\<exists>s. tr_enc co t = Inr s)" "tr_enc co bad = Inl e" "et_ID bad \<noteq> []"
    "co_traces tc = good @ bad # more_traces" "\<forall>t \<in> set more_traces. et_ID t \<noteq> []"
  shows "whole_lines (mget_or [] (d_files d) (co_filePath tc)) \<Longrightarrow> d_next d = [] \<Longrightarrow> \<exists>d'. flushes co n tc d = (False, tc, d') \<and>
    traces_in co (mget_or [] (d_files d') (co_filePath tc)) = traces_in co (mget_or [] (d_files d) (co_filePath tc)) @ concat (replicate n good)"
proof (induction n arbitrary: d)
  case (Suc n)
  obtain r tc1 d1 where f: "Flush co tc d = (r, tc1, d1)" by (rule prod_cases3)
  have g: "takeWhile (\<lambda>t. \<exists>s. tr_enc co t = Inr s) (good @ bad # more_traces) = good"
    using assms(2,3) by (simp add: takeWhile_append2)
  have ids: "\<forall>t \<in> set (co_traces tc). et_ID t \<noteq> []" using assms(2,4,5,6) by auto
  from flush_result [OF assms(1) ids Suc.prems f] assms(5) g have step: "d_next d1 = []" "whole_lines (mget_or [] (d_files d1) (co_filePath tc))"
    "traces_in co (mget_or [] (d_files d1) (co_filePath tc)) = traces_in co (mget_or [] (d_files d) (co_filePath tc)) @ good" "r \<noteq> None" "tc1 = tc"
    by auto
  from Suc.IH [OF step(2,1)] step f show ?case by auto
qed simp

text \<open>a trace that cannot be encoded blocks the collector: no flush succeeds any more, and every attempt
  writes the traces before it once more.\<close>

theorem unencodable_trace_blocks:
  assumes "trace_codec_ok co" "\<forall>t \<in> set good. et_ID t \<noteq> [] \<and> (\<exists>s. tr_enc co t = Inr s)" "tr_enc co bad = Inl e" "et_ID bad \<noteq> []"
    "co_traces tc = good @ [bad]" "mget (d_files d) (co_filePath tc) = None" "d_next d = []"
  shows "\<exists>d'. flushes co n tc d = (False, tc, d') \<and> traces_in co (mget_or [] (d_files d') (co_filePath tc)) = concat (replicate n good)"
  using failing_flushes [OF assms(1-4), of tc "[]" d n] assms(5-7) by (simp add: mget_or_def whole_lines_def traces_in_def splitJSONL_def)

section \<open>The bridge\<close>

abbreviation TraceSourceUIAuto :: string where "TraceSourceUIAuto \<equiv> ''uiauto''"
abbreviation TraceSourceResearch :: string where "TraceSourceResearch \<equiv> ''research''"
abbreviation TraceSourceWooCommerce :: string where "TraceSourceWooCommerce \<equiv> ''woocommerce''"
abbreviation TraceSourceDoctor :: string where "TraceSourceDoctor \<equiv> ''doctor''"

record bridge_config =
  bc_FlushInterval :: duration
  bc_AutoFlush :: bool

definition DefaultTraceBridgeConfig :: bridge_config where
  "DefaultTraceBridgeConfig = \<lparr>bc_FlushInterval = 30 * second, bc_AutoFlush = True\<rparr>"

text \<open>\<open>br_closed\<close> says whether the stop channel is closed, \<open>br_flushers\<close> counts the background loops that run.\<close>

record trace_bridge =
  br_collector :: trace_collector
  br_miner :: signal_miner
  br_cfg :: bridge_config
  br_counts :: "(string, int) gomap"
  br_closed :: bool
  br_running :: bool
  br_flushers :: nat

definition NewTraceBridge :: "trace_collector \<Rightarrow> signal_miner \<Rightarrow> bridge_config \<Rightarrow> trace_bridge" where
  "NewTraceBridge tc sm cfg = \<lparr>br_collector = tc, br_miner = sm, br_cfg = cfg, br_counts = [], br_closed = False, br_running = False, br_flushers = 0\<rparr>"

definition bridge_record :: "string \<Rightarrow> execution_trace \<Rightarrow> trace_bridge \<Rightarrow> string option \<times> trace_bridge" where
  "bridge_record source t b =
     (case record_trace t (br_collector b) of
        (Some e, _) \<Rightarrow> (Some e, b)
      | (None, tc) \<Rightarrow> (None, b\<lparr>br_collector := tc, br_counts := mincr (br_counts b) source\<rparr>))"

definition MineSignals :: "trace_codec \<Rightarrow> ((string \<times> string list) list \<Rightarrow> (string \<times> string list) list) \<Rightarrow>
    ((string \<times> nat \<times> nat) list \<Rightarrow> (string \<times> nat \<times> nat) list) \<Rightarrow> time \<Rightarrow> trace_bridge \<Rightarrow> string disk \<Rightarrow>
    (trace_error + signal list) \<times> trace_bridge \<times> string disk" where
  "MineSignals co ve vt now b d =
     (case Flush co (br_collector b) d of
        (Some e, tc, d) \<Rightarrow> (Inl e, b\<lparr>br_collector := tc\<rparr>, d)
      | (None, tc, d) \<Rightarrow>
          (let b = b\<lparr>br_collector := tc\<rparr> in
           case LoadTraces co (co_filePath tc) d of
             (Inl (ReadTraces NotExist), d) \<Rightarrow> (Inr [], b, d)
           | (Inl e, d) \<Rightarrow> (Inl e, b, d)
           | (Inr traces, d) \<Rightarrow>
               if traces = [] then (Inr [], b, d)
               else let (signals, sm) = Mine ve vt now traces (br_miner b) in (Inr signals, b\<lparr>br_miner := sm\<rparr>, d)))"

definition bridge_Start :: "trace_bridge \<Rightarrow> trace_bridge" where
  "bridge_Start b =
     (if \<not> bc_AutoFlush (br_cfg b) \<or> bc_FlushInterval (br_cfg b) \<le> 0 \<or> br_running b then b
      else b\<lparr>br_running := True, br_flushers := (if br_closed b then br_flushers b else br_flushers b + 1)\<rparr>)"

text \<open>Closing the stop channel ends the background loops; closing it again panics.\<close>

definition bridge_Stop :: "trace_codec \<Rightarrow> trace_bridge \<Rightarrow> string disk \<Rightarrow> (trace_error option \<times> trace_bridge \<times> string disk) outcome" where
  "bridge_Stop co b d =
     (if br_running b \<and> br_closed b then Panicked
      else let b = (if br_running b then b\<lparr>br_closed := True, br_running := False, br_flushers := 0\<rparr> else b);
               (r, tc, d) = Flush co (br_collector b) d
           in Returned (r, b\<lparr>br_collector := tc\<rparr>, d))"

text \<open>
  The sources. Every \<open>time.Now()\<close> is an argument, in the order the code reads them; a double outside
  the range of \<open>int64\<close> converts as on amd64.
\<close>

definition f_to_int64 :: "f64 \<Rightarrow> int" where
  "f_to_int64 x =
     (case x of
        Fin q \<Rightarrow> (let n = (if q < 0 then - \<lfloor>- q\<rfloor> else \<lfloor>q\<rfloor>) in if min_int64 \<le> n \<and> n \<le> max_int64 then n else min_int64)
      | _ \<Rightarrow> min_int64)"

definition started_before :: "time \<Rightarrow> f64 \<Rightarrow> time" where
  "started_before now latencyMs = now + wrap64 (wrap64 (- f_to_int64 latencyMs) * millisecond)"

definition RecordUIAutoTrace :: "time \<Rightarrow> time \<Rightarrow> time \<Rightarrow> string \<Rightarrow> bool \<Rightarrow> f64 \<Rightarrow> tool_call list \<Rightarrow> (string, string) gomap \<Rightarrow>
    trace_bridge \<Rightarrow> string option \<times> trace_bridge" where
  "RecordUIAutoTrace t1 t2 t3 taskName ok latencyMs calls meta b =
     bridge_record TraceSourceUIAuto
       \<lparr>et_ID = ''uiauto-'' @ show_int (unix_nano t1), et_TaskName = taskName, et_AgentID = ''ui-agent'',
        et_StartTime = started_before t2 latencyMs, et_EndTime = t3, et_LatencyMs = latencyMs, et_Success = ok, et_ErrorMsg = [],
        et_ToolsCalled = calls, et_PromptTokens = 0, et_CompTokens = 0, et_CostUSD = flit 0, et_ModelTier = mget_or [] meta ''model_tier'',
        et_Tags = [TraceSourceUIAuto], et_Metadata = meta\<rparr> b"

definition RecordResearchTrace :: "time \<Rightarrow> time \<Rightarrow> time \<Rightarrow> string \<Rightarrow> bool \<Rightarrow> f64 \<Rightarrow> string \<Rightarrow> (string, string) gomap \<Rightarrow>
    trace_bridge \<Rightarrow> string option \<times> trace_bridge" where
  "RecordResearchTrace t1 t2 t3 taskName ok latencyMs errMsg meta b =
     bridge_record TraceSourceResearch
       \<lparr>et_ID = ''research-'' @ show_int (unix_nano t1), et_TaskName = taskName, et_AgentID = ''research-agent'',
        et_StartTime = started_before t2 latencyMs, et_EndTime = t3, et_LatencyMs = latencyMs, et_Success = ok, et_ErrorMsg = errMsg,
        et_ToolsCalled = [], et_PromptTokens = 0, et_CompTokens = 0, et_CostUSD = flit 0, et_ModelTier = [],
        et_Tags = [TraceSourceResearch], et_Metadata = meta\<rparr> b"

record wc_metrics =
  wc_Imports :: int
  wc_Orders :: int
  wc_Anomalies :: int
  wc_Descriptions :: int
  wc_Deploys :: int
  wc_Errors :: int
  wc_AvgLatencyMs :: f64
  wc_EventsTracked :: int
  wc_ReportsGenerated :: int
  wc_StoresSynced :: int
  wc_OrdersRouted :: int
  wc_LeadsScored :: int
  wc_LeadsQualified :: int
  wc_PricesCalculated :: int
  wc_DynamicAdjustments :: int
  wc_ChecksTotal :: int
  wc_AlertsTotal :: int
  wc_SequencesRun :: int
  wc_MessagesSent :: int
  wc_CampaignsRun :: int
  wc_InteractionsTotal :: int

definition wc_metadata :: "wc_metrics \<Rightarrow> (string, string) gomap" where
  "wc_metadata m =
     map (\<lambda>(k, f). (k, show_int (f m)))
       [(''imports'', wc_Imports), (''orders'', wc_Orders), (''anomalies'', wc_Anomalies), (''descriptions'', wc_Descriptions),
        (''deploys'', wc_Deploys), (''errors'', wc_Errors), (''events_tracked'', wc_EventsTracked), (''reports_generated'', wc_ReportsGenerated),
        (''stores_synced'', wc_StoresSynced), (''orders_routed'', wc_OrdersRouted), (''leads_scored'', wc_LeadsScored),
        (''leads_qualified'', wc_LeadsQualified), (''prices_calculated'', wc_PricesCalculated), (''dynamic_adjustments'', wc_DynamicAdjustments),
        (''checks_total'', wc_ChecksTotal), (''alerts_total'', wc_AlertsTotal), (''sequences_run'', wc_SequencesRun),
        (''messages_sent'', wc_MessagesSent), (''campaigns_run'', wc_CampaignsRun), (''interactions_total'', wc_InteractionsTotal)]"

definition RecordWCMetrics :: "time \<Rightarrow> time \<Rightarrow> time \<Rightarrow> wc_metrics \<Rightarrow> trace_bridge \<Rightarrow> string option \<times> trace_bridge" where
  "RecordWCMetrics t1 t2 t3 m b =
     bridge_record TraceSourceWooCommerce
       \<lparr>et_ID = ''wc-metrics-'' @ show_int (unix_nano t1), et_TaskName = ''woocommerce/metrics_snapshot'', et_AgentID = ''wc-tools'',
        et_StartTime = t2, et_EndTime = t3, et_LatencyMs = wc_AvgLatencyMs m, et_Success = (wc_Errors m = 0),
        et_ErrorMsg = (if wc_Errors m = 0 then [] else show_int (wc_Errors m) @ '' errors detected''),
        et_ToolsCalled = [], et_PromptTokens = 0, et_CompTokens = 0, et_CostUSD = flit 0, et_ModelTier = [],
        et_Tags = [TraceSourceWooCommerce, ''metrics''], et_Metadata = wc_metadata m\<rparr> b"

section \<open>Mining the same file again\<close>

text \<open>A signal without its identifier and its time.\<close>

definition signal_body :: "signal \<Rightarrow> signal" where
  "signal_body s = s\<lparr>sg_ID := [], sg_DetectedAt := 0\<rparr>"

lemma bodies_foldl:
  assumes "\<And>sigs sigs' sm sm' x. map signal_body sigs = map signal_body sigs' \<Longrightarrow> sm_cfg sm = sm_cfg sm' \<Longrightarrow>
      map signal_body (fst (f (sigs, sm) x)) = map signal_body (fst (g (sigs', sm') x)) \<and>
      sm_cfg (snd (f (sigs, sm) x)) = sm_cfg sm \<and> sm_cfg (snd (g (sigs', sm') x)) = sm_cfg sm'"
  shows "map signal_body (fst a) = map signal_body (fst b) \<Longrightarrow> sm_cfg (snd a) = sm_cfg (snd b) \<Longrightarrow>
    map signal_body (fst (foldl f a xs)) = map signal_body (fst (foldl g b xs)) \<and>
    sm_cfg (snd (foldl f a xs)) = sm_cfg (snd a) \<and> sm_cfg (snd (foldl g b xs)) = sm_cfg (snd b)"
proof (induction xs arbitrary: a b)
  case (Cons x xs)
  from assms [of "fst a" "fst b" "snd a" "snd b" x] Cons.prems
  have s: "map signal_body (fst (f a x)) = map signal_body (fst (g b x))" "sm_cfg (snd (f a x)) = sm_cfg (snd a)" "sm_cfg (snd (g b x)) = sm_cfg (snd b)"
    by simp_all
  with Cons.IH [of "f a x" "g b x"] Cons.prems show ?case by simp
qed simp

lemma bodies_detectors:
  assumes "sm_cfg sm = sm_cfg sm'"
  shows "map signal_body (fst (detectRepeatedFailures ve now ts sm)) = map signal_body (fst (detectRepeatedFailures ve now' ts sm')) \<and>
      sm_cfg (snd (detectRepeatedFailures ve now ts sm)) = sm_cfg sm"
    "map signal_body (fst (detectHighLatency now ts sm)) = map signal_body (fst (detectHighLatency now' ts sm')) \<and>
      sm_cfg (snd (detectHighLatency now ts sm)) = sm_cfg sm"
    "map signal_body (fst (detectCostSpikes now ts sm)) = map signal_body (fst (detectCostSpikes now' ts sm')) \<and>
      sm_cfg (snd (detectCostSpikes now ts sm)) = sm_cfg sm"
    "map signal_body (fst (detectLowSuccessRate vt now ts sm)) = map signal_body (fst (detectLowSuccessRate vt now' ts sm')) \<and>
      sm_cfg (snd (detectLowSuccessRate vt now ts sm)) = sm_cfg sm"
proof -
  have "map signal_body (fst (foldl (failure_signal now) ([], sm) xs)) = map signal_body (fst (foldl (failure_signal now') ([], sm') xs)) \<and>
      sm_cfg (snd (foldl (failure_signal now) ([], sm) xs)) = sm_cfg (snd (([], sm) :: signal list \<times> signal_miner)) \<and>
      sm_cfg (snd (foldl (failure_signal now') ([], sm') xs)) = sm_cfg (snd (([], sm') :: signal list \<times> signal_miner))" for xs
    by (rule bodies_foldl) (use assms in \<open>auto simp: failure_signal_def nextID_def signal_body_def Let_def split: prod.splits\<close>)
  then show "map signal_body (fst (detectRepeatedFailures ve now ts sm)) = map signal_body (fst (detectRepeatedFailures ve now' ts sm')) \<and>
      sm_cfg (snd (detectRepeatedFailures ve now ts sm)) = sm_cfg sm" by (simp add: detectRepeatedFailures_def)
  have "map signal_body (fst (foldl (rate_signal now) ([], sm) xs)) = map signal_body (fst (foldl (rate_signal now') ([], sm') xs)) \<and>
      sm_cfg (snd (foldl (rate_signal now) ([], sm) xs)) = sm_cfg (snd (([], sm) :: signal list \<times> signal_miner)) \<and>
      sm_cfg (snd (foldl (rate_signal now') ([], sm') xs)) = sm_cfg (snd (([], sm') :: signal list \<times> signal_miner))" for xs
    by (rule bodies_foldl) (use assms in \<open>auto simp: rate_signal_def nextID_def signal_body_def Let_def split: prod.splits\<close>)
  then show "map signal_body (fst (detectLowSuccessRate vt now ts sm)) = map signal_body (fst (detectLowSuccessRate vt now' ts sm')) \<and>
      sm_cfg (snd (detectLowSuccessRate vt now ts sm)) = sm_cfg sm" by (simp add: detectLowSuccessRate_def)
qed (use assms in \<open>auto simp: detectHighLatency_def detectCostSpikes_def nextID_def signal_body_def Let_def\<close>)

lemma bodies_Mine:
  assumes "sm_cfg sm = sm_cfg sm'"
  shows "map signal_body (fst (Mine ve vt now ts sm)) = map signal_body (fst (Mine ve vt now' ts sm')) \<and>
    sm_cfg (snd (Mine ve vt now ts sm)) = sm_cfg sm"
proof -
  obtain a1 b1 a2 b2 a3 b3 a4 b4 where d: "detectRepeatedFailures ve now ts sm = (a1, b1)" "detectHighLatency now ts b1 = (a2, b2)"
    "detectCostSpikes now ts b2 = (a3, b3)" "detectLowSuccessRate vt now ts b3 = (a4, b4)" by (metis surj_pair)
  obtain a1' b1' a2' b2' a3' b3' a4' b4' where d': "detectRepeatedFailures ve now' ts sm' = (a1', b1')" "detectHighLatency now' ts b1' = (a2', b2')"
    "detectCostSpikes now' ts b2' = (a3', b3')" "detectLowSuccessRate vt now' ts b3' = (a4', b4')" by (metis surj_pair)
  note b = bodies_detectors
  have 1: "map signal_body a1 = map signal_body a1'" "sm_cfg b1 = sm_cfg sm" "sm_cfg b1' = sm_cfg sm'"
    using b(1) [of sm sm' ve now ts now'] b(1) [of sm' sm' ve now' ts now'] assms d d' by simp_all
  then have 2: "map signal_body a2 = map signal_body a2'" "sm_cfg b2 = sm_cfg b1" "sm_cfg b2' = sm_cfg b1'"
    using b(2) [of b1 b1' now ts now'] b(2) [of b1' b1' now' ts now'] assms d d' by simp_all
  then have 3: "map signal_body a3 = map signal_body a3'" "sm_cfg b3 = sm_cfg b2" "sm_cfg b3' = sm_cfg b2'"
    using b(3) [of b2 b2' now ts now'] b(3) [of b2' b2' now' ts now'] 1 assms d d' by simp_all
  then have 4: "map signal_body a4 = map signal_body a4'" "sm_cfg b4 = sm_cfg b3"
    using b(4) [of b3 b3' vt now ts now'] 1 2 assms d d' by simp_all
  from 1 2 3 4 show ?thesis by (simp add: Mine_def d d')
qed

lemma encode_quiet: "d_next d = [] \<Longrightarrow> d_next (snd (encode_traces co path ts d)) = []"
  by (induction ts arbitrary: d) (auto simp: AppendFile_def disk_defs split: sum.splits)

lemma encode_quiet_pair: "encode_traces co path ts d = (r, d') \<Longrightarrow> d_next d = [] \<Longrightarrow> d_next d' = []"
  using encode_quiet [of d co path ts] by simp

lemma Flush_quiet:
  "d_next d = [] \<Longrightarrow> Flush co tc d = (r, tc', d') \<Longrightarrow> d_next d' = [] \<and> (r = None \<longrightarrow> co_traces tc' = []) \<and> co_filePath tc' = co_filePath tc"
  by (auto simp: Flush_def OpenAppend_def outcome_def dest!: encode_quiet_pair split: if_splits prod.splits option.splits)

lemma LoadTraces_quiet: "d_next d = [] \<Longrightarrow> snd (LoadTraces co path d) = d"
  by (simp add: LoadTraces_def disk_defs split: option.splits)

text \<open>mining reads the whole file, so without a single new trace the next cycle finds every signal of this
  one again, under new identifiers.\<close>

theorem signals_mined_again:
  assumes "d_next d = []" "MineSignals co ve vt now b d = (Inr signals, b1, d1)"
    "MineSignals co ve vt now' b1 d1 = (Inr again, b2, d2)"
  shows "map signal_body again = map signal_body signals"
proof -
  from assms(2) obtain tc' d' where f: "Flush co (br_collector b) d = (None, tc', d')"
    by (auto simp: MineSignals_def split: prod.splits option.splits)
  from Flush_quiet [OF assms(1) f] have q: "d_next d' = []" "co_traces tc' = []" by simp_all
  obtain r where l: "LoadTraces co (co_filePath tc') d' = (r, d')" using LoadTraces_quiet [OF q(1)] by (metis prod.collapse)
  have m: "map signal_body (fst (Mine ve vt now ts (br_miner b))) = map signal_body (fst (Mine ve vt now' ts (br_miner b1)))"
    if "sm_cfg (br_miner b) = sm_cfg (br_miner b1)" for ts
    using bodies_Mine [OF that] by simp
  have c: "sm_cfg (snd (Mine ve vt now ts (br_miner b))) = sm_cfg (br_miner b)" for ts using bodies_Mine by blast
  have "br_collector b1 = tc'" "d1 = d'" using assms(2) f l
    by (auto simp: MineSignals_def Let_def split: sum.splits trace_error.splits fs_error.splits if_splits prod.splits)
  moreover have "Flush co tc' d' = (None, tc', d')" using q(2) by (simp add: Flush_def)
  ultimately have n: "br_collector b1 = tc'" "d1 = d'" "Flush co tc' d' = (None, tc', d')" by simp_all
  show ?thesis
  proof (cases r)
    case (Inl e)
    with assms(2,3) f l n show ?thesis
      by (auto simp: MineSignals_def Let_def split: trace_error.splits fs_error.splits)
  next
    case (Inr ts)
    show ?thesis
    proof (cases "ts = []")
      case False
      have "signals = fst (Mine ve vt now ts (br_miner b))" "br_miner b1 = snd (Mine ve vt now ts (br_miner b))"
        using assms(2) f l Inr False by (auto simp: MineSignals_def Let_def split: prod.splits)
      moreover have "again = fst (Mine ve vt now' ts (br_miner b1))"
        using assms(3) f l n Inr False by (auto simp: MineSignals_def Let_def split: prod.splits)
      ultimately show ?thesis using m [of ts] c [of ts] by simp
    qed (use assms(2,3) f l n Inr in \<open>auto simp: MineSignals_def Let_def\<close>)
  qed
qed

section \<open>Examples\<close>

definition sample_trace :: execution_trace where
  "sample_trace = \<lparr>et_ID = ''t1'', et_TaskName = ''login'', et_AgentID = [], et_StartTime = 0, et_EndTime = 0, et_LatencyMs = Fin 0,
     et_Success = False, et_ErrorMsg = ''boom'', et_ToolsCalled = [], et_PromptTokens = 0, et_CompTokens = 0, et_CostUSD = Fin 0,
     et_ModelTier = [], et_Tags = [], et_Metadata = []\<rparr>"

text \<open>A codec that refuses every other trace, as JSON refuses NaN.\<close>

definition sample_codec :: trace_codec where
  "sample_codec = \<lparr>tr_enc = \<lambda>t. if t = sample_trace then Inr ''x'' else Inl ''unsupported value'',
     tr_dec = \<lambda>s. if s = ''x'' then Inr sample_trace else Inl ''unexpected end''\<rparr>"

definition empty_files :: "string disk" where
  "empty_files = \<lparr>d_files = [], d_dirs = [], d_next = []\<rparr>"

definition sample_collector :: "execution_trace list \<Rightarrow> trace_collector" where
  "sample_collector ts = (NewTraceCollector ''traces'' 0)\<lparr>co_traces := ts\<rparr>"

lemma sample_facts:
  "trace_codec_ok sample_codec" "et_ID sample_trace = ''t1''" "tr_enc sample_codec sample_trace = Inr ''x''"
  "tr_enc sample_codec (sample_trace\<lparr>et_LatencyMs := NaN\<rparr>) = Inl ''unsupported value''"
  "d_next empty_files = []" "d_files empty_files = []" "co_filePath (sample_collector ts) = ''traces''" "co_traces (sample_collector ts) = ts"
  by (simp_all add: trace_codec_ok_def sample_codec_def sample_trace_def empty_files_def sample_collector_def NewTraceCollector_def)

lemma flushed_traces_load_witness:
  "\<exists>tc' d'. Flush sample_codec (sample_collector [sample_trace, sample_trace]) empty_files = (None, tc', d') \<and>
     LoadTraces sample_codec ''traces'' d' = (Inr [sample_trace, sample_trace], d')"
proof -
  obtain r tc' d' where f: "Flush sample_codec (sample_collector [sample_trace, sample_trace]) empty_files = (r, tc', d')" by (rule prod_cases3)
  then have "r = None" by (auto simp: Flush_def OpenAppend_def AppendFile_def outcome_def sample_facts)
  with f flushed_traces_load [of sample_codec "sample_collector [sample_trace, sample_trace]" empty_files tc' d'] show ?thesis
    by (simp add: sample_facts mget_or_def whole_lines_def traces_in_def splitJSONL_def)
qed

lemma unencodable_trace_blocks_witness:
  "\<exists>d'. flushes sample_codec 3 (sample_collector [sample_trace, sample_trace\<lparr>et_LatencyMs := NaN\<rparr>]) empty_files =
      (False, sample_collector [sample_trace, sample_trace\<lparr>et_LatencyMs := NaN\<rparr>], d') \<and>
     traces_in sample_codec (mget_or [] (d_files d') ''traces'') = [sample_trace, sample_trace, sample_trace]"
  using unencodable_trace_blocks [OF sample_facts(1), of "[sample_trace]" "sample_trace\<lparr>et_LatencyMs := NaN\<rparr>" _
      "sample_collector [sample_trace, sample_trace\<lparr>et_LatencyMs := NaN\<rparr>]" empty_files 3]
  by (simp add: sample_facts numeral_3_eq_3)

definition sample_bridge :: trace_bridge where
  "sample_bridge = NewTraceBridge (sample_collector [sample_trace, sample_trace, sample_trace]) (NewSignalMiner DefaultSignalMinerConfig)
     DefaultTraceBridgeConfig"

lemma sample_flushed:
  "\<exists>d. Flush sample_codec (sample_collector [sample_trace, sample_trace, sample_trace]) empty_files = (None, sample_collector [], d) \<and>
     d_next d = [] \<and> LoadTraces sample_codec ''traces'' d = (Inr [sample_trace, sample_trace, sample_trace], d)"
proof -
  let ?ts = "[sample_trace, sample_trace, sample_trace]"
  obtain r tc' d' where f: "Flush sample_codec (sample_collector ?ts) empty_files = (r, tc', d')" by (rule prod_cases3)
  then have r: "r = None" "tc' = sample_collector []" "d_next d' = []"
    "mget (d_files d') ''traces'' = Some [CHR ''x'', newline, CHR ''x'', newline, CHR ''x'', newline]"
    by (auto simp: Flush_def OpenAppend_def AppendFile_def outcome_def sample_facts mget_or_def) (simp add: sample_collector_def)
  have "LoadTraces sample_codec ''traces'' d' = (Inr ?ts, d')"
    using r by (simp add: LoadTraces_def read_stored splitJSONL_def strip_cr_def read_line_def sample_codec_def) (simp add: sample_trace_def)
  with f r show ?thesis by blast
qed

lemma sample_mined:
  "\<exists>signals b d. MineSignals sample_codec id id 1 sample_bridge empty_files = (Inr signals, b, d) \<and> signals \<noteq> [] \<and>
     (\<exists>again b2. MineSignals sample_codec id id 2 b d = (Inr again, b2, d))"
proof -
  let ?ts = "[sample_trace, sample_trace, sample_trace]"
  from sample_flushed obtain d where f: "Flush sample_codec (sample_collector ?ts) empty_files = (None, sample_collector [], d)"
    "d_next d = []" "LoadTraces sample_codec ''traces'' d = (Inr ?ts, d)" by blast
  obtain signals sm where m: "Mine id id 1 ?ts (NewSignalMiner DefaultSignalMinerConfig) = (signals, sm)" by force
  have first: "MineSignals sample_codec id id 1 sample_bridge empty_files =
      (Inr signals, sample_bridge\<lparr>br_collector := sample_collector [], br_miner := sm\<rparr>, d)"
    using f m by (simp add: MineSignals_def sample_bridge_def NewTraceBridge_def sample_facts)
  have "fst (detectRepeatedFailures id 1 ?ts (NewSignalMiner DefaultSignalMinerConfig)) \<noteq> []"
    by (simp add: detectRepeatedFailures_def add_failure_def sample_trace_def failure_signal_def NewSignalMiner_def DefaultSignalMinerConfig_def
        nextID_def mset_at_def mget_or_def mget_def Let_def)
  then have "signals \<noteq> []" using m by (auto simp: Mine_def split: prod.splits)
  moreover obtain again sm2 where m2: "Mine id id 2 ?ts sm = (again, sm2)" by force
  have "MineSignals sample_codec id id 2 (sample_bridge\<lparr>br_collector := sample_collector [], br_miner := sm\<rparr>) d =
      (Inr again, sample_bridge\<lparr>br_collector := sample_collector [], br_miner := sm2\<rparr>, d)"
    using f m2 by (simp add: MineSignals_def Flush_def sample_facts)
  ultimately show ?thesis using first by blast
qed

lemma signals_mined_again_witness:
  "\<exists>signals b1 d1 again b2 d2. MineSignals sample_codec id id 1 sample_bridge empty_files = (Inr signals, b1, d1) \<and> signals \<noteq> [] \<and>
     MineSignals sample_codec id id 2 b1 d1 = (Inr again, b2, d2) \<and> map signal_body again = map signal_body signals"
proof -
  from sample_mined obtain signals b1 d1 again b2 where
    m: "MineSignals sample_codec id id 1 sample_bridge empty_files = (Inr signals, b1, d1)" "signals \<noteq> []"
      "MineSignals sample_codec id id 2 b1 d1 = (Inr again, b2, d1)" by blast
  from signals_mined_again [OF sample_facts(5) m(1,3)] m show ?thesis by blast
qed

text \<open>a bridge that is started again after it was stopped flushes nothing in the background, and stopping it
  again closes a closed channel, which panics.\<close>

theorem restarted_bridge_panics:
  assumes "bc_AutoFlush cfg" "0 < bc_FlushInterval cfg" "bridge_Stop co (bridge_Start (NewTraceBridge tc sm cfg)) d = Returned (r, b, d')"
  shows "br_flushers (bridge_Start b) = 0 \<and> br_running (bridge_Start b) \<and> bridge_Stop co (bridge_Start b) d' = Panicked"
  using assms by (auto simp: bridge_Stop_def bridge_Start_def NewTraceBridge_def Let_def split: prod.splits)

lemma restarted_bridge_panics_witness:
  "\<exists>b d'. bridge_Stop sample_codec (bridge_Start (NewTraceBridge (sample_collector []) (NewSignalMiner DefaultSignalMinerConfig) DefaultTraceBridgeConfig))
      empty_files = Returned (None, b, d') \<and> bridge_Stop sample_codec (bridge_Start b) d' = Panicked"
proof -
  obtain r b d' where s: "bridge_Stop sample_codec (bridge_Start (NewTraceBridge (sample_collector []) (NewSignalMiner DefaultSignalMinerConfig)
      DefaultTraceBridgeConfig)) empty_files = Returned (r, b, d')"
    by (auto simp: bridge_Stop_def bridge_Start_def NewTraceBridge_def Flush_def sample_facts DefaultTraceBridgeConfig_def)
  then have "r = None" by (auto simp: bridge_Stop_def bridge_Start_def NewTraceBridge_def Flush_def sample_facts DefaultTraceBridgeConfig_def)
  with s restarted_bridge_panics [OF _ _ s] show ?thesis by (auto simp: DefaultTraceBridgeConfig_def)
qed

end
