(* ===== verification/Evolution_Engine.thy ===== *)
theory Evolution_Engine
  imports Evolver_Types
begin

text \<open>
  \<open>pkg/evolver/engine.go\<close>: signals become mutations, by a gene whose tag names the signal's type, by a
  language model, or by the signal's own suggestion. The environment holds the clock, the model, the
  order in which Go visits the map of genes, and the JSON encoding of an event's payload.
\<close>

section \<open>State\<close>

record engine_config =
  gc_Mode :: string
  gc_MaxMutationsPerRun :: int
  gc_AutoApplyLowRisk :: bool
  gc_DryRun :: bool

definition DefaultEngineConfig :: engine_config where
  "DefaultEngineConfig = \<lparr>gc_Mode = ModeBalanced, gc_MaxMutationsPerRun = 5, gc_AutoApplyLowRisk = False, gc_DryRun = False\<rparr>"

datatype event_payload = SignalPayload signal | OutcomePayload event_outcome

datatype synthesis_prompt = SynthesisPrompt string string signal_description

record 'w engine_env =
  ee_clock :: "'w \<Rightarrow> time"
  ee_genes :: "'w \<Rightarrow> (string \<times> gene) list \<Rightarrow> (string \<times> gene) list"
  ee_json :: "event_payload \<Rightarrow> string"

type_synonym 'w engine_llm = "synthesis_prompt \<Rightarrow> 'w \<Rightarrow> (string + string) \<times> 'w"

record 'w engine =
  en_cfg :: engine_config
  en_llm :: "'w engine_llm option"
  en_genes :: "(string, gene) gomap"
  en_capsules :: "(string, capsule) gomap"
  en_mutations :: "mutation list"
  en_events :: "evolution_event list"
  en_eventCounter :: nat
  en_mutCounter :: nat

definition NewEvolutionEngine :: "engine_config \<Rightarrow> 'w engine_llm option \<Rightarrow> 'w engine" where
  "NewEvolutionEngine cfg llm = \<lparr>en_cfg = cfg, en_llm = llm, en_genes = [], en_capsules = [], en_mutations = [], en_events = [],
     en_eventCounter = 0, en_mutCounter = 0\<rparr>"

definition RegisterGene :: "gene \<Rightarrow> 'w engine \<Rightarrow> string option \<times> 'w engine" where
  "RegisterGene g e =
     (case gene_Validate g of Some err \<Rightarrow> (Some err, e) | None \<Rightarrow> (None, e\<lparr>en_genes := mset_at (en_genes e) (g_ID g) g\<rparr>))"

definition RegisterCapsule :: "capsule \<Rightarrow> 'w engine \<Rightarrow> string option \<times> 'w engine" where
  "RegisterCapsule c e =
     (case capsule_Validate c of Some err \<Rightarrow> (Some err, e) | None \<Rightarrow> (None, e\<lparr>en_capsules := mset_at (en_capsules e) (cp_ID c) c\<rparr>))"

section \<open>From a signal to a mutation\<close>

definition shouldProcess :: "string \<Rightarrow> signal \<Rightarrow> bool" where
  "shouldProcess mode sig =
     (if mode = ModeRepairOnly then sg_Severity sig = SeverityCritical
      else if mode = ModeHarden then sg_Severity sig = SeverityCritical \<or> sg_Severity sig = SeverityWarning
      else if mode = ModeBalanced \<or> mode = ModeInnovate then True
      else sg_Severity sig \<noteq> SeverityInfo)"

definition estimateRisk :: "signal \<Rightarrow> string" where
  "estimateRisk sig =
     (if sg_Severity sig = SeverityCritical then RiskHigh else if sg_Severity sig = SeverityWarning then RiskMedium else RiskLow)"

definition matchGene :: "(string \<times> gene) list \<Rightarrow> signal \<Rightarrow> gene option" where
  "matchGene genes sig = map_option snd (find (\<lambda>(_, g). sg_Type sig \<in> set (g_Tags g)) genes)"

definition recordEvent :: "'w engine_env \<Rightarrow> string \<Rightarrow> event_payload \<Rightarrow> 'w engine \<Rightarrow> 'w \<Rightarrow> 'w engine" where
  "recordEvent env typ payload e w =
     (let n = en_eventCounter e + 1 in
      e\<lparr>en_eventCounter := n, en_events := en_events e @
          [\<lparr>ev_ID = ''evt-'' @ pad6 n, ev_Timestamp = ee_clock env w, ev_Type = typ, ev_ActorID = ''engine'', ev_ParentID = [],
            ev_Payload = ee_json env payload, ev_Outcome = \<lparr>eo_Success = False, eo_Reason = []\<rparr>\<rparr>]\<rparr>)"

definition blank_mutation :: "string \<Rightarrow> time \<Rightarrow> string \<Rightarrow> signal \<Rightarrow> mutation" where
  "blank_mutation mode now i sig = \<lparr>m_ID = i, m_SignalID = sg_ID sig, m_GeneID = [], m_Reasoning = [], m_RiskEstimate = estimateRisk sig,
     m_Strategy = mode, m_BeforeState = None, m_AfterState = None, m_Status = MutationStatusPending, m_ValidationLog = [],
     m_CreatedAt = now, m_ResolvedAt = None\<rparr>"

text \<open>\<open>%q\<close> of a name is the name in quotation marks, as for every name without special characters.\<close>

definition synthesiseMutation :: "'w engine_env \<Rightarrow> signal \<Rightarrow> 'w engine \<Rightarrow> 'w \<Rightarrow> (string + mutation) \<times> 'w engine \<times> 'w" where
  "synthesiseMutation env sig e w =
     (let matched = matchGene (ee_genes env w (en_genes e)) sig;
          n = en_mutCounter e + 1;
          e = e\<lparr>en_mutCounter := n\<rparr>;
          mut = blank_mutation (gc_Mode (en_cfg e)) (ee_clock env w) (''mut-'' @ pad6 n) sig
      in case matched of
           Some g \<Rightarrow> (Inr (mut\<lparr>m_GeneID := g_ID g,
             m_Reasoning := ''matched gene '' @ [CHR 0x22] @ g_Name g @ [CHR 0x22] @ '' ('' @ g_Category g @ '') for signal '' @ sg_Type sig\<rparr>), e, w)
         | None \<Rightarrow>
             (case en_llm e of
                Some llm \<Rightarrow>
                  (case llm (SynthesisPrompt (sg_Type sig) (sg_Severity sig) (sg_Description sig)) w of
                     (Inl err, w) \<Rightarrow> (Inl (''llm synthesis: '' @ err), e, w)
                   | (Inr resp, w) \<Rightarrow> (Inr (mut\<lparr>m_Reasoning := resp\<rparr>), e, w))
              | None \<Rightarrow> (Inr (mut\<lparr>m_Reasoning := (if sg_SuggestedMutation sig = [] then ''auto-generated for '' @ sg_Type sig @ '' signal''
                   else sg_SuggestedMutation sig)\<rparr>), e, w)))"

text \<open>The loop over the signals; \<open>produced\<close> is what this run has produced.\<close>

primrec evolve_loop :: "'w engine_env \<Rightarrow> signal list \<Rightarrow> mutation list \<Rightarrow> 'w engine \<Rightarrow> 'w \<Rightarrow> mutation list \<times> 'w engine \<times> 'w" where
  "evolve_loop env [] produced e w = (produced, e, w)"
| "evolve_loop env (sig # sigs) produced e w =
     (if gc_MaxMutationsPerRun (en_cfg e) \<le> int (length produced) then (produced, e, w)
      else if \<not> shouldProcess (gc_Mode (en_cfg e)) sig then evolve_loop env sigs produced e w
      else let e = recordEvent env EventSignalDetected (SignalPayload sig) e w in
        (case synthesiseMutation env sig e w of
           (Inl err, e, w) \<Rightarrow>
             evolve_loop env sigs produced (recordEvent env EventMutationProposed (OutcomePayload \<lparr>eo_Success = False, eo_Reason = err\<rparr>) e w) w
         | (Inr mut, e, w) \<Rightarrow>
             evolve_loop env sigs (produced @ [mut])
               (recordEvent env EventMutationProposed (OutcomePayload \<lparr>eo_Success = True, eo_Reason = []\<rparr>)
                 (e\<lparr>en_mutations := en_mutations e @ [mut]\<rparr>) w) w))"

definition Evolve :: "'w engine_env \<Rightarrow> signal list \<Rightarrow> 'w engine \<Rightarrow> 'w \<Rightarrow> mutation list \<times> 'w engine \<times> 'w" where
  "Evolve env signals e w = evolve_loop env signals [] e w"

section \<open>What a run produces\<close>

definition from_signal :: "string \<Rightarrow> signal \<Rightarrow> mutation \<Rightarrow> bool" where
  "from_signal mode sig mut \<longleftrightarrow> m_SignalID mut = sg_ID sig \<and> m_RiskEstimate mut = estimateRisk sig \<and> m_Strategy mut = mode \<and>
     m_Status mut = MutationStatusPending"

lemma synthesise_from:
  "synthesiseMutation env sig e w = (Inr mut, e', w') \<Longrightarrow> from_signal (gc_Mode (en_cfg e)) sig mut \<and> m_ID mut = ''mut-'' @ pad6 (en_mutCounter e + 1)"
  by (auto simp: synthesiseMutation_def from_signal_def blank_mutation_def Let_def split: option.splits prod.splits sum.splits)

lemma synthesise_frame:
  "synthesiseMutation env sig e w = (r, e', w') \<Longrightarrow> e' = e\<lparr>en_mutCounter := en_mutCounter e + 1\<rparr>"
  by (auto simp: synthesiseMutation_def Let_def split: option.splits prod.splits sum.splits)

lemma recordEvent_frame [simp]:
  "en_cfg (recordEvent env typ p e w) = en_cfg e" "en_llm (recordEvent env typ p e w) = en_llm e"
  "en_genes (recordEvent env typ p e w) = en_genes e" "en_mutations (recordEvent env typ p e w) = en_mutations e"
  "en_mutCounter (recordEvent env typ p e w) = en_mutCounter e"
  by (simp_all add: recordEvent_def Let_def)

lemma subseq_step: "subseq used (filter P sigs) \<Longrightarrow> subseq used (filter P (sig # sigs))"
  by (auto intro: list_emb_Cons)

lemma evolve_loop_from:
  "evolve_loop env sigs produced e w = (ms, e', w') \<Longrightarrow>
   \<exists>new used. ms = produced @ new \<and> subseq used (filter (shouldProcess (gc_Mode (en_cfg e))) sigs) \<and>
     list_all2 (from_signal (gc_Mode (en_cfg e))) used new \<and>
     (int (length produced) \<le> gc_MaxMutationsPerRun (en_cfg e) \<longrightarrow> int (length ms) \<le> gc_MaxMutationsPerRun (en_cfg e))"
proof (induction sigs arbitrary: produced e w)
  case (Cons sig sigs)
  let ?P = "shouldProcess (gc_Mode (en_cfg e))" and ?full = "gc_MaxMutationsPerRun (en_cfg e) \<le> int (length produced)"
  let ?e1 = "recordEvent env EventSignalDetected (SignalPayload sig) e w"
  obtain r e2 w2 where s: "synthesiseMutation env sig ?e1 w = (r, e2, w2)" by (rule prod_cases3)
  have cfg: "en_cfg e2 = en_cfg e" using synthesise_frame [OF s] by simp
  consider "?full" | "\<not> ?full" "\<not> ?P sig" | err where "\<not> ?full" "?P sig" "r = Inl err" | mut where "\<not> ?full" "?P sig" "r = Inr mut"
    by (cases r) auto
  then show ?case
  proof cases
    case 1
    with Cons.prems show ?thesis by auto
  next
    case 2
    with Cons.prems Cons.IH [of produced e w] show ?thesis by simp
  next
    case 3
    with Cons.prems s have "evolve_loop env sigs produced
        (recordEvent env EventMutationProposed (OutcomePayload \<lparr>eo_Success = False, eo_Reason = err\<rparr>) e2 w2) w2 = (ms, e', w')" by simp
    from Cons.IH [OF this] cfg show ?thesis using subseq_step [of _ ?P sigs sig] by (simp del: filter.simps) blast
  next
    case 4
    with Cons.prems s have "evolve_loop env sigs (produced @ [mut])
        (recordEvent env EventMutationProposed (OutcomePayload \<lparr>eo_Success = True, eo_Reason = []\<rparr>) (e2\<lparr>en_mutations := en_mutations e2 @ [mut]\<rparr>) w2) w2
        = (ms, e', w')" by simp
    from Cons.IH [OF this] cfg obtain new used where nu: "ms = (produced @ [mut]) @ new" "subseq used (filter ?P sigs)"
      "list_all2 (from_signal (gc_Mode (en_cfg e))) used new"
      "int (length produced) + 1 \<le> gc_MaxMutationsPerRun (en_cfg e) \<longrightarrow> int (length ms) \<le> gc_MaxMutationsPerRun (en_cfg e)" by auto
    have "from_signal (gc_Mode (en_cfg e)) sig mut" using synthesise_from [of env sig ?e1 w mut e2 w2] s 4(3) by simp
    with nu 4 show ?thesis by (intro exI [of _ "mut # new"] exI [of _ "sig # used"]) auto
  qed
qed auto

lemma evolve_loop_plain:
  assumes "\<And>w gs. mset (ee_genes env w gs) = mset gs"
  shows "en_genes e = [] \<Longrightarrow> en_llm e = None \<Longrightarrow> evolve_loop env sigs produced e w = (ms, e', w') \<Longrightarrow>
    map m_SignalID ms = map m_SignalID produced @
      map sg_ID (take (nat (gc_MaxMutationsPerRun (en_cfg e) - int (length produced))) (filter (shouldProcess (gc_Mode (en_cfg e))) sigs))"
proof (induction sigs arbitrary: produced e w)
  case (Cons sig sigs)
  let ?P = "shouldProcess (gc_Mode (en_cfg e))" and ?full = "gc_MaxMutationsPerRun (en_cfg e) \<le> int (length produced)"
  let ?e1 = "recordEvent env EventSignalDetected (SignalPayload sig) e w"
  obtain r e2 w2 where s: "synthesiseMutation env sig ?e1 w = (r, e2, w2)" by (rule prod_cases3)
  have "ee_genes env w [] = []" using assms [of w "[]"] by simp
  with s Cons.prems(1,2) obtain mut where r: "r = Inr mut" "w2 = w" by (auto simp: synthesiseMutation_def matchGene_def Let_def)
  have m: "m_SignalID mut = sg_ID sig" using synthesise_from [of env sig ?e1 w mut e2 w2] s r by (simp add: from_signal_def)
  show ?case
  proof (cases "?full \<or> \<not> ?P sig")
    case True
    with Cons.prems Cons.IH [OF Cons.prems(1,2)] show ?thesis by (auto split: if_splits)
  next
    case False
    with Cons.prems s r have run: "evolve_loop env sigs (produced @ [mut])
        (recordEvent env EventMutationProposed (OutcomePayload \<lparr>eo_Success = True, eo_Reason = []\<rparr>) (e2\<lparr>en_mutations := en_mutations e2 @ [mut]\<rparr>) w2) w2
        = (ms, e', w')" by simp
    have "nat (gc_MaxMutationsPerRun (en_cfg e) - int (length produced)) = Suc (nat (gc_MaxMutationsPerRun (en_cfg e) - int (length (produced @ [mut]))))"
      using False by (simp add: Suc_nat_eq_nat_zadd1)
    with Cons.IH [OF _ _ run] synthesise_frame [OF s] Cons.prems(1,2) False m show ?thesis by simp
  qed
qed simp

text \<open>without genes and without a model a run turns the first signals its mode admits into mutations, one
  each, in order, up to the limit, with the risk of the signal's severity.\<close>

theorem evolve_plain:
  assumes "\<And>w gs. mset (ee_genes env w gs) = mset gs" "en_genes e = []" "en_llm e = None" "Evolve env signals e w = (ms, e', w')"
  shows "map m_SignalID ms = map sg_ID (take (nat (gc_MaxMutationsPerRun (en_cfg e))) (filter (shouldProcess (gc_Mode (en_cfg e))) signals)) \<and>
    (\<forall>mut \<in> set ms. \<exists>sig \<in> set signals. from_signal (gc_Mode (en_cfg e)) sig mut)"
proof -
  from assms(4) have loop: "evolve_loop env signals [] e w = (ms, e', w')" by (simp add: Evolve_def)
  from evolve_loop_from [OF loop] obtain used where u: "subseq used (filter (shouldProcess (gc_Mode (en_cfg e))) signals)"
    "list_all2 (from_signal (gc_Mode (en_cfg e))) used ms" by auto
  have "\<exists>sig \<in> set signals. from_signal (gc_Mode (en_cfg e)) sig mut" if "mut \<in> set ms" for mut
  proof -
    from that u(2) obtain sig where "sig \<in> set used" "from_signal (gc_Mode (en_cfg e)) sig mut"
      by (metis in_set_conv_nth list_all2_conv_all_nth)
    moreover obtain y where "y \<in> set (filter (shouldProcess (gc_Mode (en_cfg e))) signals)" "sig = y"
      using list_emb_set [OF u(1) \<open>sig \<in> set used\<close>] by blast
    ultimately show ?thesis by auto
  qed
  with evolve_loop_plain [OF assms(1-3) loop] show ?thesis by simp
qed

lemma evolve_plain_witness:
  "\<exists>sig1 sig2. sg_Severity sig1 = SeverityInfo \<and>
     map m_SignalID (fst (Evolve \<lparr>ee_clock = (\<lambda>_. 0), ee_genes = (\<lambda>_ gs. gs), ee_json = (\<lambda>_. [])\<rparr> [sig1, sig2]
       (NewEvolutionEngine (DefaultEngineConfig\<lparr>gc_Mode := ModeHarden\<rparr>) None) ())) = [''sig-2'']"
proof -
  define d where "d = OtherDescription []"
  define sig1 where "sig1 = \<lparr>sg_ID = ''sig-1'', sg_Type = [], sg_Severity = SeverityInfo, sg_Description = d, sg_TraceIDs = [],
    sg_DetectedAt = 0, sg_SuggestedMutation = []\<rparr>"
  define sig2 where "sig2 = sig1\<lparr>sg_ID := ''sig-2'', sg_Severity := SeverityCritical\<rparr>"
  let ?env = "\<lparr>ee_clock = (\<lambda>_. 0), ee_genes = (\<lambda>_ gs. gs), ee_json = (\<lambda>_. [])\<rparr> :: unit engine_env"
  let ?e = "NewEvolutionEngine (DefaultEngineConfig\<lparr>gc_Mode := ModeHarden\<rparr>) None :: unit engine"
  obtain ms e' w' where run: "Evolve ?env [sig1, sig2] ?e () = (ms, e', w')" by (rule prod_cases3)
  have "map m_SignalID ms = [''sig-2'']"
    using evolve_plain [of ?env ?e "[sig1, sig2]" "()" ms e' w'] run
    by (simp add: NewEvolutionEngine_def DefaultEngineConfig_def shouldProcess_def sig1_def sig2_def)
  with run show ?thesis by (intro exI [of _ sig1] exI [of _ sig2]) (simp add: sig1_def)
qed

lemma evolve_loop_mutations:
  "evolve_loop env sigs produced e w = (ms, e', w') \<Longrightarrow>
   \<exists>new. ms = produced @ new \<and> en_mutations e' = en_mutations e @ new"
proof (induction sigs arbitrary: produced e w)
  case (Cons sig sigs)
  let ?e1 = "recordEvent env EventSignalDetected (SignalPayload sig) e w"
  obtain r e2 w2 where s: "synthesiseMutation env sig ?e1 w = (r, e2, w2)" by (rule prod_cases3)
  have e2: "en_mutations e2 = en_mutations e" using synthesise_frame [OF s] by simp
  show ?case
  proof (cases r)
    case (Inl err)
    with Cons.prems s Cons.IH e2 show ?thesis by (fastforce split: if_splits)
  next
    case (Inr mut)
    with Cons.prems s Cons.IH e2 show ?thesis by (fastforce split: if_splits)
  qed
qed simp

lemma Evolve_mutations: "Evolve env sigs e w = (ms, e', w') \<Longrightarrow> en_mutations e' = en_mutations e @ ms"
  using evolve_loop_mutations [of env sigs "[]" e w ms e' w'] by (auto simp: Evolve_def)

section \<open>Identifiers\<close>

definition engine_numbered :: "'w engine \<Rightarrow> bool" where
  "engine_numbered e \<longleftrightarrow> distinct (map m_ID (en_mutations e)) \<and>
     (\<forall>mut \<in> set (en_mutations e). \<exists>n. 0 < n \<and> n \<le> en_mutCounter e \<and> m_ID mut = ''mut-'' @ pad6 n) \<and>
     map ev_ID (en_events e) = map (\<lambda>n. ''evt-'' @ pad6 (Suc n)) [0..<en_eventCounter e]"

lemma numbered_event: "engine_numbered e \<Longrightarrow> engine_numbered (recordEvent env typ p e w)"
  by (simp add: engine_numbered_def recordEvent_def Let_def)

lemma numbered_mutation:
  assumes "engine_numbered e" "synthesiseMutation env sig e w = (r, e', w')"
  shows "case r of Inl _ \<Rightarrow> engine_numbered e' | Inr mut \<Rightarrow> engine_numbered (e'\<lparr>en_mutations := en_mutations e' @ [mut]\<rparr>)"
proof (cases r)
  case (Inl err)
  with synthesise_frame [OF assms(2)] assms(1) show ?thesis by (force simp: engine_numbered_def)
next
  case (Inr mut)
  from synthesise_from [of env sig e w mut e' w'] assms(2) Inr have i: "m_ID mut = ''mut-'' @ pad6 (en_mutCounter e + 1)" by simp
  have "m_ID mut \<notin> m_ID ` set (en_mutations e)"
  proof
    assume "m_ID mut \<in> m_ID ` set (en_mutations e)"
    with assms(1) obtain n where "n \<le> en_mutCounter e" "m_ID mut = ''mut-'' @ pad6 n" by (auto simp: engine_numbered_def)
    with i show False by simp
  qed
  with synthesise_frame [OF assms(2)] assms(1) Inr i show ?thesis
    by (auto simp: engine_numbered_def)
qed

lemma numbered_loop: "engine_numbered e \<Longrightarrow> engine_numbered (fst (snd (evolve_loop env sigs produced e w)))"
proof (induction sigs arbitrary: produced e w)
  case (Cons sig sigs)
  let ?e1 = "recordEvent env EventSignalDetected (SignalPayload sig) e w"
  obtain r e2 w2 where s: "synthesiseMutation env sig ?e1 w = (r, e2, w2)" by (rule prod_cases3)
  from numbered_mutation [OF numbered_event [OF Cons.prems] s] Cons show ?case by (auto simp: s numbered_event split: sum.splits)
qed simp

text \<open>A sequence of runs.\<close>

primrec evolve_runs :: "'w engine_env \<Rightarrow> signal list list \<Rightarrow> 'w engine \<Rightarrow> 'w \<Rightarrow> 'w engine" where
  "evolve_runs env [] e w = e"
| "evolve_runs env (sigs # batches) e w = (case Evolve env sigs e w of (_, e, w) \<Rightarrow> evolve_runs env batches e w)"

text \<open>over all runs no two mutations share an identifier, and the events are numbered one by one without a gap.\<close>

theorem engine_identifiers:
  "distinct (map m_ID (en_mutations (evolve_runs env batches (NewEvolutionEngine cfg llm) w))) \<and>
   map ev_ID (en_events (evolve_runs env batches (NewEvolutionEngine cfg llm) w)) =
     map (\<lambda>n. ''evt-'' @ pad6 (Suc n)) [0..<length (en_events (evolve_runs env batches (NewEvolutionEngine cfg llm) w))]"
proof -
  have "engine_numbered e \<Longrightarrow> engine_numbered (evolve_runs env batches e w)" for e :: "'a engine"
  proof (induction batches arbitrary: e w)
    case (Cons sigs batches)
    with numbered_loop [of e env sigs "[]" w] show ?case by (auto simp: Evolve_def split: prod.splits)
  qed simp
  then have n: "engine_numbered (evolve_runs env batches (NewEvolutionEngine cfg llm) w)"
    by (simp add: engine_numbered_def NewEvolutionEngine_def)
  then have "length (en_events (evolve_runs env batches (NewEvolutionEngine cfg llm) w)) = en_eventCounter (evolve_runs env batches (NewEvolutionEngine cfg llm) w)"
    unfolding engine_numbered_def by (metis length_map length_upt minus_nat.diff_0)
  with n show ?thesis by (simp add: engine_numbered_def)
qed

end
