(* ===== verification/Iron_Evolver.thy ===== *)
theory Iron_Evolver
  imports Promotion Evolution_Engine Trace_Collector
begin

text \<open>
  \<open>pkg/evolver/iron_evolver.go\<close>: one cycle mines the traces, lets the engine propose mutations, and submits
  those that pass the safety check to the promotion pipeline until enough are applied. The engine and
  the harness read the same world; mining needs the trace codec and the orders of the miner's maps.
\<close>

record iron_config =
  ic_AutoEvolve :: bool
  ic_EvolveInterval :: duration
  ic_MaxMutations :: int
  ic_DryRun :: bool
  ic_SafetyChecks :: bool

definition DefaultIronEvolverConfig :: iron_config where
  "DefaultIronEvolverConfig = \<lparr>ic_AutoEvolve = False, ic_EvolveInterval = 10 * minute, ic_MaxMutations = 1, ic_DryRun = False,
     ic_SafetyChecks = True\<rparr>"

record iron_stats =
  CyclesRun :: int
  SignalsFound :: int
  MutationsCreated :: int
  MutationsApplied :: int
  LastCycleAt :: time
  LastCycleDuration :: duration
  Errors :: int

record 'w iron =
  ir_cfg :: iron_config
  ir_bridge :: trace_bridge
  ir_engine :: "'w engine"
  ir_pipe :: pipeline
  ir_harness :: "'w harness"
  ir_stats :: iron_stats
  ir_disk :: "string disk"
  ir_world :: 'w

record 'w iron_env =
  ie_engine :: "'w engine_env"
  ie_clock :: "'w \<Rightarrow> time"
  ie_codec :: trace_codec
  ie_ve :: "(string \<times> string list) list \<Rightarrow> (string \<times> string list) list"
  ie_vt :: "(string \<times> nat \<times> nat) list \<Rightarrow> (string \<times> nat \<times> nat) list"

definition NewIronEvolver :: "iron_config \<Rightarrow> trace_bridge \<Rightarrow> 'w engine \<Rightarrow> pipeline \<Rightarrow> 'w harness \<Rightarrow> string disk \<Rightarrow> 'w \<Rightarrow> 'w iron" where
  "NewIronEvolver cfg b e p h d w = \<lparr>ir_cfg = cfg, ir_bridge = b, ir_engine = e, ir_pipe = p, ir_harness = h,
     ir_stats = \<lparr>CyclesRun = 0, SignalsFound = 0, MutationsCreated = 0, MutationsApplied = 0, LastCycleAt = 0, LastCycleDuration = 0, Errors = 0\<rparr>,
     ir_disk = d, ir_world = w\<rparr>"

definition isHighRisk :: "string \<Rightarrow> bool" where
  "isHighRisk risk \<longleftrightarrow> risk = RiskHigh \<or> risk = RiskCritical"

definition findSignal :: "signal list \<Rightarrow> string \<Rightarrow> signal option" where
  "findSignal signals i = find (\<lambda>s. sg_ID s = i) signals"

definition recordCycleDuration :: "'w iron_env \<Rightarrow> time \<Rightarrow> 'w iron \<Rightarrow> 'w iron" where
  "recordCycleDuration env start s =
     s\<lparr>ir_stats := (ir_stats s)\<lparr>LastCycleAt := ie_clock env (ir_world s), LastCycleDuration := time_sub (ie_clock env (ir_world s)) start\<rparr>\<rparr>"

definition recordError :: "'w iron \<Rightarrow> 'w iron" where
  "recordError s = s\<lparr>ir_stats := (ir_stats s)\<lparr>Errors := Errors (ir_stats s) + 1\<rparr>\<rparr>"

text \<open>What happens to one mutation, and the loop over those of a cycle.\<close>

definition try_apply :: "'w iron_env \<Rightarrow> signal list \<Rightarrow> mutation \<Rightarrow> nat \<Rightarrow> 'w iron \<Rightarrow> nat \<times> 'w iron" where
  "try_apply env signals mut applied s =
     (if ic_SafetyChecks (ir_cfg s) \<and> isHighRisk (m_RiskEstimate mut) then (applied, s)
      else case findSignal signals (m_SignalID mut) of
        None \<Rightarrow> (applied, s)
      | Some sig \<Rightarrow>
          (case Submit (ie_clock env) mut sig (ir_pipe s) (ir_harness s) (ir_world s) of (i, p, h, w) \<Rightarrow>
             let s = s\<lparr>ir_pipe := p, ir_harness := h, ir_world := w\<rparr>; rec = pp_heap p ! i in
             if pr_Status rec = PromotionEvaluated \<and> er_Pass (the (pr_Evaluation rec))
             then (case Approve (ie_clock env w) (m_ID mut) ''iron-evolver'' ''auto-approved by meta-agent'' p of
                     (Some e, p) \<Rightarrow> (applied, s\<lparr>ir_pipe := p\<rparr>)
                   | (None, p) \<Rightarrow> (applied + 1, s\<lparr>ir_pipe := p\<rparr>))
             else (applied, s)))"

primrec apply_loop :: "'w iron_env \<Rightarrow> signal list \<Rightarrow> int \<Rightarrow> mutation list \<Rightarrow> nat \<Rightarrow> 'w iron \<Rightarrow> nat \<times> 'w iron" where
  "apply_loop env signals limit [] applied s = (applied, s)"
| "apply_loop env signals limit (mut # muts) applied s =
     (if limit \<le> int applied then (applied, s)
      else let (applied, s) = try_apply env signals mut applied s in apply_loop env signals limit muts applied s)"

definition evolve_and_apply :: "'w iron_env \<Rightarrow> signal list \<Rightarrow> 'w iron \<Rightarrow> 'w iron" where
  "evolve_and_apply env signals s =
     (let (mutations, e, w) = Evolve (ie_engine env) signals (ir_engine s) (ir_world s);
          st = (ir_stats s)\<lparr>MutationsCreated := MutationsCreated (ir_stats s) + int (length mutations)\<rparr>;
          s' = s\<lparr>ir_engine := e, ir_world := w, ir_stats := st\<rparr>
      in if ic_DryRun (ir_cfg s) then s'
         else let limit = (if ic_MaxMutations (ir_cfg s) \<le> 0 then int (length mutations) else ic_MaxMutations (ir_cfg s));
                  (applied, s'') = apply_loop env signals limit mutations 0 s'
              in s''\<lparr>ir_stats := (ir_stats s'')\<lparr>MutationsApplied := MutationsApplied (ir_stats s'') + int applied\<rparr>\<rparr>)"

definition RunCycle :: "'w iron_env \<Rightarrow> 'w iron \<Rightarrow> trace_error option \<times> 'w iron" where
  "RunCycle env s =
     (let start = ie_clock env (ir_world s);
          s = s\<lparr>ir_stats := (ir_stats s)\<lparr>CyclesRun := CyclesRun (ir_stats s) + 1\<rparr>\<rparr>
      in case MineSignals (ie_codec env) (ie_ve env) (ie_vt env) (ie_clock env (ir_world s)) (ir_bridge s) (ir_disk s) of
           (Inl e, b, d) \<Rightarrow> (Some e, recordError (s\<lparr>ir_bridge := b, ir_disk := d\<rparr>))
         | (Inr signals, b, d) \<Rightarrow>
             let s = s\<lparr>ir_bridge := b, ir_disk := d,
                       ir_stats := (ir_stats s)\<lparr>SignalsFound := SignalsFound (ir_stats s) + int (length signals)\<rparr>\<rparr>
             in (None, recordCycleDuration env start (if signals = [] then s else evolve_and_apply env signals s)))"

definition truncateReason :: "string \<Rightarrow> nat \<Rightarrow> string" where
  "truncateReason s m = (if length s \<le> m then s else take m s @ ''...'')"

section \<open>The background loop\<close>

record auto_loop =
  al_running :: bool
  al_closed :: bool
  al_loops :: nat

definition iron_Start :: "iron_config \<Rightarrow> auto_loop \<Rightarrow> auto_loop" where
  "iron_Start cfg l =
     (if \<not> ic_AutoEvolve cfg \<or> ic_EvolveInterval cfg \<le> 0 \<or> al_running l then l
      else l\<lparr>al_running := True, al_loops := (if al_closed l then al_loops l else al_loops l + 1)\<rparr>)"

definition iron_Stop :: "auto_loop \<Rightarrow> auto_loop outcome" where
  "iron_Stop l =
     (if \<not> al_running l then Returned l
      else if al_closed l then Panicked
      else Returned (l\<lparr>al_running := False, al_closed := True, al_loops := 0\<rparr>))"

section \<open>What a cycle may do\<close>

lemma submit_frame:
  "Submit clock mut sig p h w = (i, p', h', w') \<Longrightarrow> \<not> auto_allowed (pp_cfg p) \<Longrightarrow>
   i = length (pp_heap p) \<and> pp_cfg p' = pp_cfg p \<and> (\<exists>rec. pp_heap p' = pp_heap p @ [rec] \<and> pr_MutationID rec = m_ID mut) \<and>
   mget (pp_records p') (m_ID mut) = Some i \<and> TotalApproved (pp_metrics p') = TotalApproved (pp_metrics p)"
  by (auto simp: Submit_def submit_begin_def submit_end_def blank_record_def auto_allowed_def Let_def list_update_append split: prod.splits if_splits)

lemma try_apply_facts:
  assumes "try_apply env signals mut applied s = (applied', s')" "\<not> auto_allowed (pp_cfg (ir_pipe s))"
  shows "\<exists>new. pp_heap (ir_pipe s') = pp_heap (ir_pipe s) @ new \<and>
    (\<forall>rec \<in> set new. pr_MutationID rec = m_ID mut \<and> \<not> (ic_SafetyChecks (ir_cfg s) \<and> isHighRisk (m_RiskEstimate mut))) \<and>
    TotalApproved (pp_metrics (ir_pipe s')) + applied = TotalApproved (pp_metrics (ir_pipe s)) + applied' \<and> applied' \<le> applied + 1 \<and>
    pp_cfg (ir_pipe s') = pp_cfg (ir_pipe s) \<and> ir_cfg s' = ir_cfg s \<and> ir_engine s' = ir_engine s \<and> ir_stats s' = ir_stats s"
proof (cases "ic_SafetyChecks (ir_cfg s) \<and> isHighRisk (m_RiskEstimate mut) \<or> findSignal signals (m_SignalID mut) = None")
  case True
  with assms(1) show ?thesis by (auto simp: try_apply_def split: if_splits)
next
  case False
  then obtain sig where sig: "findSignal signals (m_SignalID mut) = Some sig" by auto
  obtain i p h w where sub: "Submit (ie_clock env) mut sig (ir_pipe s) (ir_harness s) (ir_world s) = (i, p, h, w)" by (rule prod_cases4)
  from submit_frame [OF sub assms(2)] obtain rec where f: "i = length (pp_heap (ir_pipe s))" "pp_cfg p = pp_cfg (ir_pipe s)"
    "pp_heap p = pp_heap (ir_pipe s) @ [rec]" "pr_MutationID rec = m_ID mut" "mget (pp_records p) (m_ID mut) = Some i"
    "TotalApproved (pp_metrics p) = TotalApproved (pp_metrics (ir_pipe s))" by auto
  show ?thesis
  proof (cases "pr_Status rec = PromotionEvaluated \<and> er_Pass (the (pr_Evaluation rec))")
    case True
    with assms(1) sig sub f False show ?thesis by (auto simp: try_apply_def Approve_def Let_def list_update_append)
  next
    case n: False
    with assms(1) sig sub f False show ?thesis by (auto simp: try_apply_def Let_def)
  qed
qed

lemma apply_loop_facts:
  "apply_loop env signals limit muts applied s = (applied', s') \<Longrightarrow> \<not> auto_allowed (pp_cfg (ir_pipe s)) \<Longrightarrow>
   \<exists>new. pp_heap (ir_pipe s') = pp_heap (ir_pipe s) @ new \<and>
    (\<forall>rec \<in> set new. \<exists>mut \<in> set muts. pr_MutationID rec = m_ID mut \<and> \<not> (ic_SafetyChecks (ir_cfg s) \<and> isHighRisk (m_RiskEstimate mut))) \<and>
    TotalApproved (pp_metrics (ir_pipe s')) + applied = TotalApproved (pp_metrics (ir_pipe s)) + applied' \<and>
    (int applied \<le> limit \<longrightarrow> int applied' \<le> limit) \<and> ir_engine s' = ir_engine s \<and> ir_stats s' = ir_stats s \<and>
    ir_cfg s' = ir_cfg s \<and> pp_cfg (ir_pipe s') = pp_cfg (ir_pipe s)"
proof (induction muts arbitrary: applied s)
  case (Cons mut muts)
  show ?case
  proof (cases "limit \<le> int applied")
    case True
    with Cons.prems show ?thesis by auto
  next
    case False
    obtain a1 s1 where t: "try_apply env signals mut applied s = (a1, s1)" by force
    from try_apply_facts [OF t Cons.prems(2)] obtain new1 where f: "pp_heap (ir_pipe s1) = pp_heap (ir_pipe s) @ new1"
      "\<forall>rec \<in> set new1. pr_MutationID rec = m_ID mut \<and> \<not> (ic_SafetyChecks (ir_cfg s) \<and> isHighRisk (m_RiskEstimate mut))"
      "TotalApproved (pp_metrics (ir_pipe s1)) + applied = TotalApproved (pp_metrics (ir_pipe s)) + a1" "a1 \<le> applied + 1"
      "pp_cfg (ir_pipe s1) = pp_cfg (ir_pipe s)" "ir_cfg s1 = ir_cfg s" "ir_engine s1 = ir_engine s" "ir_stats s1 = ir_stats s" by blast
    from Cons.prems(1) False t have loop: "apply_loop env signals limit muts a1 s1 = (applied', s')" by simp
    from Cons.IH [OF loop] Cons.prems(2) f(5) obtain new2 where g: "pp_heap (ir_pipe s') = pp_heap (ir_pipe s1) @ new2"
      "\<forall>rec \<in> set new2. \<exists>mut \<in> set muts. pr_MutationID rec = m_ID mut \<and> \<not> (ic_SafetyChecks (ir_cfg s1) \<and> isHighRisk (m_RiskEstimate mut))"
      "TotalApproved (pp_metrics (ir_pipe s')) + a1 = TotalApproved (pp_metrics (ir_pipe s1)) + applied'" "int a1 \<le> limit \<longrightarrow> int applied' \<le> limit"
      "ir_engine s' = ir_engine s1" "ir_stats s' = ir_stats s1" "ir_cfg s' = ir_cfg s1" "pp_cfg (ir_pipe s') = pp_cfg (ir_pipe s1)" by auto
    show ?thesis
      by (rule exI [of _ "new1 @ new2"]) (use f g False in auto)
  qed
qed auto

lemma evolve_and_apply_limits:
  assumes "\<not> auto_allowed (pp_cfg (ir_pipe s))" "s' = evolve_and_apply env signals s"
  shows "(\<exists>new. pp_heap (ir_pipe s') = pp_heap (ir_pipe s) @ new \<and>
      (\<forall>rec \<in> set new. \<exists>mut \<in> set (en_mutations (ir_engine s')). pr_MutationID rec = m_ID mut \<and>
         \<not> (ic_SafetyChecks (ir_cfg s) \<and> isHighRisk (m_RiskEstimate mut)))) \<and>
    MutationsApplied (ir_stats s') - MutationsApplied (ir_stats s) =
      int (TotalApproved (pp_metrics (ir_pipe s'))) - int (TotalApproved (pp_metrics (ir_pipe s))) \<and>
    (0 < ic_MaxMutations (ir_cfg s) \<longrightarrow> MutationsApplied (ir_stats s') \<le> MutationsApplied (ir_stats s) + ic_MaxMutations (ir_cfg s)) \<and>
    SignalsFound (ir_stats s') = SignalsFound (ir_stats s)"
proof -
  obtain ms e w where ev: "Evolve (ie_engine env) signals (ir_engine s) (ir_world s) = (ms, e, w)" by (rule prod_cases3)
  define s2 where "s2 = s\<lparr>ir_engine := e, ir_world := w,
    ir_stats := (ir_stats s)\<lparr>MutationsCreated := MutationsCreated (ir_stats s) + int (length ms)\<rparr>\<rparr>"
  define limit where "limit = (if ic_MaxMutations (ir_cfg s) \<le> 0 then int (length ms) else ic_MaxMutations (ir_cfg s))"
  obtain n s3 where loop: "apply_loop env signals limit ms 0 s2 = (n, s3)" by force
  have s': "s' = (if ic_DryRun (ir_cfg s) then s2
      else s3\<lparr>ir_stats := (ir_stats s3)\<lparr>MutationsApplied := MutationsApplied (ir_stats s3) + int n\<rparr>\<rparr>)"
    using loop by (simp add: assms(2) evolve_and_apply_def ev s2_def limit_def)
  have same: "ir_pipe s2 = ir_pipe s" "ir_cfg s2 = ir_cfg s" "MutationsApplied (ir_stats s2) = MutationsApplied (ir_stats s)"
    "SignalsFound (ir_stats s2) = SignalsFound (ir_stats s)" "ir_engine s2 = e" by (simp_all add: s2_def)
  from apply_loop_facts [OF loop] assms(1) same obtain new where f: "pp_heap (ir_pipe s3) = pp_heap (ir_pipe s) @ new"
    "\<forall>rec \<in> set new. \<exists>mut \<in> set ms. pr_MutationID rec = m_ID mut \<and> \<not> (ic_SafetyChecks (ir_cfg s) \<and> isHighRisk (m_RiskEstimate mut))"
    "TotalApproved (pp_metrics (ir_pipe s3)) = TotalApproved (pp_metrics (ir_pipe s)) + n" "0 \<le> limit \<longrightarrow> int n \<le> limit"
    "ir_engine s3 = e" "ir_stats s3 = ir_stats s2" by auto
  show ?thesis unfolding s' using f same Evolve_mutations [OF ev] by (auto simp: limit_def split: if_splits)
qed

text \<open>a cycle that ends without an error approves at most \<open>MaxMutations\<close> mutations and counts exactly those as
  applied, when the pipeline itself approves nothing; and with the safety checks on it submits none of
  high or critical risk.\<close>

theorem iron_cycle_limits:
  assumes "RunCycle env s = (None, s')" "\<not> auto_allowed (pp_cfg (ir_pipe s))"
  shows "(\<exists>new. pp_heap (ir_pipe s') = pp_heap (ir_pipe s) @ new \<and>
      (\<forall>rec \<in> set new. \<exists>mut \<in> set (en_mutations (ir_engine s')). pr_MutationID rec = m_ID mut \<and>
         \<not> (ic_SafetyChecks (ir_cfg s) \<and> isHighRisk (m_RiskEstimate mut)))) \<and>
    MutationsApplied (ir_stats s') - MutationsApplied (ir_stats s) =
      int (TotalApproved (pp_metrics (ir_pipe s'))) - int (TotalApproved (pp_metrics (ir_pipe s))) \<and>
    (0 < ic_MaxMutations (ir_cfg s) \<longrightarrow> MutationsApplied (ir_stats s') \<le> MutationsApplied (ir_stats s) + ic_MaxMutations (ir_cfg s))"
proof -
  obtain m b d where mine: "MineSignals (ie_codec env) (ie_ve env) (ie_vt env) (ie_clock env (ir_world s)) (ir_bridge s) (ir_disk s) = (m, b, d)"
    by (rule prod_cases3)
  with assms(1) obtain signals where m: "m = Inr signals" by (cases m) (auto simp: RunCycle_def)
  define s1 where "s1 = s\<lparr>ir_bridge := b, ir_disk := d, ir_stats := (ir_stats s)\<lparr>CyclesRun := CyclesRun (ir_stats s) + 1,
    SignalsFound := SignalsFound (ir_stats s) + int (length signals)\<rparr>\<rparr>"
  have s': "s' = recordCycleDuration env (ie_clock env (ir_world s)) (if signals = [] then s1 else evolve_and_apply env signals s1)"
    using assms(1) mine m by (cases "signals = []") (auto simp: RunCycle_def Let_def s1_def)
  have same: "ir_pipe s1 = ir_pipe s" "ir_cfg s1 = ir_cfg s" "MutationsApplied (ir_stats s1) = MutationsApplied (ir_stats s)"
    by (simp_all add: s1_def)
  from evolve_and_apply_limits [of s1 _ env signals, OF _ refl] assms(2) same show ?thesis
    unfolding s' by (auto simp: recordCycleDuration_def)
qed

text \<open>A cycle over three traces that failed alike.\<close>

definition sample_env :: "time iron_env" where
  "sample_env = \<lparr>ie_engine = \<lparr>ee_clock = \<lambda>w. w, ee_genes = \<lambda>_ gs. gs, ee_json = \<lambda>_. []\<rparr>, ie_clock = \<lambda>w. w, ie_codec = sample_codec,
     ie_ve = id, ie_vt = id\<rparr>"

definition sample_iron :: "time iron" where
  "sample_iron = NewIronEvolver DefaultIronEvolverConfig sample_bridge (NewEvolutionEngine DefaultEngineConfig None)
     (NewPromotionPipeline DefaultPromotionConfig) (NewEvaluationHarness DefaultEvaluationConfig None) empty_files 1"

lemma iron_cycle_limits_witness:
  "\<exists>s'. RunCycle sample_env sample_iron = (None, s') \<and> 0 < SignalsFound (ir_stats s') \<and> MutationsApplied (ir_stats s') \<le> 1"
proof -
  obtain signals b d where m: "MineSignals sample_codec id id 1 sample_bridge empty_files = (Inr signals, b, d)" "signals \<noteq> []"
    using sample_mined by blast
  obtain r s' where c: "RunCycle sample_env sample_iron = (r, s')" by force
  have f: "ic_MaxMutations (ir_cfg sample_iron) = 1" "MutationsApplied (ir_stats sample_iron) = 0" "\<not> auto_allowed (pp_cfg (ir_pipe sample_iron))"
    by (simp_all add: sample_iron_def NewIronEvolver_def DefaultIronEvolverConfig_def default_pipeline auto_allowed_def example_facts)
  have mine: "MineSignals (ie_codec sample_env) (ie_ve sample_env) (ie_vt sample_env) (ie_clock sample_env (ir_world sample_iron))
      (ir_bridge sample_iron) (ir_disk sample_iron) = (Inr signals, b, d)"
    using m(1) by (simp add: sample_env_def sample_iron_def NewIronEvolver_def)
  define s1 where "s1 = sample_iron\<lparr>ir_bridge := b, ir_disk := d, ir_stats := (ir_stats sample_iron)\<lparr>CyclesRun := 1,
    SignalsFound := int (length signals)\<rparr>\<rparr>"
  have st: "CyclesRun (ir_stats sample_iron) = 0" "SignalsFound (ir_stats sample_iron) = 0"
    by (simp_all add: sample_iron_def NewIronEvolver_def)
  have "r = None \<and> s' = recordCycleDuration sample_env (ie_clock sample_env (ir_world sample_iron)) (evolve_and_apply sample_env signals s1)"
    using c mine m(2) st by (simp add: RunCycle_def Let_def s1_def)
  moreover have "SignalsFound (ir_stats (evolve_and_apply sample_env signals s1)) = int (length signals)"
    using evolve_and_apply_limits [of s1 _ sample_env signals, OF _ refl] f(3) by (simp add: s1_def)
  ultimately show ?thesis using iron_cycle_limits [of sample_env sample_iron s'] c f m(2) by (auto simp: recordCycleDuration_def)
qed

definition low_risk_idea :: mutation where
  "low_risk_idea = retry_idea\<lparr>m_RiskEstimate := RiskLow\<rparr>"

text \<open>a pipeline that requires a human reviewer does not get one: a mutation that passes the default rubric is
  approved by the meta-agent itself.\<close>

theorem iron_approves_itself:
  assumes "pc_RequireHITL (pp_cfg (ir_pipe s))" "ir_harness s = NewEvaluationHarness DefaultEvaluationConfig None"
    "findSignal signals (m_SignalID mut) = Some sig" "\<not> isHighRisk (m_RiskEstimate mut)" "60 \<le> points mut sig"
  shows "\<exists>s' rec. try_apply env signals mut n s = (n + 1, s') \<and> GetRecord (m_ID mut) (ir_pipe s') = Some rec \<and>
    pr_Status rec = PromotionApproved \<and> pr_ReviewedBy rec = ''iron-evolver''"
proof -
  obtain eval h w where e: "Evaluate (ie_clock env) mut sig (ir_harness s) (ir_world s) = (eval, h, w)" by (rule prod_cases3)
  from evaluation_verdict [OF e [unfolded assms(2)]] assms(5) have "er_Pass eval" by simp
  with assms e show ?thesis
    by (auto simp: try_apply_def Submit_def submit_begin_def submit_end_def Approve_def GetRecord_def Let_def)
qed

lemma iron_approves_itself_witness:
  "\<exists>s' rec. try_apply sample_env [failing_signal] low_risk_idea 0 sample_iron = (1, s') \<and>
     GetRecord (m_ID low_risk_idea) (ir_pipe s') = Some rec \<and> pr_ReviewedBy rec = ''iron-evolver''"
proof -
  have "points low_risk_idea failing_signal = 73"
    by (simp add: points_def correctness_points_def safety_points_def efficiency_points_def clarity_points_def low_risk_idea_def
        retry_idea_def failing_signal_def)
  then show ?thesis
    using iron_approves_itself [of sample_iron "[failing_signal]" low_risk_idea failing_signal sample_env 0]
    by (auto simp: sample_iron_def NewIronEvolver_def default_pipeline example_facts findSignal_def low_risk_idea_def retry_idea_def
        failing_signal_def isHighRisk_def)
qed

end
