(* ===== verification/Doctor.thy ===== *)
theory Doctor
  imports Trace_Collector
begin

text \<open>
  \<open>internal/doctor/doctor.go\<close>: health checks, the suites they form and the verdict of a report, and how
  the trace bridge (\<open>pkg/evolver/trace_bridge.go\<close>) turns a report into traces. The checks run in
  goroutines that write separate slots, so a suite is the list of what they answered; the moments at
  which they start are arguments.
\<close>

section \<open>Status\<close>

datatype check_status = StatusPass | StatusWarn | StatusFail | StatusSkip

fun status_num :: "check_status \<Rightarrow> nat" where
  "status_num StatusPass = 0"
| "status_num StatusWarn = 1"
| "status_num StatusFail = 2"
| "status_num StatusSkip = 3"

lemma status_num_inj: "status_num a = status_num b \<Longrightarrow> a = b"
  by (cases a; cases b) simp_all

instantiation check_status :: linorder
begin

definition less_eq_check_status :: "check_status \<Rightarrow> check_status \<Rightarrow> bool" where
  "a \<le> b \<longleftrightarrow> status_num a \<le> status_num b"

definition less_check_status :: "check_status \<Rightarrow> check_status \<Rightarrow> bool" where
  "a < b \<longleftrightarrow> status_num a < status_num b"

instance
  by standard (auto simp: less_eq_check_status_def less_check_status_def intro: status_num_inj)

end

fun status_String :: "check_status \<Rightarrow> string" where
  "status_String StatusPass = ''pass''"
| "status_String StatusWarn = ''warn''"
| "status_String StatusFail = ''fail''"
| "status_String StatusSkip = ''skip''"

text \<open>\<open>UnmarshalJSON\<close> of the decoded string.\<close>

definition status_parse :: "string \<Rightarrow> check_status option" where
  "status_parse s =
     (if s \<in> {''pass'', ''ok''} then Some StatusPass
      else if s \<in> {''warn'', ''warning''} then Some StatusWarn
      else if s \<in> {''fail'', ''critical''} then Some StatusFail
      else if s \<in> {''skip'', ''skipped''} then Some StatusSkip
      else None)"

section \<open>Suites and reports\<close>

record health_check =
  ck_Name :: string
  ck_Status :: check_status
  ck_Message :: string
  ck_Duration :: duration

record suite =
  su_Name :: string
  su_Checks :: "health_check list"
  su_Duration :: duration

definition suite_Overall :: "suite \<Rightarrow> check_status" where
  "suite_Overall s = foldl (\<lambda>worst c. if worst < ck_Status c then ck_Status c else worst) StatusPass (su_Checks s)"

definition PassCount :: "suite \<Rightarrow> nat" where
  "PassCount s = foldl (\<lambda>n c. if ck_Status c = StatusPass then n + 1 else n) 0 (su_Checks s)"

record report =
  rp_Suites :: "suite list"
  rp_Overall :: string
  rp_Timestamp :: time
  rp_Duration :: duration
  rp_Platform :: string
  rp_GoVersion :: string

definition ComputeOverall :: "report \<Rightarrow> report" where
  "ComputeOverall r =
     (let (hasFail, hasWarn) = foldl (\<lambda>(hasFail, hasWarn) s.
            case suite_Overall s of StatusFail \<Rightarrow> (True, hasWarn) | StatusWarn \<Rightarrow> (hasFail, True) | _ \<Rightarrow> (hasFail, hasWarn)) (False, False) (rp_Suites r)
      in r\<lparr>rp_Overall := (if hasFail then ''unhealthy'' else if hasWarn then ''degraded'' else ''healthy'')\<rparr>)"

definition TotalChecks :: "report \<Rightarrow> nat" where
  "TotalChecks r = foldl (\<lambda>n s. n + length (su_Checks s)) 0 (rp_Suites r)"

definition TotalPass :: "report \<Rightarrow> nat" where
  "TotalPass r = foldl (\<lambda>n s. n + PassCount s) 0 (rp_Suites r)"

section \<open>Running checks\<close>

record suite_spec =
  sp_Name :: string
  sp_Checks :: "(string \<times> (time \<Rightarrow> health_check)) list"

record runner =
  rn_CheckTimeout :: duration
  rn_SuiteTimeout :: duration

definition DefaultRunner :: runner where
  "DefaultRunner = \<lparr>rn_CheckTimeout = 10 * second, rn_SuiteTimeout = 30 * second\<rparr>"

text \<open>A check is a function of the deadline of its context; \<open>begun i\<close> is when the \<open>i\<close>-th goroutine starts it.\<close>

definition earliest :: "time option \<Rightarrow> time \<Rightarrow> time" where
  "earliest ctx t = (case ctx of None \<Rightarrow> t | Some u \<Rightarrow> min u t)"

definition run_check :: "string \<times> (time \<Rightarrow> health_check) \<Rightarrow> time \<Rightarrow> health_check" where
  "run_check nc deadline = (let c = snd nc deadline in if ck_Name c = [] then c\<lparr>ck_Name := fst nc\<rparr> else c)"

definition RunSuite :: "runner \<Rightarrow> time option \<Rightarrow> time \<Rightarrow> (nat \<Rightarrow> time) \<Rightarrow> time \<Rightarrow> suite_spec \<Rightarrow> suite" where
  "RunSuite r ctx start begun done_at spec =
     (let suiteDeadline = earliest ctx (start + rn_SuiteTimeout r) in
      \<lparr>su_Name = sp_Name spec,
       su_Checks = map (\<lambda>(i, nc). run_check nc (min suiteDeadline (begun i + rn_CheckTimeout r))) (zip [0..<length (sp_Checks spec)] (sp_Checks spec)),
       su_Duration = time_sub done_at start\<rparr>)"

definition RunAll :: "runner \<Rightarrow> time option \<Rightarrow> time \<Rightarrow> (nat \<Rightarrow> time) \<Rightarrow> (nat \<Rightarrow> nat \<Rightarrow> time) \<Rightarrow> (nat \<Rightarrow> time) \<Rightarrow> time \<Rightarrow> string \<Rightarrow> string \<Rightarrow>
    suite_spec list \<Rightarrow> report" where
  "RunAll r ctx start suite_begun begun suite_done done_at platform version specs =
     ComputeOverall
       \<lparr>rp_Suites = map (\<lambda>(i, spec). RunSuite r ctx (suite_begun i) (begun i) (suite_done i) spec) (zip [0..<length specs] specs),
        rp_Overall = [], rp_Timestamp = start, rp_Duration = time_sub done_at start, rp_Platform = platform, rp_GoVersion = version\<rparr>"

text \<open>The assertion helpers; \<open>dur\<close> is the time they took, the answer of the system their argument.\<close>

definition AssertTrue :: "string \<Rightarrow> bool \<Rightarrow> string \<Rightarrow> duration \<Rightarrow> health_check" where
  "AssertTrue name cond detail dur =
     \<lparr>ck_Name = name, ck_Status = (if cond then StatusPass else StatusFail), ck_Message = detail, ck_Duration = dur\<rparr>"

definition AssertFileExists :: "string \<Rightarrow> string \<Rightarrow> bool \<Rightarrow> duration \<Rightarrow> health_check" where
  "AssertFileExists name path found dur =
     (if found then \<lparr>ck_Name = name, ck_Status = StatusPass, ck_Message = ''exists: '' @ path, ck_Duration = dur\<rparr>
      else \<lparr>ck_Name = name, ck_Status = StatusFail, ck_Message = ''not found: '' @ path, ck_Duration = dur\<rparr>)"

definition AssertHTTPHealth :: "string \<Rightarrow> string + (string + int) \<Rightarrow> duration \<Rightarrow> health_check" where
  "AssertHTTPHealth name answer dur =
     (case answer of
        Inl e \<Rightarrow> \<lparr>ck_Name = name, ck_Status = StatusFail, ck_Message = ''bad URL: '' @ e, ck_Duration = dur\<rparr>
      | Inr (Inl e) \<Rightarrow> \<lparr>ck_Name = name, ck_Status = StatusFail, ck_Message = ''unreachable: '' @ e, ck_Duration = dur\<rparr>
      | Inr (Inr code) \<Rightarrow>
          if 200 \<le> code \<and> code < 400
          then \<lparr>ck_Name = name, ck_Status = StatusPass, ck_Message = ''healthy (status='' @ show_int code @ '')'', ck_Duration = dur\<rparr>
          else \<lparr>ck_Name = name, ck_Status = StatusWarn, ck_Message = ''status '' @ show_int code, ck_Duration = dur\<rparr>)"

definition AssertCommandExists :: "string \<Rightarrow> string \<Rightarrow> string option \<Rightarrow> duration \<Rightarrow> health_check" where
  "AssertCommandExists name cmd path dur =
     (case path of
        None \<Rightarrow> \<lparr>ck_Name = name, ck_Status = StatusWarn, ck_Message = cmd @ '' not found'', ck_Duration = dur\<rparr>
      | Some p \<Rightarrow> \<lparr>ck_Name = name, ck_Status = StatusPass, ck_Message = ''found: '' @ p, ck_Duration = dur\<rparr>)"

definition AssertGoroutineCount :: "string \<Rightarrow> int \<Rightarrow> int \<Rightarrow> int \<Rightarrow> duration \<Rightarrow> health_check" where
  "AssertGoroutineCount name warnAt failAt n dur =
     (let msg = show_int n @ '' goroutines active'' in
      if failAt \<le> n then \<lparr>ck_Name = name, ck_Status = StatusFail, ck_Message = msg @ '' (>= '' @ show_int failAt @ '')'', ck_Duration = dur\<rparr>
      else if warnAt \<le> n then \<lparr>ck_Name = name, ck_Status = StatusWarn, ck_Message = msg @ '' (>= '' @ show_int warnAt @ '')'', ck_Duration = dur\<rparr>
      else \<lparr>ck_Name = name, ck_Status = StatusPass, ck_Message = msg, ck_Duration = dur\<rparr>)"

text \<open>The answers of \<open>os.Stat\<close> (whether it is a directory), \<open>os.WriteFile\<close> and \<open>os.ReadDir\<close> are arguments.\<close>

definition AssertDirWritable :: "string \<Rightarrow> string \<Rightarrow> bool option \<Rightarrow> string option \<Rightarrow> duration \<Rightarrow> health_check" where
  "AssertDirWritable name dir is_dir write_error dur =
     (case is_dir of
        None \<Rightarrow> \<lparr>ck_Name = name, ck_Status = StatusFail, ck_Message = ''not found: '' @ dir, ck_Duration = dur\<rparr>
      | Some False \<Rightarrow> \<lparr>ck_Name = name, ck_Status = StatusFail, ck_Message = ''not a directory: '' @ dir, ck_Duration = dur\<rparr>
      | Some True \<Rightarrow>
          (case write_error of
             Some e \<Rightarrow> \<lparr>ck_Name = name, ck_Status = StatusFail, ck_Message = ''not writable: '' @ e, ck_Duration = dur\<rparr>
           | None \<Rightarrow> \<lparr>ck_Name = name, ck_Status = StatusPass, ck_Message = ''writable: '' @ dir, ck_Duration = dur\<rparr>))"

definition AssertDirFileCount :: "string \<Rightarrow> string \<Rightarrow> string \<Rightarrow> int \<Rightarrow> string list option \<Rightarrow> duration \<Rightarrow> health_check" where
  "AssertDirFileCount name dir ext least entries dur =
     (case entries of
        None \<Rightarrow> \<lparr>ck_Name = name, ck_Status = StatusWarn, ck_Message = ''cannot read: '' @ dir, ck_Duration = dur\<rparr>
      | Some es \<Rightarrow>
          let n = foldl (\<lambda>n e. if suffix ext e then n + 1 else n) 0 es in
          \<lparr>ck_Name = name, ck_Status = (if n < least then StatusWarn else StatusPass),
           ck_Message = show_int n @ '' '' @ ext @ '' files in '' @ dir, ck_Duration = dur\<rparr>)"

section \<open>The verdict\<close>

lemma worst_fold:
  "foldl (\<lambda>worst c. if worst < ck_Status c then ck_Status c else worst) w cs = Max (insert w (ck_Status ` set cs))"
proof (induction cs arbitrary: w)
  case (Cons c cs)
  have "(if w < ck_Status c then ck_Status c else w) = max w (ck_Status c)" by (auto simp: max_def)
  moreover have "Max (insert (max w (ck_Status c)) (ck_Status ` set cs)) = Max (insert w (insert (ck_Status c) (ck_Status ` set cs)))"
    by (cases "set cs = {}") (simp_all add: max.assoc)
  ultimately show ?case using Cons.IH by simp
qed simp

lemma suite_Overall_Max: "suite_Overall s = Max (insert StatusPass (ck_Status ` set (su_Checks s)))"
  by (simp add: suite_Overall_def worst_fold)

definition has_status :: "check_status \<Rightarrow> suite \<Rightarrow> bool" where
  "has_status st s \<longleftrightarrow> (\<exists>c \<in> set (su_Checks s). ck_Status c = st)"

lemma has_status_mem: "has_status st s \<longleftrightarrow> st \<in> ck_Status ` set (su_Checks s)"
  by (auto simp: has_status_def)

lemma status_le: "a \<le> StatusWarn \<longleftrightarrow> a = StatusPass \<or> a = StatusWarn" "a \<le> StatusFail \<longleftrightarrow> a \<noteq> StatusSkip" "StatusPass \<le> a"
  by (cases a; simp add: less_eq_check_status_def)+

lemma suite_Overall_fail: "suite_Overall s = StatusFail \<longleftrightarrow> has_status StatusFail s \<and> \<not> has_status StatusSkip s"
proof -
  have "suite_Overall s = StatusFail \<longleftrightarrow> StatusFail \<in> ck_Status ` set (su_Checks s) \<and> (\<forall>a \<in> ck_Status ` set (su_Checks s). a \<noteq> StatusSkip)"
    unfolding suite_Overall_Max by (subst Max_eq_iff) (auto simp: status_le)
  then show ?thesis unfolding has_status_mem by blast
qed

lemma suite_Overall_warn:
  "suite_Overall s = StatusWarn \<longleftrightarrow> has_status StatusWarn s \<and> \<not> has_status StatusFail s \<and> \<not> has_status StatusSkip s"
  unfolding suite_Overall_Max has_status_mem by (subst Max_eq_iff) (auto simp: status_le image_iff, (metis check_status.exhaust)+)

lemma verdict_fold:
  "foldl (\<lambda>(hasFail, hasWarn) s. case suite_Overall s of StatusFail \<Rightarrow> (True, hasWarn) | StatusWarn \<Rightarrow> (hasFail, True) | _ \<Rightarrow> (hasFail, hasWarn)) (f, w) ss =
   (f \<or> (\<exists>s \<in> set ss. suite_Overall s = StatusFail), w \<or> (\<exists>s \<in> set ss. suite_Overall s = StatusWarn))"
  by (induction ss arbitrary: f w) (auto split: check_status.splits)

text \<open>C20: a report is unhealthy exactly when some suite has a failed check and no skipped one, and otherwise
  degraded exactly when some suite has a warning and neither a failed nor a skipped check: a skipped
  check hides every failure of its suite.\<close>

theorem report_verdict:
  "rp_Overall (ComputeOverall r) =
     (if \<exists>s \<in> set (rp_Suites r). has_status StatusFail s \<and> \<not> has_status StatusSkip s then ''unhealthy''
      else if \<exists>s \<in> set (rp_Suites r). has_status StatusWarn s \<and> \<not> has_status StatusFail s \<and> \<not> has_status StatusSkip s then ''degraded''
      else ''healthy'')"
  unfolding ComputeOverall_def verdict_fold suite_Overall_fail suite_Overall_warn by simp

text \<open>a status is read back from its name.\<close>

theorem status_read_back: "status_parse (status_String st) = Some st"
  by (cases st) (simp_all add: status_parse_def)

section \<open>Reports as traces\<close>

definition check_trace :: "report \<Rightarrow> suite \<Rightarrow> health_check \<Rightarrow> time \<Rightarrow> execution_trace" where
  "check_trace r s c now =
     \<lparr>et_ID = ''doctor-'' @ su_Name s @ ''-'' @ ck_Name c @ ''-'' @ show_int (unix_nano now),
      et_TaskName = ''doctor/'' @ su_Name s @ ''/'' @ ck_Name c, et_AgentID = ''agent-doctor'', et_StartTime = rp_Timestamp r,
      et_EndTime = rp_Timestamp r + ck_Duration c, et_LatencyMs = f_of_int (go_div (ck_Duration c) millisecond),
      et_Success = (ck_Status c = StatusPass), et_ErrorMsg = (if ck_Status c = StatusPass then [] else ck_Message c),
      et_ToolsCalled = [], et_PromptTokens = 0, et_CompTokens = 0, et_CostUSD = flit 0, et_ModelTier = [],
      et_Tags = [TraceSourceDoctor, su_Name s],
      et_Metadata = [(''suite'', su_Name s), (''check'', ck_Name c), (''status'', status_String (ck_Status c)), (''overall'', rp_Overall r),
        (''platform'', rp_Platform r)]\<rparr>"

primrec record_checks :: "report \<Rightarrow> (nat \<Rightarrow> time) \<Rightarrow> (suite \<times> health_check) list \<Rightarrow> trace_bridge \<Rightarrow> string option \<times> trace_bridge" where
  "record_checks r clock [] b = (None, b)"
| "record_checks r clock (sc # rest) b =
     (case bridge_record TraceSourceDoctor (check_trace r (fst sc) (snd sc) (clock (length rest))) b of
        (Some e, b) \<Rightarrow> (Some (''record doctor trace '' @ su_Name (fst sc) @ ''/'' @ ck_Name (snd sc) @ '': '' @ e), b)
      | (None, b) \<Rightarrow> record_checks r clock rest b)"

text \<open>\<open>clock n\<close> is the time read when \<open>n\<close> checks are left.\<close>

definition RecordDoctorReport :: "(nat \<Rightarrow> time) \<Rightarrow> report option \<Rightarrow> trace_bridge \<Rightarrow> string option \<times> trace_bridge" where
  "RecordDoctorReport clock r b =
     (case r of None \<Rightarrow> (None, b)
      | Some r \<Rightarrow> record_checks r clock (concat (map (\<lambda>s. map (Pair s) (su_Checks s)) (rp_Suites r))) b)"

lemma record_checks_result:
  "\<exists>b' ts. record_checks r clock scs b = (None, b') \<and> co_traces (br_collector b') = co_traces (br_collector b) @ ts \<and>
    map et_Success ts = map (\<lambda>sc. ck_Status (snd sc) = StatusPass) scs \<and>
    map et_TaskName ts = map (\<lambda>sc. ''doctor/'' @ su_Name (fst sc) @ ''/'' @ ck_Name (snd sc)) scs \<and>
    mget_or 0 (br_counts b') TraceSourceDoctor = mget_or 0 (br_counts b) TraceSourceDoctor + int (length scs)"
proof (induction scs arbitrary: b)
  case (Cons sc scs)
  let ?t = "check_trace r (fst sc) (snd sc) (clock (length scs))"
  have t: "et_ID ?t \<noteq> []" "et_Success ?t = (ck_Status (snd sc) = StatusPass)"
    "et_TaskName ?t = ''doctor/'' @ su_Name (fst sc) @ ''/'' @ ck_Name (snd sc)" by (simp_all add: check_trace_def)
  obtain b1 t' where b1: "bridge_record TraceSourceDoctor ?t b = (None, b1)" "co_traces (br_collector b1) = co_traces (br_collector b) @ [t']"
    "et_Success t' = et_Success ?t" "et_TaskName t' = et_TaskName ?t" "br_counts b1 = mincr (br_counts b) TraceSourceDoctor"
    using t(1) by (simp add: bridge_record_def record_trace_def Let_def)
  from Cons.IH [of b1] obtain b' ts where "record_checks r clock scs b1 = (None, b')" "co_traces (br_collector b') = co_traces (br_collector b1) @ ts"
    "map et_Success ts = map (\<lambda>sc. ck_Status (snd sc) = StatusPass) scs"
    "map et_TaskName ts = map (\<lambda>sc. ''doctor/'' @ su_Name (fst sc) @ ''/'' @ ck_Name (snd sc)) scs"
    "mget_or 0 (br_counts b') TraceSourceDoctor = mget_or 0 (br_counts b1) TraceSourceDoctor + int (length scs)" by blast
  with b1 t show ?case by (intro exI [of _ b'] exI [of _ "t' # ts"]) simp
qed auto

lemma TotalChecks_concat: "TotalChecks r = length (concat (map (\<lambda>s. map (Pair s) (su_Checks s)) (rp_Suites r)))"
proof -
  have "foldl (\<lambda>n s. n + length (su_Checks s)) k ss = k + length (concat (map (\<lambda>s. map (Pair s) (su_Checks s)) ss))" for k ss
    by (induction ss arbitrary: k) simp_all
  from this [of 0 "rp_Suites r"] show ?thesis by (simp only: TotalChecks_def add_0)
qed

text \<open>a report is recorded without an error as one trace per check, in order, successful exactly for the checks
  that passed, and the bridge counts them all.\<close>

theorem doctor_report_traced:
  "\<exists>b' ts. RecordDoctorReport clock (Some r) b = (None, b') \<and> co_traces (br_collector b') = co_traces (br_collector b) @ ts \<and>
     length ts = TotalChecks r \<and> map et_Success ts = concat (map (\<lambda>s. map (\<lambda>c. ck_Status c = StatusPass) (su_Checks s)) (rp_Suites r)) \<and>
     mget_or 0 (br_counts b') TraceSourceDoctor = mget_or 0 (br_counts b) TraceSourceDoctor + int (TotalChecks r)"
proof -
  let ?scs = "concat (map (\<lambda>s. map (Pair s) (su_Checks s)) (rp_Suites r))"
  from record_checks_result [of r clock ?scs b] obtain b' ts where f: "record_checks r clock ?scs b = (None, b')"
    "co_traces (br_collector b') = co_traces (br_collector b) @ ts" "map et_Success ts = map (\<lambda>sc. ck_Status (snd sc) = StatusPass) ?scs"
    "mget_or 0 (br_counts b') TraceSourceDoctor = mget_or 0 (br_counts b) TraceSourceDoctor + int (length ?scs)" by blast
  from arg_cong [OF f(3), of length] have "length ts = length ?scs" by simp
  with f show ?thesis unfolding TotalChecks_concat RecordDoctorReport_def
    by (intro exI [of _ b'] exI [of _ ts]) (simp add: map_concat o_def)
qed

end
