(* ===== verification/Workflow_Evaluator.thy ===== *)
theory Workflow_Evaluator
  imports Workflow_Graph Float_Near
begin

text \<open>
  \<open>pkg/evolver/workflow_evaluator.go\<close>: the rubric that scores a workflow graph by its run metrics and its
  size. The language model's note and the clock are parameters over a world \<open>'w\<close>; explanations are kept
  as the values they show. The evaluator is described to its clients, the optimizers, by two locales:
  its score is a function of the graph, and a function of no more than the metrics and the two sizes.
\<close>

section \<open>Data\<close>

record workflow_criterion =
  wr_Name :: string
  wr_Description :: string
  wr_Weight :: f64
  wr_MaxScore :: f64

record workflow_eval_config =
  wv_PassThreshold :: f64
  wv_Rubric :: "workflow_criterion list"
  wv_MaxConcurrent :: int
  wv_Timeout :: duration

definition DefaultWorkflowEvalConfig :: workflow_eval_config where
  "DefaultWorkflowEvalConfig = \<lparr>wv_PassThreshold = flit (6 / 10), wv_Rubric =
     [\<lparr>wr_Name = ''task_completion'', wr_Description = ''Did the workflow complete its task?'', wr_Weight = flit (3 / 10), wr_MaxScore = flit 10\<rparr>,
      \<lparr>wr_Name = ''latency'', wr_Description = ''Was the workflow fast enough?'', wr_Weight = flit (2 / 10), wr_MaxScore = flit 10\<rparr>,
      \<lparr>wr_Name = ''cost_efficiency'', wr_Description = ''Model tier usage optimality'', wr_Weight = flit (2 / 10), wr_MaxScore = flit 10\<rparr>,
      \<lparr>wr_Name = ''error_rate'', wr_Description = ''Node-level error frequency'', wr_Weight = flit (15 / 100), wr_MaxScore = flit 10\<rparr>,
      \<lparr>wr_Name = ''graph_simplicity'', wr_Description = ''Fewer nodes/edges for same output = better'', wr_Weight = flit (15 / 100),
       wr_MaxScore = flit 10\<rparr>],
     wv_MaxConcurrent = 4, wv_Timeout = 30 * second\<rparr>"

datatype explanation =
    ShowSuccessRate f64
  | ShowLatency f64
  | ShowCost f64
  | ShowErrorRate f64
  | ShowSize nat nat
  | ShowDefault

record criterion_score =
  ws_Name :: string
  ws_Score :: f64
  ws_MaxScore :: f64
  ws_Explanation :: explanation

record workflow_eval_result =
  we_GraphID :: string
  we_GraphVersion :: int
  we_OverallScore :: f64
  we_Pass :: bool
  we_CriterionScores :: "criterion_score list"
  we_Duration :: duration
  we_EvaluatedAt :: time
  we_Notes :: string

datatype recommendation = ConsiderPromoting f64 | KeepBaseline f64 | PreferBaseline

record workflow_compare_result =
  cm_BaselineScore :: f64
  cm_CandidateScore :: f64
  cm_Improvement :: f64
  cm_Winner :: string
  cm_Recommendation :: recommendation

record eval_metrics =
  vm_successRate :: f64
  vm_avgLatencyMs :: f64
  vm_avgCost :: f64
  vm_errorRate :: f64
  vm_nodeCount :: nat
  vm_edgeCount :: nat

section \<open>Scoring\<close>

definition wf_scoreCriterion :: "workflow_criterion \<Rightarrow> eval_metrics \<Rightarrow> f64 \<times> explanation" where
  "wf_scoreCriterion c m =
     (let full = wr_MaxScore c in
      if wr_Name c = ''task_completion'' then (fmul (vm_successRate m) full, ShowSuccessRate (vm_successRate m))
      else if wr_Name c = ''latency'' then
        (if fle (vm_avgLatencyMs m) (flit 500) then fmul full (flit (95 / 100))
         else if fle (vm_avgLatencyMs m) (flit 2000) then fmul full (flit (7 / 10))
         else if fle (vm_avgLatencyMs m) (flit 5000) then fmul full (flit (4 / 10))
         else fmul full (flit (5 / 10)), ShowLatency (vm_avgLatencyMs m))
      else if wr_Name c = ''cost_efficiency'' then
        (if fle (vm_avgCost m) (flit (1 / 100)) then fmul full (flit (95 / 100))
         else if fle (vm_avgCost m) (flit (5 / 100)) then fmul full (flit (75 / 100))
         else if fle (vm_avgCost m) (flit (1 / 10)) then fmul full (flit (5 / 10))
         else fmul full (flit (2 / 10)), ShowCost (vm_avgCost m))
      else if wr_Name c = ''error_rate'' then (fmul (fsub (flit 1) (vm_errorRate m)) full, ShowErrorRate (vm_errorRate m))
      else if wr_Name c = ''graph_simplicity'' then
        (let total = vm_nodeCount m + vm_edgeCount m in
         if total \<le> 5 then fmul full (flit (95 / 100))
         else if total \<le> 10 then fmul full (flit (8 / 10))
         else if total \<le> 20 then fmul full (flit (6 / 10))
         else if total \<le> 50 then fmul full (flit (4 / 10))
         else fmul full (flit (5 / 10)), ShowSize (vm_nodeCount m) (vm_edgeCount m))
      else (fmul full (flit (5 / 10)), ShowDefault))"

definition eval_metrics_of :: "workflow_graph \<Rightarrow> eval_metrics" where
  "eval_metrics_of g =
     (let m = wg_Metrics g in
      \<lparr>vm_successRate = (if 0 < TotalRuns m then fdiv (f_of_int (SuccessRuns m)) (f_of_int (TotalRuns m)) else flit 0),
       vm_avgLatencyMs = AvgLatencyMs m, vm_avgCost = AvgCost m,
       vm_errorRate = (if 0 < TotalRuns m then fdiv (f_of_int (FailedRuns m)) (f_of_int (TotalRuns m)) else flit 0),
       vm_nodeCount = length (wg_Nodes g), vm_edgeCount = length (wg_Edges g)\<rparr>)"

definition criterion_scores :: "workflow_criterion list \<Rightarrow> eval_metrics \<Rightarrow> criterion_score list" where
  "criterion_scores rubric m =
     map (\<lambda>c. case wf_scoreCriterion c m of (s, x) \<Rightarrow> \<lparr>ws_Name = wr_Name c, ws_Score = s, ws_MaxScore = wr_MaxScore c, ws_Explanation = x\<rparr>) rubric"

definition weigh :: "f64 \<times> f64 \<Rightarrow> workflow_criterion \<times> criterion_score \<Rightarrow> f64 \<times> f64" where
  "weigh = (\<lambda>(weightedSum, totalWeight) (c, s).
     (fadd weightedSum (fmul (ws_Score s) (wr_Weight c)), fadd totalWeight (fmul (wr_MaxScore c) (wr_Weight c))))"

definition overall_score :: "workflow_criterion list \<Rightarrow> criterion_score list \<Rightarrow> f64" where
  "overall_score rubric scores =
     (case foldl weigh (flit 0, flit 0) (zip rubric scores) of
        (weightedSum, totalWeight) \<Rightarrow>
          if flt (flit 0) totalWeight then fmul (fdiv weightedSum totalWeight) (flit 10) else flit 0)"

section \<open>The evaluator\<close>

datatype note_prompt = NotePrompt string int eval_metrics "criterion_score list"

type_synonym 'w note_llm = "note_prompt \<Rightarrow> time option \<Rightarrow> 'w \<Rightarrow> (string + string) \<times> 'w"

record 'w rubric_evaluator =
  re_cfg :: workflow_eval_config
  re_llm :: "'w note_llm option"
  re_history :: "workflow_eval_result list"

definition NewWorkflowEvaluator :: "workflow_eval_config \<Rightarrow> 'w note_llm option \<Rightarrow> 'w rubric_evaluator" where
  "NewWorkflowEvaluator cfg llm =
     (let cfg = (if fle (wv_PassThreshold cfg) (flit 0) then cfg\<lparr>wv_PassThreshold := flit (6 / 10)\<rparr> else cfg);
          cfg = (if wv_Timeout cfg \<le> 0 then cfg\<lparr>wv_Timeout := 30 * second\<rparr> else cfg);
          cfg = (if wv_Rubric cfg = [] then DefaultWorkflowEvalConfig else cfg)
      in \<lparr>re_cfg = cfg, re_llm = llm, re_history = []\<rparr>)"

text \<open>The deadline of the context \<open>ctx\<close>, and the earlier of two.\<close>

definition with_timeout :: "time option \<Rightarrow> time \<Rightarrow> time option" where
  "with_timeout ctx t = Some (case ctx of None \<Rightarrow> t | Some u \<Rightarrow> min u t)"

definition wf_llmJudge :: "'w note_llm \<Rightarrow> time option \<Rightarrow> workflow_graph \<Rightarrow> eval_metrics \<Rightarrow> criterion_score list \<Rightarrow> 'w \<Rightarrow> string \<times> 'w" where
  "wf_llmJudge llm ctx g m scores w =
     (case llm (NotePrompt (wg_ID g) (wg_Version g) m scores) ctx w of
        (Inl _, w) \<Rightarrow> ([], w)
      | (Inr resp, w) \<Rightarrow> (resp, w))"

definition EvaluateFull :: "('w \<Rightarrow> time) \<Rightarrow> time option \<Rightarrow> workflow_graph option \<Rightarrow> 'w rubric_evaluator \<Rightarrow> 'w \<Rightarrow>
    (string + workflow_eval_result) \<times> 'w rubric_evaluator \<times> 'w" where
  "EvaluateFull clock ctx graph e w =
     (case graph of None \<Rightarrow> (Inl ''workflow evaluator: graph is nil'', e, w)
      | Some g \<Rightarrow>
          let m = eval_metrics_of g;
              start = clock w;
              rubric = wv_Rubric (re_cfg e);
              scores = criterion_scores rubric m;
              overall = overall_score rubric scores;
              (notes, w) = (case re_llm e of
                  Some llm \<Rightarrow> if 0 < wv_Timeout (re_cfg e) then wf_llmJudge llm (with_timeout ctx (start + wv_Timeout (re_cfg e))) g m scores w else ([], w)
                | None \<Rightarrow> ([], w));
              res = \<lparr>we_GraphID = wg_ID g, we_GraphVersion = wg_Version g, we_OverallScore = overall,
                we_Pass = fle (fmul (wv_PassThreshold (re_cfg e)) (flit 10)) overall, we_CriterionScores = scores,
                we_Duration = time_sub (clock w) start, we_EvaluatedAt = start, we_Notes = notes\<rparr>
          in (Inr res, e\<lparr>re_history := re_history e @ [res]\<rparr>, w))"

definition rubric_evaluate :: "('w \<Rightarrow> time) \<Rightarrow> time option \<Rightarrow> workflow_graph \<Rightarrow> 'w rubric_evaluator \<Rightarrow> 'w \<Rightarrow>
    (string + f64) \<times> 'w rubric_evaluator \<times> 'w" where
  "rubric_evaluate clock ctx g e w =
     (case EvaluateFull clock ctx (Some g) e w of
        (Inl err, e, w) \<Rightarrow> (Inl err, e, w)
      | (Inr res, e, w) \<Rightarrow> (Inr (we_OverallScore res), e, w))"

definition CompareGraphs :: "('w \<Rightarrow> time) \<Rightarrow> time option \<Rightarrow> workflow_graph option \<Rightarrow> workflow_graph option \<Rightarrow> 'w rubric_evaluator \<Rightarrow> 'w \<Rightarrow>
    (string + workflow_compare_result) \<times> 'w rubric_evaluator \<times> 'w" where
  "CompareGraphs clock ctx baseline candidate e w =
     (if baseline = None \<or> candidate = None then (Inl ''workflow evaluator: baseline and candidate must be non-nil'', e, w)
      else case EvaluateFull clock ctx baseline e w of
        (Inl err, e, w) \<Rightarrow> (Inl (''evaluate baseline: '' @ err), e, w)
      | (Inr baseRes, e, w) \<Rightarrow>
          (case EvaluateFull clock ctx candidate e w of
             (Inl err, e, w) \<Rightarrow> (Inl (''evaluate candidate: '' @ err), e, w)
           | (Inr candRes, e, w) \<Rightarrow>
               let b = we_OverallScore baseRes; c = we_OverallScore candRes;
                   improvement = (if flt (flit 0) b then fmul (fdiv (fsub c b) b) (flit 100) else flit 0);
                   (winner, advice) =
                     (if flt b c then (''candidate'', ConsiderPromoting improvement)
                      else if flt c b then (''baseline'', KeepBaseline (fneg improvement))
                      else (''baseline'', PreferBaseline))
               in (Inr \<lparr>cm_BaselineScore = b, cm_CandidateScore = c, cm_Improvement = improvement, cm_Winner = winner,
                    cm_Recommendation = advice\<rparr>, e, w)))"

section \<open>The contract with the optimizers\<close>

locale deterministic_evaluator =
  fixes eval :: "workflow_graph \<Rightarrow> 'e \<Rightarrow> 'w \<Rightarrow> (string + f64) \<times> 'e \<times> 'w"
    and score :: "'e \<Rightarrow> workflow_graph \<Rightarrow> string + f64"
  assumes eval_score: "eval g e w = (r, e', w') \<Longrightarrow> r = score e g \<and> score e' = score e"

definition same_shape :: "workflow_graph \<Rightarrow> workflow_graph \<Rightarrow> bool" where
  "same_shape g h \<longleftrightarrow> wg_Metrics g = wg_Metrics h \<and> length (wg_Nodes g) = length (wg_Nodes h) \<and> length (wg_Edges g) = length (wg_Edges h)"

locale shape_evaluator = deterministic_evaluator eval score
  for eval :: "workflow_graph \<Rightarrow> 'e \<Rightarrow> 'w \<Rightarrow> (string + f64) \<times> 'e \<times> 'w" and score :: "'e \<Rightarrow> workflow_graph \<Rightarrow> string + f64" +
  assumes score_shape: "same_shape g h \<Longrightarrow> score e g = score e h"

definition graph_score :: "'w rubric_evaluator \<Rightarrow> workflow_graph \<Rightarrow> string + f64" where
  "graph_score e g = Inr (overall_score (wv_Rubric (re_cfg e)) (criterion_scores (wv_Rubric (re_cfg e)) (eval_metrics_of g)))"

lemma EvaluateFull_result:
  "\<exists>res h w'. EvaluateFull clock ctx (Some g) e w = (Inr res, e\<lparr>re_history := h\<rparr>, w') \<and>
     we_OverallScore res = overall_score (wv_Rubric (re_cfg e)) (criterion_scores (wv_Rubric (re_cfg e)) (eval_metrics_of g)) \<and>
     we_Pass res = fle (fmul (wv_PassThreshold (re_cfg e)) (flit 10)) (we_OverallScore res)"
  by (auto simp: EvaluateFull_def Let_def split: prod.splits option.splits intro: prod.exhaust)

interpretation rubric: shape_evaluator "rubric_evaluate clock ctx" graph_score for clock ctx
proof
  fix g e w r e' w'
  assume "rubric_evaluate clock ctx g e w = (r, e', w')"
  with EvaluateFull_result [of clock ctx g e w] show "r = graph_score e g \<and> graph_score e' = graph_score e"
    by (auto simp: rubric_evaluate_def graph_score_def fun_eq_iff)
next
  fix g h :: workflow_graph and e :: "'a rubric_evaluator"
  assume "same_shape g h"
  then have "eval_metrics_of g = eval_metrics_of h" by (simp add: eval_metrics_of_def same_shape_def)
  then show "graph_score e g = graph_score e h" by (simp add: graph_score_def)
qed

section \<open>The score in numbers\<close>

lemma foldl_weigh:
  "foldl weigh (a, b) (zip cs ss) = (foldl fadd a (map (\<lambda>(c, s). fmul (ws_Score s) (wr_Weight c)) (zip cs ss)),
     foldl fadd b (map (\<lambda>(c, s). fmul (wr_MaxScore c) (wr_Weight c)) (zip cs ss)))"
proof (induction "zip cs ss" arbitrary: cs ss a b)
  case (Cons p ps)
  then obtain c cs' s ss' where "cs = c # cs'" "ss = s # ss'" "p = (c, s)" "ps = zip cs' ss'" by (cases cs; cases ss) auto
  with Cons(1) [of cs' ss'] show ?case by (simp add: weigh_def)
qed auto

definition latency_points :: "f64 \<Rightarrow> rat" where
  "latency_points l = (if fle l (flit 500) then 19 / 10 else if fle l (flit 2000) then 14 / 10 else if fle l (flit 5000) then 8 / 10 else 1)"

definition cost_points :: "f64 \<Rightarrow> rat" where
  "cost_points c = (if fle c (flit (1 / 100)) then 19 / 10 else if fle c (flit (5 / 100)) then 15 / 10
     else if fle c (flit (1 / 10)) then 1 else 4 / 10)"

definition size_points :: "nat \<Rightarrow> rat" where
  "size_points n = (if n \<le> 5 then 57 / 40 else if n \<le> 10 then 12 / 10 else if n \<le> 20 then 9 / 10 else if n \<le> 50 then 6 / 10 else 3 / 4)"

definition rate :: "int \<Rightarrow> int \<Rightarrow> rat" where
  "rate n runs = (if 0 < runs then of_int n / of_int runs else 0)"

definition workflow_points :: "workflow_graph \<Rightarrow> rat" where
  "workflow_points g = (let m = wg_Metrics g in
     3 * rate (SuccessRuns m) (TotalRuns m) + latency_points (AvgLatencyMs m) + cost_points (AvgCost m) +
     3 / 2 * (1 - rate (FailedRuns m) (TotalRuns m)) + size_points (length (wg_Nodes g) + length (wg_Edges g)))"

definition counted_runs :: "workflow_metrics \<Rightarrow> bool" where
  "counted_runs m \<longleftrightarrow> 0 \<le> SuccessRuns m \<and> 0 \<le> FailedRuns m \<and> SuccessRuns m \<le> TotalRuns m \<and> FailedRuns m \<le> TotalRuns m \<and> TotalRuns m \<le> 2 ^ 53"

lemma rate_unit: "0 \<le> n \<Longrightarrow> n \<le> runs \<Longrightarrow> 0 \<le> rate n runs \<and> rate n runs \<le> 1"
  by (auto simp: rate_def divide_simps)

lemma rate_near:
  assumes "0 \<le> n" "n \<le> runs" "runs \<le> 2 ^ 53"
  shows "near ulp (if 0 < runs then fdiv (f_of_int n) (f_of_int runs) else flit 0) (rate n runs)"
proof (cases "0 < runs")
  case True
  have "f_of_int n = Fin (of_int n)" "f_of_int runs = Fin (of_int runs)" using assms by (intro f_of_int_exact; simp)+
  moreover have "near ulp (f64_of_rat (of_int n / of_int runs)) (of_int n / of_int runs)"
    using rate_unit [OF assms(1,2)] True by (intro near_lit_unit) (simp_all only: rate_def if_True)
  ultimately show ?thesis using True by (simp add: rate_def)
qed (simp add: rate_def zero_f)

lemma term_near:
  "near (1 / 2 ^ 34) s p \<Longrightarrow> 0 \<le> p \<Longrightarrow> p \<le> 10 \<Longrightarrow> 0 \<le> w \<Longrightarrow> w \<le> 1 \<Longrightarrow> near (1 / 2 ^ 32) (fmul s (flit w)) (p * w)"
  by (rule near_mono [OF near_mul [of "1 / 2 ^ 34" s p ulp "flit w" w 10 1]]) (simp_all add: near_lit_unit)

lemma full_share: "0 \<le> r \<Longrightarrow> r \<le> 1 \<Longrightarrow> near (1 / 2 ^ 34) (fmul (Fin 10) (flit r)) (10 * r)"
  by (rule near_mono [OF tenth]) simp_all

lemma share_full: "near e x r \<Longrightarrow> e \<le> 2 * ulp \<Longrightarrow> 0 \<le> r \<Longrightarrow> r \<le> 1 \<Longrightarrow> near (1 / 2 ^ 34) (fmul x (Fin 10)) (r * 10)"
  by (rule near_mono [OF near_mul [of e x r 0 "Fin 10" 10 1 10]]) simp_all

definition latency_score :: "f64 \<Rightarrow> f64" where
  "latency_score l = (if fle l (flit 500) then fmul (Fin 10) (flit (95 / 100)) else if fle l (flit 2000) then fmul (Fin 10) (flit (7 / 10))
     else if fle l (flit 5000) then fmul (Fin 10) (flit (4 / 10)) else fmul (Fin 10) (flit (5 / 10)))"

definition cost_score :: "f64 \<Rightarrow> f64" where
  "cost_score c = (if fle c (flit (1 / 100)) then fmul (Fin 10) (flit (95 / 100)) else if fle c (flit (5 / 100)) then fmul (Fin 10) (flit (75 / 100))
     else if fle c (flit (1 / 10)) then fmul (Fin 10) (flit (5 / 10)) else fmul (Fin 10) (flit (2 / 10)))"

definition size_score :: "nat \<Rightarrow> f64" where
  "size_score n = (if n \<le> 5 then fmul (Fin 10) (flit (95 / 100)) else if n \<le> 10 then fmul (Fin 10) (flit (8 / 10))
     else if n \<le> 20 then fmul (Fin 10) (flit (6 / 10)) else if n \<le> 50 then fmul (Fin 10) (flit (4 / 10)) else fmul (Fin 10) (flit (5 / 10)))"

lemma latency_near: "near (1 / 2 ^ 34) (latency_score l) (5 * latency_points l)"
  using full_share [of "95 / 100"] full_share [of "7 / 10"] full_share [of "4 / 10"] full_share [of "5 / 10"]
  by (simp add: latency_score_def latency_points_def)

lemma cost_near: "near (1 / 2 ^ 34) (cost_score c) (5 * cost_points c)"
  using full_share [of "95 / 100"] full_share [of "75 / 100"] full_share [of "5 / 10"] full_share [of "2 / 10"]
  by (simp add: cost_score_def cost_points_def)

lemma size_near: "near (1 / 2 ^ 34) (size_score n) (20 / 3 * size_points n)"
  using full_share [of "95 / 100"] full_share [of "8 / 10"] full_share [of "6 / 10"] full_share [of "4 / 10"] full_share [of "5 / 10"]
  by (simp add: size_score_def size_points_def)

lemma points_range:
  "0 \<le> latency_points l" "latency_points l \<le> 19 / 10" "0 \<le> cost_points c" "cost_points c \<le> 19 / 10" "0 \<le> size_points n" "size_points n \<le> 57 / 40"
  by (simp_all add: latency_points_def cost_points_def size_points_def)

lemma one_f: "flit 1 = Fin 1"
  using f_of_int_exact [of 1] by (simp add: f_of_int_def)

lemma criterion_defaults:
  "wr_Name c = ''task_completion'' \<Longrightarrow> fst (wf_scoreCriterion c m) = fmul (vm_successRate m) (wr_MaxScore c)"
  "wr_Name c = ''latency'' \<Longrightarrow> wr_MaxScore c = Fin 10 \<Longrightarrow> fst (wf_scoreCriterion c m) = latency_score (vm_avgLatencyMs m)"
  "wr_Name c = ''cost_efficiency'' \<Longrightarrow> wr_MaxScore c = Fin 10 \<Longrightarrow> fst (wf_scoreCriterion c m) = cost_score (vm_avgCost m)"
  "wr_Name c = ''error_rate'' \<Longrightarrow> fst (wf_scoreCriterion c m) = fmul (fsub (Fin 1) (vm_errorRate m)) (wr_MaxScore c)"
  "wr_Name c = ''graph_simplicity'' \<Longrightarrow> wr_MaxScore c = Fin 10 \<Longrightarrow> fst (wf_scoreCriterion c m) = size_score (vm_nodeCount m + vm_edgeCount m)"
  by (simp_all add: wf_scoreCriterion_def latency_score_def cost_score_def size_score_def Let_def ten one_f)

lemma points_sum_range:
  fixes s f l c z :: rat
  assumes "0 \<le> s" "s \<le> 1" "0 \<le> f" "f \<le> 1" "0 \<le> l" "l \<le> 19 / 10" "0 \<le> c" "c \<le> 19 / 10" "0 \<le> z" "z \<le> 57 / 40"
  shows "0 \<le> 3 * s + l + c + 3 / 2 * (1 - f) + z" "3 * s + l + c + 3 / 2 * (1 - f) + z \<le> 10"
  using assms by (simp_all add: field_simps)

text \<open>The default rubric's weighted scores and their largest values.\<close>

definition default_terms :: "workflow_metrics \<Rightarrow> nat \<Rightarrow> f64 list" where
  "default_terms m n = map2 (\<lambda>x w. fmul x (flit w))
     [fmul (if 0 < TotalRuns m then fdiv (f_of_int (SuccessRuns m)) (f_of_int (TotalRuns m)) else flit 0) (Fin 10), latency_score (AvgLatencyMs m),
      cost_score (AvgCost m), fmul (fsub (Fin 1) (if 0 < TotalRuns m then fdiv (f_of_int (FailedRuns m)) (f_of_int (TotalRuns m)) else flit 0)) (Fin 10),
      size_score n] [3 / 10, 2 / 10, 2 / 10, 15 / 100, 15 / 100]"

definition default_full :: "f64 list" where
  "default_full = map (\<lambda>w. fmul (Fin 10) (flit w)) [3 / 10, 2 / 10, 2 / 10, 15 / 100, 15 / 100]"

lemma full_near: "near (5 / 2 ^ 31) (foldl fadd (Fin 0) default_full) 10"
proof -
  have "list_all2 (near (1 / 2 ^ 32)) default_full [3, 2, 2, 15 / 10, 15 / 10]"
    using full_share [of "3 / 10"] full_share [of "2 / 10"] full_share [of "15 / 100"] by (auto simp: default_full_def elim: near_mono)
  from near_sum [OF this] show ?thesis by (simp add: default_full_def)
qed

lemma graph_score_default:
  assumes "wv_Rubric (re_cfg e) = wv_Rubric DefaultWorkflowEvalConfig"
  shows "graph_score e g = Inr (fmul (fdiv (foldl fadd (Fin 0) (default_terms (wg_Metrics g) (length (wg_Nodes g) + length (wg_Edges g))))
    (foldl fadd (Fin 0) default_full)) (Fin 10))"
proof -
  have "graph_score e g = Inr (if flt (Fin 0) (foldl fadd (Fin 0) default_full) then
      fmul (fdiv (foldl fadd (Fin 0) (default_terms (wg_Metrics g) (length (wg_Nodes g) + length (wg_Edges g))))
        (foldl fadd (Fin 0) default_full)) (Fin 10) else Fin 0)"
    unfolding graph_score_def assms criterion_scores_def overall_score_def foldl_weigh default_terms_def default_full_def
    by (simp add: DefaultWorkflowEvalConfig_def criterion_defaults case_prod_beta eval_metrics_of_def Let_def ten zero_f
        cong: if_cong split del: if_split)
  moreover have "flt (Fin 0) (foldl fadd (Fin 0) default_full)" by (rule near_flt [of 0 _ 0, OF _ full_near]) simp_all
  ultimately show ?thesis by simp
qed

lemma workflow_score_near:
  assumes "counted_runs (wg_Metrics g)" "wv_Rubric (re_cfg e) = wv_Rubric DefaultWorkflowEvalConfig"
  shows "\<exists>x. graph_score e g = Inr x \<and> near (1 / 2 ^ 20) x (workflow_points g)"
proof -
  define m where "m = wg_Metrics g"
  define s f where "s = rate (SuccessRuns m) (TotalRuns m)" "f = rate (FailedRuns m) (TotalRuns m)"
  define xs xf where "xs = (if 0 < TotalRuns m then fdiv (f_of_int (SuccessRuns m)) (f_of_int (TotalRuns m)) else flit 0)"
    "xf = (if 0 < TotalRuns m then fdiv (f_of_int (FailedRuns m)) (f_of_int (TotalRuns m)) else flit 0)"
  have c: "0 \<le> SuccessRuns m" "0 \<le> FailedRuns m" "SuccessRuns m \<le> TotalRuns m" "FailedRuns m \<le> TotalRuns m" "TotalRuns m \<le> 2 ^ 53"
    using assms(1) by (simp_all add: counted_runs_def m_def)
  have unit: "0 \<le> s" "s \<le> 1" "0 \<le> f" "f \<le> 1" "near ulp xs s" "near ulp xf f"
    unfolding s_f_def xs_xf_def using rate_unit [OF c(1,3)] rate_unit [OF c(2,4)] rate_near [OF c(1,3,5)] rate_near [OF c(2,4,5)] by blast+
  have "near (0 + ulp + ulp) (fadd (Fin 1) (fneg xf)) (1 + - f)"
    by (rule near_add) (use unit in \<open>auto simp: near_def abs_minus_commute\<close>)
  then have one_f: "near (2 * ulp) (fsub (Fin 1) xf) (1 - f)" by (simp add: fsub_def)
  let ?L = "latency_points (AvgLatencyMs m)" and ?C = "cost_points (AvgCost m)" and ?n = "length (wg_Nodes g) + length (wg_Edges g)"
  let ?terms = "default_terms m ?n"
  have pr: "0 \<le> ?L" "?L \<le> 19 / 10" "0 \<le> ?C" "?C \<le> 19 / 10" "0 \<le> size_points ?n" "size_points ?n \<le> 57 / 40"
    using points_range by blast+
  define vals where "vals = [s * 10 * (3 / 10), 5 * ?L * (2 / 10), 5 * ?C * (2 / 10), (1 - f) * 10 * (15 / 100),
      20 / 3 * size_points ?n * (15 / 100)]"
  have near_terms: "list_all2 (near (1 / 2 ^ 32)) ?terms vals"
    unfolding default_terms_def vals_def xs_xf_def [symmetric] using unit pr
    by (simp only: list.map zip_Cons_Cons zip_Nil split list_all2_Cons list_all2_Nil, intro conjI TrueI term_near share_full [OF unit(5)]
        share_full [OF one_f] latency_near cost_near size_near) simp_all
  have wp: "workflow_points g = 3 * s + ?L + ?C + 3 / 2 * (1 - f) + size_points ?n"
    by (simp add: workflow_points_def m_def s_f_def Let_def)
  have vals: "sum_list vals = workflow_points g" by (simp add: vals_def workflow_points_def m_def s_f_def Let_def)
  have Q: "0 \<le> workflow_points g" "workflow_points g \<le> 10"
    unfolding wp by (intro points_sum_range unit(1-4) pr)+
  have "\<forall>a \<in> set vals. 0 \<le> a" using unit pr by (simp add: vals_def)
  then have sum: "near (5 / 2 ^ 31) (foldl fadd (Fin 0) ?terms) (workflow_points g)"
    using near_sum [OF near_terms] Q vals by (simp add: default_terms_def)
  have "near (1 / 2 ^ 24) (fdiv (foldl fadd (Fin 0) ?terms) (foldl fadd (Fin 0) default_full)) (workflow_points g / 10)"
    by (rule near_mono [OF near_div [OF sum full_near, of 10]]) (use Q in simp_all)
  then have "near (1 / 2 ^ 20) (fmul (fdiv (foldl fadd (Fin 0) ?terms) (foldl fadd (Fin 0) default_full)) (Fin 10)) (workflow_points g / 10 * 10)"
    by (intro near_mono [OF near_mul [of "1 / 2 ^ 24" _ _ 0 "Fin 10" 10 1 10]]) (use Q in simp_all)
  then show ?thesis by (simp add: graph_score_default [OF assms(2)] m_def)
qed

lemma size_classes: "k \<le> n \<Longrightarrow> n \<le> 50 \<Longrightarrow> size_score k = size_score n \<or> size_points n + 1 / 10 \<le> size_points k"
  by (cases "n \<le> 5"; cases "n \<le> 10"; cases "n \<le> 20"; cases "k \<le> 5"; cases "k \<le> 10"; cases "k \<le> 20"; simp add: size_score_def size_points_def)

text \<open>Up to fifty parts, a smaller workflow does not score lower.\<close>

lemma smaller_not_worse:
  assumes "counted_runs (wg_Metrics g)" "wv_Rubric (re_cfg e) = wv_Rubric DefaultWorkflowEvalConfig" "wg_Metrics h = wg_Metrics g"
    "length (wg_Nodes h) + length (wg_Edges h) \<le> length (wg_Nodes g) + length (wg_Edges g)" "length (wg_Nodes g) + length (wg_Edges g) \<le> 50"
    "graph_score e g = Inr x" "graph_score e h = Inr y"
  shows "fle x y"
proof -
  let ?n = "length (wg_Nodes g) + length (wg_Edges g)" and ?k = "length (wg_Nodes h) + length (wg_Edges h)"
  have h: "counted_runs (wg_Metrics h)" using assms(1,3) by simp
  from workflow_score_near [OF assms(1,2)] workflow_score_near [OF h assms(2)] assms(6,7)
  have near: "near (1 / 2 ^ 20) x (workflow_points g)" "near (1 / 2 ^ 20) y (workflow_points h)" by simp_all
  consider "size_score ?k = size_score ?n" | "size_points ?n + 1 / 10 \<le> size_points ?k"
    using size_classes [OF assms(4,5)] by blast
  then show ?thesis
  proof cases
    case 1
    then have "x = y" using assms(3,6,7) by (simp add: graph_score_default [OF assms(2)] default_terms_def)
    with near show ?thesis by (auto simp: near_def)
  next
    case 2
    then have "workflow_points g + 1 / 10 \<le> workflow_points h" using assms(3) by (simp add: workflow_points_def Let_def)
    then show ?thesis by (intro near_fle [OF near]) simp
  qed
qed

lemma rubric_evaluate_score: "fst (rubric_evaluate clock ctx g e w) = graph_score e g"
  by (rule prod_cases3 [of "rubric_evaluate clock ctx g e w"]) (auto dest: rubric.eval_score)

text \<open>C24: with the default rubric the score is, up to rounding, three points for the success rate, up to 1.9 each for
  the latency and the cost by their classes, one and a half for the share of runs that did not fail,
  and up to 1.425 for the size by its class.\<close>

theorem workflow_score:
  assumes "counted_runs (wg_Metrics g)" "wv_Rubric (re_cfg e) = wv_Rubric DefaultWorkflowEvalConfig"
    "fst (rubric_evaluate clock ctx g e w) = Inr x"
  shows "near (1 / 2 ^ 20) x (workflow_points g)"
  using workflow_score_near [OF assms(1,2)] assms(3) by (simp add: rubric_evaluate_score)

definition sample_graph :: workflow_graph where
  "sample_graph = NewWorkflowGraph 0 ''g'' ''sample''"

lemma sample_counted: "counted_runs (wg_Metrics sample_graph)"
  by (simp add: counted_runs_def sample_graph_def NewWorkflowGraph_def)

lemma sample_rubric: "wv_Rubric (re_cfg (NewWorkflowEvaluator DefaultWorkflowEvalConfig None)) = wv_Rubric DefaultWorkflowEvalConfig"
  by (simp add: NewWorkflowEvaluator_def DefaultWorkflowEvalConfig_def Let_def)

lemma workflow_score_witness:
  "\<exists>x. fst (rubric_evaluate (\<lambda>_. 0) None sample_graph (NewWorkflowEvaluator DefaultWorkflowEvalConfig None) ()) = Inr x \<and>
     near (1 / 2 ^ 20) x (workflow_points sample_graph)"
  using workflow_score [OF sample_counted sample_rubric] by (auto simp: rubric_evaluate_score graph_score_def)

text \<open>a workflow that takes longer than five seconds scores higher than one that is otherwise the same and takes
  between two and five.\<close>

theorem worse_scores_higher:
  assumes "counted_runs (wg_Metrics g)" "wv_Rubric (re_cfg e) = wv_Rubric DefaultWorkflowEvalConfig"
    "\<not> fle (AvgLatencyMs (wg_Metrics g)) (flit 2000)" "fle (AvgLatencyMs (wg_Metrics g)) (flit 5000)" "\<not> fle slow (flit 5000)"
    "fst (rubric_evaluate clock ctx g e w) = Inr x"
    "fst (rubric_evaluate clock ctx (g\<lparr>wg_Metrics := (wg_Metrics g)\<lparr>AvgLatencyMs := slow\<rparr>\<rparr>) e w) = Inr y"
  shows "flt x y"
proof -
  let ?h = "g\<lparr>wg_Metrics := (wg_Metrics g)\<lparr>AvgLatencyMs := slow\<rparr>\<rparr>"
  have h: "counted_runs (wg_Metrics ?h)" using assms(1) by (simp add: counted_runs_def)
  have order: "fle v (flit 500) \<Longrightarrow> fle v (flit 2000)" "fle v (flit 2000) \<Longrightarrow> fle v (flit 5000)" for v
    using f_of_int_exact [of 500] f_of_int_exact [of 2000] f_of_int_exact [of 5000] by (cases v; simp add: f_of_int_def)+
  have "latency_points (AvgLatencyMs (wg_Metrics g)) = 8 / 10" "latency_points slow = 1"
    using assms(3-5) order by (auto simp: latency_points_def)
  then have p: "workflow_points ?h = workflow_points g + 2 / 10" by (simp add: workflow_points_def Let_def)
  have "near (1 / 2 ^ 20) x (workflow_points g)" "near (1 / 2 ^ 20) y (workflow_points ?h)"
    using workflow_score_near [OF assms(1,2)] workflow_score_near [OF h assms(2)] assms(6,7) by (simp_all add: rubric_evaluate_score)
  from near_flt [OF this] p show ?thesis by simp
qed

end
