(* ===== verification/Workflow_Optimizer.thy ===== *)
theory Workflow_Optimizer
  imports Workflow_Evaluator Evolver_Types
begin

text \<open>
  \<open>pkg/evolver/optimization.go\<close> and \<open>pkg/evolver/textgrad.go\<close>: three searches for a better workflow graph,
  by random edits of its nodes, by edits of one prompt and by pruning. The evaluator is a function
  over its own state \<open>'e\<close> and a world \<open>'w\<close>; the clock, the random draws, the order of Go's maps and
  whether the context is done are read from the world.
\<close>

section \<open>The search loop\<close>

datatype mutation_type = MutatePrompt | MutateModelTier | MutateRouting | AddNode | RemoveNode | SwapTool

record workflow_mutation =
  wm_ID :: string
  wm_GraphID :: string
  wm_Type :: mutation_type
  wm_NodeID :: string
  wm_Before :: "string option"
  wm_After :: "string option"
  wm_Reason :: string
  wm_CreatedAt :: time

datatype optimization_strategy = StrategyHillClimb | StrategyRandomSearch | StrategyBandit

record optimization_config =
  oc_Strategy :: optimization_strategy
  oc_MaxIterations :: int
  oc_ImprovementThreshold :: f64
  oc_ExplorationRate :: f64
  oc_MutationsPerIteration :: int
  oc_Timeout :: duration

definition DefaultOptimizationConfig :: optimization_config where
  "DefaultOptimizationConfig = \<lparr>oc_Strategy = StrategyHillClimb, oc_MaxIterations = 10, oc_ImprovementThreshold = flit (5 / 100),
     oc_ExplorationRate = flit (1 / 10), oc_MutationsPerIteration = 3, oc_Timeout = 5 * minute\<rparr>"

record optimization_result =
  or_BestGraph :: workflow_graph
  or_BestScore :: f64
  or_Iterations :: int
  or_TotalMutations :: int
  or_ImprovementHistory :: "f64 list"
  or_Duration :: duration
  or_Converged :: bool

text \<open>The draws \<open>rand.IntN\<close> and \<open>rand.Float64\<close>, the clock, the order of a map's keys, and \<open>ctx.Err\<close> for the deadline.\<close>

record 'w search_env =
  se_clock :: "'w \<Rightarrow> time"
  se_intn :: "nat \<Rightarrow> 'w \<Rightarrow> nat \<times> 'w"
  se_float :: "'w \<Rightarrow> f64 \<times> 'w"
  se_order :: "'w \<Rightarrow> string list \<Rightarrow> string list"
  se_done :: "time option \<Rightarrow> 'w \<Rightarrow> string option"

type_synonym ('e, 'w) evaluator = "workflow_graph \<Rightarrow> 'e \<Rightarrow> 'w \<Rightarrow> (string + f64) \<times> 'e \<times> 'w"

definition pickMutation :: "'w search_env \<Rightarrow> workflow_graph \<Rightarrow> string \<Rightarrow> bool \<Rightarrow> 'w \<Rightarrow> workflow_mutation \<times> 'w" where
  "pickMutation env g nodeID explore w =
     (let types = [MutatePrompt, MutateModelTier, SwapTool];
          (idx, w) = se_intn env (length types) w;
          (idx, w) = (if explore then se_intn env (length types) w else (idx, w));
          now = se_clock env w
      in (\<lparr>wm_ID = ''opt-mut-'' @ show_int (unix_nano now), wm_GraphID = wg_ID g, wm_Type = types ! idx, wm_NodeID = nodeID,
           wm_Before = None, wm_After = None, wm_Reason = ''optimization loop'', wm_CreatedAt = now\<rparr>, w))"

primrec pick_mutations :: "'w search_env \<Rightarrow> workflow_graph \<Rightarrow> string list \<Rightarrow> bool \<Rightarrow> nat \<Rightarrow> 'w \<Rightarrow> workflow_mutation list \<times> 'w" where
  "pick_mutations env g nodeIDs explore 0 w = ([], w)"
| "pick_mutations env g nodeIDs explore (Suc n) w =
     (let (i, w) = se_intn env (length nodeIDs) w;
          (mut, w) = pickMutation env g (nodeIDs ! i) explore w;
          (muts, w) = pick_mutations env g nodeIDs explore n w
      in (if wm_ID mut \<noteq> [] then mut # muts else muts, w))"

definition generateMutations :: "'w search_env \<Rightarrow> optimization_config \<Rightarrow> workflow_graph \<Rightarrow> 'w \<Rightarrow> workflow_mutation list \<times> 'w" where
  "generateMutations env cfg g w =
     (let nodeIDs = se_order env w (map fst (wg_Nodes g)) in
      if nodeIDs = [] then ([], w)
      else let n = (if oc_MutationsPerIteration cfg \<le> 0 then 1 else oc_MutationsPerIteration cfg);
               (explore, w) = (case oc_Strategy cfg of
                   StrategyRandomSearch \<Rightarrow> (True, w)
                 | StrategyBandit \<Rightarrow> (case se_float env w of (x, w) \<Rightarrow> (flt x (oc_ExplorationRate cfg), w))
                 | StrategyHillClimb \<Rightarrow> (False, w))
           in pick_mutations env g nodeIDs explore (nat n) w)"

definition applyMutation :: "'w search_env \<Rightarrow> workflow_mutation \<Rightarrow> workflow_graph \<Rightarrow> 'w \<Rightarrow> string option \<times> workflow_graph \<times> 'w" where
  "applyMutation env mut g w =
     (case mget (wg_Nodes g) (wm_NodeID mut) of
        None \<Rightarrow> (Some (''node '' @ [CHR 0x22] @ wm_NodeID mut @ [CHR 0x22] @ '' not found''), g, w)
      | Some node \<Rightarrow>
          let update = (\<lambda>node w. (None, g\<lparr>wg_Nodes := mset_at (wg_Nodes g) (wm_NodeID mut) node, wg_UpdatedAt := se_clock env w\<rparr>, w))
          in (case wm_Type mut of
                MutatePrompt \<Rightarrow> update (node\<lparr>wn_PromptTemplate := wn_PromptTemplate node @ [CHR 0x0A, CHR 0x0A] @ ''[Optimized: focus on key outputs.]''\<rparr>) w
              | MutateModelTier \<Rightarrow>
                  let tiers = [''fast'', ''balanced'', ''powerful'', ''vlm'']; (idx, w) = se_intn env (length tiers) w
                  in update (node\<lparr>wn_ModelTier := tiers ! idx\<rparr>) w
              | SwapTool \<Rightarrow>
                  if wn_ToolIDs node = [] then update node w
                  else let (swapIdx, w) = se_intn env (length (wn_ToolIDs node)) w; (k, w) = se_intn env 100 w
                    in update (node\<lparr>wn_ToolIDs := (wn_ToolIDs node)[swapIdx := ''tool_'' @ show_int (int k)]\<rparr>) w
              | _ \<Rightarrow> (Some ''unsupported mutation type'', g, w)))"

text \<open>The relative gain of a score over the best one so far.\<close>

definition improvement :: "f64 \<Rightarrow> f64 \<Rightarrow> f64" where
  "improvement best s =
     (if flt (flit 0) best then fdiv (fsub s best) best else if flt best s then flit 1 else flit 0)"

record ('e, 'w) search =
  sc_working :: workflow_graph
  sc_best :: f64
  sc_result :: optimization_result
  sc_eval :: 'e
  sc_world :: 'w

text \<open>The loop over the mutations of one iteration; it answers whether one of them was accepted.\<close>

primrec try_mutations :: "'w search_env \<Rightarrow> ('e, 'w) evaluator \<Rightarrow> optimization_config \<Rightarrow> workflow_mutation list \<Rightarrow> ('e, 'w) search \<Rightarrow>
    bool \<times> ('e, 'w) search" where
  "try_mutations env eval cfg [] s = (False, s)"
| "try_mutations env eval cfg (mut # muts) s =
     (case applyMutation env mut (wg_Clone (sc_working s)) (sc_world s) of
        (Some err, _, w) \<Rightarrow> try_mutations env eval cfg muts (s\<lparr>sc_world := w\<rparr>)
      | (None, candidate, w) \<Rightarrow>
          (case eval candidate (sc_eval s) w of
             (Inl err, e, w) \<Rightarrow> try_mutations env eval cfg muts (s\<lparr>sc_eval := e, sc_world := w\<rparr>)
           | (Inr x, e, w) \<Rightarrow>
               let res = (sc_result s)\<lparr>or_TotalMutations := or_TotalMutations (sc_result s) + 1\<rparr> in
               if fle (oc_ImprovementThreshold cfg) (improvement (sc_best s) x)
               then (True, s\<lparr>sc_working := candidate, sc_best := x, sc_result := res\<lparr>or_BestGraph := wg_Clone candidate, or_BestScore := x\<rparr>,
                      sc_eval := e, sc_world := w\<rparr>)
               else try_mutations env eval cfg muts (s\<lparr>sc_result := res, sc_eval := e, sc_world := w\<rparr>)))"

text \<open>The main loop: \<open>n\<close> iterations are left, \<open>fails\<close> went by without a gain. It ends with \<open>ctx.Err\<close> when the context is done.\<close>

primrec search_loop :: "'w search_env \<Rightarrow> ('e, 'w) evaluator \<Rightarrow> optimization_config \<Rightarrow> time option \<Rightarrow> nat \<Rightarrow> nat \<Rightarrow> ('e, 'w) search \<Rightarrow>
    string option \<times> ('e, 'w) search" where
  "search_loop env eval cfg ctx 0 fails s = (None, s)"
| "search_loop env eval cfg ctx (Suc n) fails s =
     (case se_done env ctx (sc_world s) of
        Some err \<Rightarrow> (Some err, s)
      | None \<Rightarrow>
          (case generateMutations env cfg (sc_working s) (sc_world s) of
             (muts, w) \<Rightarrow>
               let s = s\<lparr>sc_world := w\<rparr> in
               if muts = [] then (None, s)
               else let (accepted, s) = try_mutations env eval cfg muts s;
                        res = sc_result s;
                        res = res\<lparr>or_Iterations := or_Iterations res + 1, or_ImprovementHistory := or_ImprovementHistory res @ [sc_best s]\<rparr>;
                        fails = (if accepted then 0 else fails + 1)
                    in if \<not> accepted \<and> 3 \<le> fails then (None, s\<lparr>sc_result := res\<lparr>or_Converged := True\<rparr>\<rparr>)
                       else search_loop env eval cfg ctx n fails (s\<lparr>sc_result := res\<rparr>)))"

text \<open>The answer is the result beside \<open>ctx.Err\<close>, or the error of the first evaluation; the run is added to the history \<open>runs\<close>.\<close>

definition search_start :: "workflow_graph \<Rightarrow> f64 \<Rightarrow> 'e \<Rightarrow> 'w \<Rightarrow> ('e, 'w) search" where
  "search_start working baseline e w =
     \<lparr>sc_working = working, sc_best = baseline, sc_result = \<lparr>or_BestGraph = wg_Clone working, or_BestScore = baseline, or_Iterations = 0,
        or_TotalMutations = 0, or_ImprovementHistory = [baseline], or_Duration = 0, or_Converged = False\<rparr>, sc_eval = e, sc_world = w\<rparr>"

definition wo_Optimize :: "'w search_env \<Rightarrow> (time option \<Rightarrow> ('e, 'w) evaluator) \<Rightarrow> optimization_config \<Rightarrow> time option \<Rightarrow> workflow_graph \<Rightarrow>
    optimization_result list \<Rightarrow> 'e \<Rightarrow> 'w \<Rightarrow> (string + optimization_result \<times> string option) \<times> optimization_result list \<times> 'e \<times> 'w" where
  "wo_Optimize env eval cfg ctx g runs e w =
     (let start = se_clock env w;
          ctx = (if 0 < oc_Timeout cfg then with_timeout ctx (start + oc_Timeout cfg) else ctx);
          working = wg_Clone g
      in case eval ctx working e w of
           (Inl err, e, w) \<Rightarrow> (Inl (''baseline evaluation: '' @ err), runs, e, w)
         | (Inr baseline, e, w) \<Rightarrow>
             (case search_loop env (eval ctx) cfg ctx (nat (oc_MaxIterations cfg)) 0 (search_start working baseline e w) of
                (err, s) \<Rightarrow>
                  let res = (sc_result s)\<lparr>or_Duration := time_sub (se_clock env (sc_world s)) start\<rparr>
                  in (Inr (res, err), runs @ [res], sc_eval s, sc_world s)))"

section \<open>Editing one prompt\<close>

record textgrad_config =
  tg_MaxIterations :: int
  tg_LearningRate :: f64
  tg_ImprovementThreshold :: f64

definition DefaultTextGradConfig :: textgrad_config where
  "DefaultTextGradConfig = \<lparr>tg_MaxIterations = 5, tg_LearningRate = flit (3 / 10), tg_ImprovementThreshold = flit (2 / 100)\<rparr>"

text \<open>The feedback text is kept as the score and the number it shows.\<close>

record prompt_gradient =
  pg_NodeID :: string
  pg_Score :: f64
  pg_Feedback :: "f64 \<times> nat"
  pg_Weaknesses :: "string list"
  pg_Suggestion :: string

record textgrad_result =
  tr_NodeID :: string
  tr_OriginalPrompt :: string
  tr_OptimizedPrompt :: string
  tr_OriginalScore :: f64
  tr_FinalScore :: f64
  tr_Iterations :: int
  tr_Gradients :: "prompt_gradient list"
  tr_Duration :: duration
  tr_Improved :: bool

definition computeGradient :: "string \<Rightarrow> string \<Rightarrow> f64 \<Rightarrow> prompt_gradient" where
  "computeGradient nodeID prompt s =
     (let lower = to_lower prompt;
          (weak, sugg) = ([], []);
          (weak, sugg) = (if \<not> contains lower ''step'' \<and> \<not> contains lower ''first''
            then (weak @ [''lacks step-by-step structure''], ''Add numbered steps for clarity.'') else (weak, sugg));
          (weak, sugg) = (if \<not> contains lower ''output'' \<and> \<not> contains lower ''return'' \<and> \<not> contains lower ''respond''
            then (weak @ [''unclear output format''], ''Specify the expected output format.'') else (weak, sugg));
          (weak, sugg) = (if length prompt < 50 then (weak @ [''prompt too brief''], ''Expand with context and constraints.'') else (weak, sugg));
          (weak, sugg) = (if 2000 < length prompt then (weak @ [''prompt too verbose''], ''Trim redundant instructions.'') else (weak, sugg))
      in \<lparr>pg_NodeID = nodeID, pg_Score = s, pg_Feedback = (s, length weak), pg_Weaknesses = weak, pg_Suggestion = sugg\<rparr>)"

abbreviation blank_line :: string where "blank_line \<equiv> [CHR 0x0A, CHR 0x0A]"

definition gradient_step :: "string \<times> string list \<Rightarrow> string \<Rightarrow> string \<times> string list" where
  "gradient_step = (\<lambda>(prompt, additions) weakness.
     if contains weakness ''step-by-step'' then
       (prompt, additions @ [blank_line @ ''Please follow these steps:'' @ [CHR 0x0A] @ ''1. Analyze the input carefully.'' @ [CHR 0x0A] @
          ''2. Apply the specified criteria.'' @ [CHR 0x0A] @ ''3. Produce structured output.''])
     else if contains weakness ''output format'' then
       (prompt, additions @ [blank_line @ ''Output format: Respond with structured JSON containing your analysis.''])
     else if contains weakness ''too brief'' then
       (prompt, additions @ [blank_line @ ''Provide thorough analysis with supporting evidence and reasoning.''])
     else if contains weakness ''too verbose'' then (if 1800 < length prompt then take 1800 prompt else prompt, additions)
     else (prompt, additions))"

definition applyGradient :: "string \<Rightarrow> prompt_gradient \<Rightarrow> string" where
  "applyGradient prompt gradient =
     (if pg_Weaknesses gradient = [] then prompt
      else case foldl gradient_step (prompt, []) (pg_Weaknesses gradient) of (prompt, additions) \<Rightarrow> prompt @ concat additions)"

text \<open>The node is shared with the graph, so writing its prompt changes the caller's graph.\<close>

definition set_prompt :: "string \<Rightarrow> workflow_node \<Rightarrow> string \<Rightarrow> workflow_graph \<Rightarrow> workflow_graph" where
  "set_prompt nodeID node prompt g = g\<lparr>wg_Nodes := mset_at (wg_Nodes g) nodeID (node\<lparr>wn_PromptTemplate := prompt\<rparr>)\<rparr>"

record ('e, 'w) prompt_search =
  ps_graph :: workflow_graph
  ps_prompt :: string
  ps_best :: f64
  ps_iterations :: int
  ps_gradients :: "prompt_gradient list"
  ps_eval :: 'e
  ps_world :: 'w

definition prompt_gain :: "f64 \<Rightarrow> f64 \<Rightarrow> f64" where
  "prompt_gain best x = (if flt (flit 0) best then fdiv (fsub x best) best else flit 0)"

text \<open>The loop of \<open>OptimizePrompt\<close> from the iteration \<open>iter\<close> on, with \<open>n\<close> iterations left.\<close>

primrec prompt_loop :: "('e, 'w) evaluator \<Rightarrow> f64 \<Rightarrow> string \<Rightarrow> workflow_node \<Rightarrow> nat \<Rightarrow> int \<Rightarrow> ('e, 'w) prompt_search \<Rightarrow> ('e, 'w) prompt_search" where
  "prompt_loop eval thr nodeID node 0 iter s = s"
| "prompt_loop eval thr nodeID node (Suc n) iter s =
     (let gradient = computeGradient nodeID (ps_prompt s) (ps_best s);
          newPrompt = applyGradient (ps_prompt s) gradient;
          s = s\<lparr>ps_gradients := ps_gradients s @ [gradient]\<rparr>
      in if newPrompt = ps_prompt s then s
         else let g = set_prompt nodeID node newPrompt (ps_graph s);
                  restored = set_prompt nodeID node (ps_prompt s) g
              in (case eval g (ps_eval s) (ps_world s) of
                    (Inl err, e, w) \<Rightarrow> prompt_loop eval thr nodeID node n (iter + 1) (s\<lparr>ps_graph := restored, ps_eval := e, ps_world := w\<rparr>)
                  | (Inr x, e, w) \<Rightarrow>
                      if fle thr (prompt_gain (ps_best s) x)
                      then prompt_loop eval thr nodeID node n (iter + 1)
                        (s\<lparr>ps_graph := g, ps_prompt := newPrompt, ps_best := x, ps_iterations := iter + 1, ps_eval := e, ps_world := w\<rparr>)
                      else prompt_loop eval thr nodeID node n (iter + 1) (s\<lparr>ps_graph := restored, ps_eval := e, ps_world := w\<rparr>)))"

definition OptimizePrompt :: "('w \<Rightarrow> time) \<Rightarrow> ('e, 'w) evaluator \<Rightarrow> textgrad_config \<Rightarrow> string \<Rightarrow> workflow_graph \<Rightarrow> 'e \<Rightarrow> 'w \<Rightarrow>
    (string + textgrad_result) \<times> workflow_graph \<times> 'e \<times> 'w" where
  "OptimizePrompt clock eval cfg nodeID g e w =
     (case mget (wg_Nodes g) nodeID of
        None \<Rightarrow> (Inl (''node '' @ [CHR 0x22] @ nodeID @ [CHR 0x22] @ '' not found''), g, e, w)
      | Some node \<Rightarrow>
          let start = clock w in
          (case eval g e w of
             (Inl err, e, w) \<Rightarrow> (Inl (''baseline evaluation: '' @ err), g, e, w)
           | (Inr baseline, e, w) \<Rightarrow>
               let s = prompt_loop eval (tg_ImprovementThreshold cfg) nodeID node (nat (tg_MaxIterations cfg)) 0
                   \<lparr>ps_graph = g, ps_prompt = wn_PromptTemplate node, ps_best = baseline, ps_iterations = 0, ps_gradients = [], ps_eval = e, ps_world = w\<rparr>
               in (Inr \<lparr>tr_NodeID = nodeID, tr_OriginalPrompt = wn_PromptTemplate node, tr_OptimizedPrompt = ps_prompt s,
                    tr_OriginalScore = baseline, tr_FinalScore = ps_best s, tr_Iterations = ps_iterations s, tr_Gradients = ps_gradients s,
                    tr_Duration = time_sub (clock (ps_world s)) start, tr_Improved = flt baseline (ps_best s)\<rparr>,
                   ps_graph s, ps_eval s, ps_world s)))"

section \<open>Pruning\<close>

record aflow_result =
  af_OriginalNodeCount :: int
  af_FinalNodeCount :: int
  af_OriginalEdgeCount :: int
  af_FinalEdgeCount :: int
  af_NodesAdded :: "string list"
  af_NodesRemoved :: "string list"
  af_EdgesAdded :: int
  af_EdgesRemoved :: int
  af_OriginalScore :: f64
  af_FinalScore :: f64
  af_Improved :: bool
  af_Duration :: duration

definition out_degrees :: "workflow_graph \<Rightarrow> (string, int) gomap" where
  "out_degrees g = foldl (\<lambda>d e. mincr d (we_From e)) (foldl (\<lambda>d (k, _). mset_at d k 0) [] (wg_Nodes g)) (wg_Edges g)"

text \<open>The loop over the degrees; the graph is the caller's, each candidate is a clone.\<close>

primrec prune_loop :: "('w \<Rightarrow> time) \<Rightarrow> ('e, 'w) evaluator \<Rightarrow> (string, int) gomap \<Rightarrow> string list \<Rightarrow> f64 \<Rightarrow> workflow_graph \<Rightarrow> 'e \<Rightarrow> 'w \<Rightarrow>
    string list \<times> workflow_graph \<times> 'e \<times> 'w" where
  "prune_loop clock eval degs [] baseline g e w = ([], g, e, w)"
| "prune_loop clock eval degs (k # ks) baseline g e w =
     (if 0 < mget_or 0 degs k \<or> k = wg_EntryNodeID g then prune_loop clock eval degs ks baseline g e w
      else (case eval (snd (wg_RemoveNode (clock w) k (wg_Clone g))) e w of
              (Inl err, e, w) \<Rightarrow> prune_loop clock eval degs ks baseline g e w
            | (Inr x, e, w) \<Rightarrow>
                if fle baseline x
                then (case prune_loop clock eval degs ks x (snd (wg_RemoveNode (clock w) k g)) e w of (pruned, r) \<Rightarrow> (k # pruned, r))
                else prune_loop clock eval degs ks baseline g e w))"

definition pruneLeafNodes :: "'w search_env \<Rightarrow> ('e, 'w) evaluator \<Rightarrow> f64 \<Rightarrow> workflow_graph \<Rightarrow> 'e \<Rightarrow> 'w \<Rightarrow> string list \<times> workflow_graph \<times> 'e \<times> 'w" where
  "pruneLeafNodes env eval baseline g e w =
     (let degs = out_degrees g in prune_loop (se_clock env) eval degs (se_order env w (map fst degs)) baseline g e w)"

primrec mark_parallel :: "(string, int) gomap \<Rightarrow> string list \<Rightarrow> workflow_graph \<Rightarrow> string list \<times> workflow_graph" where
  "mark_parallel degs [] g = ([], g)"
| "mark_parallel degs (k # ks) g =
     (if mget_or 0 degs k < 2 \<or> k = wg_EntryNodeID g then mark_parallel degs ks g
      else (case mget (wg_Nodes g) k of
              None \<Rightarrow> mark_parallel degs ks g
            | Some node \<Rightarrow>
                let config = (case wn_Config node of None \<Rightarrow> [] | Some c \<Rightarrow> c);
                    node = node\<lparr>wn_Config := Some (mset_at config ''parallel_fan_in'' ''true'')\<rparr>
                in (case mark_parallel degs ks (g\<lparr>wg_Nodes := mset_at (wg_Nodes g) k node\<rparr>) of
                      (added, g) \<Rightarrow> ((k @ ''(parallel)'') # added, g))))"

definition addParallelPaths :: "'w search_env \<Rightarrow> workflow_graph \<Rightarrow> 'w \<Rightarrow> string list \<times> workflow_graph" where
  "addParallelPaths env g w = (let degs = in_degrees g in mark_parallel degs (se_order env w (map fst degs)) g)"

definition af_Optimize :: "'w search_env \<Rightarrow> ('e, 'w) evaluator \<Rightarrow> workflow_graph \<Rightarrow> 'e \<Rightarrow> 'w \<Rightarrow>
    (string + aflow_result) \<times> workflow_graph \<times> 'e \<times> 'w" where
  "af_Optimize env eval g e w =
     (let start = se_clock env w; origNodes = int (length (wg_Nodes g)); origEdges = int (length (wg_Edges g)) in
      case eval g e w of
        (Inl err, e, w) \<Rightarrow> (Inl (''aflow baseline: '' @ err), g, e, w)
      | (Inr baseline, e, w) \<Rightarrow>
          let (pruned, g, e, w) = pruneLeafNodes env eval baseline g e w;
              (added, g) = addParallelPaths env g w;
              finalNodes = int (length (wg_Nodes g)); finalEdges = int (length (wg_Edges g));
              edgesAdded = finalEdges - origEdges + int (length pruned);
              (answer, e, w) = eval g e w;
              final = (case answer of Inl _ \<Rightarrow> baseline | Inr x \<Rightarrow> x)
          in (Inr \<lparr>af_OriginalNodeCount = origNodes, af_FinalNodeCount = finalNodes, af_OriginalEdgeCount = origEdges,
                af_FinalEdgeCount = finalEdges, af_NodesAdded = added, af_NodesRemoved = pruned, af_EdgesAdded = edgesAdded,
                af_EdgesRemoved = origEdges - finalEdges + edgesAdded, af_OriginalScore = baseline, af_FinalScore = final,
                af_Improved = flt baseline final, af_Duration = time_sub (se_clock env w) start\<rparr>, g, e, w))"

section \<open>What the search can gain\<close>

lemma length_mset_at: "mget m k \<noteq> None \<Longrightarrow> length (mset_at m k v) = length m"
  by (induction m) (auto simp: mset_at_def mget_def split: if_splits)

lemma mset_at_twice: "mset_at (mset_at m k a) k b = mset_at m k b"
  by (induction m) (auto simp: mset_at_def)

lemma mset_at_same: "mget m k = Some v \<Longrightarrow> mset_at m k v = m"
  by (induction m) (auto simp: mset_at_def mget_def split: if_splits)

lemma Clone_shape:
  assumes "wf_map (wg_Nodes g)"
  shows "same_shape (wg_Clone g) g" "wf_map (wg_Nodes (wg_Clone g))"
  using copy_fold [of "[]" "wg_Nodes g" "\<lambda>n. n\<lparr>wn_Config := copy_map (wn_Config n)\<rparr>"] assms
  by (simp_all add: same_shape_def wg_Clone_def wf_map_def o_def case_prod_beta)

lemma applyMutation_shape:
  assumes "applyMutation env mut g w = (None, g', w')"
  shows "same_shape g' g"
proof -
  obtain node where node: "mget (wg_Nodes g) (wm_NodeID mut) = Some node"
    using assms by (cases "mget (wg_Nodes g) (wm_NodeID mut)") (simp_all add: applyMutation_def)
  obtain idx v where d1: "se_intn env (length [''fast'', ''balanced'', ''powerful'', ''vlm'']) w = (idx, v)" by force
  obtain idx' v' where d2: "se_intn env (length (wn_ToolIDs node)) w = (idx', v')" by force
  obtain k v'' where d3: "se_intn env 100 v' = (k, v'')" by force
  have "\<exists>node' now. g' = g\<lparr>wg_Nodes := mset_at (wg_Nodes g) (wm_NodeID mut) node', wg_UpdatedAt := now\<rparr>"
    using assms d1 d2 d3 by (cases "wm_Type mut"; cases "wn_ToolIDs node = []"; auto simp: applyMutation_def node Let_def)
  then show ?thesis by (auto simp: same_shape_def length_mset_at node)
qed

lemma no_improvement:
  assumes "flt (flit 0) thr"
  shows "\<not> fle thr (improvement x x)"
proof -
  have thr: "flt (Fin 0) thr" using assms by (simp only: zero_f)
  have n: "\<not> fle thr (Fin 0)" "\<not> fle thr NaN" using thr by (cases thr; simp add: flt_def)+
  have "improvement x x = Fin 0 \<or> improvement x x = NaN"
  proof (cases x)
    case (Fin a)
    have "fsub x x = Fin 0" using zero_f by (simp add: Fin fsub_def)
    moreover have "fdiv (Fin 0) (Fin a) = Fin 0" if "0 < a" using zero_f that by simp
    ultimately show ?thesis using Fin by (simp add: improvement_def zero_f flt_def)
  qed (simp_all add: improvement_def zero_f fsub_def flt_def)
  with n show ?thesis by metis
qed

definition stuck :: "('e \<Rightarrow> workflow_graph \<Rightarrow> string + f64) \<Rightarrow> optimization_config \<Rightarrow> ('e, 'w) search \<Rightarrow> bool" where
  "stuck score cfg s \<longleftrightarrow> flt (flit 0) (oc_ImprovementThreshold cfg) \<and> wf_map (wg_Nodes (sc_working s)) \<and> score (sc_eval s) (sc_working s) = Inr (sc_best s)"

definition same_run :: "('e \<Rightarrow> workflow_graph \<Rightarrow> string + f64) \<Rightarrow> ('e, 'w) search \<Rightarrow> ('e, 'w) search \<Rightarrow> bool" where
  "same_run score s s' \<longleftrightarrow> sc_working s' = sc_working s \<and> sc_best s' = sc_best s \<and> score (sc_eval s') = score (sc_eval s) \<and>
     (\<exists>n. sc_result s' = (sc_result s)\<lparr>or_TotalMutations := n\<rparr>)"

lemma same_run_refl: "same_run score s (s\<lparr>sc_world := w\<rparr>)"
  unfolding same_run_def by (simp, rule exI [of _ "or_TotalMutations (sc_result s)"]) simp

lemma same_run_trans: "same_run score s s' \<Longrightarrow> same_run score s' s'' \<Longrightarrow> same_run score s s''"
  by (auto simp: same_run_def)

lemma same_run_stuck: "same_run score s s' \<Longrightarrow> stuck score cfg s \<Longrightarrow> stuck score cfg s'"
  by (simp add: same_run_def stuck_def)

context shape_evaluator
begin

lemma try_mutations_stuck:
  "stuck score cfg s \<Longrightarrow> try_mutations env eval cfg muts s = (accepted, s') \<Longrightarrow> \<not> accepted \<and> same_run score s s'"
proof (induction muts arbitrary: s)
  case Nil
  then show ?case using same_run_refl [of score s "sc_world s"] by simp
next
  case (Cons mut muts)
  obtain r g w where a: "applyMutation env mut (wg_Clone (sc_working s)) (sc_world s) = (r, g, w)" by (rule prod_cases3)
  have step: "\<not> accepted \<and> same_run score s s'" if "same_run score s s1" "try_mutations env eval cfg muts s1 = (accepted, s')" for s1
    using Cons.IH [OF same_run_stuck [OF that(1) Cons.prems(1)] that(2)] same_run_trans [OF that(1)] by blast
  show ?case
  proof (cases r)
    case (Some err)
    show ?thesis by (rule step [OF same_run_refl [of score s w]]) (use Cons.prems(2) a Some in simp)
  next
    case None
    obtain q e v where q: "eval g (sc_eval s) w = (q, e, v)" by (rule prod_cases3)
    have wf: "wf_map (wg_Nodes (sc_working s))" using Cons.prems by (simp add: stuck_def)
    have "same_shape g (sc_working s)"
      using applyMutation_shape [OF a [unfolded None]] Clone_shape(1) [OF wf] by (simp add: same_shape_def)
    then have same: "q = Inr (sc_best s)" "score e = score (sc_eval s)"
      using eval_score [OF q] score_shape [of g "sc_working s" "sc_eval s"] Cons.prems by (simp_all add: stuck_def)
    define s1 where "s1 = s\<lparr>sc_result := (sc_result s)\<lparr>or_TotalMutations := or_TotalMutations (sc_result s) + 1\<rparr>, sc_eval := e, sc_world := v\<rparr>"
    have "same_run score s s1" using same by (auto simp: same_run_def s1_def)
    moreover have "try_mutations env eval cfg muts s1 = (accepted, s')"
      using Cons.prems same q a None no_improvement [of "oc_ImprovementThreshold cfg" "sc_best s"]
      by (simp add: s1_def stuck_def Let_def)
    ultimately show ?thesis by (rule step)
  qed
qed

text \<open>What a search that gains nothing leaves behind: its graph, its score, and as many rounds as it takes to give up.\<close>

lemma search_loop_stuck:
  assumes "\<And>w. se_done env ctx w = None" "\<And>g w. wg_Nodes g \<noteq> [] \<Longrightarrow> fst (generateMutations env cfg g w) \<noteq> []"
  shows "stuck score cfg s \<Longrightarrow> wg_Nodes (sc_working s) \<noteq> [] \<Longrightarrow> fails < 3 \<Longrightarrow> \<not> or_Converged (sc_result s) \<Longrightarrow>
    search_loop env eval cfg ctx n fails s = (err, s') \<Longrightarrow>
    err = None \<and> or_BestGraph (sc_result s') = or_BestGraph (sc_result s) \<and> or_BestScore (sc_result s') = or_BestScore (sc_result s) \<and>
    or_Iterations (sc_result s') = or_Iterations (sc_result s) + int (min n (3 - fails)) \<and> or_Converged (sc_result s') = (3 - fails \<le> n)"
proof (induction n arbitrary: fails s)
  case (Suc n)
  obtain muts w where g: "generateMutations env cfg (sc_working s) (sc_world s) = (muts, w)" by force
  have muts: "muts \<noteq> []" using assms(2) [OF Suc.prems(2), of "sc_world s"] g by simp
  obtain accepted s1 where t: "try_mutations env eval cfg muts (s\<lparr>sc_world := w\<rparr>) = (accepted, s1)" by force
  have s1: "\<not> accepted" "same_run score s s1"
    using try_mutations_stuck [OF same_run_stuck [OF same_run_refl Suc.prems(1)] t] same_run_trans [OF same_run_refl [of score s w]] by blast+
  define res where "res = (sc_result s1)\<lparr>or_Iterations := or_Iterations (sc_result s1) + 1,
    or_ImprovementHistory := or_ImprovementHistory (sc_result s1) @ [sc_best s1]\<rparr>"
  have res: "or_BestGraph res = or_BestGraph (sc_result s)" "or_BestScore res = or_BestScore (sc_result s)"
    "or_Iterations res = or_Iterations (sc_result s) + 1" "or_Converged res = or_Converged (sc_result s)"
    using s1(2) by (auto simp: res_def same_run_def)
  have loop: "search_loop env eval cfg ctx (Suc n) fails s =
      (if 3 \<le> fails + 1 then (None, s1\<lparr>sc_result := res\<lparr>or_Converged := True\<rparr>\<rparr>) else search_loop env eval cfg ctx n (fails + 1) (s1\<lparr>sc_result := res\<rparr>))"
    using g muts t s1(1) assms(1) by (simp add: res_def Let_def)
  show ?case
  proof (cases "3 \<le> fails + 1")
    case True
    with loop Suc.prems res show ?thesis by auto
  next
    case False
    have "stuck score cfg (s1\<lparr>sc_result := res\<rparr>)" "wg_Nodes (sc_working s1) \<noteq> []"
      using same_run_stuck [OF s1(2) Suc.prems(1)] s1(2) Suc.prems(2) by (simp_all add: stuck_def same_run_def)
    with Suc.IH [of "s1\<lparr>sc_result := res\<rparr>" "fails + 1"] loop Suc.prems res False show ?thesis by auto
  qed
qed simp

text \<open>The whole run, when the context is never done and there is a node to edit.\<close>

lemma Optimize_stuck:
  assumes "\<And>c w. se_done env c w = None" "\<And>g w. wg_Nodes g \<noteq> [] \<Longrightarrow> fst (generateMutations env cfg g w) \<noteq> []"
    "wf_map (wg_Nodes g)" "wg_Nodes g \<noteq> []" "flt (flit 0) (oc_ImprovementThreshold cfg)"
    "wo_Optimize env (\<lambda>_. eval) cfg ctx g runs e w = (Inr (res, err), runs', e', w')"
  shows "err = None \<and> or_BestGraph res = wg_Clone (wg_Clone g) \<and> score e (wg_Clone g) = Inr (or_BestScore res) \<and>
    or_Iterations res = min 3 (max 0 (oc_MaxIterations cfg)) \<and> (or_Converged res \<longleftrightarrow> 3 \<le> oc_MaxIterations cfg)"
proof -
  obtain q e1 w1 where b: "eval (wg_Clone g) e w = (q, e1, w1)" by (rule prod_cases3)
  from assms(6) b obtain baseline where q: "q = Inr baseline" by (cases q) (auto simp: wo_Optimize_def Let_def)
  define ctx' where "ctx' = (if 0 < oc_Timeout cfg then with_timeout ctx (se_clock env w + oc_Timeout cfg) else ctx)"
  let ?s = "search_start (wg_Clone g) baseline e1 w1"
  obtain err' s' where l: "search_loop env eval cfg ctx' (nat (oc_MaxIterations cfg)) 0 ?s = (err', s')" by force
  have sc: "score e (wg_Clone g) = Inr baseline" "score e1 = score e" using eval_score [OF b] q by simp_all
  have "stuck score cfg ?s" "wg_Nodes (sc_working ?s) \<noteq> []" "\<not> or_Converged (sc_result ?s)"
    using sc assms(3-5) Clone_shape [OF assms(3)] by (auto simp: stuck_def search_start_def same_shape_def)
  from search_loop_stuck [OF assms(1,2) this(1,2) _ this(3) l]
  have r: "err' = None" "or_BestGraph (sc_result s') = wg_Clone (wg_Clone g)" "or_BestScore (sc_result s') = baseline"
    "or_Iterations (sc_result s') = int (min (nat (oc_MaxIterations cfg)) 3)" "or_Converged (sc_result s') \<longleftrightarrow> 3 \<le> nat (oc_MaxIterations cfg)"
    by (simp_all add: search_start_def)
  have "res = (sc_result s')\<lparr>or_Duration := time_sub (se_clock env (sc_world s')) (se_clock env w)\<rparr>" "err = err'"
    using assms(6) b q l by (auto simp: wo_Optimize_def ctx'_def [symmetric] Let_def)
  with r sc show ?thesis by (auto simp: min_def max_def)
qed

lemma prompt_loop_stuck:
  assumes "flt (flit 0) thr"
  shows "set_prompt nodeID node (ps_prompt s) (ps_graph s) = ps_graph s \<Longrightarrow> mget (wg_Nodes (ps_graph s)) nodeID \<noteq> None \<Longrightarrow>
    score (ps_eval s) (ps_graph s) = Inr (ps_best s) \<Longrightarrow> s' = prompt_loop eval thr nodeID node n iter s \<Longrightarrow>
    ps_graph s' = ps_graph s \<and> ps_prompt s' = ps_prompt s \<and> ps_best s' = ps_best s \<and> ps_iterations s' = ps_iterations s"
proof (induction n arbitrary: iter s)
  case (Suc n)
  define gr where "gr = computeGradient nodeID (ps_prompt s) (ps_best s)"
  define p where "p = applyGradient (ps_prompt s) gr"
  define g where "g = set_prompt nodeID node p (ps_graph s)"
  obtain q e w where q: "eval g (ps_eval s) (ps_world s) = (q, e, w)" by (rule prod_cases3)
  have "same_shape g (ps_graph s)" using Suc.prems(2) by (simp add: g_def set_prompt_def same_shape_def length_mset_at)
  then have same: "q = Inr (ps_best s)" "score e = score (ps_eval s)"
    using eval_score [OF q] score_shape [of g "ps_graph s" "ps_eval s"] Suc.prems(3) by simp_all
  have restore: "set_prompt nodeID node (ps_prompt s) g = ps_graph s"
    using Suc.prems(1) by (simp add: g_def set_prompt_def mset_at_twice)
  have gain: "\<not> fle thr (prompt_gain (ps_best s) (ps_best s))"
    using no_improvement [OF assms, of "ps_best s"] by (auto simp: improvement_def prompt_gain_def flt_def)
  let ?s = "s\<lparr>ps_gradients := ps_gradients s @ [gr], ps_graph := ps_graph s, ps_eval := e, ps_world := w\<rparr>"
  show ?case
  proof (cases "p = ps_prompt s")
    case True
    with Suc.prems(4) show ?thesis by (simp add: Let_def gr_def p_def)
  next
    case False
    have "s' = prompt_loop eval thr nodeID node n (iter + 1) ?s"
      using Suc.prems(4) False q same(1) restore gain by (simp add: Let_def gr_def [symmetric] p_def [symmetric] g_def [symmetric])
    from Suc.IH [OF _ _ _ this] Suc.prems(1-3) same(2) show ?thesis by simp
  qed
qed simp

end

text \<open>The draws give at least one edit.\<close>

lemma pickMutation_ID: "pickMutation env g k explore w = (mut, w') \<Longrightarrow> wm_ID mut \<noteq> []"
  by (auto simp: pickMutation_def Let_def split: prod.splits)

lemma pick_mutations_some: "0 < n \<Longrightarrow> fst (pick_mutations env g nodeIDs explore n w) \<noteq> []"
  by (cases n) (auto simp: Let_def dest: pickMutation_ID split: prod.splits)

lemma generateMutations_some:
  assumes "\<And>w xs. mset (se_order env w xs) = mset xs" "wg_Nodes g \<noteq> []"
  shows "fst (generateMutations env cfg g w) \<noteq> []"
proof -
  have "se_order env w (map fst (wg_Nodes g)) \<noteq> []" using assms(1) [of w "map fst (wg_Nodes g)"] assms(2) by auto
  then show ?thesis
    unfolding generateMutations_def Let_def case_prod_beta by (simp only: if_False) (rule pick_mutations_some, simp)
qed

text \<open>C37: with the framework's own evaluator the search over a workflow's nodes never finds anything: whatever the
  draws and whatever the model notes, the result is the graph itself with its own score, after three
  rounds (or as many as are allowed).\<close>

theorem optimizer_gains_nothing:
  assumes "\<And>c w. se_done env c w = None" "\<And>w xs. mset (se_order env w xs) = mset xs"
    "wf_map (wg_Nodes g)" "wg_Nodes g \<noteq> []" "flt (flit 0) (oc_ImprovementThreshold cfg)"
    "wo_Optimize env (\<lambda>_. rubric_evaluate (se_clock env) c) cfg ctx g runs e w = (Inr (res, err), runs', e', w')"
  shows "err = None \<and> or_BestGraph res = wg_Clone (wg_Clone g) \<and> graph_score e (wg_Clone g) = Inr (or_BestScore res) \<and>
    or_Iterations res = min 3 (max 0 (oc_MaxIterations cfg)) \<and> (or_Converged res \<longleftrightarrow> 3 \<le> oc_MaxIterations cfg)"
  by (rule rubric.Optimize_stuck [OF assms(1) generateMutations_some [OF assms(2)] assms(3-6)])

definition still_env :: "unit search_env" where
  "still_env = \<lparr>se_clock = (\<lambda>_. 0), se_intn = (\<lambda>n w. (0, w)), se_float = (\<lambda>w. (flit 0, w)), se_order = (\<lambda>w xs. xs), se_done = (\<lambda>_ _. None)\<rparr>"

text \<open>A workflow of two steps, \<open>fetch\<close> and then \<open>store\<close>.\<close>

definition plain_node :: "string \<Rightarrow> workflow_node" where
  "plain_node k = \<lparr>wn_ID = k, wn_Name = k, wn_AgentType = [], wn_PromptTemplate = [], wn_ToolIDs = [], wn_ModelTier = [], wn_Timeout = 0,
     wn_Config = None\<rparr>"

definition two_steps :: workflow_graph where
  "two_steps = sample_graph\<lparr>wg_Nodes := [(''fetch'', plain_node ''fetch''), (''store'', plain_node ''store'')],
     wg_Edges := [\<lparr>we_From = ''fetch'', we_To = ''store'', we_Condition = [], we_DataMapping = None\<rparr>], wg_EntryNodeID := ''fetch''\<rparr>"

abbreviation default_evaluator :: "unit rubric_evaluator" where
  "default_evaluator \<equiv> NewWorkflowEvaluator DefaultWorkflowEvalConfig None"

lemma rubric_answers: "\<exists>x e' w'. rubric_evaluate clock ctx g e w = (Inr x, e', w')"
  using EvaluateFull_result [of clock ctx g e w] by (auto simp: rubric_evaluate_def)

lemma thresholds_positive: "flt (flit 0) (flit (1 / 20))" "flt (flit 0) (flit (1 / 50))"
  using near_lit_unit [of "1 / 20"] near_lit_unit [of "1 / 50"] unfolding zero_f
  by (auto intro: near_flt [of 0 "Fin 0" 0])

lemma optimizer_gains_nothing_witness:
  "\<exists>res runs e w. wo_Optimize still_env (\<lambda>_. rubric_evaluate (se_clock still_env) None) DefaultOptimizationConfig None two_steps [] default_evaluator () =
     (Inr (res, None), runs, e, w) \<and> or_Iterations res = 3 \<and> or_Converged res"
proof -
  obtain r runs e w where run: "wo_Optimize still_env (\<lambda>_. rubric_evaluate (se_clock still_env) None) DefaultOptimizationConfig None two_steps []
      default_evaluator () = (r, runs, e, w)" by (rule prod_cases4)
  obtain res err where r: "r = Inr (res, err)"
    using run rubric_answers [of "se_clock still_env" None "wg_Clone two_steps" default_evaluator "()"]
    by (auto simp: wo_Optimize_def Let_def split: prod.splits sum.splits)
  have "wf_map (wg_Nodes two_steps)" "wg_Nodes two_steps \<noteq> []" by (simp_all add: two_steps_def wf_map_def)
  with optimizer_gains_nothing [of still_env two_steps DefaultOptimizationConfig None None "[]" default_evaluator "()" res err runs e w] run r
  show ?thesis by (simp add: still_env_def DefaultOptimizationConfig_def thresholds_positive)
qed

text \<open>nor does the search over a prompt: every edit is taken back.\<close>

theorem textgrad_gains_nothing:
  assumes "flt (flit 0) (tg_ImprovementThreshold cfg)"
    "OptimizePrompt clock (rubric_evaluate clock ctx) cfg nodeID g e w = (Inr res, g', e', w')"
  shows "g' = g \<and> tr_OptimizedPrompt res = tr_OriginalPrompt res \<and> tr_FinalScore res = tr_OriginalScore res \<and> \<not> tr_Improved res"
proof -
  from assms(2) obtain node where node: "mget (wg_Nodes g) nodeID = Some node"
    by (cases "mget (wg_Nodes g) nodeID") (simp_all add: OptimizePrompt_def)
  obtain q e1 w1 where b: "rubric_evaluate clock ctx g e w = (q, e1, w1)" by (rule prod_cases3)
  from assms(2) b node obtain baseline where q: "q = Inr baseline" by (cases q) (auto simp: OptimizePrompt_def Let_def)
  define s where "s = \<lparr>ps_graph = g, ps_prompt = wn_PromptTemplate node, ps_best = baseline, ps_iterations = 0, ps_gradients = [], ps_eval = e1, ps_world = w1\<rparr>"
  define s' where "s' = prompt_loop (rubric_evaluate clock ctx) (tg_ImprovementThreshold cfg) nodeID node (nat (tg_MaxIterations cfg)) 0 s"
  have "set_prompt nodeID node (ps_prompt s) (ps_graph s) = ps_graph s" by (simp add: s_def set_prompt_def mset_at_same node)
  moreover have "graph_score (ps_eval s) (ps_graph s) = Inr (ps_best s)" using rubric.eval_score [OF b] q by (simp add: s_def)
  ultimately have "ps_graph s' = ps_graph s \<and> ps_prompt s' = ps_prompt s \<and> ps_best s' = ps_best s \<and> ps_iterations s' = ps_iterations s"
    using rubric.prompt_loop_stuck [OF assms(1) _ _ _ s'_def] node by (simp add: s_def)
  with assms(2) node b q show ?thesis
    by (auto simp: OptimizePrompt_def Let_def s_def [symmetric] s'_def [symmetric]) (simp_all add: s_def flt_def)
qed

lemma textgrad_gains_nothing_witness:
  "\<exists>res g e w. OptimizePrompt (\<lambda>_. 0) (rubric_evaluate (\<lambda>_. 0) None) DefaultTextGradConfig ''store'' two_steps default_evaluator () =
     (Inr res, g, e, w) \<and> g = two_steps \<and> \<not> tr_Improved res"
proof -
  obtain r g e w where run: "OptimizePrompt (\<lambda>_. 0) (rubric_evaluate (\<lambda>_. 0) None) DefaultTextGradConfig ''store'' two_steps default_evaluator () =
      (r, g, e, w)" by (rule prod_cases4)
  have "mget (wg_Nodes two_steps) ''store'' = Some (plain_node ''store'')" by (simp add: two_steps_def mget_def)
  then obtain res where r: "r = Inr res"
    using run rubric_answers [of "\<lambda>_. 0" None two_steps default_evaluator "()"] by (auto simp: OptimizePrompt_def Let_def)
  from textgrad_gains_nothing [of DefaultTextGradConfig "\<lambda>_. 0" None "''store''" two_steps default_evaluator "()" res g e w] run r
  show ?thesis by (simp add: DefaultTextGradConfig_def thresholds_positive)
qed

section \<open>What pruning cuts\<close>

definition parts :: "workflow_graph \<Rightarrow> nat" where
  "parts g = length (wg_Nodes g) + length (wg_Edges g)"

definition drop_nodes :: "string list \<Rightarrow> workflow_graph \<Rightarrow> (string \<times> workflow_node) list" where
  "drop_nodes ks g = filter (\<lambda>p. fst p \<notin> set ks) (wg_Nodes g)"

lemma mdelete_filter: "mdelete m k = filter (\<lambda>p. fst p \<noteq> k) m"
  by (induction m) (auto simp: mdelete_def)

lemma RemoveNode_parts:
  assumes "wf_map (wg_Nodes g)"
  shows "same_shape (snd (wg_RemoveNode now k (wg_Clone g))) (snd (wg_RemoveNode now' k g))" "parts (snd (wg_RemoveNode now k g)) \<le> parts g"
    "wg_Metrics (snd (wg_RemoveNode now k g)) = wg_Metrics g"
    "wg_Nodes (snd (wg_RemoveNode now k g)) = drop_nodes [k] g"
    "k \<noteq> wg_EntryNodeID g \<Longrightarrow> wg_EntryNodeID (snd (wg_RemoveNode now k g)) = wg_EntryNodeID g"
proof -
  have nodes: "wg_Nodes (wg_Clone g) = map (\<lambda>(j, n). (j, n\<lparr>wn_Config := copy_map (wn_Config n)\<rparr>)) (wg_Nodes g)"
    using copy_fold [of "[]" "wg_Nodes g" "\<lambda>n. n\<lparr>wn_Config := copy_map (wn_Config n)\<rparr>"] assms by (simp add: wg_Clone_def)
  have "mget (wg_Nodes (wg_Clone g)) k = None \<longleftrightarrow> mget (wg_Nodes g) k = None"
    unfolding nodes mget_def map_of_eq_None_iff by (force simp: image_iff)
  then show "same_shape (snd (wg_RemoveNode now k (wg_Clone g))) (snd (wg_RemoveNode now' k g))"
    by (simp add: same_shape_def wg_RemoveNode_def nodes mdelete_filter filter_map o_def case_prod_beta)
      (simp add: wg_Clone_def filter_map o_def)
  show "parts (snd (wg_RemoveNode now k g)) \<le> parts g"
    by (simp add: parts_def wg_RemoveNode_def mdelete_filter add_mono)
  have "mget (wg_Nodes g) k = None \<Longrightarrow> drop_nodes [k] g = wg_Nodes g"
    by (auto simp: drop_nodes_def mget_def map_of_eq_None_iff filter_id_conv image_iff)
  then show "wg_Nodes (snd (wg_RemoveNode now k g)) = drop_nodes [k] g"
    by (auto simp: wg_RemoveNode_def mdelete_filter drop_nodes_def)
qed (simp_all add: wg_RemoveNode_def)

context shape_evaluator
begin

text \<open>When a smaller graph never scores less, every candidate is cut.\<close>

lemma prune_loop_all:
  assumes "\<And>g h x. wg_Metrics g = M \<Longrightarrow> wg_Metrics h = M \<Longrightarrow> parts h \<le> parts g \<Longrightarrow> parts g \<le> N \<Longrightarrow> f g = Inr x \<Longrightarrow> \<exists>y. f h = Inr y \<and> fle x y"
  shows "wf_map (wg_Nodes g) \<Longrightarrow> wg_Metrics g = M \<Longrightarrow> parts g \<le> N \<Longrightarrow> score e = f \<Longrightarrow> f g = Inr baseline \<Longrightarrow>
    prune_loop clock eval degs ks baseline g e w = (pruned, g', e', w') \<Longrightarrow>
    pruned = filter (\<lambda>k. \<not> 0 < mget_or 0 degs k \<and> k \<noteq> wg_EntryNodeID g) ks \<and> wg_Nodes g' = drop_nodes pruned g"
proof (induction ks arbitrary: baseline g e w pruned)
  case Nil
  then show ?case by (simp add: drop_nodes_def)
next
  case (Cons k ks)
  show ?case
  proof (cases "0 < mget_or 0 degs k \<or> k = wg_EntryNodeID g")
    case True
    with Cons.prems Cons.IH [OF Cons.prems(1-5)] show ?thesis by simp
  next
    case False
    obtain q e1 w1 where q: "eval (snd (wg_RemoveNode (clock w) k (wg_Clone g))) e w = (q, e1, w1)" by (rule prod_cases3)
    let ?g = "snd (wg_RemoveNode (clock w1) k g)"
    note shape = RemoveNode_parts(1) [OF Cons.prems(1), of "clock w" k "clock w1"]
    note rm = RemoveNode_parts(2-5) [OF Cons.prems(1), where now = "clock w1" and k = k]
    from assms [of g ?g, OF Cons.prems(2) _ _ Cons.prems(3) Cons.prems(5)] rm Cons.prems(2)
    obtain y where y: "f ?g = Inr y" "fle baseline y" by auto
    have same: "q = Inr y" "score e1 = f" using eval_score [OF q] score_shape [OF shape, of e] Cons.prems(4) y(1) by simp_all
    have "\<exists>pruned'. prune_loop clock eval degs ks y ?g e1 w1 = (pruned', g', e', w') \<and> pruned = k # pruned'"
      using Cons.prems(6) False q same(1) y(2) by (auto split: prod.splits)
    then obtain pruned' where r: "prune_loop clock eval degs ks y ?g e1 w1 = (pruned', g', e', w')" "pruned = k # pruned'" by blast
    have "wf_map (wg_Nodes ?g)" using Cons.prems(1) by (auto simp: rm(3) drop_nodes_def wf_map_def distinct_map_filter)
    from Cons.IH [OF this _ _ same(2) y(1) r(1)] rm Cons.prems(2,3) False
    have IH: "pruned' = filter (\<lambda>k. \<not> 0 < mget_or 0 degs k \<and> k \<noteq> wg_EntryNodeID g) ks" "wg_Nodes g' = drop_nodes pruned' ?g" by auto
    with r(2) False rm(3) show ?thesis by (auto simp: drop_nodes_def filter_filter intro!: filter_cong)
  qed
qed

end

lemma mark_parallel_ids: "mark_parallel degs ks g = (added, g') \<Longrightarrow> node_ids g' = node_ids g"
proof (induction ks arbitrary: g added)
  case (Cons k ks)
  show ?case
  proof (cases "mget_or 0 degs k < 2 \<or> k = wg_EntryNodeID g \<or> mget (wg_Nodes g) k = None")
    case True
    with Cons show ?thesis by (auto split: option.splits)
  next
    case False
    then obtain node where n: "mget (wg_Nodes g) k = Some node" by auto
    then have "k \<in> node_ids g" by (simp add: node_ids_def mget_key)
    with Cons False n show ?thesis by (auto simp: Let_def node_ids_def split: prod.splits)
  qed
qed simp

lemma out_degrees_get: "mget_or 0 (out_degrees g) v = int (length (filter (\<lambda>e. we_From e = v) (wg_Edges g)))"
proof -
  have zero: "mget_or 0 (foldl (\<lambda>d (k, _). mset_at d k 0) [] (wg_Nodes g)) v = (0 :: int)"
    by (simp add: mget_or_def zero_fold(2))
  have "mget_or 0 (foldl (\<lambda>d e. mincr d (we_From e)) d es) v = mget_or 0 d v + int (length (filter (\<lambda>e. we_From e = v) es))"
    for d :: "(string, int) gomap" and es :: "workflow_edge list"
    by (induction es arbitrary: d) auto
  then show ?thesis by (simp add: out_degrees_def zero)
qed

lemma out_degrees_keys: "wg_inv g \<Longrightarrow> set (map fst (out_degrees g)) = node_ids g"
proof -
  assume inv: "wg_inv g"
  have "mget (foldl (\<lambda>d e. mincr d (we_From e)) d es) v \<noteq> None \<longleftrightarrow> mget d v \<noteq> None \<or> v \<in> we_From ` set es" for d :: "(string, int) gomap" and es :: "workflow_edge list" and v
    by (induction es arbitrary: d) (auto simp: mincr_def)
  then have "k \<in> set (map fst (out_degrees g)) \<longleftrightarrow> k \<in> node_ids g" for k
    using inv unfolding set_map mget_key node_ids_def out_degrees_def by (auto simp: zero_fold(2) mget_key wg_inv_def)
  then show ?thesis by blast
qed

lemma af_Optimize_result:
  assumes "eval g e w = (Inr baseline, e1, w1)" "pruneLeafNodes env eval baseline g e1 w1 = (pruned, g1, e2, w2)"
    "addParallelPaths env g1 w2 = (added, g2)"
  shows "\<exists>R e3 w3. af_Optimize env eval g e w = (Inr R, g2, e3, w3) \<and> af_NodesRemoved R = pruned"
proof -
  obtain answer e3 w3 where a: "eval g2 e2 w2 = (answer, e3, w3)" by (rule prod_cases3)
  show ?thesis by (simp add: af_Optimize_def assms a Let_def)
qed

definition leaves :: "workflow_graph \<Rightarrow> string set" where
  "leaves g = {k \<in> node_ids g. k \<noteq> wg_EntryNodeID g \<and> (\<forall>ed \<in> set (wg_Edges g). we_From ed \<noteq> k)}"

text \<open>C31: on a workflow of at most fifty nodes and edges whose metrics count their runs consistently, with the default rubric
  and whatever order the map of nodes is walked in, pruning removes exactly the leaves other than the entry, that
  is every node in which the workflow ends, whatever it does. Beyond fifty parts the rubric's size points can
  change when a leaf goes, and nothing is claimed there.\<close>

theorem aflow_cuts_all_leaves:
  assumes "wg_inv g" "counted_runs (wg_Metrics g)" "length (wg_Nodes g) + length (wg_Edges g) \<le> 50"
    "wv_Rubric (re_cfg e) = wv_Rubric DefaultWorkflowEvalConfig" "\<And>w xs. mset (se_order env w xs) = mset xs"
    "af_Optimize env (rubric_evaluate (se_clock env) ctx) g e w = (Inr res, g', e', w')"
  shows "set (af_NodesRemoved res) = leaves g \<and> node_ids g' = node_ids g - leaves g"
proof -
  let ?eval = "rubric_evaluate (se_clock env) ctx"
  obtain q e1 w1 where b: "?eval g e w = (q, e1, w1)" by (rule prod_cases3)
  from assms(6) b obtain baseline where q: "q = Inr baseline" by (cases q) (auto simp: af_Optimize_def Let_def)
  have sc: "graph_score e g = Inr baseline" "graph_score e1 = graph_score e" using rubric.eval_score [OF b] q by simp_all
  define ks where "ks = se_order env w1 (map fst (out_degrees g))"
  obtain pruned g1 e2 w2 where p: "prune_loop (se_clock env) ?eval (out_degrees g) ks baseline g e1 w1 = (pruned, g1, e2, w2)"
    by (rule prod_cases4)
  obtain added g2 where m: "addParallelPaths env g1 w2 = (added, g2)" by force
  have mono: "\<exists>y. graph_score e k = Inr y \<and> fle x y"
    if "wg_Metrics h = wg_Metrics g" "wg_Metrics k = wg_Metrics g" "parts k \<le> parts h" "parts h \<le> 50" "graph_score e h = Inr x" for h k x
  proof -
    obtain y where "graph_score e k = Inr y" by (simp add: graph_score_def)
    with smaller_not_worse [of h e k x y] that assms(2,4) show ?thesis by (simp add: parts_def)
  qed
  have wf: "wf_map (wg_Nodes g)" using assms(1) by (simp add: wg_inv_def)
  have small: "parts g \<le> 50" using assms(3) by (simp add: parts_def)
  have "pruned = filter (\<lambda>k. \<not> 0 < mget_or 0 (out_degrees g) k \<and> k \<noteq> wg_EntryNodeID g) ks \<and> wg_Nodes g1 = drop_nodes pruned g"
    by (rule rubric.prune_loop_all [where f = "graph_score e" and M = "wg_Metrics g" and N = 50, OF _ wf refl small sc(2) sc(1) p])
      (rule mono; assumption)
  then have pruned: "pruned = filter (\<lambda>k. \<not> 0 < mget_or 0 (out_degrees g) k \<and> k \<noteq> wg_EntryNodeID g) ks" "wg_Nodes g1 = drop_nodes pruned g"
    by blast+
  have "set ks = node_ids g"
    using out_degrees_keys [OF assms(1)] mset_eq_setD [OF assms(5) [of w1 "map fst (out_degrees g)"]] by (simp add: ks_def)
  then have leaves: "set pruned = leaves g" unfolding pruned(1) out_degrees_get by (auto simp: leaves_def filter_empty_conv)
  have "node_ids g1 = node_ids g - leaves g" using leaves by (auto simp: node_ids_def pruned(2) drop_nodes_def image_iff)
  moreover have "node_ids g2 = node_ids g1" using m mark_parallel_ids by (auto simp: addParallelPaths_def Let_def)
  moreover have "pruneLeafNodes env ?eval baseline g e1 w1 = (pruned, g1, e2, w2)" using p by (simp add: pruneLeafNodes_def ks_def Let_def)
  then have "af_NodesRemoved res = pruned" "g' = g2" using af_Optimize_result [where eval = ?eval, OF b [unfolded q] _ m] assms(6) by auto
  ultimately show ?thesis using leaves by simp
qed

lemma aflow_cuts_all_leaves_witness:
  "\<exists>res g e w. af_Optimize still_env (rubric_evaluate (se_clock still_env) None) two_steps default_evaluator () = (Inr res, g, e, w) \<and>
     set (af_NodesRemoved res) = {''store''} \<and> node_ids g = {''fetch''}"
proof -
  obtain r g e w where run: "af_Optimize still_env (rubric_evaluate (se_clock still_env) None) two_steps default_evaluator () = (r, g, e, w)"
    by (rule prod_cases4)
  obtain res where r: "r = Inr res"
    using run rubric_answers [of "se_clock still_env" None two_steps default_evaluator "()"]
    by (auto simp: af_Optimize_def Let_def split: prod.splits sum.splits)
  have inv: "wg_inv two_steps" by (auto simp: wg_inv_def two_steps_def wf_map_def mget_def plain_node_def split: if_splits)
  have small: "length (wg_Nodes two_steps) + length (wg_Edges two_steps) \<le> 50" "counted_runs (wg_Metrics two_steps)"
    using sample_counted by (simp_all add: two_steps_def)
  have l: "leaves two_steps = {''store''}" "node_ids two_steps = {''fetch'', ''store''}"
    by (auto simp: leaves_def node_ids_def two_steps_def)
  have "set (af_NodesRemoved res) = leaves two_steps \<and> node_ids g = node_ids two_steps - leaves two_steps"
    by (rule aflow_cuts_all_leaves [OF inv small(2,1) sample_rubric _ run [unfolded r]]) (simp add: still_env_def)
  with run r show ?thesis unfolding l by auto
qed

end
