(* ===== verification/Self_Evaluation.thy ===== *)
theory Self_Evaluation
  imports Model_Router Self_Healer Float_Near
begin

text \<open>
  \<open>pkg/uiauto/self_evaluator.go\<close> and the indicators of \<open>pkg/uiauto/learning_loop.go\<close>: the agent's counters
  become an effectiveness score, the score adjusts the confidence of the stored patterns and is
  compared with targets. The agent is the record of the counters that the evaluator reads.
\<close>

section \<open>The score\<close>

record agent_metrics =
  ag_Executor :: executor_metrics
  ag_Router :: router_metrics
  ag_Healer :: healer_metrics

record effectiveness =
  es_Timestamp :: time
  es_ActionSuccessRate :: f64
  es_CacheHitRate :: f64
  es_HealSuccessRate :: f64
  es_HealFrequency :: f64
  es_HealMethodBreakdown :: "(string, f64) gomap"
  es_TierDistribution :: "(string, f64) gomap"
  es_PromotionRate :: f64
  es_DemotionRate :: f64
  es_EstimatedCostUSD :: f64
  es_OverallScore :: f64

record cost_config =
  LightCostPerAction :: f64
  SmartCostPerAction :: f64
  VLMCostPerAction :: f64

definition DefaultCostConfig :: cost_config where
  "DefaultCostConfig = \<lparr>LightCostPerAction = flit (1 / 10000), SmartCostPerAction = flit (3 / 1000), VLMCostPerAction = flit (1 / 100)\<rparr>"

record self_evaluator =
  sv_costs :: cost_config
  sv_history :: "effectiveness list"
  sv_maxHist :: nat
  sv_startTime :: time

definition NewSelfEvaluator :: "cost_config \<Rightarrow> time \<Rightarrow> self_evaluator" where
  "NewSelfEvaluator costs now = \<lparr>sv_costs = costs, sv_history = [], sv_maxHist = 1000, sv_startTime = now\<rparr>"

text \<open>\<open>Duration.Hours\<close>.\<close>

definition hours :: "duration \<Rightarrow> f64" where
  "hours d = (let hour = 60 * minute in
     fadd (f_of_int (go_div d hour)) (fdiv (f_of_int (d - hour * go_div d hour)) (flit (of_int hour))))"

definition share :: "int \<Rightarrow> int \<Rightarrow> f64" where
  "share n total_n = fdiv (f_of_int n) (f_of_int total_n)"

definition computeOverall :: "effectiveness \<Rightarrow> f64" where
  "computeOverall s =
     (let cheapScore = mget_or (flit 0) (es_TierDistribution s) ''light'';
          healFreqScore = (if flt (flit 0) (es_HealFrequency s) then fdiv (flit 1) (fadd (flit 1) (fdiv (es_HealFrequency s) (flit 10))) else flit 1)
      in fadd (fadd (fadd (fadd (fmul (es_ActionSuccessRate s) (flit (30 / 100))) (fmul (es_CacheHitRate s) (flit (15 / 100))))
           (fmul (es_HealSuccessRate s) (flit (25 / 100)))) (fmul cheapScore (flit (15 / 100)))) (fmul healFreqScore (flit (15 / 100))))"

definition score_of :: "cost_config \<Rightarrow> time \<Rightarrow> f64 \<Rightarrow> agent_metrics \<Rightarrow> effectiveness" where
  "score_of costs now elapsed agg =
     (let x = ag_Executor agg; r = ag_Router agg; h = ag_Healer agg;
          totalActions = xm_SuccessActions x + xm_FailedActions x;
          totalCache = xm_CacheHits x + xm_CacheMisses x;
          totalHeals = hm_FingerprintHeals h + hm_StructuralHeals h + hm_SmartLLMHeals h + hm_VLMHeals h;
          totalRouterAttempts = LightAttempts r + SmartAttempts r + VLMAttempts r;
          s = \<lparr>es_Timestamp = now,
            es_ActionSuccessRate = (if 0 < totalActions then share (xm_SuccessActions x) totalActions else flit 0),
            es_CacheHitRate = (if 0 < totalCache then share (xm_CacheHits x) totalCache else flit 0),
            es_HealSuccessRate = (if 0 < hm_TotalAttempts h then share (hm_SuccessfulHeals h) (hm_TotalAttempts h) else flit 0),
            es_HealFrequency = (if 0 < hm_TotalAttempts h then fdiv (f_of_int (hm_TotalAttempts h)) elapsed else flit 0),
            es_HealMethodBreakdown = (if 0 < totalHeals
              then [(''fingerprint'', share (hm_FingerprintHeals h) totalHeals), (''structural'', share (hm_StructuralHeals h) totalHeals),
                    (''smart_llm'', share (hm_SmartLLMHeals h) totalHeals), (''vlm'', share (hm_VLMHeals h) totalHeals)] else []),
            es_TierDistribution = (if 0 < totalRouterAttempts
              then [(''light'', share (LightAttempts r) totalRouterAttempts), (''smart'', share (SmartAttempts r) totalRouterAttempts),
                    (''vlm'', share (VLMAttempts r) totalRouterAttempts)] else []),
            es_PromotionRate = (if 0 < ActionCount r then share (Promotions r) (ActionCount r) else flit 0),
            es_DemotionRate = (if 0 < ActionCount r then share (Demotions r) (ActionCount r) else flit 0),
            es_EstimatedCostUSD = fadd (fadd (fmul (f_of_int (LightAttempts r)) (LightCostPerAction costs))
              (fmul (f_of_int (SmartAttempts r)) (SmartCostPerAction costs))) (fmul (f_of_int (VLMAttempts r)) (VLMCostPerAction costs)),
            es_OverallScore = flit 0\<rparr>
      in s\<lparr>es_OverallScore := computeOverall s\<rparr>)"

text \<open>A bounded history keeps its last entries.\<close>

definition keep_last :: "nat \<Rightarrow> 'a list \<Rightarrow> 'a list" where
  "keep_last n xs = (if n < length xs then drop (length xs - n) xs else xs)"

definition elapsed_hours :: "time \<Rightarrow> time \<Rightarrow> f64" where
  "elapsed_hours now start = (let e = hours (time_sub now start) in if flt e (flit (1 / 1000)) then flit (1 / 1000) else e)"

definition sv_Evaluate :: "time \<Rightarrow> agent_metrics \<Rightarrow> self_evaluator \<Rightarrow> effectiveness \<times> self_evaluator" where
  "sv_Evaluate now agg e =
     (let s = score_of (sv_costs e) now (elapsed_hours now (sv_startTime e)) agg
      in (s, e\<lparr>sv_history := keep_last (sv_maxHist e) (sv_history e @ [s])\<rparr>))"

definition Latest :: "self_evaluator \<Rightarrow> effectiveness option" where
  "Latest e = (if sv_history e = [] then None else Some (last (sv_history e)))"

definition sv_History :: "int \<Rightarrow> self_evaluator \<Rightarrow> effectiveness list outcome" where
  "sv_History n e =
     (let n = (if int (length (sv_history e)) < n then int (length (sv_history e)) else n)
      in if n < 0 then Panicked else Returned (drop (length (sv_history e) - nat n) (sv_history e)))"

definition FeedbackToTracker :: "('p, 's) store_ops \<Rightarrow> time \<Rightarrow> self_evaluator \<Rightarrow> 's \<Rightarrow> 's" where
  "FeedbackToTracker ops now e store =
     (case Latest e of None \<Rightarrow> store
      | Some s \<Rightarrow>
          if flt (flit 5) (es_HealFrequency s) then snd (op_Decay ops now (24 * 60 * minute) (flit (9 / 10)) store)
          else if flt (flit (95 / 100)) (es_ActionSuccessRate s) \<and> flt (es_HealFrequency s) (flit 1)
          then snd (op_Decay ops now 0 (flit (105 / 100)) store)
          else store)"

text \<open>\<open>SaveHistory\<close> and \<open>LoadHistory\<close>; a history that JSON cannot hold (a NaN) is an error of the encoder.\<close>

definition SaveHistory :: "(effectiveness list \<Rightarrow> string + 'd) \<Rightarrow> string \<Rightarrow> self_evaluator \<Rightarrow> 'd disk \<Rightarrow> (string + fs_error option) \<times> 'd disk" where
  "SaveHistory enc path e d =
     (case enc (sv_history e) of
        Inl err \<Rightarrow> (Inl err, d)
      | Inr data \<Rightarrow> (case WriteFile path data d of (r, d) \<Rightarrow> (Inr r, d)))"

definition LoadHistory :: "('d \<Rightarrow> string + effectiveness list) \<Rightarrow> string \<Rightarrow> self_evaluator \<Rightarrow> 'd disk \<Rightarrow> (string + fs_error option) \<times> self_evaluator \<times> 'd disk" where
  "LoadHistory dec path e d =
     (case ReadFile path d of
        (Inl err, d) \<Rightarrow> (Inr (Some err), e, d)
      | (Inr data, d) \<Rightarrow>
          (case dec data of Inl err \<Rightarrow> (Inl err, e, d) | Inr hist \<Rightarrow> (Inr None, e\<lparr>sv_history := hist\<rparr>, d)))"

section \<open>Indicators\<close>

record agent_kpi =
  kp_Name :: string
  kp_Description :: string
  kp_Current :: f64
  kp_Target :: f64
  kp_AlertBelow :: f64
  kp_Unit :: string

type_synonym kpi_framework = "(string, agent_kpi) gomap"

definition kpi :: "string \<Rightarrow> string \<Rightarrow> rat \<Rightarrow> rat \<Rightarrow> string \<Rightarrow> string \<times> agent_kpi" where
  "kpi name descr target alert unit = (name, \<lparr>kp_Name = name, kp_Description = descr, kp_Current = flit 0, kp_Target = flit target,
     kp_AlertBelow = flit alert, kp_Unit = unit\<rparr>)"

definition NewKPIFramework :: kpi_framework where
  "NewKPIFramework =
     [kpi ''action_success_rate'' ''Percentage of UI actions that succeed'' (95 / 100) (80 / 100) ''ratio'',
      kpi ''cache_hit_rate'' ''Pattern cache hit rate'' (70 / 100) (40 / 100) ''ratio'',
      kpi ''heal_success_rate'' ''Self-healing success rate'' (80 / 100) (50 / 100) ''ratio'',
      kpi ''cost_per_action'' ''Average LLM cost per action'' (1 / 1000) 0 ''usd'',
      kpi ''overall_score'' ''Composite effectiveness score'' (80 / 100) (50 / 100) ''ratio'',
      kpi ''heal_frequency'' ''Healing events per hour (lower is better)'' 2 0 ''per_hour'']"

definition setKPI :: "string \<Rightarrow> f64 \<Rightarrow> kpi_framework \<Rightarrow> kpi_framework" where
  "setKPI name v kf = (case mget kf name of None \<Rightarrow> kf | Some k \<Rightarrow> mset_at kf name (k\<lparr>kp_Current := v\<rparr>))"

definition UpdateFromScore :: "effectiveness \<Rightarrow> kpi_framework \<Rightarrow> kpi_framework" where
  "UpdateFromScore s kf =
     (let kf = setKPI ''action_success_rate'' (es_ActionSuccessRate s) kf;
          kf = setKPI ''cache_hit_rate'' (es_CacheHitRate s) kf;
          kf = setKPI ''heal_success_rate'' (es_HealSuccessRate s) kf;
          kf = setKPI ''cost_per_action'' (es_EstimatedCostUSD s) kf;
          kf = setKPI ''overall_score'' (es_OverallScore s) kf
      in setKPI ''heal_frequency'' (es_HealFrequency s) kf)"

definition GetKPI :: "string \<Rightarrow> kpi_framework \<Rightarrow> agent_kpi option" where
  "GetKPI name kf = mget kf name"

text \<open>\<open>visit\<close> is the order in which Go visits the map.\<close>

definition Alerts :: "(kpi_framework \<Rightarrow> kpi_framework) \<Rightarrow> kpi_framework \<Rightarrow> agent_kpi list" where
  "Alerts visit kf = filter (\<lambda>k. flt (flit 0) (kp_AlertBelow k) \<and> flt (kp_Current k) (kp_AlertBelow k)) (map snd (visit kf))"

definition OnTarget :: "kpi_framework \<Rightarrow> bool" where
  "OnTarget kf \<longleftrightarrow> (\<forall>(_, k) \<in> set kf.
     if kp_Unit k = ''per_hour'' \<or> kp_Unit k = ''usd'' then \<not> flt (kp_Target k) (kp_Current k) else \<not> flt (kp_Current k) (kp_Target k))"

section \<open>Bounds of the score\<close>

lemma in_range_add_up:
  assumes "in_range 0 a x" "in_range 0 b y" "fadd (Fin a) (Fin b) = Fin c" "a + b \<le> 2 ^ 53"
  shows "in_range 0 c (fadd x y)"
proof -
  obtain p q where pq: "x = Fin p" "0 \<le> p" "p \<le> a" "y = Fin q" "0 \<le> q" "q \<le> b" using assms(1,2) by (auto elim!: in_range_cases)
  have "f64_of_rat (p + q) = Fin (rnd (p + q))" "f64_of_rat (a + b) = Fin (rnd (a + b))" using pq assms(4) by (auto intro!: f64_of_rat_Fin)
  with assms(3) have "c = rnd (a + b)" "fadd x y = Fin (rnd (p + q))" by (simp_all add: pq)
  moreover have "rnd (p + q) \<le> rnd (a + b)" "0 \<le> rnd (p + q)" using pq by (auto intro: rnd_mono)
  ultimately show ?thesis by simp
qed

lemma in_range_weighted: "unit_f x \<Longrightarrow> dbl w \<Longrightarrow> 0 \<le> w \<Longrightarrow> in_range 0 w (fmul x (Fin w))"
  by (rule in_range_mul [of 0 1 x w w]) (auto simp: dbl_def)

abbreviation w30 :: rat where "w30 \<equiv> 5404319552844595 / 18014398509481984"
abbreviation w15 :: rat where "w15 \<equiv> 5404319552844595 / 36028797018963968"

lemma weights: "flit (30 / 100) = Fin w30" "flit (15 / 100) = Fin w15" "flit (25 / 100) = Fin (1 / 4)"
proof -
  show "flit (30 / 100) = Fin w30" using rnd_nearest [of "- 54" "30 / 100" 5404319552844595] by (simp add: f64_of_rat_Fin pow2_def)
  show "flit (15 / 100) = Fin w15" using rnd_nearest [of "- 55" "15 / 100" 5404319552844595] by (simp add: f64_of_rat_Fin pow2_def)
  show "flit (25 / 100) = Fin (1 / 4)" using rnd_exact [of 1 "- 2"] by (simp add: f64_of_rat_Fin pow2_def)
qed

lemma dbl_score_weights: "dbl w30" "dbl w15" "dbl (1 / 4)"
  using dblI [of w30 5404319552844595 "- 54"] dblI [of w15 5404319552844595 "- 55"] dblI [of "1 / 4" 1 "- 2"]
  by (simp_all add: pow2_def)

text \<open>The first sum lies between two doubles and is rounded to the even one.\<close>

lemma first_sum: "fadd (Fin w30) (Fin w15) = Fin (2026619832316723 / 4503599627370496)"
proof -
  have log: "flog2 (w30 + w15) = - 2" by code_simp
  have "rne (16212958658533785 / 2) = 8106479329266892" by code_simp
  then have "rnd_pos (w30 + w15) = 2026619832316723 / 4503599627370496"
    by (simp add: rnd_pos_def ulp_exp_def log [simplified] pow2_def Let_def)
  then show ?thesis by (simp add: f64_of_rat_Fin rnd_def)
qed

lemma overall_sums:
  "fadd (Fin (2026619832316723 / 4503599627370496)) (Fin (1 / 4)) = Fin (3152519739159347 / 4503599627370496)"
  "fadd (Fin (3152519739159347 / 4503599627370496)) (Fin w15) = Fin (7656119366529843 / 9007199254740992)"
  "fadd (Fin (7656119366529843 / 9007199254740992)) (Fin w15) = Fin 1"
  using rnd_nearest [of "- 53" "2026619832316723 / 4503599627370496 + 1 / 4" 6305039478318694]
    rnd_nearest [of "- 53" "3152519739159347 / 4503599627370496 + w15" 7656119366529843]
    rnd_nearest [of "- 53" "7656119366529843 / 9007199254740992 + w15" 9007199254740992]
  by (simp_all add: pow2_def f64_of_rat_Fin)

lemma weighted_sum_unit:
  assumes "unit_f a" "unit_f b" "unit_f c" "unit_f d" "unit_f e"
  shows "unit_f (fadd (fadd (fadd (fadd (fmul a (flit (30 / 100))) (fmul b (flit (15 / 100)))) (fmul c (flit (25 / 100)))) (fmul d (flit (15 / 100))))
    (fmul e (flit (15 / 100))))"
proof -
  have w: "in_range 0 w30 (fmul a (Fin w30))" "in_range 0 w15 (fmul b (Fin w15))" "in_range 0 (1 / 4) (fmul c (Fin (1 / 4)))"
    "in_range 0 w15 (fmul d (Fin w15))" "in_range 0 w15 (fmul e (Fin w15))"
    using assms dbl_score_weights by (intro in_range_weighted; simp)+
  from in_range_add_up [OF w(1,2) first_sum]
  have "in_range 0 (2026619832316723 / 4503599627370496) (fadd (fmul a (Fin w30)) (fmul b (Fin w15)))" by simp
  from in_range_add_up [OF this w(3) overall_sums(1)]
  have "in_range 0 (3152519739159347 / 4503599627370496) (fadd (fadd (fmul a (Fin w30)) (fmul b (Fin w15))) (fmul c (Fin (1 / 4))))" by simp
  from in_range_add_up [OF this w(4) overall_sums(2)]
  have "in_range 0 (7656119366529843 / 9007199254740992)
    (fadd (fadd (fadd (fmul a (Fin w30)) (fmul b (Fin w15))) (fmul c (Fin (1 / 4)))) (fmul d (Fin w15)))" by simp
  from in_range_add_up [OF this w(5) overall_sums(3)] show ?thesis unfolding weights by simp
qed

text \<open>The counters of an agent that ran for less than a trillion actions.\<close>

definition plausible :: "agent_metrics \<Rightarrow> bool" where
  "plausible agg \<longleftrightarrow> (let x = ag_Executor agg; r = ag_Router agg; h = ag_Healer agg in
     0 \<le> xm_SuccessActions x \<and> 0 \<le> xm_FailedActions x \<and> xm_SuccessActions x + xm_FailedActions x \<le> 2 ^ 40 \<and>
     0 \<le> xm_CacheHits x \<and> 0 \<le> xm_CacheMisses x \<and> xm_CacheHits x + xm_CacheMisses x \<le> 2 ^ 40 \<and>
     0 \<le> hm_SuccessfulHeals h \<and> hm_SuccessfulHeals h \<le> hm_TotalAttempts h \<and> hm_TotalAttempts h \<le> 2 ^ 40 \<and>
     0 \<le> LightAttempts r \<and> 0 \<le> SmartAttempts r \<and> 0 \<le> VLMAttempts r \<and> LightAttempts r + SmartAttempts r + VLMAttempts r \<le> 2 ^ 40)"

lemma share_unit: "0 \<le> n \<Longrightarrow> n \<le> k \<Longrightarrow> 0 < k \<Longrightarrow> k \<le> 2 ^ 40 \<Longrightarrow> unit_f (share n k)"
  using frac_unit [of n k] by (simp add: share_def)

lemma hours_finite: "\<exists>q. hours (time_sub now start) = Fin q"
proof -
  define d where "d = time_sub now start"
  have d: "min_int64 \<le> d" "d \<le> max_int64" by (auto simp: d_def time_sub_def)
  define k where "k = go_div d (60 * minute)"
  define r where "r = d - (60 * minute) * k"
  have bounds: "\<bar>k\<bar> \<le> 2 ^ 50" "\<bar>r\<bar> \<le> 2 ^ 50"
    using d unfolding k_def r_def go_div_def by (auto simp: abs_if sgn_if split: if_splits)
  then have fin: "f_of_int k = Fin (of_int k)" "f_of_int r = Fin (of_int r)" by (auto intro!: f_of_int_exact)
  have h: "flit (of_int (60 * minute)) = Fin (of_int (60 * minute))" using f_of_int_exact [of "60 * minute"] by (simp add: f_of_int_def)
  have q: "\<bar>of_int r / of_int (60 * minute)\<bar> \<le> (2 ^ 50 :: rat)"
  proof -
    have "\<bar>(of_int r :: rat)\<bar> \<le> of_int (2 ^ 50)" using bounds(2) by (simp only: of_int_abs [symmetric] of_int_le_iff)
    then show ?thesis by (simp add: abs_divide)
  qed
  have "\<bar>(of_int k :: rat)\<bar> \<le> of_int (2 ^ 50)" using bounds(1) by (simp only: of_int_abs [symmetric] of_int_le_iff)
  moreover have "rnd (of_int r / of_int (60 * minute)) \<le> 2 ^ 50" "- (2 ^ 50) \<le> rnd (of_int r / of_int (60 * minute))"
    using q rnd_mono [of "of_int r / of_int (60 * minute)" "of_int (2 ^ 50)"] rnd_mono [of "of_int (- (2 ^ 50))" "of_int r / of_int (60 * minute)"]
      rnd_of_int [of "2 ^ 50"] rnd_of_int [of "- (2 ^ 50)"] by simp_all
  ultimately have "\<bar>of_int k + rnd (of_int r / of_int (60 * minute))\<bar> \<le> (2 ^ 53 :: rat)" by simp
  moreover have "hours d = fadd (f_of_int k) (fdiv (f_of_int r) (flit (of_int (60 * minute))))"
    by (simp only: hours_def Let_def k_def r_def)
  moreover have "f64_of_rat (of_int r / of_int (60 * minute)) = Fin (rnd (of_int r / of_int (60 * minute)))"
    using q by (intro f64_of_rat_Fin) simp
  ultimately show ?thesis unfolding d_def [symmetric] fin h by (simp add: f64_of_rat_Fin)
qed

lemma frequency_score_unit:
  assumes "0 < n" "n \<le> 2 ^ 40" "elapsed = elapsed_hours now start"
  shows "unit_f (fdiv (flit 1) (fadd (flit 1) (fdiv (fdiv (f_of_int n) elapsed) (flit 10))))"
proof -
  obtain q where q: "hours (time_sub now start) = Fin q" using hours_finite by blast
  have lo: "rnd (1 / 1000) \<le> rnd 1" "near ulp (flit (1 / 1000)) (1 / 1000)" by (rule rnd_mono, simp) (rule near_lit, simp)
  obtain m where m': "flit (1 / 1000) = Fin m" "\<bar>m - 1 / 1000\<bar> \<le> ulp" using lo(2) by (auto simp: near_def)
  from m'(2) have "1 / 1000 - ulp \<le> m" by linarith
  with m'(1) have m: "flit (1 / 1000) = Fin m" "1 / 2000 \<le> m" by simp_all
  obtain b where b: "elapsed = Fin b" "1 / 2000 \<le> b"
    using m by (cases "q < m") (simp_all add: assms(3) elapsed_hours_def q Let_def)
  have n: "f_of_int n = Fin (of_int n)" using assms by (intro f_of_int_exact) simp
  have nn: "(of_int n :: rat) \<le> of_int (2 ^ 40)" using assms(2) by (simp only: of_int_le_iff)
  have "of_int n / b \<le> 2 ^ 40 / (1 / 2000 :: rat)" using b nn assms(1) by (intro frac_le) simp_all
  then have x: "0 \<le> of_int n / b" "of_int n / b \<le> of_int (2 ^ 52)" using assms(1) b by simp_all
  define f where "f = rnd (of_int n / b)"
  have f: "0 \<le> f" "f \<le> 2 ^ 52" using x rnd_mono [OF x(2)] rnd_of_int [of "2 ^ 52"] by (simp_all add: f_def)
  have fin: "fdiv (f_of_int n) elapsed = Fin f" using b x by (simp add: n f_def f64_of_rat_Fin)
  have t10: "flit 10 = Fin 10" by (rule ten)
  have t1: "flit 1 = Fin 1" using f_of_int_exact [of 1] by (simp add: f_of_int_def)
  define s where "s = rnd (f / 10)"
  have s: "0 \<le> s" "s \<le> 2 ^ 52" using f rnd_mono [of "f / 10" "of_int (2 ^ 52)"] rnd_of_int [of "2 ^ 52"] by (simp_all add: s_def)
  have sum: "fadd (Fin 1) (Fin s) = Fin (rnd (1 + s))" "1 \<le> rnd (1 + s)"
    using s rnd_mono [of 1 "1 + s"] by (simp_all add: f64_of_rat_Fin)
  have "fdiv (Fin f) (Fin 10) = Fin s" using f by (simp add: s_def f64_of_rat_Fin)
  moreover have "unit_f (fdiv (Fin 1) (Fin (rnd (1 + s))))"
  proof -
    have "0 \<le> 1 / rnd (1 + s)" "1 / rnd (1 + s) \<le> 1" "rnd (1 + s) \<noteq> 0" using sum(2) by simp_all
    then show ?thesis using unit_f64_of_rat [of "1 / rnd (1 + s)"] by simp
  qed
  ultimately show ?thesis by (simp only: fin t10 t1 sum)
qed

lemma plausible_score:
  assumes "plausible agg"
  shows "unit_f (es_OverallScore (fst (sv_Evaluate now agg e)))"
proof -
  let ?x = "ag_Executor agg" and ?r = "ag_Router agg" and ?h = "ag_Healer agg"
  have c: "0 \<le> xm_SuccessActions ?x" "0 \<le> xm_FailedActions ?x" "xm_SuccessActions ?x + xm_FailedActions ?x \<le> 2 ^ 40"
    "0 \<le> xm_CacheHits ?x" "0 \<le> xm_CacheMisses ?x" "xm_CacheHits ?x + xm_CacheMisses ?x \<le> 2 ^ 40"
    "0 \<le> hm_SuccessfulHeals ?h" "hm_SuccessfulHeals ?h \<le> hm_TotalAttempts ?h" "hm_TotalAttempts ?h \<le> 2 ^ 40"
    "0 \<le> LightAttempts ?r" "0 \<le> SmartAttempts ?r" "0 \<le> VLMAttempts ?r" "LightAttempts ?r + SmartAttempts ?r + VLMAttempts ?r \<le> 2 ^ 40"
    using assms by (simp_all add: plausible_def Let_def)
  define s where "s = score_of (sv_costs e) now (elapsed_hours now (sv_startTime e)) agg"
  have z: "unit_f (flit 0)" by (simp add: zero_f)
  have a: "unit_f (es_ActionSuccessRate s)" "unit_f (es_CacheHitRate s)" "unit_f (es_HealSuccessRate s)"
    using c z by (auto simp: s_def score_of_def Let_def intro!: share_unit)
  have t: "unit_f (mget_or (flit 0) (es_TierDistribution s) ''light'')"
    using c z by (auto simp: s_def score_of_def Let_def mget_or_def mget_def intro!: share_unit)
  have f: "es_HealFrequency s = flit 0 \<or> (0 < hm_TotalAttempts ?h \<and>
      es_HealFrequency s = fdiv (f_of_int (hm_TotalAttempts ?h)) (elapsed_hours now (sv_startTime e)))"
    by (simp add: s_def score_of_def Let_def)
  have one: "unit_f (flit 1)" using f_of_int_exact [of 1] by (simp add: f_of_int_def)
  have fs: "unit_f (if flt (flit 0) (es_HealFrequency s) then fdiv (flit 1) (fadd (flit 1) (fdiv (es_HealFrequency s) (flit 10))) else flit 1)"
    using f one frequency_score_unit [OF _ c(9) refl, of now "sv_startTime e"] by (auto simp: flt_def)
  have "es_OverallScore (fst (sv_Evaluate now agg e)) = computeOverall s"
    by (simp add: sv_Evaluate_def s_def score_of_def computeOverall_def Let_def)
  then show ?thesis using weighted_sum_unit [OF a t fs] by (simp add: computeOverall_def Let_def)
qed

text \<open>The counters of an executor, a router and a healer that have run, as the evaluator reads them between two operations.\<close>

lemma run_plausible:
  assumes "xm_inv (ag_Executor agg)" "metrics_ok (ag_Router agg)" "balanced (ag_Healer agg)"
    "xm_TotalActions (ag_Executor agg) \<le> 2 ^ 40" "hm_TotalAttempts (ag_Healer agg) \<le> 2 ^ 40"
    "LightAttempts (ag_Router agg) + SmartAttempts (ag_Router agg) + VLMAttempts (ag_Router agg) \<le> 2 ^ 40"
  shows "plausible agg"
  using assms by (simp add: plausible_def Let_def xm_inv_def metrics_ok_def balanced_def)

text \<open>C32: the overall score lies between 0 and 1 in rounded doubles, however long the agent has run, whatever batches its
  executor, actions its router and heals and scans its healer have run, and with whatever results, as long
  as each of the three has counted at most \<open>2 ^ 40\<close> times; the evaluator reads the counters between two
  operations.\<close>

theorem overall_score_unit:
  assumes "ag_Executor agg = ex_metrics (snd (foldl (\<lambda>(_, st) (stop, as). le_ExecuteBatch ops br xenv xcfg stop as st)
       (b0, \<lparr>ex_world = xw, ex_tracker = xt, ex_metrics = zero_executor_metrics\<rparr>) batches))"
    "ag_Router agg = mr_metrics (fst (snd (ExecuteBatch renv actions (NewModelRouter c p bandit) rw)))"
    "ag_Healer agg = hs_metrics (foldl (heal_do h) (NewSelfHealer hnow hw ht) hcs)"
    "xm_TotalActions (ag_Executor agg) \<le> 2 ^ 40" "hm_TotalAttempts (ag_Healer agg) \<le> 2 ^ 40"
    "LightAttempts (ag_Router agg) + SmartAttempts (ag_Router agg) + VLMAttempts (ag_Router agg) \<le> 2 ^ 40"
  shows "unit_f (es_OverallScore (fst (sv_Evaluate now agg e)))"
proof (rule plausible_score, rule run_plausible [OF _ _ _ assms(4-6)])
  show "xm_inv (ag_Executor agg)" unfolding assms(1) by (rule batches_xm_inv)
  obtain errs r w' where run: "ExecuteBatch renv actions (NewModelRouter c p bandit) rw = (errs, r, w')" by (rule prod_cases3)
  from ExecuteBatch_ok [OF mr_ok_new run] show "metrics_ok (ag_Router agg)" by (simp add: assms(2) run mr_ok_def)
  show "balanced (ag_Healer agg)" unfolding assms(3)
    by (rule balanced_run) (simp add: NewSelfHealer_def zero_healer_metrics_def balanced_def level_heals_def)
qed

definition busy_agent :: agent_metrics where
  "busy_agent = \<lparr>ag_Executor = zero_executor_metrics\<lparr>xm_SuccessActions := 9, xm_FailedActions := 1\<rparr>, ag_Router = zero_metrics\<lparr>LightAttempts := 10\<rparr>,
     ag_Healer = zero_healer_metrics\<rparr>"

text \<open>An agent whose executor ran a batch on an empty tracker, whose router tried an action and whose healer tried two targets.\<close>

definition tried_agent :: agent_metrics where
  "tried_agent = \<lparr>ag_Executor = ex_metrics (snd (le_ExecuteBatch (ui_ops id (Pair None)) blind_browser plain_clock default_executor_config
        False [click_go] \<lparr>ex_world = 0, ex_tracker = blank_tracker, ex_metrics = zero_executor_metrics\<rparr>)),
     ag_Router = mr_metrics (fst (snd (ExecuteBatch down_env [click_login] (NewModelRouter None None None) 0))),
     ag_Healer = hs_metrics (foldl (heal_do go_healer) (NewSelfHealer 0 0 blank_tracker) [HealOne ''go'', HealMany [''login'']])\<rparr>"

lemma overall_score_unit_witness:
  "hm_TotalAttempts (ag_Healer tried_agent) = 2 \<and>
   unit_f (es_OverallScore (fst (sv_Evaluate 0 tried_agent (NewSelfEvaluator DefaultCostConfig 0))))"
proof -
  have "xm_TotalActions (ex_metrics (snd (execute (ui_ops id (Pair None)) blind_browser plain_clock default_executor_config None click_go
      \<lparr>ex_world = 0, ex_tracker = blank_tracker, ex_metrics = zero_executor_metrics\<rparr>))) = 1"
    by (subst execute.simps) (simp add: plain_clock_def click_go_def ui_ops_def us_Get_def blank_tracker_def finish_def xm_record_def
        zero_executor_metrics_def Let_def)
  then have x: "xm_TotalActions (ag_Executor tried_agent) = 1"
    by (simp add: tried_agent_def le_ExecuteBatch_def ctx_err_def plain_clock_def case_prod_beta Let_def)
  have r: "LightAttempts (ag_Router tried_agent) + SmartAttempts (ag_Router tried_agent) + VLMAttempts (ag_Router tried_agent) = 3"
    by (simp add: tried_agent_def ExecuteAction_def cascadeExecution_def smartPath_def vlmPath_def NewModelRouter_def zero_metrics_def db_new_def
        db_allow_def down_env_def click_login_def count_action_def on_metrics_def on_phase_def Let_def)
  have h: "hm_TotalAttempts (ag_Healer tried_agent) = 2"
    by (simp add: tried_agent_def heal_do_def Heal_def go_healer_def ui_ops_def us_Get_def NewSelfHealer_def blank_tracker_def not_healed_def
        zero_healer_metrics_def Let_def)
  have "unit_f (es_OverallScore (fst (sv_Evaluate 0 tried_agent (NewSelfEvaluator DefaultCostConfig 0))))"
    by (rule overall_score_unit [where batches = "[(False, [click_go])]" and actions = "[click_login]" and hcs = "[HealOne ''go'', HealMany [''login'']]"])
      (use x r h in \<open>simp_all add: tried_agent_def\<close>)
  with h show ?thesis by simp
qed

section \<open>The feedback\<close>

lemma lit_pos: "1 / 100 \<le> r \<Longrightarrow> r \<le> 1 \<Longrightarrow> flt (flit 0) (flit r)"
  unfolding zero_f by (rule near_flt [of 0 "Fin 0" 0 ulp "flit r" r]) (simp_all add: near_lit_unit less_le_trans)

lemma lit_below_one: "0 \<le> r \<Longrightarrow> r \<le> 9 / 10 \<Longrightarrow> flt (flit r) (flit 1)"
  using f_of_int_exact [of 1] near_flt [of ulp "flit r" r 0 "Fin 1" 1] near_lit_unit [of r] by (simp add: f_of_int_def)

text \<open>a good score makes the confidence of every stored pattern grow by a twentieth, beyond 1: a pattern that is
  certain and was seen before has a confidence above 1 afterwards.\<close>

theorem feedback_exceeds_certainty:
  assumes "Latest e = Some s" "flt (flit (95 / 100)) (es_ActionSuccessRate s)" "flt (es_HealFrequency s) (flit 1)"
    "(k, p) \<in> set (us_patterns store)" "up_LastSeen p < now" "up_Confidence p = flit 1"
  shows "\<exists>p'. (k, p') \<in> set (us_patterns (FeedbackToTracker (ui_ops enc dec) now e store)) \<and> flt (flit 1) (up_Confidence p')"
proof -
  have one: "flit 1 = Fin 1" using f_of_int_exact [of 1] by (simp add: f_of_int_def)
  have five: "flit 5 = Fin 5" using f_of_int_exact [of 5] by (simp add: f_of_int_def)
  have "\<not> flt (flit 5) (es_HealFrequency s)" using assms(3) unfolding one five by (cases "es_HealFrequency s") (auto simp: flt_def)
  then have fb: "FeedbackToTracker (ui_ops enc dec) now e store = snd (us_Decay enc now 0 (flit (105 / 100)) store)"
    using assms(1-3) by (simp add: FeedbackToTracker_def ui_ops_def case_prod_beta)
  have tenth: "flt (flit (1 / 10)) (flit 1)" by (rule lit_below_one) simp_all
  have "near ulp (flit (105 / 100)) (105 / 100)" by (rule near_lit) simp
  then have "near (1 / 2 ^ 30) (fmul (flit 1) (flit (105 / 100))) (1 * (105 / 100))" unfolding one
    by (intro near_mono [OF near_mul [of 0 "Fin 1" 1 ulp _ "105 / 100" 1 2]]) simp_all
  then have big: "flt (flit 1) (fmul (flit 1) (flit (105 / 100)))" unfolding one
    using near_flt [of 0 "Fin 1" 1 "1 / 2 ^ 30" "fmul (Fin 1) (flit (105 / 100))" "1 * (105 / 100)"] by simp
  have "decays now p" using assms(5,6) tenth by (simp add: decays_def)
  then have "(k, p\<lparr>up_Confidence := fmul (up_Confidence p) (flit (105 / 100))\<rparr>) \<in> set (us_patterns (FeedbackToTracker (ui_ops enc dec) now e store))"
    using assms(4) unfolding fb us_Decay_patterns by (force simp: image_iff)
  with big assms(6) show ?thesis by (intro exI) (auto intro!: exI)
qed

definition sure_pattern :: ui_pattern where
  "sure_pattern = zero_ui_pattern\<lparr>up_ID := ''go'', up_Confidence := flit 1\<rparr>"

lemma sure_pattern_sels: "up_LastSeen sure_pattern = 0" "up_Confidence sure_pattern = flit 1"
  by (simp_all add: sure_pattern_def zero_ui_pattern_def)

definition sure_store :: "ui_patterns ui_store" where
  "sure_store = \<lparr>us_filePath = ''p.json'', us_patterns = [(''go'', sure_pattern)], us_disk = \<lparr>d_files = [], d_dirs = [], d_next = []\<rparr>\<rparr>"

definition good_score :: effectiveness where
  "good_score = (score_of DefaultCostConfig 0 (flit 1) busy_agent)\<lparr>es_ActionSuccessRate := flit 1\<rparr>"

lemma feedback_exceeds_certainty_witness:
  "\<exists>p'. (''go'', p') \<in> set (us_patterns (FeedbackToTracker (ui_ops id (Pair None)) 1 ((NewSelfEvaluator DefaultCostConfig 0)\<lparr>sv_history := [good_score]\<rparr>) sure_store)) \<and>
    flt (flit 1) (up_Confidence p')"
proof (rule feedback_exceeds_certainty [of _ good_score])
  show "Latest ((NewSelfEvaluator DefaultCostConfig 0)\<lparr>sv_history := [good_score]\<rparr>) = Some good_score" by (simp add: Latest_def)
  have "es_HealFrequency good_score = flit 0"
    by (simp add: good_score_def score_of_def busy_agent_def zero_healer_metrics_def Let_def)
  then show "flt (es_HealFrequency good_score) (flit 1)" by (simp add: lit_below_one)
  have "near ulp (flit (95 / 100)) (95 / 100)" by (rule near_lit) simp
  then have "flt (flit (95 / 100)) (Fin 1)" by (rule near_flt [where b = 1 and d = 0]) simp_all
  then show "flt (flit (95 / 100)) (es_ActionSuccessRate good_score)" using f_of_int_exact [of 1] by (simp add: good_score_def f_of_int_def)
  show "(''go'', sure_pattern) \<in> set (us_patterns sure_store)" by (simp add: sure_store_def)
qed (simp_all add: sure_pattern_sels)

section \<open>The indicators after an update\<close>

definition kpis_of :: "f64 \<Rightarrow> f64 \<Rightarrow> f64 \<Rightarrow> f64 \<Rightarrow> f64 \<Rightarrow> f64 \<Rightarrow> kpi_framework" where
  "kpis_of a c h cost overall freq = map (\<lambda>((name, k), v). (name, k\<lparr>kp_Current := v\<rparr>)) (zip NewKPIFramework [a, c, h, cost, overall, freq])"

lemma kpis_new: "NewKPIFramework = kpis_of (flit 0) (flit 0) (flit 0) (flit 0) (flit 0) (flit 0)"
  by (simp add: kpis_of_def NewKPIFramework_def kpi_def)

lemma kpis_update: "UpdateFromScore s (kpis_of a c h cost overall freq) = kpis_of (es_ActionSuccessRate s) (es_CacheHitRate s) (es_HealSuccessRate s)
    (es_EstimatedCostUSD s) (es_OverallScore s) (es_HealFrequency s)"
  by (simp add: kpis_of_def NewKPIFramework_def kpi_def UpdateFromScore_def setKPI_def mget_def mset_at_def Let_def)

lemma kpis_history: "\<exists>a c h cost overall freq. foldl (\<lambda>kf s. UpdateFromScore s kf) NewKPIFramework scores = kpis_of a c h cost overall freq"
proof (induction scores rule: rev_induct)
  case Nil
  show ?case unfolding foldl_Nil by (intro exI) (rule kpis_new)
next
  case (snoc s scores)
  then show ?case using kpis_update by fastforce
qed

text \<open>The alerts and the verdict on a framework as the code leaves it.\<close>

definition alerting :: "kpi_framework \<Rightarrow> string list" where
  "alerting kf = map kp_Name (filter (\<lambda>k. flt (flit 0) (kp_AlertBelow k) \<and> flt (kp_Current k) (kp_AlertBelow k)) (map snd kf))"

lemma set_if_single: "set (if P then [a] else []) = {n. n = a \<and> P}"
  by simp

lemma filter_if: "filter P (x # xs) = (if P x then [x] else []) @ filter P xs"
  by simp

lemma map_if: "map g (if P then [x] else []) = (if P then [g x] else [])"
  by simp

lemma alerting_kpis:
  assumes "flt (flit 0) (flit (80 / 100))" "flt (flit 0) (flit (40 / 100))" "flt (flit 0) (flit (50 / 100))" "\<not> flt (flit 0) (flit 0)"
  shows "alerting (kpis_of a c h cost overall freq) =
    (if flt a (flit (80 / 100)) then [''action_success_rate''] else []) @ (if flt c (flit (40 / 100)) then [''cache_hit_rate''] else []) @
    (if flt h (flit (50 / 100)) then [''heal_success_rate''] else []) @ (if flt overall (flit (50 / 100)) then [''overall_score''] else [])"
  unfolding alerting_def kpis_of_def NewKPIFramework_def kpi_def zip_Cons_Cons zip_Nil list.map prod.case snd_conv filter_if map_append
    map_if agent_kpi.simps
  by (simp only: assms agent_kpi.simps simp_thms if_True if_False append_Nil append_Nil2 filter.simps list.map)

lemma on_target_kpis: "OnTarget (kpis_of a c h cost overall freq) \<longleftrightarrow> \<not> flt a (flit (95 / 100)) \<and> \<not> flt c (flit (70 / 100)) \<and>
    \<not> flt h (flit (80 / 100)) \<and> \<not> flt (flit (1 / 1000)) cost \<and> \<not> flt overall (flit (80 / 100)) \<and> \<not> flt (flit 2) freq"
  by (simp add: OnTarget_def kpis_of_def NewKPIFramework_def kpi_def)

text \<open>after any history of updates the alerts are exactly those rates of the last score that are below their
  threshold, never the cost or the healing frequency, however high; the agent is on target exactly when the
  last score meets all six targets, where the cost compared with the target for one action is the total.\<close>

theorem kpi_verdict:
  assumes "\<And>kf. mset (visit kf) = mset kf"
  defines "kf s scores \<equiv> UpdateFromScore s (foldl (\<lambda>kf s. UpdateFromScore s kf) NewKPIFramework scores)"
  shows "kp_Name ` set (Alerts visit (kf s scores)) =
      {n. n = ''action_success_rate'' \<and> flt (es_ActionSuccessRate s) (flit (80 / 100)) \<or> n = ''cache_hit_rate'' \<and> flt (es_CacheHitRate s) (flit (40 / 100)) \<or>
        n = ''heal_success_rate'' \<and> flt (es_HealSuccessRate s) (flit (50 / 100)) \<or> n = ''overall_score'' \<and> flt (es_OverallScore s) (flit (50 / 100))} \<and>
    (OnTarget (kf s scores) \<longleftrightarrow> \<not> flt (es_ActionSuccessRate s) (flit (95 / 100)) \<and> \<not> flt (es_CacheHitRate s) (flit (70 / 100)) \<and>
      \<not> flt (es_HealSuccessRate s) (flit (80 / 100)) \<and> \<not> flt (flit (1 / 1000)) (es_EstimatedCostUSD s) \<and>
      \<not> flt (es_OverallScore s) (flit (80 / 100)) \<and> \<not> flt (flit 2) (es_HealFrequency s))"
proof -
  obtain a c h cost overall freq where "foldl (\<lambda>kf s. UpdateFromScore s kf) NewKPIFramework scores = kpis_of a c h cost overall freq"
    using kpis_history by metis
  then have kf: "kf s scores = kpis_of (es_ActionSuccessRate s) (es_CacheHitRate s) (es_HealSuccessRate s) (es_EstimatedCostUSD s)
      (es_OverallScore s) (es_HealFrequency s)" by (simp add: kf_def kpis_update)
  have pos: "flt (flit 0) (flit (80 / 100))" "flt (flit 0) (flit (40 / 100))" "flt (flit 0) (flit (50 / 100))" "\<not> flt (flit 0) (flit 0)"
    by (rule lit_pos; simp)+ (simp add: flt_def)
  have set_visit: "set (visit (kf s scores)) = set (kf s scores)" using assms(1) by (metis set_mset_mset)
  have "kp_Name ` set (Alerts visit (kf s scores)) = set (alerting (kf s scores))"
    by (simp add: Alerts_def alerting_def set_visit)
  then show ?thesis unfolding kf alerting_kpis [OF pos] on_target_kpis
    by (simp only: set_append set_if_single Collect_disj_eq Un_assoc simp_thms)
qed

lemma kpi_verdict_witness:
  "OnTarget (UpdateFromScore good_score (foldl (\<lambda>kf s. UpdateFromScore s kf) NewKPIFramework [good_score])) \<longleftrightarrow>
    \<not> flt (es_ActionSuccessRate good_score) (flit (95 / 100)) \<and> \<not> flt (es_CacheHitRate good_score) (flit (70 / 100)) \<and>
      \<not> flt (es_HealSuccessRate good_score) (flit (80 / 100)) \<and> \<not> flt (flit (1 / 1000)) (es_EstimatedCostUSD good_score) \<and>
      \<not> flt (es_OverallScore good_score) (flit (80 / 100)) \<and> \<not> flt (flit 2) (es_HealFrequency good_score)"
  using kpi_verdict [of id good_score "[good_score]"] by simp

end
