(* ===== verification/Learning_Loop.thy ===== *)
theory Learning_Loop
  imports Self_Evaluation Bandit Evolution_Engine Trace_Collector
begin

text \<open>
  \<open>pkg/uiauto/learning_loop.go\<close>: the loop that evaluates the agent, mines its counters for signals, evolves
  mutations and adjusts the pattern store; the file with the bandit's statistics; and the exchange of patterns
  between agents. The clock, the orders in which Go visits its maps and the encoders are parameters. A tick
  reads the agent's counters twice, \<open>agg\<close> for the score and \<open>agg'\<close> for the traces.
\<close>

section \<open>The loop\<close>

record loop_iteration =
  it_Timestamp :: time
  it_Score :: effectiveness
  it_Signals :: "signal list"
  it_Mutations :: "mutation list"
  it_Duration :: duration

record 'w learning_loop =
  ll_evaluator :: self_evaluator
  ll_miner :: signal_miner
  ll_engine :: "'w engine"
  ll_traceBridge :: "trace_bridge option"
  ll_bandit :: "contextual_bandit option"
  ll_banditStateDir :: string
  ll_history :: "loop_iteration list"
  ll_maxHist :: int

definition NewLearningLoop :: "self_evaluator \<Rightarrow> signal_miner \<Rightarrow> 'w engine \<Rightarrow> trace_bridge option \<Rightarrow> contextual_bandit option \<Rightarrow> string \<Rightarrow> int \<Rightarrow>
    'w learning_loop" where
  "NewLearningLoop ev miner engine bridge bandit dir maxHist = \<lparr>ll_evaluator = ev, ll_miner = miner, ll_engine = engine, ll_traceBridge = bridge,
     ll_bandit = bandit, ll_banditStateDir = dir, ll_history = [], ll_maxHist = (if maxHist \<le> 0 then 100 else maxHist)\<rparr>"

text \<open>The readings of the clock during a tick, in order; \<open>tk_bridge\<close> numbers those of the bridge.\<close>

record tick_times =
  tk_start :: time
  tk_eval :: time
  tk_traces :: time
  tk_bridge :: "nat \<Rightarrow> time"
  tk_mine :: time
  tk_feedback :: time
  tk_bandit :: time
  tk_end :: time

definition blank_loop_trace :: "time \<Rightarrow> string \<Rightarrow> nat \<Rightarrow> execution_trace" where
  "blank_loop_trace now pfx i = \<lparr>et_ID = pfx @ show_int (int i), et_TaskName = ''ui_action'', et_AgentID = [], et_StartTime = now - minute,
     et_EndTime = now, et_LatencyMs = flit 0, et_Success = False, et_ErrorMsg = [], et_ToolsCalled = [], et_PromptTokens = 0,
     et_CompTokens = 0, et_CostUSD = flit 0, et_ModelTier = [], et_Tags = [], et_Metadata = []\<rparr>"

definition metricsToTraces :: "time \<Rightarrow> agent_metrics \<Rightarrow> execution_trace list" where
  "metricsToTraces now agg =
     map (\<lambda>i. (blank_loop_trace now ''loop-fail-'' i)\<lparr>et_ErrorMsg := ''action execution failed''\<rparr>) [0 ..< nat (xm_FailedActions (ag_Executor agg))] @
     map (\<lambda>i. (blank_loop_trace now ''loop-ok-'' i)\<lparr>et_LatencyMs := f_of_int (xm_AvgLatencyMs (ag_Executor agg)), et_Success := True\<rparr>)
       [0 ..< nat (xm_SuccessActions (ag_Executor agg))]"

text \<open>What the bridge cannot record is only logged.\<close>

primrec forward :: "(nat \<Rightarrow> time) \<Rightarrow> nat \<Rightarrow> execution_trace list \<Rightarrow> trace_bridge \<Rightarrow> trace_bridge" where
  "forward clock n [] b = b"
| "forward clock n (t # ts) b = forward clock (n + 3) ts
     (snd (RecordUIAutoTrace (clock n) (clock (n + 1)) (clock (n + 2)) (et_TaskName t) (et_Success t) (et_LatencyMs t) (et_ToolsCalled t)
       [(''source'', ''learning_loop'')] b))"

section \<open>The statistics of the bandit\<close>

record bandit_snapshot =
  bs_Timestamp :: time
  bs_TotalPulls :: int
  bs_Contexts :: "(string, beta_posterior list) gomap"

definition snapshot_features :: "f64 \<Rightarrow> f64 \<Rightarrow> bool \<Rightarrow> features" where
  "snapshot_features complexity intensity testid = \<lparr>PageComplexity = complexity, SelectorCount = 0, PreviousFailures = 0,
     MutationIntensity = intensity, HasDataTestID = testid, IframeDepth = 0\<rparr>"

definition snapshot_keys :: "(string \<times> features) list" where
  "snapshot_keys =
     [(''low:stable'', snapshot_features (flit (1 / 10)) (flit 0) True), (''low:unstable'', snapshot_features (flit (1 / 10)) (flit (1 / 2)) False),
      (''mid:stable'', snapshot_features (flit (4 / 10)) (flit 0) True), (''mid:unstable'', snapshot_features (flit (4 / 10)) (flit (1 / 2)) False),
      (''high:stable'', snapshot_features (flit (7 / 10)) (flit 0) True), (''high:unstable'', snapshot_features (flit (7 / 10)) (flit (1 / 2)) False)]"

definition snapshot_of :: "time \<Rightarrow> contextual_bandit \<Rightarrow> bandit_snapshot" where
  "snapshot_of now b = \<lparr>bs_Timestamp = now, bs_TotalPulls = totalPulls b,
     bs_Contexts = foldl (\<lambda>m (key, f). if \<exists>p \<in> set (bandit_Stats f b). 0 < bp_Trials p then mset_at m key (bandit_Stats f b) else m) [] snapshot_keys\<rparr>"

datatype persist_error = MakeDir fs_error | Marshal string | Write fs_error

definition persistBanditState :: "(bandit_snapshot \<Rightarrow> string + 'd) \<Rightarrow> time \<Rightarrow> string \<Rightarrow> contextual_bandit \<Rightarrow> 'd disk \<Rightarrow> persist_error option \<times> 'd disk" where
  "persistBanditState enc now dir b d =
     (case MkdirAll dir d of
        (Some err, d) \<Rightarrow> (Some (MakeDir err), d)
      | (None, d) \<Rightarrow>
          (case enc (snapshot_of now b) of
             Inl err \<Rightarrow> (Some (Marshal err), d)
           | Inr data \<Rightarrow> (case WriteFile (join_path dir ''bandit-state.json'') data d of (r, d) \<Rightarrow> (map_option Write r, d))))"

section \<open>A tick\<close>

record ('w, 's, 'd) loop_env =
  le_engine :: "'w engine_env"
  le_errors :: "(string \<times> string list) list \<Rightarrow> (string \<times> string list) list"
  le_tasks :: "(string \<times> nat \<times> nat) list \<Rightarrow> (string \<times> nat \<times> nat) list"
  le_store :: "(ui_pattern, 's) store_ops"
  le_enc :: "bandit_snapshot \<Rightarrow> string + 'd"

definition Tick :: "('w, 's, 'd) loop_env \<Rightarrow> tick_times \<Rightarrow> agent_metrics \<Rightarrow> agent_metrics \<Rightarrow> 'w learning_loop \<Rightarrow> 's \<Rightarrow> 'd disk \<Rightarrow> 'w \<Rightarrow>
    loop_iteration \<times> 'w learning_loop \<times> 's \<times> 'd disk \<times> 'w" where
  "Tick env tk agg agg' l store d w =
     (let (score, ev) = sv_Evaluate (tk_eval tk) agg (ll_evaluator l);
          traces = metricsToTraces (tk_traces tk) agg';
          bridge = map_option (forward (tk_bridge tk) 0 traces) (ll_traceBridge l);
          (signals, miner) = Mine (le_errors env) (le_tasks env) (tk_mine tk) traces (ll_miner l);
          (mutations, engine, w) = (if signals = [] then ([], ll_engine l, w) else Evolve (le_engine env) signals (ll_engine l) w);
          store = FeedbackToTracker (le_store env) (tk_feedback tk) ev store;
          d = (case ll_bandit l of None \<Rightarrow> d
               | Some b \<Rightarrow> if ll_banditStateDir l = [] then d else snd (persistBanditState (le_enc env) (tk_bandit tk) (ll_banditStateDir l) b d));
          iter = \<lparr>it_Timestamp = tk_start tk, it_Score = score, it_Signals = signals, it_Mutations = mutations,
            it_Duration = time_sub (tk_end tk) (tk_start tk)\<rparr>
      in (iter, l\<lparr>ll_evaluator := ev, ll_miner := miner, ll_engine := engine, ll_traceBridge := bridge,
            ll_history := keep_last (nat (ll_maxHist l)) (ll_history l @ [iter])\<rparr>, store, d, w))"

definition ll_History :: "int \<Rightarrow> 'w learning_loop \<Rightarrow> loop_iteration list outcome" where
  "ll_History n l =
     (let n = (if int (length (ll_history l)) < n then int (length (ll_history l)) else n)
      in if n < 0 then Panicked else Returned (drop (length (ll_history l) - nat n) (ll_history l)))"

section \<open>The exchange of patterns\<close>

record pattern_export =
  pe_AgentID :: string
  pe_ExportedAt :: time
  pe_Patterns :: "ui_pattern list"
  pe_Metadata :: "(string, string) gomap"

definition os_IsNotExist :: "store_error \<Rightarrow> bool" where
  "os_IsNotExist e \<longleftrightarrow> e = IOError ''not exist''"

definition load_existing :: "(ui_pattern, 's) store_ops \<Rightarrow> 's \<Rightarrow> (store_error + ui_patterns) \<times> 's" where
  "load_existing ops s =
     (case op_Load ops s of
        (Inl e, s) \<Rightarrow> (if os_IsNotExist e then Inr [] else Inl e, s)
      | (Inr m, s) \<Rightarrow> (Inr m, s))"

definition ExportPatterns :: "(ui_patterns \<Rightarrow> ui_patterns) \<Rightarrow> time \<Rightarrow> string \<Rightarrow> (ui_pattern, 's) store_ops \<Rightarrow> 's \<Rightarrow>
    (store_error + pattern_export) \<times> 's" where
  "ExportPatterns visit now agentID ops s =
     (case load_existing ops s of
        (Inl e, s) \<Rightarrow> (Inl e, s)
      | (Inr m, s) \<Rightarrow> (Inr \<lparr>pe_AgentID = agentID, pe_ExportedAt = now, pe_Patterns = map snd (visit m), pe_Metadata = [(''version'', ''2.0'')]\<rparr>, s))"

definition SavePatternExport :: "(pattern_export \<Rightarrow> string + 'd) \<Rightarrow> pattern_export \<Rightarrow> string \<Rightarrow> 'd disk \<Rightarrow> (string + fs_error option) \<times> 'd disk" where
  "SavePatternExport enc ex path d =
     (case enc ex of Inl err \<Rightarrow> (Inl err, d) | Inr data \<Rightarrow> (case WriteFile path data d of (r, d) \<Rightarrow> (Inr r, d)))"

definition LoadPatternExport :: "('d \<Rightarrow> string + pattern_export) \<Rightarrow> string \<Rightarrow> 'd disk \<Rightarrow> (load_error + pattern_export) \<times> 'd disk" where
  "LoadPatternExport dec path d =
     (case ReadFile path d of
        (Inl e, d) \<Rightarrow> (Inl (LoadFs e), d)
      | (Inr data, d) \<Rightarrow> (case dec data of Inl err \<Rightarrow> (Inl (LoadJson err), d) | Inr ex \<Rightarrow> (Inr ex, d)))"

definition accepts :: "ui_patterns \<Rightarrow> ui_pattern \<Rightarrow> bool" where
  "accepts existing p \<longleftrightarrow> (case mget existing (up_ID p) of None \<Rightarrow> True | Some local \<Rightarrow> \<not> fle (up_Confidence p) (up_Confidence local))"

primrec import_loop :: "(ui_pattern, 's) store_ops \<Rightarrow> ui_patterns \<Rightarrow> ui_pattern list \<Rightarrow> nat \<Rightarrow> 's \<Rightarrow> (nat \<times> store_error option) \<times> 's" where
  "import_loop ops existing [] merged s = ((merged, None), s)"
| "import_loop ops existing (p # ps) merged s =
     (if \<not> accepts existing p then import_loop ops existing ps merged s
      else case op_Set ops p s of
        (Some e, s) \<Rightarrow> ((merged, Some e), s)
      | (None, s) \<Rightarrow> import_loop ops existing ps (merged + 1) s)"

definition ImportPatterns :: "(ui_pattern, 's) store_ops \<Rightarrow> pattern_export \<Rightarrow> 's \<Rightarrow> (nat \<times> store_error option) \<times> 's" where
  "ImportPatterns ops imported s =
     (case load_existing ops s of
        (Inl e, s) \<Rightarrow> ((0, Some e), s)
      | (Inr existing, s) \<Rightarrow> import_loop ops existing (pe_Patterns imported) 0 s)"

section \<open>What a tick reports\<close>

abbreviation loop_failures :: "int \<Rightarrow> string list" where
  "loop_failures n \<equiv> map (\<lambda>i. ''loop-fail-'' @ show_int (int i)) [0 ..< nat n]"

lemma add_same_failures: "msg \<noteq> [] \<Longrightarrow> foldl add_failure [] (map (\<lambda>i. (blank_loop_trace now pfx i)\<lparr>et_ErrorMsg := msg\<rparr>) [0 ..< Suc n]) =
    [(msg, map (\<lambda>i. pfx @ show_int (int i)) [0 ..< Suc n])]"
  by (induction n) (simp_all add: add_failure_def blank_loop_trace_def mset_at_def mget_or_def mget_def)

lemma add_no_failures: "\<forall>t \<in> set ts. et_Success t \<Longrightarrow> foldl add_failure m ts = m"
  by (induction ts arbitrary: m) (simp_all add: add_failure_def)

lemma loop_failures_grouped: "foldl add_failure [] (metricsToTraces now agg) =
    (if 0 < xm_FailedActions (ag_Executor agg) then [(''action execution failed'', loop_failures (xm_FailedActions (ag_Executor agg)))] else [])"
proof -
  define n where "n = nat (xm_FailedActions (ag_Executor agg))"
  have "foldl add_failure [] (metricsToTraces now agg) =
      foldl add_failure [] (map (\<lambda>i. (blank_loop_trace now ''loop-fail-'' i)\<lparr>et_ErrorMsg := ''action execution failed''\<rparr>) [0 ..< n])"
    unfolding metricsToTraces_def n_def foldl_append by (rule add_no_failures) auto
  also have "\<dots> = (if n = 0 then [] else [(''action execution failed'', map (\<lambda>i. ''loop-fail-'' @ show_int (int i)) [0 ..< n])])"
    using add_same_failures [of "''action execution failed''" now "''loop-fail-''" "n - 1"] by (cases n) simp_all
  finally show ?thesis by (auto simp: n_def)
qed

text \<open>C40: the agent's counters are never reset, and every tick turns all of them into traces: once the failed actions have
  reached the threshold, every tick reports all failures of the agent's life as one repeated failure, critical from
  twice the threshold on, whatever happened since the last tick and however many actions succeeded.\<close>

theorem tick_reports_all_failures:
  assumes "\<And>m. mset (le_errors env m) = mset m" "0 < mc_RepeatedFailureThreshold (sm_cfg (ll_miner l))"
    "threshold = mc_RepeatedFailureThreshold (sm_cfg (ll_miner l))" "failed = xm_FailedActions (ag_Executor agg')"
  shows "signal_key ` {s \<in> set (it_Signals (fst (Tick env tk agg agg' l store d w))). sg_Type s = SignalRepeatedFailure} =
    (if failed < threshold then {} else {(if failed < 2 * threshold then SeverityWarning else SeverityCritical,
       RepeatedTimes (nat failed) ''action execution failed'', loop_failures failed)})"
proof -
  have "it_Signals (fst (Tick env tk agg agg' l store d w)) = fst (Mine (le_errors env) (le_tasks env) (tk_mine tk) (metricsToTraces (tk_traces tk) agg') (ll_miner l))"
    by (simp add: Tick_def Let_def split: prod.splits)
  moreover have "{(msg, ids) \<in> set (foldl add_failure [] (metricsToTraces now agg')). threshold \<le> int (length ids)} =
      (if failed < threshold then {} else {(''action execution failed'', loop_failures failed)})" for now
    using assms(2) unfolding loop_failures_grouped assms(3,4) by auto
  moreover note mined_failures [OF assms(1), of "le_tasks env" "tk_mine tk" "metricsToTraces (tk_traces tk) agg'" "ll_miner l"]
  ultimately show ?thesis using assms(2)
    by (simp only: assms(3) [symmetric] image_empty image_insert prod.case if_distrib [of "image _"] length_map length_upt)
      (simp add: failure_severity_def Signal_Miner.truncate_def mult.commute)
qed

definition quiet_env :: "(unit, ui_patterns ui_store, bandit_snapshot) loop_env" where
  "quiet_env = \<lparr>le_engine = \<lparr>ee_clock = \<lambda>_. 0, ee_genes = \<lambda>_ m. m, ee_json = \<lambda>_. []\<rparr>, le_errors = id, le_tasks = id, le_store = ui_ops id (Pair None), le_enc = Inr\<rparr>"

definition loop_times :: tick_times where
  "loop_times = \<lparr>tk_start = 0, tk_eval = 1, tk_traces = 2, tk_bridge = int, tk_mine = 3, tk_feedback = 4, tk_bandit = 5, tk_end = 6\<rparr>"

definition new_loop :: "unit learning_loop" where
  "new_loop = NewLearningLoop (NewSelfEvaluator DefaultCostConfig 0) (NewSignalMiner DefaultSignalMinerConfig) (NewEvolutionEngine DefaultEngineConfig None)
     None None [] 0"

lemma tick_reports_all_failures_witness:
  "let agent = busy_agent\<lparr>ag_Executor := zero_executor_metrics\<lparr>xm_SuccessActions := 1000, xm_FailedActions := 6\<rparr>\<rparr> in
   signal_key ` {s \<in> set (it_Signals (fst (Tick quiet_env loop_times agent agent new_loop sure_store \<lparr>d_files = [], d_dirs = [], d_next = []\<rparr> ()))).
     sg_Type s = SignalRepeatedFailure} = {(SeverityCritical, RepeatedTimes 6 ''action execution failed'', loop_failures 6)}"
  unfolding Let_def
  by (subst tick_reports_all_failures [where threshold = 3 and failed = 6])
    (simp_all add: quiet_env_def new_loop_def NewLearningLoop_def NewSignalMiner_def DefaultSignalMinerConfig_def)

text \<open>The loop over any number of ticks, each with the counters and the readings of the clock it meets.\<close>

primrec ticks :: "('w, 's, 'd) loop_env \<Rightarrow> (tick_times \<times> agent_metrics \<times> agent_metrics) list \<Rightarrow> 'w learning_loop \<times> 's \<times> 'd disk \<times> 'w \<Rightarrow>
    loop_iteration list \<times> 'w learning_loop \<times> 's \<times> 'd disk \<times> 'w" where
  "ticks env [] st = ([], st)"
| "ticks env (x # xs) st = (case x of (tk, agg, agg') \<Rightarrow> case st of (l, store, d, w) \<Rightarrow> case Tick env tk agg agg' l store d w of (iter, st) \<Rightarrow>
     case ticks env xs st of (iters, st) \<Rightarrow> (iter # iters, st))"

lemma Tick_history: "Tick env tk agg agg' l store d w = (iter, l', st) \<Longrightarrow>
    ll_history l' = keep_last (nat (ll_maxHist l)) (ll_history l @ [iter]) \<and> ll_maxHist l' = ll_maxHist l"
  by (auto simp: Tick_def Let_def split: prod.splits)

lemma keep_last_append: "0 < n \<Longrightarrow> keep_last n (keep_last n xs @ ys) = keep_last n (xs @ ys)"
  by (auto simp: keep_last_def add.commute)

lemma ticks_history: "0 < ll_maxHist l \<Longrightarrow> ticks env xs (l, st) = (iters, l', st') \<Longrightarrow> ll_history l = keep_last (nat (ll_maxHist l)) ys \<Longrightarrow>
    ll_history l' = keep_last (nat (ll_maxHist l)) (ys @ iters)"
proof (induction xs arbitrary: l st iters ys)
  case (Cons x xs)
  obtain tk agg agg' store d w where x: "x = (tk, agg, agg')" "st = (store, d, w)" by (metis prod_cases3)
  obtain iter l1 st1 where t: "Tick env tk agg agg' l store d w = (iter, l1, st1)" by (metis prod_cases3)
  from Cons.prems(2) obtain iters1 where r: "ticks env xs (l1, st1) = (iters1, l', st')" "iters = iter # iters1"
    by (auto simp: x t split: prod.splits)
  from Tick_history [OF t] Cons.prems(1,3)
  have "ll_history l1 = keep_last (nat (ll_maxHist l1)) (ys @ [iter])" "ll_maxHist l1 = ll_maxHist l"
    by (simp_all add: keep_last_append)
  with Cons.IH [OF _ r(1), of "ys @ [iter]"] Cons.prems(1) r(2) show ?case by simp
qed simp

text \<open>after any number of ticks a new loop remembers the last \<open>MaxHist\<close> of them, in order (100 when none is configured).\<close>

theorem loop_remembers_last:
  assumes "ticks env xs (NewLearningLoop ev miner engine bridge bandit dir maxHist, st) = (iters, l', st')"
  shows "ll_history l' = keep_last (if maxHist \<le> 0 then 100 else nat maxHist) iters"
  using ticks_history [OF _ assms, of "[]"] by (simp add: NewLearningLoop_def keep_last_def)

section \<open>The saved statistics\<close>

lemma lit_less: "0 \<le> a \<Longrightarrow> a + 1 / 100 \<le> b \<Longrightarrow> b \<le> 1 \<Longrightarrow> flt (flit a) (flit b)"
  by (rule near_flt [OF near_lit_unit near_lit_unit]) simp_all

lemma lit_not_less: "0 \<le> b \<Longrightarrow> b + 1 / 100 \<le> a \<Longrightarrow> a \<le> 1 \<Longrightarrow> \<not> flt (flit a) (flit b)"
  using lit_less [of b a] by (metis flt_not_fle flt_def)

lemma snapshot_contexts: "map (\<lambda>(key, f). ContextKey f) snapshot_keys = map fst snapshot_keys"
proof -
  have "\<not> flt (flit (6 / 10)) (flit (1 / 10))" "\<not> flt (flit (3 / 10)) (flit (1 / 10))" "\<not> flt (flit (6 / 10)) (flit (4 / 10))" "flt (flit (3 / 10)) (flit (4 / 10))"
    "flt (flit (6 / 10)) (flit (7 / 10))" "\<not> flt (flit (2 / 10)) (flit 0)" "flt (flit (2 / 10)) (flit (1 / 2))"
    by (rule lit_less lit_not_less; simp)+
  then show ?thesis unfolding snapshot_keys_def snapshot_features_def ContextKey_def list.map prod.case features.simps fst_conv Let_def
    by (simp only: simp_thms if_True if_False append.simps) simp
qed

lemma chosen_contexts:
  "distinct (map fst kfs) \<Longrightarrow> mget (foldl (\<lambda>m (key, f). if P f then mset_at m key (g f) else m) m0 kfs) k =
     (case map_of kfs k of Some f \<Rightarrow> if P f then Some (g f) else mget m0 k | None \<Rightarrow> mget m0 k)"
  by (induction kfs arbitrary: m0) (force split: option.splits simp: map_of_eq_None_iff)+

lemma context_listed: "\<exists>f'. map_of snapshot_keys (ContextKey f) = Some f' \<and> ContextKey f' = ContextKey f"
proof -
  have "ContextKey f \<in> fst ` set snapshot_keys" by (simp add: ContextKey_def snapshot_keys_def Let_def)
  then obtain f' where f': "map_of snapshot_keys (ContextKey f) = Some f'" by (meson map_of_eq_None_iff not_Some_eq)
  then have "(ContextKey f, f') \<in> set snapshot_keys" by (rule map_of_SomeD)
  then have "ContextKey f' = ContextKey f"
    using arg_cong [OF snapshot_contexts, of "\<lambda>xs. zip (map fst snapshot_keys) xs"] by (auto simp: zip_map_map zip_same_conv_map)
  with f' show ?thesis by blast
qed

text \<open>the saved statistics hold, for every features a page can have, the three distributions the bandit uses for it,
  unless no arm was ever tried there.\<close>

theorem snapshot_complete: "mget (bs_Contexts (snapshot_of now b)) (ContextKey f) =
    (if \<exists>p \<in> set (bandit_Stats f b). 0 < bp_Trials p then Some (bandit_Stats f b) else None)"
proof -
  obtain f' where f': "map_of snapshot_keys (ContextKey f) = Some f'" "ContextKey f' = ContextKey f" using context_listed by blast
  have "distinct (map fst snapshot_keys)" by (simp add: snapshot_keys_def)
  moreover have "bandit_Stats f' b = bandit_Stats f b" using f'(2) by (simp add: bandit_Stats_def posteriors_for_def)
  ultimately show ?thesis using f'(1) chosen_contexts [of snapshot_keys "\<lambda>f. \<exists>p \<in> set (bandit_Stats f b). 0 < bp_Trials p" "\<lambda>f. bandit_Stats f b"]
    by (simp add: snapshot_of_def)
qed

section \<open>What an import stores\<close>

context tracked_store begin

lemma import_view:
  "inv s \<Longrightarrow> import_loop ops m ps n s = ((n', None), s') \<Longrightarrow>
    view s' = foldl (\<lambda>v p. v(up_ID p \<mapsto> p)) (view s) (filter (accepts m) ps) \<and> n' = n + length (filter (accepts m) ps)"
proof (induction ps arbitrary: n s)
  case (Cons p ps)
  show ?case
  proof (cases "accepts m p")
    case True
    with Cons.prems(2) obtain s1 where s1: "op_Set ops p s = (None, s1)" "import_loop ops m ps (n + 1) s1 = ((n', None), s')"
      by (auto split: prod.splits option.splits)
    have "inv s1" using inv_set [OF Cons.prems(1), of p] s1(1) by simp
    from Cons.IH [OF this s1(2)] set_ok [OF Cons.prems(1) s1(1)] True show ?thesis by simp
  qed (use Cons in simp)
qed simp

end

lemma updates_last: "foldl (\<lambda>v p. v(key p \<mapsto> p)) v ps k = (case find (\<lambda>p. key p = k) (rev ps) of Some p \<Rightarrow> Some p | None \<Rightarrow> v k)"
  by (induction ps rule: rev_induct) auto

lemma find_filter: "find P (filter Q xs) = find (\<lambda>x. P x \<and> Q x) xs"
  by (induction xs) auto

lemma load_existing_ui: "us_Load dec s = (Inr m, s1) \<Longrightarrow> load_existing (ui_ops enc dec) s = (Inr m, s1)"
  by (simp add: load_existing_def ui_ops_def)

lemma us_Load_patterns: "us_Load dec s = (Inr m, s1) \<Longrightarrow> wf_map (us_patterns s) \<Longrightarrow> us_patterns s1 = m \<and> wf_map m"
  by (auto simp: us_Load_def Let_def split: prod.splits sum.splits option.splits)

text \<open>what an import leaves under an identifier: the last of the imported patterns with that identifier that was more
  confident than what the store held before the import, or else what the store held; of two such patterns the last
  one stays, even when the first was more confident.\<close>

theorem import_result:
  assumes "wf_map (us_patterns s)" "us_Load dec s = (Inr m, s1)" "ImportPatterns (ui_ops enc dec) ex s = ((n, None), s')"
  shows "us_view s' k = (case find (\<lambda>p. up_ID p = k \<and> accepts m p) (rev (pe_Patterns ex)) of Some p \<Rightarrow> Some p | None \<Rightarrow> mget m k)"
    and "n = length (filter (accepts m) (pe_Patterns ex))"
proof -
  have s1: "us_patterns s1 = m" "wf_map m" using us_Load_patterns [OF assms(2,1)] by simp_all
  have "import_loop (ui_ops enc dec) m (pe_Patterns ex) 0 s1 = ((n, None), s')"
    using assms(3) by (simp add: ImportPatterns_def load_existing_ui [OF assms(2)])
  from tracked.import_view [OF _ this] s1
  have v: "us_view s' = foldl (\<lambda>v p. v(up_ID p \<mapsto> p)) (us_view s1) (filter (accepts m) (pe_Patterns ex))"
    and n: "n = length (filter (accepts m) (pe_Patterns ex))" by simp_all
  show "us_view s' k = (case find (\<lambda>p. up_ID p = k \<and> accepts m p) (rev (pe_Patterns ex)) of Some p \<Rightarrow> Some p | None \<Rightarrow> mget m k)"
    unfolding v updates_last rev_filter find_filter unfolding us_view_def s1(1) ..
  show "n = length (filter (accepts m) (pe_Patterns ex))" by (rule n)
qed

section \<open>From one agent to another\<close>

lemma set_works: "d_next (us_disk s) = [] \<Longrightarrow> \<exists>s'. op_Set (ui_ops enc dec) p s = (None, s') \<and> d_next (us_disk s') = []"
  by (simp add: ui_ops_def us_Set_def saveLocked_def disk_defs Let_def)

lemma import_works: "d_next (us_disk s) = [] \<Longrightarrow> \<exists>n' s'. import_loop (ui_ops enc dec) m ps n s = ((n', None), s')"
proof (induction ps arbitrary: n s)
  case (Cons p ps)
  obtain s1 where "op_Set (ui_ops enc dec) p s = (None, s1)" "d_next (us_disk s1) = []" using set_works [OF Cons.prems] by blast
  with Cons.IH [OF Cons.prems] Cons.IH [of s1] show ?case by simp
qed simp

text \<open>C35: the patterns that one agent exports are, once read from the file and imported by an agent that knows nothing, under
  the same identifiers there, all of them and nothing else, in whatever order Go visits the map.\<close>

theorem export_import_roundtrip:
  assumes "wf_map (us_patterns src)" "us_Load dec src = (Inr m, src1)" "\<And>k p. mget m k = Some p \<Longrightarrow> up_ID p = k" "\<And>m. mset (visit m) = mset m"
    "ExportPatterns visit now a (ui_ops enc dec) src = (Inr ex, src')" "SavePatternExport jenc ex path d = (Inr None, d1)" "d_next d1 = []"
    "\<And>x y. jenc x = Inr y \<Longrightarrow> jdec y = Inr x"
    "us_patterns tgt = []" "d_next (us_disk tgt) = []" "mget (d_files (us_disk tgt)) (us_filePath tgt) = None"
  shows "\<exists>n tgt'. LoadPatternExport jdec path d1 = (Inr ex, d1) \<and> ImportPatterns (ui_ops enc dec) ex tgt = ((n, None), tgt') \<and> us_view tgt' = mget m"
proof -
  have wf: "wf_map m" using us_Load_patterns [OF assms(2,1)] by simp
  have pats: "pe_Patterns ex = map snd (visit m)" using assms(5) by (auto simp: ExportPatterns_def load_existing_ui [OF assms(2)])
  obtain y where "jenc ex = Inr y" "WriteFile path y d = (None, d1)" using assms(6) by (auto simp: SavePatternExport_def split: sum.splits prod.splits)
  then have load: "LoadPatternExport jdec path d1 = (Inr ex, d1)"
    using read_after_write [of path y d d1] assms(7,8) by (simp add: LoadPatternExport_def)
  obtain tgt1 where t1: "load_existing (ui_ops enc dec) tgt = (Inr [], tgt1)" "us_patterns tgt1 = []" "d_next (us_disk tgt1) = []"
    using assms(9-11) by (simp add: load_existing_def ui_ops_def us_Load_def disk_defs Let_def load_io_error_def io_error_def os_IsNotExist_def)
  obtain n tgt' where imp: "import_loop (ui_ops enc dec) [] (pe_Patterns ex) 0 tgt1 = ((n, None), tgt')" using import_works [OF t1(3)] by blast
  have "accepts [] = (\<lambda>_. True)" by (simp add: accepts_def fun_eq_iff mget_def)
  with tracked.import_view [OF _ imp] t1(2)
  have v: "us_view tgt' k = (case find (\<lambda>p. up_ID p = k) (rev (map snd (visit m))) of Some p \<Rightarrow> Some p | None \<Rightarrow> None)" for k
    using updates_last [of up_ID "mget []" "map snd (visit m)" k] by (simp add: us_view_def pats) (simp add: mget_def split: option.split)
  have held: "p \<in> set (rev (map snd (visit m))) \<longleftrightarrow> (\<exists>k. mget m k = Some p)" for p
  proof -
    have "set (visit m) = set m" using assms(4) by (metis set_mset_mset)
    then show ?thesis using mget_in_set [OF wf] by force
  qed
  have "us_view tgt' k = mget m k" for k
  proof (cases "find (\<lambda>p. up_ID p = k) (rev (map snd (visit m)))")
    case None
    have "mget m k \<noteq> Some p" for p
    proof
      assume p: "mget m k = Some p"
      then have "p \<in> set (rev (map snd (visit m)))" unfolding held by (rule exI)
      with None assms(3) [OF p] show False unfolding find_None_iff by blast
    qed
    then have "mget m k = None" by (cases "mget m k") blast+
    with None v show ?thesis by simp
  next
    case (Some p)
    then have "up_ID p = k" "p \<in> set (rev (map snd (visit m)))" unfolding find_Some_iff in_set_conv_nth by blast+
    then have "mget m k = Some p" using assms(3) [of _ p] unfolding held by fast
    with Some v show ?thesis by simp
  qed
  then have "us_view tgt' = mget m" by (rule ext)
  moreover have "ImportPatterns (ui_ops enc dec) ex tgt = ((n, None), tgt')" using t1(1) imp by (simp add: ImportPatterns_def)
  ultimately show ?thesis using load by blast
qed

definition unsure_pattern :: ui_pattern where
  "unsure_pattern = sure_pattern\<lparr>up_Confidence := flit (1 / 5)\<rparr>"

definition fresh_store :: "ui_patterns ui_store" where
  "fresh_store = \<lparr>us_filePath = ''q.json'', us_patterns = [], us_disk = \<lparr>d_files = [], d_dirs = [], d_next = []\<rparr>\<rparr>"

definition saved_store :: "ui_patterns ui_store" where
  "saved_store = sure_store\<lparr>us_disk := \<lparr>d_files = [(''p.json'', [(''go'', sure_pattern)])], d_dirs = [], d_next = []\<rparr>\<rparr>"

lemma saved_load: "us_Load (Pair None) saved_store = (Inr [(''go'', sure_pattern)], saved_store)"
  by (simp add: us_Load_def saved_store_def sure_store_def disk_defs mmerge_def mset_at_def mget_def)

lemma import_result_witness:
  "us_view (snd (ImportPatterns (ui_ops id (Pair None)) \<lparr>pe_AgentID = ''b'', pe_ExportedAt = 0, pe_Patterns = [unsure_pattern], pe_Metadata = []\<rparr> saved_store)) ''go'' = Some sure_pattern"
proof -
  have "fle (flit (1 / 5)) (flit 1)" by (rule near_fle [OF near_lit_unit near_lit_unit]) simp_all
  then have rej: "\<not> accepts [(''go'', sure_pattern)] unsure_pattern"
    by (simp add: accepts_def unsure_pattern_def sure_pattern_def zero_ui_pattern_def mget_def)
  have imp: "ImportPatterns (ui_ops id (Pair None)) \<lparr>pe_AgentID = ''b'', pe_ExportedAt = 0, pe_Patterns = [unsure_pattern], pe_Metadata = []\<rparr> saved_store = ((0, None), saved_store)"
    using rej by (simp add: ImportPatterns_def load_existing_ui [OF saved_load])
  have "wf_map (us_patterns saved_store)" by (simp add: saved_store_def sure_store_def wf_map_def)
  from import_result(1) [OF this saved_load imp, of "''go''"] rej imp show ?thesis by (simp add: mget_def)
qed

lemma export_import_roundtrip_witness:
  "\<exists>n tgt'. ImportPatterns (ui_ops id (Pair None)) \<lparr>pe_AgentID = ''a'', pe_ExportedAt = 5, pe_Patterns = [sure_pattern], pe_Metadata = [(''version'', ''2.0'')]\<rparr>
     fresh_store = ((n, None), tgt') \<and> us_view tgt' = mget [(''go'', sure_pattern)]"
proof -
  let ?ex = "\<lparr>pe_AgentID = ''a'', pe_ExportedAt = 5, pe_Patterns = [sure_pattern], pe_Metadata = [(''version'', ''2.0'')]\<rparr>"
  have wf: "wf_map (us_patterns saved_store)" by (simp add: saved_store_def sure_store_def wf_map_def)
  have ids: "mget [(''go'', sure_pattern)] k = Some p \<Longrightarrow> up_ID p = k" for k p
    by (auto simp: mget_def sure_pattern_def zero_ui_pattern_def split: if_splits)
  have ex: "ExportPatterns id 5 ''a'' (ui_ops id (Pair None)) saved_store = (Inr ?ex, saved_store)"
    by (simp add: ExportPatterns_def load_existing_ui [OF saved_load])
  have sv: "SavePatternExport Inr ?ex ''e.json'' \<lparr>d_files = [], d_dirs = [], d_next = []\<rparr> = (Inr None, \<lparr>d_files = [(''e.json'', ?ex)], d_dirs = [], d_next = []\<rparr>)"
    by (simp add: SavePatternExport_def disk_defs mset_at_def)
  have "\<exists>n tgt'. LoadPatternExport Inr ''e.json'' \<lparr>d_files = [(''e.json'', ?ex)], d_dirs = [], d_next = []\<rparr> = (Inr ?ex, \<lparr>d_files = [(''e.json'', ?ex)], d_dirs = [], d_next = []\<rparr>) \<and>
      ImportPatterns (ui_ops id (Pair None)) ?ex fresh_store = ((n, None), tgt') \<and> us_view tgt' = mget [(''go'', sure_pattern)]"
    by (rule export_import_roundtrip [OF wf saved_load ids _ ex sv]) (simp_all add: fresh_store_def mget_def)
  then show ?thesis by blast
qed

lemma loop_remembers_last_witness:
  "ll_history (fst (snd (ticks quiet_env [(loop_times, busy_agent, busy_agent)] (new_loop, sure_store, \<lparr>d_files = [], d_dirs = [], d_next = []\<rparr>, ())))) =
     keep_last 100 (fst (ticks quiet_env [(loop_times, busy_agent, busy_agent)] (new_loop, sure_store, \<lparr>d_files = [], d_dirs = [], d_next = []\<rparr>, ())))"
proof -
  obtain iters l st where "ticks quiet_env [(loop_times, busy_agent, busy_agent)] (new_loop, sure_store, \<lparr>d_files = [], d_dirs = [], d_next = []\<rparr>, ()) = (iters, l, st)"
    by (metis prod_cases3)
  with loop_remembers_last show ?thesis unfolding new_loop_def by fastforce
qed

end
