(* ===== verification/Vlm_Bridge.thy ===== *)
theory Vlm_Bridge
  imports Smart_Discovery Self_Healer
begin

text \<open>
  \<open>pkg/uiauto/vlm_bridge.go\<close>: the questions to a vision model about a screenshot, asked model by model. The
  provider is a parameter over a world; what \<open>json.Unmarshal\<close> makes of an answer is a parameter
  for each of the four shapes; \<open>clock\<close> reads the time of a world. A screenshot is a list of bytes.
\<close>

section \<open>State\<close>

record ui_element =
  ue_Label :: string
  ue_Type :: string
  ue_BoundingBox :: "int \<times> int \<times> int \<times> int"
  ue_Confidence :: f64
  ue_Selector :: string

record vlm_judgment = judgment_result +
  jr_Explanation :: string

record vlm_analysis =
  va_Elements :: "ui_element list"
  va_Description :: string
  va_RawResponse :: string
  va_Model :: string
  va_LatencyMs :: int

record vlm_metrics =
  vm_TotalCalls :: int
  vm_SuccessCalls :: int
  vm_FailedCalls :: int
  vm_TotalLatencyMs :: int

definition zero_vlm_metrics :: vlm_metrics where
  "zero_vlm_metrics = \<lparr>vm_TotalCalls = 0, vm_SuccessCalls = 0, vm_FailedCalls = 0, vm_TotalLatencyMs = 0\<rparr>"

record omni_config =
  oc_Endpoint :: string
  oc_Timeout :: duration
  oc_Enabled :: bool

record vlm_codec =
  vc_elements :: "string \<Rightarrow> ui_element list option"
  vc_verdict :: "string \<Rightarrow> (bool \<times> f64) option"
  vc_judgment :: "string \<Rightarrow> vlm_judgment option"
  vc_selector :: "string \<Rightarrow> (string \<times> f64) option"

record 'w vlm_bridge =
  vb_provider :: "'w provider"
  vb_models :: "string list"
  vb_omniParser :: "omni_config option"
  vb_omniClient :: "(string \<times> duration) option"

definition NewVLMBridge :: "'w provider \<Rightarrow> string list \<Rightarrow> ('w vlm_bridge \<Rightarrow> 'w vlm_bridge) list \<Rightarrow> 'w vlm_bridge" where
  "NewVLMBridge provider models opts = foldl (\<lambda>v opt. opt v) \<lparr>vb_provider = provider,
     vb_models = (if models = [] then [''gpt-4o''] else models), vb_omniParser = None, vb_omniClient = None\<rparr> opts"

definition WithOmniParser :: "omni_config \<Rightarrow> 'w vlm_bridge \<Rightarrow> 'w vlm_bridge" where
  "WithOmniParser cfg v =
     (let v = v\<lparr>vb_omniParser := Some cfg\<rparr> in
      if oc_Enabled cfg \<and> oc_Endpoint cfg \<noteq> []
      then v\<lparr>vb_omniClient := Some (oc_Endpoint cfg, if oc_Timeout cfg = 0 then 10 * second else oc_Timeout cfg)\<rparr> else v)"

definition IsOmniParserAvailable :: "'w vlm_bridge \<Rightarrow> bool" where
  "IsOmniParserAvailable v = (case vb_omniParser v of None \<Rightarrow> False | Some cfg \<Rightarrow> oc_Enabled cfg \<and> oc_Endpoint cfg \<noteq> [])"

section \<open>The screenshot in a prompt\<close>

definition b64_digit :: "nat \<Rightarrow> char" where
  "b64_digit n = ''ABCDEFGHIJKLMNOPQRSTUVWXYZabcdefghijklmnopqrstuvwxyz0123456789+/'' ! n"

definition b64_group :: "nat \<Rightarrow> nat \<Rightarrow> nat \<Rightarrow> string" where
  "b64_group a b c = [b64_digit (a div 4), b64_digit (a mod 4 * 16 + b div 16), b64_digit (b mod 16 * 4 + c div 64), b64_digit (c mod 64)]"

fun base64 :: "string \<Rightarrow> string" where
  "base64 [] = []"
| "base64 [a] = take 2 (b64_group (of_char a) 0 0) @ ''==''"
| "base64 [a, b] = take 3 (b64_group (of_char a) (of_char b) 0) @ ''=''"
| "base64 (a # b # c # s) = b64_group (of_char a) (of_char b) (of_char c) @ base64 s"

definition preview :: "string \<Rightarrow> string" where
  "preview screenshot = take 100 (''data:image/png;base64,'' @ base64 screenshot)"

abbreviation dquoted :: "string \<Rightarrow> string" where "dquoted s \<equiv> [CHR 0x22] @ s @ [CHR 0x22]"

definition buildVLMPrompt :: "string \<Rightarrow> string \<Rightarrow> string" where
  "buildVLMPrompt description screenshot =
     ''You are an expert UI automation agent.'' @ nl @
     ''I need to interact with an element described as: '' @ dquoted description @ nl @ nl @
     ''Analyze the provided screenshot and tell me how to find or interact with this element.'' @ nl @
     ''Provide a CSS selector if possible, or describe coordinates and visual characteristics.'' @ nl @ nl @
     ''[Image Data: '' @ preview screenshot @ ''...]''"

definition buildJudgePrompt :: "string \<Rightarrow> string \<Rightarrow> string" where
  "buildJudgePrompt description screenshot =
     ''You are an expert UI automation judge. Analyze this screenshot and determine whether the described UI element or state is present.'' @ nl @ nl @
     ''Description: '' @ dquoted description @ nl @ nl @
     ''Screenshot: '' @ preview screenshot @ ''...'' @ nl @ nl @
     ''Respond with ONLY a JSON object (no markdown, no extra text):'' @ nl @
     ''{'' @ dquoted ''present'' @ '': true/false, '' @ dquoted ''confidence'' @ '': 0.0-1.0, '' @ dquoted ''explanation'' @ '': '' @ dquoted ''brief reason'' @ '', '' @
     dquoted ''suggested_selector'' @ '': '' @ dquoted ''CSS selector or XPath if element found, else empty string'' @ ''}''"

definition buildSelectorPrompt :: "string \<Rightarrow> string \<Rightarrow> string" where
  "buildSelectorPrompt description screenshot =
     ''You are an expert UI automation agent. Analyze this screenshot and generate a CSS selector or XPath for the target element.'' @ nl @ nl @
     ''Description: '' @ dquoted description @ nl @ nl @
     ''Screenshot: '' @ preview screenshot @ ''...'' @ nl @ nl @
     ''Respond with ONLY a JSON object (no markdown, no extra text):'' @ nl @
     ''{'' @ dquoted ''selector'' @ '': '' @ dquoted ''CSS selector or XPath'' @ '', '' @ dquoted ''confidence'' @ '': 0.0-1.0}''"

definition buildElementDetectionPrompt :: "string \<Rightarrow> string" where
  "buildElementDetectionPrompt screenshot =
     ''Analyze the UI screenshot and identify all interactive elements.'' @ nl @
     ''For each element, provide:'' @ nl @ ''- label: descriptive name'' @ nl @ ''- type: button|input|link|icon|text'' @ nl @
     ''- bounding_box: [x, y, width, height]'' @ nl @ ''- confidence: 0.0-1.0'' @ nl @ nl @
     ''Respond with a JSON array of elements.'' @ nl @ nl @ ''[Image Data: '' @ preview screenshot @ ''...]''"

definition verifyPrompt :: "string \<Rightarrow> string \<Rightarrow> string \<Rightarrow> string" where
  "verifyPrompt description screenshot selector =
     ''Analyze this screenshot and determine if the CSS selector '' @ dquoted selector @ '' likely points to the element described as: '' @
     dquoted description @ ''.'' @ nl @ nl @ ''Screenshot: '' @ preview screenshot @ ''...'' @ nl @ nl @
     ''Respond with ONLY a JSON object: {'' @ dquoted ''match'' @ '': true/false, '' @ dquoted ''confidence'' @ '': 0.0-1.0, '' @
     dquoted ''reason'' @ '': '' @ dquoted ''brief explanation'' @ ''}''"

section \<open>Asking the models\<close>

datatype vlm_error = VModelFailed string llm_error | VNoChoices string | VUnwrapped llm_error

datatype vlm_question = ForAnalysis | ForElements | ForVerdict | ForJudgment | ForSelector

text \<open>The error a question remembers; \<open>VerifyElement\<close> keeps the provider's error as it is and none for an empty answer.\<close>

definition failed_with_error :: "vlm_question \<Rightarrow> string \<Rightarrow> llm_error \<Rightarrow> vlm_error" where
  "failed_with_error q m e = (if q = ForVerdict then VUnwrapped e else VModelFailed m e)"

definition empty_answer :: "vlm_question \<Rightarrow> string \<Rightarrow> vlm_error option \<Rightarrow> vlm_error option" where
  "empty_answer q m lastErr = (if q = ForVerdict then lastErr else Some (VNoChoices m))"

primrec ask_vision :: "'w provider \<Rightarrow> vlm_question \<Rightarrow> string \<Rightarrow> string list \<Rightarrow> vlm_error option \<Rightarrow> 'w \<Rightarrow>
    (vlm_error option + string \<times> string) \<times> 'w" where
  "ask_vision provider q prompt [] lastErr w = (Inl lastErr, w)"
| "ask_vision provider q prompt (m # ms) lastErr w =
     (case provider (discovery_request m prompt) w of
        (Inl e, w) \<Rightarrow> ask_vision provider q prompt ms (Some (failed_with_error q m e)) w
      | (Inr resp, w) \<Rightarrow>
          (case Choices resp of
             [] \<Rightarrow> ask_vision provider q prompt ms (empty_answer q m lastErr) w
           | c # _ \<Rightarrow> (Inr (m, trim_space (Content (choice_Message c))), w)))"

text \<open>A question with its counters; the answer is the model, the trimmed text and the latency, or the last error.\<close>

definition question :: "'w vlm_bridge \<Rightarrow> ('w \<Rightarrow> time) \<Rightarrow> vlm_question \<Rightarrow> string \<Rightarrow> vlm_metrics \<Rightarrow> 'w \<Rightarrow>
    (vlm_error option + string \<times> string \<times> int) \<times> vlm_metrics \<times> 'w" where
  "question v clock q prompt m w =
     (let start = clock w; m = m\<lparr>vm_TotalCalls := vm_TotalCalls m + 1\<rparr> in
      case ask_vision (vb_provider v) q prompt (vb_models v) None w of
        (Inl e, w) \<Rightarrow> (Inl e, m\<lparr>vm_FailedCalls := vm_FailedCalls m + 1\<rparr>, w)
      | (Inr (model, raw), w) \<Rightarrow>
          (let ms = go_div (time_sub (clock w) start) millisecond in
           (Inr (model, raw, ms), m\<lparr>vm_SuccessCalls := vm_SuccessCalls m + 1, vm_TotalLatencyMs := vm_TotalLatencyMs m + ms\<rparr>, w)))"

definition unfence :: "string \<Rightarrow> string" where
  "unfence raw = trim_space (TrimSuffix (TrimPrefix (TrimPrefix raw (fence @ ''json'')) fence) fence)"

definition parseJudgeResponse :: "vlm_codec \<Rightarrow> string \<Rightarrow> vlm_judgment" where
  "parseJudgeResponse co raw =
     (let raw = unfence raw in
      case vc_judgment co raw of
        None \<Rightarrow> \<lparr>jr_Present = contains (to_lower raw) ''true'', jr_Confidence = flit (1 / 2), jr_SuggestedSelector = [], jr_Explanation = trim_space raw\<rparr>
      | Some j \<Rightarrow> j)"

definition parseSelectorResponse :: "vlm_codec \<Rightarrow> string \<Rightarrow> string \<times> f64" where
  "parseSelectorResponse co raw = (case vc_selector co (unfence raw) of None \<Rightarrow> ([], flit 0) | Some s \<Rightarrow> s)"

definition parseElementResponse :: "vlm_codec \<Rightarrow> string \<Rightarrow> ui_element list" where
  "parseElementResponse co raw = (case vc_elements co (unfence raw) of None \<Rightarrow> [] | Some es \<Rightarrow> es)"

definition parse_verdict :: "vlm_codec \<Rightarrow> string \<Rightarrow> bool \<times> f64" where
  "parse_verdict co raw = (case vc_verdict co raw of None \<Rightarrow> (contains (to_lower raw) ''true'', flit (1 / 2)) | Some r \<Rightarrow> r)"

definition AnalyzeScreenshot :: "'w vlm_bridge \<Rightarrow> ('w \<Rightarrow> time) \<Rightarrow> string \<Rightarrow> string \<Rightarrow> vlm_metrics \<Rightarrow> 'w \<Rightarrow>
    (vlm_error option + string) \<times> vlm_metrics \<times> 'w" where
  "AnalyzeScreenshot v clock description screenshot m w =
     apfst (map_sum id (\<lambda>(model, raw, ms). raw)) (question v clock ForAnalysis (buildVLMPrompt description screenshot) m w)"

definition DetectElements :: "vlm_codec \<Rightarrow> 'w vlm_bridge \<Rightarrow> ('w \<Rightarrow> time) \<Rightarrow> string \<Rightarrow> vlm_metrics \<Rightarrow> 'w \<Rightarrow>
    (vlm_error option + vlm_analysis) \<times> vlm_metrics \<times> 'w" where
  "DetectElements co v clock screenshot m w =
     apfst (map_sum id (\<lambda>(model, raw, ms). \<lparr>va_Elements = parseElementResponse co raw, va_Description = raw, va_RawResponse = raw,
         va_Model = model, va_LatencyMs = ms\<rparr>))
       (question v clock ForElements (buildElementDetectionPrompt screenshot) m w)"

definition VerifyElement :: "vlm_codec \<Rightarrow> 'w vlm_bridge \<Rightarrow> ('w \<Rightarrow> time) \<Rightarrow> string \<Rightarrow> string \<Rightarrow> string \<Rightarrow> vlm_metrics \<Rightarrow> 'w \<Rightarrow>
    (vlm_error option + bool \<times> f64) \<times> vlm_metrics \<times> 'w" where
  "VerifyElement co v clock description screenshot selector m w =
     apfst (map_sum id (\<lambda>(model, raw, ms). parse_verdict co raw)) (question v clock ForVerdict (verifyPrompt description screenshot selector) m w)"

definition VLMAsJudge :: "vlm_codec \<Rightarrow> 'w vlm_bridge \<Rightarrow> ('w \<Rightarrow> time) \<Rightarrow> string \<Rightarrow> string \<Rightarrow> vlm_metrics \<Rightarrow> 'w \<Rightarrow>
    (vlm_error option + vlm_judgment) \<times> vlm_metrics \<times> 'w" where
  "VLMAsJudge co v clock description screenshot m w =
     apfst (map_sum id (\<lambda>(model, raw, ms). parseJudgeResponse co raw)) (question v clock ForJudgment (buildJudgePrompt description screenshot) m w)"

definition GenerateSelectorFromVLM :: "vlm_codec \<Rightarrow> 'w vlm_bridge \<Rightarrow> ('w \<Rightarrow> time) \<Rightarrow> string \<Rightarrow> string \<Rightarrow> vlm_metrics \<Rightarrow> 'w \<Rightarrow>
    (vlm_error option + string \<times> f64) \<times> vlm_metrics \<times> 'w" where
  "GenerateSelectorFromVLM co v clock description screenshot m w =
     apfst (map_sum id (\<lambda>(model, raw, ms). parseSelectorResponse co raw)) (question v clock ForSelector (buildSelectorPrompt description screenshot) m w)"

section \<open>The counters\<close>

lemma question_counts: "question v clock q prompt m w = (r, m', w') \<Longrightarrow> vm_TotalCalls m' = vm_TotalCalls m + 1 \<and>
    vm_SuccessCalls m' + vm_FailedCalls m' = vm_SuccessCalls m + vm_FailedCalls m + 1"
  by (auto simp: question_def Let_def split: prod.splits sum.splits)

datatype vlm_call = Analyze string string | Detect string | Verify string string string | Judge string string | Generate string string

definition vlm_do :: "vlm_codec \<Rightarrow> 'w vlm_bridge \<Rightarrow> ('w \<Rightarrow> time) \<Rightarrow> vlm_call \<Rightarrow> vlm_metrics \<times> 'w \<Rightarrow> vlm_metrics \<times> 'w" where
  "vlm_do co v clock call st = (case st of (m, w) \<Rightarrow> case call of
       Analyze descr s \<Rightarrow> snd (AnalyzeScreenshot v clock descr s m w)
     | Detect s \<Rightarrow> snd (DetectElements co v clock s m w)
     | Verify descr s sel \<Rightarrow> snd (VerifyElement co v clock descr s sel m w)
     | Judge descr s \<Rightarrow> snd (VLMAsJudge co v clock descr s m w)
     | Generate descr s \<Rightarrow> snd (GenerateSelectorFromVLM co v clock descr s m w))"

definition vlm_after :: "vlm_codec \<Rightarrow> 'w vlm_bridge \<Rightarrow> ('w \<Rightarrow> time) \<Rightarrow> 'w \<Rightarrow> vlm_call list \<Rightarrow> vlm_metrics" where
  "vlm_after co v clock w cs = fst (fold (vlm_do co v clock) cs (zero_vlm_metrics, w))"

lemma vlm_do_question: "\<exists>q prompt. vlm_do co v clock call (m, w) = snd (question v clock q prompt m w)"
  by (cases call) (auto simp: vlm_do_def AnalyzeScreenshot_def DetectElements_def VerifyElement_def VLMAsJudge_def GenerateSelectorFromVLM_def)

text \<open>after any calls of the five operations, in any order, every call is counted once, as a success or as a failure.\<close>

theorem vlm_calls_accounted:
  "vm_TotalCalls (vlm_after co v clock w cs) = int (length cs) \<and>
   vm_SuccessCalls (vlm_after co v clock w cs) + vm_FailedCalls (vlm_after co v clock w cs) = int (length cs)"
  unfolding vlm_after_def
proof (induction cs rule: rev_induct)
  case (snoc c cs)
  obtain m w' where st: "fold (vlm_do co v clock) cs (zero_vlm_metrics, w) = (m, w')" by force
  obtain q prompt where q: "vlm_do co v clock c (m, w') = snd (question v clock q prompt m w')" using vlm_do_question by metis
  obtain r m1 w1 where r: "question v clock q prompt m w' = (r, m1, w1)" by (metis prod_cases3)
  show ?case using snoc question_counts [OF r] by (simp add: st q r)
qed (simp add: zero_vlm_metrics_def)

section \<open>What the model sees\<close>

lemma base64_take: "take (4 * n) (base64 s) = base64 (take (3 * n) s)" if "3 * n \<le> length s"
  using that
proof (induction s arbitrary: n rule: base64.induct)
  case (4 a b c s)
  have "take (4 + k) (w # x # y # z # t) = w # x # y # z # take k t" "take (3 + k) (x # y # z # t) = x # y # z # take k t" for k :: nat and w x y z :: char and t
    by (simp_all add: eval_nat_numeral)
  with 4 show ?case by (cases n) (simp_all add: b64_group_def)
next
  case (2 a)
  then have "n = 0" by simp
  then show ?case by simp
next
  case (3 a b)
  then have "n = 0" by simp
  then show ?case by simp
qed simp

lemma preview_start:
  assumes "60 \<le> length s" "60 \<le> length s'" "take 60 s = take 60 s'"
  shows "preview s = preview s'"
proof -
  have "take 80 (base64 s) = take 80 (base64 s')" using base64_take [of 20 s] base64_take [of 20 s'] assms by simp
  then have "take 78 (take 80 (base64 s)) = take 78 (take 80 (base64 s'))" by (rule arg_cong)
  then show ?thesis by (simp add: preview_def)
qed

text \<open>C36: no question ever shows the screenshot to the model: two screenshots that agree in their first 60 bytes, such as
  two pictures of the same size with the usual header, get the same answers to all five questions, from the same requests.\<close>

theorem screenshot_unseen:
  assumes "60 \<le> length s" "60 \<le> length s'" "take 60 s = take 60 s'"
  shows "AnalyzeScreenshot v clock descr s m w = AnalyzeScreenshot v clock descr s' m w \<and>
    DetectElements co v clock s m w = DetectElements co v clock s' m w \<and>
    VerifyElement co v clock descr s sel m w = VerifyElement co v clock descr s' sel m w \<and>
    VLMAsJudge co v clock descr s m w = VLMAsJudge co v clock descr s' m w \<and>
    GenerateSelectorFromVLM co v clock descr s m w = GenerateSelectorFromVLM co v clock descr s' m w"
  using preview_start [OF assms]
  by (simp add: AnalyzeScreenshot_def DetectElements_def VerifyElement_def VLMAsJudge_def GenerateSelectorFromVLM_def
    buildVLMPrompt_def buildElementDetectionPrompt_def verifyPrompt_def buildJudgePrompt_def buildSelectorPrompt_def)

section \<open>Reading the answers\<close>

text \<open>an answer in a code fence is read as the answer without one.\<close>

theorem fenced_answer:
  assumes "trim_space s = s" "\<forall>c \<in> set (p @ q). is_space c" "p \<noteq> []" "lang \<in> {[], ''json''}"
  shows "unfence (fence @ lang @ p @ s @ q @ fence) = s"
proof -
  have inner: "trim_space (p @ s @ q) = s" using trim_spaces [of p q s] assms(1,2) by simp
  have suffix: "TrimSuffix (t @ fence) fence = t" for t by (simp add: TrimSuffix_def suffix_def)
  obtain c p' where p: "p = c # p'" "is_space c" using assms(2,3) by (cases p) auto
  then have "c \<noteq> CHR ''j''" "c \<noteq> CHR 0x60" by (auto simp: is_space_def)
  then have "TrimPrefix (TrimPrefix (fence @ lang @ p @ s @ q @ fence) (fence @ ''json'')) fence = (p @ s @ q) @ fence"
    using assms(4) p(1) by (auto simp: TrimPrefix_def)
  then show ?thesis unfolding unfence_def by (simp only: suffix inner)
qed

lemma fenced_answer_witness: "unfence (fence @ ''json'' @ nl @ ''[]'' @ nl @ fence) = ''[]''"
  using fenced_answer [of "''[]''" nl nl "''json''"] by (simp add: trim_fixed is_space_def)

section \<open>The bridge behind the healer\<close>

text \<open>The bridge as the vision of the healer, with its counters in the world; \<open>clock\<close> reads the time, \<open>msg\<close> prints an error.\<close>

definition bridge_vision :: "vlm_codec \<Rightarrow> ('w \<Rightarrow> time) \<Rightarrow> (vlm_error option \<Rightarrow> string) \<Rightarrow> 'w vlm_bridge \<Rightarrow> (vlm_metrics \<times> 'w) vision" where
  "bridge_vision co clock msg v =
     \<lparr>vi_AnalyzeScreenshot = \<lambda>descr shot (m, w). apfst (map_sum msg id) (AnalyzeScreenshot v clock descr shot m w),
      vi_VLMAsJudge = \<lambda>descr shot (m, w). apfst (map_sum msg judgment_result.truncate) (VLMAsJudge co v clock descr shot m w),
      vi_GenerateSelector = \<lambda>descr shot (m, w). apfst (map_sum msg id) (GenerateSelectorFromVLM co v clock descr shot m w)\<rparr>"

text \<open>A page whose screenshot is always the same.\<close>

definition showing :: "string \<Rightarrow> ('w, 's, 'd) healer \<Rightarrow> ('w, 's, 'd) healer" where
  "showing shot h = h\<lparr>he_browser := (he_browser h)\<lparr>br_CaptureScreenshot := \<lambda>w. (Inr shot, w)\<rparr>\<rparr>"

text \<open>the two visual levels of healing, on the bridge, do the same to a page and to the stored patterns whatever the page
  shows, as long as the screenshots have the same first 60 bytes.\<close>

theorem healing_is_blind:
  assumes "60 \<le> length s" "60 \<le> length s'" "take 60 s = take 60 s'"
  shows "tryVLM (showing s h) (bridge_vision co clock msg v) p st = tryVLM (showing s' h) (bridge_vision co clock msg v) p st \<and>
    tryVLMAsJudge (showing s h) (bridge_vision co clock msg v) p st = tryVLMAsJudge (showing s' h) (bridge_vision co clock msg v) p st"
proof -
  let ?v = "bridge_vision co clock msg v"
  note p = preview_start [OF assms]
  have vision: "vi_AnalyzeScreenshot ?v descr s = vi_AnalyzeScreenshot ?v descr s'" "vi_VLMAsJudge ?v descr s = vi_VLMAsJudge ?v descr s'"
    "vi_GenerateSelector ?v descr s = vi_GenerateSelector ?v descr s'" for descr
    by (simp_all add: bridge_vision_def AnalyzeScreenshot_def VLMAsJudge_def GenerateSelectorFromVLM_def
      buildVLMPrompt_def buildJudgePrompt_def buildSelectorPrompt_def p)
  have judged: "judged_selector ?v descr s = judged_selector ?v descr s'" for descr
    by (rule ext)+ (simp only: judged_selector_def vision(3))
  have page: "he_ops (showing x h) = he_ops h" "he_codecs (showing x h) = he_codecs h" "he_env (showing x h) = he_env h"
    "br_CaptureDOM (he_browser (showing x h)) = br_CaptureDOM (he_browser h)" "br_CaptureScreenshot (he_browser (showing x h)) w = (Inr x, w)"
    "br_Click (he_browser (showing x h)) = br_Click (he_browser h)" "br_Evaluate (he_browser (showing x h)) = br_Evaluate (he_browser h)" for x w
    by (simp_all add: showing_def)
  have verify: "verify_text (he_browser (showing x h)) = verify_text (he_browser h)" for x
    by (rule ext)+ (simp only: verify_text_def page)
  show ?thesis unfolding tryVLM_def tryVLMAsJudge_def Let_def page verify prod.case sum.case vision judged by (intro conjI refl)
qed

text \<open>Two screenshots of one size: black and white, say, after the header.\<close>

definition shot_of :: "char \<Rightarrow> string" where
  "shot_of c = replicate 60 (CHR 0x00) @ [c]"

definition plain_bridge :: "unit vlm_bridge" where
  "plain_bridge = NewVLMBridge (\<lambda>_ w. (Inl (ProviderError ''down''), w)) [] []"

definition no_codec :: vlm_codec where
  "no_codec = \<lparr>vc_elements = \<lambda>_. None, vc_verdict = \<lambda>_. None, vc_judgment = \<lambda>_. None, vc_selector = \<lambda>_. None\<rparr>"

lemma screenshot_unseen_witness:
  "shot_of (CHR ''a'') \<noteq> shot_of (CHR ''b'') \<and>
   VLMAsJudge no_codec plain_bridge (\<lambda>_. 0) ''login'' (shot_of (CHR ''a'')) zero_vlm_metrics () =
   VLMAsJudge no_codec plain_bridge (\<lambda>_. 0) ''login'' (shot_of (CHR ''b'')) zero_vlm_metrics ()"
  using screenshot_unseen [of "shot_of (CHR ''a'')" "shot_of (CHR ''b'')" plain_bridge "\<lambda>_. 0" "''login''" zero_vlm_metrics "()" no_codec]
  by (simp add: shot_of_def)

end
