(* ===== verification/Discovery.thy ===== *)
theory Discovery
  imports Vlm_Bridge Float_Near
begin

text \<open>
  \<open>pkg/uiauto/discovery_mode.go\<close>: a first scan of a page that registers one pattern for each type of element. The
  browser, the language model and the vision model act on a world; \<open>ctxErr\<close> tells whether the scan's
  context is over in a world. Printing an error is a parameter.
\<close>

section \<open>State\<close>

record discovered_element =
  de_ID :: string
  de_Selector :: string
  de_Description :: string
  de_ElementType :: string
  de_Confidence :: f64
  de_HTML :: string

datatype scan_error = ScanTimeout | Undiscovered string discover_error | RegisterFailed string store_error

record discovery_result =
  dr_URL :: string
  dr_Elements :: "discovered_element list"
  dr_Duration :: duration
  dr_TotalCandidates :: int
  dr_Registered :: int
  dr_Errors :: "scan_error list"

record discovery_config =
  dc_ElementTypes :: "string list"
  dc_MaxElements :: int
  dc_MinConfidence :: f64
  dc_ScanTimeout :: duration
  dc_UseVLM :: bool

definition DefaultDiscoveryConfig :: discovery_config where
  "DefaultDiscoveryConfig = \<lparr>dc_ElementTypes = [''button'', ''input'', ''link'', ''navigation'', ''form'', ''heading''], dc_MaxElements = 50,
     dc_MinConfidence = flit (1 / 2), dc_ScanTimeout = 30 * second, dc_UseVLM = False\<rparr>"

record ('w, 's, 'd) discovery_mode =
  dm_smart :: "'w smart_discoverer"
  dm_vlm :: "(vlm_codec \<times> 'w vlm_bridge) option"
  dm_ops :: "(ui_pattern, 's) store_ops"
  dm_codecs :: "'d codecs"
  dm_browser :: "'w browser"
  dm_env :: "'w exec_env"
  dm_config :: discovery_config

text \<open>What a scan changes: the world, the tracker and the counters of the vision model.\<close>

record ('w, 's, 'd) scan_state =
  ss_world :: 'w
  ss_tracker :: "('s, 'd) pattern_tracker"
  ss_metrics :: vlm_metrics

definition discovery_WithVLM :: "vlm_codec \<times> 'w vlm_bridge \<Rightarrow> ('w, 's, 'd) discovery_mode \<Rightarrow> ('w, 's, 'd) discovery_mode" where
  "discovery_WithVLM vlm d = d\<lparr>dm_vlm := Some vlm\<rparr>"

section \<open>The scan\<close>

text \<open>Runes above 127 do not occur, so a byte is a rune.\<close>

definition id_char :: "char \<Rightarrow> bool" where
  "id_char c = (let n = (of_char c :: nat) in (97 \<le> n \<and> n \<le> 122) \<or> (65 \<le> n \<and> n \<le> 90) \<or> (48 \<le> n \<and> n \<le> 57) \<or> c = CHR ''_'' \<or> c = CHR ''-'')"

definition sanitizeID :: "string \<Rightarrow> string" where
  "sanitizeID selector = take 64 (map (\<lambda>c. if id_char c then c else CHR ''_'') selector)"

definition scan_prompt :: "string \<Rightarrow> string" where
  "scan_prompt typ = ''Find all '' @ typ @ '' elements on this page and return their CSS selectors''"

definition element_confidence :: "('w, 's, 'd) discovery_mode \<Rightarrow> string \<Rightarrow> string \<Rightarrow> ('w, 's, 'd) scan_state \<Rightarrow> f64 \<times> ('w, 's, 'd) scan_state" where
  "element_confidence d typ selector st =
     (case dm_vlm d of
        None \<Rightarrow> (flit (7 / 10), st)
      | Some (co, vlm) \<Rightarrow>
          if \<not> dc_UseVLM (dm_config d) then (flit (7 / 10), st)
          else case br_CaptureScreenshot (dm_browser d) (ss_world st) of
            (Inl _, w) \<Rightarrow> (flit (7 / 10), st\<lparr>ss_world := w\<rparr>)
          | (Inr shot, w) \<Rightarrow>
              (case VerifyElement co vlm (xe_now (dm_env d)) typ shot selector (ss_metrics st) w of (r, m, w) \<Rightarrow>
                 (case r of Inr (True, c) \<Rightarrow> c | _ \<Rightarrow> flit (7 / 10), st\<lparr>ss_world := w, ss_metrics := m\<rparr>)))"

definition found_element :: "string \<Rightarrow> string \<Rightarrow> f64 \<Rightarrow> string \<Rightarrow> discovered_element" where
  "found_element typ selector c html = \<lparr>de_ID = typ @ ''_'' @ sanitizeID selector, de_Selector = selector,
     de_Description = ''Auto-discovered '' @ typ @ '' element'', de_ElementType = typ, de_Confidence = c, de_HTML = html\<rparr>"

definition register_element :: "('w, 's, 'd) discovery_mode \<Rightarrow> discovered_element \<Rightarrow> discovery_result \<Rightarrow> ('w, 's, 'd) scan_state \<Rightarrow>
    discovery_result \<times> ('w, 's, 'd) scan_state" where
  "register_element d el r st =
     (if \<not> fle (dc_MinConfidence (dm_config d)) (de_Confidence el) \<or> 0 < dc_MaxElements (dm_config d) \<and> dc_MaxElements (dm_config d) \<le> dr_Registered r then (r, st)
      else case RegisterPattern (dm_ops d) (dm_codecs d) (xe_visit (dm_env d) (ss_world st)) (xe_now (dm_env d) (ss_world st))
          (de_ID el) (de_Selector el) (de_Description el) (de_HTML el) (ss_tracker st) of
        (Some e, t) \<Rightarrow> (r\<lparr>dr_Errors := dr_Errors r @ [RegisterFailed (de_ID el) e]\<rparr>, st\<lparr>ss_tracker := t\<rparr>)
      | (None, t) \<Rightarrow> (r\<lparr>dr_Registered := dr_Registered r + 1\<rparr>, st\<lparr>ss_tracker := t\<rparr>))"

primrec scan_types :: "('w, 's, 'd) discovery_mode \<Rightarrow> ('w \<Rightarrow> bool) \<Rightarrow> string \<Rightarrow> string list \<Rightarrow> discovery_result \<Rightarrow> ('w, 's, 'd) scan_state \<Rightarrow>
    discovery_result \<times> ('w, 's, 'd) scan_state" where
  "scan_types d ctxErr html [] r st = (r, st)"
| "scan_types d ctxErr html (typ # types) r st =
     (if ctxErr (ss_world st) then (r\<lparr>dr_Errors := dr_Errors r @ [ScanTimeout]\<rparr>, st)
      else case DiscoverSelector (dm_smart d) (scan_prompt typ) html (ss_world st) of
        (Inl e, w) \<Rightarrow> scan_types d ctxErr html types (r\<lparr>dr_Errors := dr_Errors r @ [Undiscovered typ e]\<rparr>) (st\<lparr>ss_world := w\<rparr>)
      | (Inr selector, w) \<Rightarrow>
          (case element_confidence d typ selector (st\<lparr>ss_world := w\<rparr>) of (c, st) \<Rightarrow>
             let el = found_element typ selector c html;
                 r = r\<lparr>dr_Elements := dr_Elements r @ [el], dr_TotalCandidates := dr_TotalCandidates r + 1\<rparr>
             in case register_element d el r st of (r, st) \<Rightarrow> scan_types d ctxErr html types r st))"

definition Scan :: "('w, 's, 'd) discovery_mode \<Rightarrow> ('w \<Rightarrow> bool) \<Rightarrow> string \<Rightarrow> ('w, 's, 'd) scan_state \<Rightarrow>
    (string + discovery_result) \<times> ('w, 's, 'd) scan_state" where
  "Scan d ctxErr url st =
     (let start = xe_now (dm_env d) (ss_world st) in
      case br_CaptureDOM (dm_browser d) (ss_world st) of
        (Inl e, w) \<Rightarrow> (Inl e, st\<lparr>ss_world := w\<rparr>)
      | (Inr html, w) \<Rightarrow>
          (case scan_types d ctxErr html (dc_ElementTypes (dm_config d)) \<lparr>dr_URL = url, dr_Elements = [], dr_Duration = 0, dr_TotalCandidates = 0,
               dr_Registered = 0, dr_Errors = []\<rparr> (st\<lparr>ss_world := w\<rparr>) of
             (r, st) \<Rightarrow> (Inr (r\<lparr>dr_Duration := time_sub (xe_now (dm_env d) (ss_world st)) start\<rparr>), st)))"

section \<open>The result of a scan\<close>

text \<open>What holds of the result while types are scanned.\<close>

definition element_ok :: "discovery_config \<Rightarrow> string \<Rightarrow> discovered_element \<Rightarrow> bool" where
  "element_ok cfg html el \<longleftrightarrow> de_ElementType el \<in> set (dc_ElementTypes cfg) \<and> de_ID el = de_ElementType el @ ''_'' @ sanitizeID (de_Selector el) \<and> de_HTML el = html"

definition result_ok :: "discovery_config \<Rightarrow> string \<Rightarrow> nat \<Rightarrow> discovery_result \<Rightarrow> bool" where
  "result_ok cfg html n r \<longleftrightarrow> dr_TotalCandidates r = int (length (dr_Elements r)) \<and> length (dr_Elements r) \<le> n \<and>
     0 \<le> dr_Registered r \<and> dr_Registered r \<le> dr_TotalCandidates r \<and> (0 < dc_MaxElements cfg \<longrightarrow> dr_Registered r \<le> dc_MaxElements cfg) \<and>
     (\<forall>el \<in> set (dr_Elements r). element_ok cfg html el)"

abbreviation try_register :: "('w, 's, 'd) discovery_mode \<Rightarrow> discovered_element \<Rightarrow> ('w, 's, 'd) scan_state \<Rightarrow> store_error option \<times> ('s, 'd) pattern_tracker" where
  "try_register d el st \<equiv> RegisterPattern (dm_ops d) (dm_codecs d) (xe_visit (dm_env d) (ss_world st)) (xe_now (dm_env d) (ss_world st))
      (de_ID el) (de_Selector el) (de_Description el) (de_HTML el) (ss_tracker st)"

abbreviation eligible :: "('w, 's, 'd) discovery_mode \<Rightarrow> discovered_element \<Rightarrow> discovery_result \<Rightarrow> bool" where
  "eligible d el r \<equiv> fle (dc_MinConfidence (dm_config d)) (de_Confidence el) \<and> (0 < dc_MaxElements (dm_config d) \<longrightarrow> dr_Registered r < dc_MaxElements (dm_config d))"

lemma register_element_cases:
  "\<not> eligible d el r \<Longrightarrow> register_element d el r st = (r, st)"
  "eligible d el r \<Longrightarrow> try_register d el st = (Some e, t) \<Longrightarrow>
     register_element d el r st = (r\<lparr>dr_Errors := dr_Errors r @ [RegisterFailed (de_ID el) e]\<rparr>, st\<lparr>ss_tracker := t\<rparr>)"
  "eligible d el r \<Longrightarrow> try_register d el st = (None, t) \<Longrightarrow> register_element d el r st = (r\<lparr>dr_Registered := dr_Registered r + 1\<rparr>, st\<lparr>ss_tracker := t\<rparr>)"
  by (auto simp: register_element_def)

lemma register_element_result: "register_element d el r st = (r', st') \<Longrightarrow>
    r' = r \<or> (\<exists>e. r' = r\<lparr>dr_Errors := dr_Errors r @ [RegisterFailed (de_ID el) e]\<rparr>) \<or>
    (r' = r\<lparr>dr_Registered := dr_Registered r + 1\<rparr> \<and> (0 < dc_MaxElements (dm_config d) \<longrightarrow> dr_Registered r < dc_MaxElements (dm_config d)))"
  using register_element_cases [of d el r st] by (metis option.exhaust prod.inject surj_pair)

lemma result_ok_step:
  assumes "result_ok (dm_config d) html n r" "typ \<in> set (dc_ElementTypes (dm_config d))"
    "register_element d (found_element typ sel c html) (r\<lparr>dr_Elements := dr_Elements r @ [found_element typ sel c html],
       dr_TotalCandidates := dr_TotalCandidates r + 1\<rparr>) st = (r', st')"
  shows "result_ok (dm_config d) html (Suc n) r'"
  using register_element_result [OF assms(3)] assms(1,2) unfolding result_ok_def
  by (elim disjE exE conjE) (simp_all add: element_ok_def found_element_def add1_zle_eq)

lemma scan_types_ok:
  "scan_types d ctxErr html types r st = (r', st') \<Longrightarrow> result_ok (dm_config d) html n r \<Longrightarrow> set types \<subseteq> set (dc_ElementTypes (dm_config d)) \<Longrightarrow>
    result_ok (dm_config d) html (n + length types) r'"
proof (induction types arbitrary: n r st)
  case (Cons ty types)
  have weaker: "result_ok (dm_config d) html (Suc n) r'" if "result_ok (dm_config d) html n r'" for r' n
    using that by (simp add: result_ok_def)
  have err: "result_ok (dm_config d) html n (r\<lparr>dr_Errors := es\<rparr>)" for es using Cons.prems(2) by (simp add: result_ok_def)
  obtain out w where ds: "DiscoverSelector (dm_smart d) (scan_prompt ty) html (ss_world st) = (out, w)" by force
  show ?case
  proof (cases "ctxErr (ss_world st)")
    case True
    with Cons.prems(1) err [of "dr_Errors r @ [ScanTimeout]"] show ?thesis by (auto simp: result_ok_def)
  next
    case False
    show ?thesis
    proof (cases out)
      case (Inl e)
      with Cons.prems(1) False ds have "scan_types d ctxErr html types (r\<lparr>dr_Errors := dr_Errors r @ [Undiscovered ty e]\<rparr>) (st\<lparr>ss_world := w\<rparr>) = (r', st')" by simp
      from Cons.IH [OF this weaker [OF err]] Cons.prems(3) show ?thesis by simp
    next
      case (Inr sel)
      obtain c st1 where c: "element_confidence d ty sel (st\<lparr>ss_world := w\<rparr>) = (c, st1)" by force
      let ?el = "found_element ty sel c html"
      obtain r1 st2 where reg: "register_element d ?el (r\<lparr>dr_Elements := dr_Elements r @ [?el], dr_TotalCandidates := dr_TotalCandidates r + 1\<rparr>) st1 = (r1, st2)" by force
      with Cons.prems(1) False ds Inr c have "scan_types d ctxErr html types r1 st2 = (r', st')" by (simp add: Let_def)
      from Cons.IH [OF this result_ok_step [OF Cons.prems(2) _ reg]] Cons.prems(3) show ?thesis by simp
    qed
  qed
qed simp

text \<open>the result of a scan: at most one element for each configured type, every one counted, at most
  \<open>MaxElements\<close> of them registered, each under an identifier made of its type and its cleaned selector.\<close>

theorem scan_result:
  assumes "Scan d ctxErr url st = (Inr r, st')"
  shows "dr_TotalCandidates r = int (length (dr_Elements r))" "length (dr_Elements r) \<le> length (dc_ElementTypes (dm_config d))"
    "0 \<le> dr_Registered r \<and> dr_Registered r \<le> dr_TotalCandidates r" "0 < dc_MaxElements (dm_config d) \<Longrightarrow> dr_Registered r \<le> dc_MaxElements (dm_config d)"
    "el \<in> set (dr_Elements r) \<Longrightarrow> de_ElementType el \<in> set (dc_ElementTypes (dm_config d)) \<and> de_ID el = de_ElementType el @ ''_'' @ sanitizeID (de_Selector el)"
proof -
  let ?r = "\<lparr>dr_URL = url, dr_Elements = [], dr_Duration = 0, dr_TotalCandidates = 0, dr_Registered = 0, dr_Errors = []\<rparr>"
  from assms obtain html w r1 where s: "scan_types d ctxErr html (dc_ElementTypes (dm_config d)) ?r (st\<lparr>ss_world := w\<rparr>) = (r1, st')"
    "r = r1\<lparr>dr_Duration := dr_Duration r\<rparr>"
    by (auto simp: Scan_def Let_def split: prod.splits sum.splits)
  have "result_ok (dm_config d) html 0 ?r" by (simp add: result_ok_def)
  from scan_types_ok [OF s(1) this] have "result_ok (dm_config d) html (length (dc_ElementTypes (dm_config d))) r1" by simp
  then have "result_ok (dm_config d) html (length (dc_ElementTypes (dm_config d))) r" by (subst s(2)) (simp add: result_ok_def)
  then show "dr_TotalCandidates r = int (length (dr_Elements r))" "length (dr_Elements r) \<le> length (dc_ElementTypes (dm_config d))"
    "0 \<le> dr_Registered r \<and> dr_Registered r \<le> dr_TotalCandidates r" "0 < dc_MaxElements (dm_config d) \<Longrightarrow> dr_Registered r \<le> dc_MaxElements (dm_config d)"
    "el \<in> set (dr_Elements r) \<Longrightarrow> de_ElementType el \<in> set (dc_ElementTypes (dm_config d)) \<and> de_ID el = de_ElementType el @ ''_'' @ sanitizeID (de_Selector el)"
    by (simp_all add: result_ok_def element_ok_def)
qed

section \<open>What the vision model decides\<close>

lemma register_attempt:
  assumes "eligible d el r"
  shows "register_element d el r st \<noteq> (r, st')"
proof -
  obtain e t where reg: "try_register d el st = (e, t)" by force
  have "length (dr_Errors (fst (register_element d el r st))) = length (dr_Errors r) + 1 \<or> dr_Registered (fst (register_element d el r st)) = dr_Registered r + 1"
    using register_element_cases(2) [OF assms] register_element_cases(3) [OF assms] reg by (cases e) simp_all
  then show ?thesis by auto
qed

text \<open>an element is kept out of the store only when the vision model says that the selector matches and is less than
  half certain; when it says that the selector does not match, however certain, or fails, the element is registered.\<close>

theorem only_approval_rejects:
  assumes "dm_vlm d = Some (co, vlm)" "dc_UseVLM (dm_config d)" "dc_MinConfidence (dm_config d) = flit (1 / 2)"
    "dc_MaxElements (dm_config d) = 0 \<or> dr_Registered r < dc_MaxElements (dm_config d)"
    "br_CaptureScreenshot (dm_browser d) (ss_world st) = (Inr shot, w)"
    "VerifyElement co vlm (xe_now (dm_env d)) typ shot sel (ss_metrics st) w = (verdict, m, w')"
    "element_confidence d typ sel st = (c, st')"
  shows "register_element d (found_element typ sel c html) r st' = (r, st') \<longleftrightarrow> (\<exists>c. verdict = Inr (True, c) \<and> \<not> fle (flit (1 / 2)) c)"
proof -
  have c: "c = (case verdict of Inr (True, c) \<Rightarrow> c | _ \<Rightarrow> flit (7 / 10))" using assms(1,2,5-7) by (simp add: element_confidence_def)
  have seven: "fle (flit (1 / 2)) (flit (7 / 10))" by (rule near_fle [OF near_lit_unit near_lit_unit]) simp_all
  have conf: "de_Confidence (found_element typ sel c html) = c" by (simp add: found_element_def)
  have "register_element d (found_element typ sel c html) r st' = (r, st') \<longleftrightarrow> \<not> fle (flit (1 / 2)) c"
    using register_attempt [of d "found_element typ sel c html" r st' st'] register_element_cases(1) [of d "found_element typ sel c html" r st'] assms(3,4)
    unfolding conf by auto
  then show ?thesis using seven by (auto simp: c split: sum.splits prod.splits bool.splits)
qed

section \<open>What a scan stores\<close>

context tracked_store begin

lemma register_keeps_others:
  assumes "inv (pk_store t)" "k' \<noteq> k"
  shows "view (pk_store (snd (RegisterPattern ops co visit now k sel desc html t))) k' = view (pk_store t) k'"
    "inv (pk_store (snd (RegisterPattern ops co visit now k sel desc html t)))"
proof -
  let ?p = "new_pattern visit now k sel desc html"
  obtain e s where s: "op_Set ops ?p (pk_store t) = (e, s)" by force
  then have st: "pk_store (snd (RegisterPattern ops co visit now k sel desc html t)) = s" by (simp add: RegisterPattern_def Let_def split: prod.splits)
  show "view (pk_store (snd (RegisterPattern ops co visit now k sel desc html t))) k' = view (pk_store t) k'"
    unfolding st by (rule get_other_after_set [OF assms(1) s]) (use assms(2) in \<open>simp add: new_pattern_def\<close>)
  show "inv (pk_store (snd (RegisterPattern ops co visit now k sel desc html t)))" unfolding st using inv_set [OF assms(1), of ?p] s by simp
qed

end

lemma element_confidence_tracker: "element_confidence d ty sel st = (c, st') \<Longrightarrow> ss_tracker st' = ss_tracker st"
  by (auto simp: element_confidence_def split: option.splits prod.splits sum.splits if_splits)

lemma register_element_others:
  assumes "dm_ops d = ui_ops enc dec" "wf_map (us_patterns (pk_store (ss_tracker st)))" "register_element d el r st = (r', st')"
  shows "wf_map (us_patterns (pk_store (ss_tracker st')))" "eligible d el r \<and> k = de_ID el \<or> us_view (pk_store (ss_tracker st')) k = us_view (pk_store (ss_tracker st)) k"
proof -
  obtain e t where reg: "try_register d el st = (e, t)" by force
  note others = tracked.register_keeps_others [where t = "ss_tracker st" and k = "de_ID el", OF assms(2)]
  have step: "ss_tracker st' = (if eligible d el r then t else ss_tracker st)"
  proof (cases "eligible d el r")
    case True
    then show ?thesis using register_element_cases(2) [OF True] register_element_cases(3) [OF True] reg assms(3) by (cases e) auto
  next
    case False
    then have "st' = st" using register_element_cases(1) [OF False, of st] assms(3) by simp
    with False show ?thesis by (simp only: if_False)
  qed
  have t: "t = snd (RegisterPattern (ui_ops enc dec) (dm_codecs d) (xe_visit (dm_env d) (ss_world st)) (xe_now (dm_env d) (ss_world st))
      (de_ID el) (de_Selector el) (de_Description el) (de_HTML el) (ss_tracker st))"
    using reg by (simp add: assms(1))
  have "CHR ''x'' # de_ID el \<noteq> de_ID el" by simp
  then have "wf_map (us_patterns (pk_store t))" unfolding t by (rule others(2))
  with assms(2) step show "wf_map (us_patterns (pk_store (ss_tracker st')))" by simp
  have "us_view (pk_store t) k = us_view (pk_store (ss_tracker st)) k" if "k \<noteq> de_ID el" unfolding t using that by (rule others(1))
  with step show "eligible d el r \<and> k = de_ID el \<or> us_view (pk_store (ss_tracker st')) k = us_view (pk_store (ss_tracker st)) k" by auto
qed

lemma register_element_elements: "register_element d el r st = (r', st') \<Longrightarrow> dr_Elements r' = dr_Elements r"
  by (drule register_element_result, elim disjE exE conjE) simp_all

abbreviation stored_for :: "('w, 's, 'd) discovery_mode \<Rightarrow> discovery_result \<Rightarrow> string \<Rightarrow> bool" where
  "stored_for d r k \<equiv> \<exists>el \<in> set (dr_Elements r). de_ID el = k \<and> fle (dc_MinConfidence (dm_config d)) (de_Confidence el)"

lemma scan_types_stores:
  assumes "dm_ops d = ui_ops enc dec"
  shows "scan_types d ctxErr html types r st = (r', st') \<Longrightarrow> wf_map (us_patterns (pk_store (ss_tracker st))) \<Longrightarrow>
    set (dr_Elements r) \<subseteq> set (dr_Elements r') \<and> (stored_for d r' k \<or> us_view (pk_store (ss_tracker st')) k = us_view (pk_store (ss_tracker st)) k)"
proof (induction types arbitrary: r st)
  case (Cons ty types)
  obtain out w where ds: "DiscoverSelector (dm_smart d) (scan_prompt ty) html (ss_world st) = (out, w)" by force
  show ?case
  proof (cases "ctxErr (ss_world st)")
    case True
    then show ?thesis using Cons.prems(1) by auto
  next
    case False
    show ?thesis
    proof (cases out)
      case (Inl e)
      with Cons.prems(1) False ds have "scan_types d ctxErr html types (r\<lparr>dr_Errors := dr_Errors r @ [Undiscovered ty e]\<rparr>) (st\<lparr>ss_world := w\<rparr>) = (r', st')" by simp
      from Cons.IH [OF this] Cons.prems(2) show ?thesis by simp
    next
      case (Inr sel)
      obtain c st1 where c: "element_confidence d ty sel (st\<lparr>ss_world := w\<rparr>) = (c, st1)" by force
      let ?el = "found_element ty sel c html"
      let ?r = "r\<lparr>dr_Elements := dr_Elements r @ [?el], dr_TotalCandidates := dr_TotalCandidates r + 1\<rparr>"
      obtain r1 st2 where reg: "register_element d ?el ?r st1 = (r1, st2)" by force
      with Cons.prems(1) False ds Inr c have rest: "scan_types d ctxErr html types r1 st2 = (r', st')" by (simp add: Let_def)
      have t1: "ss_tracker st1 = ss_tracker st" using element_confidence_tracker [OF c] by simp
      note others = register_element_others [OF assms _ reg, unfolded t1, OF Cons.prems(2)]
      have els: "dr_Elements r1 = dr_Elements r @ [?el]" using register_element_elements [OF reg] by simp
      from Cons.IH [OF rest others(1)] others(2) [of k] show ?thesis by (auto simp: els)
    qed
  qed
qed simp

text \<open>C38: a scan over the file store changes nothing in it but the patterns of the elements it reports, those confident enough.\<close>

theorem scan_touches_only_found:
  assumes "dm_ops d = ui_ops enc dec" "wf_map (us_patterns (pk_store (ss_tracker st)))" "Scan d ctxErr url st = (Inr r, st')"
  shows "us_view (pk_store (ss_tracker st')) k = us_view (pk_store (ss_tracker st)) k \<or>
    (\<exists>el \<in> set (dr_Elements r). de_ID el = k \<and> fle (dc_MinConfidence (dm_config d)) (de_Confidence el))"
proof -
  let ?r = "\<lparr>dr_URL = url, dr_Elements = [], dr_Duration = 0, dr_TotalCandidates = 0, dr_Registered = 0, dr_Errors = []\<rparr>"
  from assms(3) obtain html w r1 where s: "scan_types d ctxErr html (dc_ElementTypes (dm_config d)) ?r (st\<lparr>ss_world := w\<rparr>) = (r1, st')"
    "r = r1\<lparr>dr_Duration := dr_Duration r\<rparr>"
    by (auto simp: Scan_def Let_def split: prod.splits sum.splits)
  have "stored_for d r1 k \<or> us_view (pk_store (ss_tracker st')) k = us_view (pk_store (ss_tracker st)) k"
    using scan_types_stores [OF assms(1) s(1), of k] assms(2) by simp
  moreover have "dr_Elements r = dr_Elements r1" by (subst s(2)) simp
  ultimately show ?thesis by auto
qed

section \<open>Witnesses\<close>

definition button_scan :: "(time, ui_patterns ui_store, nat) discovery_mode" where
  "button_scan = \<lparr>dm_smart = NewSmartDiscoverer (\<lambda>_ w. (Inr \<lparr>Choices = [\<lparr>choice_Index = 0, choice_Message = \<lparr>Role = ''assistant'', Content = ''#go'', Reasoning = []\<rparr>\<rparr>],
       Usage = \<lparr>PromptTokens = 0, CompletionTokens = 0, TotalTokens = 0\<rparr>\<rparr>, w)) [],
     dm_vlm = Some (no_codec, NewVLMBridge (\<lambda>_ w. (Inl (ProviderError ''down''), w)) [] []), dm_ops = ui_ops id (Pair None), dm_codecs = blank_codecs,
     dm_browser = blind_browser, dm_env = plain_clock, dm_config = DefaultDiscoveryConfig\<lparr>dc_UseVLM := True\<rparr>\<rparr>"

definition first_scan :: "(time, ui_patterns ui_store, nat) scan_state" where
  "first_scan = \<lparr>ss_world = 0, ss_tracker = blank_tracker, ss_metrics = zero_vlm_metrics\<rparr>"

lemma button_scan_works: "\<exists>r st'. Scan button_scan (\<lambda>_. False) ''a'' first_scan = (Inr r, st')"
  by (simp add: Scan_def Let_def button_scan_def blind_browser_def split: prod.splits)

lemma scan_result_witness: "\<exists>r st'. Scan button_scan (\<lambda>_. False) ''a'' first_scan = (Inr r, st') \<and> length (dr_Elements r) \<le> 6 \<and> dr_Registered r \<le> 50"
proof -
  obtain r st' where s: "Scan button_scan (\<lambda>_. False) ''a'' first_scan = (Inr r, st')" using button_scan_works by blast
  show ?thesis using scan_result(2) [OF s] scan_result(4) [OF s] s by (auto simp: button_scan_def DefaultDiscoveryConfig_def)
qed

lemma scan_touches_only_found_witness:
  "\<exists>r st'. Scan button_scan (\<lambda>_. False) ''a'' first_scan = (Inr r, st') \<and> (us_view (pk_store (ss_tracker st')) ''go'' = us_view (pk_store (ss_tracker first_scan)) ''go'' \<or>
    (\<exists>el \<in> set (dr_Elements r). de_ID el = ''go'' \<and> fle (flit (1 / 2)) (de_Confidence el)))"
proof -
  obtain r st' where s: "Scan button_scan (\<lambda>_. False) ''a'' first_scan = (Inr r, st')" using button_scan_works by blast
  have "dm_ops button_scan = ui_ops id (Pair None)" "wf_map (us_patterns (pk_store (ss_tracker first_scan)))"
    "dc_MinConfidence (dm_config button_scan) = flit (1 / 2)"
    by (simp_all add: button_scan_def first_scan_def blank_tracker_def DefaultDiscoveryConfig_def)
  with scan_touches_only_found [OF _ _ s, of id "Pair None" "''go''"] s show ?thesis by auto
qed

lemma only_approval_rejects_witness:
  "case element_confidence button_scan ''button'' ''#go'' first_scan of (c, st) \<Rightarrow>
     register_element button_scan (found_element ''button'' ''#go'' c ''<p>'') \<lparr>dr_URL = ''a'', dr_Elements = [], dr_Duration = 0, dr_TotalCandidates = 0,
       dr_Registered = 0, dr_Errors = []\<rparr> st \<noteq> (\<lparr>dr_URL = ''a'', dr_Elements = [], dr_Duration = 0, dr_TotalCandidates = 0, dr_Registered = 0, dr_Errors = []\<rparr>, st)"
proof -
  let ?vlm = "NewVLMBridge (\<lambda>_ w. (Inl (ProviderError ''down''), w)) [] [] :: time vlm_bridge"
  obtain c st where c: "element_confidence button_scan ''button'' ''#go'' first_scan = (c, st)" by force
  obtain e m w where v: "VerifyElement no_codec ?vlm (xe_now (dm_env button_scan)) ''button'' [] ''#go'' (ss_metrics first_scan) 0 = (Inl e, m, w)"
    by (simp add: VerifyElement_def question_def NewVLMBridge_def Let_def)
  have f: "dm_vlm button_scan = Some (no_codec, ?vlm)" "dc_UseVLM (dm_config button_scan)" "dc_MinConfidence (dm_config button_scan) = flit (1 / 2)"
    "dc_MaxElements (dm_config button_scan) = 50" "br_CaptureScreenshot (dm_browser button_scan) (ss_world first_scan) = (Inr [], 0)"
    by (simp_all add: button_scan_def first_scan_def blind_browser_def DefaultDiscoveryConfig_def)
  show ?thesis unfolding c prod.case by (subst only_approval_rejects [OF f(1-3) _ f(5) v c]) (simp_all add: f(4))
qed

end
