(* ===== verification/Fleet.thy ===== *)
theory Fleet
  imports Evolver_Store
begin

text \<open>
  \<open>pkg/evolver/fleet_coordination.go\<close>, \<open>feedback_loop.go\<close> and \<open>persistent_fleet.go\<close>: the register of the machines of a
  fleet, the loop that turns measured breaches into actions, and both over the file store. The
  codecs of the documents and the readings of the clock are parameters; the map of nodes is
  visited in some order by \<open>Nodes\<close> only.
\<close>

section \<open>The coordinator\<close>

record fleet =
  fl_nodes :: "(string, fleet_node) gomap"
  fl_shares :: "pattern_share list"
  fl_delegations :: "task_delegation list"

definition NewFleetCoordinator :: fleet where
  "NewFleetCoordinator = \<lparr>fl_nodes = [], fl_shares = [], fl_delegations = []\<rparr>"

definition seen_at :: "time \<Rightarrow> fleet_node \<Rightarrow> fleet_node" where
  "seen_at now node = node\<lparr>fn_LastSeen := now, fn_Status := ''online''\<rparr>"

definition fc_RegisterNode :: "time \<Rightarrow> fleet_node \<Rightarrow> fleet \<Rightarrow> fleet" where
  "fc_RegisterNode now node fc = fc\<lparr>fl_nodes := mset_at (fl_nodes fc) (fn_ID node) (seen_at now node)\<rparr>"

definition fc_Nodes :: "((string, fleet_node) gomap \<Rightarrow> (string, fleet_node) gomap) \<Rightarrow> fleet \<Rightarrow> fleet_node list" where
  "fc_Nodes visit fc = map snd (visit (fl_nodes fc))"

datatype fleet_error = SourceUnknown string | TargetUnknown string | NotStored doc_error

definition fc_SharePattern :: "time \<Rightarrow> pattern_share \<Rightarrow> fleet \<Rightarrow> fleet_error option \<times> fleet" where
  "fc_SharePattern now s fc =
     (if mget (fl_nodes fc) (sh_SourceNode s) = None then (Some (SourceUnknown (sh_SourceNode s)), fc)
      else if mget (fl_nodes fc) (sh_TargetNode s) = None then (Some (TargetUnknown (sh_TargetNode s)), fc)
      else (None, fc\<lparr>fl_shares := fl_shares fc @ [s\<lparr>sh_Timestamp := now\<rparr>]\<rparr>))"

definition fc_DelegateTask :: "time \<Rightarrow> task_delegation \<Rightarrow> fleet \<Rightarrow> fleet_error option \<times> fleet" where
  "fc_DelegateTask now t fc =
     (if mget (fl_nodes fc) (td_SourceNode t) = None then (Some (SourceUnknown (td_SourceNode t)), fc)
      else (None, fc\<lparr>fl_delegations := fl_delegations fc @ [t\<lparr>td_CreatedAt := now, td_Status := ''pending''\<rparr>]\<rparr>))"

section \<open>The coordinator over the file store\<close>

record 'd fleet_codecs =
  fk_node :: "(fleet_node, 'd) codec"
  fk_share :: "(pattern_share, 'd) codec"
  fk_task :: "(task_delegation, 'd) codec"
  fk_signal :: "(feedback_signal, 'd) codec"
  fk_action :: "(feedback_action, 'd) codec"

text \<open>An error of loading is only logged.\<close>

definition NewPersistentFleetCoordinator :: "'d fleet_codecs \<Rightarrow> string \<Rightarrow> (nat \<Rightarrow> time) \<Rightarrow> 'd disk \<Rightarrow> fleet \<times> 'd disk" where
  "NewPersistentFleetCoordinator co base clock d =
     (case ListFleetNodes (fk_node co) base d of
        (Inl e, d) \<Rightarrow> (NewFleetCoordinator, d)
      | (Inr nodes, d) \<Rightarrow> (fold (\<lambda>(i, n). fc_RegisterNode (clock i) n) (enumerate 0 nodes) NewFleetCoordinator, d))"

definition pf_RegisterNode :: "'d fleet_codecs \<Rightarrow> string \<Rightarrow> time \<Rightarrow> time \<Rightarrow> fleet_node \<Rightarrow> fleet \<times> 'd disk \<Rightarrow> fleet_error option \<times> fleet \<times> 'd disk" where
  "pf_RegisterNode co base t1 t2 node st =
     (case st of (fc, d) \<Rightarrow>
        (case SaveFleetNode (fk_node co) base (seen_at t2 node) d of (r, d) \<Rightarrow> (map_option NotStored r, fc_RegisterNode t1 node fc, d)))"

definition pf_SharePattern :: "'d fleet_codecs \<Rightarrow> string \<Rightarrow> time \<Rightarrow> time \<Rightarrow> pattern_share \<Rightarrow> fleet \<times> 'd disk \<Rightarrow> fleet_error option \<times> fleet \<times> 'd disk" where
  "pf_SharePattern co base t1 t2 s st =
     (case st of (fc, d) \<Rightarrow>
        (case fc_SharePattern t1 s fc of
           (Some e, fc) \<Rightarrow> (Some e, fc, d)
         | (None, fc) \<Rightarrow> (case SavePatternShare (fk_share co) base (s\<lparr>sh_Timestamp := t2\<rparr>) d of (r, d) \<Rightarrow> (map_option NotStored r, fc, d))))"

definition pf_DelegateTask :: "'d fleet_codecs \<Rightarrow> string \<Rightarrow> time \<Rightarrow> time \<Rightarrow> task_delegation \<Rightarrow> fleet \<times> 'd disk \<Rightarrow> fleet_error option \<times> fleet \<times> 'd disk" where
  "pf_DelegateTask co base t1 t2 t st =
     (case st of (fc, d) \<Rightarrow>
        (case fc_DelegateTask t1 t fc of
           (Some e, fc) \<Rightarrow> (Some e, fc, d)
         | (None, fc) \<Rightarrow> (case SaveTaskDelegation (fk_task co) base (t\<lparr>td_CreatedAt := t2, td_Status := ''pending''\<rparr>) d of
             (r, d) \<Rightarrow> (map_option NotStored r, fc, d))))"

datatype fleet_op = JoinFleet time time fleet_node | SendPattern time time pattern_share | GiveTask time time task_delegation

definition fleet_do :: "'d fleet_codecs \<Rightarrow> string \<Rightarrow> fleet_op \<Rightarrow> fleet \<times> 'd disk \<Rightarrow> fleet_error option \<times> fleet \<times> 'd disk" where
  "fleet_do co base act st =
     (case act of
        JoinFleet t1 t2 node \<Rightarrow> pf_RegisterNode co base t1 t2 node st
      | SendPattern t1 t2 s \<Rightarrow> pf_SharePattern co base t1 t2 s st
      | GiveTask t1 t2 t \<Rightarrow> pf_DelegateTask co base t1 t2 t st)"

section \<open>The feedback loop\<close>

record feedback_loop =
  fb_signals :: "feedback_signal list"
  fb_actions :: "feedback_action list"

definition NewFeedbackLoop :: feedback_loop where
  "NewFeedbackLoop = \<lparr>fb_signals = [], fb_actions = []\<rparr>"

definition stamped :: "time \<Rightarrow> feedback_signal \<Rightarrow> feedback_signal" where
  "stamped now s = (if fs_Timestamp s = 0 then s\<lparr>fs_Timestamp := now\<rparr> else s)"

definition fb_IngestSignal :: "time \<Rightarrow> feedback_signal \<Rightarrow> feedback_loop \<Rightarrow> feedback_loop" where
  "fb_IngestSignal now s fl = fl\<lparr>fb_signals := fb_signals fl @ [stamped now s]\<rparr>"

definition breaches :: "feedback_signal list \<Rightarrow> feedback_action list" where
  "breaches signals = map (\<lambda>s. \<lparr>fa_SignalSource = fs_Source s, fa_ActionType = ''mutate'',
       fa_Description = Exceeds (fs_Metric s) (fs_Value s) (fs_Threshold s), fa_Applied = False\<rparr>)
     (filter (\<lambda>s. flt (fs_Threshold s) (fs_Value s)) signals)"

definition fb_Evaluate :: "feedback_loop \<Rightarrow> feedback_action list \<times> feedback_loop" where
  "fb_Evaluate fl = (let actions = breaches (fb_signals fl) in (actions, fl\<lparr>fb_actions := fb_actions fl @ actions\<rparr>))"

definition fb_ApplyAction :: "int \<Rightarrow> feedback_loop \<Rightarrow> feedback_loop" where
  "fb_ApplyAction idx fl =
     (if 0 \<le> idx \<and> idx < int (length (fb_actions fl))
      then fl\<lparr>fb_actions := (fb_actions fl)[nat idx := (fb_actions fl ! nat idx)\<lparr>fa_Applied := True\<rparr>]\<rparr> else fl)"

definition pl_IngestSignal :: "'d fleet_codecs \<Rightarrow> string \<Rightarrow> time \<Rightarrow> time \<Rightarrow> feedback_signal \<Rightarrow> feedback_loop \<times> 'd disk \<Rightarrow>
    doc_error option \<times> feedback_loop \<times> 'd disk" where
  "pl_IngestSignal co base t1 t2 s st =
     (case st of (fl, d) \<Rightarrow> (case SaveFeedbackSignal (fk_signal co) base (stamped t2 s) d of (r, d) \<Rightarrow> (r, fb_IngestSignal t1 s fl, d)))"

text \<open>Every action is saved, each at its own reading of the clock; errors are only logged.\<close>

primrec save_actions :: "'d fleet_codecs \<Rightarrow> string \<Rightarrow> (time \<times> feedback_action) list \<Rightarrow> 'd disk \<Rightarrow> 'd disk" where
  "save_actions co base [] d = d"
| "save_actions co base (ta # tas) d = save_actions co base tas (snd (SaveFeedbackAction (fk_action co) (fst ta) base (snd ta) d))"

definition pl_Evaluate :: "'d fleet_codecs \<Rightarrow> string \<Rightarrow> (nat \<Rightarrow> time) \<Rightarrow> feedback_loop \<times> 'd disk \<Rightarrow> feedback_action list \<times> feedback_loop \<times> 'd disk" where
  "pl_Evaluate co base clock st =
     (case st of (fl, d) \<Rightarrow> (case fb_Evaluate fl of (actions, fl) \<Rightarrow>
        (actions, fl, save_actions co base (map (\<lambda>(i, a). (clock i, a)) (enumerate 0 actions)) d)))"

section \<open>What the coordinator remembers\<close>

text \<open>Shares and delegations only mention machines that are registered, whatever the order of the operations.\<close>

definition fleet_ok :: "fleet \<Rightarrow> bool" where
  "fleet_ok fc \<longleftrightarrow> wf_map (fl_nodes fc) \<and> (\<forall>i n. mget (fl_nodes fc) i = Some n \<longrightarrow> fn_ID n = i) \<and>
     (\<forall>s \<in> set (fl_shares fc). mget (fl_nodes fc) (sh_SourceNode s) \<noteq> None \<and> mget (fl_nodes fc) (sh_TargetNode s) \<noteq> None) \<and>
     (\<forall>t \<in> set (fl_delegations fc). mget (fl_nodes fc) (td_SourceNode t) \<noteq> None)"

lemma fleet_ok_register: "fleet_ok fc \<Longrightarrow> fleet_ok (fc_RegisterNode now n fc)"
  by (auto simp: fleet_ok_def fc_RegisterNode_def seen_at_def)

lemma fleet_ok_do: "fleet_ok fc \<Longrightarrow> fleet_do co base act (fc, d) = (r, fc', d') \<Longrightarrow> fleet_ok fc'"
  by (cases act) (auto simp: fleet_do_def pf_RegisterNode_def pf_SharePattern_def pf_DelegateTask_def fc_SharePattern_def fc_DelegateTask_def
    fleet_ok_register split: prod.splits option.splits if_splits, auto simp: fleet_ok_def)

text \<open>The documents of the nodes on the disk are the nodes in memory, up to the time they were seen at.\<close>

definition nodes_stored :: "'d fleet_codecs \<Rightarrow> string \<Rightarrow> fleet \<Rightarrow> 'd disk \<Rightarrow> bool" where
  "nodes_stored co base fc d \<longleftrightarrow> (\<exists>latest. holds (fk_node co) base ''fleet/nodes'' latest d \<and>
     (\<forall>i. map_option (seen_at 0) (latest i) = map_option (seen_at 0) (mget (fl_nodes fc) i)) \<and> (\<forall>i n. latest i = Some n \<longrightarrow> fn_ID n = i))"

lemma holds_other:
  assumes "holds co base sub latest d" "saveJSON kind base other i enc d = (None, d')" "\<And>n. doc_path base other i \<noteq> join_path (doc_dir base sub) n"
  shows "holds co base sub latest d'"
proof -
  from saveJSON_ok [OF assms(2)] obtain x where "d_files d' = mset_at (d_files d) (doc_path base other i) x" "d_dirs d' = d_dirs d" by auto
  with assms(1) assms(3) [symmetric] show ?thesis by (simp add: holds_def)
qed

lemma other_dirs: "doc_path base ''fleet/shares'' i \<noteq> join_path (doc_dir base ''fleet/nodes'') n"
  "doc_path base ''fleet/delegations'' i \<noteq> join_path (doc_dir base ''fleet/nodes'') n"
  by (simp_all add: doc_path_def doc_dir_def join_path_def)

fun op_name_ok :: "fleet_op \<Rightarrow> bool" where
  "op_name_ok (JoinFleet _ _ n) = (CHR ''/'' \<notin> set (fn_ID n))"
| "op_name_ok _ = True"

lemma nodes_stored_do:
  assumes "nodes_stored co base fc d" "fleet_do co base act (fc, d) = (None, fc', d')" "op_name_ok act"
  shows "nodes_stored co base fc' d'"
proof -
  from assms(1) obtain latest where l: "holds (fk_node co) base ''fleet/nodes'' latest d"
    "\<And>i. map_option (seen_at 0) (latest i) = map_option (seen_at 0) (mget (fl_nodes fc) i)" "\<And>i n. latest i = Some n \<Longrightarrow> fn_ID n = i"
    by (auto simp: nodes_stored_def)
  show ?thesis
  proof (cases act)
    case (JoinFleet t1 t2 n)
    with assms(2) have s: "saveJSON [] base ''fleet/nodes'' (fn_ID n) (co_enc (fk_node co) (seen_at t2 n)) d = (None, d')" "fc' = fc_RegisterNode t1 n fc"
      by (auto simp: fleet_do_def pf_RegisterNode_def SaveFleetNode_def seen_at_def split: prod.splits)
    have "holds (fk_node co) base ''fleet/nodes'' (latest(fn_ID n \<mapsto> seen_at t2 n)) d'"
      using holds_save [OF l(1) s(1)] assms(3) JoinFleet by simp
    with l(2,3) show ?thesis unfolding nodes_stored_def s(2)
      by (intro exI [of _ "latest(fn_ID n \<mapsto> seen_at t2 n)"]) (auto simp: fc_RegisterNode_def seen_at_def split: if_splits)
  next
    case (SendPattern t1 t2 s)
    with assms(2) have "SavePatternShare (fk_share co) base (s\<lparr>sh_Timestamp := t2\<rparr>) d = (None, d')" "fl_nodes fc' = fl_nodes fc"
      by (auto simp: fleet_do_def pf_SharePattern_def fc_SharePattern_def split: prod.splits option.splits if_splits)
    with holds_other [OF l(1) _ other_dirs(1)] l(2,3) show ?thesis unfolding nodes_stored_def SavePatternShare_def by (intro exI [of _ latest]) simp
  next
    case (GiveTask t1 t2 t)
    with assms(2) have "SaveTaskDelegation (fk_task co) base (t\<lparr>td_CreatedAt := t2, td_Status := ''pending''\<rparr>) d = (None, d')" "fl_nodes fc' = fl_nodes fc"
      by (auto simp: fleet_do_def pf_DelegateTask_def fc_DelegateTask_def split: prod.splits option.splits if_splits)
    with holds_other [OF l(1) _ other_dirs(2)] l(2,3) show ?thesis unfolding nodes_stored_def SaveTaskDelegation_def by (intro exI [of _ latest]) simp
  qed
qed

text \<open>A run in which every operation succeeds.\<close>

primrec fleet_run :: "'d fleet_codecs \<Rightarrow> string \<Rightarrow> fleet_op list \<Rightarrow> fleet \<times> 'd disk \<Rightarrow> (fleet \<times> 'd disk) option" where
  "fleet_run co base [] st = Some st"
| "fleet_run co base (act # acts) st = (case fleet_do co base act st of (None, st) \<Rightarrow> fleet_run co base acts st | (Some e, st) \<Rightarrow> None)"

lemma fleet_run_ok:
  "fleet_run co base acts (fc, d) = Some (fc', d') \<Longrightarrow> nodes_stored co base fc d \<Longrightarrow> fleet_ok fc \<Longrightarrow> \<forall>act \<in> set acts. op_name_ok act \<Longrightarrow>
    nodes_stored co base fc' d' \<and> fleet_ok fc'"
proof (induction acts arbitrary: fc d)
  case (Cons act acts)
  from Cons.prems(1) obtain fc1 d1 where s: "fleet_do co base act (fc, d) = (None, fc1, d1)" "fleet_run co base acts (fc1, d1) = Some (fc', d')"
    by (auto split: prod.splits option.splits)
  from Cons.IH [OF s(2) nodes_stored_do [OF Cons.prems(2) s(1)] fleet_ok_do [OF Cons.prems(3) s(1)]] Cons.prems(4) show ?case by simp
qed simp

text \<open>Registering the listed nodes one after the other.\<close>

lemma register_all:
  "mget (fl_nodes (fold (\<lambda>(i, n). fc_RegisterNode (clock i) n) (enumerate k ns) fc)) j =
     (case find (\<lambda>(i, n). fn_ID n = j) (rev (enumerate k ns)) of Some (i, n) \<Rightarrow> Some (seen_at (clock i) n) | None \<Rightarrow> mget (fl_nodes fc) j) \<and>
   fl_shares (fold (\<lambda>(i, n). fc_RegisterNode (clock i) n) (enumerate k ns) fc) = fl_shares fc \<and>
   fl_delegations (fold (\<lambda>(i, n). fc_RegisterNode (clock i) n) (enumerate k ns) fc) = fl_delegations fc"
proof (induction ns rule: rev_induct)
  case (snoc n ns)
  have "enumerate k (ns @ [n]) = enumerate k ns @ [(k + length ns, n)]" by (simp add: enumerate_append_eq)
  with snoc show ?case by (auto simp: fc_RegisterNode_def seen_at_def)
qed simp

lemma find_found: "find P xs = Some x \<Longrightarrow> P x \<and> x \<in> set xs"
  by (induction xs) (auto split: if_splits)

lemma seen_twice [simp]: "seen_at t (seen_at t' n) = seen_at t n"
  by (simp add: seen_at_def)

lemma seen_status: "fn_Status (seen_at t n) = ''online''"
  by (simp add: seen_at_def)

lemma found_latest:
  assumes mem: "\<And>n. n \<in> set vs \<longleftrightarrow> (\<exists>i. latest i = Some n)" and ids: "\<And>i n. latest i = Some n \<Longrightarrow> fn_ID n = i"
  shows "case find (\<lambda>(i, n). fn_ID n = j) (rev (enumerate k vs)) of None \<Rightarrow> latest j = None | Some (i, n) \<Rightarrow> latest j = Some n"
proof (cases "find (\<lambda>(i, n). fn_ID n = j) (rev (enumerate k vs))")
  case None
  then have "\<forall>n \<in> snd ` set (enumerate k vs). fn_ID n \<noteq> j" unfolding find_None_iff by fastforce
  then have "\<forall>n \<in> set vs. fn_ID n \<noteq> j" by (metis list.set_map map_snd_enumerate)
  then have "latest j = None" using mem ids by (metis not_None_eq)
  with None show ?thesis by simp
next
  case (Some x)
  obtain i n where x: "x = (i, n)" by force
  have "find (\<lambda>(i, n). fn_ID n = j) (rev (enumerate k vs)) = Some (i, n)" using Some x by simp
  from find_found [OF this] have "fn_ID n = j" "(i, n) \<in> set (enumerate k vs)" by simp_all
  then have "n \<in> set vs" by (auto simp: in_set_enumerate_eq)
  with mem ids \<open>fn_ID n = j\<close> have "latest j = Some n" by metis
  with Some x show ?thesis by simp
qed

text \<open>C34: a coordinator started over the files of an earlier one knows the same machines under the same identifiers,
  with their names and platforms, all of them online and just seen; it knows none of the shares and delegations.\<close>

theorem fleet_restart:
  assumes "codec_ok (fk_node co)" "NewFileStore base d0 = (Inr b, d1)" "d_files d0 = []" "\<forall>act \<in> set acts. op_name_ok act"
    "fleet_run co base acts (NewFleetCoordinator, d1) = Some (fc, d)" "d_next d = []"
    "NewPersistentFleetCoordinator co base clock d = (fc', d')"
  shows "map_option (seen_at 0) (mget (fl_nodes fc') i) = map_option (seen_at 0) (mget (fl_nodes fc) i) \<and>
    (\<forall>n. mget (fl_nodes fc') i = Some n \<longrightarrow> fn_Status n = ''online'' \<and> fn_LastSeen n \<in> range clock) \<and>
    fl_shares fc' = [] \<and> fl_delegations fc' = []"
proof -
  from make_dirs_ok [OF assms(2) [unfolded NewFileStore_def]] assms(3)
  have "holds (fk_node co) base ''fleet/nodes'' Map.empty d1" by (auto simp: holds_def)
  then have "nodes_stored co base NewFleetCoordinator d1" by (auto simp: nodes_stored_def NewFleetCoordinator_def mget_def)
  moreover have "fleet_ok NewFleetCoordinator" by (simp add: fleet_ok_def NewFleetCoordinator_def mget_def)
  ultimately have "nodes_stored co base fc d" using fleet_run_ok [OF assms(5) _ _ assms(4)] by blast
  then obtain latest where l: "holds (fk_node co) base ''fleet/nodes'' latest d"
    "\<And>i. map_option (seen_at 0) (latest i) = map_option (seen_at 0) (mget (fl_nodes fc) i)" "\<And>i n. latest i = Some n \<Longrightarrow> fn_ID n = i"
    by (auto simp: nodes_stored_def)
  from holds_listed [OF l(1) assms(1,6)] obtain vs where vs: "listed (fk_node co) base ''fleet/nodes'' d = (Inr vs, d)"
    "mset vs = image_mset (\<lambda>i. the (latest i)) (mset_set (dom latest))" by blast
  have fin: "finite (dom latest)" using l(1) by (simp add: holds_def)
  have mem: "n \<in> set vs \<longleftrightarrow> (\<exists>i. latest i = Some n)" for n
  proof -
    have "set vs = (\<lambda>i. the (latest i)) ` dom latest" using arg_cong [OF vs(2), of set_mset] fin by simp
    then show ?thesis by (auto simp: image_iff dom_def)
  qed
  have fc': "fc' = fold (\<lambda>(i, n). fc_RegisterNode (clock i) n) (enumerate 0 vs) NewFleetCoordinator"
    using assms(7) vs(1) by (simp add: NewPersistentFleetCoordinator_def ListFleetNodes_def)
  note reg = register_all [of clock 0 vs NewFleetCoordinator, folded fc']
  note look = found_latest [OF mem l(3), of _ 0]
  have got: "mget (fl_nodes fc') j = (case find (\<lambda>(i, n). fn_ID n = j) (rev (enumerate 0 vs)) of Some (i, n) \<Rightarrow> Some (seen_at (clock i) n) | None \<Rightarrow> None)" for j
  proof -
    have none: "mget (fl_nodes NewFleetCoordinator) j = None" by (simp add: NewFleetCoordinator_def mget_def)
    show ?thesis using reg [of j] unfolding none by blast
  qed
  have "map_option (seen_at 0) (mget (fl_nodes fc') i) = map_option (seen_at 0) (latest i)"
    using look [of i] unfolding got by (auto split: option.splits)
  moreover have "mget (fl_nodes fc') i = Some n \<Longrightarrow> fn_Status n = ''online'' \<and> fn_LastSeen n \<in> range clock" for n
    unfolding got by (auto simp: seen_at_def split: option.splits)
  moreover have "fl_shares fc' = [] \<and> fl_delegations fc' = []" using reg by (simp add: NewFleetCoordinator_def)
  ultimately show ?thesis using l(2) by simp
qed

section \<open>What the feedback loop reports\<close>

primrec evaluations :: "nat \<Rightarrow> feedback_loop \<Rightarrow> feedback_loop" where
  "evaluations 0 fl = fl"
| "evaluations (Suc n) fl = evaluations n (snd (fb_Evaluate fl))"

text \<open>signals are never dropped, so every evaluation reports every breach of the loop's life again: after \<open>n\<close> evaluations the
  actions are \<open>n\<close> copies of the same list, not applied, also where an earlier copy was applied in between.\<close>

theorem breaches_reported_again:
  "fb_actions (evaluations n (foldl (\<lambda>fl (now, s). fb_IngestSignal now s fl) NewFeedbackLoop signals)) =
     concat (replicate n (breaches (map (\<lambda>(now, s). stamped now s) signals)))"
  "fst (fb_Evaluate (fb_ApplyAction i fl)) = fst (fb_Evaluate fl)"
proof -
  have "fb_actions (evaluations n fl) = fb_actions fl @ concat (replicate n (breaches (fb_signals fl)))" for fl
    by (induction n arbitrary: fl) (simp_all add: fb_Evaluate_def Let_def)
  moreover have "fb_signals (foldl (\<lambda>fl (now, s). fb_IngestSignal now s fl) fl signals) = fb_signals fl @ map (\<lambda>(now, s). stamped now s) signals \<and>
      fb_actions (foldl (\<lambda>fl (now, s). fb_IngestSignal now s fl) fl signals) = fb_actions fl" for fl
    by (induction signals arbitrary: fl) (auto simp: fb_IngestSignal_def)
  ultimately show "fb_actions (evaluations n (foldl (\<lambda>fl (now, s). fb_IngestSignal now s fl) NewFeedbackLoop signals)) =
     concat (replicate n (breaches (map (\<lambda>(now, s). stamped now s) signals)))" by (simp add: NewFeedbackLoop_def)
  show "fst (fb_Evaluate (fb_ApplyAction i fl)) = fst (fb_Evaluate fl)" by (simp add: fb_Evaluate_def fb_ApplyAction_def Let_def)
qed

section \<open>Actions on the disk\<close>

lemma dec_nat_digits: "c \<in> set (dec_nat n) \<Longrightarrow> \<exists>k < 10. c = digit k"
proof (induction n rule: dec_nat.induct)
  case (1 n)
  then show ?case by (cases "n < 10") (auto simp: dec_nat.simps [of n] intro: exI [of _ "n mod 10"])
qed

lemma show_int_plain: "CHR ''/'' \<notin> set (show_int n)"
proof -
  have "digit k \<noteq> CHR ''/''" if "k < 10" for k
  proof -
    have "(of_char (digit k) :: nat) = 48 + k" using that by (simp add: digit_def)
    then show ?thesis by auto
  qed
  then have "CHR ''/'' \<notin> set (dec_nat n)" for n using dec_nat_digits [of "CHR ''/''" n] by metis
  then show ?thesis by (simp add: show_int_def)
qed

lemma SaveFeedbackAction_quiet:
  assumes "d_next d = []" "co_enc co a = Inr x"
  shows "\<exists>d'. SaveFeedbackAction co now base a d = (None, d') \<and> d_next d' = []"
  using assms by (simp add: SaveFeedbackAction_def saveJSON_def disk_defs)

text \<open>the file of an action is named by its source and the millisecond, so of the actions that one evaluation saves within a
  millisecond only one is left for each source, whatever the number of breaches.\<close>

theorem feedback_actions_overwritten:
  assumes "codec_ok (fk_action co)" "\<And>a. \<exists>x. co_enc (fk_action co) a = Inr x" "NewFileStore base d0 = (Inr b, d1)" "d_files d0 = []" "d_next d1 = []"
    "pl_Evaluate co base clock (fl, d1) = (actions, fl', d)" "\<And>i. unix_milli (clock i) = unix_milli (clock 0)"
    "\<And>s. s \<in> set (fb_signals fl) \<Longrightarrow> CHR ''/'' \<notin> set (fs_Source s)"
  shows "\<exists>vs. ListFeedbackActions (fk_action co) base d = (Inr vs, d) \<and> length vs = card (fa_SignalSource ` set actions) \<and> set vs \<subseteq> set actions"
proof -
  define name where "name = (\<lambda>a :: feedback_action. fa_SignalSource a @ ''-'' @ ''mutate'' @ ''-'' @ show_int (unix_milli (clock 0)))"
  have acts: "actions = breaches (fb_signals fl)" "d = save_actions co base (map (\<lambda>(i, a). (clock i, a)) (enumerate 0 actions)) d1"
    using assms(6) by (auto simp: pl_Evaluate_def fb_Evaluate_def Let_def)
  have a_ok: "fa_ActionType a = ''mutate'' \<and> CHR ''/'' \<notin> set (name a)" if "a \<in> set actions" for a
    using that assms(8) by (auto simp: acts(1) breaches_def name_def show_int_plain)
  from make_dirs_ok [OF assms(3) [unfolded NewFileStore_def]] assms(4)
  have "holds (fk_action co) base ''feedback/actions'' Map.empty d1" by (auto simp: holds_def)
  moreover have "holds (fk_action co) base ''feedback/actions'' latest d \<Longrightarrow> d_next d = [] \<Longrightarrow> set as \<subseteq> set actions \<Longrightarrow>
      \<exists>latest'. holds (fk_action co) base ''feedback/actions'' latest' (save_actions co base (map (\<lambda>(i, a). (clock i, a)) (enumerate k as)) d) \<and>
        d_next (save_actions co base (map (\<lambda>(i, a). (clock i, a)) (enumerate k as)) d) = [] \<and>
        dom latest' = dom latest \<union> name ` set as \<and> ran latest' \<subseteq> ran latest \<union> set as" for latest d k as
  proof (induction as arbitrary: latest d k)
    case Nil
    then show ?case by auto
  next
    case (Cons a as)
    obtain x where "co_enc (fk_action co) a = Inr x" using assms(2) by blast
    from SaveFeedbackAction_quiet [OF Cons.prems(2) this, of "clock k" base] obtain d2 where d2: "SaveFeedbackAction (fk_action co) (clock k) base a d = (None, d2)" "d_next d2 = []" by blast
    have nm: "fa_SignalSource a @ ''-'' @ fa_ActionType a @ ''-'' @ show_int (unix_milli (clock k)) = name a"
      using a_ok [of a] Cons.prems(3) assms(7) [of k] by (simp add: name_def)
    from holds_save [OF Cons.prems(1) d2(1) [unfolded SaveFeedbackAction_def nm]] a_ok [of a] Cons.prems(3)
    have "holds (fk_action co) base ''feedback/actions'' (latest(name a \<mapsto> a)) d2" by simp
    from Cons.IH [OF this d2(2), of "Suc k"] Cons.prems(3) have "\<exists>latest'. holds (fk_action co) base ''feedback/actions'' latest' (save_actions co base (map (\<lambda>(i, a). (clock i, a)) (enumerate (Suc k) as)) d2) \<and>
        d_next (save_actions co base (map (\<lambda>(i, a). (clock i, a)) (enumerate (Suc k) as)) d2) = [] \<and>
        dom latest' = dom (latest(name a \<mapsto> a)) \<union> name ` set as \<and> ran latest' \<subseteq> ran (latest(name a \<mapsto> a)) \<union> set as" by (simp only: list.set insert_subset simp_thms)
    then obtain latest' where
      "holds (fk_action co) base ''feedback/actions'' latest' (save_actions co base (map (\<lambda>(i, a). (clock i, a)) (enumerate (Suc k) as)) d2)"
      "d_next (save_actions co base (map (\<lambda>(i, a). (clock i, a)) (enumerate (Suc k) as)) d2) = []"
      "dom latest' = dom (latest(name a \<mapsto> a)) \<union> name ` set as" "ran latest' \<subseteq> ran (latest(name a \<mapsto> a)) \<union> set as" by blast
    moreover have "ran (latest(name a \<mapsto> a)) \<subseteq> ran latest \<union> {a}" by (auto simp: ran_def)
    ultimately show ?case by (intro exI [of _ latest']) (auto simp: d2(1))
  qed
  ultimately obtain latest where l: "holds (fk_action co) base ''feedback/actions'' latest d" "d_next d = []" "dom latest = name ` set actions" "ran latest \<subseteq> set actions"
    using assms(5) unfolding acts(2) by (metis Un_empty_left dom_empty order_refl ran_empty)
  from holds_listed [OF l(1) assms(1) l(2)] obtain vs where vs: "listed (fk_action co) base ''feedback/actions'' d = (Inr vs, d)"
    "mset vs = image_mset (\<lambda>i. the (latest i)) (mset_set (dom latest))" by blast
  have "length vs = card (dom latest)" using arg_cong [OF vs(2), of size] by simp
  also have "dom latest = (\<lambda>s. s @ ''-'' @ ''mutate'' @ ''-'' @ show_int (unix_milli (clock 0))) ` (fa_SignalSource ` set actions)"
    unfolding l(3) by (auto simp: name_def)
  also have "card \<dots> = card (fa_SignalSource ` set actions)" by (rule card_image) (simp add: inj_on_def)
  finally have "length vs = card (fa_SignalSource ` set actions)" .
  moreover have "set vs \<subseteq> set actions"
  proof -
    have "finite (dom latest)" by (simp add: l(3))
    then have "set vs = (\<lambda>i. the (latest i)) ` dom latest" using arg_cong [OF vs(2), of set_mset] by simp
    then have "set vs \<subseteq> ran latest" by (auto simp: ran_def)
    with l(4) show ?thesis by blast
  qed
  ultimately show ?thesis using vs(1) by (auto simp: ListFeedbackActions_def)
qed

section \<open>Witnesses\<close>

definition plain_codecs :: "'d fleet_codecs" where
  "plain_codecs = \<lparr>fk_node = \<lparr>co_enc = \<lambda>_. Inl ''unused'', co_dec = \<lambda>_. Inl ''unused''\<rparr>, fk_share = \<lparr>co_enc = \<lambda>_. Inl ''unused'', co_dec = \<lambda>_. Inl ''unused''\<rparr>,
     fk_task = \<lparr>co_enc = \<lambda>_. Inl ''unused'', co_dec = \<lambda>_. Inl ''unused''\<rparr>, fk_signal = \<lparr>co_enc = \<lambda>_. Inl ''unused'', co_dec = \<lambda>_. Inl ''unused''\<rparr>,
     fk_action = \<lparr>co_enc = \<lambda>_. Inl ''unused'', co_dec = \<lambda>_. Inl ''unused''\<rparr>\<rparr>"

definition build_box :: fleet_node where
  "build_box = \<lparr>fn_ID = ''a'', fn_Hostname = ''box'', fn_Platform = ''linux'', fn_LastSeen = 0, fn_Status = []\<rparr>"

lemma fleet_restart_witness:
  "\<exists>fc d1 d fc' d'. let co = plain_codecs\<lparr>fk_node := plain_codec\<rparr> in NewFileStore ''kb'' blank_disk = (Inr ''kb'', d1) \<and>
     fleet_run co ''kb'' [JoinFleet 1 2 build_box] (NewFleetCoordinator, d1) = Some (fc, d) \<and>
     NewPersistentFleetCoordinator co ''kb'' (\<lambda>_. 9) d = (fc', d') \<and> map_option (seen_at 0) (mget (fl_nodes fc') ''a'') = Some (seen_at 0 build_box)"
proof -
  let ?co = "plain_codecs\<lparr>fk_node := plain_codec\<rparr> :: fleet_node fleet_codecs"
  define d1 where "d1 = snd (NewFileStore ''kb'' (blank_disk :: fleet_node disk))"
  have n: "NewFileStore ''kb'' blank_disk = (Inr ''kb'', d1)" "d_next d1 = []"
    by (simp_all add: d1_def NewFileStore_def blank_disk_def disk_defs)
  obtain fc d where r: "fleet_run ?co ''kb'' [JoinFleet 1 2 build_box] (NewFleetCoordinator, d1) = Some (fc, d)" "d_next d = []"
      "fc = fc_RegisterNode 1 build_box NewFleetCoordinator"
    using n by (simp add: fleet_do_def pf_RegisterNode_def SaveFleetNode_def saveJSON_def plain_codec_def disk_defs)
  obtain fc' d' where l: "NewPersistentFleetCoordinator ?co ''kb'' (\<lambda>_. 9) d = (fc', d')" by force
  have "codec_ok (fk_node ?co)" by (simp add: codec_ok_def plain_codec_def)
  from fleet_restart [OF this n(1) _ _ r(1,2) l, of "''a''"]
  have "map_option (seen_at 0) (mget (fl_nodes fc') ''a'') = map_option (seen_at 0) (mget (fl_nodes fc) ''a'')"
    by (simp add: blank_disk_def build_box_def)
  also have "\<dots> = Some (seen_at 0 build_box)" by (simp add: r(3) fc_RegisterNode_def build_box_def seen_at_def)
  finally show ?thesis using n(1) r(1) l by (auto simp: Let_def)
qed

definition slow_signal :: "string \<Rightarrow> feedback_signal" where
  "slow_signal metric = \<lparr>fs_Source = ''ui'', fs_Metric = metric, fs_Value = PInf, fs_Threshold = Fin 1, fs_Severity = [], fs_Timestamp = 1\<rparr>"

lemma feedback_actions_overwritten_witness:
  "\<exists>d1 d vs. let co = plain_codecs\<lparr>fk_action := plain_codec\<rparr> in NewFileStore ''kb'' blank_disk = (Inr ''kb'', d1) \<and>
     d = snd (snd (pl_Evaluate co ''kb'' (\<lambda>_. 0) (\<lparr>fb_signals = [slow_signal ''p50'', slow_signal ''p99''], fb_actions = []\<rparr>, d1))) \<and>
     ListFeedbackActions (fk_action co) ''kb'' d = (Inr vs, d) \<and> length vs = 1"
proof -
  let ?co = "plain_codecs\<lparr>fk_action := plain_codec\<rparr> :: feedback_action fleet_codecs"
  let ?fl = "\<lparr>fb_signals = [slow_signal ''p50'', slow_signal ''p99''], fb_actions = []\<rparr>"
  define d1 where "d1 = snd (NewFileStore ''kb'' (blank_disk :: feedback_action disk))"
  have n: "NewFileStore ''kb'' blank_disk = (Inr ''kb'', d1)" "d_next d1 = []"
    by (simp_all add: d1_def NewFileStore_def blank_disk_def disk_defs)
  obtain actions fl' d where e: "pl_Evaluate ?co ''kb'' (\<lambda>_. 0) (?fl, d1) = (actions, fl', d)" by (metis prod_cases3)
  have "actions = breaches [slow_signal ''p50'', slow_signal ''p99'']" using e by (auto simp: pl_Evaluate_def fb_Evaluate_def Let_def)
  then have one: "fa_SignalSource ` set actions = {''ui''}" by (simp add: breaches_def slow_signal_def flt_def)
  have "codec_ok (fk_action ?co)" "\<And>a. \<exists>x. co_enc (fk_action ?co) a = Inr x" by (simp_all add: codec_ok_def plain_codec_def)
  note overwritten = feedback_actions_overwritten [OF this n(1) _ n(2) e]
  have "d_files blank_disk = []" "\<And>s. s \<in> set (fb_signals ?fl) \<Longrightarrow> CHR ''/'' \<notin> set (fs_Source s)" by (auto simp: blank_disk_def slow_signal_def)
  from overwritten [OF this(1) refl this(2)] obtain vs where vs: "ListFeedbackActions (fk_action ?co) ''kb'' d = (Inr vs, d)"
    "length vs = card (fa_SignalSource ` set actions)" by blast
  from vs(2) have "length vs = 1" by (simp add: one)
  with n(1) vs(1) e show ?thesis unfolding Let_def by (intro exI [of _ d1] exI [of _ d] exI [of _ vs] conjI) (simp_all only: snd_conv)
qed

end
