(* ===== verification/Mutation_Review.thy ===== *)
theory Mutation_Review
  imports Evolver_Store
begin

text \<open>
  \<open>pkg/evolver/review.go\<close>, \<open>sandbox.go\<close>, \<open>container_runner.go\<close> and \<open>applicator.go\<close>: the review of proposed mutations,
  their trial runs in containers behind a human gate, and the three mutators that apply them. The
  container command, the mutation functions and the reviewer act on a world; JSON is a parameter.
\<close>

section \<open>Review\<close>

abbreviation ReviewApproved :: string where "ReviewApproved \<equiv> ''approved''"
abbreviation ReviewRejected :: string where "ReviewRejected \<equiv> ''rejected''"
abbreviation ReviewDeferred :: string where "ReviewDeferred \<equiv> ''deferred''"

record review_request =
  rq_MutationID :: string
  rq_SignalID :: string
  rq_Reasoning :: string
  rq_RiskLevel :: string
  rq_Strategy :: string
  rq_CreatedAt :: time

record review_response =
  rr_MutationID :: string
  rr_Decision :: string
  rr_Comment :: string
  rr_ReviewedAt :: time
  rr_ReviewerID :: string

definition riskOrd :: "string \<Rightarrow> nat" where
  "riskOrd r = (if r = RiskLow then 0 else if r = RiskMedium then 1 else if r = RiskHigh then 2 else if r = RiskCritical then 3 else 4)"

definition auto_RequestReview :: "string \<Rightarrow> time \<Rightarrow> review_request \<Rightarrow> review_response" where
  "auto_RequestReview maxRisk now req =
     \<lparr>rr_MutationID = rq_MutationID req,
      rr_Decision = (if riskOrd maxRisk < riskOrd (rq_RiskLevel req) then ReviewDeferred else ReviewApproved),
      rr_Comment = ''auto-review: risk='' @ rq_RiskLevel req @ '' threshold='' @ maxRisk, rr_ReviewedAt = now, rr_ReviewerID = ''auto-reviewer''\<rparr>"

type_synonym 'w reviewer = "review_request \<Rightarrow> 'w \<Rightarrow> (string + review_response) \<times> 'w"

definition request_of :: "mutation \<Rightarrow> review_request" where
  "request_of m = \<lparr>rq_MutationID = m_ID m, rq_SignalID = m_SignalID m, rq_Reasoning = m_Reasoning m, rq_RiskLevel = m_RiskEstimate m,
     rq_Strategy = m_Strategy m, rq_CreatedAt = m_CreatedAt m\<rparr>"

text \<open>\<open>payload\<close> is the JSON form of the decision, \<open>t1\<close> and \<open>t2\<close> are two readings of the clock.\<close>

definition review_event :: "(string \<Rightarrow> review_response \<Rightarrow> string) \<Rightarrow> time \<Rightarrow> time \<Rightarrow> mutation \<Rightarrow> review_response \<Rightarrow> evolution_event" where
  "review_event payload t1 t2 m resp =
     \<lparr>ev_ID = ''rev-'' @ m_ID m @ ''-'' @ show_int (unix_milli t1), ev_Timestamp = t2,
      ev_Type = (if rr_Decision resp = ReviewApproved then EventGeneApplied else EventMutationProposed), ev_ActorID = [], ev_ParentID = [],
      ev_Payload = payload (m_ID m) resp, ev_Outcome = \<lparr>eo_Success = (rr_Decision resp = ReviewApproved), eo_Reason = []\<rparr>\<rparr>"

record 'd gateway =
  gw_payload :: "string \<Rightarrow> review_response \<Rightarrow> string"
  gw_store :: "((evolution_event, 'd) codec \<times> string) option"

text \<open>The status is set on the loop's copy of the mutation, so nothing of it remains.\<close>

primrec ProcessMutations :: "'d gateway \<Rightarrow> 'w reviewer \<Rightarrow> ('w \<Rightarrow> time) \<Rightarrow> mutation list \<Rightarrow> 'w \<Rightarrow> 'd disk \<Rightarrow>
    (review_response list \<times> string option) \<times> 'w \<times> 'd disk" where
  "ProcessMutations g reviewer clock [] w d = (([], None), w, d)"
| "ProcessMutations g reviewer clock (m # ms) w d =
     (case reviewer (request_of m) w of
        (Inl e, w) \<Rightarrow> (([], Some (''review mutation '' @ m_ID m @ '': '' @ e)), w, d)
      | (Inr resp, w) \<Rightarrow>
          (let d = (case gw_store g of None \<Rightarrow> d
                    | Some (co, base) \<Rightarrow> snd (cs_SaveEvent co base (review_event (gw_payload g) (clock w) (clock w) m resp) d))
           in case ProcessMutations g reviewer clock ms w d of ((resps, e), w, d) \<Rightarrow> ((resp # resps, e), w, d)))"

section \<open>Containers\<close>

record run_config =
  cn_Image :: string
  cn_Command :: "string list"
  cn_Env :: "(string, string) gomap"
  cn_MemoryLimitMB :: int
  cn_CPULimit :: f64
  cn_NetworkMode :: string
  cn_Timeout :: duration
  cn_ReadOnly :: bool

record run_result =
  cr_ExitCode :: int
  cr_Stdout :: string
  cr_Stderr :: string
  cr_Duration :: duration
  cr_OOMKilled :: bool

record 'w container_runner =
  ru_available :: "'w \<Rightarrow> bool \<times> 'w"
  ru_Run :: "run_config \<Rightarrow> 'w \<Rightarrow> (run_result \<times> string option) \<times> 'w"

text \<open>\<open>fmt2\<close> prints a float with two digits, \<open>visit\<close> is the order of Go's map.\<close>

definition buildArgs :: "(f64 \<Rightarrow> string) \<Rightarrow> ((string, string) gomap \<Rightarrow> (string, string) gomap) \<Rightarrow> run_config \<Rightarrow> string list" where
  "buildArgs fmt2 visit cfg =
     [''run'', ''--rm''] @
     (if 0 < cn_MemoryLimitMB cfg then [''--memory'', show_int (cn_MemoryLimitMB cfg) @ ''m''] else []) @
     (if flt (flit 0) (cn_CPULimit cfg) then [''--cpus'', fmt2 (cn_CPULimit cfg)] else []) @
     (if cn_NetworkMode cfg \<noteq> [] then [''--network'', cn_NetworkMode cfg] else []) @
     (if cn_ReadOnly cfg then [''--read-only''] else []) @
     concat (map (\<lambda>(k, v). [''-e'', k @ ''='' @ v]) (visit (cn_Env cfg))) @ [cn_Image cfg] @ cn_Command cfg"

datatype exec_end = ExecOk | ExecExit int | ExecFailed

text \<open>\<open>docker\<close> runs the command with the arguments under a deadline and answers how it ended and what it printed.\<close>

definition docker_Run :: "(string list \<Rightarrow> duration \<Rightarrow> 'w \<Rightarrow> (exec_end \<times> string \<times> string) \<times> 'w) \<Rightarrow> (run_config \<Rightarrow> string list) \<Rightarrow> ('w \<Rightarrow> time) \<Rightarrow> run_config \<Rightarrow> 'w \<Rightarrow>
    (run_result \<times> string option) \<times> 'w" where
  "docker_Run docker args clock cfg w =
     (if cn_Image cfg = [] then ((\<lparr>cr_ExitCode = 1, cr_Stdout = [], cr_Stderr = [], cr_Duration = 0, cr_OOMKilled = False\<rparr>, Some ''container runner: image is required''), w)
      else let start = clock w in
        case docker (args cfg) (cn_Timeout cfg) w of ((ending, out, err), w) \<Rightarrow>
          ((\<lparr>cr_ExitCode = (case ending of ExecOk \<Rightarrow> 0 | ExecExit n \<Rightarrow> n | ExecFailed \<Rightarrow> 1), cr_Stdout = out, cr_Stderr = err,
             cr_Duration = time_sub (clock w) start,
             cr_OOMKilled = (ending \<noteq> ExecOk \<and> (contains err ''OOMKilled'' \<or> contains err ''out of memory''))\<rparr>, None), w))"

text \<open>The inline runner prints its configuration as JSON and runs nothing.\<close>

definition inline_Run :: "(run_config \<Rightarrow> string + string) \<Rightarrow> ('w \<Rightarrow> string option) \<Rightarrow> ('w \<Rightarrow> time) \<Rightarrow> run_config \<Rightarrow> 'w \<Rightarrow> (run_result \<times> string option) \<times> 'w" where
  "inline_Run enc ctxErr clock cfg w =
     (let r = \<lparr>cr_ExitCode = 0, cr_Stdout = [], cr_Stderr = [], cr_Duration = time_sub (clock w) (clock w), cr_OOMKilled = False\<rparr> in
      case ctxErr w of
        Some e \<Rightarrow> ((r\<lparr>cr_ExitCode := 1\<rparr>, Some e), w)
      | None \<Rightarrow> (case enc cfg of Inl e \<Rightarrow> ((r\<lparr>cr_ExitCode := 1\<rparr>, Some e), w) | Inr data \<Rightarrow> ((r\<lparr>cr_Stdout := data\<rparr>, None), w)))"

section \<open>Evolution sandboxes\<close>

record sandbox_config =
  sc_Image :: string
  sc_Timeout :: duration
  sc_MemoryLimitMB :: int
  sc_CPULimit :: f64
  sc_NetworkMode :: string
  sc_UseDocker :: bool

definition DefaultSandboxConfig :: sandbox_config where
  "DefaultSandboxConfig = \<lparr>sc_Image = ''ironclaw-evolver:latest'', sc_Timeout = 5 * minute, sc_MemoryLimitMB = 512, sc_CPULimit = flit 1,
     sc_NetworkMode = ''none'', sc_UseDocker = False\<rparr>"

record sandbox_result =
  sx_CapsuleID :: string
  sx_Success :: bool
  sx_Duration :: duration
  sx_ExitCode :: int
  sx_Output :: string
  sx_Mutations :: int
  sx_Error :: string
  sx_Container :: bool

record hitl_approval =
  ha_CapsuleID :: string
  ha_Approved :: bool
  ha_Reviewer :: string
  ha_Reason :: string
  ha_Timestamp :: time

record hitl_gate =
  hg_autoApprove :: bool
  hg_approvals :: "hitl_approval list"

definition NewHITLGate :: "bool \<Rightarrow> hitl_gate" where
  "NewHITLGate autoApprove = \<lparr>hg_autoApprove = autoApprove, hg_approvals = []\<rparr>"

definition gate_Review :: "time \<Rightarrow> string \<Rightarrow> string \<Rightarrow> string \<Rightarrow> hitl_gate \<Rightarrow> bool \<times> hitl_gate" where
  "gate_Review now capsuleID reviewer reason g =
     (hg_autoApprove g, g\<lparr>hg_approvals := hg_approvals g @ [\<lparr>ha_CapsuleID = capsuleID, ha_Approved = hg_autoApprove g, ha_Reviewer = reviewer,
        ha_Reason = reason, ha_Timestamp = now\<rparr>]\<rparr>)"

record 'w evolution_sandbox =
  sb_config :: sandbox_config
  sb_gate :: "hitl_gate option"
  sb_runner :: "'w container_runner option"
  sb_results :: "sandbox_result list"

definition NewEvolutionSandboxWithRunner :: "sandbox_config \<Rightarrow> hitl_gate option \<Rightarrow> 'w container_runner option \<Rightarrow> 'w evolution_sandbox" where
  "NewEvolutionSandboxWithRunner cfg gate runner = \<lparr>sb_config = cfg, sb_gate = gate, sb_runner = runner, sb_results = []\<rparr>"

record 'w sandbox_env =
  se_clock :: "'w \<Rightarrow> time"
  se_ctxErr :: "'w \<Rightarrow> string option"

definition blank_sandbox_result :: "string \<Rightarrow> bool \<Rightarrow> sandbox_result" where
  "blank_sandbox_result capsuleID container = \<lparr>sx_CapsuleID = capsuleID, sx_Success = False, sx_Duration = 0, sx_ExitCode = 0, sx_Output = [],
     sx_Mutations = 0, sx_Error = [], sx_Container = container\<rparr>"

definition container_config :: "sandbox_config \<Rightarrow> string \<Rightarrow> run_config" where
  "container_config cfg capsuleID = \<lparr>cn_Image = sc_Image cfg, cn_Command = [''evolve'', ''--capsule'', capsuleID], cn_Env = [],
     cn_MemoryLimitMB = sc_MemoryLimitMB cfg, cn_CPULimit = sc_CPULimit cfg, cn_NetworkMode = sc_NetworkMode cfg, cn_Timeout = sc_Timeout cfg,
     cn_ReadOnly = True\<rparr>"

definition keep_result :: "sandbox_result \<Rightarrow> 'w evolution_sandbox \<Rightarrow> 'w evolution_sandbox" where
  "keep_result r s = s\<lparr>sb_results := sb_results s @ [r]\<rparr>"

definition runInContainer :: "'w sandbox_env \<Rightarrow> 'w container_runner \<Rightarrow> string \<Rightarrow> 'w evolution_sandbox \<Rightarrow> 'w \<Rightarrow> sandbox_result \<times> 'w evolution_sandbox \<times> 'w" where
  "runInContainer env runner capsuleID s w =
     (let start = se_clock env w in
      case ru_Run runner (container_config (sb_config s) capsuleID) w of ((cr, err), w) \<Rightarrow>
        (let result = (blank_sandbox_result capsuleID True)\<lparr>sx_Duration := time_sub (se_clock env w) start, sx_ExitCode := cr_ExitCode cr\<rparr>;
             result = (case err of Some e \<Rightarrow> result\<lparr>sx_Error := e\<rparr>
               | None \<Rightarrow> if cr_ExitCode cr = 0 then result\<lparr>sx_Success := True, sx_Output := cr_Stdout cr, sx_Mutations := 1\<rparr>
                         else result\<lparr>sx_Error := (if cr_OOMKilled cr then ''container OOM killed: '' else []) @ cr_Stderr cr\<rparr>)
         in (result, keep_result result s, w)))"

definition RunEvolution :: "'w sandbox_env \<Rightarrow> string \<Rightarrow> ('w \<Rightarrow> (string + string) \<times> 'w) \<Rightarrow> 'w evolution_sandbox \<Rightarrow> 'w \<Rightarrow> sandbox_result \<times> 'w evolution_sandbox \<times> 'w" where
  "RunEvolution env capsuleID mutationFn s w =
     (let start = se_clock env w; result = blank_sandbox_result capsuleID False in
      case se_ctxErr env w of
        Some e \<Rightarrow> (result\<lparr>sx_Error := e, sx_Duration := time_sub (se_clock env w) start\<rparr>, s, w)
      | None \<Rightarrow>
          (let inline = (\<lambda>w. case mutationFn w of (out, w) \<Rightarrow>
                 (let result = result\<lparr>sx_Duration := time_sub (se_clock env w) start\<rparr>;
                      result = (case out of Inl e \<Rightarrow> result\<lparr>sx_Error := e, sx_ExitCode := 1\<rparr>
                        | Inr output \<Rightarrow> result\<lparr>sx_Success := True, sx_Output := output, sx_Mutations := 1\<rparr>)
                  in (result, keep_result result s, w)))
           in case sb_runner s of
                None \<Rightarrow> inline w
              | Some runner \<Rightarrow>
                  if \<not> sc_UseDocker (sb_config s) then inline w
                  else case ru_available runner w of (ok, w) \<Rightarrow> if ok then runInContainer env runner capsuleID s w else inline w))"

text \<open>The body of \<open>RunBatch\<close>'s loop: one run and, when it succeeded, the gate's word on it.\<close>

definition batch_item :: "'w sandbox_env \<Rightarrow> string \<Rightarrow> ('w \<Rightarrow> (string + string) \<times> 'w) \<Rightarrow> 'w evolution_sandbox \<Rightarrow> 'w \<Rightarrow> sandbox_result \<times> 'w evolution_sandbox \<times> 'w" where
  "batch_item env i mutationFn s w =
     (case RunEvolution env i mutationFn s w of (result, s, w) \<Rightarrow>
        (case sb_gate s of
           None \<Rightarrow> (result, s, w)
         | Some g \<Rightarrow> if \<not> sx_Success result then (result, s, w)
             else case gate_Review (se_clock env w) i ''sandbox-auto'' (''auto-review for '' @ i) g of (ok, g) \<Rightarrow>
               (if ok then result else result\<lparr>sx_Success := False, sx_Error := ''HITL gate rejected''\<rparr>, s\<lparr>sb_gate := Some g\<rparr>, w)))"

primrec RunBatch :: "'w sandbox_env \<Rightarrow> string list \<Rightarrow> (string \<Rightarrow> 'w \<Rightarrow> (string + string) \<times> 'w) \<Rightarrow> 'w evolution_sandbox \<Rightarrow> 'w \<Rightarrow> sandbox_result list \<times> 'w evolution_sandbox \<times> 'w" where
  "RunBatch env [] mutationFn s w = ([], s, w)"
| "RunBatch env (i # ids) mutationFn s w =
     (case batch_item env i (mutationFn i) s w of (result, s, w) \<Rightarrow>
        (case RunBatch env ids mutationFn s w of (results, s, w) \<Rightarrow> (result # results, s, w)))"

section \<open>The mutators\<close>

text \<open>\<open>os.Remove\<close>.\<close>

definition RemoveFile :: "string \<Rightarrow> 'd disk \<Rightarrow> fs_error option \<times> 'd disk" where
  "RemoveFile path d =
     (case outcome d of
        (IoOk, d) \<Rightarrow> (if mget (d_files d) path = None then (Some NotExist, d) else (None, d\<lparr>d_files := mdelete (d_files d) path\<rparr>))
      | (IoFail e _, d) \<Rightarrow> (Some (FsError e), d))"

datatype apply_error = AfterStateRequired | ParseAfterState string | PathRequired | WriteTarget fs_error

text \<open>What a rollback does: put back a file's contents, or remove it; put back a threshold.\<close>

datatype rollback = RestoreFile string "string option" | RestoreThreshold string f64

record apply_result =
  al_Applied :: bool
  al_Message :: string
  al_Rollback :: rollback
  al_AppliedAt :: time

definition file_rollback :: "string \<Rightarrow> string option \<Rightarrow> string disk \<Rightarrow> fs_error option \<times> string disk" where
  "file_rollback path before d = (case before of None \<Rightarrow> RemoveFile path d | Some b \<Rightarrow> WriteFile path b d)"

definition config_Supports :: "mutation \<Rightarrow> bool" where
  "config_Supports m \<longleftrightarrow> m_Strategy m = ModeRepairOnly \<or> m_Strategy m = ModeHarden"

text \<open>\<open>dec\<close> reads the path and the value from the mutation's state.\<close>

definition config_Apply :: "(string \<Rightarrow> string + string \<times> string) \<Rightarrow> time \<Rightarrow> mutation \<Rightarrow> string disk \<Rightarrow> (apply_error + apply_result) \<times> string disk" where
  "config_Apply dec now m d =
     (case m_AfterState m of
        None \<Rightarrow> (Inl AfterStateRequired, d)
      | Some after \<Rightarrow>
          (case dec after of
             Inl e \<Rightarrow> (Inl (ParseAfterState e), d)
           | Inr (path, contents) \<Rightarrow>
               if path = [] then (Inl PathRequired, d)
               else case WriteFile path contents d of
                 (Some e, d) \<Rightarrow> (Inl (WriteTarget e), d)
               | (None, d) \<Rightarrow> (Inr \<lparr>al_Applied = True, al_Message = ''applied config change to '' @ path, al_Rollback = RestoreFile path (m_BeforeState m),
                   al_AppliedAt = now\<rparr>, d)))"

definition prompt_Supports :: "mutation \<Rightarrow> bool" where
  "prompt_Supports m \<longleftrightarrow> m_Strategy m = ModeInnovate"

text \<open>The decoder answers an error for a missing state, which is no JSON.\<close>

definition prompt_Apply :: "(string option \<Rightarrow> string + string \<times> string) \<Rightarrow> time \<Rightarrow> mutation \<Rightarrow> string disk \<Rightarrow> (apply_error + apply_result) \<times> string disk" where
  "prompt_Apply dec now m d =
     (case dec (m_AfterState m) of
        Inl e \<Rightarrow> (Inl (ParseAfterState e), d)
      | Inr (path, contents) \<Rightarrow>
          (case WriteFile path contents d of
             (Some e, d) \<Rightarrow> (Inl (WriteTarget e), d)
           | (None, d) \<Rightarrow> (Inr \<lparr>al_Applied = True, al_Message = ''prompt updated at '' @ path, al_Rollback = RestoreFile path (m_BeforeState m),
               al_AppliedAt = now\<rparr>, d)))"

definition threshold_Supports :: "mutation \<Rightarrow> bool" where
  "threshold_Supports m \<longleftrightarrow> m_Strategy m = ModeBalanced \<or> m_Strategy m = ModeInnovate"

definition threshold_Get :: "(string, f64) gomap \<Rightarrow> string \<Rightarrow> f64" where
  "threshold_Get th key = mget_or (flit 0) th key"

definition threshold_Apply :: "(string option \<Rightarrow> string + string \<times> f64) \<Rightarrow> (string \<Rightarrow> f64 \<Rightarrow> f64 \<Rightarrow> string) \<Rightarrow> time \<Rightarrow> mutation \<Rightarrow> (string, f64) gomap \<Rightarrow>
    (apply_error + apply_result) \<times> (string, f64) gomap" where
  "threshold_Apply dec msg now m th =
     (case dec (m_AfterState m) of
        Inl e \<Rightarrow> (Inl (ParseAfterState e), th)
      | Inr (key, v) \<Rightarrow>
          (let old = threshold_Get th key in
           (Inr \<lparr>al_Applied = True, al_Message = msg key old v, al_Rollback = RestoreThreshold key old, al_AppliedAt = now\<rparr>, mset_at th key v)))"

definition threshold_rollback :: "apply_result \<Rightarrow> (string, f64) gomap \<Rightarrow> (string, f64) gomap" where
  "threshold_rollback r th = (case al_Rollback r of RestoreThreshold key old \<Rightarrow> mset_at th key old | RestoreFile _ _ \<Rightarrow> th)"

section \<open>What a review decides\<close>

text \<open>The automatic reviewer answers for every mutation, in order, and never rejects: it approves those up to the risk it is
  set to and defers the others; a reviewer whose limit is unset, or no known risk, approves everything, critical mutations too.\<close>

theorem auto_review:
  assumes "\<And>req w. \<exists>now w'. reviewer req w = (Inr (auto_RequestReview maxRisk now req), w')"
  shows "\<exists>resps. fst (ProcessMutations g reviewer clock ms w d) = (resps, None) \<and>
    map (\<lambda>r. (rr_MutationID r, rr_Decision r)) resps =
      map (\<lambda>m. (m_ID m, if riskOrd (m_RiskEstimate m) \<le> riskOrd maxRisk then ReviewApproved else ReviewDeferred)) ms \<and>
    (maxRisk \<notin> {RiskLow, RiskMedium, RiskHigh, RiskCritical} \<longrightarrow> (\<forall>r \<in> set resps. rr_Decision r = ReviewApproved))"
proof -
  have "\<exists>resps. fst (ProcessMutations g reviewer clock ms w d) = (resps, None) \<and>
    map (\<lambda>r. (rr_MutationID r, rr_Decision r)) resps =
      map (\<lambda>m. (m_ID m, if riskOrd (m_RiskEstimate m) \<le> riskOrd maxRisk then ReviewApproved else ReviewDeferred)) ms"
  proof (induction ms arbitrary: w d)
    case (Cons m ms)
    obtain now w1 where r: "reviewer (request_of m) w = (Inr (auto_RequestReview maxRisk now (request_of m)), w1)" using assms by metis
    let ?d = "case gw_store g of None \<Rightarrow> d | Some (co, base) \<Rightarrow>
      snd (cs_SaveEvent co base (review_event (gw_payload g) (clock w1) (clock w1) m (auto_RequestReview maxRisk now (request_of m))) d)"
    obtain resps where p: "fst (ProcessMutations g reviewer clock ms w1 ?d) = (resps, None)"
      "map (\<lambda>r. (rr_MutationID r, rr_Decision r)) resps =
         map (\<lambda>m. (m_ID m, if riskOrd (m_RiskEstimate m) \<le> riskOrd maxRisk then ReviewApproved else ReviewDeferred)) ms"
      using Cons.IH [of w1 ?d] by blast
    obtain wd where wd: "ProcessMutations g reviewer clock ms w1 ?d = ((resps, None), wd)" using p(1) by (metis prod.collapse)
    obtain w2 d2 where "wd = (w2, d2)" by force
    then have "fst (ProcessMutations g reviewer clock (m # ms) w d) = (auto_RequestReview maxRisk now (request_of m) # resps, None)"
      using wd by (simp add: r Let_def)
    with p(2) show ?case by (auto simp: auto_RequestReview_def request_of_def not_less)
  qed simp
  then obtain resps where r: "fst (ProcessMutations g reviewer clock ms w d) = (resps, None)"
    "map (\<lambda>r. (rr_MutationID r, rr_Decision r)) resps =
      map (\<lambda>m. (m_ID m, if riskOrd (m_RiskEstimate m) \<le> riskOrd maxRisk then ReviewApproved else ReviewDeferred)) ms" by blast
  have "rr_Decision x = ReviewApproved" if "maxRisk \<notin> {RiskLow, RiskMedium, RiskHigh, RiskCritical}" "x \<in> set resps" for x
  proof -
    have "riskOrd y \<le> riskOrd maxRisk" for y using that(1) by (simp add: riskOrd_def)
    then have "map (\<lambda>r. (rr_MutationID r, rr_Decision r)) resps = map (\<lambda>m. (m_ID m, ReviewApproved)) ms" using r(2) by simp
    from arg_cong [OF this, of "\<lambda>xs. snd ` set xs"] that(2) show ?thesis by (force simp: image_image)
  qed
  with r show ?thesis by blast
qed

section \<open>What the gate lets through\<close>

lemma RunEvolution_keeps:
  "RunEvolution env i f s w = (r, s', w') \<Longrightarrow> sb_gate s' = sb_gate s \<and> sx_CapsuleID r = i \<and>
    (sb_results s' = sb_results s @ [r] \<or> sb_results s' = sb_results s \<and> \<not> sx_Success r)"
  by (auto simp: RunEvolution_def runInContainer_def keep_result_def blank_sandbox_result_def Let_def split: prod.splits option.splits sum.splits if_splits)

text \<open>What the gate saw between two states: exactly the runs that the \<open>EvolutionSandbox\<close> recorded as successes, each with the gate's
  fixed answer.\<close>

definition gate_saw :: "hitl_gate \<Rightarrow> 'w evolution_sandbox \<Rightarrow> hitl_gate \<Rightarrow> 'w evolution_sandbox \<Rightarrow> bool" where
  "gate_saw g s g' s' \<longleftrightarrow> (\<exists>new recorded. hg_autoApprove g' = hg_autoApprove g \<and> hg_approvals g' = hg_approvals g @ new \<and>
     sb_results s' = sb_results s @ recorded \<and> map ha_CapsuleID new = map sx_CapsuleID (filter sx_Success recorded) \<and>
     (\<forall>a \<in> set new. ha_Approved a = hg_autoApprove g))"

lemma gate_saw_refl: "gate_saw g s g s"
  by (simp add: gate_saw_def)

lemma gate_saw_trans:
  assumes "gate_saw g s g1 s1" "gate_saw g1 s1 g2 s2"
  shows "gate_saw g s g2 s2"
proof -
  obtain new recorded where a: "hg_autoApprove g1 = hg_autoApprove g" "hg_approvals g1 = hg_approvals g @ new" "sb_results s1 = sb_results s @ recorded"
    "map ha_CapsuleID new = map sx_CapsuleID (filter sx_Success recorded)" "\<forall>a \<in> set new. ha_Approved a = hg_autoApprove g"
    using assms(1) by (auto simp: gate_saw_def)
  obtain new' recorded' where b: "hg_autoApprove g2 = hg_autoApprove g1" "hg_approvals g2 = hg_approvals g1 @ new'" "sb_results s2 = sb_results s1 @ recorded'"
    "map ha_CapsuleID new' = map sx_CapsuleID (filter sx_Success recorded')" "\<forall>a \<in> set new'. ha_Approved a = hg_autoApprove g1"
    using assms(2) by (auto simp: gate_saw_def)
  show ?thesis unfolding gate_saw_def using a b by (intro exI [of _ "new @ new'"] exI [of _ "recorded @ recorded'"]) auto
qed

lemma batch_item_gated:
  assumes "batch_item env i f s w = (r, s', w')" "sb_gate s = Some g"
  shows "sx_CapsuleID r = i \<and> (hg_autoApprove g \<or> \<not> sx_Success r) \<and> (\<exists>g'. sb_gate s' = Some g' \<and> gate_saw g s g' s')"
proof -
  obtain r1 s1 w1 where e: "RunEvolution env i f s w = (r1, s1, w1)" by (metis prod_cases3)
  from RunEvolution_keeps [OF e] assms(2) have k: "sb_gate s1 = Some g" "sx_CapsuleID r1 = i"
    "sb_results s1 = sb_results s @ [r1] \<or> sb_results s1 = sb_results s \<and> \<not> sx_Success r1" by simp_all
  show ?thesis
  proof (cases "sx_Success r1")
    case False
    then have "r = r1" "s' = s1" using assms(1) k(1) by (auto simp: batch_item_def e)
    moreover have "gate_saw g s g s1" using k(3) False by (auto simp: gate_saw_def)
    ultimately show ?thesis using False k by auto
  next
    case True
    with k(3) have res: "sb_results s1 = sb_results s @ [r1]" by simp
    show ?thesis using assms(1) k(1,2) True res by (auto simp: batch_item_def e gate_Review_def gate_saw_def)
  qed
qed

text \<open>C14: a batch answers one result for each capsule, in order; the gate sees exactly the runs that succeeded; and behind a
  gate that does not approve by itself no result of the batch is a success, although the \<open>EvolutionSandbox\<close>'s own results record them as such.\<close>

theorem batch_behind_gate:
  assumes "RunBatch env ids f s w = (rs, s', w')" "sb_gate s = Some g"
  shows "map sx_CapsuleID rs = ids \<and> (hg_autoApprove g \<or> filter sx_Success rs = []) \<and>
    (\<exists>g' new recorded. sb_gate s' = Some g' \<and> hg_autoApprove g' = hg_autoApprove g \<and> hg_approvals g' = hg_approvals g @ new \<and>
       sb_results s' = sb_results s @ recorded \<and> map ha_CapsuleID new = map sx_CapsuleID (filter sx_Success recorded) \<and>
       (\<forall>a \<in> set new. ha_Approved a = hg_autoApprove g))"
proof -
  have "map sx_CapsuleID rs = ids \<and> (hg_autoApprove g \<or> filter sx_Success rs = []) \<and> (\<exists>g'. sb_gate s' = Some g' \<and> gate_saw g s g' s')"
    using assms
  proof (induction ids arbitrary: s w rs g)
    case Nil
    then show ?case by (auto simp: gate_saw_refl)
  next
    case (Cons i ids)
    obtain r1 s1 w1 where e: "batch_item env i (f i) s w = (r1, s1, w1)" by (metis prod_cases3)
    obtain rs1 where b: "RunBatch env ids f s1 w1 = (rs1, s', w')" "rs = r1 # rs1"
      using Cons.prems(1) by (auto simp: e split: prod.splits)
    from batch_item_gated [OF e Cons.prems(2)] obtain g1 where g1: "sx_CapsuleID r1 = i" "hg_autoApprove g \<or> \<not> sx_Success r1"
      "sb_gate s1 = Some g1" "gate_saw g s g1 s1" by blast
    moreover have "hg_autoApprove g1 = hg_autoApprove g" using g1(4) by (auto simp: gate_saw_def)
    ultimately show ?case using Cons.IH [OF b(1) g1(3)] b(2) gate_saw_trans by auto
  qed
  then show ?thesis by (auto simp: gate_saw_def)
qed

text \<open>Two capsules, the run of the second fails, behind a gate that does not approve.\<close>

lemma batch_behind_gate_witness:
  "let out = RunBatch \<lparr>se_clock = (\<lambda>_. 0), se_ctxErr = (\<lambda>_. None)\<rparr> [''c1'', ''c2'']
       (\<lambda>i (w :: unit). (if i = ''c2'' then Inl ''no gene'' else Inr ''ok'', w))
       (NewEvolutionSandboxWithRunner DefaultSandboxConfig (Some (NewHITLGate False)) None) () in
   map sx_Error (fst out) = [''HITL gate rejected'', ''no gene''] \<and> map sx_Success (sb_results (fst (snd out))) = [True, False] \<and>
   map sx_CapsuleID (fst out) = [''c1'', ''c2''] \<and> filter sx_Success (fst out) = []"
proof -
  define out where "out = RunBatch \<lparr>se_clock = (\<lambda>_. 0), se_ctxErr = (\<lambda>_. None)\<rparr> [''c1'', ''c2'']
       (\<lambda>i (w :: unit). (if i = ''c2'' then Inl ''no gene'' else Inr ''ok'', w))
       (NewEvolutionSandboxWithRunner DefaultSandboxConfig (Some (NewHITLGate False)) None) ()"
  have "RunBatch \<lparr>se_clock = (\<lambda>_. 0), se_ctxErr = (\<lambda>_. None)\<rparr> [''c1'', ''c2'']
       (\<lambda>i (w :: unit). (if i = ''c2'' then Inl ''no gene'' else Inr ''ok'', w))
       (NewEvolutionSandboxWithRunner DefaultSandboxConfig (Some (NewHITLGate False)) None) () = (fst out, fst (snd out), snd (snd out))"
    unfolding out_def prod.collapse by (rule refl)
  from batch_behind_gate [OF this, of "NewHITLGate False"]
  have "map sx_CapsuleID (fst out) = [''c1'', ''c2''] \<and> (hg_autoApprove (NewHITLGate False) \<or> filter sx_Success (fst out) = [])"
    by (simp add: NewEvolutionSandboxWithRunner_def)
  moreover have "map sx_Error (fst out) = [''HITL gate rejected'', ''no gene''] \<and> map sx_Success (sb_results (fst (snd out))) = [True, False]"
    by (simp add: out_def NewEvolutionSandboxWithRunner_def batch_item_def RunEvolution_def keep_result_def gate_Review_def blank_sandbox_result_def
        NewHITLGate_def Let_def)
  ultimately show ?thesis unfolding out_def [symmetric] Let_def by (simp add: NewHITLGate_def)
qed

text \<open>What an \<open>EvolutionSandbox\<close> asks Docker for: whatever the capsule is called, the options that limit memory and processor and cut off
  the network and the file system stand before the image, and the capsule's name is the last argument of the command inside.\<close>

theorem container_arguments:
  "buildArgs fmt2 id (container_config DefaultSandboxConfig capsule) =
     [''run'', ''--rm'', ''--memory'', show_int 512 @ ''m'', ''--cpus'', fmt2 (flit 1), ''--network'', ''none'', ''--read-only'',
      ''ironclaw-evolver:latest'', ''evolve'', ''--capsule'', capsule]"
  using f_of_int_exact [of 0] f_of_int_exact [of 1] by (simp add: buildArgs_def container_config_def DefaultSandboxConfig_def f_of_int_def flt_def)

section \<open>What a rollback restores\<close>

text \<open>After a configuration change and its rollback the file holds the state before that the mutation names, and is gone when
  the mutation names none, even if it existed; no other file changes.\<close>

theorem config_rollback:
  assumes "config_Apply dec now m d = (Inr r, d1)" "al_Rollback r = RestoreFile path before" "file_rollback path before d1 = (None, d2)"
  shows "mget (d_files d2) path = m_BeforeState m" "k \<noteq> path \<Longrightarrow> mget (d_files d2) k = mget (d_files d) k"
proof -
  from assms(1,2) obtain contents where w: "WriteFile path contents d = (None, d1)" "before = m_BeforeState m"
    by (auto simp: config_Apply_def split: option.splits sum.splits prod.splits if_splits)
  show "mget (d_files d2) path = m_BeforeState m"
    using assms(3) w(2) write_stores [of path _ d1 d2]
    by (auto simp: file_rollback_def RemoveFile_def disk_defs split: option.splits prod.splits list.splits io_outcome.splits if_splits)
  show "mget (d_files d2) k = mget (d_files d) k" if "k \<noteq> path"
  proof -
    have "mget (d_files d2) k = mget (d_files d1) k"
      using assms(3) that write_error_files [of path _ d1 None d2 k]
      by (auto simp: file_rollback_def RemoveFile_def disk_defs split: option.splits prod.splits list.splits io_outcome.splits if_splits)
    then show ?thesis using write_error_files [OF w(1) that] by simp
  qed
qed

text \<open>A run of threshold changes, with the results needed to undo them, the last one first.\<close>

primrec threshold_run :: "(string option \<Rightarrow> string + string \<times> f64) \<Rightarrow> (string \<Rightarrow> f64 \<Rightarrow> f64 \<Rightarrow> string) \<Rightarrow> (time \<times> mutation) list \<Rightarrow> (string, f64) gomap \<Rightarrow>
    apply_result list \<times> (string, f64) gomap" where
  "threshold_run dec msg [] th = ([], th)"
| "threshold_run dec msg (tm # tms) th =
     (case threshold_Apply dec msg (fst tm) (snd tm) th of
        (Inl e, th) \<Rightarrow> threshold_run dec msg tms th
      | (Inr r, th) \<Rightarrow> (case threshold_run dec msg tms th of (rs, th) \<Rightarrow> (rs @ [r], th)))"

text \<open>Threshold changes undone in the opposite order leave every threshold as it was before the first.\<close>

theorem threshold_rollbacks:
  "threshold_Get (fold threshold_rollback (fst (threshold_run dec msg tms th)) (snd (threshold_run dec msg tms th))) key = threshold_Get th key"
proof (induction tms arbitrary: th)
  case (Cons tm tms)
  show ?case
  proof (cases "dec (m_AfterState (snd tm))")
    case (Inl e)
    then show ?thesis using Cons by (simp add: threshold_Apply_def)
  next
    case (Inr kv)
    obtain k v where kv: "kv = (k, v)" by force
    obtain rs th' where r: "threshold_run dec msg tms (mset_at th k v) = (rs, th')" by force
    have IH: "threshold_Get (fold threshold_rollback rs th') key = threshold_Get (mset_at th k v) key" using Cons.IH [of "mset_at th k v"] by (simp add: r)
    show ?thesis using IH by (simp add: threshold_Apply_def Inr kv Let_def r threshold_rollback_def [of "\<lparr>al_Applied = _, al_Message = _, al_Rollback = _, al_AppliedAt = _\<rparr>"])
        (simp add: threshold_Get_def)
  qed
qed simp

end
